(* ===== verification/Prelude.thy ===== *)
theory Prelude
  imports Main "HOL-Library.List_Lexorder" "HOL-Library.Char_ord" "HOL-Library.Product_Lexorder"
begin

text \<open>
  What the component theories share.

  The program keeps its durable state in PostgreSQL tables and its volatile state in Python
  dictionaries. Both are modelled as lists of rows with a key function, in insertion order:
  a \<open>SELECT ... WHERE\<close> is \<open>filter\<close>, a lookup by primary key is \<open>lookup_row\<close>, an
  \<open>UPDATE ... WHERE\<close> is \<open>update_rows\<close>, an \<open>INSERT\<close> appends, and the aggregate of a
  column is \<open>total\<close>. The lemmas here say how lookups, key lists and totals react to
  updates and inserts; the component proofs rest on them.

  A call that may raise returns \<open>error + result\<close>; a transaction that raises is rolled
  back, so an \<open>Inl\<close> carries no state.
\<close>

section \<open>Fact collections\<close>

named_theorems row_simps \<open>how lookups and totals react to row updates\<close>
named_theorems inv_intros \<open>preservation of a ledger invariant by a primitive update\<close>

section \<open>Results\<close>

definition and_then :: "'e + 'a \<Rightarrow> ('a \<Rightarrow> 'e + 'b) \<Rightarrow> 'e + 'b" where
  "and_then r k = (case r of Inl e \<Rightarrow> Inl e | Inr x \<Rightarrow> k x)"

lemma and_then_simps [simp]:
  "and_then (Inl e) k = Inl e"
  "and_then (Inr x) k = k x"
  by (simp_all add: and_then_def)

lemma and_then_Inr_iff: "and_then r k = Inr y \<longleftrightarrow> (\<exists>x. r = Inr x \<and> k x = Inr y)"
  by (cases r) auto

lemma and_then_InrE:
  assumes "and_then r k = Inr y"
  obtains x where "r = Inr x" and "k x = Inr y"
  using assms by (auto simp: and_then_Inr_iff)

definition require :: "bool \<Rightarrow> 'e \<Rightarrow> 'e + unit" where
  "require b e = (if b then Inr () else Inl e)"

lemma require_Inr [simp]: "require b e = Inr u \<longleftrightarrow> b"
  by (auto simp: require_def)

lemma require_True [simp]: "b \<Longrightarrow> require b e = Inr ()"
  by (simp add: require_def)

lemma require_False [simp]: "\<not> b \<Longrightarrow> require b e = Inl e"
  by (simp add: require_def)

definition is_ok :: "'e + 'a \<Rightarrow> bool" where
  "is_ok r = (case r of Inl _ \<Rightarrow> False | Inr _ \<Rightarrow> True)"

lemma is_ok_simps [simp]: "is_ok (Inl e) = False" "is_ok (Inr x) = True"
  by (simp_all add: is_ok_def)

section \<open>Rows\<close>

definition lookup_row :: "('r \<Rightarrow> 'k) \<Rightarrow> 'k \<Rightarrow> 'r list \<Rightarrow> 'r option" where
  "lookup_row key k t = find (\<lambda>r. key r = k) t"

definition update_rows :: "('r \<Rightarrow> bool) \<Rightarrow> ('r \<Rightarrow> 'r) \<Rightarrow> 'r list \<Rightarrow> 'r list" where
  "update_rows p f t = map (\<lambda>r. if p r then f r else r) t"

definition total :: "('r \<Rightarrow> int) \<Rightarrow> 'r list \<Rightarrow> int" where
  "total w t = sum_list (map w t)"

definition count_rows :: "('r \<Rightarrow> bool) \<Rightarrow> 'r list \<Rightarrow> int" where
  "count_rows p t = int (length (filter p t))"

lemma lookup_row_simps [simp]:
  "lookup_row key k [] = None"
  "lookup_row key k (r # t) = (if key r = k then Some r else lookup_row key k t)"
  by (simp_all add: lookup_row_def)

lemma update_rows_simps [simp]:
  "update_rows p f [] = []"
  "update_rows p f (r # t) = (if p r then f r else r) # update_rows p f t"
  by (simp_all add: update_rows_def)

lemma total_simps [simp]:
  "total w [] = 0"
  "total w (r # t) = w r + total w t"
  by (simp_all add: total_def)

lemma count_rows_simps [simp]:
  "count_rows p [] = 0"
  "count_rows p (r # t) = (if p r then 1 else 0) + count_rows p t"
  by (simp_all add: count_rows_def)

lemma total_append [simp]: "total w (t @ u) = total w t + total w u"
  by (induction t) auto

lemma count_rows_append [simp]: "count_rows p (t @ u) = count_rows p t + count_rows p u"
  by (simp add: count_rows_def)

lemma count_rows_nonneg [simp]: "0 \<le> count_rows p t"
  by (simp add: count_rows_def)

lemma count_rows_as_total: "count_rows p t = total (\<lambda>r. if p r then 1 else 0) t"
  by (induction t) auto

lemma count_rows_0_iff: "count_rows p t = 0 \<longleftrightarrow> (\<forall>r \<in> set t. \<not> p r)"
  by (auto simp: count_rows_def filter_empty_conv)

lemma count_rows_mono:
  "(\<And>r. r \<in> set t \<Longrightarrow> p r \<Longrightarrow> q r) \<Longrightarrow> count_rows p t \<le> count_rows q t"
proof (induction t)
  case (Cons a t)
  then have "count_rows p t \<le> count_rows q t" by simp
  with Cons.prems [of a] show ?case by auto
qed simp

lemma total_nonneg: "(\<And>r. r \<in> set t \<Longrightarrow> 0 \<le> w r) \<Longrightarrow> 0 \<le> total w t"
  by (induction t) auto

lemma total_cong: "(\<And>r. r \<in> set t \<Longrightarrow> w r = v r) \<Longrightarrow> total w t = total v t"
  by (induction t) auto

lemma total_zero: "(\<And>r. r \<in> set t \<Longrightarrow> w r = 0) \<Longrightarrow> total w t = 0"
  by (induction t) auto

lemma total_ge_member:
  "r \<in> set t \<Longrightarrow> (\<And>s. s \<in> set t \<Longrightarrow> 0 \<le> w s) \<Longrightarrow> w r \<le> total w t"
proof (induction t)
  case (Cons a t)
  then show ?case using total_nonneg[of t w] by (cases "r = a") fastforce+
qed simp

lemma length_update_rows [simp]: "length (update_rows p f t) = length t"
  by (simp add: update_rows_def)

lemma set_update_rows:
  "set (update_rows p f t) = (\<lambda>r. if p r then f r else r) ` set t"
  by (simp add: update_rows_def)

lemma update_rows_append [simp]:
  "update_rows p f (t @ u) = update_rows p f t @ update_rows p f u"
  by (simp add: update_rows_def)

lemma map_update_rows [simp]:
  "(\<And>r. p r \<Longrightarrow> g (f r) = g r) \<Longrightarrow> map g (update_rows p f t) = map g t"
  by (induction t) auto

lemma update_rows_none: "(\<And>r. r \<in> set t \<Longrightarrow> \<not> p r) \<Longrightarrow> update_rows p f t = t"
  by (induction t) auto

lemma lookup_row_Some_key: "lookup_row key k t = Some r \<Longrightarrow> key r = k"
  by (induction t) (auto split: if_splits)

lemma lookup_row_Some_in: "lookup_row key k t = Some r \<Longrightarrow> r \<in> set t"
  by (induction t) (auto split: if_splits)

lemma lookup_row_None_iff: "lookup_row key k t = None \<longleftrightarrow> k \<notin> key ` set t"
  by (induction t) auto

lemma lookup_row_iff:
  "distinct (map key t) \<Longrightarrow> lookup_row key k t = Some r \<longleftrightarrow> r \<in> set t \<and> key r = k"
  by (induction t) auto

lemma lookup_row_append:
  "lookup_row key k (t @ u) =
     (case lookup_row key k t of None \<Rightarrow> lookup_row key k u | Some r \<Rightarrow> Some r)"
  by (induction t) auto

text \<open>An update that leaves the key alone maps through a lookup.\<close>

lemma lookup_update_rows [row_simps]:
  "(\<And>r. p r \<Longrightarrow> key (f r) = key r) \<Longrightarrow>
   lookup_row key k (update_rows p f t) =
     map_option (\<lambda>r. if p r then f r else r) (lookup_row key k t)"
  by (induction t) auto

lemma lookup_update_key [simp]:
  "lookup_row key k t = Some r \<Longrightarrow> key (f r) = k \<Longrightarrow>
   lookup_row key k (update_rows (\<lambda>r. key r = k) f t) = Some (f r)"
  by (induction t) (auto split: if_splits)

text \<open>
  A total after an update of one row: with distinct keys, only that row's weight moves. This
  is the bookkeeping step behind every budget and counter invariant.
\<close>

lemma total_update_other:
  "(\<And>r. r \<in> set t \<Longrightarrow> p r \<Longrightarrow> w (f r) = w r) \<Longrightarrow> total w (update_rows p f t) = total w t"
  by (induction t) auto

lemma total_update_one:
  assumes "distinct (map key t)" and "lookup_row key k t = Some r"
  shows "total w (update_rows (\<lambda>r. key r = k) f t) = total w t - w r + w (f r)"
  using assms
proof (induction t)
  case (Cons a t)
  show ?case
  proof (cases "key a = k")
    case True
    with Cons.prems have "a = r" and "k \<notin> key ` set t" by auto
    moreover from \<open>k \<notin> key ` set t\<close> have "update_rows (\<lambda>r. key r = k) f t = t"
      by (intro update_rows_none) auto
    ultimately show ?thesis using True by simp
  next
    case False
    with Cons show ?thesis by simp
  qed
qed simp

lemma count_update_one:
  assumes "distinct (map key t)" and "lookup_row key k t = Some r"
  shows "count_rows p (update_rows (\<lambda>r. key r = k) f t) =
    count_rows p t - (if p r then 1 else 0) + (if p (f r) then 1 else 0)"
  using total_update_one [OF assms, of "\<lambda>r. if p r then 1 else 0" f]
  by (simp add: count_rows_as_total)

lemma ball_update_rows:
  "(\<forall>r \<in> set (update_rows p f t). Q r) \<longleftrightarrow> (\<forall>r \<in> set t. Q (if p r then f r else r))"
  by (auto simp: set_update_rows)

lemma distinct_sort_filter:
  "distinct (map key t) \<Longrightarrow> distinct (map key (sort_key f (filter p t)))"
  by (metis distinct_map distinct_map_filter set_sort distinct_sort)

lemma distinct_lookup_unique:
  "distinct (map key t) \<Longrightarrow> r \<in> set t \<Longrightarrow> s \<in> set t \<Longrightarrow> key r = key s \<Longrightarrow> r = s"
  by (auto simp: distinct_map inj_on_def)

section \<open>Removing rows\<close>

definition remove_row :: "('r \<Rightarrow> 'k) \<Rightarrow> 'k \<Rightarrow> 'r list \<Rightarrow> 'r list" where
  "remove_row key k t = filter (\<lambda>r. key r \<noteq> k) t"

lemma lookup_remove_row [row_simps]:
  "lookup_row key k (remove_row key j t) = (if k = j then None else lookup_row key k t)"
  by (induction t) (auto simp: remove_row_def)

lemma distinct_remove_row [simp]: "distinct (map key t) \<Longrightarrow> distinct (map key (remove_row key k t))"
  by (auto simp: remove_row_def distinct_map_filter)

lemma set_remove_row [simp]: "set (remove_row key k t) = {r \<in> set t. key r \<noteq> k}"
  by (simp add: remove_row_def)

lemma remove_row_absent: "lookup_row key k t = None \<Longrightarrow> remove_row key k t = t"
  by (auto simp: remove_row_def lookup_row_None_iff intro: filter_True)

lemma count_remove_row:
  assumes "distinct (map key t)" and "lookup_row key k t = Some r"
  shows "count_rows p (remove_row key k t) = count_rows p t - (if p r then 1 else 0)"
  using assms
proof (induction t)
  case (Cons a t)
  show ?case
  proof (cases "key a = k")
    case True
    with Cons.prems have "a = r" and "k \<notin> key ` set t" by auto
    then have "remove_row key k t = t" by (intro remove_row_absent) (simp add: lookup_row_None_iff)
    with True \<open>a = r\<close> show ?thesis by (simp add: remove_row_def)
  next
    case False
    with Cons show ?thesis by (simp add: remove_row_def)
  qed
qed simp

section \<open>Optional values\<close>

text \<open>Python's \<open>x or y\<close> for an optional value that is never falsy when present.\<close>

definition or_else :: "'a option \<Rightarrow> 'a \<Rightarrow> 'a" where
  "or_else x y = (case x of None \<Rightarrow> y | Some v \<Rightarrow> v)"

lemma or_else_simps [simp]: "or_else None y = y" "or_else (Some v) y = v"
  by (simp_all add: or_else_def)

text \<open>SQL's \<open>COALESCE(column, value)\<close>: the column keeps the value it has.\<close>

definition coalesce :: "'a option \<Rightarrow> 'a \<Rightarrow> 'a option" where
  "coalesce x y = Some (or_else x y)"

lemma coalesce_simps [simp]: "coalesce None y = Some y" "coalesce (Some v) y = Some v"
  by (simp_all add: coalesce_def)

lemma coalesce_neq_None [simp]: "coalesce x y \<noteq> None"
  by (simp add: coalesce_def)

end
