(* ===== verification/Json.thy ===== *)
theory Json
  imports Prelude
begin

text \<open>
  Decoded JSON as Python's \<open>json\<close> module gives it, with the tests the code makes on it:
  \<open>isinstance\<close>, \<open>type(x) is int\<close>, \<open>.get\<close> on a dict. A float keeps its text, since no
  modelled code computes with one. A dict is an association list; a later binding of a key
  hides an earlier one, so lookups read from the end.
\<close>

datatype json =
    JNull
  | JBool bool
  | JInt int
  | JFloat string
  | JString string
  | JList "json list"
  | JDict "(string \<times> json) list"

definition jlookup :: "string \<Rightarrow> (string \<times> json) list \<Rightarrow> json option" where
  "jlookup k d = map_option snd (find (\<lambda>kv. fst kv = k) (rev d))"

text \<open>\<open>value.get(key)\<close>: nothing for a missing key, and for a value that is not a dict the
caller has already been refused.\<close>

fun jget :: "string \<Rightarrow> json \<Rightarrow> json" where
  "jget k (JDict d) = (case jlookup k d of None \<Rightarrow> JNull | Some v \<Rightarrow> v)"
| "jget k _ = JNull"

fun jhas :: "string \<Rightarrow> json \<Rightarrow> bool" where
  "jhas k (JDict d) = (jlookup k d \<noteq> None)"
| "jhas k _ = False"

fun is_dict :: "json \<Rightarrow> bool" where
  "is_dict (JDict _) = True"
| "is_dict _ = False"

fun is_list :: "json \<Rightarrow> bool" where
  "is_list (JList _) = True"
| "is_list _ = False"

text \<open>\<open>type(x) is int\<close>; \<open>bool\<close> is a subclass, so \<open>isinstance(x, int)\<close> holds of it too.\<close>

fun plain_int :: "json \<Rightarrow> int option" where
  "plain_int (JInt n) = Some n"
| "plain_int _ = None"

fun as_string :: "json \<Rightarrow> string option" where
  "as_string (JString s) = Some s"
| "as_string _ = None"

definition nonempty_string :: "json \<Rightarrow> bool" where
  "nonempty_string j \<longleftrightarrow> (case as_string j of None \<Rightarrow> False | Some s \<Rightarrow> s \<noteq> [])"

end
