(* ===== verification/Contracts.thy ===== *)
theory Contracts
  imports Json
begin

text \<open>
  The wire contracts of \<open>contracts.py\<close> and \<open>direct.py\<close>, with the two pure
  classification modules \<open>workload.py\<close> and \<open>epochs.py\<close>.

  A frozen pydantic model is a record, and its field constraints and validators are the
  predicate \<open>valid_...\<close>: constructing the model raises exactly where the predicate is
  false. The subclasses of \<open>_OperationSpec\<close> and \<open>_PoolSpec\<close> are one record with the
  subclass's own fields in a datatype (\<open>operation_body\<close>, \<open>pool_body\<close>); the Python
  properties \<open>kind\<close>, \<open>budget_unit\<close>, \<open>budget_bound\<close> and \<open>request_limit\<close> are
  functions on it.

  Instants and durations are integers, one unit a microsecond (the resolution of
  \<open>timestamptz\<close> and of Python's \<open>timedelta\<close>). Strings are Isabelle strings.
\<close>

section \<open>Exceptions\<close>

text \<open>\<open>IntegrityError\<close> is what PostgreSQL raises when a key or \<open>CHECK\<close> is violated.\<close>

datatype send_budget_reason = SendAttemptsExhausted | SendBudgetUnavailableReason

datatype error =
    RuntimeConflict string
  | SendBudgetUnavailable send_budget_reason
  | AdmissionDenied string bool   \<comment> \<open>message, retryable\<close>
  | NotFound string
  | ValueError string
  | KeyError string
  | PyTimeoutError string
  | IntegrityError string

text \<open>\<open>SendBudgetUnavailable\<close> is a subclass of \<open>RuntimeConflict\<close>.\<close>

fun is_runtime_conflict :: "error \<Rightarrow> bool" where
  "is_runtime_conflict (RuntimeConflict _) = True"
| "is_runtime_conflict (SendBudgetUnavailable _) = True"
| "is_runtime_conflict _ = False"

fun send_budget_reason_text :: "send_budget_reason \<Rightarrow> string" where
  "send_budget_reason_text SendAttemptsExhausted = ''send_attempts_exhausted''"
| "send_budget_reason_text SendBudgetUnavailableReason = ''send_budget_unavailable''"

text \<open>The text of the exception: the reason and its detail.\<close>

definition send_budget_text :: "send_budget_reason \<Rightarrow> string" where
  "send_budget_text r = send_budget_reason_text r @ '': '' @
     (if r = SendAttemptsExhausted then ''attempt budget exhausted before send''
      else ''resource budget unavailable before send'')"

section \<open>Datetimes\<close>

text \<open>A Python datetime with or without \<open>tzinfo\<close>; only aware ones denote an instant.\<close>

datatype py_datetime = Aware int | Naive int

fun aware :: "py_datetime \<Rightarrow> error + int" where
  "aware (Aware t) = Inr t"
| "aware (Naive _) = Inl (ValueError ''deadline must include timezone'')"

definition seconds :: "int \<Rightarrow> int" where
  "seconds n = n * 1000000"

definition DEFAULT_ATTEMPT_TIMEOUT :: int where
  "DEFAULT_ATTEMPT_TIMEOUT = seconds 1800"

text \<open>\<open>AttemptTimeout\<close>: a positive, finite number of seconds, at most a day.\<close>

definition valid_attempt_timeout :: "int \<Rightarrow> bool" where
  "valid_attempt_timeout t \<longleftrightarrow> 0 < t \<and> t \<le> seconds 86400"

section \<open>Enumerations\<close>

datatype operation_state =
  READY | EXECUTING | RECONCILING | RETRY_WAIT | SUCCEEDED | FAILED | CANCELLED

datatype kind = Llm | Speech | Embedding | Rerank

datatype budget_unit = Tokens | SpeechCharacters | EmbeddingCharacters

datatype workload_class = Qa | UserTask | Background | Maintenance

text \<open>A root's \<open>priority\<close>: a workload class or the retained \<open>interactive\<close>.\<close>

datatype priority = Priority workload_class | Interactive

text \<open>\<open>RANK\<close> of \<open>memory_scheduler.py\<close>; it orders the classes.\<close>

fun RANK :: "workload_class \<Rightarrow> nat" where
  "RANK Qa = 0"
| "RANK UserTask = 1"
| "RANK Background = 2"
| "RANK Maintenance = 3"

lemma RANK_inject [simp]: "RANK a = RANK b \<longleftrightarrow> a = b"
  by (cases a; cases b) auto

instantiation workload_class :: linorder
begin

definition less_eq_workload_class :: "workload_class \<Rightarrow> workload_class \<Rightarrow> bool" where
  "less_eq_workload_class a b \<longleftrightarrow> RANK a \<le> RANK b"

definition less_workload_class :: "workload_class \<Rightarrow> workload_class \<Rightarrow> bool" where
  "less_workload_class a b \<longleftrightarrow> RANK a < RANK b"

instance
  by standard (auto simp: less_eq_workload_class_def less_workload_class_def)

end

fun root_workload :: "priority \<Rightarrow> workload_class" where
  "root_workload Interactive = UserTask"
| "root_workload (Priority w) = w"

text \<open>The states the SQL lists as \<open>('SUCCEEDED','FAILED','CANCELLED')\<close>.\<close>

fun op_terminal :: "operation_state \<Rightarrow> bool" where
  "op_terminal SUCCEEDED = True"
| "op_terminal FAILED = True"
| "op_terminal CANCELLED = True"
| "op_terminal _ = False"

section \<open>Artifacts\<close>

record artifact =
  art_key :: string
  art_sha256 :: string
  art_size :: int
  art_content_type :: string

definition lower_hex :: "char \<Rightarrow> bool" where
  "lower_hex c \<longleftrightarrow> c \<in> set ''0123456789abcdef''"

definition is_sha256 :: "string \<Rightarrow> bool" where
  "is_sha256 s \<longleftrightarrow> length s = 64 \<and> list_all lower_hex s"

definition len_between :: "nat \<Rightarrow> nat \<Rightarrow> string \<Rightarrow> bool" where
  "len_between lo hi s \<longleftrightarrow> lo \<le> length s \<and> length s \<le> hi"

definition valid_artifact :: "artifact \<Rightarrow> bool" where
  "valid_artifact a \<longleftrightarrow> len_between 1 1024 (art_key a) \<and> is_sha256 (art_sha256 a) \<and> 0 \<le> art_size a"

section \<open>Roots\<close>

record root_spec =
  rs_root_id :: string
  rs_tenant_id :: string
  rs_deadline :: int
  rs_budget_limit :: int
  rs_resource_budgets :: "(budget_unit \<times> int) list"
  rs_max_operations :: int
  rs_max_pending :: int
  rs_max_attempts :: int
  rs_priority :: priority

definition valid_root_spec :: "root_spec \<Rightarrow> bool" where
  "valid_root_spec s \<longleftrightarrow>
     len_between 1 200 (rs_root_id s) \<and> len_between 1 200 (rs_tenant_id s) \<and>
     0 < rs_budget_limit s \<and>
     distinct (map fst (rs_resource_budgets s)) \<and>
     list_all (\<lambda>(u, n). u \<noteq> Tokens \<and> 0 < n) (rs_resource_budgets s) \<and>
     0 < rs_max_operations s \<and> rs_max_operations s \<le> 100000 \<and>
     0 < rs_max_pending s \<and> rs_max_pending s \<le> 1024 \<and>
     0 < rs_max_attempts s"

section \<open>Operations\<close>

datatype operation_body =
    LlmBody (input_tokens_bound: int) (max_output_tokens: int)
  | SpeechBody (speech_characters_bound: int)
  | EmbeddingBody (op_model_revision: string) (embedding_characters_bound: int) (texts_count: int)

record operation_spec =
  os_operation_id :: string
  os_root_id :: string
  os_tenant_id :: string
  os_payload :: artifact
  os_model_profile :: string
  os_expected_cost :: int
  os_max_attempts :: int
  os_attempt_timeout :: int
  os_deadline :: "int option"
  os_capacity_profile_id :: "string option"
  os_required_capabilities :: "string set"
  os_body :: operation_body

fun body_kind :: "operation_body \<Rightarrow> kind" where
  "body_kind (LlmBody _ _) = Llm"
| "body_kind (SpeechBody _) = Speech"
| "body_kind (EmbeddingBody _ _ _) = Embedding"

fun body_unit :: "operation_body \<Rightarrow> budget_unit" where
  "body_unit (LlmBody _ _) = Tokens"
| "body_unit (SpeechBody _) = SpeechCharacters"
| "body_unit (EmbeddingBody _ _ _) = EmbeddingCharacters"

fun body_bound :: "operation_body \<Rightarrow> int" where
  "body_bound (LlmBody inp out) = inp + out"
| "body_bound (SpeechBody c) = c"
| "body_bound (EmbeddingBody _ c _) = max 1 c"

abbreviation op_kind :: "operation_spec \<Rightarrow> kind" where
  "op_kind s \<equiv> body_kind (os_body s)"

abbreviation budget_unit_of :: "operation_spec \<Rightarrow> budget_unit" where
  "budget_unit_of s \<equiv> body_unit (os_body s)"

abbreviation budget_bound_of :: "operation_spec \<Rightarrow> int" where
  "budget_bound_of s \<equiv> body_bound (os_body s)"

definition revision_char :: "char \<Rightarrow> bool" where
  "revision_char c \<longleftrightarrow>
     c \<in> set ''ABCDEFGHIJKLMNOPQRSTUVWXYZabcdefghijklmnopqrstuvwxyz0123456789._:-''"

definition valid_revision :: "string \<Rightarrow> bool" where
  "valid_revision s \<longleftrightarrow> len_between 1 200 s \<and> list_all revision_char s"

fun valid_body :: "operation_body \<Rightarrow> bool" where
  "valid_body (LlmBody inp out) = (0 \<le> inp \<and> 0 < out)"
| "valid_body (SpeechBody c) = (0 < c)"
| "valid_body (EmbeddingBody r c n) = (valid_revision r \<and> 0 \<le> c \<and> 0 < n)"

definition valid_operation :: "operation_spec \<Rightarrow> bool" where
  "valid_operation s \<longleftrightarrow>
     len_between 1 240 (os_operation_id s) \<and> len_between 1 200 (os_root_id s) \<and>
     len_between 1 200 (os_tenant_id s) \<and> valid_artifact (os_payload s) \<and>
     len_between 1 120 (os_model_profile s) \<and> 0 < os_expected_cost s \<and>
     1 \<le> os_max_attempts s \<and> os_max_attempts s \<le> 10 \<and>
     valid_attempt_timeout (os_attempt_timeout s) \<and> valid_body (os_body s)"

lemma valid_body_bound_pos: "valid_body b \<Longrightarrow> 0 < body_bound b"
  by (cases b) auto

lemma valid_operation_bound_pos [simp]: "valid_operation s \<Longrightarrow> 0 < budget_bound_of s"
  by (simp add: valid_operation_def valid_body_bound_pos)

lemma body_unit_Tokens_iff: "body_unit b = Tokens \<longleftrightarrow> body_kind b = Llm"
  by (cases b) auto

text \<open>
  \<open>parse_operation\<close> picks the class from the raw \<open>kind\<close> key: records without one are
  completion records, and so is any unknown kind.
\<close>

definition operation_class :: "string option \<Rightarrow> kind" where
  "operation_class k =
     (if k = Some ''speech'' then Speech else if k = Some ''embedding'' then Embedding else Llm)"

text \<open>What a validated spec serialises as its \<open>kind\<close>: completion specs have no such field.\<close>

fun dumped_kind :: "operation_body \<Rightarrow> string option" where
  "dumped_kind (LlmBody _ _) = None"
| "dumped_kind (SpeechBody _) = Some ''speech''"
| "dumped_kind (EmbeddingBody _ _ _) = Some ''embedding''"

lemma operation_class_dumped: "operation_class (dumped_kind b) = body_kind b"
  by (cases b) (auto simp: operation_class_def)

section \<open>Pools\<close>

datatype pool_body =
    LlmPool int
  | SpeechPool int
  | EmbeddingPool int int
  | RerankPool int int

record pool_spec =
  ps_pool_id :: string
  ps_group_id :: string
  ps_engine_epoch :: string
  ps_profile_id :: string
  ps_model_profile :: string
  ps_model_revision :: string
  ps_hard_ceiling :: int
  ps_target :: int
  ps_transport_limit :: int
  ps_background_transport_limit :: int
  ps_valid_until :: "int option"
  ps_capabilities :: "string set"
  ps_body :: pool_body

fun pool_body_kind :: "pool_body \<Rightarrow> kind" where
  "pool_body_kind (LlmPool _) = Llm"
| "pool_body_kind (SpeechPool _) = Speech"
| "pool_body_kind (EmbeddingPool _ _) = Embedding"
| "pool_body_kind (RerankPool _ _) = Rerank"

fun pool_body_limit :: "pool_body \<Rightarrow> int" where
  "pool_body_limit (LlmPool n) = n"
| "pool_body_limit (SpeechPool n) = n"
| "pool_body_limit (EmbeddingPool n _) = n"
| "pool_body_limit (RerankPool n _) = n"

text \<open>\<open>getattr(profile, "max_batch_size", default)\<close>.\<close>

fun pool_body_batch :: "pool_body \<Rightarrow> int \<Rightarrow> int" where
  "pool_body_batch (EmbeddingPool _ b) d = b"
| "pool_body_batch (RerankPool _ b) d = b"
| "pool_body_batch _ d = d"

abbreviation pool_kind :: "pool_spec \<Rightarrow> kind" where
  "pool_kind s \<equiv> pool_body_kind (ps_body s)"

abbreviation request_limit :: "pool_spec \<Rightarrow> int" where
  "request_limit s \<equiv> pool_body_limit (ps_body s)"

abbreviation max_batch_size :: "pool_spec \<Rightarrow> int \<Rightarrow> int" where
  "max_batch_size s \<equiv> pool_body_batch (ps_body s)"

fun valid_pool_body :: "pool_body \<Rightarrow> bool" where
  "valid_pool_body (LlmPool n) = (0 < n)"
| "valid_pool_body (SpeechPool n) = (0 < n)"
| "valid_pool_body (EmbeddingPool n b) = (0 < n \<and> 0 < b \<and> b \<le> 256)"
| "valid_pool_body (RerankPool n b) = (0 < n \<and> 0 < b \<and> b \<le> 256)"

definition valid_pool :: "pool_spec \<Rightarrow> bool" where
  "valid_pool s \<longleftrightarrow>
     len_between 1 120 (ps_pool_id s) \<and> len_between 1 120 (ps_group_id s) \<and>
     ps_engine_epoch s \<noteq> [] \<and> ps_profile_id s \<noteq> [] \<and> ps_model_profile s \<noteq> [] \<and>
     ps_model_revision s \<noteq> [] \<and>
     0 < ps_hard_ceiling s \<and> 0 \<le> ps_target s \<and> ps_target s \<le> ps_hard_ceiling s \<and>
     1 \<le> ps_transport_limit s \<and> ps_transport_limit s \<le> 4096 \<and>
     1 \<le> ps_background_transport_limit s \<and> ps_background_transport_limit s \<le> 4096 \<and>
     ps_background_transport_limit s \<le> ps_transport_limit s \<and>
     valid_pool_body (ps_body s)"

definition pool_class :: "string option \<Rightarrow> kind" where
  "pool_class k =
     (if k = Some ''speech'' then Speech else if k = Some ''embedding'' then Embedding
      else if k = Some ''rerank'' then Rerank else Llm)"

section \<open>Reservations\<close>

record reservation =
  rv_attempt_id :: string
  rv_operation :: operation_spec
  rv_pool_id :: string
  rv_engine_epoch :: string
  rv_model_revision :: string
  rv_owner_id :: string
  rv_lease_epoch :: int
  rv_sent_attempts :: int
  rv_attempt_deadline :: int
  rv_workload_class :: workload_class

section \<open>Direct requests\<close>

datatype admission_mode = Wait | Try

record direct_request =
  dq_request_id :: string
  dq_tenant_id :: string
  dq_payload_digest :: string
  dq_model_profile :: string
  dq_model_revision :: "string option"
  dq_expected_engine_epoch :: "string option"
  dq_capacity_profile_id :: string
  dq_kind :: kind
  dq_request_bound :: int
  dq_batch_size :: int
  dq_deadline :: int
  dq_workload_class :: workload_class
  dq_logical_request_id :: "string option"
  dq_admission_mode :: admission_mode
  dq_dispatch_before :: "int option"
  dq_execution_timeout :: "int option"

definition opt_all :: "('a \<Rightarrow> bool) \<Rightarrow> 'a option \<Rightarrow> bool" where
  "opt_all p x = (case x of None \<Rightarrow> True | Some v \<Rightarrow> p v)"

definition valid_direct_request :: "direct_request \<Rightarrow> bool" where
  "valid_direct_request q \<longleftrightarrow>
     len_between 1 200 (dq_request_id q) \<and> len_between 1 200 (dq_tenant_id q) \<and>
     is_sha256 (dq_payload_digest q) \<and> len_between 1 120 (dq_model_profile q) \<and>
     opt_all (\<lambda>s. s \<noteq> []) (dq_model_revision q) \<and>
     opt_all (\<lambda>s. s \<noteq> []) (dq_expected_engine_epoch q) \<and>
     len_between 1 200 (dq_capacity_profile_id q) \<and> 0 < dq_request_bound q \<and>
     0 < dq_batch_size q \<and> dq_batch_size q \<le> 256 \<and>
     opt_all (\<lambda>s. length s \<le> 200) (dq_logical_request_id q) \<and>
     opt_all (\<lambda>t. 0 < t \<and> t \<le> seconds 86400) (dq_execution_timeout q)"

record direct_reservation =
  dr_attempt_id :: string
  dr_request :: direct_request
  dr_pool_id :: string
  dr_engine_epoch :: string
  dr_owner_id :: string
  dr_generation :: int

section \<open>Task classification\<close>

definition USER_TASK_TYPES :: "string list" where
  "USER_TASK_TYPES =
     [''summary'', ''mindmap'', ''rewrite'', ''draft'', ''enrich'', ''pptx'', ''exam'',
      ''teaching'', ''audio'', ''audio-overview'', ''translation'', ''directive-review'',
      ''directive_review'']"

definition MAINTENANCE_TASK_TYPES :: "string list" where
  "MAINTENANCE_TASK_TYPES = [''conversation.compact'', ''conversation.title'', ''memory'']"

text \<open>
  The second argument is the definition's own \<open>priority\<close>, from the trusted registry; the
  caller's submission only supplies the task type.
\<close>

definition workload_for_task :: "string \<Rightarrow> priority option \<Rightarrow> priority" where
  "workload_for_task task_type explicit =
     (case explicit of
        Some p \<Rightarrow> p
      | None \<Rightarrow>
          (let base = takeWhile (\<lambda>c. c \<noteq> CHR ''/'') task_type in
           if base \<in> set USER_TASK_TYPES then Priority UserTask
           else if base \<in> set MAINTENANCE_TASK_TYPES then Priority Maintenance
           else Priority Background))"

text \<open>
  \<open>epoch_lags_engine\<close>: \<open>parse_timestamp\<close> reads an RFC3339 text with the standard
  library's \<open>fromisoformat\<close> and gives nothing for a label or for a time without a zone, so
  here it is given as the parsed value.
\<close>

definition parse_timestamp :: "py_datetime option \<Rightarrow> int option" where
  "parse_timestamp parsed = (case parsed of Some (Aware t) \<Rightarrow> Some t | _ \<Rightarrow> None)"

definition epoch_lags_engine :: "py_datetime option \<Rightarrow> py_datetime option \<Rightarrow> bool" where
  "epoch_lags_engine epoch started =
     (case (parse_timestamp epoch, parse_timestamp started) of
        (Some e, Some s) \<Rightarrow> e < s
      | _ \<Rightarrow> False)"

end
