(* ===== verification/Ledger.thy ===== *)
theory Ledger
  imports Contracts
begin

text \<open>
  The PostgreSQL ledger behind \<open>store.py\<close>: the tables of \<open>schema.sql\<close> and its
  migrations as lists of rows, and the small statements every transaction is built from.

  A method of \<open>Store\<close> is one transaction (or a named sequence of them): a function from the
  ledger to \<open>error + ledger \<times> result\<close>. The clocks the code reads are an argument: \<open>utc\<close>
  is Python's \<open>datetime.now(UTC)\<close>, \<open>txn_now\<close> is SQL's \<open>now()\<close> (fixed for a
  transaction), \<open>stamp\<close> is \<open>clock_timestamp()\<close> and \<open>stamp_later\<close> the reading a
  later statement of the same transaction takes. Nothing relates the four: the two machines'
  clocks may disagree.

  \<open>_wake\<close> queues one commit-coupled notification; \<open>woken\<close> is that pending signal.
\<close>

section \<open>Rows\<close>

datatype root_state = RUNNING | ROOT_SUCCEEDED | PARTIAL | ROOT_FAILED | ROOT_CANCELLED

datatype attempt_state =
    RESERVED | SEND_INTENT | ACTIVE | BACKEND_FINISHED | UNKNOWN
  | RESULT_COMMITTED | ATTEMPT_FAILED | FAILED_NOT_SENT
  | FINISHED | FAILED_RECOVERABLE

datatype health = HEALTHY | DEGRADED | UNAVAILABLE

record clocks =
  utc :: int
  txn_now :: int
  stamp :: int
  stamp_later :: int

record root_row =
  root_id :: string
  root_tenant_id :: string
  root_spec_of :: root_spec
  root_state :: root_state
  root_deadline :: int
  root_budget_limit :: int
  root_reserved :: int
  root_spent :: int
  root_attempts :: int
  root_operation_count :: int
  root_last_served :: int
  root_priority :: priority
  root_cancel_requested :: bool
  root_result :: "artifact option"
  root_terminal_reason :: "string option"
  root_finished_at :: "int option"
  root_created_at :: int

record group_row =
  group_id :: string
  group_hard_ceiling :: int
  group_health :: health

record pool_row =
  pool_id :: string
  pool_group_id :: string
  pool_spec_of :: pool_spec
  pool_engine_epoch :: string
  pool_envelope_version :: int
  pool_target :: int
  pool_hard_ceiling :: int
  pool_context_limit :: int
  pool_model_profile :: string
  pool_health :: health
  pool_valid_until :: "int option"
  pool_quiesce_token :: "string option"

record op_row =
  op_id :: string
  op_root_id :: string
  op_tenant_id :: string
  op_spec :: operation_spec
  op_state :: operation_state
  op_attempts :: int
  op_active_attempt :: "string option"
  op_result :: "artifact option"
  op_wait_reason :: "string option"
  op_retry_at :: "int option"
  op_created_at :: int

record attempt_row =
  att_id :: string
  att_operation_id :: string
  att_pool_id :: string
  att_engine_epoch :: string
  att_number :: int
  att_owner_id :: string
  att_lease_epoch :: int
  att_lease_expires_at :: int
  att_state :: attempt_state
  att_compute_held :: bool
  att_budget_held :: bool
  att_budget_bound :: int
  att_budget_unit :: budget_unit
  att_usage :: "int option"
  att_usage_estimated :: "bool option"
  att_error_class :: "string option"
  att_send_intent_at :: "int option"
  att_backend_finished_at :: "int option"
  att_result_committed_at :: "int option"
  att_unknown_at :: "int option"
  att_created_at :: int

datatype disposition = ResultDisposition | LateCancelled | LateTerminal

record artifact_row =
  arow_object_key :: string
  arow_tenant_id :: string
  arow_operation_id :: string
  arow_attempt_id :: string
  arow_manifest :: artifact
  arow_disposition :: disposition

text \<open>The submission document of a run, and the payload of the event that starts it.\<close>

record run_spec =
  run_workflow_type :: string
  run_task_queue :: string
  run_root_id :: string
  run_tenant_id :: string
  run_control_queue :: string
  run_input :: artifact
  run_configuration :: "artifact option"
  run_deadline :: "int option"

datatype event_payload =
    StartWorkflow run_spec
  | CancelWorkflow string
  | CompleteActivity string

record event_row =
  ev_id :: string
  ev_aggregate_id :: string
  ev_payload :: event_payload
  ev_available_at :: int
  ev_owner_id :: "string option"
  ev_lease_expires_at :: "int option"
  ev_delivered_at :: "int option"
  ev_deliveries :: int
  ev_created_at :: int

record binding_row =
  bind_id :: string
  bind_operation_id :: string
  bind_task_token :: string

record submission_row =
  sub_run_id :: string
  sub_tenant_id :: string
  sub_key :: string
  sub_input_digest :: string
  sub_spec :: run_spec

record update_row =
  upd_pool_id :: string
  upd_envelope_version :: int
  upd_target :: int
  upd_reason :: string

record budget_row =
  bud_root_id :: string
  bud_unit :: budget_unit
  bud_limit :: int
  bud_reserved :: int
  bud_spent :: int

record owner_row =
  own_id :: string
  own_boot :: string
  own_lease_expires_at :: int

text \<open>\<open>runtime_direct_attempts\<close> and \<open>runtime_direct_waiters\<close>: rows older releases left.\<close>

record direct_row =
  dir_attempt_id :: string
  dir_pool_id :: string
  dir_engine_epoch :: string
  dir_owner_id :: string
  dir_workload :: "workload_class option"
  dir_state :: attempt_state
  dir_compute_held :: bool
  dir_lease_expires_at :: int
  dir_deadline :: int
  dir_backend_finished_at :: "int option"
  dir_unknown_at :: "int option"
  dir_error_class :: "string option"
  dir_created_at :: int

record direct_waiter_row =
  dw_request_id :: string
  dw_owner_id :: string
  dw_deadline :: int

record ledger =
  max_roots :: int
  max_pending :: int
  t_roots :: "root_row list"
  t_groups :: "group_row list"
  t_pools :: "pool_row list"
  t_ops :: "op_row list"
  t_attempts :: "attempt_row list"
  t_artifacts :: "artifact_row list"
  t_outbox :: "event_row list"
  t_bindings :: "binding_row list"
  t_submissions :: "submission_row list"
  t_updates :: "update_row list"
  t_budgets :: "budget_row list"
  t_owners :: "owner_row list"
  t_models :: "string list"
  t_direct :: "direct_row list"
  t_direct_waiters :: "direct_waiter_row list"
  woken :: bool

text \<open>What the migrations leave: one authority row, every table empty.\<close>

definition empty_ledger :: ledger where
  "empty_ledger = \<lparr>max_roots = 128, max_pending = 2048, t_roots = [], t_groups = [],
     t_pools = [], t_ops = [], t_attempts = [], t_artifacts = [], t_outbox = [],
     t_bindings = [], t_submissions = [], t_updates = [], t_budgets = [], t_owners = [],
     t_models = [], t_direct = [], t_direct_waiters = [], woken = False\<rparr>"

section \<open>Statements\<close>

abbreviation find_root :: "ledger \<Rightarrow> string \<Rightarrow> root_row option" where
  "find_root L k \<equiv> lookup_row root_id k (t_roots L)"

abbreviation find_pool :: "ledger \<Rightarrow> string \<Rightarrow> pool_row option" where
  "find_pool L k \<equiv> lookup_row pool_id k (t_pools L)"

abbreviation find_group :: "ledger \<Rightarrow> string \<Rightarrow> group_row option" where
  "find_group L k \<equiv> lookup_row group_id k (t_groups L)"

abbreviation find_op :: "ledger \<Rightarrow> string \<Rightarrow> op_row option" where
  "find_op L k \<equiv> lookup_row op_id k (t_ops L)"

abbreviation find_attempt :: "ledger \<Rightarrow> string \<Rightarrow> attempt_row option" where
  "find_attempt L k \<equiv> lookup_row att_id k (t_attempts L)"

definition bud_key :: "budget_row \<Rightarrow> string \<times> budget_unit" where
  "bud_key b = (bud_root_id b, bud_unit b)"

abbreviation find_budget :: "ledger \<Rightarrow> string \<Rightarrow> budget_unit \<Rightarrow> budget_row option" where
  "find_budget L r u \<equiv> lookup_row bud_key (r, u) (t_budgets L)"

abbreviation find_event :: "ledger \<Rightarrow> string \<Rightarrow> event_row option" where
  "find_event L k \<equiv> lookup_row ev_id k (t_outbox L)"

definition set_root :: "string \<Rightarrow> (root_row \<Rightarrow> root_row) \<Rightarrow> ledger \<Rightarrow> ledger" where
  "set_root k f L = L\<lparr>t_roots := update_rows (\<lambda>r. root_id r = k) f (t_roots L)\<rparr>"

definition set_op :: "string \<Rightarrow> (op_row \<Rightarrow> op_row) \<Rightarrow> ledger \<Rightarrow> ledger" where
  "set_op k f L = L\<lparr>t_ops := update_rows (\<lambda>r. op_id r = k) f (t_ops L)\<rparr>"

definition set_attempt :: "string \<Rightarrow> (attempt_row \<Rightarrow> attempt_row) \<Rightarrow> ledger \<Rightarrow> ledger" where
  "set_attempt k f L = L\<lparr>t_attempts := update_rows (\<lambda>r. att_id r = k) f (t_attempts L)\<rparr>"

definition set_budget :: "string \<Rightarrow> budget_unit \<Rightarrow> (budget_row \<Rightarrow> budget_row) \<Rightarrow> ledger \<Rightarrow> ledger" where
  "set_budget r u f L = L\<lparr>t_budgets := update_rows (\<lambda>b. bud_key b = (r, u)) f (t_budgets L)\<rparr>"

definition set_pool :: "string \<Rightarrow> (pool_row \<Rightarrow> pool_row) \<Rightarrow> ledger \<Rightarrow> ledger" where
  "set_pool k f L = L\<lparr>t_pools := update_rows (\<lambda>r. pool_id r = k) f (t_pools L)\<rparr>"

definition wake :: "ledger \<Rightarrow> ledger" where
  "wake L = L\<lparr>woken := True\<rparr>"

lemmas statement_defs = set_root_def set_op_def set_attempt_def set_budget_def set_pool_def wake_def

text \<open>\<open>_event\<close>: \<open>INSERT ... ON CONFLICT(event_id) DO NOTHING\<close>, then \<open>_wake\<close>.\<close>

definition emit_event ::
    "clocks \<Rightarrow> string \<Rightarrow> string \<Rightarrow> event_payload \<Rightarrow> ledger \<Rightarrow> ledger" where
  "emit_event c eid agg payload L =
     wake (if find_event L eid = None
           then L\<lparr>t_outbox := t_outbox L @
                  [\<lparr>ev_id = eid, ev_aggregate_id = agg, ev_payload = payload,
                    ev_available_at = txn_now c, ev_owner_id = None,
                    ev_lease_expires_at = None, ev_delivered_at = None,
                    ev_deliveries = 0, ev_created_at = txn_now c\<rparr>]\<rparr>
           else L)"

definition completion_event_id :: "string \<Rightarrow> string" where
  "completion_event_id b = ''complete:'' @ b"

definition start_event_id :: "string \<Rightarrow> string" where
  "start_event_id r = ''start:'' @ r"

definition cancel_event_id :: "string \<Rightarrow> string" where
  "cancel_event_id r = ''cancel:'' @ r"

text \<open>\<open>_completion_events\<close>: one event for each binding of the operation.\<close>

fun emit_completions :: "clocks \<Rightarrow> string \<Rightarrow> binding_row list \<Rightarrow> ledger \<Rightarrow> ledger" where
  "emit_completions c k [] L = L"
| "emit_completions c k (b # bs) L =
     emit_completions c k bs
       (if bind_operation_id b = k
        then emit_event c (completion_event_id (bind_id b)) k (CompleteActivity (bind_id b)) L
        else L)"

definition completion_events :: "clocks \<Rightarrow> string \<Rightarrow> ledger \<Rightarrow> ledger" where
  "completion_events c k L = emit_completions c k (t_bindings L) L"

text \<open>\<open>_terminal\<close>: an update guarded by the terminal states, then the completion events.\<close>

definition finish_op :: "operation_state \<Rightarrow> string \<Rightarrow> op_row \<Rightarrow> op_row" where
  "finish_op st reason x =
     (if op_terminal (op_state x) then x else x\<lparr>op_state := st, op_wait_reason := Some reason\<rparr>)"

definition terminal ::
    "clocks \<Rightarrow> string \<Rightarrow> operation_state \<Rightarrow> string \<Rightarrow> ledger \<Rightarrow> ledger" where
  "terminal c k st reason L = completion_events c k (set_op k (finish_op st reason) L)"

text \<open>\<open>_expire_operation\<close>: tells whether the operation's own deadline has passed.\<close>

definition op_expired :: "operation_spec \<Rightarrow> int \<Rightarrow> bool" where
  "op_expired spec observed \<longleftrightarrow> (case os_deadline spec of None \<Rightarrow> False | Some d \<Rightarrow> d \<le> observed)"

definition expire_operation ::
    "clocks \<Rightarrow> operation_spec \<Rightarrow> int \<Rightarrow> ledger \<Rightarrow> ledger \<times> bool" where
  "expire_operation c spec observed L =
     (if op_expired spec observed
      then (terminal c (os_operation_id spec) FAILED ''operation_deadline_exceeded'' L, True)
      else (L, False))"

fun terminal_all ::
    "clocks \<Rightarrow> string list \<Rightarrow> operation_state \<Rightarrow> string \<Rightarrow> ledger \<Rightarrow> ledger" where
  "terminal_all c [] st reason L = L"
| "terminal_all c (k # ks) st reason L = terminal_all c ks st reason (terminal c k st reason L)"

text \<open>\<open>owner_alive\<close>: the owner's lease is later than the given reading of the clock.\<close>

definition owner_alive :: "ledger \<Rightarrow> string \<Rightarrow> int \<Rightarrow> bool" where
  "owner_alive L k at = (\<exists>w \<in> set (t_owners L). own_id w = k \<and> at < own_lease_expires_at w)"

section \<open>Frames\<close>

text \<open>What each statement leaves alone.\<close>

lemma set_root_frame [simp]:
  "t_ops (set_root k f L) = t_ops L" "t_attempts (set_root k f L) = t_attempts L"
  "t_budgets (set_root k f L) = t_budgets L" "t_outbox (set_root k f L) = t_outbox L"
  "t_bindings (set_root k f L) = t_bindings L" "t_pools (set_root k f L) = t_pools L"
  "t_owners (set_root k f L) = t_owners L" "t_groups (set_root k f L) = t_groups L"
  "t_submissions (set_root k f L) = t_submissions L" "t_direct (set_root k f L) = t_direct L"
  "max_roots (set_root k f L) = max_roots L" "max_pending (set_root k f L) = max_pending L"
  "t_artifacts (set_root k f L) = t_artifacts L"
  "t_roots (set_root k f L) = update_rows (\<lambda>r. root_id r = k) f (t_roots L)"
  by (simp_all add: set_root_def)

lemma set_op_frame [simp]:
  "t_roots (set_op k g L) = t_roots L" "t_attempts (set_op k g L) = t_attempts L"
  "t_budgets (set_op k g L) = t_budgets L" "t_outbox (set_op k g L) = t_outbox L"
  "t_bindings (set_op k g L) = t_bindings L" "t_pools (set_op k g L) = t_pools L"
  "t_owners (set_op k g L) = t_owners L" "t_groups (set_op k g L) = t_groups L"
  "t_submissions (set_op k g L) = t_submissions L" "t_direct (set_op k g L) = t_direct L"
  "max_roots (set_op k g L) = max_roots L" "max_pending (set_op k g L) = max_pending L"
  "t_artifacts (set_op k g L) = t_artifacts L"
  "t_ops (set_op k g L) = update_rows (\<lambda>r. op_id r = k) g (t_ops L)"
  by (simp_all add: set_op_def)

lemma set_attempt_frame [simp]:
  "t_roots (set_attempt k h L) = t_roots L" "t_ops (set_attempt k h L) = t_ops L"
  "t_budgets (set_attempt k h L) = t_budgets L" "t_outbox (set_attempt k h L) = t_outbox L"
  "t_bindings (set_attempt k h L) = t_bindings L" "t_pools (set_attempt k h L) = t_pools L"
  "t_owners (set_attempt k h L) = t_owners L" "t_groups (set_attempt k h L) = t_groups L"
  "t_submissions (set_attempt k h L) = t_submissions L" "t_direct (set_attempt k h L) = t_direct L"
  "max_roots (set_attempt k h L) = max_roots L" "max_pending (set_attempt k h L) = max_pending L"
  "t_artifacts (set_attempt k h L) = t_artifacts L"
  "t_attempts (set_attempt k h L) = update_rows (\<lambda>r. att_id r = k) h (t_attempts L)"
  by (simp_all add: set_attempt_def)

lemma set_budget_frame [simp]:
  "t_roots (set_budget r u b L) = t_roots L" "t_ops (set_budget r u b L) = t_ops L"
  "t_attempts (set_budget r u b L) = t_attempts L" "t_outbox (set_budget r u b L) = t_outbox L"
  "t_bindings (set_budget r u b L) = t_bindings L" "t_pools (set_budget r u b L) = t_pools L"
  "t_owners (set_budget r u b L) = t_owners L" "t_groups (set_budget r u b L) = t_groups L"
  "t_submissions (set_budget r u b L) = t_submissions L" "t_direct (set_budget r u b L) = t_direct L"
  "max_roots (set_budget r u b L) = max_roots L" "max_pending (set_budget r u b L) = max_pending L"
  "t_artifacts (set_budget r u b L) = t_artifacts L"
  "t_budgets (set_budget r u b L) = update_rows (\<lambda>x. bud_key x = (r, u)) b (t_budgets L)"
  by (simp_all add: set_budget_def)

lemma set_pool_frame [simp]:
  "t_roots (set_pool k f L) = t_roots L" "t_ops (set_pool k f L) = t_ops L"
  "t_attempts (set_pool k f L) = t_attempts L" "t_outbox (set_pool k f L) = t_outbox L"
  "t_bindings (set_pool k f L) = t_bindings L" "t_budgets (set_pool k f L) = t_budgets L"
  "t_owners (set_pool k f L) = t_owners L" "t_groups (set_pool k f L) = t_groups L"
  "t_submissions (set_pool k f L) = t_submissions L" "t_direct (set_pool k f L) = t_direct L"
  "max_roots (set_pool k f L) = max_roots L" "max_pending (set_pool k f L) = max_pending L"
  "t_artifacts (set_pool k f L) = t_artifacts L"
  "t_pools (set_pool k f L) = update_rows (\<lambda>r. pool_id r = k) f (t_pools L)"
  by (simp_all add: set_pool_def)

lemma wake_frame [simp]:
  "t_roots (wake L) = t_roots L" "t_ops (wake L) = t_ops L"
  "t_attempts (wake L) = t_attempts L" "t_outbox (wake L) = t_outbox L"
  "t_bindings (wake L) = t_bindings L" "t_budgets (wake L) = t_budgets L"
  "t_owners (wake L) = t_owners L" "t_groups (wake L) = t_groups L"
  "t_pools (wake L) = t_pools L" "t_submissions (wake L) = t_submissions L"
  "t_direct (wake L) = t_direct L" "t_artifacts (wake L) = t_artifacts L"
  "max_roots (wake L) = max_roots L" "max_pending (wake L) = max_pending L"
  by (simp_all add: wake_def)

lemma emit_event_frame [simp]:
  "t_roots (emit_event c e a p L) = t_roots L" "t_ops (emit_event c e a p L) = t_ops L"
  "t_attempts (emit_event c e a p L) = t_attempts L"
  "t_bindings (emit_event c e a p L) = t_bindings L"
  "t_budgets (emit_event c e a p L) = t_budgets L" "t_owners (emit_event c e a p L) = t_owners L"
  "t_groups (emit_event c e a p L) = t_groups L" "t_pools (emit_event c e a p L) = t_pools L"
  "t_submissions (emit_event c e a p L) = t_submissions L"
  "t_direct (emit_event c e a p L) = t_direct L"
  "t_artifacts (emit_event c e a p L) = t_artifacts L"
  "max_roots (emit_event c e a p L) = max_roots L"
  "max_pending (emit_event c e a p L) = max_pending L"
  by (simp_all add: emit_event_def)

lemma emit_completions_frame [simp]:
  "t_roots (emit_completions c k bs L) = t_roots L" "t_ops (emit_completions c k bs L) = t_ops L"
  "t_attempts (emit_completions c k bs L) = t_attempts L"
  "t_bindings (emit_completions c k bs L) = t_bindings L"
  "t_budgets (emit_completions c k bs L) = t_budgets L"
  "t_owners (emit_completions c k bs L) = t_owners L"
  "t_groups (emit_completions c k bs L) = t_groups L"
  "t_pools (emit_completions c k bs L) = t_pools L"
  "t_submissions (emit_completions c k bs L) = t_submissions L"
  "t_direct (emit_completions c k bs L) = t_direct L"
  "t_artifacts (emit_completions c k bs L) = t_artifacts L"
  "max_roots (emit_completions c k bs L) = max_roots L"
  "max_pending (emit_completions c k bs L) = max_pending L"
  by (induction bs arbitrary: L) simp_all

lemma completion_events_frame [simp]:
  "t_roots (completion_events c k L) = t_roots L" "t_ops (completion_events c k L) = t_ops L"
  "t_attempts (completion_events c k L) = t_attempts L"
  "t_bindings (completion_events c k L) = t_bindings L"
  "t_budgets (completion_events c k L) = t_budgets L"
  "t_owners (completion_events c k L) = t_owners L"
  "t_groups (completion_events c k L) = t_groups L"
  "t_pools (completion_events c k L) = t_pools L"
  "t_submissions (completion_events c k L) = t_submissions L"
  "t_direct (completion_events c k L) = t_direct L"
  "t_artifacts (completion_events c k L) = t_artifacts L"
  "max_roots (completion_events c k L) = max_roots L"
  "max_pending (completion_events c k L) = max_pending L"
  by (simp_all add: completion_events_def)

lemma terminal_frame [simp]:
  "t_roots (terminal c k st r L) = t_roots L" "t_attempts (terminal c k st r L) = t_attempts L"
  "t_bindings (terminal c k st r L) = t_bindings L"
  "t_budgets (terminal c k st r L) = t_budgets L" "t_owners (terminal c k st r L) = t_owners L"
  "t_groups (terminal c k st r L) = t_groups L" "t_pools (terminal c k st r L) = t_pools L"
  "t_submissions (terminal c k st r L) = t_submissions L"
  "t_direct (terminal c k st r L) = t_direct L"
  "t_artifacts (terminal c k st r L) = t_artifacts L"
  "max_roots (terminal c k st r L) = max_roots L"
  "max_pending (terminal c k st r L) = max_pending L"
  "t_ops (terminal c k st r L) = update_rows (\<lambda>r. op_id r = k) (finish_op st r) (t_ops L)"
  by (simp_all add: terminal_def)

lemma finish_op_simps [simp]:
  "op_id (finish_op st r x) = op_id x" "op_root_id (finish_op st r x) = op_root_id x"
  "op_tenant_id (finish_op st r x) = op_tenant_id x" "op_spec (finish_op st r x) = op_spec x"
  "op_attempts (finish_op st r x) = op_attempts x"
  "op_active_attempt (finish_op st r x) = op_active_attempt x"
  "op_result (finish_op st r x) = op_result x"
  "op_created_at (finish_op st r x) = op_created_at x"
  by (simp_all add: finish_op_def)

lemma finish_op_state:
  "op_state (finish_op st r x) = (if op_terminal (op_state x) then op_state x else st)"
  by (simp add: finish_op_def)

lemma finish_op_terminal [simp]: "op_terminal st \<Longrightarrow> op_terminal (op_state (finish_op st r x))"
  by (simp add: finish_op_def)

end
