(* ===== verification/Ledger_Submit.thy ===== *)
theory Ledger_Submit
  imports Ledger
begin

text \<open>
  The transactions of \<open>store.py\<close> by which work enters the ledger: roots, submitted runs,
  pools, operations, completion bindings and process owners.

  \<open>digest\<close> is \<open>sha256(...).hexdigest()\<close>; the store only uses it to derive names.
\<close>

section \<open>Owners\<close>

definition register_owner ::
    "int \<Rightarrow> clocks \<Rightarrow> string \<Rightarrow> string \<Rightarrow> ledger \<Rightarrow> error + ledger" where
  "register_owner lease c owner boot L =
     (case lookup_row own_id owner (t_owners L) of
        None \<Rightarrow> Inr (L\<lparr>t_owners := t_owners L @
                  [\<lparr>own_id = owner, own_boot = boot, own_lease_expires_at = txn_now c + lease\<rparr>]\<rparr>)
      | Some w \<Rightarrow>
          (if own_boot w = boot
           then Inr (L\<lparr>t_owners := update_rows (\<lambda>w. own_id w = owner)
                   (\<lambda>w. w\<lparr>own_lease_expires_at := txn_now c + lease\<rparr>) (t_owners L)\<rparr>)
           else Inl (RuntimeConflict ''owner identity belongs to another process'')))"

definition heartbeat_owner ::
    "int \<Rightarrow> clocks \<Rightarrow> string \<Rightarrow> string \<Rightarrow> ledger \<Rightarrow> error + ledger" where
  "heartbeat_owner lease c owner boot L =
     (if \<exists>w \<in> set (t_owners L). own_id w = owner \<and> own_boot w = boot
      then Inr (L\<lparr>t_owners := update_rows (\<lambda>w. own_id w = owner \<and> own_boot w = boot)
              (\<lambda>w. w\<lparr>own_lease_expires_at := txn_now c + lease\<rparr>) (t_owners L)\<rparr>)
      else Inl (RuntimeConflict ''owner identity was fenced''))"

section \<open>Roots\<close>

definition new_root :: "clocks \<Rightarrow> root_spec \<Rightarrow> root_row" where
  "new_root c spec =
     \<lparr>root_id = rs_root_id spec, root_tenant_id = rs_tenant_id spec, root_spec_of = spec,
      root_state = RUNNING, root_deadline = rs_deadline spec,
      root_budget_limit = rs_budget_limit spec, root_reserved = 0, root_spent = 0,
      root_attempts = 0, root_operation_count = 0, root_last_served = 0,
      root_priority = rs_priority spec, root_cancel_requested = False, root_result = None,
      root_terminal_reason = None, root_finished_at = None, root_created_at = txn_now c\<rparr>"

definition new_budget :: "string \<Rightarrow> budget_unit \<times> int \<Rightarrow> budget_row" where
  "new_budget rid ul =
     \<lparr>bud_root_id = rid, bud_unit = fst ul, bud_limit = snd ul, bud_reserved = 0, bud_spent = 0\<rparr>"

text \<open>
  \<open>_root\<close>. The second look under the authority lock is the same look in a serial
  history. The primary key of the budget table is the pair (root, unit).
\<close>

definition admit_root :: "clocks \<Rightarrow> root_spec \<Rightarrow> ledger \<Rightarrow> error + ledger" where
  "admit_root c spec L =
     (case find_root L (rs_root_id spec) of
        Some r \<Rightarrow>
          (if root_spec_of r \<noteq> spec then Inl (RuntimeConflict ''root identity/input conflict'')
           else Inr L)
      | None \<Rightarrow>
          (if max_roots L \<le> count_rows (\<lambda>r. root_state r = RUNNING) (t_roots L)
           then Inl (AdmissionDenied ''root backlog full'' True)
           else if rs_deadline spec \<le> utc c
           then Inl (AdmissionDenied ''root deadline expired'' False)
           else Inr (L\<lparr>t_roots := t_roots L @ [new_root c spec],
                       t_budgets := t_budgets L @
                         map (new_budget (rs_root_id spec)) (rs_resource_budgets spec)\<rparr>)))"

definition create_root :: "clocks \<Rightarrow> root_spec \<Rightarrow> ledger \<Rightarrow> error + ledger" where
  "create_root c spec L = admit_root c spec L"

text \<open>
  \<open>_submission_identity\<close>: the caller's request identity leaves out the configuration the
  accepting service chose.
\<close>

definition submission_identity :: "run_spec \<Rightarrow> run_spec" where
  "submission_identity s = s\<lparr>run_configuration := None\<rparr>"

definition find_submission :: "ledger \<Rightarrow> string \<Rightarrow> string \<Rightarrow> submission_row option" where
  "find_submission L tenant key = find (\<lambda>s. sub_tenant_id s = tenant \<and> sub_key s = key) (t_submissions L)"

definition submit_run ::
    "clocks \<Rightarrow> root_spec \<Rightarrow> string \<Rightarrow> string \<Rightarrow> run_spec \<Rightarrow> ledger \<Rightarrow> error + ledger \<times> string" where
  "submit_run c root key input_digest spec L =
     (case find_submission L (rs_tenant_id root) key of
        Some old \<Rightarrow>
          (if sub_input_digest old \<noteq> input_digest
              \<or> submission_identity (sub_spec old) \<noteq> submission_identity spec
           then Inl (RuntimeConflict ''submission key/input conflict'')
           else Inr (L, sub_run_id old))
      | None \<Rightarrow>
          and_then (admit_root c root L) (\<lambda>L1.
          and_then (require (\<forall>s \<in> set (t_submissions L1). sub_run_id s \<noteq> rs_root_id root)
                      (IntegrityError ''runtime_submissions_pkey'')) (\<lambda>_.
          Inr (emit_event c (start_event_id (rs_root_id root)) (rs_root_id root)
                 (StartWorkflow (spec\<lparr>run_deadline := Some (rs_deadline root)\<rparr>))
                 (L1\<lparr>t_submissions := t_submissions L1 @
                       [\<lparr>sub_run_id = rs_root_id root, sub_tenant_id = rs_tenant_id root,
                         sub_key = key, sub_input_digest = input_digest, sub_spec = spec\<rparr>]\<rparr>),
               rs_root_id root))))"

section \<open>Pools\<close>

text \<open>\<open>runtime_inflight_attempts\<close> of a pool whose compute or budget is held.\<close>

definition unsettled_in_pool :: "ledger \<Rightarrow> string \<Rightarrow> int" where
  "unsettled_in_pool L pid =
     count_rows (\<lambda>a. att_pool_id a = pid \<and> (att_compute_held a \<or> att_budget_held a)) (t_attempts L)
     + count_rows (\<lambda>d. dir_pool_id d = pid \<and> dir_compute_held d) (t_direct L)"

definition upsert_group :: "string \<Rightarrow> int \<Rightarrow> ledger \<Rightarrow> ledger" where
  "upsert_group g ceiling L =
     (if find_group L g = None
      then L\<lparr>t_groups := t_groups L @
             [\<lparr>group_id = g, group_hard_ceiling = ceiling, group_health = HEALTHY\<rparr>]\<rparr>
      else L\<lparr>t_groups := update_rows (\<lambda>r. group_id r = g)
             (\<lambda>r. r\<lparr>group_hard_ceiling := ceiling\<rparr>) (t_groups L)\<rparr>)"

definition pool_context :: "pool_spec \<Rightarrow> int" where
  "pool_context s = (case ps_body s of LlmPool n \<Rightarrow> n | _ \<Rightarrow> 0)"

definition new_pool :: "pool_spec \<Rightarrow> pool_row" where
  "new_pool s =
     \<lparr>pool_id = ps_pool_id s, pool_group_id = ps_group_id s, pool_spec_of = s,
      pool_engine_epoch = ps_engine_epoch s, pool_envelope_version = 1,
      pool_target = ps_target s, pool_hard_ceiling = ps_hard_ceiling s,
      pool_context_limit = pool_context s, pool_model_profile = ps_model_profile s,
      pool_health = HEALTHY, pool_valid_until = ps_valid_until s, pool_quiesce_token = None\<rparr>"

definition reconfigured :: "pool_spec \<Rightarrow> pool_row \<Rightarrow> pool_row" where
  "reconfigured s p =
     p\<lparr>pool_group_id := ps_group_id s, pool_spec_of := s,
       pool_engine_epoch := ps_engine_epoch s,
       pool_envelope_version := pool_envelope_version p + 1,
       pool_target := ps_target s, pool_hard_ceiling := ps_hard_ceiling s,
       pool_context_limit := pool_context s, pool_model_profile := ps_model_profile s,
       pool_health := (if pool_engine_epoch p \<noteq> ps_engine_epoch s then HEALTHY else pool_health p),
       pool_valid_until := ps_valid_until s,
       pool_quiesce_token :=
         (if pool_engine_epoch p \<noteq> ps_engine_epoch s then None else pool_quiesce_token p)\<rparr>"

definition configure_pool :: "clocks \<Rightarrow> pool_spec \<Rightarrow> int \<Rightarrow> ledger \<Rightarrow> error + ledger" where
  "configure_pool c spec ceiling L =
     (if ceiling \<le> 0 then Inl (ValueError ''group ceiling must be positive'')
      else
        (let L1 = upsert_group (ps_group_id spec) ceiling L in
         case find_pool L1 (ps_pool_id spec) of
           None \<Rightarrow> Inr (wake (L1\<lparr>t_pools := t_pools L1 @ [new_pool spec]\<rparr>))
         | Some p \<Rightarrow>
             (if (pool_engine_epoch p \<noteq> ps_engine_epoch spec \<or> pool_spec_of p \<noteq> spec)
                 \<and> unsettled_in_pool L1 (ps_pool_id spec) \<noteq> 0
              then Inl (RuntimeConflict ''drain/reconcile existing attempts before reconfiguration'')
              else Inr (wake (set_pool (ps_pool_id spec) (reconfigured spec) L1)))))"

section \<open>Operations\<close>

definition tenant_prefix :: "(string \<Rightarrow> string) \<Rightarrow> string \<Rightarrow> string" where
  "tenant_prefix digest tenant = ''tenants/'' @ digest tenant @ ''/''"

definition starts_with :: "string \<Rightarrow> string \<Rightarrow> bool" where
  "starts_with p s \<longleftrightarrow> take (length p) s = p"

definition new_op :: "clocks \<Rightarrow> operation_spec \<Rightarrow> op_row" where
  "new_op c spec =
     \<lparr>op_id = os_operation_id spec, op_root_id = os_root_id spec,
      op_tenant_id = os_tenant_id spec, op_spec = spec, op_state = READY, op_attempts = 0,
      op_active_attempt = None, op_result = None, op_wait_reason = None, op_retry_at = None,
      op_created_at = txn_now c\<rparr>"

definition has_resource_budget :: "root_spec \<Rightarrow> budget_unit \<Rightarrow> bool" where
  "has_resource_budget s u \<longleftrightarrow> u \<in> fst ` set (rs_resource_budgets s)"

definition pending_op :: "op_row \<Rightarrow> bool" where
  "pending_op x \<longleftrightarrow> \<not> op_terminal (op_state x)"

definition materialize_op :: "clocks \<Rightarrow> operation_spec \<Rightarrow> ledger \<Rightarrow> ledger" where
  "materialize_op c spec L =
     wake (fst (expire_operation c spec (stamp_later c)
       (set_root (os_root_id spec) (\<lambda>r. r\<lparr>root_operation_count := root_operation_count r + 1\<rparr>)
          (L\<lparr>t_models := (if os_model_profile spec \<in> set (t_models L) then t_models L
                          else t_models L @ [os_model_profile spec]),
             t_ops := t_ops L @ [new_op c spec]\<rparr>))))"

definition submit_operation ::
    "(string \<Rightarrow> string) \<Rightarrow> clocks \<Rightarrow> operation_spec \<Rightarrow> ledger \<Rightarrow> error + ledger \<times> string" where
  "submit_operation digest c spec L =
     (if \<not> starts_with (tenant_prefix digest (os_tenant_id spec)) (art_key (os_payload spec))
      then Inl (NotFound ''payload'')
      else case find_op L (os_operation_id spec) of
        Some old \<Rightarrow>
          (if op_spec old \<noteq> spec then Inl (RuntimeConflict ''operation identity/input conflict'')
           else Inr (L, os_operation_id spec))
      | None \<Rightarrow>
          (case find_root L (os_root_id spec) of
             None \<Rightarrow> Inl (NotFound ''root'')
           | Some root \<Rightarrow>
               (if root_tenant_id root \<noteq> os_tenant_id spec then Inl (NotFound ''root'')
                else if root_cancel_requested root \<or> root_state root \<noteq> RUNNING
                        \<or> root_deadline root \<le> utc c
                then Inl (AdmissionDenied ''root is not eligible'' False)
                else if budget_unit_of spec \<noteq> Tokens
                        \<and> \<not> has_resource_budget (root_spec_of root) (budget_unit_of spec)
                then Inl (AdmissionDenied ''root has no accepted budget'' False)
                else if rs_max_operations (root_spec_of root) \<le> root_operation_count root
                then Inl (AdmissionDenied ''lifetime operation limit reached'' False)
                else if \<not> op_expired spec (stamp c)
                        \<and> (rs_max_pending (root_spec_of root)
                             \<le> count_rows (\<lambda>x. pending_op x \<and> op_root_id x = os_root_id spec) (t_ops L)
                           \<or> max_pending L
                             \<le> count_rows (\<lambda>x. pending_op x
                                   \<and> os_model_profile (op_spec x) = os_model_profile spec) (t_ops L))
                then Inl (AdmissionDenied ''materialization limit reached'' True)
                else Inr (materialize_op c spec L, os_operation_id spec))))"

section \<open>Completion bindings\<close>

definition bind_completion ::
    "(string \<Rightarrow> string) \<Rightarrow> clocks \<Rightarrow> string \<Rightarrow> string \<Rightarrow> string \<Rightarrow> ledger \<Rightarrow> error + ledger" where
  "bind_completion digest c opid tenant token L =
     (case find_op L opid of
        None \<Rightarrow> Inl (NotFound ''operation'')
      | Some x \<Rightarrow>
          (if op_tenant_id x \<noteq> tenant then Inl (NotFound ''operation'')
           else
             (let bid = digest token;
                  L1 = (if bid \<in> bind_id ` set (t_bindings L) then L
                        else L\<lparr>t_bindings := t_bindings L @
                               [\<lparr>bind_id = bid, bind_operation_id = opid, bind_task_token = token\<rparr>]\<rparr>)
              in Inr (if op_terminal (op_state x) then completion_events c opid L1 else L1))))"

section \<open>Reads\<close>

definition operation_status ::
    "ledger \<Rightarrow> string \<Rightarrow> string \<Rightarrow> error + operation_state \<times> artifact option \<times> string option" where
  "operation_status L opid tenant =
     (case find_op L opid of
        Some x \<Rightarrow> (if op_tenant_id x = tenant
                   then Inr (op_state x, op_result x, op_wait_reason x)
                   else Inl (NotFound ''operation''))
      | None \<Rightarrow> Inl (NotFound ''operation''))"

text \<open>\<open>run\<close>'s \<open>cleanup_pending\<close> and \<open>run_snapshots\<close>.\<close>

definition op_of_attempt :: "ledger \<Rightarrow> attempt_row \<Rightarrow> op_row option" where
  "op_of_attempt L a = find_op L (att_operation_id a)"

definition attempt_root :: "ledger \<Rightarrow> attempt_row \<Rightarrow> string option" where
  "attempt_root L a = map_option op_root_id (op_of_attempt L a)"

definition cleanup_pending :: "ledger \<Rightarrow> string \<Rightarrow> bool" where
  "cleanup_pending L rid \<longleftrightarrow>
     (\<exists>a \<in> set (t_attempts L). attempt_root L a = Some rid \<and> (att_compute_held a \<or> att_budget_held a))"

definition run_snapshots ::
    "ledger \<Rightarrow> string list \<Rightarrow> string \<Rightarrow> error + (string \<times> root_state \<times> bool \<times> bool) list" where
  "run_snapshots L ids tenant =
     (if length ids < 1 \<or> 100 < length ids
      then Inl (ValueError ''Between 1 and 100 run identities are required'')
      else Inr (sort_key fst
        (map (\<lambda>r. (root_id r, root_state r, root_cancel_requested r, cleanup_pending L (root_id r)))
           (filter (\<lambda>r. root_tenant_id r = tenant \<and> root_id r \<in> set ids) (t_roots L)))))"

end
