(* ===== verification/Ledger_Dispatch.thy ===== *)
theory Ledger_Dispatch
  imports Ledger_Submit
begin

text \<open>
  The attempt life cycle of \<open>store.py\<close>: \<open>reserve_next\<close>, the ownership fence \<open>_owned\<close>,
  \<open>mark_send\<close>, \<open>heartbeat\<close>, \<open>compute_finished\<close>, the settlement \<open>_settle\<close>,
  \<open>commit_result\<close>, \<open>unknown\<close> and \<open>fail\<close>.
\<close>

section \<open>Choosing an operation\<close>

definition dispatchable :: "op_row \<Rightarrow> bool" where
  "dispatchable x \<longleftrightarrow> op_state x = READY \<or> op_state x = RETRY_WAIT"

definition retry_due :: "op_row \<Rightarrow> int \<Rightarrow> bool" where
  "retry_due x at \<longleftrightarrow> (case op_retry_at x of None \<Rightarrow> True | Some t \<Rightarrow> t \<le> at)"

definition root_live :: "root_row \<Rightarrow> int \<Rightarrow> bool" where
  "root_live r at \<longleftrightarrow>
     root_state r = RUNNING \<and> \<not> root_cancel_requested r \<and> at < root_deadline r"

text \<open>The size the scan compares with the pool's limit, and its embedding-only conditions.\<close>

fun scan_bound :: "operation_body \<Rightarrow> int" where
  "scan_bound (LlmBody inp out) = inp + out"
| "scan_bound (SpeechBody n) = max 1 n"
| "scan_bound (EmbeddingBody _ n _) = max 1 n"

fun scan_embedding :: "operation_body \<Rightarrow> int \<Rightarrow> string \<Rightarrow> bool" where
  "scan_embedding (EmbeddingBody mrev _ n) batch revision = (n \<le> batch \<and> mrev = revision)"
| "scan_embedding _ _ _ = True"

definition fits_pool :: "pool_row \<Rightarrow> operation_spec \<Rightarrow> bool" where
  "fits_pool p spec \<longleftrightarrow>
     (let prof = pool_spec_of p in
      os_model_profile spec = pool_model_profile p \<and> op_kind spec = pool_kind prof \<and>
      (os_capacity_profile_id spec = None \<or> os_capacity_profile_id spec = Some (ps_profile_id prof)) \<and>
      scan_bound (os_body spec) \<le> request_limit prof \<and>
      scan_embedding (os_body spec) (max_batch_size prof 0) (ps_model_revision prof) \<and>
      os_required_capabilities spec \<subseteq> ps_capabilities prof)"

text \<open>The class order of the scan, with a waiting class promoted once it has waited enough.\<close>

definition scan_rank :: "root_row \<Rightarrow> op_row \<Rightarrow> int \<Rightarrow> int" where
  "scan_rank r x at =
     (let waited = at - max (op_created_at x) (root_last_served r) in
      case root_priority r of
        Priority Qa \<Rightarrow> 0
      | Interactive \<Rightarrow> (if seconds 60 \<le> waited then 0 else 1)
      | Priority UserTask \<Rightarrow> (if seconds 60 \<le> waited then 0 else 1)
      | Priority Background \<Rightarrow> (if seconds 120 \<le> waited then 0 else 2)
      | Priority Maintenance \<Rightarrow> (if seconds 300 \<le> waited then 0 else 3))"

definition tenant_last_served :: "ledger \<Rightarrow> string \<Rightarrow> int" where
  "tenant_last_served L tenant =
     fold max (map root_last_served (filter (\<lambda>r. root_tenant_id r = tenant) (t_roots L))) 0"

definition scan_key :: "ledger \<Rightarrow> int \<Rightarrow> op_row \<times> root_row \<Rightarrow> int \<times> int \<times> int \<times> int \<times> string" where
  "scan_key L at xr =
     (scan_rank (snd xr) (fst xr) at, tenant_last_served L (root_tenant_id (snd xr)),
      root_last_served (snd xr), op_created_at (fst xr), op_id (fst xr))"

fun join_roots :: "ledger \<Rightarrow> op_row list \<Rightarrow> (op_row \<times> root_row) list" where
  "join_roots L [] = []"
| "join_roots L (x # xs) =
     (case find_root L (op_root_id x) of
        None \<Rightarrow> join_roots L xs
      | Some r \<Rightarrow> (x, r) # join_roots L xs)"

definition candidates :: "clocks \<Rightarrow> pool_row \<Rightarrow> ledger \<Rightarrow> (op_row \<times> root_row) list" where
  "candidates c p L =
     take 64 (sort_key (scan_key L (stamp c))
       (filter (\<lambda>(x, r). dispatchable x \<and> retry_due x (txn_now c) \<and> root_live r (txn_now c)
                  \<and> fits_pool p (op_spec x))
          (join_roots L (t_ops L))))"

section \<open>Reserving\<close>

text \<open>The ledger line a unit is charged to: (limit, reserved, spent).\<close>

definition budget_line :: "ledger \<Rightarrow> string \<Rightarrow> budget_unit \<Rightarrow> (int \<times> int \<times> int) option" where
  "budget_line L rid u =
     (if u = Tokens
      then map_option (\<lambda>r. (root_budget_limit r, root_reserved r, root_spent r)) (find_root L rid)
      else map_option (\<lambda>b. (bud_limit b, bud_reserved b, bud_spent b)) (find_budget L rid u))"

definition next_attempt_number :: "ledger \<Rightarrow> string \<Rightarrow> int" where
  "next_attempt_number L opid =
     fold max (map att_number (filter (\<lambda>a. att_operation_id a = opid) (t_attempts L))) 0 + 1"

definition new_attempt ::
    "int \<Rightarrow> clocks \<Rightarrow> string \<Rightarrow> string \<Rightarrow> pool_row \<Rightarrow> int \<Rightarrow> operation_spec \<Rightarrow> attempt_row" where
  "new_attempt lease c aid owner p n spec =
     \<lparr>att_id = aid, att_operation_id = os_operation_id spec, att_pool_id = pool_id p,
      att_engine_epoch = pool_engine_epoch p, att_number = n, att_owner_id = owner,
      att_lease_epoch = n, att_lease_expires_at = utc c + lease, att_state = RESERVED,
      att_compute_held = False, att_budget_held = False, att_budget_bound = budget_bound_of spec,
      att_budget_unit = budget_unit_of spec, att_usage = None, att_usage_estimated = None,
      att_error_class = None, att_send_intent_at = None, att_backend_finished_at = None,
      att_result_committed_at = None, att_unknown_at = None, att_created_at = stamp c\<rparr>"

definition attempt_deadline :: "int \<Rightarrow> operation_spec \<Rightarrow> int \<Rightarrow> int" where
  "attempt_deadline root_dl spec created =
     min root_dl (min (or_else (os_deadline spec) root_dl) (created + os_attempt_timeout spec))"

definition claim_op :: "string \<Rightarrow> op_row \<Rightarrow> op_row" where
  "claim_op aid x = x\<lparr>op_state := EXECUTING, op_active_attempt := Some aid, op_wait_reason := None\<rparr>"

definition reserve_candidate ::
    "int \<Rightarrow> clocks \<Rightarrow> string \<Rightarrow> string \<Rightarrow> pool_row \<Rightarrow> root_row \<Rightarrow> op_row \<Rightarrow> ledger
      \<Rightarrow> error + ledger \<times> reservation" where
  "reserve_candidate lease c aid owner p root x L =
     (let spec = op_spec x; n = next_attempt_number L (os_operation_id spec) in
      if aid \<in> att_id ` set (t_attempts L) then Inl (IntegrityError ''runtime_attempts_pkey'')
      else Inr
        (set_root (op_root_id x) (\<lambda>r. r\<lparr>root_last_served := utc c\<rparr>)
          (set_op (os_operation_id spec) (claim_op aid)
            (L\<lparr>t_attempts := t_attempts L @ [new_attempt lease c aid owner p n spec]\<rparr>)),
         \<lparr>rv_attempt_id = aid, rv_operation = spec, rv_pool_id = pool_id p,
          rv_engine_epoch = pool_engine_epoch p,
          rv_model_revision = ps_model_revision (pool_spec_of p), rv_owner_id = owner,
          rv_lease_epoch = n, rv_sent_attempts = op_attempts x,
          rv_attempt_deadline = attempt_deadline (root_deadline root) spec (stamp c),
          rv_workload_class = root_workload (root_priority root)\<rparr>))"

text \<open>
  One candidate of the loop. \<open>locked\<close> are the operations whose row another transaction
  holds (\<open>FOR UPDATE SKIP LOCKED\<close>). The result is the new ledger and either a reservation
  or nothing, when the loop goes on.
\<close>

definition consider_candidate ::
    "int \<Rightarrow> clocks \<Rightarrow> string list \<Rightarrow> string \<Rightarrow> string \<Rightarrow> pool_row \<Rightarrow> string \<Rightarrow> ledger
      \<Rightarrow> error + ledger \<times> reservation option" where
  "consider_candidate lease c locked aid owner p opid L =
     (case find_op L opid of
        None \<Rightarrow> Inr (L, None)
      | Some x \<Rightarrow>
     (case find_root L (op_root_id x) of
        None \<Rightarrow> Inr (L, None)
      | Some root \<Rightarrow>
          (let spec = op_spec x; prof = pool_spec_of p in
           if \<not> root_live root (utc c) then Inr (L, None)
           else if opid \<in> set locked \<or> \<not> dispatchable x \<or> \<not> retry_due x (utc c) then Inr (L, None)
           else if op_expired spec (stamp c) then Inr (fst (expire_operation c spec (stamp c) L), None)
           else if os_capacity_profile_id spec \<notin> {None, Some [], Some (ps_profile_id prof)} then Inr (L, None)
           else if \<not> os_required_capabilities spec \<subseteq> ps_capabilities prof then Inr (L, None)
           else if request_limit prof < budget_bound_of spec then Inr (L, None)
           else case budget_line L (os_root_id spec) (budget_unit_of spec) of
               None \<Rightarrow> Inr (terminal c opid FAILED ''resource_budget_missing'' L, None)
             | Some (limit, reserved, spent) \<Rightarrow>
                 (if os_max_attempts spec \<le> op_attempts x
                  then Inr (terminal c opid FAILED ''max_attempts'' L, None)
                  else if rs_max_attempts (root_spec_of root) \<le> root_attempts root
                  then Inr (terminal c opid FAILED ''root_attempt_budget'' L, None)
                  else if limit < spent + budget_bound_of spec
                  then Inr (terminal c opid FAILED ''root_budget_exhausted'' L, None)
                  else if limit < spent + reserved + budget_bound_of spec
                  then Inr (set_op opid (\<lambda>x. x\<lparr>op_wait_reason := Some ''root_budget''\<rparr>) L, None)
                  else map_sum id (\<lambda>(L', rv). (L', Some rv))
                         (reserve_candidate lease c aid owner p root x L)))))"

fun consider_all ::
    "int \<Rightarrow> clocks \<Rightarrow> string list \<Rightarrow> string \<Rightarrow> string \<Rightarrow> pool_row \<Rightarrow> string list \<Rightarrow> ledger
      \<Rightarrow> error + ledger \<times> reservation option" where
  "consider_all lease c locked aid owner p [] L = Inr (L, None)"
| "consider_all lease c locked aid owner p (k # ks) L =
     (case consider_candidate lease c locked aid owner p k L of
        Inl e \<Rightarrow> Inl e
      | Inr (L1, Some rv) \<Rightarrow> Inr (L1, Some rv)
      | Inr (L1, None) \<Rightarrow> consider_all lease c locked aid owner p ks L1)"

definition reserve_next ::
    "int \<Rightarrow> clocks \<Rightarrow> string list \<Rightarrow> string \<Rightarrow> string \<Rightarrow> string \<Rightarrow> ledger
      \<Rightarrow> error + ledger \<times> reservation option" where
  "reserve_next lease c locked aid pid owner L =
     (case find_pool L pid of
        None \<Rightarrow> Inr (L, None)
      | Some p \<Rightarrow>
          (if pool_health p \<noteq> HEALTHY \<or> pool_target p = 0 then Inr (L, None)
           else case find_group L (pool_group_id p) of
             None \<Rightarrow> Inr (L, None)
           | Some g \<Rightarrow>
               (if group_health g \<noteq> HEALTHY then Inr (L, None)
                else consider_all lease c locked aid owner p
                       (map (op_id \<circ> fst) (candidates c p L)) L)))"

section \<open>The ownership fence\<close>

definition owned ::
    "reservation \<Rightarrow> ledger \<Rightarrow> error + attempt_row \<times> op_row \<times> root_row" where
  "owned rv L =
     (case find_attempt L (rv_attempt_id rv) of
        None \<Rightarrow> Inl (RuntimeConflict ''stale attempt ownership'')
      | Some a \<Rightarrow>
     (case find_op L (att_operation_id a) of
        None \<Rightarrow> Inl (RuntimeConflict ''stale attempt ownership'')
      | Some x \<Rightarrow>
     (case find_root L (op_root_id x) of
        None \<Rightarrow> Inl (RuntimeConflict ''stale attempt ownership'')
      | Some r \<Rightarrow>
          (if att_owner_id a \<noteq> rv_owner_id rv \<or> att_lease_epoch a \<noteq> rv_lease_epoch rv
              \<or> op_active_attempt x \<noteq> Some (rv_attempt_id rv)
           then Inl (RuntimeConflict ''stale attempt ownership'')
           else Inr (a, x, r)))))"

section \<open>Sending\<close>

definition charge :: "string \<Rightarrow> string \<Rightarrow> budget_unit \<Rightarrow> int \<Rightarrow> ledger \<Rightarrow> ledger" where
  "charge opid rid u bound L =
     (let L1 = set_op opid (\<lambda>x. x\<lparr>op_attempts := op_attempts x + 1\<rparr>) L;
          L2 = set_root rid (\<lambda>r. r\<lparr>root_attempts := root_attempts r + 1,
                 root_reserved := root_reserved r + (if u = Tokens then bound else 0)\<rparr>) L1
      in if u = Tokens then L2
         else set_budget rid u (\<lambda>b. b\<lparr>bud_reserved := bud_reserved b + bound\<rparr>) L2)"

definition sent_row :: "clocks \<Rightarrow> attempt_row \<Rightarrow> attempt_row" where
  "sent_row c a = a\<lparr>att_state := SEND_INTENT, att_compute_held := True, att_budget_held := True,
                    att_send_intent_at := Some (txn_now c)\<rparr>"

definition mark_send :: "clocks \<Rightarrow> reservation \<Rightarrow> ledger \<Rightarrow> error + ledger" where
  "mark_send c rv L =
     and_then (owned rv L) (\<lambda>(a, x, r).
       (let spec = op_spec x;
            dl = attempt_deadline (root_deadline r) spec (att_created_at a) in
        if att_state a \<noteq> RESERVED \<or> op_state x \<noteq> EXECUTING
           \<or> (att_lease_expires_at a \<le> stamp c \<and> \<not> owner_alive L (rv_owner_id rv) (stamp_later c))
           \<or> root_cancel_requested r \<or> root_state r \<noteq> RUNNING \<or> dl \<le> stamp c
        then Inl (RuntimeConflict ''attempt cannot send'')
        else if att_budget_held a
        then Inr (set_attempt (rv_attempt_id rv) (sent_row c) L)
        else if root_deadline r \<le> utc c \<or> dl \<le> utc c
        then Inl (RuntimeConflict ''attempt cannot send'')
        else if os_max_attempts spec \<le> op_attempts x
                \<or> rs_max_attempts (root_spec_of r) \<le> root_attempts r
        then Inl (SendBudgetUnavailable SendAttemptsExhausted)
        else case budget_line L (op_root_id x) (budget_unit_of spec) of
            None \<Rightarrow> Inl (SendBudgetUnavailable SendBudgetUnavailableReason)
          | Some (limit, reserved, spent) \<Rightarrow>
              (if limit < spent + reserved + budget_bound_of spec
               then Inl (SendBudgetUnavailable SendBudgetUnavailableReason)
               else Inr (set_attempt (rv_attempt_id rv) (sent_row c)
                      (charge (op_id x) (op_root_id x) (budget_unit_of spec)
                         (budget_bound_of spec) L)))))"

definition heartbeat :: "int \<Rightarrow> clocks \<Rightarrow> reservation \<Rightarrow> ledger \<Rightarrow> error + ledger \<times> bool" where
  "heartbeat lease c rv L =
     and_then (owned rv L) (\<lambda>(a, x, r).
       if att_state a \<notin> {RESERVED, SEND_INTENT, ACTIVE, BACKEND_FINISHED} then Inr (L, False)
       else Inr
         (if owner_alive L (rv_owner_id rv) (stamp_later c) then L
          else set_attempt (rv_attempt_id rv) (\<lambda>a. a\<lparr>att_lease_expires_at := utc c + lease\<rparr>) L,
          \<not> root_cancel_requested r \<and> root_state r = RUNNING \<and> \<not> op_terminal (op_state x)))"

definition attempt_compute_held :: "ledger \<Rightarrow> string \<Rightarrow> bool" where
  "attempt_compute_held L aid =
     (case find_attempt L aid of None \<Rightarrow> False | Some a \<Rightarrow> att_compute_held a)"

text \<open>The states a settled attempt ends in.\<close>

definition att_ended :: "attempt_state \<Rightarrow> bool" where
  "att_ended st \<longleftrightarrow> st \<in> {RESULT_COMMITTED, ATTEMPT_FAILED, FAILED_NOT_SENT}"

definition finished_row :: "clocks \<Rightarrow> attempt_row \<Rightarrow> attempt_row" where
  "finished_row c a = a\<lparr>att_compute_held := False,
     att_backend_finished_at := coalesce (att_backend_finished_at a) (txn_now c),
     att_state := BACKEND_FINISHED\<rparr>"

definition compute_finished :: "clocks \<Rightarrow> reservation \<Rightarrow> ledger \<Rightarrow> error + ledger" where
  "compute_finished c rv L =
     and_then (owned rv L) (\<lambda>(a, x, r).
       if att_ended (att_state a) then Inr L
       else Inr (wake (set_attempt (rv_attempt_id rv) (finished_row c) L)))"

section \<open>Settling\<close>

definition settled_row :: "int option \<Rightarrow> attempt_row \<Rightarrow> attempt_row" where
  "settled_row usage a = a\<lparr>att_budget_held := False,
     att_usage := Some (or_else usage (att_budget_bound a)),
     att_usage_estimated := Some (usage = None)\<rparr>"

definition over_budget :: "clocks \<Rightarrow> root_row \<Rightarrow> root_row" where
  "over_budget c r =
     (if root_state r = RUNNING
      then r\<lparr>root_state := ROOT_FAILED,
             root_terminal_reason := Some ''observed_usage_exceeds_budget'',
             root_finished_at := Some (txn_now c)\<rparr>
      else r)"

definition degrade_pool :: "pool_row \<Rightarrow> pool_row" where
  "degrade_pool p = p\<lparr>pool_target := 0, pool_health := DEGRADED\<rparr>"

text \<open>
  The budget line moves \<open>bound\<close> out of \<open>reserved\<close> and \<open>charged\<close> into \<open>spent\<close>. The
  column constraints \<open>CHECK (reserved >= 0)\<close> and \<open>CHECK (spent >= 0)\<close> abort it.
\<close>

definition move_budget ::
    "string \<Rightarrow> budget_unit \<Rightarrow> int \<Rightarrow> int \<Rightarrow> ledger \<Rightarrow> ledger" where
  "move_budget rid u bound charged L =
     (if u = Tokens
      then set_root rid (\<lambda>r. r\<lparr>root_reserved := root_reserved r - bound,
                               root_spent := root_spent r + charged\<rparr>) L
      else set_budget rid u (\<lambda>b. b\<lparr>bud_reserved := bud_reserved b - bound,
                                   bud_spent := bud_spent b + charged\<rparr>) L)"

definition settle ::
    "clocks \<Rightarrow> attempt_row \<Rightarrow> string \<Rightarrow> int option \<Rightarrow> ledger \<Rightarrow> error + ledger" where
  "settle c a rid usage L =
     (if \<not> att_budget_held a then Inr L
      else
        (let bound = att_budget_bound a; u = att_budget_unit a;
             charged = or_else usage bound in
         if charged < 0 then Inl (ValueError ''negative usage'')
         else case budget_line L rid u of
             None \<Rightarrow> Inl (RuntimeConflict ''attempt budget ledger missing'')
           | Some (limit, reserved, spent) \<Rightarrow>
               (if reserved - bound < 0 \<or> spent + charged < 0
                then Inl (IntegrityError ''reserved/spent check'')
                else
                  (let L1 = set_attempt (att_id a) (settled_row usage) L;
                       L2 = move_budget rid u bound charged L1;
                       L3 = (if limit < spent + charged then set_root rid (over_budget c) L2 else L2);
                       L4 = (if bound < charged then set_pool (att_pool_id a) degrade_pool L3 else L3)
                   in Inr (wake L4)))))"

section \<open>Ending an attempt\<close>

fun record_artifacts ::
    "(string \<Rightarrow> string) \<Rightarrow> string \<Rightarrow> string \<Rightarrow> string \<Rightarrow> disposition \<Rightarrow> artifact list \<Rightarrow> ledger
      \<Rightarrow> error + ledger" where
  "record_artifacts digest tenant opid aid d [] L = Inr L"
| "record_artifacts digest tenant opid aid d (ref # refs) L =
     (if \<not> starts_with (tenant_prefix digest tenant) (art_key ref) then Inl (NotFound ''result'')
      else if \<exists>row \<in> set (t_artifacts L). arow_object_key row = art_key ref \<and> arow_attempt_id row = aid
      then Inl (IntegrityError ''runtime_artifacts_pkey'')
      else record_artifacts digest tenant opid aid d refs
             (L\<lparr>t_artifacts := t_artifacts L @
                  [\<lparr>arow_object_key = art_key ref, arow_tenant_id = tenant, arow_operation_id = opid,
                    arow_attempt_id = aid, arow_manifest = ref, arow_disposition = d\<rparr>]\<rparr>))"

definition committed_row :: "clocks \<Rightarrow> attempt_row \<Rightarrow> attempt_row" where
  "committed_row c a = a\<lparr>att_state := RESULT_COMMITTED, att_result_committed_at := Some (txn_now c)\<rparr>"

definition succeed_op :: "artifact \<Rightarrow> op_row \<Rightarrow> op_row" where
  "succeed_op ref x = x\<lparr>op_state := SUCCEEDED, op_result := Some ref, op_wait_reason := None\<rparr>"

definition commit_result ::
    "(string \<Rightarrow> string) \<Rightarrow> clocks \<Rightarrow> reservation \<Rightarrow> artifact \<Rightarrow> int option \<Rightarrow> artifact list \<Rightarrow> ledger
      \<Rightarrow> error + ledger" where
  "commit_result digest c rv ref usage attachments L =
     and_then (owned rv L) (\<lambda>(a, x, r).
       if att_state a = RESULT_COMMITTED
       then (if op_result x \<noteq> None \<and> op_result x \<noteq> Some ref
             then Inl (RuntimeConflict ''committed result differs'') else Inr L)
       else if att_compute_held a \<or> att_state a \<noteq> BACKEND_FINISHED
       then Inl (RuntimeConflict ''backend termination must be recorded first'')
       else
         (let (L1, expired) = expire_operation c (op_spec x) (stamp c) L;
              cancelled = (root_cancel_requested r \<or> op_state x = CANCELLED \<or> root_state r \<noteq> RUNNING);
              over = (expired \<or> op_terminal (op_state x));
              d = (if cancelled then LateCancelled else if over then LateTerminal else ResultDisposition)
          in
          and_then (record_artifacts digest (op_tenant_id x) (op_id x) (att_id a) d
                      (ref # attachments) L1) (\<lambda>L2.
          and_then (settle c a (op_root_id x) usage L2) (\<lambda>L3.
            (let L4 = set_attempt (att_id a) (committed_row c) L3;
                 L5 = (if \<not> cancelled \<and> \<not> over then set_op (op_id x) (succeed_op ref) L4
                       else if cancelled \<and> \<not> over
                       then terminal c (op_id x) FAILED ''root_terminal'' L4
                       else L4)
             in Inr (completion_events c (op_id x) L5))))))"

definition unknown_row :: "clocks \<Rightarrow> string \<Rightarrow> attempt_row \<Rightarrow> attempt_row" where
  "unknown_row c reason a = a\<lparr>att_state := UNKNOWN, att_error_class := Some reason,
     att_unknown_at := coalesce (att_unknown_at a) (txn_now c)\<rparr>"

definition reconciling_op :: "string \<Rightarrow> op_row \<Rightarrow> op_row" where
  "reconciling_op reason x = x\<lparr>op_state := RECONCILING, op_wait_reason := Some reason\<rparr>"

definition unknown :: "clocks \<Rightarrow> reservation \<Rightarrow> string \<Rightarrow> ledger \<Rightarrow> error + ledger" where
  "unknown c rv reason L =
     and_then (owned rv L) (\<lambda>(a, x, r).
       if att_ended (att_state a) then Inr L
       else
         (let L1 = set_attempt (att_id a) (unknown_row c reason) L;
              (L2, expired) = expire_operation c (op_spec x) (stamp c) L1
          in Inr (if \<not> expired \<and> \<not> op_terminal (op_state x)
                  then set_op (op_id x) (reconciling_op reason) L2 else L2)))"

definition failed_row :: "attempt_state \<Rightarrow> string \<Rightarrow> attempt_row \<Rightarrow> attempt_row" where
  "failed_row st reason a =
     a\<lparr>att_state := st, att_compute_held := False, att_error_class := Some reason\<rparr>"

definition retry_op :: "string \<Rightarrow> int \<Rightarrow> op_row \<Rightarrow> op_row" where
  "retry_op reason at x =
     x\<lparr>op_state := RETRY_WAIT, op_wait_reason := Some reason, op_retry_at := Some at\<rparr>"

definition fail ::
    "clocks \<Rightarrow> reservation \<Rightarrow> string \<Rightarrow> bool \<Rightarrow> bool \<Rightarrow> int \<Rightarrow> ledger \<Rightarrow> error + ledger" where
  "fail c rv reason not_sent retry delay L =
     and_then (owned rv L) (\<lambda>(a, x, r).
       if att_ended (att_state a) then Inr L
       else if att_compute_held a \<and> \<not> not_sent
       then Inl (RuntimeConflict ''cannot fail/refund an attempt with unknown compute'')
       else
         and_then (settle c a (op_root_id x) (if not_sent then Some 0 else None) L) (\<lambda>L1.
           (let L2 = set_attempt (att_id a)
                       (failed_row (if not_sent then FAILED_NOT_SENT else ATTEMPT_FAILED) reason) L1
            in Inr
              (if op_terminal (op_state x) then L2
               else if root_cancel_requested r then terminal c (op_id x) CANCELLED ''user_cancelled'' L2
               else if root_state r \<noteq> RUNNING then terminal c (op_id x) FAILED ''root_terminal'' L2
               else if op_expired (op_spec x) (stamp c) then fst (expire_operation c (op_spec x) (stamp c) L2)
               else if retry then set_op (op_id x) (retry_op reason (utc c + delay)) L2
               else terminal c (op_id x) FAILED reason L2))))"

end
