(* ===== verification/Ledger_Runs.thy ===== *)
theory Ledger_Runs
  imports Ledger_Dispatch
begin

text \<open>
  The end of a run in \<open>store.py\<close>: \<open>cancel\<close>, \<open>finish_run\<close>, the read \<open>run\<close> and the
  shutdown check \<open>drain_status\<close>.
\<close>

section \<open>Cancellation\<close>

definition pending_ids :: "string \<Rightarrow> ledger \<Rightarrow> string list" where
  "pending_ids rid L = map op_id (filter (\<lambda>x. op_root_id x = rid \<and> pending_op x) (t_ops L))"

definition cancelled_root :: "clocks \<Rightarrow> root_row \<Rightarrow> root_row" where
  "cancelled_root c r =
     r\<lparr>root_cancel_requested := True, root_state := ROOT_CANCELLED,
       root_terminal_reason := Some ''user_cancelled'',
       root_finished_at := coalesce (root_finished_at r) (txn_now c)\<rparr>"

definition cancel :: "clocks \<Rightarrow> string \<Rightarrow> string \<Rightarrow> ledger \<Rightarrow> error + ledger" where
  "cancel c rid tenant L =
     (case find_root L rid of
        None \<Rightarrow> Inl (NotFound ''root'')
      | Some r \<Rightarrow>
          (if root_tenant_id r \<noteq> tenant then Inl (NotFound ''root'')
           else if root_state r \<in> {ROOT_SUCCEEDED, PARTIAL, ROOT_FAILED} then Inr L
           else
             (let L1 = set_root rid (cancelled_root c) L in
              Inr (emit_event c (cancel_event_id rid) rid (CancelWorkflow rid)
                (terminal_all c (pending_ids rid L1) CANCELLED ''user_cancelled'' L1)))))"

section \<open>Finishing\<close>

text \<open>The state text of a request; the terminal states other than \<open>CANCELLED\<close>.\<close>

fun finish_state :: "string \<Rightarrow> root_state option" where
  "finish_state s =
     (if s = ''SUCCEEDED'' then Some ROOT_SUCCEEDED
      else if s = ''PARTIAL'' then Some PARTIAL
      else if s = ''FAILED'' then Some ROOT_FAILED else None)"

definition finished_root ::
    "int \<Rightarrow> root_state \<Rightarrow> artifact option \<Rightarrow> string option \<Rightarrow> root_row \<Rightarrow> root_row" where
  "finished_root at st res reason r =
     (if root_deadline r \<le> at
      then r\<lparr>root_state := ROOT_FAILED, root_result := None,
             root_terminal_reason := Some ''deadline_exceeded'', root_finished_at := Some at\<rparr>
      else r\<lparr>root_state := st, root_result := res, root_terminal_reason := reason,
             root_finished_at := Some at\<rparr>)"

text \<open>Python's \<open>reason or default\<close>: an empty text counts as absent.\<close>

definition text_or :: "string option \<Rightarrow> string \<Rightarrow> string" where
  "text_or x d = (case x of None \<Rightarrow> d | Some s \<Rightarrow> if s = [] then d else s)"

definition transition_run ::
    "clocks \<Rightarrow> root_row \<Rightarrow> root_state \<Rightarrow> artifact option \<Rightarrow> string option \<Rightarrow> ledger
      \<Rightarrow> error + ledger" where
  "transition_run c r st res reason L =
     (let rid = root_id r in
      if st = ROOT_SUCCEEDED \<and> pending_ids rid L \<noteq> []
      then Inl (RuntimeConflict ''cannot succeed with pending operations'')
      else
        (let done = finished_root (stamp_later c) st res reason r;
             L1 = set_root rid (finished_root (stamp_later c) st res reason) L
         in Inr (wake
              (if root_state done \<noteq> ROOT_SUCCEEDED
               then terminal_all c (pending_ids rid L1) CANCELLED
                      (text_or (root_terminal_reason done) ''root_finished'') L1
               else L1))))"

definition finish_run ::
    "(string \<Rightarrow> string) \<Rightarrow> clocks \<Rightarrow> string \<Rightarrow> string \<Rightarrow> string \<Rightarrow> artifact option \<Rightarrow> string option
      \<Rightarrow> ledger \<Rightarrow> error + ledger" where
  "finish_run digest c rid tenant state res reason L =
     (if state = ''CANCELLED''
      then (if res \<noteq> None then Inl (ValueError ''cancelled run cannot publish a result'')
            else cancel c rid tenant L)
      else case finish_state state of
        None \<Rightarrow> Inl (ValueError ''invalid terminal state'')
      | Some st \<Rightarrow>
          (if \<not> opt_all (\<lambda>ref. starts_with (tenant_prefix digest tenant) (art_key ref)) res
           then Inl (NotFound ''result'')
           else if st = PARTIAL \<and> (res = None \<or> text_or reason [] = [])
           then Inl (ValueError ''partial result requires an artifact and reason'')
           else case find_root L rid of
             None \<Rightarrow> Inl (NotFound ''root'')
           | Some r \<Rightarrow>
               (if root_tenant_id r \<noteq> tenant then Inl (NotFound ''root'')
                else if root_state r \<noteq> RUNNING
                then (if root_state r = st \<and> root_result r \<noteq> res
                      then Inl (RuntimeConflict ''terminal result is immutable'') else Inr L)
                else if root_deadline r \<le> stamp c
                then transition_run c r ROOT_FAILED None (Some ''deadline_exceeded'') L
                else transition_run c r st res reason L)))"

section \<open>Reads\<close>

text \<open>
  The rows of the view \<open>runtime_inflight_attempts\<close>: the pool, the state and the two holds
  of the durable and of the retained direct attempts.
\<close>

record inflight =
  inf_pool_id :: string
  inf_state :: attempt_state
  inf_compute_held :: bool
  inf_budget_held :: bool

definition inflight_attempts :: "ledger \<Rightarrow> inflight list" where
  "inflight_attempts L =
     map (\<lambda>a. \<lparr>inf_pool_id = att_pool_id a, inf_state = att_state a,
               inf_compute_held = att_compute_held a, inf_budget_held = att_budget_held a\<rparr>)
       (t_attempts L)
     @ map (\<lambda>d. \<lparr>inf_pool_id = dir_pool_id d, inf_state = dir_state d,
                 inf_compute_held = dir_compute_held d, inf_budget_held = False\<rparr>) (t_direct L)"

record drain =
  dn_compute_held :: int
  dn_pending_settlement :: int
  dn_unknown_attempts :: int
  dn_unsettled_attempts :: int

definition drain_status :: "ledger \<Rightarrow> drain" where
  "drain_status L =
     (let t = inflight_attempts L in
      \<lparr>dn_compute_held = count_rows inf_compute_held t,
       dn_pending_settlement = count_rows (\<lambda>a. \<not> inf_compute_held a
         \<and> (inf_budget_held a \<or> inf_state a = BACKEND_FINISHED)) t,
       dn_unknown_attempts = count_rows (\<lambda>a. inf_state a = UNKNOWN) t,
       dn_unsettled_attempts = count_rows (\<lambda>a. inf_compute_held a \<or> inf_budget_held a
         \<or> inf_state a = UNKNOWN \<or> inf_state a = BACKEND_FINISHED) t\<rparr>)"

record run_view =
  run_root :: root_row
  run_task :: "(run_spec \<times> string) option"
  run_operations :: "operation_state \<Rightarrow> int"
  run_cleanup_pending :: bool
  run_budgets :: "budget_row list"

definition run_of :: "ledger \<Rightarrow> string \<Rightarrow> string \<Rightarrow> error + run_view" where
  "run_of L rid tenant =
     (case find_root L rid of
        None \<Rightarrow> Inl (NotFound ''root'')
      | Some r \<Rightarrow>
          (if root_tenant_id r \<noteq> tenant then Inl (NotFound ''root'')
           else Inr
             \<lparr>run_root = r,
              run_task = map_option (\<lambda>s. (sub_spec s, sub_input_digest s))
                           (lookup_row sub_run_id rid (t_submissions L)),
              run_operations = (\<lambda>st. count_rows (\<lambda>x. op_root_id x = rid \<and> op_state x = st) (t_ops L)),
              run_cleanup_pending = cleanup_pending L rid,
              run_budgets = filter (\<lambda>b. bud_root_id b = rid) (t_budgets L)\<rparr>))"

end
