(* ===== verification/Ledger_Outbox.thy ===== *)
theory Ledger_Outbox
  imports Ledger_Runs
begin

text \<open>
  The outbox: \<open>claim_events\<close>, \<open>delivered\<close>, \<open>defer_event\<close> and \<open>binding\<close> of \<open>store.py\<close>,
  and the publisher and activities of \<open>temporal_adapter.py\<close> that use it.

  The Temporal service is outside the repository: what a delivery asks of it is the value
  \<open>temporal_call\<close>, and its answer is an argument.
\<close>

section \<open>Claims\<close>

definition claimable :: "int \<Rightarrow> event_row \<Rightarrow> bool" where
  "claimable at e \<longleftrightarrow>
     ev_delivered_at e = None \<and> ev_available_at e \<le> at \<and>
     (case ev_lease_expires_at e of None \<Rightarrow> True | Some t \<Rightarrow> t < at)"

definition claim_row :: "int \<Rightarrow> string \<Rightarrow> event_row \<Rightarrow> event_row" where
  "claim_row at owner e =
     e\<lparr>ev_owner_id := Some owner, ev_lease_expires_at := Some (at + seconds 30),
       ev_deliveries := ev_deliveries e + 1\<rparr>"

text \<open>\<open>locked\<close>: the events whose row another publisher's transaction holds.\<close>

definition claim_ids :: "int \<Rightarrow> string list \<Rightarrow> nat \<Rightarrow> ledger \<Rightarrow> string list" where
  "claim_ids at locked limit L =
     map ev_id (take limit (sort_key ev_created_at
       (filter (\<lambda>e. claimable at e \<and> ev_id e \<notin> set locked) (t_outbox L))))"

definition claim_events ::
    "clocks \<Rightarrow> string list \<Rightarrow> string \<Rightarrow> nat \<Rightarrow> ledger \<Rightarrow> ledger \<times> event_row list" where
  "claim_events c locked owner limit L =
     (let ids = claim_ids (txn_now c) locked limit L;
          L1 = L\<lparr>t_outbox := update_rows (\<lambda>e. ev_id e \<in> set ids) (claim_row (txn_now c) owner) (t_outbox L)\<rparr>
      in (L1, filter (\<lambda>e. ev_id e \<in> set ids) (t_outbox L1)))"

text \<open>The fence of an acknowledgement: the current claim, not yet acknowledged, in time.\<close>

definition claim_held :: "int \<Rightarrow> string \<Rightarrow> string \<Rightarrow> int \<Rightarrow> event_row \<Rightarrow> bool" where
  "claim_held at eid owner delivery e \<longleftrightarrow>
     ev_id e = eid \<and> ev_owner_id e = Some owner \<and> ev_deliveries e = delivery \<and>
     ev_delivered_at e = None \<and>
     (case ev_lease_expires_at e of None \<Rightarrow> False | Some t \<Rightarrow> at < t)"

definition delivered :: "clocks \<Rightarrow> string \<Rightarrow> string \<Rightarrow> int \<Rightarrow> ledger \<Rightarrow> ledger \<times> bool" where
  "delivered c eid owner delivery L =
     (L\<lparr>t_outbox := update_rows (claim_held (txn_now c) eid owner delivery)
          (\<lambda>e. e\<lparr>ev_delivered_at := Some (txn_now c)\<rparr>) (t_outbox L)\<rparr>,
      count_rows (claim_held (txn_now c) eid owner delivery) (t_outbox L) = 1)"

definition defer_event ::
    "clocks \<Rightarrow> string \<Rightarrow> string \<Rightarrow> int \<Rightarrow> int \<Rightarrow> ledger \<Rightarrow> error + ledger \<times> bool" where
  "defer_event c eid owner delivery delay L =
     (if \<not> (seconds 1 \<le> delay \<and> delay \<le> seconds 300)
      then Inl (ValueError ''outbox retry delay must be between 1 and 300 seconds'')
      else Inr
        (L\<lparr>t_outbox := update_rows (claim_held (txn_now c) eid owner delivery)
             (\<lambda>e. e\<lparr>ev_available_at := txn_now c + delay, ev_owner_id := None,
                    ev_lease_expires_at := None\<rparr>) (t_outbox L)\<rparr>,
         count_rows (claim_held (txn_now c) eid owner delivery) (t_outbox L) = 1))"

text \<open>\<open>binding\<close>: the token and the operation; a missing one makes \<open>dict(None)\<close> raise.\<close>

definition binding_of :: "ledger \<Rightarrow> string \<Rightarrow> error + string \<times> op_row" where
  "binding_of L bid =
     (case lookup_row bind_id bid (t_bindings L) of
        None \<Rightarrow> Inl (ValueError ''binding'')
      | Some b \<Rightarrow>
          (case find_op L (bind_operation_id b) of
             None \<Rightarrow> Inl (ValueError ''binding'')
           | Some x \<Rightarrow> Inr (bind_task_token b, x)))"

section \<open>Delivery\<close>

datatype temporal_call =
    StartWorkflowCall run_spec int     \<comment> \<open>execution timeout\<close>
  | CancelWorkflowCall string
  | CompleteCall string "artifact option"
  | ReportCancellation string
  | FailCall string string

text \<open>
  What the service answers. \<open>RpcNotFound\<close> is \<open>RPCError\<close> with status \<open>NOT_FOUND\<close>;
  \<open>CallFails\<close> is every other exception, a timeout included.
\<close>

datatype temporal_answer = Accepted | AlreadyStarted | RpcNotFound | CallFails

text \<open>
  \<open>_deliver\<close>, up to the service's answer: it either finishes the run in the ledger itself,
  raises, or makes one call.
\<close>

datatype delivery =
    LedgerDone ledger
  | Calls temporal_call
  | Raises error

definition deliver_event ::
    "(string \<Rightarrow> string) \<Rightarrow> clocks \<Rightarrow> event_row \<Rightarrow> ledger \<Rightarrow> delivery" where
  "deliver_event digest c e L =
     (case ev_payload e of
        StartWorkflow s \<Rightarrow>
          (case run_deadline s of
             None \<Rightarrow> Raises (KeyError ''deadline'')
           | Some dl \<Rightarrow>
               (if dl - utc c \<le> 0
                then (case finish_run digest c (ev_aggregate_id e) (run_tenant_id s) ''FAILED'' None
                             (Some ''deadline_exceeded'') L of
                        Inl err \<Rightarrow> Raises err
                      | Inr L' \<Rightarrow> LedgerDone L')
                else Calls (StartWorkflowCall s (dl - utc c))))
      | CancelWorkflow _ \<Rightarrow> Calls (CancelWorkflowCall (ev_aggregate_id e))
      | CompleteActivity bid \<Rightarrow>
          (case binding_of L bid of
             Inl err \<Rightarrow> Raises err
           | Inr (token, x) \<Rightarrow>
               (case op_state x of
                  SUCCEEDED \<Rightarrow> Calls (CompleteCall token (op_result x))
                | CANCELLED \<Rightarrow> Calls (ReportCancellation token)
                | FAILED \<Rightarrow> Calls (FailCall token (text_or (op_wait_reason x) ''operation_failed''))
                | _ \<Rightarrow> Raises (RuntimeConflict ''completion binding is not terminal''))))"

text \<open>
  Whether the delivery counts as done: an already started workflow does, and so does a
  completion whose activity the service no longer knows.
\<close>

definition delivery_ok :: "event_payload \<Rightarrow> temporal_answer \<Rightarrow> bool" where
  "delivery_ok p ans =
     (case ans of
        Accepted \<Rightarrow> True
      | AlreadyStarted \<Rightarrow> (case p of StartWorkflow _ \<Rightarrow> True | _ \<Rightarrow> False)
      | RpcNotFound \<Rightarrow> (case p of CompleteActivity _ \<Rightarrow> True | _ \<Rightarrow> False)
      | CallFails \<Rightarrow> False)"

definition delay_cap :: "int \<Rightarrow> int" where
  "delay_cap deliveries = min 300 (2 ^ nat (min (max 0 (deliveries - 1)) 9))"

text \<open>
  \<open>random.uniform(1, cap)\<close>: a draw between its bounds, in either order. \<open>draw\<close> is the
  fraction of the way, in millionths.
\<close>

definition retry_delay :: "int \<Rightarrow> int \<Rightarrow> int" where
  "retry_delay deliveries draw =
     seconds 1 + (delay_cap deliveries - 1) * (max 0 (min 1000000 draw))"

text \<open>
  \<open>_publish\<close>. The two writes each may fail on an unavailable database (\<open>db_ok\<close>,
  \<open>defer_ok\<close>); a failed acknowledgement is deferred like a failed delivery, and a failed
  deferral leaves the claim to expire.
\<close>

definition defer_publish ::
    "clocks \<Rightarrow> string \<Rightarrow> event_row \<Rightarrow> int \<Rightarrow> bool \<Rightarrow> ledger \<Rightarrow> ledger" where
  "defer_publish c owner e draw defer_ok L =
     (if defer_ok
      then (case defer_event c (ev_id e) owner (ev_deliveries e) (retry_delay (ev_deliveries e) draw) L of
              Inl _ \<Rightarrow> L
            | Inr (L', _) \<Rightarrow> L')
      else L)"

definition acknowledge ::
    "clocks \<Rightarrow> string \<Rightarrow> event_row \<Rightarrow> int \<Rightarrow> bool \<Rightarrow> bool \<Rightarrow> ledger \<Rightarrow> ledger" where
  "acknowledge c owner e draw db_ok defer_ok L =
     (if db_ok then fst (delivered c (ev_id e) owner (ev_deliveries e) L)
      else defer_publish c owner e draw defer_ok L)"

definition publish ::
    "(string \<Rightarrow> string) \<Rightarrow> clocks \<Rightarrow> string \<Rightarrow> event_row \<Rightarrow> temporal_answer \<Rightarrow> int \<Rightarrow> bool \<Rightarrow> bool
      \<Rightarrow> ledger \<Rightarrow> ledger" where
  "publish digest c owner e ans draw db_ok defer_ok L =
     (case deliver_event digest c e L of
        LedgerDone L1 \<Rightarrow> acknowledge c owner e draw db_ok defer_ok L1
      | Raises _ \<Rightarrow> defer_publish c owner e draw defer_ok L
      | Calls _ \<Rightarrow>
          (if delivery_ok (ev_payload e) ans then acknowledge c owner e draw db_ok defer_ok L
           else defer_publish c owner e draw defer_ok L))"

section \<open>Activities\<close>

text \<open>How the activity ends: a value, an exception Temporal sees, or an open completion.\<close>

datatype activity_end =
    ActivityResult "artifact option"
  | ActivityCancelled
  | ActivityFailed string bool          \<comment> \<open>message, non-retryable\<close>
  | ActivityRaises error
  | CompletesLater

fun error_text :: "error \<Rightarrow> string" where
  "error_text (RuntimeConflict s) = s"
| "error_text (SendBudgetUnavailable r) = send_budget_text r"
| "error_text (AdmissionDenied s _) = s"
| "error_text (NotFound s) = s"
| "error_text (ValueError s) = s"
| "error_text (KeyError s) = s"
| "error_text (PyTimeoutError s) = s"
| "error_text (IntegrityError s) = s"

fun activity_error :: "error \<Rightarrow> activity_end" where
  "activity_error (AdmissionDenied s retryable) = ActivityFailed s (\<not> retryable)"
| "activity_error (NotFound s) = ActivityFailed s True"
| "activity_error (RuntimeConflict s) = ActivityFailed s True"
| "activity_error (SendBudgetUnavailable r) = ActivityFailed (send_budget_text r) True"
| "activity_error e = ActivityRaises e"

text \<open>
  \<open>_submit\<close>: three transactions, each with its own clock readings. Between them other
  transactions may run: \<open>mid1\<close> and \<open>mid2\<close> are what they do to the ledger.
\<close>

definition submit_activity ::
    "(string \<Rightarrow> string) \<Rightarrow> clocks \<Rightarrow> clocks \<Rightarrow> (ledger \<Rightarrow> ledger) \<Rightarrow> (ledger \<Rightarrow> ledger)
      \<Rightarrow> operation_spec \<Rightarrow> string \<Rightarrow> ledger \<Rightarrow> ledger \<times> activity_end" where
  "submit_activity digest c1 c2 mid1 mid2 spec token L =
     (case submit_operation digest c1 spec L of
        Inl e \<Rightarrow> (L, activity_error e)
      | Inr (L1, _) \<Rightarrow>
          (let L2 = mid1 L1 in
           case operation_status L2 (os_operation_id spec) (os_tenant_id spec) of
             Inl e \<Rightarrow> (L2, activity_error e)
           | Inr (st, res, reason) \<Rightarrow>
               (if st = SUCCEEDED then (L2, ActivityResult res)
                else if st = CANCELLED then (L2, ActivityCancelled)
                else if st = FAILED then (L2, ActivityFailed (text_or reason ''operation_failed'') True)
                else
                  (let L3 = mid2 L2 in
                   case bind_completion digest c2 (os_operation_id spec) (os_tenant_id spec) token L3 of
                     Inl e \<Rightarrow> (L3, activity_error e)
                   | Inr L4 \<Rightarrow> (L4, CompletesLater)))))"

fun root_state_text :: "root_state \<Rightarrow> string" where
  "root_state_text RUNNING = ''RUNNING''"
| "root_state_text ROOT_SUCCEEDED = ''SUCCEEDED''"
| "root_state_text PARTIAL = ''PARTIAL''"
| "root_state_text ROOT_FAILED = ''FAILED''"
| "root_state_text ROOT_CANCELLED = ''CANCELLED''"

text \<open>
  \<open>finish\<close>: publishes success to Temporal only when the ledger holds that state. The
  artifact check of the object store is \<open>verified\<close>.
\<close>

definition finish_activity ::
    "(string \<Rightarrow> string) \<Rightarrow> (artifact \<Rightarrow> error + unit) \<Rightarrow> clocks \<Rightarrow> (ledger \<Rightarrow> ledger)
      \<Rightarrow> string \<Rightarrow> string \<Rightarrow> string \<Rightarrow> artifact option \<Rightarrow> string option \<Rightarrow> ledger
      \<Rightarrow> ledger \<times> activity_end" where
  "finish_activity digest verified c mid rid tenant state res reason L =
     (case (case res of None \<Rightarrow> Inr () | Some ref \<Rightarrow> verified ref) of
        Inl e \<Rightarrow> (L, ActivityRaises e)
      | Inr _ \<Rightarrow>
     (case finish_run digest c rid tenant state res reason L of
        Inl e \<Rightarrow> (L, (case e of AdmissionDenied _ _ \<Rightarrow> ActivityRaises e | _ \<Rightarrow> activity_error e))
      | Inr L1 \<Rightarrow>
          (let L2 = mid L1 in
           case find_root L2 rid of
             None \<Rightarrow> (L2, activity_error (NotFound ''root''))
           | Some r \<Rightarrow>
               (if root_tenant_id r \<noteq> tenant then (L2, activity_error (NotFound ''root''))
                else if state \<in> {''SUCCEEDED'', ''PARTIAL''} \<and> root_state_text (root_state r) \<noteq> state
                then (L2, ActivityFailed (text_or (root_terminal_reason r) ''terminal_result_rejected'') True)
                else (L2, ActivityResult None)))))"

end
