(* ===== verification/Ledger_Reconcile.thy ===== *)
theory Ledger_Reconcile
  imports Ledger_Outbox
begin

text \<open>
  Recovery in \<open>store.py\<close>: \<open>_settle_stopped_attempt\<close>, \<open>reconcile_expired\<close> with
  \<open>_settle_lost_results\<close>, \<open>confirm_epoch_stopped\<close>, \<open>settle_idle_unknown\<close>, and the
  engine controls \<open>quiesce_engine\<close>, \<open>resume_engine\<close>, \<open>update_target\<close>.
\<close>

section \<open>Attempts that have stopped\<close>

text \<open>An attempt joined with its operation and root, as the statement read them.\<close>

type_synonym joined = "attempt_row \<times> op_row \<times> root_row"

definition join_attempt :: "ledger \<Rightarrow> attempt_row \<Rightarrow> joined option" where
  "join_attempt L a =
     (case find_op L (att_operation_id a) of
        None \<Rightarrow> None
      | Some x \<Rightarrow> (case find_root L (op_root_id x) of None \<Rightarrow> None | Some r \<Rightarrow> Some (a, x, r)))"

definition join_attempts :: "ledger \<Rightarrow> attempt_row list \<Rightarrow> joined list" where
  "join_attempts L xs = List.map_filter (join_attempt L) xs"

definition stopped_row :: "clocks \<Rightarrow> string \<Rightarrow> attempt_row \<Rightarrow> attempt_row" where
  "stopped_row c err a =
     a\<lparr>att_state := ATTEMPT_FAILED, att_compute_held := False,
       att_backend_finished_at := coalesce (att_backend_finished_at a) (txn_now c),
       att_error_class := Some err\<rparr>"

definition recover_op :: "clocks \<Rightarrow> string \<Rightarrow> string \<Rightarrow> op_row \<Rightarrow> op_row" where
  "recover_op c aid reason x =
     (if op_active_attempt x = Some aid
      then x\<lparr>op_state := RETRY_WAIT, op_active_attempt := None, op_wait_reason := Some reason,
             op_retry_at := Some (txn_now c)\<rparr>
      else x)"

text \<open>
  \<open>x\<close> and \<open>r\<close> are the rows read with the attempt; the root and the budget are read again
  after the settlement.
\<close>

definition can_retry :: "clocks \<Rightarrow> bool \<Rightarrow> op_row \<Rightarrow> root_row \<Rightarrow> ledger \<Rightarrow> bool" where
  "can_retry c recover x r L =
     (let spec = op_spec x in
      case find_root L (op_root_id x) of
        None \<Rightarrow> False
      | Some root \<Rightarrow>
          recover \<and> root_state root = RUNNING \<and> \<not> root_cancel_requested root \<and>
          utc c < root_deadline root \<and> \<not> op_expired spec (utc c) \<and>
          op_attempts x < os_max_attempts spec \<and>
          root_attempts root < rs_max_attempts (root_spec_of r) \<and>
          (case budget_line L (op_root_id x) (budget_unit_of spec) of
             None \<Rightarrow> False
           | Some (limit, reserved, spent) \<Rightarrow> spent + reserved + budget_bound_of spec \<le> limit))"

definition settle_stopped_attempt ::
    "clocks \<Rightarrow> joined \<Rightarrow> bool \<Rightarrow> string \<Rightarrow> string \<Rightarrow> ledger \<Rightarrow> error + ledger" where
  "settle_stopped_attempt c axr recover err retry_reason L =
     (let (a, x, r) = axr in
      and_then (settle c a (op_root_id x) (if att_state a = RESERVED then Some 0 else None) L) (\<lambda>L1.
        (let L2 = set_attempt (att_id a) (stopped_row c err) L1 in
         Inr (if op_terminal (op_state x) then L2
              else if can_retry c recover x r L2
              then set_op (op_id x) (recover_op c (att_id a) retry_reason) L2
              else terminal c (op_id x) FAILED err L2))))"

fun settle_stopped_all ::
    "clocks \<Rightarrow> joined list \<Rightarrow> bool \<Rightarrow> string \<Rightarrow> string \<Rightarrow> ledger \<Rightarrow> error + ledger" where
  "settle_stopped_all c [] recover err retry_reason L = Inr L"
| "settle_stopped_all c (axr # rest) recover err retry_reason L =
     and_then (settle_stopped_attempt c axr recover err retry_reason L)
       (settle_stopped_all c rest recover err retry_reason)"

section \<open>Leases and deadlines\<close>

definition direct_ended :: "attempt_state \<Rightarrow> bool" where
  "direct_ended st \<longleftrightarrow> st \<in> {FINISHED, FAILED_NOT_SENT, ATTEMPT_FAILED, FAILED_RECOVERABLE}"

definition purge_direct :: "clocks \<Rightarrow> ledger \<Rightarrow> ledger" where
  "purge_direct c L = L\<lparr>t_direct := filter (\<lambda>d. \<not> (direct_ended (dir_state d)
     \<and> \<not> dir_compute_held d \<and> dir_created_at d < txn_now c - seconds 86400)) (t_direct L)\<rparr>"

definition direct_lapsed :: "clocks \<Rightarrow> ledger \<Rightarrow> direct_row \<Rightarrow> bool" where
  "direct_lapsed c L d \<longleftrightarrow>
     (dir_state d = RESERVED \<or> dir_state d = SEND_INTENT) \<and>
     (dir_deadline d \<le> stamp c
      \<or> (dir_lease_expires_at d \<le> stamp c \<and> \<not> owner_alive L (dir_owner_id d) (stamp c)))"

definition lapse_direct :: "clocks \<Rightarrow> direct_row \<Rightarrow> direct_row" where
  "lapse_direct c d =
     (if dir_state d = RESERVED
      then d\<lparr>dir_state := FAILED_NOT_SENT, dir_compute_held := False, dir_unknown_at := None,
             dir_error_class := Some ''lease_expired_before_send''\<rparr>
      else d\<lparr>dir_state := UNKNOWN, dir_compute_held := True,
             dir_unknown_at := coalesce (dir_unknown_at d) (txn_now c),
             dir_error_class := Some ''lease_expired_after_send''\<rparr>)"

definition expire_direct :: "clocks \<Rightarrow> ledger \<Rightarrow> ledger \<times> int" where
  "expire_direct c L =
     (L\<lparr>t_direct := update_rows (direct_lapsed c L) (lapse_direct c) (t_direct L)\<rparr>,
      count_rows (direct_lapsed c L) (t_direct L))"

definition waiter_lapsed :: "clocks \<Rightarrow> ledger \<Rightarrow> direct_waiter_row \<Rightarrow> bool" where
  "waiter_lapsed c L w \<longleftrightarrow> dw_deadline w \<le> stamp c \<or> \<not> owner_alive L (dw_owner_id w) (stamp c)"

definition expire_waiters :: "clocks \<Rightarrow> ledger \<Rightarrow> ledger" where
  "expire_waiters c L =
     (if \<exists>w \<in> set (t_direct_waiters L). waiter_lapsed c L w
      then wake (L\<lparr>t_direct_waiters := filter (\<lambda>w. \<not> waiter_lapsed c L w) (t_direct_waiters L)\<rparr>)
      else L)"

definition expired_op_ids :: "clocks \<Rightarrow> ledger \<Rightarrow> string list" where
  "expired_op_ids c L =
     map op_id (filter (\<lambda>x. pending_op x \<and> op_expired (op_spec x) (stamp c)) (t_ops L))"

text \<open>
  The attempts whose lease ended with no live owner, and reservations of ended operations.
\<close>

definition owner_live_now :: "clocks \<Rightarrow> ledger \<Rightarrow> string \<Rightarrow> bool" where
  "owner_live_now c L w = owner_alive L w (txn_now c)"

definition attempt_lapsed :: "clocks \<Rightarrow> ledger \<Rightarrow> joined \<Rightarrow> bool" where
  "attempt_lapsed c L axr =
     (let (a, x, r) = axr in
      ((att_lease_expires_at a < txn_now c \<and> \<not> owner_live_now c L (att_owner_id a))
       \<or> (att_state a = RESERVED \<and> op_terminal (op_state x))) \<and>
      att_state a \<in> {RESERVED, SEND_INTENT, ACTIVE, BACKEND_FINISHED} \<and>
      \<not> (att_state a = BACKEND_FINISHED \<and> \<not> att_compute_held a))"

definition lapsed_attempts :: "clocks \<Rightarrow> ledger \<Rightarrow> joined list" where
  "lapsed_attempts c L = filter (attempt_lapsed c L) (join_attempts L (t_attempts L))"

definition unsent_row :: "attempt_row \<Rightarrow> attempt_row" where
  "unsent_row a = a\<lparr>att_state := FAILED_NOT_SENT, att_compute_held := False,
                    att_error_class := Some ''lease_expired_before_send''\<rparr>"

definition lost_row :: "clocks \<Rightarrow> attempt_row \<Rightarrow> attempt_row" where
  "lost_row c a = a\<lparr>att_state := UNKNOWN, att_unknown_at := Some (txn_now c),
                    att_error_class := Some ''lease_expired_after_send''\<rparr>"

definition requeue_op :: "op_row \<Rightarrow> op_row" where
  "requeue_op x = (if op_terminal (op_state x) then x
                   else x\<lparr>op_state := READY, op_active_attempt := None\<rparr>)"

definition lost_op :: "op_row \<Rightarrow> op_row" where
  "lost_op x = (if op_terminal (op_state x) then x
                else x\<lparr>op_state := RECONCILING,
                       op_wait_reason := Some ''unknown_compute_or_result''\<rparr>)"

definition lapse_attempt :: "clocks \<Rightarrow> joined \<Rightarrow> ledger \<Rightarrow> error + ledger" where
  "lapse_attempt c axr L =
     (let (a, x, r) = axr in
      if att_state a = RESERVED
      then and_then (settle c a (op_root_id x) (Some 0) L) (\<lambda>L1.
             Inr (set_op (att_operation_id a) requeue_op (set_attempt (att_id a) unsent_row L1)))
      else Inr (set_op (att_operation_id a) lost_op (set_attempt (att_id a) (lost_row c) L)))"

fun lapse_all :: "clocks \<Rightarrow> joined list \<Rightarrow> ledger \<Rightarrow> error + ledger" where
  "lapse_all c [] L = Inr L"
| "lapse_all c (axr # rest) L = and_then (lapse_attempt c axr L) (lapse_all c rest)"

definition overdue_op_ids :: "clocks \<Rightarrow> ledger \<Rightarrow> string list" where
  "overdue_op_ids c L =
     map (op_id \<circ> fst) (filter (\<lambda>(x, r). root_deadline r \<le> txn_now c \<and> dispatchable x)
       (join_roots L (t_ops L)))"

section \<open>Requests no pool can serve\<close>

definition compatible_pools :: "operation_spec \<Rightarrow> pool_spec list \<Rightarrow> pool_spec list" where
  "compatible_pools spec pools =
     filter (\<lambda>p. ps_model_profile p = os_model_profile spec \<and> pool_kind p = op_kind spec
                \<and> os_required_capabilities spec \<subseteq> ps_capabilities p) pools"

fun body_texts :: "operation_body \<Rightarrow> int" where
  "body_texts (EmbeddingBody _ _ n) = n"
| "body_texts _ = 0"

fun body_revision :: "operation_body \<Rightarrow> string" where
  "body_revision (EmbeddingBody m _ _) = m"
| "body_revision _ = []"

definition too_big :: "operation_spec \<Rightarrow> pool_spec \<Rightarrow> bool" where
  "too_big spec p \<longleftrightarrow>
     request_limit p < budget_bound_of spec
     \<or> (op_kind spec = Embedding \<and> max_batch_size p 0 < body_texts (os_body spec))"

text \<open>Why the operation can never run on the configured pools, if that is known.\<close>

definition impossible_reason :: "operation_spec \<Rightarrow> pool_spec list \<Rightarrow> string option" where
  "impossible_reason spec pools =
     (let compat = compatible_pools spec pools;
          pinned = or_else (os_capacity_profile_id spec) [];
          compat2 = (if compat \<noteq> [] \<and> pinned \<noteq> []
                     then filter (\<lambda>p. ps_profile_id p = pinned) compat else compat);
          compat3 = (if compat2 \<noteq> [] \<and> op_kind spec = Embedding
                     then filter (\<lambda>p. ps_model_revision p = body_revision (os_body spec)) compat2
                     else compat2)
      in if compat \<noteq> [] \<and> compat2 = [] then Some ''capacity_profile_changed''
         else if compat2 \<noteq> [] \<and> compat3 = [] then Some ''model_revision_changed''
         else if compat3 \<noteq> [] \<and> list_all (too_big spec) compat3
         then Some (if op_kind spec = Llm then ''context_exceeds_all_pools''
                    else ''request_exceeds_all_pools'')
         else None)"

definition oldest_ready :: "ledger \<Rightarrow> op_row list" where
  "oldest_ready L = take 256 (sort_key op_created_at (filter dispatchable (t_ops L)))"

fun fail_impossible :: "clocks \<Rightarrow> pool_spec list \<Rightarrow> op_row list \<Rightarrow> ledger \<Rightarrow> ledger" where
  "fail_impossible c pools [] L = L"
| "fail_impossible c pools (x # xs) L =
     fail_impossible c pools xs
       (case impossible_reason (op_spec x) pools of
          None \<Rightarrow> L
        | Some reason \<Rightarrow> terminal c (op_id x) FAILED reason L)"

section \<open>The pass\<close>

definition expire_root :: "clocks \<Rightarrow> root_row \<Rightarrow> root_row" where
  "expire_root c r =
     (if root_state r = RUNNING \<and> root_deadline r \<le> txn_now c
      then r\<lparr>root_state := ROOT_FAILED, root_terminal_reason := Some ''deadline_exceeded'',
             root_finished_at := Some (txn_now c)\<rparr>
      else r)"

definition expire_roots :: "clocks \<Rightarrow> ledger \<Rightarrow> ledger" where
  "expire_roots c L = L\<lparr>t_roots := update_rows (\<lambda>_. True) (expire_root c) (t_roots L)\<rparr>"

definition orphaned_op_ids :: "ledger \<Rightarrow> string list" where
  "orphaned_op_ids L =
     map (op_id \<circ> fst) (filter (\<lambda>(x, r). root_state r \<noteq> RUNNING \<and> pending_op x)
       (join_roots L (t_ops L)))"

definition reconcile_transaction :: "clocks \<Rightarrow> ledger \<Rightarrow> error + ledger \<times> int" where
  "reconcile_transaction c L =
     (let (L1, direct) = expire_direct c (purge_direct c L);
          L2 = expire_waiters c L1;
          L3 = terminal_all c (expired_op_ids c L2) FAILED ''operation_deadline_exceeded'' L2;
          lapsed = lapsed_attempts c L3
      in and_then (lapse_all c lapsed L3) (\<lambda>L4.
        (let L5 = terminal_all c (overdue_op_ids c L4) FAILED ''deadline_exceeded'' L4;
             L6 = fail_impossible c (map pool_spec_of (t_pools L5)) (oldest_ready L5) L5;
             L7 = expire_roots c L6;
             L8 = terminal_all c (orphaned_op_ids L7) CANCELLED ''root_terminal'' L7
         in Inr (if direct \<noteq> 0 then wake L8 else L8, int (length lapsed) + direct))))"

section \<open>Lost results\<close>

definition result_lost :: "clocks \<Rightarrow> ledger \<Rightarrow> attempt_row \<Rightarrow> bool" where
  "result_lost c L a \<longleftrightarrow>
     \<not> att_compute_held a \<and> att_result_committed_at a = None \<and>
     ((att_state a = BACKEND_FINISHED \<and> att_lease_expires_at a < txn_now c
        \<and> \<not> owner_live_now c L (att_owner_id a))
      \<or> (att_state a = UNKNOWN \<and> att_backend_finished_at a \<noteq> None))"

text \<open>One attempt, in its own transaction; \<open>None\<close> when it no longer qualifies or is locked.\<close>

definition settle_lost_one ::
    "clocks \<Rightarrow> string list \<Rightarrow> string \<Rightarrow> ledger \<Rightarrow> error + ledger option" where
  "settle_lost_one c locked aid L =
     (case find_attempt L aid of
        None \<Rightarrow> Inr None
      | Some a \<Rightarrow>
          (if aid \<in> set locked \<or> \<not> result_lost c L a then Inr None
           else case join_attempt L a of
             None \<Rightarrow> Inr None
           | Some axr \<Rightarrow>
               map_sum id (\<lambda>L'. Some (wake L'))
                 (settle_stopped_attempt c axr True ''result_lost_after_backend_finished''
                    ''result_lost_after_backend_finished'' L)))"

definition lost_ids :: "clocks \<Rightarrow> ledger \<Rightarrow> string list" where
  "lost_ids c L = map att_id (sort_key att_created_at (filter (result_lost c L) (t_attempts L)))"

text \<open>\<open>clk\<close> gives each attempt's transaction its own readings. A raise is logged only.\<close>

fun settle_lost_all ::
    "(string \<Rightarrow> clocks) \<Rightarrow> string list \<Rightarrow> string list \<Rightarrow> ledger \<Rightarrow> ledger \<times> int" where
  "settle_lost_all clk locked [] L = (L, 0)"
| "settle_lost_all clk locked (k # ks) L =
     (case settle_lost_one (clk k) locked k L of
        Inr (Some L') \<Rightarrow> (let (L'', n) = settle_lost_all clk locked ks L' in (L'', n + 1))
      | _ \<Rightarrow> settle_lost_all clk locked ks L)"

definition settle_lost_results ::
    "clocks \<Rightarrow> (string \<Rightarrow> clocks) \<Rightarrow> string list \<Rightarrow> ledger \<Rightarrow> ledger \<times> int" where
  "settle_lost_results c clk locked L = settle_lost_all clk locked (lost_ids c L) L"

definition reconcile_expired ::
    "clocks \<Rightarrow> clocks \<Rightarrow> (string \<Rightarrow> clocks) \<Rightarrow> string list \<Rightarrow> ledger \<Rightarrow> error + ledger \<times> int" where
  "reconcile_expired c c' clk locked L =
     and_then (reconcile_transaction c L) (\<lambda>(L1, n).
       (let (L2, m) = settle_lost_results c' clk locked L1 in Inr (L2, n + m)))"

section \<open>Stopped engines\<close>

text \<open>
  The evidence a recovery needs: \<open>loads\<close> is \<open>json.loads\<close> and \<open>from_iso\<close> is
  \<open>datetime.fromisoformat\<close> after the \<open>Z\<close> suffix is rewritten. Every exception of the
  block becomes a \<open>ValueError\<close>.
\<close>

definition read_time :: "(string \<Rightarrow> py_datetime option) \<Rightarrow> json \<Rightarrow> error + py_datetime" where
  "read_time from_iso j =
     (case as_string j of
        None \<Rightarrow> Inl (ValueError ''exact stopped process evidence required'')
      | Some s \<Rightarrow> (case from_iso s of None \<Rightarrow> Inl (ValueError s) | Some t \<Rightarrow> Inr t))"

definition CHILD_ABSENT :: string where
  "CHILD_ABSENT = ''container_and_child_absent''"

definition STOPPED_OR_REPLACED :: string where
  "STOPPED_OR_REPLACED = ''container_stopped_or_replaced''"

definition proof_times :: "json \<Rightarrow> error + json \<times> json" where
  "proof_times p =
     (if jget ''verification'' p = JString CHILD_ABSENT
      then (if \<not> nonempty_string (jget ''container_id'' p)
               \<or> (case plain_int (jget ''model_pid'' p) of None \<Rightarrow> True | Some n \<Rightarrow> n \<le> 0)
            then Inl (ValueError ''container and model child identity required'')
            else Inr (jget ''process_started_at'' p, jget ''verified_stopped_at'' p))
      else (if jget ''model_pid'' p \<noteq> JNull
               \<or> (jget ''old_container_id'' p \<noteq> JNull \<and> \<not> nonempty_string (jget ''old_container_id'' p))
               \<or> \<not> nonempty_string (jget ''observed_container_id'' p)
            then Inl (ValueError ''replacement container evidence required'')
            else Inr (jget ''old_started_at'' p, jget ''observed_started_at'' p)))"

definition times_ok :: "py_datetime \<Rightarrow> py_datetime \<Rightarrow> py_datetime \<Rightarrow> error + unit" where
  "times_ok started stopped verified =
     (case (started, stopped) of
        (Aware s, Aware t) \<Rightarrow>
          (if t \<le> s then Inl (ValueError ''invalid stopped process times'')
           else case verified of
             Aware v \<Rightarrow> require (t \<le> v) (ValueError ''invalid stopped process verification'')
           | Naive _ \<Rightarrow> Inl (ValueError ''invalid stopped process verification''))
      | _ \<Rightarrow> Inl (ValueError ''invalid stopped process times''))"

definition check_stop_proof ::
    "(string \<Rightarrow> json option) \<Rightarrow> (string \<Rightarrow> py_datetime option) \<Rightarrow> string \<Rightarrow> string \<Rightarrow> string
      \<Rightarrow> error + unit" where
  "check_stop_proof loads from_iso pid epoch evidence =
     (case loads evidence of
        None \<Rightarrow> Inl (ValueError ''exact stopped process evidence required'')
      | Some p \<Rightarrow>
          (if \<not> is_dict p \<or> jget ''pool_id'' p \<noteq> JString pid
              \<or> jget ''engine_epoch'' p \<noteq> JString epoch
              \<or> jget ''verification'' p \<notin> {JString CHILD_ABSENT, JString STOPPED_OR_REPLACED}
           then Inl (ValueError ''exact stopped process evidence required'')
           else and_then (proof_times p) (\<lambda>(started_at, stopped_at).
                and_then (read_time from_iso started_at) (\<lambda>started.
                and_then (read_time from_iso stopped_at) (\<lambda>stopped.
                and_then (read_time from_iso (jget ''verified_stopped_at'' p)) (\<lambda>verified.
                times_ok started stopped verified))))))"

definition blank :: "string \<Rightarrow> bool" where
  "blank s \<longleftrightarrow> list_all (\<lambda>ch. ch \<in> set [CHR '' '', CHR 0x09, CHR 0x0A, CHR 0x0B, CHR 0x0C, CHR 0x0D,
     CHR 0x1C, CHR 0x1D, CHR 0x1E, CHR 0x1F, CHR 0x85, CHR 0xA0]) s"

definition stop_direct :: "clocks \<Rightarrow> attempt_state \<Rightarrow> string \<Rightarrow> direct_row \<Rightarrow> direct_row" where
  "stop_direct c st err d =
     d\<lparr>dir_state := st, dir_compute_held := False,
       dir_backend_finished_at := coalesce (dir_backend_finished_at d) (txn_now c),
       dir_error_class := Some err\<rparr>"

definition close_pool :: "pool_row \<Rightarrow> pool_row" where
  "close_pool p = p\<lparr>pool_target := 0, pool_health := UNAVAILABLE\<rparr>"

definition epoch_attempts :: "ledger \<Rightarrow> string \<Rightarrow> string \<Rightarrow> joined list" where
  "epoch_attempts L pid epoch =
     join_attempts L (sort_key att_created_at
       (filter (\<lambda>a. att_pool_id a = pid \<and> att_engine_epoch a = epoch
                  \<and> (att_compute_held a \<or> att_budget_held a)) (t_attempts L)))"

definition note_update :: "string \<Rightarrow> int \<Rightarrow> int \<Rightarrow> string \<Rightarrow> ledger \<Rightarrow> ledger" where
  "note_update pid version target reason L =
     L\<lparr>t_updates := t_updates L @
        [\<lparr>upd_pool_id = pid, upd_envelope_version = version, upd_target = target,
          upd_reason = reason\<rparr>]\<rparr>"

definition confirm_epoch_stopped ::
    "(string \<Rightarrow> json option) \<Rightarrow> (string \<Rightarrow> py_datetime option) \<Rightarrow> clocks \<Rightarrow> string \<Rightarrow> string \<Rightarrow> string
      \<Rightarrow> bool \<Rightarrow> ledger \<Rightarrow> error + ledger \<times> int" where
  "confirm_epoch_stopped loads from_iso c pid epoch evidence recover L =
     (if blank evidence then Inl (ValueError ''termination evidence is required'')
      else and_then (if recover then check_stop_proof loads from_iso pid epoch evidence else Inr ()) (\<lambda>_.
        case find_pool L pid of
          None \<Rightarrow> Inl (RuntimeConflict ''engine epoch does not match'')
        | Some p \<Rightarrow>
            (if pool_engine_epoch p \<noteq> epoch
             then Inl (RuntimeConflict ''engine epoch does not match'')
             else if recover \<and> pool_health p = HEALTHY
             then Inl (RuntimeConflict ''quiesce the exact engine epoch before recovery'')
             else
               (let L1 = set_pool pid close_pool L;
                    hit = (\<lambda>d. dir_pool_id d = pid \<and> dir_engine_epoch d = epoch \<and> dir_compute_held d);
                    direct = count_rows hit (t_direct L1);
                    L2 = L1\<lparr>t_direct := update_rows hit
                           (stop_direct c (if recover then FAILED_RECOVERABLE else ATTEMPT_FAILED)
                              ''engine_epoch_stopped'') (t_direct L1)\<rparr>;
                    todo = filter (\<lambda>(a, x, r). \<not> (recover \<and> att_state a = BACKEND_FINISHED
                              \<and> \<not> att_compute_held a)) (epoch_attempts L2 pid epoch)
                in and_then (settle_stopped_all c todo recover ''engine_epoch_stopped''
                              ''engine_recovery'' L2) (\<lambda>L3.
                     Inr (wake (note_update pid (pool_envelope_version p) 0
                            (''epoch_stopped:'' @ epoch @ '':'' @ evidence) L3),
                          int (length todo) + direct))))))"

definition idle_attempts ::
    "ledger \<Rightarrow> string \<Rightarrow> string \<Rightarrow> int \<Rightarrow> string list \<Rightarrow> joined list" where
  "idle_attempts L pid epoch idle ids =
     join_attempts L (sort_key att_created_at
       (filter (\<lambda>a. att_pool_id a = pid \<and> att_engine_epoch a = epoch \<and> att_compute_held a
                  \<and> att_state a = UNKNOWN \<and> opt_all (\<lambda>t. t < idle) (att_unknown_at a)
                  \<and> att_unknown_at a \<noteq> None \<and> att_id a \<in> set ids) (t_attempts L)))"

definition settle_idle_unknown ::
    "clocks \<Rightarrow> string \<Rightarrow> string \<Rightarrow> int \<Rightarrow> string list \<Rightarrow> ledger \<Rightarrow> error + ledger \<times> int" where
  "settle_idle_unknown c pid epoch idle ids L =
     (case find_pool L pid of
        None \<Rightarrow> Inr (L, 0)
      | Some p \<Rightarrow>
          (if pool_engine_epoch p \<noteq> epoch then Inr (L, 0)
           else
             (let hit = (\<lambda>d. dir_pool_id d = pid \<and> dir_engine_epoch d = epoch \<and> dir_compute_held d
                        \<and> dir_state d = UNKNOWN \<and> dir_unknown_at d \<noteq> None
                        \<and> opt_all (\<lambda>t. t < idle) (dir_unknown_at d) \<and> dir_attempt_id d \<in> set ids);
                  direct = count_rows hit (t_direct L);
                  L1 = L\<lparr>t_direct := update_rows hit
                         (stop_direct c FAILED_RECOVERABLE ''engine_idle_verified'') (t_direct L)\<rparr>;
                  todo = idle_attempts L1 pid epoch idle ids
              in and_then (settle_stopped_all c todo True ''engine_idle_verified'' ''engine_recovery'' L1)
                   (\<lambda>L2. Inr (if todo \<noteq> [] \<or> direct \<noteq> 0 then wake L2 else L2,
                              int (length todo) + direct)))))"

section \<open>Engine controls\<close>

definition quiesce_engine :: "string \<Rightarrow> string \<Rightarrow> string \<Rightarrow> ledger \<Rightarrow> error + ledger" where
  "quiesce_engine pid epoch token L =
     (if token = [] \<or> 200 < length token then Inl (ValueError ''quiesce owner token required'')
      else case find_pool L pid of
        None \<Rightarrow> Inl (RuntimeConflict ''engine epoch does not match'')
      | Some p \<Rightarrow>
          (if pool_engine_epoch p \<noteq> epoch then Inl (RuntimeConflict ''engine epoch does not match'')
           else if pool_quiesce_token p \<noteq> None \<and> pool_quiesce_token p \<noteq> Some token
           then Inl (RuntimeConflict ''engine is quiesced by a different owner'')
           else if pool_health p \<noteq> HEALTHY \<and> pool_quiesce_token p = Some token then Inr L
           else if pool_health p \<noteq> HEALTHY
           then Inl (RuntimeConflict ''engine is not available to quiesce'')
           else Inr (wake (set_pool pid (\<lambda>p. p\<lparr>pool_target := 0, pool_health := DEGRADED,
                             pool_quiesce_token := Some token\<rparr>) L))))"

definition compute_in_pool :: "ledger \<Rightarrow> string \<Rightarrow> int" where
  "compute_in_pool L pid =
     count_rows (\<lambda>a. inf_pool_id a = pid \<and> inf_compute_held a) (inflight_attempts L)"

definition resume_engine :: "string \<Rightarrow> string \<Rightarrow> string \<Rightarrow> ledger \<Rightarrow> error + ledger" where
  "resume_engine pid epoch token L =
     (if token = [] \<or> 200 < length token then Inl (ValueError ''quiesce owner token required'')
      else case find_pool L pid of
        None \<Rightarrow> Inl (RuntimeConflict ''engine epoch does not match'')
      | Some p \<Rightarrow>
          (if pool_engine_epoch p \<noteq> epoch then Inl (RuntimeConflict ''engine epoch does not match'')
           else if pool_health p = HEALTHY \<and> pool_quiesce_token p = None then Inr L
           else if pool_health p \<noteq> DEGRADED \<or> pool_quiesce_token p \<noteq> Some token
           then Inl (RuntimeConflict ''quiesce owner or engine state changed'')
           else if compute_in_pool L pid \<noteq> 0
           then Inl (RuntimeConflict ''unsettled compute must be reconciled before resume'')
           else Inr (wake (set_pool pid (\<lambda>p. p\<lparr>pool_target := ps_target (pool_spec_of p),
                             pool_health := HEALTHY, pool_quiesce_token := None\<rparr>) L))))"

definition update_target ::
    "string \<Rightarrow> int \<Rightarrow> int \<Rightarrow> string \<Rightarrow> ledger \<Rightarrow> error + ledger" where
  "update_target pid target version reason L =
     (case find_pool L pid of
        None \<Rightarrow> Inl (RuntimeConflict ''stale envelope'')
      | Some p \<Rightarrow>
          (if pool_envelope_version p \<noteq> version then Inl (RuntimeConflict ''stale envelope'')
           else if target < 0 \<or> pool_hard_ceiling p < target
           then Inl (AdmissionDenied ''target outside hard ceiling'' False)
           else Inr (wake (note_update pid (version + 1) target reason
                  (set_pool pid (\<lambda>p. p\<lparr>pool_target := target,
                       pool_envelope_version := pool_envelope_version p + 1\<rparr>) L)))))"

section \<open>Inspection\<close>

record engine_view =
  en_pool_id :: string
  en_engine_epoch :: string
  en_health :: health
  en_target :: int
  en_quiesce_owned :: bool
  en_known :: int
  en_unknown :: int
  en_unsettled :: int

definition view_of :: "ledger \<Rightarrow> pool_row \<Rightarrow> engine_view" where
  "view_of L p =
     (let t = filter (\<lambda>a. inf_pool_id a = pool_id p) (inflight_attempts L) in
      \<lparr>en_pool_id = pool_id p, en_engine_epoch = pool_engine_epoch p, en_health = pool_health p,
       en_target = pool_target p, en_quiesce_owned = (pool_quiesce_token p \<noteq> None),
       en_known = count_rows (\<lambda>a. inf_state a \<noteq> UNKNOWN \<and> inf_compute_held a) t,
       en_unknown = count_rows (\<lambda>a. inf_state a = UNKNOWN \<and> inf_compute_held a) t,
       en_unsettled = count_rows (\<lambda>a. inf_compute_held a \<or> inf_budget_held a) t\<rparr>)"

text \<open>\<open>inspect_engine\<close>, less its listing of the first two hundred held attempts.\<close>

definition inspect_engine :: "ledger \<Rightarrow> string \<Rightarrow> error + engine_view" where
  "inspect_engine L pid =
     (case find_pool L pid of None \<Rightarrow> Inl (NotFound ''pool'') | Some p \<Rightarrow> Inr (view_of L p))"

text \<open>\<open>inspect_engines\<close> of \<open>inspection.py\<close>.\<close>

definition inspect_engines :: "ledger \<Rightarrow> string list \<Rightarrow> error + engine_view list" where
  "inspect_engines L pool_ids =
     (let ids = remdups pool_ids in
      if ids = [] \<or> 64 < length ids \<or> (\<exists>i \<in> set ids. i = [] \<or> 200 < length i)
      then Inl (ValueError ''One to64 valid pool IDs required'')
      else if \<exists>i \<in> set ids. find_pool L i = None
      then Inl (ValueError ''Configured pool not found'')
      else Inr (map (view_of L) (sort_key pool_id (filter (\<lambda>p. pool_id p \<in> set ids) (t_pools L)))))"

end
