(* ===== verification/Protocol.thy ===== *)
theory Protocol
  imports Ledger
begin

text \<open>
  What the store promises, as an abstract machine: roots with their budget lines, operations,
  attempts, completion bindings and events, without leases, pools, timestamps or waiting
  reasons. A step of the machine is one protocol event: an attempt is reserved, charged,
  stopped, ended. \<open>Ledger_Refine\<close> shows that every transaction of \<open>store.py\<close> is a
  sequence of these steps; the invariants proved here are then invariants of the ledger.
\<close>

section \<open>State\<close>

record aroot =
  ar_id :: string
  ar_tenant :: string
  ar_spec :: root_spec
  ar_state :: root_state
  ar_cancel :: bool
  ar_attempts :: int
  ar_result :: "artifact option"
  ar_reason :: "string option"

record aop =
  ao_id :: string
  ao_root :: string
  ao_spec :: operation_spec
  ao_state :: operation_state
  ao_sent :: int
  ao_active :: "string option"
  ao_result :: "artifact option"

record aatt =
  aa_id :: string
  aa_op :: string
  aa_root :: string
  aa_number :: int
  aa_state :: attempt_state
  aa_compute :: bool
  aa_budget :: bool
  aa_bound :: int
  aa_unit :: budget_unit
  aa_usage :: "int option"
  aa_sent :: bool

type_synonym lines = "string \<times> budget_unit \<Rightarrow> (int \<times> int \<times> int) option"

record proto =
  p_roots :: "aroot list"
  p_ops :: "aop list"
  p_atts :: "aatt list"
  p_lines :: lines
  p_binds :: "(string \<times> string) list"
  p_events :: "(string \<times> event_payload) list"

definition ended :: "attempt_state \<Rightarrow> bool" where
  "ended st \<longleftrightarrow> st \<in> {RESULT_COMMITTED, ATTEMPT_FAILED, FAILED_NOT_SENT}"

lemma ended_simps [simp]:
  "ended RESULT_COMMITTED" "ended ATTEMPT_FAILED" "ended FAILED_NOT_SENT"
  "\<not> ended RESERVED" "\<not> ended SEND_INTENT" "\<not> ended ACTIVE" "\<not> ended BACKEND_FINISHED"
  "\<not> ended UNKNOWN" "\<not> ended FINISHED" "\<not> ended FAILED_RECOVERABLE"
  by (simp_all add: ended_def)

abbreviation a_root :: "proto \<Rightarrow> string \<Rightarrow> aroot option" where
  "a_root p k \<equiv> lookup_row ar_id k (p_roots p)"

abbreviation a_op :: "proto \<Rightarrow> string \<Rightarrow> aop option" where
  "a_op p k \<equiv> lookup_row ao_id k (p_ops p)"

abbreviation a_att :: "proto \<Rightarrow> string \<Rightarrow> aatt option" where
  "a_att p k \<equiv> lookup_row aa_id k (p_atts p)"

section \<open>Updates\<close>

definition a_set_op :: "string \<Rightarrow> (aop \<Rightarrow> aop) \<Rightarrow> proto \<Rightarrow> proto" where
  "a_set_op k f p = p\<lparr>p_ops := update_rows (\<lambda>x. ao_id x = k) f (p_ops p)\<rparr>"

definition a_set_att :: "string \<Rightarrow> (aatt \<Rightarrow> aatt) \<Rightarrow> proto \<Rightarrow> proto" where
  "a_set_att k f p = p\<lparr>p_atts := update_rows (\<lambda>x. aa_id x = k) f (p_atts p)\<rparr>"

definition a_set_root :: "string \<Rightarrow> (aroot \<Rightarrow> aroot) \<Rightarrow> proto \<Rightarrow> proto" where
  "a_set_root k f p = p\<lparr>p_roots := update_rows (\<lambda>x. ar_id x = k) f (p_roots p)\<rparr>"

definition a_set_line ::
    "string \<times> budget_unit \<Rightarrow> (int \<times> int \<times> int) option \<Rightarrow> proto \<Rightarrow> proto" where
  "a_set_line k v p = p\<lparr>p_lines := (p_lines p)(k := v)\<rparr>"

text \<open>Events are only ever added, once for each identity.\<close>

definition add_event ::
    "string \<times> event_payload \<Rightarrow> (string \<times> event_payload) list \<Rightarrow> (string \<times> event_payload) list" where
  "add_event e evs = (if fst e \<in> fst ` set evs then evs else evs @ [e])"

fun add_events ::
    "(string \<times> event_payload) list \<Rightarrow> (string \<times> event_payload) list \<Rightarrow> (string \<times> event_payload) list" where
  "add_events [] evs = evs"
| "add_events (e # es) evs = add_events es (add_event e evs)"

definition completion_of :: "string \<Rightarrow> string \<times> event_payload" where
  "completion_of b = (completion_event_id b, CompleteActivity b)"

definition a_emit :: "string \<times> event_payload \<Rightarrow> proto \<Rightarrow> proto" where
  "a_emit e p = p\<lparr>p_events := add_event e (p_events p)\<rparr>"

definition bindings_of :: "string \<Rightarrow> (string \<times> string) list \<Rightarrow> string list" where
  "bindings_of k bs = map fst (filter (\<lambda>b. snd b = k) bs)"

definition a_complete :: "string \<Rightarrow> proto \<Rightarrow> proto" where
  "a_complete k p =
     p\<lparr>p_events := add_events (map completion_of (bindings_of k (p_binds p))) (p_events p)\<rparr>"

definition a_finish :: "operation_state \<Rightarrow> aop \<Rightarrow> aop" where
  "a_finish st x = (if op_terminal (ao_state x) then x else x\<lparr>ao_state := st\<rparr>)"

definition a_terminal :: "string \<Rightarrow> operation_state \<Rightarrow> proto \<Rightarrow> proto" where
  "a_terminal k st p = a_complete k (a_set_op k (a_finish st) p)"

definition a_succeed :: "string \<Rightarrow> artifact \<Rightarrow> proto \<Rightarrow> proto" where
  "a_succeed k ref p =
     a_complete k (a_set_op k (\<lambda>x. x\<lparr>ao_state := SUCCEEDED, ao_result := Some ref\<rparr>) p)"

definition a_requeue :: "string \<Rightarrow> operation_state \<Rightarrow> bool \<Rightarrow> proto \<Rightarrow> proto" where
  "a_requeue k st clear p =
     a_set_op k (\<lambda>x. x\<lparr>ao_state := st, ao_active := (if clear then None else ao_active x)\<rparr>) p"

definition a_bind :: "string \<Rightarrow> string \<Rightarrow> proto \<Rightarrow> proto" where
  "a_bind b k p = (if b \<in> fst ` set (p_binds p) then p else p\<lparr>p_binds := p_binds p @ [(b, k)]\<rparr>)"

text \<open>The budget lines a new root starts with.\<close>

definition root_lines :: "root_spec \<Rightarrow> budget_unit \<Rightarrow> (int \<times> int \<times> int) option" where
  "root_lines s u =
     (if u = Tokens then Some (rs_budget_limit s, 0, 0)
      else map_option (\<lambda>n. (n, 0, 0)) (map_of (rs_resource_budgets s) u))"

definition a_new_root :: "root_spec \<Rightarrow> proto \<Rightarrow> proto" where
  "a_new_root s p =
     p\<lparr>p_roots := p_roots p @
         [\<lparr>ar_id = rs_root_id s, ar_tenant = rs_tenant_id s, ar_spec = s, ar_state = RUNNING,
           ar_cancel = False, ar_attempts = 0, ar_result = None, ar_reason = None\<rparr>],
       p_lines := (\<lambda>k. if fst k = rs_root_id s then root_lines s (snd k) else p_lines p k)\<rparr>"

definition a_new_op :: "operation_spec \<Rightarrow> proto \<Rightarrow> proto" where
  "a_new_op spec p =
     p\<lparr>p_ops := p_ops p @
         [\<lparr>ao_id = os_operation_id spec, ao_root = os_root_id spec, ao_spec = spec,
           ao_state = READY, ao_sent = 0, ao_active = None, ao_result = None\<rparr>]\<rparr>"

definition a_reserve :: "string \<Rightarrow> int \<Rightarrow> aop \<Rightarrow> proto \<Rightarrow> proto" where
  "a_reserve aid n x p =
     a_set_op (ao_id x) (\<lambda>x. x\<lparr>ao_state := EXECUTING, ao_active := Some aid\<rparr>)
       (p\<lparr>p_atts := p_atts p @
            [\<lparr>aa_id = aid, aa_op = ao_id x, aa_root = ao_root x, aa_number = n,
              aa_state = RESERVED, aa_compute = False, aa_budget = False,
              aa_bound = budget_bound_of (ao_spec x), aa_unit = budget_unit_of (ao_spec x),
              aa_usage = None, aa_sent = False\<rparr>]\<rparr>)"

definition a_send :: "aatt \<Rightarrow> int \<times> int \<times> int \<Rightarrow> proto \<Rightarrow> proto" where
  "a_send a line p =
     (case line of (limit, reserved, spent) \<Rightarrow>
       a_set_att (aa_id a)
         (\<lambda>a. a\<lparr>aa_state := SEND_INTENT, aa_compute := True, aa_budget := True, aa_sent := True\<rparr>)
       (a_set_line (aa_root a, aa_unit a) (Some (limit, reserved + aa_bound a, spent))
       (a_set_root (aa_root a) (\<lambda>r. r\<lparr>ar_attempts := ar_attempts r + 1\<rparr>)
       (a_set_op (aa_op a) (\<lambda>x. x\<lparr>ao_sent := ao_sent x + 1\<rparr>) p))))"

definition a_backend :: "string \<Rightarrow> proto \<Rightarrow> proto" where
  "a_backend aid = a_set_att aid (\<lambda>a. a\<lparr>aa_state := BACKEND_FINISHED, aa_compute := False\<rparr>)"

definition a_unknown :: "string \<Rightarrow> proto \<Rightarrow> proto" where
  "a_unknown aid = a_set_att aid (\<lambda>a. a\<lparr>aa_state := UNKNOWN\<rparr>)"

definition a_reconciling :: "string \<Rightarrow> proto \<Rightarrow> proto" where
  "a_reconciling k = a_set_op k (\<lambda>x. x\<lparr>ao_state := RECONCILING\<rparr>)"

definition a_over :: "aroot \<Rightarrow> aroot" where
  "a_over r =
     (if ar_state r = RUNNING
      then r\<lparr>ar_state := ROOT_FAILED, ar_reason := Some ''observed_usage_exceeds_budget''\<rparr> else r)"

definition a_end_row :: "attempt_state \<Rightarrow> int option \<Rightarrow> aatt \<Rightarrow> aatt" where
  "a_end_row st usage a =
     (if aa_budget a
      then a\<lparr>aa_state := st, aa_compute := False, aa_budget := False,
             aa_usage := Some (or_else usage (aa_bound a))\<rparr>
      else a\<lparr>aa_state := st, aa_compute := False\<rparr>)"

text \<open>The end of an attempt: what it held moves from reserved to spent.\<close>

definition a_end :: "aatt \<Rightarrow> attempt_state \<Rightarrow> int option \<Rightarrow> proto \<Rightarrow> proto" where
  "a_end a st usage p =
     (let p1 = a_set_att (aa_id a) (a_end_row st usage) p in
      if \<not> aa_budget a then p1
      else case p_lines p (aa_root a, aa_unit a) of
          None \<Rightarrow> p1
        | Some (limit, reserved, spent) \<Rightarrow>
            (let charged = or_else usage (aa_bound a);
                 p2 = a_set_line (aa_root a, aa_unit a)
                        (Some (limit, reserved - aa_bound a, spent + charged)) p1
             in if limit < spent + charged then a_set_root (aa_root a) a_over p2 else p2))"

datatype op_move =
    Stay
  | Requeue operation_state bool
  | Finish operation_state
  | Succeed artifact

fun a_move :: "string \<Rightarrow> op_move \<Rightarrow> proto \<Rightarrow> proto" where
  "a_move k Stay p = p"
| "a_move k (Requeue st clear) p = a_requeue k st clear p"
| "a_move k (Finish st) p = a_terminal k st p"
| "a_move k (Succeed ref) p = a_succeed k ref p"

text \<open>Which moves an ending attempt may make its operation take.\<close>

fun move_allowed :: "op_move \<Rightarrow> attempt_state \<Rightarrow> operation_state \<Rightarrow> bool" where
  "move_allowed Stay st ost = op_terminal ost"
| "move_allowed (Requeue st' clear) st ost =
     (\<not> op_terminal ost \<and> (st' = READY \<or> st' = RETRY_WAIT) \<and> st \<noteq> RESULT_COMMITTED)"
| "move_allowed (Finish st') st ost = (st' = FAILED \<or> st' = CANCELLED)"
| "move_allowed (Succeed ref) st ost = (\<not> op_terminal ost \<and> st = RESULT_COMMITTED)"

text \<open>A root leaves \<open>RUNNING\<close> once; a repeated cancellation only repeats its own marks.\<close>

definition root_change :: "proto \<Rightarrow> aroot \<Rightarrow> aroot \<Rightarrow> bool" where
  "root_change p r r' \<longleftrightarrow>
     r' = r
     \<or> (ar_id r' = ar_id r \<and> ar_tenant r' = ar_tenant r \<and> ar_spec r' = ar_spec r
         \<and> ar_attempts r' = ar_attempts r
         \<and> (ar_state r = RUNNING \<and> ar_state r' \<noteq> RUNNING \<or>
            ar_state r = ROOT_CANCELLED \<and> ar_state r' = ROOT_CANCELLED \<and> ar_result r' = ar_result r)
         \<and> (ar_state r' = ROOT_SUCCEEDED \<longrightarrow>
              (\<forall>x \<in> set (p_ops p). ao_root x = ar_id r \<longrightarrow> op_terminal (ao_state x))))"

section \<open>Steps\<close>

definition completion_id :: "string \<Rightarrow> bool" where
  "completion_id e \<longleftrightarrow> take 9 e = ''complete:''"

inductive proto_step :: "proto \<Rightarrow> proto \<Rightarrow> bool" where
  PRoot: "a_root p (rs_root_id s) = None \<Longrightarrow> valid_root_spec s \<Longrightarrow> proto_step p (a_new_root s p)"
| POp: "a_op p (os_operation_id spec) = None \<Longrightarrow> valid_operation spec \<Longrightarrow>
     a_root p (os_root_id spec) = Some r \<Longrightarrow> ar_state r = RUNNING \<Longrightarrow>
     ar_tenant r = os_tenant_id spec \<Longrightarrow>
     budget_unit_of spec = Tokens \<or>
       budget_unit_of spec \<in> fst ` set (rs_resource_budgets (ar_spec r)) \<Longrightarrow>
     proto_step p (a_new_op spec p)"
| PBind: "a_op p k = Some x \<Longrightarrow>
     proto_step p (if op_terminal (ao_state x) then a_complete k (a_bind b k p) else a_bind b k p)"
| PEvent: "\<not> completion_id e \<Longrightarrow> proto_step p (a_emit (e, pl) p)"
| PTerminal: "st = FAILED \<or> st = CANCELLED \<Longrightarrow> proto_step p (a_terminal k st p)"
| PComplete: "a_op p k = Some x \<Longrightarrow> op_terminal (ao_state x) \<Longrightarrow> proto_step p (a_complete k p)"
| PReserve: "a_op p k = Some x \<Longrightarrow> ao_state x = READY \<or> ao_state x = RETRY_WAIT \<Longrightarrow>
     a_att p aid = None \<Longrightarrow> (\<And>a. a \<in> set (p_atts p) \<Longrightarrow> aa_op a = k \<Longrightarrow> aa_number a < n) \<Longrightarrow>
     proto_step p (a_reserve aid n x p)"
| PSend: "a_att p aid = Some a \<Longrightarrow> aa_state a = RESERVED \<Longrightarrow> \<not> aa_budget a \<Longrightarrow>
     a_op p (aa_op a) = Some x \<Longrightarrow> ao_state x = EXECUTING \<Longrightarrow> ao_active x = Some aid \<Longrightarrow>
     ao_sent x < os_max_attempts (ao_spec x) \<Longrightarrow>
     a_root p (aa_root a) = Some r \<Longrightarrow> ar_state r = RUNNING \<Longrightarrow>
     ar_attempts r < rs_max_attempts (ar_spec r) \<Longrightarrow>
     p_lines p (aa_root a, aa_unit a) = Some (limit, reserved, spent) \<Longrightarrow>
     spent + reserved + aa_bound a \<le> limit \<Longrightarrow>
     proto_step p (a_send a (limit, reserved, spent) p)"
| PBackend: "a_att p aid = Some a \<Longrightarrow> \<not> ended (aa_state a) \<Longrightarrow> proto_step p (a_backend aid p)"
| PUnknown: "a_att p aid = Some a \<Longrightarrow> \<not> ended (aa_state a) \<Longrightarrow> proto_step p (a_unknown aid p)"
| PReconciling: "a_op p k = Some x \<Longrightarrow> ao_state x = EXECUTING \<or> ao_state x = RECONCILING \<Longrightarrow>
     proto_step p (a_reconciling k p)"
| PEnd: "a_att p aid = Some a \<Longrightarrow> \<not> ended (aa_state a) \<Longrightarrow> ended st \<Longrightarrow>
     a_op p (aa_op a) = Some x \<Longrightarrow> 0 \<le> or_else usage (aa_bound a) \<Longrightarrow>
     st = RESULT_COMMITTED \<longrightarrow> aa_state a = BACKEND_FINISHED \<Longrightarrow>
     move_allowed mv st (ao_state x) \<Longrightarrow>
     proto_step p (a_move (aa_op a) mv (a_end a st usage p))"
| PRoots: "(\<And>r. r \<in> set (p_roots p) \<Longrightarrow> root_change p r (g r)) \<Longrightarrow>
     proto_step p (p\<lparr>p_roots := map g (p_roots p)\<rparr>)"

definition empty_proto :: proto where
  "empty_proto = \<lparr>p_roots = [], p_ops = [], p_atts = [], p_lines = (\<lambda>_. None), p_binds = [], p_events = []\<rparr>"

end
