(* ===== verification/Protocol_Invariants.thy ===== *)
theory Protocol_Invariants
  imports Protocol
begin

text \<open>
  The invariants of the abstract machine of \<open>Protocol\<close>. Each group is a predicate of its own,
  proved for every update first and for every step from those: identities and references,
  the shape of an attempt, the budget lines, the send counters, exclusive execution,
  completion events, results, and runs that succeeded.
\<close>

section \<open>Identities\<close>

text \<open>What no update of an existing row changes.\<close>

definition ar_ident :: "aroot \<Rightarrow> string \<times> string \<times> root_spec" where
  "ar_ident r = (ar_id r, ar_tenant r, ar_spec r)"

definition ao_ident :: "aop \<Rightarrow> string \<times> string \<times> operation_spec" where
  "ao_ident x = (ao_id x, ao_root x, ao_spec x)"

definition aa_ident :: "aatt \<Rightarrow> string \<times> string \<times> string \<times> int \<times> int \<times> budget_unit" where
  "aa_ident a = (aa_id a, aa_op a, aa_root a, aa_number a, aa_bound a, aa_unit a)"

definition ids_distinct :: "proto \<Rightarrow> bool" where
  "ids_distinct p \<longleftrightarrow>
     distinct (map ar_id (p_roots p)) \<and> distinct (map ao_id (p_ops p)) \<and>
     distinct (map aa_id (p_atts p)) \<and> distinct (map fst (p_binds p))"

definition roots_ok :: "proto \<Rightarrow> bool" where
  "roots_ok p \<longleftrightarrow> (\<forall>r \<in> set (p_roots p).
     valid_root_spec (ar_spec r) \<and> rs_root_id (ar_spec r) = ar_id r \<and>
     rs_tenant_id (ar_spec r) = ar_tenant r \<and>
     (\<forall>u. p_lines p (ar_id r, u) = None \<longleftrightarrow> root_lines (ar_spec r) u = None))"

definition op_placed :: "proto \<Rightarrow> aop \<Rightarrow> bool" where
  "op_placed p x \<longleftrightarrow>
     valid_operation (ao_spec x) \<and> os_operation_id (ao_spec x) = ao_id x \<and>
     os_root_id (ao_spec x) = ao_root x \<and>
     (\<exists>r \<in> set (p_roots p). ar_id r = ao_root x \<and> ar_tenant r = os_tenant_id (ao_spec x)) \<and>
     p_lines p (ao_root x, budget_unit_of (ao_spec x)) \<noteq> None"

definition att_placed :: "proto \<Rightarrow> aatt \<Rightarrow> bool" where
  "att_placed p a \<longleftrightarrow>
     (\<exists>x \<in> set (p_ops p). ao_id x = aa_op a \<and> ao_root x = aa_root a \<and>
        budget_bound_of (ao_spec x) = aa_bound a \<and> budget_unit_of (ao_spec x) = aa_unit a)"

definition refs_ok :: "proto \<Rightarrow> bool" where
  "refs_ok p \<longleftrightarrow>
     (\<forall>x \<in> set (p_ops p). op_placed p x) \<and> (\<forall>a \<in> set (p_atts p). att_placed p a) \<and>
     (\<forall>b \<in> set (p_binds p). snd b \<in> ao_id ` set (p_ops p)) \<and>
     (\<forall>rid u. p_lines p (rid, u) \<noteq> None \<longrightarrow> rid \<in> ar_id ` set (p_roots p))"

definition numbers_ok :: "proto \<Rightarrow> bool" where
  "numbers_ok p \<longleftrightarrow> (\<forall>a \<in> set (p_atts p). \<forall>b \<in> set (p_atts p).
     aa_op a = aa_op b \<and> aa_number a = aa_number b \<longrightarrow> aa_id a = aa_id b)"

definition ident_inv :: "proto \<Rightarrow> bool" where
  "ident_inv p \<longleftrightarrow> ids_distinct p \<and> roots_ok p \<and> refs_ok p \<and> numbers_ok p"

lemma ident_inv_lineD: "ident_inv p \<Longrightarrow> p_lines p (rid, u) \<noteq> None \<Longrightarrow> rid \<in> ar_id ` set (p_roots p)"
  unfolding ident_inv_def refs_ok_def by blast

lemma ident_inv_opD: "ident_inv p \<Longrightarrow> x \<in> set (p_ops p) \<Longrightarrow> op_placed p x"
  unfolding ident_inv_def refs_ok_def by blast

lemma ident_inv_attD: "ident_inv p \<Longrightarrow> a \<in> set (p_atts p) \<Longrightarrow> att_placed p a"
  unfolding ident_inv_def refs_ok_def by blast

lemma ident_inv_bindD: "ident_inv p \<Longrightarrow> b \<in> set (p_binds p) \<Longrightarrow> snd b \<in> ao_id ` set (p_ops p)"
  unfolding ident_inv_def refs_ok_def by blast

lemma ident_inv_distinct:
  assumes "ident_inv p"
  shows "distinct (map ar_id (p_roots p))" "distinct (map ao_id (p_ops p))"
    "distinct (map aa_id (p_atts p))" "distinct (map fst (p_binds p))"
  using assms by (simp_all add: ident_inv_def ids_distinct_def)

lemma ident_invI:
  assumes "ids_distinct p" and "roots_ok p" and "numbers_ok p"
    and "\<And>x. x \<in> set (p_ops p) \<Longrightarrow> op_placed p x"
    and "\<And>a. a \<in> set (p_atts p) \<Longrightarrow> att_placed p a"
    and "\<And>b. b \<in> set (p_binds p) \<Longrightarrow> snd b \<in> ao_id ` set (p_ops p)"
    and "\<And>rid u. p_lines p (rid, u) \<noteq> None \<Longrightarrow> rid \<in> ar_id ` set (p_roots p)"
  shows "ident_inv p"
  unfolding ident_inv_def refs_ok_def using assms by blast

lemma numbers_ok_atts: "numbers_ok p \<Longrightarrow> p_atts q = p_atts p \<Longrightarrow> numbers_ok q"
  unfolding numbers_ok_def by metis

lemma ident_inv_parts: "ident_inv p \<Longrightarrow> roots_ok p" "ident_inv p \<Longrightarrow> numbers_ok p"
  by (simp_all add: ident_inv_def)

text \<open>Two states with the same identities.\<close>

definition same_ident :: "proto \<Rightarrow> proto \<Rightarrow> bool" where
  "same_ident p q \<longleftrightarrow>
     map ar_ident (p_roots q) = map ar_ident (p_roots p) \<and>
     map ao_ident (p_ops q) = map ao_ident (p_ops p) \<and>
     map aa_ident (p_atts q) = map aa_ident (p_atts p) \<and>
     p_binds q = p_binds p \<and> (\<forall>k. p_lines q k = None \<longleftrightarrow> p_lines p k = None)"

lemma same_ident_refl [simp]: "same_ident p p"
  by (simp add: same_ident_def)

lemma same_ident_trans: "same_ident p q \<Longrightarrow> same_ident q s \<Longrightarrow> same_ident p s"
  by (simp add: same_ident_def)

lemma same_map_sym:
  "map f t = map f u \<Longrightarrow> x \<in> set t \<Longrightarrow> \<exists>y \<in> set u. f y = f x"
proof -
  assume m: "map f t = map f u" and x: "x \<in> set t"
  from x have "f x \<in> set (map f t)" by simp
  with m have "f x \<in> f ` set u" by simp
  then show ?thesis by (metis imageE)
qed

lemma same_ident_keys:
  assumes "same_ident p q"
  shows "map ar_id (p_roots q) = map ar_id (p_roots p)"
    "map ao_id (p_ops q) = map ao_id (p_ops p)"
    "map aa_id (p_atts q) = map aa_id (p_atts p)"
proof -
  have "map (fst \<circ> ar_ident) (p_roots q) = map (fst \<circ> ar_ident) (p_roots p)"
    "map (fst \<circ> ao_ident) (p_ops q) = map (fst \<circ> ao_ident) (p_ops p)"
    "map (fst \<circ> aa_ident) (p_atts q) = map (fst \<circ> aa_ident) (p_atts p)"
    using assms by (simp_all add: same_ident_def flip: map_map)
  then show "map ar_id (p_roots q) = map ar_id (p_roots p)"
    "map ao_id (p_ops q) = map ao_id (p_ops p)"
    "map aa_id (p_atts q) = map aa_id (p_atts p)"
    by (simp_all add: comp_def ar_ident_def ao_ident_def aa_ident_def)
qed

lemma same_ident_roots:
  assumes "same_ident p q" and "r \<in> set (p_roots q)"
  obtains r' where "r' \<in> set (p_roots p)" "ar_id r' = ar_id r" "ar_tenant r' = ar_tenant r"
    "ar_spec r' = ar_spec r"
proof -
  from assms obtain r' where "r' \<in> set (p_roots p)" "ar_ident r' = ar_ident r"
    using same_map_sym [of ar_ident "p_roots q" "p_roots p" r] by (auto simp: same_ident_def)
  with that show thesis by (simp add: ar_ident_def)
qed

lemma same_ident_ops:
  assumes "same_ident p q" and "x \<in> set (p_ops q)"
  obtains x' where "x' \<in> set (p_ops p)" "ao_id x' = ao_id x" "ao_root x' = ao_root x"
    "ao_spec x' = ao_spec x"
proof -
  from assms obtain x' where "x' \<in> set (p_ops p)" "ao_ident x' = ao_ident x"
    using same_map_sym [of ao_ident "p_ops q" "p_ops p" x] by (auto simp: same_ident_def)
  with that show thesis by (simp add: ao_ident_def)
qed

lemma same_ident_atts:
  assumes "same_ident p q" and "a \<in> set (p_atts q)"
  obtains a' where "a' \<in> set (p_atts p)" "aa_id a' = aa_id a" "aa_op a' = aa_op a"
    "aa_root a' = aa_root a" "aa_number a' = aa_number a" "aa_bound a' = aa_bound a"
    "aa_unit a' = aa_unit a"
proof -
  from assms obtain a' where "a' \<in> set (p_atts p)" "aa_ident a' = aa_ident a"
    using same_map_sym [of aa_ident "p_atts q" "p_atts p" a] by (auto simp: same_ident_def)
  with that show thesis by (simp add: aa_ident_def)
qed

lemma same_ident_sym: "same_ident p q \<Longrightarrow> same_ident q p"
  by (simp add: same_ident_def)

lemma ident_inv_same:
  assumes same: "same_ident p q" and inv: "ident_inv p"
  shows "ident_inv q"
proof -
  note converse_same = same_ident_sym [OF same]
  have lines: "p_lines q k = None \<longleftrightarrow> p_lines p k = None" for k
    using same by (cases k) (simp add: same_ident_def)
  have binds: "p_binds q = p_binds p" using same by (simp add: same_ident_def)
  have d: "ids_distinct q"
    using inv same_ident_keys [OF same] binds by (simp add: ident_inv_def ids_distinct_def)
  have ids: "ar_id ` set (p_roots q) = ar_id ` set (p_roots p)"
    "ao_id ` set (p_ops q) = ao_id ` set (p_ops p)"
    using same_ident_keys [OF same] by (metis list.set_map)+
  have r: "roots_ok q"
    unfolding roots_ok_def
  proof
    fix r assume "r \<in> set (p_roots q)"
    then obtain r' where "r' \<in> set (p_roots p)" "ar_id r' = ar_id r" "ar_tenant r' = ar_tenant r"
      "ar_spec r' = ar_spec r" using same_ident_roots [OF same] by metis
    with inv lines show "valid_root_spec (ar_spec r) \<and> rs_root_id (ar_spec r) = ar_id r \<and>
      rs_tenant_id (ar_spec r) = ar_tenant r \<and>
      (\<forall>u. (p_lines q (ar_id r, u) = None) = (root_lines (ar_spec r) u = None))"
      by (auto simp: ident_inv_def roots_ok_def)
  qed
  have ops: "op_placed q x" if mem: "x \<in> set (p_ops q)" for x
  proof -
    obtain x' where x': "x' \<in> set (p_ops p)" "ao_id x' = ao_id x" "ao_root x' = ao_root x"
      "ao_spec x' = ao_spec x" using same_ident_ops [OF same mem] by metis
    then have pl: "op_placed p x'" using inv by (simp add: ident_inv_def refs_ok_def)
    then obtain r where "r \<in> set (p_roots p)" "ar_id r = ao_root x" "ar_tenant r = os_tenant_id (ao_spec x)"
      using x' by (auto simp: op_placed_def)
    then obtain r' where "r' \<in> set (p_roots q)" "ar_id r' = ao_root x"
      "ar_tenant r' = os_tenant_id (ao_spec x)" using same_ident_roots [OF converse_same] by metis
    with pl x' lines show ?thesis by (auto simp: op_placed_def)
  qed
  have atts: "att_placed q a" if mem: "a \<in> set (p_atts q)" for a
  proof -
    obtain a' where a': "a' \<in> set (p_atts p)" "aa_op a' = aa_op a" "aa_root a' = aa_root a"
      "aa_bound a' = aa_bound a" "aa_unit a' = aa_unit a" using same_ident_atts [OF same mem] by metis
    then have "att_placed p a'" using inv by (simp add: ident_inv_def refs_ok_def)
    then obtain x where "x \<in> set (p_ops p)" "ao_id x = aa_op a" "ao_root x = aa_root a"
      "budget_bound_of (ao_spec x) = aa_bound a" "budget_unit_of (ao_spec x) = aa_unit a"
      using a' by (auto simp: att_placed_def)
    then show ?thesis using same_ident_ops [OF converse_same] by (metis att_placed_def)
  qed
  have n: "numbers_ok q"
    unfolding numbers_ok_def
  proof (intro ballI impI)
    fix a b assume "a \<in> set (p_atts q)" "b \<in> set (p_atts q)" and
      ab: "aa_op a = aa_op b \<and> aa_number a = aa_number b"
    then obtain a' b' where "a' \<in> set (p_atts p)" "aa_id a' = aa_id a" "aa_op a' = aa_op a"
      "aa_number a' = aa_number a" "b' \<in> set (p_atts p)" "aa_id b' = aa_id b" "aa_op b' = aa_op b"
      "aa_number b' = aa_number b" using same_ident_atts [OF same] by metis
    moreover have "numbers_ok p" using inv by (simp add: ident_inv_def)
    ultimately show "aa_id a = aa_id b" using ab unfolding numbers_ok_def by metis
  qed
  have b: "\<forall>b \<in> set (p_binds q). snd b \<in> ao_id ` set (p_ops q)"
    using inv unfolding binds ids by (simp add: ident_inv_def refs_ok_def)
  have l: "\<forall>rid u. p_lines q (rid, u) \<noteq> None \<longrightarrow> rid \<in> ar_id ` set (p_roots q)"
    using inv unfolding ids lines by (simp add: ident_inv_def refs_ok_def)
  show ?thesis
    unfolding ident_inv_def refs_ok_def using d r n ops atts b l by blast
qed

section \<open>Updates keep identities\<close>

lemma same_ident_set_op:
  "(\<And>x. ao_ident (f x) = ao_ident x) \<Longrightarrow> same_ident p (a_set_op k f p)"
  by (simp add: same_ident_def a_set_op_def)

lemma same_ident_set_att:
  "(\<And>x. aa_ident (f x) = aa_ident x) \<Longrightarrow> same_ident p (a_set_att k f p)"
  by (simp add: same_ident_def a_set_att_def)

lemma same_ident_set_root:
  "(\<And>x. ar_ident (f x) = ar_ident x) \<Longrightarrow> same_ident p (a_set_root k f p)"
  by (simp add: same_ident_def a_set_root_def)

lemma same_ident_set_line:
  "p_lines p k \<noteq> None \<Longrightarrow> same_ident p (a_set_line k (Some v) p)"
  by (auto simp: same_ident_def a_set_line_def)

lemma same_ident_events: "same_ident p (p\<lparr>p_events := e\<rparr>)"
  by (simp add: same_ident_def)

lemma same_ident_complete [simp]: "same_ident p (a_complete k p)"
  by (simp add: a_complete_def same_ident_events)

lemma same_ident_emit [simp]: "same_ident p (a_emit e p)"
  by (simp add: a_emit_def same_ident_events)

lemma same_ident_terminal [simp]: "same_ident p (a_terminal k st p)"
  unfolding a_terminal_def
  by (rule same_ident_trans [OF same_ident_set_op same_ident_complete])
    (simp add: ao_ident_def a_finish_def)

lemma same_ident_succeed [simp]: "same_ident p (a_succeed k ref p)"
  unfolding a_succeed_def
  by (rule same_ident_trans [OF same_ident_set_op same_ident_complete]) (simp add: ao_ident_def)

lemma same_ident_requeue [simp]: "same_ident p (a_requeue k st clear p)"
  unfolding a_requeue_def by (rule same_ident_set_op) (simp add: ao_ident_def)

lemma same_ident_reconciling [simp]: "same_ident p (a_reconciling k p)"
  unfolding a_reconciling_def by (rule same_ident_set_op) (simp add: ao_ident_def)

lemma same_ident_backend [simp]: "same_ident p (a_backend aid p)"
  unfolding a_backend_def by (rule same_ident_set_att) (simp add: aa_ident_def)

lemma same_ident_unknown [simp]: "same_ident p (a_unknown aid p)"
  unfolding a_unknown_def by (rule same_ident_set_att) (simp add: aa_ident_def)

lemma aa_ident_end_row [simp]: "aa_ident (a_end_row st usage a) = aa_ident a"
  by (simp add: aa_ident_def a_end_row_def)

lemma ar_ident_over [simp]: "ar_ident (a_over r) = ar_ident r"
  by (simp add: ar_ident_def a_over_def)

lemma a_set_lines [simp]:
  "p_lines (a_set_att k f p) = p_lines p" "p_lines (a_set_op k g p) = p_lines p"
  "p_lines (a_set_root k h p) = p_lines p"
  by (simp_all add: a_set_att_def a_set_op_def a_set_root_def)

lemma same_ident_end [simp]: "same_ident p (a_end a st usage p)"
proof -
  let ?p1 = "a_set_att (aa_id a) (a_end_row st usage) p"
  have one: "same_ident p ?p1" by (rule same_ident_set_att) simp
  have two: "same_ident p (a_set_line k (Some v) ?p1)" if "p_lines p k \<noteq> None" for k v
    by (rule same_ident_trans [OF one same_ident_set_line]) (use that in simp)
  have three: "same_ident p (a_set_root i a_over (a_set_line k (Some v) ?p1))"
    if "p_lines p k \<noteq> None" for i k v
    by (rule same_ident_trans [OF two [OF that] same_ident_set_root]) simp
  show ?thesis
    using one two three by (auto simp: a_end_def Let_def split: option.splits)
qed

lemma same_ident_move [simp]: "same_ident p (a_move k mv p)"
  by (cases mv) auto

lemma same_ident_send:
  assumes "p_lines p (aa_root a, aa_unit a) \<noteq> None"
  shows "same_ident p (a_send a line p)"
proof -
  obtain limit reserved spent where line: "line = (limit, reserved, spent)" by (cases line)
  let ?p1 = "a_set_op (aa_op a) (\<lambda>x. x\<lparr>ao_sent := ao_sent x + 1\<rparr>) p"
  let ?p2 = "a_set_root (aa_root a) (\<lambda>r. r\<lparr>ar_attempts := ar_attempts r + 1\<rparr>) ?p1"
  let ?p3 = "a_set_line (aa_root a, aa_unit a) (Some (limit, reserved + aa_bound a, spent)) ?p2"
  have "same_ident p ?p1" by (rule same_ident_set_op) (simp add: ao_ident_def)
  moreover have "same_ident ?p1 ?p2" by (rule same_ident_set_root) (simp add: ar_ident_def)
  moreover have "same_ident ?p2 ?p3" by (rule same_ident_set_line) (use assms in simp)
  moreover have "same_ident ?p3 (a_set_att (aa_id a)
      (\<lambda>a. a\<lparr>aa_state := SEND_INTENT, aa_compute := True, aa_budget := True, aa_sent := True\<rparr>) ?p3)"
    by (rule same_ident_set_att) (simp add: aa_ident_def)
  ultimately show ?thesis
    unfolding a_send_def line by (simp add: same_ident_def)
qed

lemma same_ident_roots_map:
  assumes "\<And>r. r \<in> set (p_roots p) \<Longrightarrow> root_change p r (g r)"
  shows "same_ident p (p\<lparr>p_roots := map g (p_roots p)\<rparr>)"
proof -
  have "ar_ident (g r) = ar_ident r" if "r \<in> set (p_roots p)" for r
    using assms [OF that] by (auto simp: root_change_def ar_ident_def)
  then show ?thesis by (simp add: same_ident_def)
qed

section \<open>Rows that enter\<close>

lemma root_lines_None: "root_lines s u = None \<longleftrightarrow> u \<noteq> Tokens \<and> u \<notin> fst ` set (rs_resource_budgets s)"
  by (auto simp: root_lines_def map_of_eq_None_iff)

lemma ident_inv_new_root:
  assumes inv: "ident_inv p" and new: "a_root p (rs_root_id s) = None" and ok: "valid_root_spec s"
  shows "ident_inv (a_new_root s p)"
proof (rule ident_invI)
  let ?q = "a_new_root s p"
  have fresh: "rs_root_id s \<notin> ar_id ` set (p_roots p)" using new by (simp add: lookup_row_None_iff)
  have neq: "ar_id r \<noteq> rs_root_id s" if "r \<in> set (p_roots p)" for r
    using fresh that by (metis image_eqI)
  have lines: "p_lines ?q (rid, u) =
      (if rid = rs_root_id s then root_lines s u else p_lines p (rid, u))" for rid u
    by (simp add: a_new_root_def)
  show "ids_distinct ?q"
    using ident_inv_distinct [OF inv] fresh by (simp add: ids_distinct_def a_new_root_def)
  show "roots_ok ?q"
    unfolding roots_ok_def
  proof
    fix r assume "r \<in> set (p_roots ?q)"
    then consider "r \<in> set (p_roots p)" "ar_id r \<noteq> rs_root_id s"
      | "ar_id r = rs_root_id s" "ar_spec r = s" "ar_tenant r = rs_tenant_id s"
      using neq by (auto simp: a_new_root_def)
    then show "valid_root_spec (ar_spec r) \<and> rs_root_id (ar_spec r) = ar_id r \<and>
        rs_tenant_id (ar_spec r) = ar_tenant r \<and>
        (\<forall>u. (p_lines ?q (ar_id r, u) = None) = (root_lines (ar_spec r) u = None))"
      using ident_inv_parts(1) [OF inv] ok by cases (auto simp: roots_ok_def lines)
  qed
  show "numbers_ok ?q"
    by (rule numbers_ok_atts [OF ident_inv_parts(2) [OF inv]]) (simp add: a_new_root_def)
  show "op_placed ?q x" if "x \<in> set (p_ops ?q)" for x
  proof -
    have pl: "op_placed p x" using ident_inv_opD [OF inv] that by (simp add: a_new_root_def)
    then have "ao_root x \<noteq> rs_root_id s" using neq by (auto simp: op_placed_def)
    with pl show ?thesis unfolding op_placed_def lines by (auto simp: a_new_root_def)
  qed
  show "att_placed ?q a" if "a \<in> set (p_atts ?q)" for a
    using ident_inv_attD [OF inv, of a] that by (simp add: att_placed_def a_new_root_def)
  show "snd b \<in> ao_id ` set (p_ops ?q)" if "b \<in> set (p_binds ?q)" for b
    using ident_inv_bindD [OF inv, of b] that by (simp add: a_new_root_def)
  show "rid \<in> ar_id ` set (p_roots ?q)" if "p_lines ?q (rid, u) \<noteq> None" for rid u
    using ident_inv_lineD [OF inv, of rid u] that unfolding lines
    by (auto simp: a_new_root_def split: if_splits)
qed

lemma new_op_frame:
  "p_lines (a_new_op spec p) = p_lines p" "p_roots (a_new_op spec p) = p_roots p"
  "p_atts (a_new_op spec p) = p_atts p" "p_binds (a_new_op spec p) = p_binds p"
  "p_events (a_new_op spec p) = p_events p"
  by (simp_all add: a_new_op_def)

lemma ident_inv_new_op:
  assumes inv: "ident_inv p" and new: "a_op p (os_operation_id spec) = None"
    and ok: "valid_operation spec" and root: "a_root p (os_root_id spec) = Some r"
    and tenant: "ar_tenant r = os_tenant_id spec"
    and unit: "budget_unit_of spec = Tokens
      \<or> budget_unit_of spec \<in> fst ` set (rs_resource_budgets (ar_spec r))"
  shows "ident_inv (a_new_op spec p)"
proof (rule ident_invI)
  let ?q = "a_new_op spec p"
  have r: "r \<in> set (p_roots p)" "ar_id r = os_root_id spec"
    using root by (auto dest: lookup_row_Some_in lookup_row_Some_key)
  have fresh: "os_operation_id spec \<notin> ao_id ` set (p_ops p)" using new by (simp add: lookup_row_None_iff)
  have "p_lines p (ar_id r, budget_unit_of spec) = None
      \<longleftrightarrow> root_lines (ar_spec r) (budget_unit_of spec) = None"
    using inv r(1) by (auto simp: ident_inv_def roots_ok_def)
  with unit r(2) have line: "p_lines p (os_root_id spec, budget_unit_of spec) \<noteq> None"
    by (auto simp: root_lines_None)
  have ops: "set (p_ops p) \<subseteq> set (p_ops ?q)" by (auto simp: a_new_op_def)
  show "ids_distinct ?q"
    using ident_inv_distinct [OF inv] fresh by (simp add: ids_distinct_def a_new_op_def)
  show "roots_ok ?q" using inv by (simp add: ident_inv_def roots_ok_def new_op_frame)
  show "numbers_ok ?q"
    by (rule numbers_ok_atts [OF ident_inv_parts(2) [OF inv]]) (simp add: new_op_frame)
  show "op_placed ?q x" if "x \<in> set (p_ops ?q)" for x
    using that ident_inv_opD [OF inv, of x] ok r tenant line
    by (auto simp: op_placed_def a_new_op_def)
  show "att_placed ?q a" if "a \<in> set (p_atts ?q)" for a
    using ident_inv_attD [OF inv, of a] that ops unfolding att_placed_def new_op_frame by blast
  show "snd b \<in> ao_id ` set (p_ops ?q)" if "b \<in> set (p_binds ?q)" for b
    using ident_inv_bindD [OF inv, of b] that ops unfolding new_op_frame by blast
  show "rid \<in> ar_id ` set (p_roots ?q)" if "p_lines ?q (rid, u) \<noteq> None" for rid u
    using ident_inv_lineD [OF inv, of rid u] that unfolding new_op_frame by blast
qed

lemma bind_frame:
  "p_lines (a_bind b k p) = p_lines p" "p_roots (a_bind b k p) = p_roots p"
  "p_atts (a_bind b k p) = p_atts p" "p_ops (a_bind b k p) = p_ops p"
  "p_events (a_bind b k p) = p_events p"
  by (simp_all add: a_bind_def)

lemma ident_inv_bind:
  assumes inv: "ident_inv p" and op: "a_op p k = Some x"
  shows "ident_inv (a_bind b k p)"
proof (rule ident_invI)
  let ?q = "a_bind b k p"
  have k: "k \<in> ao_id ` set (p_ops p)" using op by (auto dest: lookup_row_Some_in lookup_row_Some_key)
  show "ids_distinct ?q"
    using ident_inv_distinct [OF inv] by (simp add: ids_distinct_def a_bind_def)
  show "roots_ok ?q" using inv by (simp add: ident_inv_def roots_ok_def bind_frame)
  show "numbers_ok ?q"
    by (rule numbers_ok_atts [OF ident_inv_parts(2) [OF inv]]) (simp add: bind_frame)
  show "op_placed ?q x" if "x \<in> set (p_ops ?q)" for x
    using that ident_inv_opD [OF inv, of x] by (simp add: op_placed_def bind_frame)
  show "att_placed ?q a" if "a \<in> set (p_atts ?q)" for a
    using ident_inv_attD [OF inv, of a] that by (simp add: att_placed_def bind_frame)
  show "snd c \<in> ao_id ` set (p_ops ?q)" if "c \<in> set (p_binds ?q)" for c
    using ident_inv_bindD [OF inv, of c] that k unfolding bind_frame
    by (auto simp: a_bind_def split: if_splits)
  show "rid \<in> ar_id ` set (p_roots ?q)" if "p_lines ?q (rid, u) \<noteq> None" for rid u
    using ident_inv_lineD [OF inv, of rid u] that unfolding bind_frame by blast
qed

definition new_aatt :: "string \<Rightarrow> int \<Rightarrow> aop \<Rightarrow> aatt" where
  "new_aatt aid n x =
     \<lparr>aa_id = aid, aa_op = ao_id x, aa_root = ao_root x, aa_number = n, aa_state = RESERVED,
      aa_compute = False, aa_budget = False, aa_bound = budget_bound_of (ao_spec x),
      aa_unit = budget_unit_of (ao_spec x), aa_usage = None, aa_sent = False\<rparr>"

lemma a_reserve_alt:
  "a_reserve aid n x p =
     a_set_op (ao_id x) (\<lambda>x. x\<lparr>ao_state := EXECUTING, ao_active := Some aid\<rparr>)
       (p\<lparr>p_atts := p_atts p @ [new_aatt aid n x]\<rparr>)"
  by (simp add: a_reserve_def new_aatt_def)

lemma new_aatt_sel [simp]:
  "aa_id (new_aatt aid n x) = aid" "aa_op (new_aatt aid n x) = ao_id x"
  "aa_root (new_aatt aid n x) = ao_root x" "aa_number (new_aatt aid n x) = n"
  "aa_state (new_aatt aid n x) = RESERVED" "\<not> aa_compute (new_aatt aid n x)"
  "\<not> aa_budget (new_aatt aid n x)" "aa_bound (new_aatt aid n x) = budget_bound_of (ao_spec x)"
  "aa_unit (new_aatt aid n x) = budget_unit_of (ao_spec x)" "aa_usage (new_aatt aid n x) = None"
  "\<not> aa_sent (new_aatt aid n x)"
  by (simp_all add: new_aatt_def)

lemma numbers_ok_snoc:
  assumes "numbers_ok p" and "\<And>b. b \<in> set (p_atts p) \<Longrightarrow> aa_op b = aa_op a \<Longrightarrow> aa_number b < aa_number a"
  shows "numbers_ok (p\<lparr>p_atts := p_atts p @ [a]\<rparr>)"
  unfolding numbers_ok_def
proof (intro ballI impI)
  fix c d assume c: "c \<in> set (p_atts (p\<lparr>p_atts := p_atts p @ [a]\<rparr>))"
    and d: "d \<in> set (p_atts (p\<lparr>p_atts := p_atts p @ [a]\<rparr>))"
    and same: "aa_op c = aa_op d \<and> aa_number c = aa_number d"
  have new: "False" if "b \<in> set (p_atts p)" "aa_op b = aa_op a" "aa_number b = aa_number a" for b
    using assms(2) [OF that(1,2)] that(3) by simp
  from c d consider "c \<in> set (p_atts p)" "d \<in> set (p_atts p)" | "c = a" "d = a"
    | "c = a" "d \<in> set (p_atts p)" | "d = a" "c \<in> set (p_atts p)" by auto
  then show "aa_id c = aa_id d"
  proof cases
    case 1
    with assms(1) same show ?thesis unfolding numbers_ok_def by blast
  next
    case 3
    with same new [of d] show ?thesis by simp
  next
    case 4
    with same new [of c] show ?thesis by simp
  qed simp
qed

lemma ident_inv_reserve:
  assumes inv: "ident_inv p" and op: "a_op p k = Some x" and new: "a_att p aid = None"
    and n: "\<And>a. a \<in> set (p_atts p) \<Longrightarrow> aa_op a = k \<Longrightarrow> aa_number a < n"
  shows "ident_inv (a_reserve aid n x p)"
proof -
  let ?q = "p\<lparr>p_atts := p_atts p @ [new_aatt aid n x]\<rparr>"
  have x: "x \<in> set (p_ops p)" "ao_id x = k"
    using op by (auto dest: lookup_row_Some_in lookup_row_Some_key)
  have fresh: "aid \<notin> aa_id ` set (p_atts p)" using new by (simp add: lookup_row_None_iff)
  have "ident_inv ?q"
  proof (rule ident_invI)
    show "ids_distinct ?q" using ident_inv_distinct [OF inv] fresh by (simp add: ids_distinct_def)
    show "roots_ok ?q" using inv by (simp add: ident_inv_def roots_ok_def)
    show "numbers_ok ?q"
      using inv n x by (intro numbers_ok_snoc) (simp_all add: ident_inv_def)
    show "op_placed ?q y" if "y \<in> set (p_ops ?q)" for y
      using that ident_inv_opD [OF inv, of y] by (simp add: op_placed_def)
    show "att_placed ?q a" if "a \<in> set (p_atts ?q)" for a
      using that ident_inv_attD [OF inv, of a] x(1) by (auto simp: att_placed_def)
    show "snd c \<in> ao_id ` set (p_ops ?q)" if "c \<in> set (p_binds ?q)" for c
      using ident_inv_bindD [OF inv, of c] that by simp
    show "rid \<in> ar_id ` set (p_roots ?q)" if "p_lines ?q (rid, u) \<noteq> None" for rid u
      using ident_inv_lineD [OF inv, of rid u] that by simp
  qed
  moreover have "same_ident ?q (a_reserve aid n x p)"
    unfolding a_reserve_alt by (rule same_ident_set_op) (simp add: ao_ident_def)
  ultimately show ?thesis by (rule ident_inv_same [rotated])
qed

lemma ident_inv_step:
  assumes step: "proto_step p q" and inv: "ident_inv p"
  shows "ident_inv q"
  using step
proof cases
  case (PBind k x b)
  then have "ident_inv (a_bind b k p)" using inv ident_inv_bind by blast
  with PBind show ?thesis by (auto intro: ident_inv_same [OF same_ident_complete])
next
  case (PEnd aid a st x usage mv)
  then show ?thesis
    using inv by (simp add: ident_inv_same [OF same_ident_trans [OF same_ident_end same_ident_move]])
next
  case (PRoots g)
  then show ?thesis using inv same_ident_roots_map ident_inv_same by blast
next
  case (PSend aid a x r limit reserved spent)
  then have "same_ident p q" by (simp add: same_ident_send)
  then show ?thesis using inv by (rule ident_inv_same)
qed (use inv in \<open>auto intro: ident_inv_new_root ident_inv_new_op ident_inv_reserve
      ident_inv_same [OF same_ident_emit] ident_inv_same [OF same_ident_terminal]
      ident_inv_same [OF same_ident_complete] ident_inv_same [OF same_ident_backend]
      ident_inv_same [OF same_ident_unknown] ident_inv_same [OF same_ident_reconciling]\<close>)

end
