(* ===== verification/Protocol_Accounts.thy ===== *)
theory Protocol_Accounts
  imports Protocol_Invariants
begin

text \<open>
  Invariants of the abstract machine that count: the shape of an attempt, the budget lines
  (what is reserved is what running attempts hold, what is spent is what ended attempts
  used), and the send counters of operations and roots.
\<close>

section \<open>Reading rows back\<close>

lemma a_set_rows [simp]:
  "p_roots (a_set_op k f p) = p_roots p" "p_atts (a_set_op k f p) = p_atts p"
  "p_binds (a_set_op k f p) = p_binds p" "p_events (a_set_op k f p) = p_events p"
  "p_ops (a_set_op k f p) = update_rows (\<lambda>x. ao_id x = k) f (p_ops p)"
  "p_roots (a_set_att k g p) = p_roots p" "p_ops (a_set_att k g p) = p_ops p"
  "p_binds (a_set_att k g p) = p_binds p" "p_events (a_set_att k g p) = p_events p"
  "p_atts (a_set_att k g p) = update_rows (\<lambda>x. aa_id x = k) g (p_atts p)"
  "p_ops (a_set_root k h p) = p_ops p" "p_atts (a_set_root k h p) = p_atts p"
  "p_binds (a_set_root k h p) = p_binds p" "p_events (a_set_root k h p) = p_events p"
  "p_roots (a_set_root k h p) = update_rows (\<lambda>x. ar_id x = k) h (p_roots p)"
  "p_roots (a_set_line l v p) = p_roots p" "p_ops (a_set_line l v p) = p_ops p"
  "p_atts (a_set_line l v p) = p_atts p" "p_binds (a_set_line l v p) = p_binds p"
  "p_events (a_set_line l v p) = p_events p" "p_lines (a_set_line l v p) = (p_lines p)(l := v)"
  by (simp_all add: a_set_op_def a_set_att_def a_set_root_def a_set_line_def)

lemma a_complete_frame [simp]:
  "p_roots (a_complete k p) = p_roots p" "p_ops (a_complete k p) = p_ops p"
  "p_atts (a_complete k p) = p_atts p" "p_binds (a_complete k p) = p_binds p"
  "p_lines (a_complete k p) = p_lines p"
  by (simp_all add: a_complete_def)

lemma a_emit_frame [simp]:
  "p_roots (a_emit e p) = p_roots p" "p_ops (a_emit e p) = p_ops p"
  "p_atts (a_emit e p) = p_atts p" "p_binds (a_emit e p) = p_binds p"
  "p_lines (a_emit e p) = p_lines p"
  by (simp_all add: a_emit_def)

lemma a_move_frame [simp]:
  "p_roots (a_move k mv p) = p_roots p" "p_atts (a_move k mv p) = p_atts p"
  "p_binds (a_move k mv p) = p_binds p" "p_lines (a_move k mv p) = p_lines p"
  by (cases mv; simp add: a_requeue_def a_terminal_def a_succeed_def)+

lemma a_terminal_frame [simp]:
  "p_roots (a_terminal k st p) = p_roots p" "p_atts (a_terminal k st p) = p_atts p"
  "p_binds (a_terminal k st p) = p_binds p" "p_lines (a_terminal k st p) = p_lines p"
  "p_ops (a_terminal k st p) = update_rows (\<lambda>x. ao_id x = k) (a_finish st) (p_ops p)"
  by (simp_all add: a_terminal_def)

lemma a_end_frame [simp]:
  "p_ops (a_end a st usage p) = p_ops p" "p_binds (a_end a st usage p) = p_binds p"
  "p_events (a_end a st usage p) = p_events p"
  "p_atts (a_end a st usage p) = update_rows (\<lambda>x. aa_id x = aa_id a) (a_end_row st usage) (p_atts p)"
  by (auto simp: a_end_def Let_def split: option.splits)

lemma a_send_frame [simp]:
  "p_binds (a_send a l p) = p_binds p" "p_events (a_send a l p) = p_events p"
  "p_ops (a_send a l p) = update_rows (\<lambda>x. ao_id x = aa_op a) (\<lambda>x. x\<lparr>ao_sent := ao_sent x + 1\<rparr>) (p_ops p)"
  "p_roots (a_send a l p) =
     update_rows (\<lambda>r. ar_id r = aa_root a) (\<lambda>r. r\<lparr>ar_attempts := ar_attempts r + 1\<rparr>) (p_roots p)"
  "p_atts (a_send a l p) = update_rows (\<lambda>x. aa_id x = aa_id a)
     (\<lambda>a. a\<lparr>aa_state := SEND_INTENT, aa_compute := True, aa_budget := True, aa_sent := True\<rparr>) (p_atts p)"
  by (cases l; simp add: a_send_def)+

lemma a_reserve_frame [simp]:
  "p_roots (a_reserve aid n x p) = p_roots p" "p_binds (a_reserve aid n x p) = p_binds p"
  "p_events (a_reserve aid n x p) = p_events p" "p_lines (a_reserve aid n x p) = p_lines p"
  "p_atts (a_reserve aid n x p) = p_atts p @ [new_aatt aid n x]"
  "p_ops (a_reserve aid n x p) = update_rows (\<lambda>y. ao_id y = ao_id x)
     (\<lambda>x. x\<lparr>ao_state := EXECUTING, ao_active := Some aid\<rparr>) (p_ops p)"
  by (simp_all add: a_reserve_alt)

lemma a_new_root_frame [simp]:
  "p_ops (a_new_root s p) = p_ops p" "p_atts (a_new_root s p) = p_atts p"
  "p_binds (a_new_root s p) = p_binds p" "p_events (a_new_root s p) = p_events p"
  by (simp_all add: a_new_root_def)

lemma a_att_updates [simp]:
  "p_lines (a_backend aid p) = p_lines p" "p_roots (a_backend aid p) = p_roots p"
  "p_ops (a_backend aid p) = p_ops p" "p_binds (a_backend aid p) = p_binds p"
  "p_events (a_backend aid p) = p_events p"
  "p_lines (a_unknown aid p) = p_lines p" "p_roots (a_unknown aid p) = p_roots p"
  "p_ops (a_unknown aid p) = p_ops p" "p_binds (a_unknown aid p) = p_binds p"
  "p_events (a_unknown aid p) = p_events p"
  by (simp_all add: a_backend_def a_unknown_def)

lemma a_reconciling_frame [simp]:
  "p_lines (a_reconciling k p) = p_lines p" "p_roots (a_reconciling k p) = p_roots p"
  "p_atts (a_reconciling k p) = p_atts p" "p_binds (a_reconciling k p) = p_binds p"
  "p_events (a_reconciling k p) = p_events p"
  by (simp_all add: a_reconciling_def)

section \<open>The shape of an attempt\<close>

definition att_ok :: "aatt \<Rightarrow> bool" where
  "att_ok a \<longleftrightarrow>
     (aa_compute a \<longrightarrow> aa_budget a) \<and>
     (aa_budget a \<longrightarrow> aa_sent a \<and> aa_usage a = None \<and> \<not> ended (aa_state a)) \<and>
     (aa_state a = RESERVED \<longrightarrow> \<not> aa_sent a) \<and>
     (aa_state a = SEND_INTENT \<longrightarrow> aa_compute a) \<and>
     (aa_state a = BACKEND_FINISHED \<longrightarrow> \<not> aa_compute a) \<and>
     (aa_sent a \<and> \<not> aa_budget a \<longrightarrow> aa_usage a \<noteq> None) \<and>
     (\<not> aa_sent a \<longrightarrow> aa_usage a = None) \<and>
     opt_all (\<lambda>u. 0 \<le> u) (aa_usage a) \<and> 0 < aa_bound a \<and>
     aa_state a \<in> {RESERVED, SEND_INTENT, BACKEND_FINISHED, UNKNOWN, RESULT_COMMITTED,
                   ATTEMPT_FAILED, FAILED_NOT_SENT}"

definition shapes_inv :: "proto \<Rightarrow> bool" where
  "shapes_inv p \<longleftrightarrow> (\<forall>a \<in> set (p_atts p). att_ok a)"

lemma shapes_lookup: "shapes_inv p \<Longrightarrow> a_att p k = Some a \<Longrightarrow> att_ok a"
  by (auto simp: shapes_inv_def dest: lookup_row_Some_in)

lemma att_ok_backend:
  "att_ok a \<Longrightarrow> \<not> ended (aa_state a) \<Longrightarrow> att_ok (a\<lparr>aa_state := BACKEND_FINISHED, aa_compute := False\<rparr>)"
  by (auto simp: att_ok_def)

lemma att_ok_unknown: "att_ok a \<Longrightarrow> \<not> ended (aa_state a) \<Longrightarrow> att_ok (a\<lparr>aa_state := UNKNOWN\<rparr>)"
  by (auto simp: att_ok_def)

lemma att_ok_send:
  "att_ok a \<Longrightarrow> aa_state a = RESERVED \<Longrightarrow>
   att_ok (a\<lparr>aa_state := SEND_INTENT, aa_compute := True, aa_budget := True, aa_sent := True\<rparr>)"
  by (auto simp: att_ok_def)

lemma att_ok_end:
  "att_ok a \<Longrightarrow> \<not> ended (aa_state a) \<Longrightarrow> ended st \<Longrightarrow> 0 \<le> or_else usage (aa_bound a) \<Longrightarrow>
   att_ok (a_end_row st usage a)"
  by (auto simp: att_ok_def a_end_row_def opt_all_def ended_def)

text \<open>An update of the one row a lookup found.\<close>

lemma ball_update_found:
  assumes "distinct (map key t)" and "lookup_row key k t = Some r"
    and "\<And>s. s \<in> set t \<Longrightarrow> Q s" and "Q (f r)"
  shows "\<forall>s \<in> set (update_rows (\<lambda>r. key r = k) f t). Q s"
  unfolding ball_update_rows
proof
  fix s assume s: "s \<in> set t"
  show "Q (if key s = k then f s else s)"
    using assms(3) [OF s] assms(4) distinct_lookup_unique [OF assms(1) s]
      lookup_row_Some_in [OF assms(2)] lookup_row_Some_key [OF assms(2)] by auto
qed

lemma shapes_set_att:
  assumes "ident_inv p" and "shapes_inv p" and "a_att p k = Some a" and "att_ok (f a)"
  shows "shapes_inv (a_set_att k f p)"
  using ball_update_found [OF ident_inv_distinct(3) [OF assms(1)] assms(3), of att_ok f] assms(2,4)
  by (simp add: shapes_inv_def)

lemma shapes_step:
  assumes step: "proto_step p q" and ids: "ident_inv p" and inv: "shapes_inv p"
  shows "shapes_inv q"
  using step
proof cases
  case (PReserve k x aid n)
  then have "op_placed p x" using ids ident_inv_opD by (auto dest: lookup_row_Some_in)
  then have "att_ok (new_aatt aid n x)" by (simp add: att_ok_def opt_all_def op_placed_def)
  with inv PReserve show ?thesis by (simp add: shapes_inv_def)
next
  case (PSend aid a x r limit reserved spent)
  then have "att_ok a" and key: "aa_id a = aid"
    using inv shapes_lookup lookup_row_Some_key by metis+
  then have "shapes_inv (a_set_att aid
      (\<lambda>a. a\<lparr>aa_state := SEND_INTENT, aa_compute := True, aa_budget := True, aa_sent := True\<rparr>) p)"
    using PSend by (intro shapes_set_att [OF ids inv]) (auto intro: att_ok_send)
  with key show ?thesis unfolding PSend(1) by (simp add: shapes_inv_def)
next
  case (PBackend aid a)
  then show ?thesis
    unfolding a_backend_def using att_ok_backend shapes_lookup [OF inv] shapes_set_att [OF ids inv] by simp
next
  case (PUnknown aid a)
  then show ?thesis
    unfolding a_unknown_def using att_ok_unknown shapes_lookup [OF inv] shapes_set_att [OF ids inv] by simp
next
  case (PEnd aid a st x usage mv)
  then have "att_ok a" and key: "aa_id a = aid"
    using inv shapes_lookup lookup_row_Some_key by metis+
  then have "shapes_inv (a_set_att aid (a_end_row st usage) p)"
    using PEnd by (intro shapes_set_att [OF ids inv]) (auto intro: att_ok_end)
  with key show ?thesis unfolding PEnd(1) by (simp add: shapes_inv_def)
qed (use inv in \<open>auto simp: shapes_inv_def bind_frame new_op_frame\<close>)

section \<open>Budget lines\<close>

definition held_of :: "string \<Rightarrow> budget_unit \<Rightarrow> aatt \<Rightarrow> int" where
  "held_of rid u a = (if aa_budget a \<and> aa_root a = rid \<and> aa_unit a = u then aa_bound a else 0)"

definition spent_of :: "string \<Rightarrow> budget_unit \<Rightarrow> aatt \<Rightarrow> int" where
  "spent_of rid u a = (if aa_root a = rid \<and> aa_unit a = u then or_else (aa_usage a) 0 else 0)"

text \<open>By how much an ended attempt used more than it had reserved.\<close>

definition over_of :: "string \<Rightarrow> budget_unit \<Rightarrow> aatt \<Rightarrow> int" where
  "over_of rid u a =
     (if aa_root a = rid \<and> aa_unit a = u then max 0 (or_else (aa_usage a) 0 - aa_bound a) else 0)"

definition line_ok :: "proto \<Rightarrow> string \<Rightarrow> budget_unit \<Rightarrow> int \<times> int \<times> int \<Rightarrow> bool" where
  "line_ok p rid u line =
     (case line of (limit, reserved, spent) \<Rightarrow>
       0 < limit \<and> reserved = total (held_of rid u) (p_atts p) \<and>
       spent = total (spent_of rid u) (p_atts p) \<and>
       spent + reserved \<le> limit + total (over_of rid u) (p_atts p) \<and>
       (\<forall>r \<in> set (p_roots p). ar_id r = rid \<and> ar_state r = RUNNING \<longrightarrow> spent \<le> limit))"

definition lines_inv :: "proto \<Rightarrow> bool" where
  "lines_inv p \<longleftrightarrow> (\<forall>rid u line. p_lines p (rid, u) = Some line \<longrightarrow> line_ok p rid u line)"

lemma lines_invD: "lines_inv p \<Longrightarrow> p_lines p (rid, u) = Some line \<Longrightarrow> line_ok p rid u line"
  unfolding lines_inv_def by blast

text \<open>A change that moves no amount and makes no root run again.\<close>

lemma line_ok_frame:
  assumes "line_ok p rid u line"
    and "total (held_of rid u) (p_atts q) = total (held_of rid u) (p_atts p)"
    and "total (spent_of rid u) (p_atts q) = total (spent_of rid u) (p_atts p)"
    and "total (over_of rid u) (p_atts q) = total (over_of rid u) (p_atts p)"
    and "\<And>r. r \<in> set (p_roots q) \<Longrightarrow> ar_id r = rid \<Longrightarrow> ar_state r = RUNNING \<Longrightarrow>
           \<exists>r' \<in> set (p_roots p). ar_id r' = rid \<and> ar_state r' = RUNNING"
  shows "line_ok q rid u line"
  using assms by (auto simp: line_ok_def split: prod.splits)

lemma lines_inv_frame:
  assumes "lines_inv p" and "p_lines q = p_lines p"
    and "\<And>rid u. total (held_of rid u) (p_atts q) = total (held_of rid u) (p_atts p)"
    and "\<And>rid u. total (spent_of rid u) (p_atts q) = total (spent_of rid u) (p_atts p)"
    and "\<And>rid u. total (over_of rid u) (p_atts q) = total (over_of rid u) (p_atts p)"
    and "\<And>r. r \<in> set (p_roots q) \<Longrightarrow> ar_state r = RUNNING \<Longrightarrow>
           \<exists>r' \<in> set (p_roots p). ar_id r' = ar_id r \<and> ar_state r' = RUNNING"
  shows "lines_inv q"
  unfolding lines_inv_def
proof (intro allI impI)
  fix rid u line assume "p_lines q (rid, u) = Some line"
  then have "line_ok p rid u line" using assms(1,2) lines_invD by metis
  then show "line_ok q rid u line"
    by (rule line_ok_frame) (use assms(3-6) in auto)
qed

lemma lines_inv_same:
  assumes "lines_inv p" and "p_lines q = p_lines p" and "p_atts q = p_atts p" and "p_roots q = p_roots p"
  shows "lines_inv q"
  by (rule lines_inv_frame [OF assms(1)]) (use assms(2-) in auto)

lemma lines_set_att:
  assumes "lines_inv p" and "\<And>a. aa_budget (f a) = aa_budget a" and "\<And>a. aa_root (f a) = aa_root a"
    and "\<And>a. aa_unit (f a) = aa_unit a" and "\<And>a. aa_usage (f a) = aa_usage a"
    and "\<And>a. aa_bound (f a) = aa_bound a"
  shows "lines_inv (a_set_att k f p)"
  by (rule lines_inv_frame [OF assms(1)])
    (auto intro!: total_update_other simp: held_of_def spent_of_def over_of_def assms(2-))

lemma att_line:
  assumes ids: "ident_inv p" and a: "a \<in> set (p_atts p)"
  shows "p_lines p (aa_root a, aa_unit a) \<noteq> None" "aa_root a \<in> ar_id ` set (p_roots p)"
proof -
  obtain x where "x \<in> set (p_ops p)" "ao_root x = aa_root a" "budget_unit_of (ao_spec x) = aa_unit a"
    using ident_inv_attD [OF ids a] by (auto simp: att_placed_def)
  moreover from this have "op_placed p x" using ident_inv_opD [OF ids] by simp
  ultimately show "p_lines p (aa_root a, aa_unit a) \<noteq> None" by (metis op_placed_def)
  then show "aa_root a \<in> ar_id ` set (p_roots p)" using ident_inv_lineD [OF ids] by blast
qed

lemma total_no_att:
  assumes ids: "ident_inv p" and "rid \<notin> ar_id ` set (p_roots p)"
  shows "total (held_of rid u) (p_atts p) = 0" "total (spent_of rid u) (p_atts p) = 0"
    "total (over_of rid u) (p_atts p) = 0"
proof -
  have "aa_root a \<noteq> rid" if "a \<in> set (p_atts p)" for a
    using att_line(2) [OF ids that] assms(2) by metis
  then show "total (held_of rid u) (p_atts p) = 0" "total (spent_of rid u) (p_atts p) = 0"
    "total (over_of rid u) (p_atts p) = 0"
    by (auto intro!: total_zero simp: held_of_def spent_of_def over_of_def)
qed

lemma root_lines_ok:
  assumes "valid_root_spec s" and "root_lines s u = Some (limit, reserved, spent)"
  shows "0 < limit" "reserved = 0" "spent = 0"
proof -
  have "0 < n" if "map_of (rs_resource_budgets s) u = Some n" for n
    using map_of_SomeD [OF that] assms(1) by (auto simp: valid_root_spec_def list_all_iff)
  then show "0 < limit" "reserved = 0" "spent = 0"
    using assms by (auto simp: root_lines_def valid_root_spec_def split: if_splits)
qed

lemma lines_new_root:
  assumes ids: "ident_inv p" and inv: "lines_inv p" and new: "a_root p (rs_root_id s) = None"
    and ok: "valid_root_spec s"
  shows "lines_inv (a_new_root s p)"
  unfolding lines_inv_def
proof (intro allI impI)
  fix rid u line assume l: "p_lines (a_new_root s p) (rid, u) = Some line"
  have fresh: "rs_root_id s \<notin> ar_id ` set (p_roots p)" using new by (simp add: lookup_row_None_iff)
  show "line_ok (a_new_root s p) rid u line"
  proof (cases "rid = rs_root_id s")
    case True
    with l have "root_lines s u = Some line" by (simp add: a_new_root_def)
    then show ?thesis
      using root_lines_ok [OF ok, of u] total_no_att [OF ids fresh, of u] True
      by (cases line) (simp add: line_ok_def)
  next
    case False
    with l have "p_lines p (rid, u) = Some line" by (simp add: a_new_root_def)
    with inv have "line_ok p rid u line" by (rule lines_invD)
    then show ?thesis
      by (rule line_ok_frame) (use False in \<open>auto simp: a_new_root_def\<close>)
  qed
qed

lemma total_found:
  assumes "ident_inv p" and "a_att p (aa_id a) = Some a"
  shows "total w (update_rows (\<lambda>x. aa_id x = aa_id a) f (p_atts p)) = total w (p_atts p) - w a + w (f a)"
  using total_update_one [OF ident_inv_distinct(3) [OF assms(1)] assms(2)] .

lemma lines_send:
  assumes ids: "ident_inv p" and inv: "lines_inv p" and ok: "att_ok a"
    and found: "a_att p (aa_id a) = Some a" and state: "\<not> aa_budget a" "aa_usage a = None"
    and line: "p_lines p (aa_root a, aa_unit a) = Some (limit, reserved, spent)"
    and fits: "spent + reserved + aa_bound a \<le> limit"
  shows "lines_inv (a_send a (limit, reserved, spent) p)"
  unfolding lines_inv_def
proof (intro allI impI)
  let ?q = "a_send a (limit, reserved, spent) p"
  fix rid u l assume l: "p_lines ?q (rid, u) = Some l"
  have lines: "p_lines ?q = (p_lines p)((aa_root a, aa_unit a) := Some (limit, reserved + aa_bound a, spent))"
    by (simp add: a_send_def)
  have running: "\<exists>r' \<in> set (p_roots p). ar_id r' = rid \<and> ar_state r' = RUNNING"
    if "r \<in> set (p_roots ?q)" "ar_id r = rid" "ar_state r = RUNNING" for r
    using that by (auto simp: set_update_rows split: if_splits)
  have tot: "total (held_of rid u) (p_atts ?q) = total (held_of rid u) (p_atts p)
      + (if (rid, u) = (aa_root a, aa_unit a) then aa_bound a else 0)"
    "total (spent_of rid u) (p_atts ?q) = total (spent_of rid u) (p_atts p)"
    "total (over_of rid u) (p_atts ?q) = total (over_of rid u) (p_atts p)"
    using state by (simp_all add: total_found [OF ids found] held_of_def spent_of_def over_of_def)
  show "line_ok ?q rid u l"
  proof (cases "(rid, u) = (aa_root a, aa_unit a)")
    case True
    have "line_ok p rid u (limit, reserved, spent)"
      using lines_invD [OF inv line] True by simp
    moreover have "0 \<le> total (over_of rid u) (p_atts p)"
      by (rule total_nonneg) (simp add: over_of_def)
    ultimately show ?thesis
      using l lines True tot fits running by (auto simp: line_ok_def)
  next
    case False
    with l lines have "p_lines p (rid, u) = Some l" by auto
    with inv have "line_ok p rid u l" by (rule lines_invD)
    then show ?thesis by (rule line_ok_frame) (use tot False running in auto)
  qed
qed

lemma lines_end:
  assumes ids: "ident_inv p" and inv: "lines_inv p" and ok: "att_ok a"
    and found: "a_att p (aa_id a) = Some a" and pos: "0 \<le> or_else usage (aa_bound a)"
  shows "lines_inv (a_end a st usage p)"
proof (cases "aa_budget a")
  case False
  then have eq: "a_end a st usage p = a_set_att (aa_id a) (a_end_row st usage) p" by (simp add: a_end_def)
  have row: "a_end_row st usage a = a\<lparr>aa_state := st, aa_compute := False\<rparr>"
    using False by (simp add: a_end_row_def)
  show ?thesis
    unfolding eq
    by (rule lines_inv_frame [OF inv])
      (auto simp: total_found [OF ids found] row held_of_def spent_of_def over_of_def)
next
  case True
  have mem: "a \<in> set (p_atts p)" using found by (rule lookup_row_Some_in)
  obtain limit reserved spent where line: "p_lines p (aa_root a, aa_unit a) = Some (limit, reserved, spent)"
    using att_line(1) [OF ids mem] by auto
  let ?c = "or_else usage (aa_bound a)" and ?q = "a_end a st usage p"
  have usage: "aa_usage a = None" and bound: "0 < aa_bound a" using ok True by (simp_all add: att_ok_def)
  have row: "a_end_row st usage a =
      a\<lparr>aa_state := st, aa_compute := False, aa_budget := False, aa_usage := Some ?c\<rparr>"
    using True by (simp add: a_end_row_def)
  have lines: "p_lines ?q = (p_lines p)((aa_root a, aa_unit a) := Some (limit, reserved - aa_bound a, spent + ?c))"
    using True line by (simp add: a_end_def Let_def)
  have running: "(\<exists>r' \<in> set (p_roots p). ar_id r' = ar_id r \<and> ar_state r' = RUNNING)
      \<and> (ar_id r = aa_root a \<longrightarrow> spent + ?c \<le> limit)"
    if "r \<in> set (p_roots ?q)" "ar_state r = RUNNING" for r
    using that True line
    by (auto simp: a_end_def Let_def set_update_rows a_over_def split: if_splits)
  have tot: "total (held_of rid u) (p_atts ?q) = total (held_of rid u) (p_atts p)
      - (if (rid, u) = (aa_root a, aa_unit a) then aa_bound a else 0)"
    "total (spent_of rid u) (p_atts ?q) = total (spent_of rid u) (p_atts p)
      + (if (rid, u) = (aa_root a, aa_unit a) then ?c else 0)"
    "total (over_of rid u) (p_atts ?q) = total (over_of rid u) (p_atts p)
      + (if (rid, u) = (aa_root a, aa_unit a) then max 0 (?c - aa_bound a) else 0)" for rid u
    using True usage bound
    by (simp_all add: total_found [OF ids found] row held_of_def spent_of_def over_of_def)
  show ?thesis
    unfolding lines_inv_def
  proof (intro allI impI)
    fix rid u l assume l: "p_lines ?q (rid, u) = Some l"
    show "line_ok ?q rid u l"
    proof (cases "(rid, u) = (aa_root a, aa_unit a)")
      case same: True
      then have "line_ok p rid u (limit, reserved, spent)"
        using lines_invD [OF inv line] by simp
      with l lines same tot [of rid u] running show ?thesis
        by (auto simp: line_ok_def)
    next
      case False
      with l lines have "p_lines p (rid, u) = Some l" by auto
    with inv have "line_ok p rid u l" by (rule lines_invD)
      then show ?thesis by (rule line_ok_frame) (use tot [of rid u] False running in auto)
    qed
  qed
qed

lemma lines_step:
  assumes step: "proto_step p q" and ids: "ident_inv p" and shapes: "shapes_inv p" and inv: "lines_inv p"
  shows "lines_inv q"
  using step
proof cases
  case (PRoot s)
  then show ?thesis using lines_new_root [OF ids inv] by simp
next
  case (PReserve k x aid n)
  then have "0 < budget_bound_of (ao_spec x)"
    using ident_inv_opD [OF ids, of x] by (auto simp: op_placed_def dest: lookup_row_Some_in)
  with PReserve show ?thesis
    by (intro lines_inv_frame [OF inv]) (auto simp: held_of_def spent_of_def over_of_def)
next
  case (PSend aid a x r limit reserved spent)
  then have "att_ok a" and "aa_id a = aid"
    using shapes shapes_lookup lookup_row_Some_key by metis+
  moreover from this PSend have "aa_usage a = None" by (auto simp: att_ok_def)
  ultimately show ?thesis using PSend lines_send [OF ids inv] by simp
next
  case (PBackend aid a)
  then show ?thesis using lines_set_att [OF inv] by (simp add: a_backend_def)
next
  case (PUnknown aid a)
  then show ?thesis using lines_set_att [OF inv] by (simp add: a_unknown_def)
next
  case (PEnd aid a st x usage mv)
  then have "att_ok a" and "aa_id a = aid"
    using shapes shapes_lookup lookup_row_Some_key by metis+
  then have "lines_inv (a_end a st usage p)" using PEnd lines_end [OF ids inv] by simp
  then show ?thesis unfolding PEnd(1) by (rule lines_inv_same) simp_all
next
  case (PRoots g)
  have "ar_id (g r) = ar_id r \<and> (ar_state (g r) = RUNNING \<longrightarrow> ar_state r = RUNNING)"
    if "r \<in> set (p_roots p)" for r
    using PRoots(2) [OF that] by (auto simp: root_change_def)
  then show ?thesis unfolding PRoots(1)
    by (intro lines_inv_frame [OF inv]) auto
qed (use inv in \<open>auto intro: lines_inv_same simp: bind_frame new_op_frame\<close>)

section \<open>Send counters\<close>

definition sent_in_op :: "string \<Rightarrow> aatt \<Rightarrow> bool" where
  "sent_in_op k a \<longleftrightarrow> aa_op a = k \<and> aa_sent a"

definition sent_in_root :: "string \<Rightarrow> aatt \<Rightarrow> bool" where
  "sent_in_root k a \<longleftrightarrow> aa_root a = k \<and> aa_sent a"

definition sends_inv :: "proto \<Rightarrow> bool" where
  "sends_inv p \<longleftrightarrow>
     (\<forall>x \<in> set (p_ops p). ao_sent x = count_rows (sent_in_op (ao_id x)) (p_atts p)
        \<and> ao_sent x \<le> os_max_attempts (ao_spec x)) \<and>
     (\<forall>r \<in> set (p_roots p). ar_attempts r = count_rows (sent_in_root (ar_id r)) (p_atts p)
        \<and> ar_attempts r \<le> rs_max_attempts (ar_spec r))"

lemma sends_opD: "sends_inv p \<Longrightarrow> x \<in> set (p_ops p) \<Longrightarrow>
   ao_sent x = count_rows (sent_in_op (ao_id x)) (p_atts p) \<and> ao_sent x \<le> os_max_attempts (ao_spec x)"
  unfolding sends_inv_def by blast

lemma sends_rootD: "sends_inv p \<Longrightarrow> r \<in> set (p_roots p) \<Longrightarrow>
   ar_attempts r = count_rows (sent_in_root (ar_id r)) (p_atts p) \<and> ar_attempts r \<le> rs_max_attempts (ar_spec r)"
  unfolding sends_inv_def by blast

lemma sends_inv_frame:
  assumes "sends_inv p"
    and "\<And>k. count_rows (sent_in_op k) (p_atts q) = count_rows (sent_in_op k) (p_atts p)"
    and "\<And>k. count_rows (sent_in_root k) (p_atts q) = count_rows (sent_in_root k) (p_atts p)"
    and "\<And>x. x \<in> set (p_ops q) \<Longrightarrow>
       \<exists>y \<in> set (p_ops p). ao_id y = ao_id x \<and> ao_sent y = ao_sent x \<and> ao_spec y = ao_spec x"
    and "\<And>x. x \<in> set (p_roots q) \<Longrightarrow>
       \<exists>y \<in> set (p_roots p). ar_id y = ar_id x \<and> ar_attempts y = ar_attempts x \<and> ar_spec y = ar_spec x"
  shows "sends_inv q"
  unfolding sends_inv_def assms(2,3)
  using assms(1,4,5) by (metis sends_opD sends_rootD)

lemma count_found:
  assumes "ident_inv p" and "a_att p (aa_id a) = Some a"
  shows "count_rows w (update_rows (\<lambda>x. aa_id x = aa_id a) f (p_atts p)) =
    count_rows w (p_atts p) - (if w a then 1 else 0) + (if w (f a) then 1 else 0)"
  using count_update_one [OF ident_inv_distinct(3) [OF assms(1)] assms(2)] .

lemma count_same:
  "(\<And>a. w (f a) = w a) \<Longrightarrow> count_rows w (update_rows c f t) = count_rows w t"
  by (induction t) auto

lemma sends_new_root:
  assumes ids: "ident_inv p" and inv: "sends_inv p" and new: "a_root p (rs_root_id s) = None"
    and ok: "valid_root_spec s"
  shows "sends_inv (a_new_root s p)"
proof -
  have fresh: "rs_root_id s \<notin> ar_id ` set (p_roots p)" using new by (simp add: lookup_row_None_iff)
  have "aa_root a \<noteq> rs_root_id s" if "a \<in> set (p_atts p)" for a
    using att_line(2) [OF ids that] fresh by metis
  then have "count_rows (sent_in_root (rs_root_id s)) (p_atts p) = 0"
    by (auto simp: count_rows_0_iff sent_in_root_def)
  with inv ok show ?thesis by (auto simp: sends_inv_def a_new_root_def valid_root_spec_def)
qed

lemma sends_new_op:
  assumes ids: "ident_inv p" and inv: "sends_inv p" and new: "a_op p (os_operation_id spec) = None"
    and ok: "valid_operation spec"
  shows "sends_inv (a_new_op spec p)"
proof -
  have fresh: "os_operation_id spec \<notin> ao_id ` set (p_ops p)" using new by (simp add: lookup_row_None_iff)
  have "aa_op a \<noteq> os_operation_id spec" if "a \<in> set (p_atts p)" for a
    using ident_inv_attD [OF ids that] fresh by (metis att_placed_def image_eqI)
  then have "count_rows (sent_in_op (os_operation_id spec)) (p_atts p) = 0"
    by (auto simp: count_rows_0_iff sent_in_op_def)
  with inv ok show ?thesis by (auto simp: sends_inv_def a_new_op_def valid_operation_def)
qed

lemma sends_send:
  assumes ids: "ident_inv p" and inv: "sends_inv p" and found: "a_att p (aa_id a) = Some a"
    and unsent: "\<not> aa_sent a"
    and op: "a_op p (aa_op a) = Some x" and more: "ao_sent x < os_max_attempts (ao_spec x)"
    and root: "a_root p (aa_root a) = Some r" and room: "ar_attempts r < rs_max_attempts (ar_spec r)"
  shows "sends_inv (a_send a line p)"
proof -
  let ?q = "a_send a line p"
  have ops: "count_rows (sent_in_op k) (p_atts ?q) =
      count_rows (sent_in_op k) (p_atts p) + (if k = aa_op a then 1 else 0)" for k
    using unsent by (simp add: count_found [OF ids found] sent_in_op_def)
  have roots: "count_rows (sent_in_root k) (p_atts ?q) =
      count_rows (sent_in_root k) (p_atts p) + (if k = aa_root a then 1 else 0)" for k
    using unsent by (simp add: count_found [OF ids found] sent_in_root_def)
  have x: "y = x" if "y \<in> set (p_ops p)" "ao_id y = aa_op a" for y
    using that op lookup_row_iff [OF ident_inv_distinct(2) [OF ids]] by (metis option.inject)
  have r: "y = r" if "y \<in> set (p_roots p)" "ar_id y = aa_root a" for y
    using that root lookup_row_iff [OF ident_inv_distinct(1) [OF ids]] by (metis option.inject)
  have one: "ao_sent y + 1 \<le> os_max_attempts (ao_spec y)" if "y \<in> set (p_ops p)" "ao_id y = aa_op a" for y
    using x [OF that] more by auto
  have two: "ar_attempts y + 1 \<le> rs_max_attempts (ar_spec y)"
    if "y \<in> set (p_roots p)" "ar_id y = aa_root a" for y
    using r [OF that] room by auto
  show ?thesis
    unfolding sends_inv_def ops roots
    by (auto simp: ball_update_rows dest: sends_opD [OF inv] sends_rootD [OF inv] intro: one two)
qed

lemma sends_step:
  assumes step: "proto_step p q" and ids: "ident_inv p" and shapes: "shapes_inv p" and inv: "sends_inv p"
  shows "sends_inv q"
  using step
proof cases
  case (PRoot s)
  then show ?thesis using sends_new_root [OF ids inv] by simp
next
  case (POp spec r)
  then show ?thesis using sends_new_op [OF ids inv] by simp
next
  case (PReserve k x aid n)
  then show ?thesis
    by (intro sends_inv_frame [OF inv])
      (auto simp: sent_in_op_def sent_in_root_def set_update_rows split: if_splits)
next
  case (PSend aid a x r limit reserved spent)
  then have "att_ok a" and "aa_id a = aid"
    using shapes shapes_lookup lookup_row_Some_key by metis+
  moreover from this PSend have "\<not> aa_sent a" by (auto simp: att_ok_def)
  ultimately show ?thesis using PSend sends_send [OF ids inv] by simp
next
  case (PBackend aid a)
  then show ?thesis
    by (intro sends_inv_frame [OF inv]) (auto simp: a_backend_def count_same sent_in_op_def sent_in_root_def)
next
  case (PUnknown aid a)
  then show ?thesis
    by (intro sends_inv_frame [OF inv]) (auto simp: a_unknown_def count_same sent_in_op_def sent_in_root_def)
next
  case (PEnd aid a st x usage mv)
  have rows: "aa_op (a_end_row st usage b) = aa_op b" "aa_root (a_end_row st usage b) = aa_root b"
    "aa_sent (a_end_row st usage b) = aa_sent b" for b by (simp_all add: a_end_row_def)
  have ops: "\<exists>y \<in> set (p_ops p). ao_id y = ao_id x \<and> ao_sent y = ao_sent x \<and> ao_spec y = ao_spec x"
    if "x \<in> set (p_ops q)" for x
    using that unfolding PEnd(1)
    by (cases mv) (auto simp: a_requeue_def a_succeed_def a_finish_def set_update_rows split: if_splits)
  have roots: "\<exists>y \<in> set (p_roots p). ar_id y = ar_id x \<and> ar_attempts y = ar_attempts x \<and> ar_spec y = ar_spec x"
    if "x \<in> set (p_roots q)" for x
    using that unfolding PEnd(1)
    by (auto simp: a_end_def Let_def a_over_def set_update_rows split: option.splits if_splits prod.splits)
  show ?thesis
    by (rule sends_inv_frame [OF inv])
      (use ops roots in \<open>auto simp: PEnd(1) count_same sent_in_op_def sent_in_root_def rows\<close>)
next
  case (PRoots g)
  have "ar_id (g r) = ar_id r \<and> ar_attempts (g r) = ar_attempts r \<and> ar_spec (g r) = ar_spec r"
    if "r \<in> set (p_roots p)" for r
    using PRoots(2) [OF that] by (auto simp: root_change_def)
  then show ?thesis unfolding PRoots(1) by (intro sends_inv_frame [OF inv]) auto
qed (intro sends_inv_frame [OF inv]; auto simp: bind_frame a_finish_def a_reconciling_def set_update_rows
      split: if_splits)+

end
