(* ===== verification/Protocol_Safety.thy ===== *)
theory Protocol_Safety
  imports Protocol_Accounts
begin

text \<open>
  The safety invariants of the abstract machine: at most one attempt of a pending operation is
  open and it is the active one, an operation has its completion events exactly when it has
  ended, a result belongs to a committed attempt, and a run that succeeded left nothing
  pending. The last section joins every group into one invariant of the reachable states.
\<close>

section \<open>Exclusive execution\<close>

definition open_att :: "string \<Rightarrow> aatt \<Rightarrow> bool" where
  "open_att k a \<longleftrightarrow> aa_op a = k \<and> \<not> ended (aa_state a)"

definition in_flight :: "operation_state \<Rightarrow> bool" where
  "in_flight st \<longleftrightarrow> st = EXECUTING \<or> st = RECONCILING"

text \<open>
  For a pending operation: an open attempt is the active one and the operation is in flight;
  an operation in flight has an open active attempt.
\<close>

definition op_excl :: "aatt list \<Rightarrow> aop \<Rightarrow> bool" where
  "op_excl as x \<longleftrightarrow> op_terminal (ao_state x) \<or>
     ((\<forall>a \<in> set as. open_att (ao_id x) a \<longrightarrow> ao_active x = Some (aa_id a) \<and> in_flight (ao_state x)) \<and>
      (in_flight (ao_state x) \<longrightarrow> (\<exists>a \<in> set as. open_att (ao_id x) a \<and> ao_active x = Some (aa_id a))))"

definition excl_inv :: "proto \<Rightarrow> bool" where
  "excl_inv p \<longleftrightarrow> (\<forall>x \<in> set (p_ops p). op_excl (p_atts p) x)"

lemma excl_invD: "excl_inv p \<Longrightarrow> x \<in> set (p_ops p) \<Longrightarrow> op_excl (p_atts p) x"
  by (simp add: excl_inv_def)

lemma op_exclD:
  assumes "op_excl as x" and "\<not> op_terminal (ao_state x)" and "a \<in> set as" and "open_att (ao_id x) a"
  shows "ao_active x = Some (aa_id a)" "in_flight (ao_state x)"
  using assms by (auto simp: op_excl_def)

lemma op_excl_terminal: "op_terminal (ao_state x) \<Longrightarrow> op_excl as x"
  by (simp add: op_excl_def)

lemma op_excl_map:
  assumes "\<And>a. a \<in> set as \<Longrightarrow> open_att (ao_id x) (g a) = open_att (ao_id x) a"
    and "\<And>a. a \<in> set as \<Longrightarrow> aa_id (g a) = aa_id a"
  shows "op_excl (map g as) x = op_excl as x"
  using assms by (simp add: op_excl_def)

text \<open>An update of attempts that opens and closes none.\<close>

lemma op_excl_update:
  assumes "op_excl as x" and "\<And>a. aa_id (f a) = aa_id a" and "\<And>a. aa_op (f a) = aa_op a"
    and "\<And>a. a \<in> set as \<Longrightarrow> c a \<Longrightarrow> ended (aa_state (f a)) = ended (aa_state a)"
  shows "op_excl (update_rows c f as) x"
  unfolding update_rows_def using assms(1)
  by (subst op_excl_map) (auto simp: open_att_def assms(2-4))

lemma excl_set_att:
  assumes "excl_inv p" and "\<And>a. aa_id (f a) = aa_id a" and "\<And>a. aa_op (f a) = aa_op a"
    and "\<And>a. a \<in> set (p_atts p) \<Longrightarrow> aa_id a = k \<Longrightarrow> ended (aa_state (f a)) = ended (aa_state a)"
  shows "excl_inv (a_set_att k f p)"
  using assms by (simp add: excl_inv_def op_excl_update)

lemma excl_set_op:
  assumes "excl_inv p" and "\<And>x. x \<in> set (p_ops p) \<Longrightarrow> ao_id x = k \<Longrightarrow> op_excl (p_atts p) x \<Longrightarrow>
      op_excl (p_atts p) (f x)"
  shows "excl_inv (a_set_op k f p)"
  using assms by (auto simp: excl_inv_def ball_update_rows)

lemma excl_events: "excl_inv (p\<lparr>p_events := e\<rparr>) = excl_inv p"
  by (simp add: excl_inv_def)

lemma excl_terminal: "excl_inv p \<Longrightarrow> op_terminal st \<Longrightarrow> excl_inv (a_terminal k st p)"
  unfolding a_terminal_def a_complete_def excl_events
  by (rule excl_set_op) (auto simp: a_finish_def op_excl_terminal)

lemma the_att:
  assumes "ident_inv p" and "a_att p k = Some a" and "b \<in> set (p_atts p)" and "aa_id b = k"
  shows "b = a"
  using assms lookup_row_iff [OF ident_inv_distinct(3) [OF assms(1)]] by (metis option.inject)

lemma the_op:
  assumes "ident_inv p" and "a_op p k = Some x" and "y \<in> set (p_ops p)" and "ao_id y = k"
  shows "y = x"
  using assms lookup_row_iff [OF ident_inv_distinct(2) [OF assms(1)]] by (metis option.inject)

lemma the_root:
  assumes "ident_inv p" and "a_root p k = Some x" and "y \<in> set (p_roots p)" and "ar_id y = k"
  shows "y = x"
  using assms lookup_row_iff [OF ident_inv_distinct(1) [OF assms(1)]] by (metis option.inject)

lemma att_op_known: "ident_inv p \<Longrightarrow> a \<in> set (p_atts p) \<Longrightarrow> aa_op a \<in> ao_id ` set (p_ops p)"
  by (drule (1) ident_inv_attD) (metis att_placed_def image_eqI)

lemma excl_reserve:
  assumes ids: "ident_inv p" and inv: "excl_inv p" and op: "a_op p k = Some x"
    and idle: "ao_state x = READY \<or> ao_state x = RETRY_WAIT" and new: "a_att p aid = None"
  shows "excl_inv (a_reserve aid n x p)"
  unfolding excl_inv_def a_reserve_frame ball_update_rows
proof
  fix y assume y: "y \<in> set (p_ops p)"
  have k: "ao_id x = k" using op by (rule lookup_row_Some_key)
  have "op_excl (p_atts p) y" using inv y by (rule excl_invD)
  moreover have "\<not> open_att k a" if "a \<in> set (p_atts p)" for a
    using op_exclD [OF excl_invD [OF inv lookup_row_Some_in [OF op]] _ that] idle k
    by (auto simp: in_flight_def)
  moreover have "op_excl (p_atts p @ [new_aatt aid n x]) y" if "op_excl (p_atts p) y" "ao_id y \<noteq> k"
    using that k by (auto simp: op_excl_def open_att_def)
  moreover have "op_excl (p_atts p @ [new_aatt aid n x]) (y\<lparr>ao_state := EXECUTING, ao_active := Some aid\<rparr>)"
    if "\<And>a. a \<in> set (p_atts p) \<Longrightarrow> \<not> open_att k a" "ao_id y = k"
    using that k by (auto simp: op_excl_def open_att_def in_flight_def)
  ultimately show "op_excl (p_atts p @ [new_aatt aid n x])
      (if ao_id y = ao_id x then y\<lparr>ao_state := EXECUTING, ao_active := Some aid\<rparr> else y)"
    using k by simp
qed

text \<open>Ending the open attempt of an operation together with the operation's move.\<close>

lemma excl_end:
  assumes ids: "ident_inv p" and inv: "excl_inv p" and found: "a_att p aid = Some a"
    and opn: "\<not> ended (aa_state a)" and st: "ended st" and op: "a_op p (aa_op a) = Some x"
    and mv: "move_allowed mv st (ao_state x)"
  shows "excl_inv (a_move (aa_op a) mv (a_end a st usage p))"
proof -
  let ?as = "update_rows (\<lambda>b. aa_id b = aa_id a) (a_end_row st usage) (p_atts p)"
  have key: "aa_id a = aid" "ao_id x = aa_op a" using found op by (auto dest: lookup_row_Some_key)
  have row: "aa_id (a_end_row st usage b) = aa_id b" "aa_op (a_end_row st usage b) = aa_op b"
    "aa_state (a_end_row st usage b) = st" for b by (simp_all add: a_end_row_def)
  have other: "op_excl ?as y" if y: "y \<in> set (p_ops p)" and "ao_id y \<noteq> aa_op a" for y
  proof -
    have opens: "open_att (ao_id y) (if aa_id b = aa_id a then a_end_row st usage b else b)
        = open_att (ao_id y) b" if "b \<in> set (p_atts p)" for b
      using the_att [OF ids found that] key \<open>ao_id y \<noteq> aa_op a\<close> by (auto simp: open_att_def row)
    show ?thesis
      unfolding update_rows_def
      by (subst op_excl_map) (use opens excl_invD [OF inv y] row in auto)
  qed
  have closed: "\<not> open_att (aa_op a) b" if "b \<in> set ?as" and live: "\<not> op_terminal (ao_state x)" for b
  proof
    assume o1: "open_att (aa_op a) b"
    from that(1) obtain c where c: "c \<in> set (p_atts p)"
      and b: "b = (if aa_id c = aa_id a then a_end_row st usage c else c)"
      by (auto simp: set_update_rows)
    with o1 st have "b = c" "aa_id c \<noteq> aa_id a" by (auto simp: open_att_def row split: if_splits)
    with o1 c key have "ao_active x = Some (aa_id c)"
      using op_exclD(1) [OF excl_invD [OF inv lookup_row_Some_in [OF op]] live c] by simp
    moreover have "ao_active x = Some (aa_id a)"
      using op_exclD(1) [OF excl_invD [OF inv lookup_row_Some_in [OF op]] live lookup_row_Some_in [OF found]]
        opn key by (simp add: open_att_def)
    ultimately show False using \<open>aa_id c \<noteq> aa_id a\<close> by simp
  qed
  have own: "op_excl ?as (f x)"
    if "ao_id (f x) = aa_op a" "op_terminal (ao_state (f x)) \<or> \<not> op_terminal (ao_state x) \<and> \<not> in_flight (ao_state (f x))"
    for f :: "aop \<Rightarrow> aop"
    using that closed by (auto simp: op_excl_def)
  have xs: "y = x" if "y \<in> set (p_ops p)" "ao_id y = aa_op a" for y
    using the_op [OF ids op] that by blast
  have main: "\<forall>y \<in> set (p_ops p). op_excl ?as (if ao_id y = aa_op a then f y else y)"
    if "ao_id (f x) = aa_op a" "op_terminal (ao_state (f x)) \<or> \<not> op_terminal (ao_state x) \<and> \<not> in_flight (ao_state (f x))"
    for f :: "aop \<Rightarrow> aop"
    using own [of f] that other xs by auto
  have goal: "excl_inv q"
    if "p_atts q = ?as" and "p_ops q = update_rows (\<lambda>y. ao_id y = aa_op a) f (p_ops p)"
      and "ao_id (f x) = aa_op a"
      and "op_terminal (ao_state (f x)) \<or> \<not> op_terminal (ao_state x) \<and> \<not> in_flight (ao_state (f x))"
    for f and q :: proto
    unfolding excl_inv_def that(1,2) ball_update_rows by (rule main [of f]) (use that(3,4) in auto)
  show ?thesis
  proof (cases mv)
    case Stay
    then show ?thesis using mv key by (intro goal [of _ "\<lambda>x. x"]) (auto simp: update_rows_def)
  next
    case (Requeue st' clear)
    then show ?thesis
      using mv key
      by (intro goal [of _ "\<lambda>x. x\<lparr>ao_state := st', ao_active := (if clear then None else ao_active x)\<rparr>"])
        (auto simp: a_requeue_def in_flight_def)
  next
    case (Finish st')
    then show ?thesis
      using mv key by (intro goal [of _ "a_finish st'"]) (auto simp: a_finish_def)
  next
    case (Succeed ref)
    then show ?thesis
      using mv key
      by (intro goal [of _ "\<lambda>x. x\<lparr>ao_state := SUCCEEDED, ao_result := Some ref\<rparr>"])
        (auto simp: a_succeed_def)
  qed
qed

lemma excl_send:
  assumes "excl_inv p" and "a_att p (aa_id a) = Some a" and "\<not> ended (aa_state a)" and "ident_inv p"
  shows "excl_inv (a_send a line p)"
proof -
  have "\<not> ended (aa_state b)" if "b \<in> set (p_atts p)" "aa_id b = aa_id a" for b
    using the_att [OF assms(4,2) that] assms(3) by simp
  then have all: "op_excl (p_atts (a_send a line p)) x" if "x \<in> set (p_ops p)" for x
    unfolding a_send_frame using assms(2,3) by (intro op_excl_update [OF excl_invD [OF assms(1) that]]) auto
  have same: "op_excl as (x\<lparr>ao_sent := n\<rparr>) = op_excl as x" for as x n by (simp add: op_excl_def)
  show ?thesis
    unfolding excl_inv_def a_send_frame(3) ball_update_rows using all by (auto simp del: a_send_frame simp: same)
qed

lemma excl_step:
  assumes step: "proto_step p q" and ids: "ident_inv p" and inv: "excl_inv p"
  shows "excl_inv q"
  using step
proof cases
  case (POp spec r)
  have "\<not> open_att (os_operation_id spec) a" if "a \<in> set (p_atts p)" for a
  proof -
    have "aa_op a \<in> ao_id ` set (p_ops p)" using ids that by (rule att_op_known)
    then show ?thesis using POp(2) by (auto simp: open_att_def lookup_row_None_iff)
  qed
  then have "op_excl (p_atts p) x" if "ao_id x = os_operation_id spec" "ao_state x = READY" for x
    using that by (simp add: op_excl_def in_flight_def)
  then show ?thesis using inv unfolding POp(1) by (simp add: excl_inv_def a_new_op_def)
next
  case (PTerminal st k)
  then show ?thesis using excl_terminal [OF inv] by auto
next
  case (PReserve k x aid n)
  then show ?thesis using excl_reserve [OF ids inv] by simp
next
  case (PSend aid a x r limit reserved spent)
  moreover from this have "aa_id a = aid" using lookup_row_Some_key by metis
  ultimately show ?thesis using excl_send [OF inv _ _ ids] by simp
next
  case (PBackend aid a)
  have "\<not> ended (aa_state b)" if "b \<in> set (p_atts p)" "aa_id b = aid" for b
    using the_att [OF ids PBackend(2) that] PBackend(3) by simp
  then show ?thesis unfolding PBackend(1) a_backend_def by (intro excl_set_att [OF inv]) auto
next
  case (PUnknown aid a)
  have "\<not> ended (aa_state b)" if "b \<in> set (p_atts p)" "aa_id b = aid" for b
    using the_att [OF ids PUnknown(2) that] PUnknown(3) by simp
  then show ?thesis unfolding PUnknown(1) a_unknown_def by (intro excl_set_att [OF inv]) auto
next
  case (PReconciling k x)
  have "op_excl (p_atts p) (y\<lparr>ao_state := RECONCILING\<rparr>)"
    if "y \<in> set (p_ops p)" "ao_id y = k" "op_excl (p_atts p) y" for y
    using the_op [OF ids PReconciling(2) that(1,2)] PReconciling(3) that(3)
    by (auto simp: op_excl_def in_flight_def)
  then show ?thesis unfolding PReconciling(1) a_reconciling_def by (intro excl_set_op [OF inv]) auto
next
  case (PEnd aid a st x usage mv)
  then show ?thesis using excl_end [OF ids inv] by simp
next
  case (PBind k x b)
  then show ?thesis using inv by (auto simp: excl_inv_def bind_frame)
qed (use inv in \<open>auto simp: excl_inv_def\<close>)

end
