(* ===== verification/Protocol_Progress.thy ===== *)
theory Protocol_Progress
  imports Protocol_Safety
begin

text \<open>
  What a step of the abstract machine may change: terminal states, results, ended attempts,
  closed roots, limits and events are final, and counters and spending only grow. The
  invariants on completion events, results and succeeded runs follow, and the last section
  joins all groups into \<open>proto_inv\<close>.
\<close>

section \<open>Only forward\<close>

definition op_le :: "aop \<Rightarrow> aop \<Rightarrow> bool" where
  "op_le x y \<longleftrightarrow> ao_ident y = ao_ident x \<and> ao_sent x \<le> ao_sent y \<and>
     (op_terminal (ao_state x) \<longrightarrow> ao_state y = ao_state x \<and> ao_result y = ao_result x)"

definition att_le :: "aatt \<Rightarrow> aatt \<Rightarrow> bool" where
  "att_le a b \<longleftrightarrow> aa_ident b = aa_ident a \<and> (ended (aa_state a) \<longrightarrow> b = a) \<and> (aa_sent a \<longrightarrow> aa_sent b)"

definition root_le :: "aroot \<Rightarrow> aroot \<Rightarrow> bool" where
  "root_le r s \<longleftrightarrow> ar_ident s = ar_ident r \<and> ar_attempts r \<le> ar_attempts s \<and>
     (ar_state r \<noteq> RUNNING \<longrightarrow> ar_state s = ar_state r \<and> ar_result s = ar_result r)"

definition line_le :: "(int \<times> int \<times> int) option \<Rightarrow> (int \<times> int \<times> int) option \<Rightarrow> bool" where
  "line_le l m \<longleftrightarrow> (case l of None \<Rightarrow> True | Some (limit, _, spent) \<Rightarrow>
     (case m of None \<Rightarrow> False | Some (limit', _, spent') \<Rightarrow> limit' = limit \<and> spent \<le> spent'))"

text \<open>Every row of the first table has a later version in the second.\<close>

definition covers :: "('r \<Rightarrow> 'r \<Rightarrow> bool) \<Rightarrow> 'r list \<Rightarrow> 'r list \<Rightarrow> bool" where
  "covers le t u \<longleftrightarrow> (\<forall>x \<in> set t. \<exists>y \<in> set u. le x y)"

lemma covers_refl: "(\<And>x. le x x) \<Longrightarrow> covers le t t"
  by (auto simp: covers_def)

lemma covers_append: "(\<And>x. le x x) \<Longrightarrow> covers le t (t @ u)"
  by (auto simp: covers_def)

lemma covers_map: "(\<And>x. x \<in> set t \<Longrightarrow> le x (f x)) \<Longrightarrow> covers le t (map f t)"
  by (auto simp: covers_def)

lemma covers_update:
  "(\<And>x. le x x) \<Longrightarrow> (\<And>x. x \<in> set t \<Longrightarrow> c x \<Longrightarrow> le x (f x)) \<Longrightarrow> covers le t (update_rows c f t)"
  unfolding update_rows_def by (rule covers_map) simp

lemma covers_trans:
  assumes "\<And>x y z. le x y \<Longrightarrow> le y z \<Longrightarrow> le x z" and "covers le t u" and "covers le u v"
  shows "covers le t v"
  using assms unfolding covers_def by meson

lemma op_le_refl [simp]: "op_le x x" by (simp add: op_le_def)
lemma att_le_refl [simp]: "att_le x x" by (simp add: att_le_def)
lemma root_le_refl [simp]: "root_le x x" by (simp add: root_le_def)
lemma line_le_refl [simp]: "line_le l l" by (auto simp: line_le_def split: option.splits)

lemma op_le_trans: "op_le x y \<Longrightarrow> op_le y z \<Longrightarrow> op_le x z" by (auto simp: op_le_def)
lemma att_le_trans: "att_le x y \<Longrightarrow> att_le y z \<Longrightarrow> att_le x z" by (auto simp: att_le_def)
lemma root_le_trans: "root_le x y \<Longrightarrow> root_le y z \<Longrightarrow> root_le x z" by (auto simp: root_le_def)
lemma line_le_trans: "line_le l m \<Longrightarrow> line_le m n \<Longrightarrow> line_le l n"
  by (auto simp: line_le_def split: option.splits prod.splits)

lemmas covers_here [simp] =
  covers_refl [of op_le, OF op_le_refl] covers_refl [of att_le, OF att_le_refl]
  covers_refl [of root_le, OF root_le_refl] covers_append [of op_le, OF op_le_refl]
  covers_append [of att_le, OF att_le_refl] covers_append [of root_le, OF root_le_refl]

definition lines_le :: "lines \<Rightarrow> lines \<Rightarrow> bool" where
  "lines_le l m \<longleftrightarrow> (\<forall>k. line_le (l k) (m k))"

lemma lines_le_refl [simp]: "lines_le l l" by (simp add: lines_le_def)

lemma lines_le_trans: "lines_le l m \<Longrightarrow> lines_le m n \<Longrightarrow> lines_le l n"
  unfolding lines_le_def by (meson line_le_trans)

lemma lines_le_upd: "line_le (l k) v \<Longrightarrow> lines_le l (l(k := v))"
  by (simp add: lines_le_def)

definition progress :: "proto \<Rightarrow> proto \<Rightarrow> bool" where
  "progress p q \<longleftrightarrow>
     covers op_le (p_ops p) (p_ops q) \<and> covers att_le (p_atts p) (p_atts q) \<and>
     covers root_le (p_roots p) (p_roots q) \<and> lines_le (p_lines p) (p_lines q) \<and>
     set (p_events p) \<subseteq> set (p_events q) \<and> set (p_binds p) \<subseteq> set (p_binds q)"

lemma progress_refl [simp]: "progress p p"
  by (simp add: progress_def)

lemma progress_trans:
  assumes "progress p q" and "progress q s"
  shows "progress p s"
proof -
  note p = assms [unfolded progress_def]
  have "covers op_le (p_ops p) (p_ops s)" by (rule covers_trans, erule (1) op_le_trans) (use p in blast)+
  moreover have "covers att_le (p_atts p) (p_atts s)" by (rule covers_trans, erule (1) att_le_trans) (use p in blast)+
  moreover have "covers root_le (p_roots p) (p_roots s)" by (rule covers_trans, erule (1) root_le_trans) (use p in blast)+
  moreover have "lines_le (p_lines p) (p_lines s)" using p lines_le_trans by blast
  ultimately show ?thesis unfolding progress_def using p by (simp add: subset_trans [of _ "set (p_events q)"] subset_trans [of _ "set (p_binds q)"])
qed

text \<open>Progress of an update that touches one of the tables.\<close>

lemma progress_set_op:
  "(\<And>x. x \<in> set (p_ops p) \<Longrightarrow> ao_id x = k \<Longrightarrow> op_le x (f x)) \<Longrightarrow> progress p (a_set_op k f p)"
  by (simp add: progress_def covers_update)

lemma progress_set_att:
  "(\<And>a. a \<in> set (p_atts p) \<Longrightarrow> aa_id a = k \<Longrightarrow> att_le a (f a)) \<Longrightarrow> progress p (a_set_att k f p)"
  by (simp add: progress_def covers_update)

lemma progress_set_root:
  "(\<And>r. r \<in> set (p_roots p) \<Longrightarrow> ar_id r = k \<Longrightarrow> root_le r (f r)) \<Longrightarrow> progress p (a_set_root k f p)"
  by (simp add: progress_def covers_update)

lemma progress_set_line:
  "line_le (p_lines p k) v \<Longrightarrow> progress p (a_set_line k v p)"
  by (simp add: progress_def lines_le_upd)

section \<open>Adding events\<close>

lemma add_event_keys [simp]: "fst ` set (add_event e evs) = insert (fst e) (fst ` set evs)"
  by (auto simp: add_event_def)

lemma add_events_keys [simp]: "fst ` set (add_events es evs) = fst ` set es \<union> fst ` set evs"
  by (induction es arbitrary: evs) auto

lemma add_event_mono: "set evs \<subseteq> set (add_event e evs)"
  by (auto simp: add_event_def)

lemma add_events_mono: "set evs \<subseteq> set (add_events es evs)"
proof (induction es arbitrary: evs)
  case (Cons e es)
  have "set evs \<subseteq> set (add_event e evs)" by (rule add_event_mono)
  also have "\<dots> \<subseteq> set (add_events es (add_event e evs))" by (rule Cons.IH)
  finally show ?case by simp
qed simp

lemma add_events_subset: "set (add_events es evs) \<subseteq> set es \<union> set evs"
proof (induction es arbitrary: evs)
  case (Cons e es)
  have "set (add_event e evs) \<subseteq> insert e (set evs)" by (auto simp: add_event_def)
  with Cons.IH [of "add_event e evs"] show ?case by auto
qed simp

lemma add_event_distinct: "distinct (map fst evs) \<Longrightarrow> distinct (map fst (add_event e evs))"
  by (auto simp: add_event_def)

lemma add_events_distinct: "distinct (map fst evs) \<Longrightarrow> distinct (map fst (add_events es evs))"
  by (induction es arbitrary: evs) (auto simp: add_event_distinct)

lemma completion_event_id_inject [simp]: "completion_event_id b = completion_event_id c \<longleftrightarrow> b = c"
  by (simp add: completion_event_id_def)

lemma completion_id_of [simp]: "completion_id (completion_event_id b)"
  by (simp add: completion_id_def completion_event_id_def)

lemma not_completion_id [simp]: "\<not> completion_id (start_event_id r)" "\<not> completion_id (cancel_event_id r)"
  by (simp_all add: completion_id_def start_event_id_def cancel_event_id_def)

lemma fst_completion_of [simp]: "fst (completion_of b) = completion_event_id b"
  by (simp add: completion_of_def)

lemma progress_emit: "progress p (a_emit e p)"
  by (simp add: progress_def a_emit_def add_event_mono)

lemma progress_complete: "progress p (a_complete k p)"
  by (simp add: progress_def a_complete_def add_events_mono)

lemma progress_terminal: "progress p (a_terminal k st p)"
  unfolding a_terminal_def
  by (rule progress_trans [OF progress_set_op progress_complete])
    (auto simp: op_le_def a_finish_def ao_ident_def)

lemma progress_move:
  assumes ids: "ident_inv p" and op: "a_op p k = Some x" and mv: "move_allowed mv st (ao_state x)"
  shows "progress p (a_move k mv p)"
proof -
  have only: "y = x" if "y \<in> set (p_ops p)" "ao_id y = k" for y using the_op [OF ids op that] .
  show ?thesis
  proof (cases mv)
    case (Requeue st' clear)
    then show ?thesis
      using mv only by (auto simp: a_requeue_def op_le_def ao_ident_def intro!: progress_set_op)
  next
    case (Succeed ref)
    then show ?thesis
      unfolding Succeed a_move.simps a_succeed_def
      using mv Succeed only
      by (intro progress_trans [OF progress_set_op progress_complete]) (auto simp: op_le_def ao_ident_def)
  qed (simp_all add: progress_terminal)
qed

lemma progress_end:
  assumes ids: "ident_inv p" and found: "a_att p (aa_id a) = Some a" and opn: "\<not> ended (aa_state a)"
    and pos: "0 \<le> or_else usage (aa_bound a)"
  shows "progress p (a_end a st usage p)"
proof -
  let ?p1 = "a_set_att (aa_id a) (a_end_row st usage) p"
  have one: "progress p ?p1"
  proof (rule progress_set_att)
    fix b assume "b \<in> set (p_atts p)" "aa_id b = aa_id a"
    then have "b = a" using the_att [OF ids found] by blast
    then show "att_le b (a_end_row st usage b)" using opn by (simp add: att_le_def) (simp add: a_end_row_def)
  qed
  have two: "progress p (a_set_line k (Some (limit, reserved', spent + or_else usage (aa_bound a))) ?p1)"
    if "p_lines p k = Some (limit, reserved, spent)" for k limit reserved reserved' spent
    by (rule progress_trans [OF one progress_set_line]) (use that pos in \<open>simp add: line_le_def\<close>)
  have three: "progress s (a_set_root i a_over s)" for i s
    by (rule progress_set_root) (auto simp: root_le_def a_over_def ar_ident_def)
  show ?thesis
    using one two progress_trans [OF two three] by (auto simp: a_end_def Let_def split: option.splits)
qed

lemma progress_send:
  assumes ids: "ident_inv p" and found: "a_att p (aa_id a) = Some a" and opn: "\<not> ended (aa_state a)"
    and line: "p_lines p (aa_root a, aa_unit a) = Some l"
  shows "progress p (a_send a l p)"
proof -
  obtain limit reserved spent where l: "l = (limit, reserved, spent)" by (cases l)
  let ?p1 = "a_set_op (aa_op a) (\<lambda>x. x\<lparr>ao_sent := ao_sent x + 1\<rparr>) p"
  let ?p2 = "a_set_root (aa_root a) (\<lambda>r. r\<lparr>ar_attempts := ar_attempts r + 1\<rparr>) ?p1"
  let ?p3 = "a_set_line (aa_root a, aa_unit a) (Some (limit, reserved + aa_bound a, spent)) ?p2"
  have "progress p ?p1" by (rule progress_set_op) (simp add: op_le_def ao_ident_def)
  moreover have "progress ?p1 ?p2" by (rule progress_set_root) (simp add: root_le_def ar_ident_def)
  moreover have "progress ?p2 ?p3" by (rule progress_set_line) (use line l in \<open>simp add: line_le_def\<close>)
  moreover have "progress ?p3 (a_send a l p)"
    unfolding l a_send_def prod.case
  proof (rule progress_set_att)
    fix b assume "b \<in> set (p_atts ?p3)" "aa_id b = aa_id a"
    then have "b = a" using the_att [OF ids found] by simp
    then show "att_le b (b\<lparr>aa_state := SEND_INTENT, aa_compute := True, aa_budget := True, aa_sent := True\<rparr>)"
      using opn by (simp add: att_le_def aa_ident_def)
  qed
  ultimately show ?thesis by (meson progress_trans)
qed

lemma progress_append:
  "progress p (p\<lparr>p_atts := p_atts p @ as\<rparr>)" "progress p (a_new_op spec p)" "progress p (a_bind b k p)"
  by (auto simp: progress_def a_new_op_def a_bind_def)

lemma progress_new_root:
  assumes "ident_inv p" and "a_root p (rs_root_id s) = None"
  shows "progress p (a_new_root s p)"
proof -
  have "p_lines p (rs_root_id s, u) = None" for u
    using ident_inv_lineD [OF assms(1), of "rs_root_id s" u] assms(2) unfolding lookup_row_None_iff by blast
  then have "line_le (p_lines p k) (p_lines (a_new_root s p) k)" for k
    by (cases "fst k = rs_root_id s"; cases k) (simp_all add: a_new_root_def, simp add: line_le_def)
  then show ?thesis by (simp add: progress_def lines_le_def) (simp add: a_new_root_def)
qed

lemma progress_step:
  assumes step: "proto_step p q" and ids: "ident_inv p"
  shows "progress p q"
  using step
proof cases
  case (PRoot s)
  then show ?thesis using progress_new_root [OF ids] by simp
next
  case (PBind k x b)
  then show ?thesis using progress_append(3) progress_trans progress_complete by simp metis
next
  case (PReserve k x aid n)
  have "y = x" if "y \<in> set (p_ops p)" "ao_id y = ao_id x" for y
    using the_op [OF ids PReserve(2) that(1)] that(2) PReserve(2) lookup_row_Some_key by metis
  then have "\<not> op_terminal (ao_state y)" if "y \<in> set (p_ops p)" "ao_id y = ao_id x" for y
    using PReserve(3) that by (metis op_terminal.simps(4,7))
  then have "op_le y (y\<lparr>ao_state := EXECUTING, ao_active := Some aid\<rparr>)"
    if "y \<in> set (p_ops p)" "ao_id y = ao_id x" for y
    using that by (simp add: op_le_def ao_ident_def)
  then show ?thesis
    unfolding PReserve(1) a_reserve_alt
    by (intro progress_trans [OF progress_append(1) progress_set_op]) auto
next
  case (PSend aid a x r limit reserved spent)
  moreover from this have "aa_id a = aid" using lookup_row_Some_key by metis
  ultimately show ?thesis using progress_send [OF ids] by simp
next
  case (PBackend aid a)
  have "b = a" if "b \<in> set (p_atts p)" "aa_id b = aid" for b using the_att [OF ids PBackend(2) that] .
  then show ?thesis unfolding PBackend(1) a_backend_def using PBackend(3)
    by (intro progress_set_att) (auto simp: att_le_def aa_ident_def)
next
  case (PUnknown aid a)
  have "b = a" if "b \<in> set (p_atts p)" "aa_id b = aid" for b using the_att [OF ids PUnknown(2) that] .
  then show ?thesis unfolding PUnknown(1) a_unknown_def using PUnknown(3)
    by (intro progress_set_att) (auto simp: att_le_def aa_ident_def)
next
  case (PReconciling k x)
  have "y = x" if "y \<in> set (p_ops p)" "ao_id y = k" for y using the_op [OF ids PReconciling(2) that] .
  then show ?thesis unfolding PReconciling(1) a_reconciling_def using PReconciling(3)
    by (intro progress_set_op) (auto simp: op_le_def ao_ident_def)
next
  case (PEnd aid a st x usage mv)
  have "aa_id a = aid" using PEnd(2) by (rule lookup_row_Some_key)
  then have "progress p (a_end a st usage p)" using PEnd progress_end [OF ids] by simp
  moreover have "progress (a_end a st usage p) q"
    unfolding PEnd(1) using PEnd ident_inv_same [OF same_ident_end ids]
    by (intro progress_move) auto
  ultimately show ?thesis by (rule progress_trans)
next
  case (PRoots g)
  have "root_le r (g r)" if "r \<in> set (p_roots p)" for r
    using PRoots(2) [OF that] by (auto simp: root_change_def root_le_def ar_ident_def)
  then show ?thesis unfolding PRoots(1) by (simp add: progress_def covers_map)
qed (simp_all add: progress_append progress_emit progress_terminal progress_complete)

section \<open>Completion events\<close>

definition done_event :: "proto \<Rightarrow> string \<Rightarrow> bool" where
  "done_event p b \<longleftrightarrow> completion_event_id b \<in> fst ` set (p_events p)"

definition op_done :: "proto \<Rightarrow> string \<Rightarrow> bool" where
  "op_done p k \<longleftrightarrow> (\<exists>x \<in> set (p_ops p). ao_id x = k \<and> op_terminal (ao_state x))"

definition known_event :: "(string \<times> string) list \<Rightarrow> string \<times> event_payload \<Rightarrow> bool" where
  "known_event bs e \<longleftrightarrow> \<not> completion_id (fst e) \<or> (\<exists>b \<in> set bs. e = completion_of (fst b))"

text \<open>
  A binding has its completion event exactly when its operation has ended; a completion event
  is that of a binding.
\<close>

definition events_inv :: "proto \<Rightarrow> bool" where
  "events_inv p \<longleftrightarrow>
     distinct (map fst (p_events p)) \<and>
     (\<forall>b \<in> set (p_binds p). done_event p (fst b) = op_done p (snd b)) \<and>
     (\<forall>e \<in> set (p_events p). known_event (p_binds p) e)"

lemma events_invI:
  assumes "distinct (map fst (p_events p))"
    and "\<And>b. b \<in> set (p_binds p) \<Longrightarrow> done_event p (fst b) = op_done p (snd b)"
    and "\<And>e. e \<in> set (p_events p) \<Longrightarrow> known_event (p_binds p) e"
  shows "events_inv p"
  using assms by (simp add: events_inv_def)

lemma events_invD:
  assumes "events_inv p"
  shows "distinct (map fst (p_events p))"
    "\<And>b. b \<in> set (p_binds p) \<Longrightarrow> done_event p (fst b) = op_done p (snd b)"
    "\<And>e. e \<in> set (p_events p) \<Longrightarrow> known_event (p_binds p) e"
  using assms by (simp_all add: events_inv_def)

lemma set_bindings_of: "c \<in> set (bindings_of k bs) \<longleftrightarrow> (c, k) \<in> set bs"
  by (force simp: bindings_of_def)

lemma done_event_complete:
  "done_event (a_complete k p) b \<longleftrightarrow> done_event p b \<or> (b, k) \<in> set (p_binds p)"
  by (auto simp: done_event_def a_complete_def image_image set_bindings_of)

lemma done_event_emit: "\<not> completion_id (fst e) \<Longrightarrow> done_event (a_emit e p) b = done_event p b"
  by (auto simp: done_event_def a_emit_def) (metis completion_id_of)

lemma op_done_ops: "p_ops q = p_ops p \<Longrightarrow> op_done q = op_done p"
  by (simp add: op_done_def fun_eq_iff)

lemma op_done_complete [simp]: "op_done (a_complete k p) = op_done p"
  by (rule op_done_ops) simp

lemma op_done_bind [simp]: "op_done (a_bind b k p) = op_done p"
  by (rule op_done_ops) (simp add: a_bind_def)

lemma op_done_emit [simp]: "op_done (a_emit e p) = op_done p"
  by (rule op_done_ops) simp

lemma known_complete:
  assumes "\<And>e. e \<in> set (p_events q) \<Longrightarrow> known_event (p_binds q) e"
    and "e \<in> set (p_events (a_complete k q))"
  shows "known_event (p_binds q) e"
proof -
  from assms(2) have "e \<in> set (p_events q) \<or> e \<in> completion_of ` set (bindings_of k (p_binds q))"
    using add_events_subset [of "map completion_of (bindings_of k (p_binds q))" "p_events q"]
    by (auto simp: a_complete_def)
  then show ?thesis
  proof
    assume "e \<in> completion_of ` set (bindings_of k (p_binds q))"
    then obtain c where "(c, k) \<in> set (p_binds q)" "e = completion_of c" by (auto simp: set_bindings_of)
    then show ?thesis unfolding known_event_def by (metis fst_conv)
  qed (rule assms(1))
qed

lemma events_complete:
  assumes inv: "events_inv p" and same: "p_events q = p_events p" "p_binds q = p_binds p"
    and ids: "distinct (map fst (p_binds p))"
    and others: "\<And>j. j \<noteq> k \<Longrightarrow> op_done q j = op_done p j"
    and own: "op_done q k \<or> k \<notin> snd ` set (p_binds p)"
  shows "events_inv (a_complete k q)"
proof (rule events_invI)
  note old = events_invD [OF inv]
  show "distinct (map fst (p_events (a_complete k q)))"
    using old(1) same by (simp add: a_complete_def add_events_distinct)
  fix b assume "b \<in> set (p_binds (a_complete k q))"
  then have b: "b \<in> set (p_binds p)" using same by simp
  have uniq: "(fst b, k) \<in> set (p_binds p) \<Longrightarrow> snd b = k"
    using b eq_key_imp_eq_value [OF ids, of "fst b" k "snd b"] by simp
  have "done_event q (fst b) = op_done p (snd b)"
    using old(2) [OF b] same by (simp add: done_event_def)
  show "done_event (a_complete k q) (fst b) = op_done (a_complete k q) (snd b)"
  proof (cases "snd b = k")
    case True
    then have "k \<in> snd ` set (p_binds p)" using b by auto
    then have "op_done q k" using own by simp
    then show ?thesis using True b same by (cases b) (simp add: done_event_complete)
  next
    case False
    then show ?thesis
      using uniq \<open>done_event q (fst b) = op_done p (snd b)\<close>
        others same by (auto simp: done_event_complete)
  qed
next
  fix e assume "e \<in> set (p_events (a_complete k q))"
  then show "known_event (p_binds (a_complete k q)) e"
    using known_complete [of q] events_invD(3) [OF inv] same by simp
qed

lemma events_frame:
  assumes "events_inv p" and "p_events q = p_events p" "p_binds q = p_binds p"
    and "\<And>k. k \<in> snd ` set (p_binds p) \<Longrightarrow> op_done q k = op_done p k"
  shows "events_inv q"
  using assms by (simp add: events_inv_def done_event_def)

lemma bex_update_rows:
  "(\<exists>r \<in> set (update_rows p f t). Q r) \<longleftrightarrow> (\<exists>r \<in> set t. Q (if p r then f r else r))"
  by (induction t) auto

lemma op_done_set_op:
  assumes "\<And>x. ao_id (f x) = ao_id x" and "j \<noteq> k"
  shows "op_done (a_set_op k f p) j = op_done p j"
proof -
  have "(ao_id (if ao_id x = k then f x else x) = j \<and> op_terminal (ao_state (if ao_id x = k then f x else x)))
      = (ao_id x = j \<and> op_terminal (ao_state x))" for x using assms by auto
  then show ?thesis by (simp only: op_done_def a_set_rows bex_update_rows)
qed

lemma op_done_own:
  assumes "\<And>x. ao_id (f x) = ao_id x" and "\<And>x. op_terminal (ao_state (f x))" and "k \<in> ao_id ` set (p_ops p)"
  shows "op_done (a_set_op k f p) k"
  using assms by (force simp: op_done_def set_update_rows)

lemma op_done_same:
  assumes "\<And>x. ao_id (f x) = ao_id x"
    and "\<And>x. x \<in> set (p_ops p) \<Longrightarrow> ao_id x = j \<Longrightarrow> op_terminal (ao_state (f x)) = op_terminal (ao_state x)"
  shows "op_done (a_set_op j f p) = op_done p"
proof
  fix k
  have "(ao_id (if ao_id x = j then f x else x) = k \<and> op_terminal (ao_state (if ao_id x = j then f x else x)))
      = (ao_id x = k \<and> op_terminal (ao_state x))" if "x \<in> set (p_ops p)" for x using assms that by auto
  then show "op_done (a_set_op j f p) k = op_done p k"
    unfolding op_done_def a_set_rows bex_update_rows by (rule bex_cong [OF refl])
qed

lemma events_terminal:
  assumes ids: "ident_inv p" and inv: "events_inv p" and st: "op_terminal st"
  shows "events_inv (a_terminal k st p)"
  unfolding a_terminal_def
proof (rule events_complete [OF inv _ _ ident_inv_distinct(4) [OF ids]])
  show "op_done (a_set_op k (a_finish st) p) k \<or> k \<notin> snd ` set (p_binds p)"
  proof (cases "k \<in> ao_id ` set (p_ops p)")
    case True
    then show ?thesis using st by (intro disjI1 op_done_own) (auto simp: a_finish_def)
  next
    case False
    then show ?thesis using ident_inv_bindD [OF ids] by blast
  qed
  show "op_done (a_set_op k (a_finish st) p) j = op_done p j" if "j \<noteq> k" for j
    using that by (intro op_done_set_op) (simp_all add: a_finish_def)
qed simp_all

lemma events_succeed:
  assumes ids: "ident_inv p" and inv: "events_inv p" and op: "a_op p k = Some x"
  shows "events_inv (a_succeed k ref p)"
  unfolding a_succeed_def
proof (rule events_complete [OF inv _ _ ident_inv_distinct(4) [OF ids]])
  let ?f = "\<lambda>x. x\<lparr>ao_state := SUCCEEDED, ao_result := Some ref\<rparr>"
  have "k \<in> ao_id ` set (p_ops p)" using op by (auto dest: lookup_row_Some_in lookup_row_Some_key)
  then show "op_done (a_set_op k ?f p) k \<or> k \<notin> snd ` set (p_binds p)"
    by (intro disjI1 op_done_own) auto
  show "op_done (a_set_op k ?f p) j = op_done p j" if "j \<noteq> k" for j
    using that by (intro op_done_set_op) simp_all
qed simp_all

lemma events_move:
  assumes ids: "ident_inv p" and inv: "events_inv p" and op: "a_op p k = Some x"
    and mv: "move_allowed mv st (ao_state x)"
  shows "events_inv (a_move k mv p)"
proof (cases mv)
  case (Requeue st' clear)
  have "op_done (a_requeue k st' clear p) = op_done p"
    unfolding a_requeue_def using mv Requeue the_op [OF ids op] by (intro op_done_same) auto
  then show ?thesis unfolding Requeue using inv
    by (intro events_frame [OF inv]) (simp_all add: a_requeue_def)
next
  case (Finish st')
  then show ?thesis using mv events_terminal [OF ids inv] by auto
next
  case (Succeed ref)
  then show ?thesis using events_succeed [OF ids inv op] by simp
qed (use inv in simp)

lemma op_done_lookup:
  assumes "ident_inv p" and "a_op p k = Some x"
  shows "op_done p k = op_terminal (ao_state x)"
  using assms(2) the_op [OF assms]
  by (auto simp: op_done_def dest: lookup_row_Some_in lookup_row_Some_key)

text \<open>A fresh binding has no event yet.\<close>

lemma fresh_not_done:
  assumes "events_inv p" and "b \<notin> fst ` set (p_binds p)"
  shows "\<not> done_event p b"
proof
  assume "done_event p b"
  then obtain e where e: "e \<in> set (p_events p)" "fst e = completion_event_id b"
    by (auto simp: done_event_def)
  with events_invD(3) [OF assms(1)] have "known_event (p_binds p) e" by blast
  with e obtain c where "c \<in> set (p_binds p)" "e = completion_of (fst c)" by (auto simp: known_event_def)
  with e assms(2) show False by auto
qed

lemma events_add_bind:
  assumes ids: "ident_inv p" and inv: "events_inv p" and op: "a_op p k = Some x"
    and live: "\<not> op_terminal (ao_state x)"
  shows "events_inv (a_bind b k p)"
proof (cases "b \<in> fst ` set (p_binds p)")
  case False
  then have q: "p_binds (a_bind b k p) = p_binds p @ [(b, k)]" "p_events (a_bind b k p) = p_events p"
    by (simp_all add: a_bind_def)
  then show ?thesis
    using inv fresh_not_done [OF inv False] op_done_lookup [OF ids op] live
    by (auto simp: events_inv_def done_event_def known_event_def)
qed (use inv in \<open>simp add: a_bind_def\<close>)

lemma events_bind_complete:
  assumes ids: "ident_inv p" and inv: "events_inv p" and op: "a_op p k = Some x"
    and over: "op_terminal (ao_state x)"
  shows "events_inv (a_complete k (a_bind b k p))"
proof (rule events_invI)
  let ?q = "a_bind b k p"
  note old = events_invD [OF inv]
  have done_k: "op_done p k" using op_done_lookup [OF ids op] over by simp
  have q: "p_events ?q = p_events p" by (simp add: a_bind_def)
  have binds: "set (p_binds ?q) = set (p_binds p) \<or>
      b \<notin> fst ` set (p_binds p) \<and> set (p_binds ?q) = insert (b, k) (set (p_binds p))"
    by (simp add: a_bind_def)
  show "distinct (map fst (p_events (a_complete k ?q)))"
    using old(1) q by (simp add: a_complete_def add_events_distinct)
  fix c assume "c \<in> set (p_binds (a_complete k ?q))"
  then consider "c \<in> set (p_binds p)" | "c = (b, k)" using binds by auto
  then show "done_event (a_complete k ?q) (fst c) = op_done (a_complete k ?q) (snd c)"
  proof cases
    case 1
    then have "(fst c, k) \<in> set (p_binds ?q) \<Longrightarrow> snd c = k"
      using binds eq_key_imp_eq_value [OF ident_inv_distinct(4) [OF ids], of "fst c" k "snd c"]
      by (auto simp: image_iff)
    moreover have "done_event ?q (fst c) = op_done p (snd c)"
      using old(2) [OF 1] q by (simp add: done_event_def)
    ultimately show ?thesis using done_k by (auto simp: done_event_complete)
  next
    case 2
    moreover have "(b, k) \<in> set (p_binds ?q) \<or> b \<in> fst ` set (p_binds p)"
      by (simp add: a_bind_def)
    ultimately show ?thesis
      using \<open>c \<in> set (p_binds (a_complete k ?q))\<close> done_k q by (auto simp: done_event_complete)
  qed
next
  let ?q = "a_bind b k p"
  have "known_event (p_binds ?q) e" if "e \<in> set (p_events ?q)" for e
  proof -
    have "e \<in> set (p_events p)" using that by (simp add: bind_frame)
    moreover have "set (p_binds p) \<subseteq> set (p_binds ?q)" by (auto simp: a_bind_def)
    ultimately show ?thesis using events_invD(3) [OF inv] unfolding known_event_def by blast
  qed
  then show "known_event (p_binds (a_complete k ?q)) e" if "e \<in> set (p_events (a_complete k ?q))" for e
    using known_complete [of ?q] that by simp
qed

lemma events_emit:
  assumes inv: "events_inv p" and "\<not> completion_id (fst e)"
  shows "events_inv (a_emit e p)"
proof (rule events_invI)
  note old = events_invD [OF inv]
  show "distinct (map fst (p_events (a_emit e p)))"
    using old(1) by (simp add: a_emit_def add_event_distinct)
  show "done_event (a_emit e p) (fst b) = op_done (a_emit e p) (snd b)"
    if "b \<in> set (p_binds (a_emit e p))" for b
    using old(2) that assms(2) by (simp add: done_event_emit)
  show "known_event (p_binds (a_emit e p)) d" if "d \<in> set (p_events (a_emit e p))" for d
  proof (cases "d = e")
    case True
    then show ?thesis using assms(2) by (simp add: known_event_def)
  next
    case False
    then have "d \<in> set (p_events p)" using that by (auto simp: a_emit_def add_event_def split: if_splits)
    then show ?thesis using old(3) by simp
  qed
qed

lemma events_step:
  assumes step: "proto_step p q" and ids: "ident_inv p" and inv: "events_inv p"
  shows "events_inv q"
  using step
proof cases
  case (POp spec r)
  have "op_done q j = op_done p j" if "j \<in> snd ` set (p_binds p)" for j
  proof -
    have "j \<noteq> os_operation_id spec"
      using that POp(2) ident_inv_bindD [OF ids] by (auto simp: lookup_row_None_iff)
    then show ?thesis unfolding POp(1) by (simp add: op_done_def a_new_op_def)
  qed
  then show ?thesis by (intro events_frame [OF inv]) (simp_all add: POp(1) new_op_frame)
next
  case (PBind k x b)
  then show ?thesis
    using events_bind_complete [OF ids inv] events_add_bind [OF ids inv] by simp
next
  case (PEvent e pl)
  then show ?thesis using events_emit [OF inv] by simp
next
  case (PTerminal st k)
  then show ?thesis using events_terminal [OF ids inv] by auto
next
  case (PComplete k x)
  then show ?thesis
    using events_complete [OF inv _ _ ident_inv_distinct(4) [OF ids], of p k] op_done_lookup [OF ids] by simp
next
  case (PReserve k x aid n)
  have "y = x" if "y \<in> set (p_ops p)" "ao_id y = ao_id x" for y
    using the_op [OF ids PReserve(2) that(1)] that(2) PReserve(2) lookup_row_Some_key by metis
  then have "\<not> op_terminal (ao_state y)" if "y \<in> set (p_ops p)" "ao_id y = ao_id x" for y
    using PReserve(3) that by (metis op_terminal.simps(4,7))
  then have "op_done (a_set_op (ao_id x) (\<lambda>x. x\<lparr>ao_state := EXECUTING, ao_active := Some aid\<rparr>) p) = op_done p"
    by (intro op_done_same) auto
  moreover have "op_done (a_reserve aid n x p)
      = op_done (a_set_op (ao_id x) (\<lambda>x. x\<lparr>ao_state := EXECUTING, ao_active := Some aid\<rparr>) p)"
    by (rule op_done_ops) simp
  ultimately show ?thesis unfolding PReserve(1) by (intro events_frame [OF inv]) simp_all
next
  case (PSend aid a x r limit reserved spent)
  have "op_done (a_send a (limit, reserved, spent) p)
      = op_done (a_set_op (aa_op a) (\<lambda>x. x\<lparr>ao_sent := ao_sent x + 1\<rparr>) p)"
    by (rule op_done_ops) simp
  also have "\<dots> = op_done p" by (rule op_done_same) simp_all
  finally show ?thesis unfolding PSend(1) by (intro events_frame [OF inv]) simp_all
next
  case (PReconciling k x)
  have "y = x" if "y \<in> set (p_ops p)" "ao_id y = k" for y using the_op [OF ids PReconciling(2) that] .
  then have "op_done (a_reconciling k p) = op_done p"
    unfolding a_reconciling_def using PReconciling(3) by (intro op_done_same) auto
  then show ?thesis unfolding PReconciling(1) by (intro events_frame [OF inv]) simp_all
next
  case (PEnd aid a st x usage mv)
  have "op_done (a_end a st usage p) = op_done p" by (rule op_done_ops) simp
  then have "events_inv (a_end a st usage p)" by (intro events_frame [OF inv]) simp_all
  then show ?thesis
    unfolding PEnd(1) using PEnd ident_inv_same [OF same_ident_end ids] by (intro events_move) auto
next
  case (PRoots g)
  have "op_done q = op_done p" unfolding PRoots(1) by (rule op_done_ops) simp
  then show ?thesis unfolding PRoots(1) by (intro events_frame [OF inv]) simp_all
next
  case (PRoot s)
  have "op_done q = op_done p" unfolding PRoot(1) by (rule op_done_ops) simp
  then show ?thesis unfolding PRoot(1) by (intro events_frame [OF inv]) simp_all
next
  case (PBackend aid a)
  have "op_done q = op_done p" unfolding PBackend(1) by (rule op_done_ops) simp
  then show ?thesis unfolding PBackend(1) by (intro events_frame [OF inv]) simp_all
next
  case (PUnknown aid a)
  have "op_done q = op_done p" unfolding PUnknown(1) by (rule op_done_ops) simp
  then show ?thesis unfolding PUnknown(1) by (intro events_frame [OF inv]) simp_all
qed

section \<open>Results\<close>

definition op_result_ok :: "aatt list \<Rightarrow> aop \<Rightarrow> bool" where
  "op_result_ok as x \<longleftrightarrow>
     (ao_state x = SUCCEEDED \<longleftrightarrow> ao_result x \<noteq> None) \<and>
     (ao_state x = SUCCEEDED \<longrightarrow>
        (\<exists>a \<in> set as. aa_op a = ao_id x \<and> aa_state a = RESULT_COMMITTED))"

definition results_inv :: "proto \<Rightarrow> bool" where
  "results_inv p \<longleftrightarrow> (\<forall>x \<in> set (p_ops p). op_result_ok (p_atts p) x)"

text \<open>A committed attempt stays what it is.\<close>

lemma result_covers:
  assumes "op_result_ok as x" and "covers att_le as bs"
  shows "op_result_ok bs x"
proof -
  have "\<exists>b \<in> set bs. aa_op b = k \<and> aa_state b = RESULT_COMMITTED"
    if "a \<in> set as" "aa_op a = k" "aa_state a = RESULT_COMMITTED" for a k
  proof -
    obtain b where "b \<in> set bs" "att_le a b" using assms(2) \<open>a \<in> set as\<close> by (auto simp: covers_def)
    then show ?thesis using that by (auto simp: att_le_def)
  qed
  then show ?thesis using assms(1) unfolding op_result_ok_def by blast
qed

lemma results_frame:
  assumes inv: "results_inv p" and prog: "progress p q"
    and ops: "\<And>x. x \<in> set (p_ops q) \<Longrightarrow> op_result_ok (p_atts q) x \<or>
      (\<exists>y \<in> set (p_ops p). ao_id x = ao_id y \<and> ao_result x = ao_result y \<and>
         (ao_state x = SUCCEEDED \<longleftrightarrow> ao_state y = SUCCEEDED))"
  shows "results_inv q"
  unfolding results_inv_def
proof
  fix x assume "x \<in> set (p_ops q)"
  from ops [OF this] show "op_result_ok (p_atts q) x"
  proof
    assume "\<exists>y \<in> set (p_ops p). ao_id x = ao_id y \<and> ao_result x = ao_result y \<and>
         (ao_state x = SUCCEEDED \<longleftrightarrow> ao_state y = SUCCEEDED)"
    then obtain y where y: "y \<in> set (p_ops p)" "ao_id x = ao_id y" "ao_result x = ao_result y"
      "ao_state x = SUCCEEDED \<longleftrightarrow> ao_state y = SUCCEEDED" by blast
    then have "op_result_ok (p_atts q) y"
      using inv prog by (auto simp: results_inv_def progress_def intro: result_covers)
    then show ?thesis using y by (simp add: op_result_ok_def)
  qed
qed

lemma results_step:
  assumes step: "proto_step p q" and ids: "ident_inv p" and inv: "results_inv p"
  shows "results_inv q"
proof -
  have prog: "progress p q" using step ids by (rule progress_step)
  have set_op: "results_inv q"
    if "p_ops q = update_rows (\<lambda>y. ao_id y = k) f (p_ops p)"
      and "\<And>y. y \<in> set (p_ops p) \<Longrightarrow> ao_id y = k \<Longrightarrow> ao_id (f y) = k \<and> ao_result (f y) = ao_result y \<and>
        (ao_state (f y) = SUCCEEDED \<longleftrightarrow> ao_state y = SUCCEEDED)" for k f
    by (rule results_frame [OF inv prog]) (use that in \<open>auto simp: set_update_rows split: if_splits\<close>)
  have same: "results_inv q" if "p_ops q = p_ops p"
    by (rule results_frame [OF inv prog]) (use that in auto)
  show ?thesis
    using step
  proof cases
    case (POp spec r)
    show ?thesis
      by (rule results_frame [OF inv prog]) (auto simp: POp(1) a_new_op_def op_result_ok_def)
  next
    case (PTerminal st k)
    then show ?thesis by (intro set_op [of k "a_finish st"]) (auto simp: a_finish_def)
  next
    case (PReserve k x aid n)
    have "y = x" if "y \<in> set (p_ops p)" "ao_id y = ao_id x" for y
      using the_op [OF ids PReserve(2) that(1)] that(2) PReserve(2) lookup_row_Some_key by metis
    then have "ao_state y = READY \<or> ao_state y = RETRY_WAIT" if "y \<in> set (p_ops p)" "ao_id y = ao_id x" for y
      using PReserve(3) that by metis
    then show ?thesis
      by (intro set_op [of "ao_id x" "\<lambda>x. x\<lparr>ao_state := EXECUTING, ao_active := Some aid\<rparr>"])
        (fastforce simp: PReserve(1))+
  next
    case (PSend aid a x r limit reserved spent)
    then show ?thesis by (intro set_op [of "aa_op a" "\<lambda>x. x\<lparr>ao_sent := ao_sent x + 1\<rparr>"]) auto
  next
    case (PReconciling k x)
    have "y = x" if "y \<in> set (p_ops p)" "ao_id y = k" for y using the_op [OF ids PReconciling(2) that] .
    then show ?thesis using PReconciling
      by (intro set_op [of k "\<lambda>x. x\<lparr>ao_state := RECONCILING\<rparr>"]) (auto simp: a_reconciling_def)
  next
    case (PEnd aid a st x usage mv)
    have only: "y = x" if "y \<in> set (p_ops p)" "ao_id y = aa_op a" for y using the_op [OF ids PEnd(5) that] .
    show ?thesis
    proof (cases mv)
      case Stay
      then show ?thesis using PEnd by (intro same) simp
    next
      case (Requeue st' clear)
      then show ?thesis using PEnd only
        by (intro set_op [of "aa_op a"
              "\<lambda>x. x\<lparr>ao_state := st', ao_active := (if clear then None else ao_active x)\<rparr>"])
          (auto simp: a_requeue_def)
    next
      case (Finish st')
      then show ?thesis using PEnd by (intro set_op [of "aa_op a" "a_finish st'"]) (auto simp: a_finish_def)
    next
      case (Succeed ref)
      have "a \<in> set (p_atts p)" "aa_id a = aid"
        using PEnd(2) by (auto dest: lookup_row_Some_in lookup_row_Some_key)
      then have "a_end_row st usage a \<in> set (p_atts q)"
        unfolding PEnd(1) by (auto simp: set_update_rows)
      moreover have "aa_op (a_end_row st usage a) = aa_op a" "aa_state (a_end_row st usage a) = RESULT_COMMITTED"
        using PEnd Succeed by (simp_all add: a_end_row_def)
      ultimately have "op_result_ok (p_atts q) (y\<lparr>ao_state := SUCCEEDED, ao_result := Some ref\<rparr>)"
        if "ao_id y = aa_op a" for y using that by (auto simp: op_result_ok_def)
      then show ?thesis
        by (intro results_frame [OF inv prog])
          (auto simp: PEnd(1) Succeed a_succeed_def set_update_rows)
    qed
  qed (rule same, simp add: bind_frame)+
qed

section \<open>Runs that succeeded\<close>

definition runs_inv :: "proto \<Rightarrow> bool" where
  "runs_inv p \<longleftrightarrow> (\<forall>r \<in> set (p_roots p). ar_state r = ROOT_SUCCEEDED \<longrightarrow>
     (\<forall>x \<in> set (p_ops p). ao_root x = ar_id r \<longrightarrow> op_terminal (ao_state x)))"

text \<open>Every operation after a step was there before or belongs to a running root.\<close>

lemma step_ops:
  assumes step: "proto_step p q" and ids: "ident_inv p" and x: "x \<in> set (p_ops q)"
  shows "(\<exists>y \<in> set (p_ops p). op_le y x) \<or>
    (\<exists>r \<in> set (p_roots q). ar_id r = ao_root x \<and> ar_state r = RUNNING)"
proof -
  have prog: "progress p q" and idq: "ident_inv q"
    using step ids by (auto intro: progress_step ident_inv_step)
  show ?thesis
  proof (cases "ao_id x \<in> ao_id ` set (p_ops p)")
    case True
    then obtain y where y: "y \<in> set (p_ops p)" "ao_id y = ao_id x" by auto
    then obtain z where z: "z \<in> set (p_ops q)" "op_le y z"
      using prog by (auto simp: progress_def covers_def)
    then have "z = x"
      using distinct_lookup_unique [OF ident_inv_distinct(2) [OF idq] z(1) x] y
      by (simp add: op_le_def ao_ident_def)
    with y z show ?thesis by blast
  next
    case False
    have keys: ?thesis if "map ao_id (p_ops q) = map ao_id (p_ops p)"
    proof -
      have "ao_id x \<in> set (map ao_id (p_ops q))" using x by simp
      then show ?thesis unfolding that using False by simp
    qed
    have same: ?thesis if "same_ident p q" by (rule keys [OF same_ident_keys(2) [OF that]])
    show ?thesis
      using step
    proof cases
      case (POp spec r)
      then have "ao_root x = os_root_id spec" using x False by (auto simp: a_new_op_def)
      moreover have "r \<in> set (p_roots q)" "ar_id r = os_root_id spec"
        using POp by (auto simp: new_op_frame dest: lookup_row_Some_in lookup_row_Some_key)
      ultimately show ?thesis using POp(5) by auto
    next
      case (PReserve k y aid n)
      then show ?thesis by (intro keys) simp
    next
      case (PSend aid a y r limit reserved spent)
      then show ?thesis by (intro keys) simp
    next
      case (PTerminal st k)
      then show ?thesis by (intro same) simp
    next
      case (PReconciling k y)
      then show ?thesis by (intro same) simp
    next
      case (PEnd aid a st y usage mv)
      then show ?thesis by (intro same) (simp add: same_ident_trans [OF same_ident_end same_ident_move])
    qed (use False x in \<open>auto simp: bind_frame split: if_splits\<close>)
  qed
qed

lemma runs_step:
  assumes step: "proto_step p q" and ids: "ident_inv p" and inv: "runs_inv p"
  shows "runs_inv q"
  unfolding runs_inv_def
proof (intro ballI impI)
  fix r x assume r: "r \<in> set (p_roots q)" "ar_state r = ROOT_SUCCEEDED"
    and x: "x \<in> set (p_ops q)" "ao_root x = ar_id r"
  have idq: "ident_inv q" using step ids by (rule ident_inv_step)
  have "\<not> (\<exists>s \<in> set (p_roots q). ar_id s = ao_root x \<and> ar_state s = RUNNING)"
    using distinct_lookup_unique [OF ident_inv_distinct(1) [OF idq] _ r(1)] r(2) x(2)
    by (metis root_state.distinct(1))
  with step_ops [OF step ids x(1)] obtain y where y: "y \<in> set (p_ops p)" "op_le y x" by blast
  then have root: "ao_root y = ar_id r" using x(2) by (simp add: op_le_def ao_ident_def)
  show "op_terminal (ao_state x)"
    using step
  proof cases
    case (PRoots g)
    then obtain s where s: "s \<in> set (p_roots p)" "r = g s" using r by auto
    then have "root_change p s r" using PRoots(2) by simp
    then have "(\<exists>s \<in> set (p_roots p). ar_id s = ar_id r \<and> ar_state s = ROOT_SUCCEEDED) \<or> op_terminal (ao_state y)"
      using s r y root by (auto simp: root_change_def)
    then show ?thesis using inv y root by (auto simp: runs_inv_def op_le_def)
  next
    case (PEnd aid a st z usage mv)
    have "\<exists>s \<in> set (p_roots p). ar_id s = ar_id r \<and> ar_state s = ROOT_SUCCEEDED"
      using r unfolding PEnd(1)
      by (auto simp: a_end_def Let_def a_over_def set_update_rows split: option.splits if_splits prod.splits)
    then show ?thesis using inv y root by (auto simp: runs_inv_def op_le_def)
  next
    case (PSend aid a z s limit reserved spent)
    have "\<exists>s \<in> set (p_roots p). ar_id s = ar_id r \<and> ar_state s = ROOT_SUCCEEDED"
      using r unfolding PSend(1) by (auto simp: set_update_rows split: if_splits)
    then show ?thesis using inv y root by (auto simp: runs_inv_def op_le_def)
  qed (use r inv y root in \<open>auto simp: runs_inv_def op_le_def bind_frame new_op_frame a_new_root_def split: if_splits\<close>)
qed

section \<open>The invariant\<close>

definition proto_inv :: "proto \<Rightarrow> bool" where
  "proto_inv p \<longleftrightarrow> ident_inv p \<and> shapes_inv p \<and> lines_inv p \<and> sends_inv p \<and> excl_inv p \<and>
     events_inv p \<and> results_inv p \<and> runs_inv p"

lemma proto_inv_step: "proto_step p q \<Longrightarrow> proto_inv p \<Longrightarrow> proto_inv q"
  unfolding proto_inv_def
  using ident_inv_step shapes_step lines_step sends_step excl_step events_step results_step runs_step
  by metis

lemma proto_inv_empty: "proto_inv empty_proto"
  by (simp add: proto_inv_def ident_inv_def ids_distinct_def roots_ok_def refs_ok_def numbers_ok_def
      shapes_inv_def lines_inv_def sends_inv_def excl_inv_def events_inv_def results_inv_def runs_inv_def
      empty_proto_def)

text \<open>Sequences of steps: what a transaction of the store refines.\<close>

inductive proto_path :: "proto \<Rightarrow> proto \<Rightarrow> bool" where
  path_none [intro]: "proto_path p p"
| path_step: "proto_path p q \<Longrightarrow> proto_step q s \<Longrightarrow> proto_path p s"

lemma proto_path_one [intro]: "proto_step p q \<Longrightarrow> proto_path p q"
  by (rule path_step [OF path_none])

lemma proto_path_trans:
  assumes "proto_path q s" and "proto_path p q"
  shows "proto_path p s"
  using assms by (induction rule: proto_path.induct) (auto intro: path_step)

lemma proto_path_inv: "proto_path p q \<Longrightarrow> proto_inv p \<Longrightarrow> proto_inv q"
  by (induction rule: proto_path.induct) (auto dest: proto_inv_step)

lemma proto_path_progress: "proto_path p q \<Longrightarrow> proto_inv p \<Longrightarrow> progress p q"
proof (induction rule: proto_path.induct)
  case (path_step p q s)
  then have "ident_inv q" using proto_path_inv by (auto simp: proto_inv_def)
  with path_step show ?case by (auto intro: progress_trans progress_step)
qed simp

end
