(* ===== verification/Ledger_Abs.thy ===== *)
theory Ledger_Abs
  imports Ledger_Reconcile Protocol_Progress
begin

text \<open>
  The abstraction of the ledger onto the machine of \<open>Protocol\<close>, and what each statement of
  the store becomes under it.
\<close>

section \<open>Abstraction\<close>

definition abs_root :: "root_row \<Rightarrow> aroot" where
  "abs_root r =
     \<lparr>ar_id = root_id r, ar_tenant = root_tenant_id r, ar_spec = root_spec_of r,
      ar_state = root_state r, ar_cancel = root_cancel_requested r, ar_attempts = root_attempts r,
      ar_result = root_result r, ar_reason = root_terminal_reason r\<rparr>"

definition abs_op :: "op_row \<Rightarrow> aop" where
  "abs_op x =
     \<lparr>ao_id = op_id x, ao_root = op_root_id x, ao_spec = op_spec x, ao_state = op_state x,
      ao_sent = op_attempts x, ao_active = op_active_attempt x, ao_result = op_result x\<rparr>"

definition root_of_op :: "op_row list \<Rightarrow> string \<Rightarrow> string" where
  "root_of_op ops k = (case lookup_row op_id k ops of None \<Rightarrow> [] | Some x \<Rightarrow> op_root_id x)"

definition abs_att :: "op_row list \<Rightarrow> attempt_row \<Rightarrow> aatt" where
  "abs_att ops a =
     \<lparr>aa_id = att_id a, aa_op = att_operation_id a, aa_root = root_of_op ops (att_operation_id a),
      aa_number = att_number a, aa_state = att_state a, aa_compute = att_compute_held a,
      aa_budget = att_budget_held a, aa_bound = att_budget_bound a, aa_unit = att_budget_unit a,
      aa_usage = att_usage a, aa_sent = (att_send_intent_at a \<noteq> None)\<rparr>"

definition abs_bind :: "binding_row \<Rightarrow> string \<times> string" where
  "abs_bind b = (bind_id b, bind_operation_id b)"

definition abs_event :: "event_row \<Rightarrow> string \<times> event_payload" where
  "abs_event e = (ev_id e, ev_payload e)"

definition abs_lines :: "root_row list \<Rightarrow> budget_row list \<Rightarrow> lines" where
  "abs_lines roots buds =
     (\<lambda>(rid, u). if u = Tokens
        then map_option (\<lambda>r. (root_budget_limit r, root_reserved r, root_spent r)) (lookup_row root_id rid roots)
        else map_option (\<lambda>b. (bud_limit b, bud_reserved b, bud_spent b)) (lookup_row bud_key (rid, u) buds))"

definition abs_ledger :: "ledger \<Rightarrow> proto" where
  "abs_ledger L =
     \<lparr>p_roots = map abs_root (t_roots L), p_ops = map abs_op (t_ops L),
      p_atts = map (abs_att (t_ops L)) (t_attempts L), p_lines = abs_lines (t_roots L) (t_budgets L),
      p_binds = map abs_bind (t_bindings L), p_events = map abs_event (t_outbox L)\<rparr>"

lemma abs_ledger_sel [simp]:
  "p_roots (abs_ledger L) = map abs_root (t_roots L)" "p_ops (abs_ledger L) = map abs_op (t_ops L)"
  "p_atts (abs_ledger L) = map (abs_att (t_ops L)) (t_attempts L)"
  "p_lines (abs_ledger L) = abs_lines (t_roots L) (t_budgets L)"
  "p_binds (abs_ledger L) = map abs_bind (t_bindings L)"
  "p_events (abs_ledger L) = map abs_event (t_outbox L)"
  by (simp_all add: abs_ledger_def)

lemma abs_sel [simp]:
  "ar_id (abs_root r) = root_id r" "ar_tenant (abs_root r) = root_tenant_id r"
  "ar_spec (abs_root r) = root_spec_of r" "ar_state (abs_root r) = root_state r"
  "ar_cancel (abs_root r) = root_cancel_requested r" "ar_attempts (abs_root r) = root_attempts r"
  "ar_result (abs_root r) = root_result r" "ar_reason (abs_root r) = root_terminal_reason r"
  "ao_id (abs_op x) = op_id x" "ao_root (abs_op x) = op_root_id x" "ao_spec (abs_op x) = op_spec x"
  "ao_state (abs_op x) = op_state x" "ao_sent (abs_op x) = op_attempts x"
  "ao_active (abs_op x) = op_active_attempt x" "ao_result (abs_op x) = op_result x"
  "aa_id (abs_att ops a) = att_id a" "aa_op (abs_att ops a) = att_operation_id a"
  "aa_root (abs_att ops a) = root_of_op ops (att_operation_id a)"
  "aa_number (abs_att ops a) = att_number a" "aa_state (abs_att ops a) = att_state a"
  "aa_compute (abs_att ops a) = att_compute_held a" "aa_budget (abs_att ops a) = att_budget_held a"
  "aa_bound (abs_att ops a) = att_budget_bound a" "aa_unit (abs_att ops a) = att_budget_unit a"
  "aa_usage (abs_att ops a) = att_usage a" "aa_sent (abs_att ops a) = (att_send_intent_at a \<noteq> None)"
  "fst (abs_bind b) = bind_id b" "snd (abs_bind b) = bind_operation_id b"
  "fst (abs_event e) = ev_id e" "snd (abs_event e) = ev_payload e"
  by (simp_all add: abs_root_def abs_op_def abs_att_def abs_bind_def abs_event_def)

lemma proto_eqI:
  "p_roots p = p_roots q \<Longrightarrow> p_ops p = p_ops q \<Longrightarrow> p_atts p = p_atts q \<Longrightarrow> p_lines p = p_lines q \<Longrightarrow>
   p_binds p = p_binds q \<Longrightarrow> p_events p = p_events q \<Longrightarrow> p = (q :: proto)"
  by (cases p; cases q) simp

section \<open>Lookups\<close>

lemma lookup_map: "(\<And>r. key' (f r) = key r) \<Longrightarrow> lookup_row key' k (map f t) = map_option f (lookup_row key k t)"
  by (induction t) auto

lemma abs_lookup [simp]:
  "lookup_row ar_id k (map abs_root t) = map_option abs_root (lookup_row root_id k t)"
  "lookup_row ao_id k (map abs_op u) = map_option abs_op (lookup_row op_id k u)"
  "lookup_row aa_id k (map (abs_att ops) v) = map_option (abs_att ops) (lookup_row att_id k v)"
  by (rule lookup_map, simp)+

lemma abs_budget_line: "abs_lines (t_roots L) (t_budgets L) (rid, u) = budget_line L rid u"
  by (simp add: abs_lines_def budget_line_def)

lemma budget_line_same:
  "t_roots M = t_roots L \<Longrightarrow> t_budgets M = t_budgets L \<Longrightarrow> budget_line M rid u = budget_line L rid u"
  by (simp add: budget_line_def)

lemma root_of_op_update:
  assumes "\<And>x. op_id (f x) = op_id x" and "\<And>x. op_root_id (f x) = op_root_id x"
  shows "root_of_op (update_rows c f ops) = root_of_op ops"
proof
  fix k
  have "lookup_row op_id k (update_rows c f ops) =
      map_option (\<lambda>x. if c x then f x else x) (lookup_row op_id k ops)"
    using assms by (simp add: lookup_update_rows)
  then show "root_of_op (update_rows c f ops) k = root_of_op ops k"
    using assms by (auto simp: root_of_op_def split: option.splits)
qed

lemma abs_att_ops: "root_of_op ops = root_of_op ops' \<Longrightarrow> abs_att ops = abs_att ops'"
  by (simp add: abs_att_def fun_eq_iff)

section \<open>Statements\<close>

text \<open>The tables the abstraction reads.\<close>

lemma abs_same:
  assumes "t_roots M = t_roots L" "t_ops M = t_ops L" "t_attempts M = t_attempts L"
    "t_budgets M = t_budgets L" "t_bindings M = t_bindings L" "t_outbox M = t_outbox L"
  shows "abs_ledger M = abs_ledger L"
  using assms by (simp add: abs_ledger_def)

lemma map_update_abs:
  assumes "\<And>r. r \<in> set t \<Longrightarrow> d (h r) = c r" and "\<And>r. r \<in> set t \<Longrightarrow> c r \<Longrightarrow> h (f r) = g (h r)"
  shows "map h (update_rows c f t) = update_rows d g (map h t)"
  using assms by (induction t) auto

lemma abs_wake [simp]: "abs_ledger (wake L) = abs_ledger L"
  by (rule abs_same) simp_all

lemma abs_set_pool [simp]: "abs_ledger (set_pool k f L) = abs_ledger L"
  by (rule abs_same) simp_all

lemma abs_set_op:
  assumes "\<And>x. op_id (f x) = op_id x" and "\<And>x. op_root_id (f x) = op_root_id x"
    and "\<And>x. abs_op (f x) = g (abs_op x)"
  shows "abs_ledger (set_op k f L) = a_set_op k g (abs_ledger L)"
proof (rule proto_eqI)
  show "p_ops (abs_ledger (set_op k f L)) = p_ops (a_set_op k g (abs_ledger L))"
    using assms by (simp add: map_update_abs [where d = "\<lambda>x. ao_id x = k" and g = g])
  have "abs_att (update_rows (\<lambda>r. op_id r = k) f (t_ops L)) = abs_att (t_ops L)"
    by (rule abs_att_ops, rule root_of_op_update [OF assms(1,2)])
  then show "p_atts (abs_ledger (set_op k f L)) = p_atts (a_set_op k g (abs_ledger L))" by simp
qed simp_all

lemma abs_set_op_same:
  assumes "\<And>x. abs_op (f x) = abs_op x"
  shows "abs_ledger (set_op k f L) = abs_ledger L"
proof -
  have "op_id (f x) = op_id x" "op_root_id (f x) = op_root_id x" for x
    using assms [of x] by (simp_all add: abs_op_def)
  then have "abs_ledger (set_op k f L) = a_set_op k (\<lambda>x. x) (abs_ledger L)"
    using assms by (intro abs_set_op) auto
  also have "\<dots> = abs_ledger L" by (rule proto_eqI) (simp_all add: update_rows_def)
  finally show ?thesis .
qed

lemma found_unique:
  "distinct (map key t) \<Longrightarrow> lookup_row key k t = Some r \<Longrightarrow> s \<in> set t \<Longrightarrow> key s = k \<Longrightarrow> s = r"
  by (metis lookup_row_iff option.inject)

text \<open>An update of the one row a lookup found only needs to agree on that row.\<close>

lemma update_found_cong:
  assumes "distinct (map key t)" and "lookup_row key k t = Some r" and "f r = g r"
  shows "update_rows (\<lambda>s. key s = k) f t = update_rows (\<lambda>s. key s = k) g t"
proof -
  have "s = r" if "s \<in> set t" "key s = k" for s
    using found_unique [OF assms(1,2) that] .
  then show ?thesis using assms(3) unfolding update_rows_def by (intro map_cong) auto
qed

lemma abs_set_attempt:
  assumes d: "distinct (map att_id (t_attempts L))" and found: "find_attempt L k = Some a"
    and eq: "abs_att (t_ops L) (f a) = g (abs_att (t_ops L) a)"
  shows "abs_ledger (set_attempt k f L) = a_set_att k g (abs_ledger L)"
proof (rule proto_eqI)
  have only: "s = a" if "s \<in> set (t_attempts L)" "att_id s = k" for s
    using found_unique [OF d found that] .
  show "p_atts (abs_ledger (set_attempt k f L)) = p_atts (a_set_att k g (abs_ledger L))"
    by (simp, subst map_update_abs [where d = "\<lambda>x. aa_id x = k" and g = g]) (use eq only in auto)
qed simp_all

lemma abs_set_attempt_same:
  assumes "\<And>a. abs_att (t_ops L) (f a) = abs_att (t_ops L) a"
  shows "abs_ledger (set_attempt k f L) = abs_ledger L"
  by (rule proto_eqI) (simp_all add: assms)

definition root_line :: "root_row \<Rightarrow> string \<times> int \<times> int \<times> int" where
  "root_line r = (root_id r, root_budget_limit r, root_reserved r, root_spent r)"

lemma lines_update_root:
  assumes "\<And>r. root_line (f r) = root_line r"
  shows "abs_lines (update_rows c f t) buds = abs_lines t buds"
proof
  fix k :: "string \<times> budget_unit"
  have "root_id (f r) = root_id r" for r using assms [of r] by (simp add: root_line_def)
  then have "lookup_row root_id (fst k) (update_rows c f t) =
      map_option (\<lambda>r. if c r then f r else r) (lookup_row root_id (fst k) t)"
    by (simp add: lookup_update_rows)
  then show "abs_lines (update_rows c f t) buds k = abs_lines t buds k"
    using assms
    by (cases k; cases "lookup_row root_id (fst k) t") (auto simp: abs_lines_def root_line_def)
qed

lemma abs_set_root:
  assumes "\<And>r. root_line (f r) = root_line r" and "\<And>r. abs_root (f r) = g (abs_root r)"
  shows "abs_ledger (set_root k f L) = a_set_root k g (abs_ledger L)"
  by (rule proto_eqI)
    (simp_all add: assms lines_update_root map_update_abs [where d = "\<lambda>x. ar_id x = k" and g = g])

lemma abs_set_root_same:
  assumes "\<And>r. root_line (f r) = root_line r" and "\<And>r. abs_root (f r) = abs_root r"
  shows "abs_ledger (set_root k f L) = abs_ledger L"
  by (rule proto_eqI) (simp_all add: assms lines_update_root)

lemma lookup_none_events: "find_event L e = None \<longleftrightarrow> e \<notin> fst ` set (map abs_event (t_outbox L))"
  by (auto simp: lookup_row_None_iff image_image)

lemma abs_event_new:
  "abs_event \<lparr>ev_id = e, ev_aggregate_id = agg, ev_payload = pl, ev_available_at = av, ev_owner_id = ow,
     ev_lease_expires_at = le, ev_delivered_at = de, ev_deliveries = n, ev_created_at = cr\<rparr> = (e, pl)"
  by (simp add: abs_event_def)

lemma emit_event_new:
  "find_event L e = None \<Longrightarrow> map abs_event (t_outbox (emit_event c e agg pl L)) =
     map abs_event (t_outbox L) @ [(e, pl)]"
  by (simp add: emit_event_def abs_event_new)

lemma emit_event_old: "find_event L e = Some r \<Longrightarrow> t_outbox (emit_event c e agg pl L) = t_outbox L"
  by (simp add: emit_event_def)

lemma outbox_emit:
  "map abs_event (t_outbox (emit_event c e agg pl L)) = add_event (e, pl) (map abs_event (t_outbox L))"
proof (cases "find_event L e")
  case None
  then show ?thesis
    unfolding emit_event_new [OF None] add_event_def using lookup_none_events [of e L] by simp
next
  case (Some r)
  then have "e \<in> fst ` set (map abs_event (t_outbox L))" using lookup_none_events [of e L] by simp
  then show ?thesis unfolding emit_event_old [OF Some] add_event_def by simp
qed

lemma abs_emit_event: "abs_ledger (emit_event c e agg pl L) = a_emit (e, pl) (abs_ledger L)"
  by (rule proto_eqI) (simp_all add: outbox_emit, simp add: a_emit_def)

lemma abs_emit_completions:
  "abs_ledger (emit_completions c k bs L) =
     (abs_ledger L)\<lparr>p_events := add_events (map completion_of (bindings_of k (map abs_bind bs)))
        (p_events (abs_ledger L))\<rparr>"
proof (induction bs arbitrary: L)
  case Nil
  then show ?case by (intro proto_eqI) (simp_all add: bindings_of_def)
next
  case (Cons b bs)
  show ?case
    by (simp add: Cons.IH abs_emit_event outbox_emit bindings_of_def completion_of_def a_emit_def)
qed

lemma abs_completion_events: "abs_ledger (completion_events c k L) = a_complete k (abs_ledger L)"
  by (simp add: completion_events_def abs_emit_completions a_complete_def)

lemma abs_op_finish: "abs_op (finish_op st reason x) = a_finish st (abs_op x)"
  by (simp add: finish_op_def a_finish_def abs_op_def)

lemma abs_terminal: "abs_ledger (terminal c k st reason L) = a_terminal k st (abs_ledger L)"
  unfolding terminal_def a_terminal_def abs_completion_events
  by (subst abs_set_op) (simp_all add: abs_op_finish)

section \<open>Settlement\<close>

lemma update_rows_twice:
  "(\<And>r. key (f r) = key r) \<Longrightarrow>
   update_rows (\<lambda>r. key r = k) g (update_rows (\<lambda>r. key r = k) f t) = update_rows (\<lambda>r. key r = k) (g \<circ> f) t"
  by (induction t) auto

lemma lines_move_budget:
  assumes line: "budget_line L rid u = Some (limit, reserved, spent)"
  shows "p_lines (abs_ledger (move_budget rid u bound charged L)) =
    (p_lines (abs_ledger L))((rid, u) := Some (limit, reserved - bound, spent + charged))"
proof
  fix k :: "string \<times> budget_unit"
  obtain i v where k: "k = (i, v)" by (cases k)
  show "p_lines (abs_ledger (move_budget rid u bound charged L)) k =
    ((p_lines (abs_ledger L))((rid, u) := Some (limit, reserved - bound, spent + charged))) k"
  proof (cases "u = Tokens")
    case True
    with line obtain r where "find_root L rid = Some r" "limit = root_budget_limit r"
      "reserved = root_reserved r" "spent = root_spent r" by (auto simp: budget_line_def)
    then show ?thesis using True
      by (cases "find_root L i")
        (auto simp: k move_budget_def abs_lines_def lookup_update_rows dest: lookup_row_Some_key)
  next
    case False
    with line obtain b where "find_budget L rid u = Some b" "limit = bud_limit b"
      "reserved = bud_reserved b" "spent = bud_spent b" by (auto simp: budget_line_def)
    then show ?thesis using False
      by (cases "find_budget L i v")
        (auto simp: k move_budget_def abs_lines_def lookup_update_rows bud_key_def dest: lookup_row_Some_key)
  qed
qed

lemma move_budget_frame [simp]:
  "t_ops (move_budget rid u b ch L) = t_ops L" "t_attempts (move_budget rid u b ch L) = t_attempts L"
  "t_bindings (move_budget rid u b ch L) = t_bindings L" "t_outbox (move_budget rid u b ch L) = t_outbox L"
  "t_pools (move_budget rid u b ch L) = t_pools L" "t_owners (move_budget rid u b ch L) = t_owners L"
  "map abs_root (t_roots (move_budget rid u b ch L)) = map abs_root (t_roots L)"
  by (simp_all add: move_budget_def abs_root_def)

lemma settle_unheld: "\<not> att_budget_held a \<Longrightarrow> settle c a rid usage L = Inr L"
  by (simp add: settle_def)

text \<open>What a settlement leaves alone.\<close>

lemma settle_frame:
  assumes "settle c a rid usage L = Inr L1"
  shows "t_ops L1 = t_ops L" "t_bindings L1 = t_bindings L" "t_outbox L1 = t_outbox L"
    "t_attempts L1 = (if att_budget_held a
       then update_rows (\<lambda>r. att_id r = att_id a) (settled_row usage) (t_attempts L) else t_attempts L)"
    "t_owners L1 = t_owners L" "map root_id (t_roots L1) = map root_id (t_roots L)"
  using assms
  by (auto simp: settle_def Let_def move_budget_def over_budget_def split: if_splits option.splits prod.splits)

lemma root_line_over [simp]: "root_line (over_budget c r) = root_line r"
  by (simp add: root_line_def over_budget_def)

lemma abs_root_over [simp]: "abs_root (over_budget c r) = a_over (abs_root r)"
  by (simp add: abs_root_def over_budget_def a_over_def)

lemma settle_held:
  assumes held: "att_budget_held a" and ok: "settle c a rid usage L = Inr L1"
  obtains limit reserved spent where
    "budget_line L rid (att_budget_unit a) = Some (limit, reserved, spent)"
    "0 \<le> or_else usage (att_budget_bound a)"
    "map abs_root (t_roots L1) =
       (if limit < spent + or_else usage (att_budget_bound a)
        then update_rows (\<lambda>r. ar_id r = rid) a_over (map abs_root (t_roots L)) else map abs_root (t_roots L))"
    "p_lines (abs_ledger L1) = (p_lines (abs_ledger L))((rid, att_budget_unit a) :=
       Some (limit, reserved - att_budget_bound a, spent + or_else usage (att_budget_bound a)))"
proof -
  let ?ch = "or_else usage (att_budget_bound a)" and ?u = "att_budget_unit a"
  from ok held obtain limit reserved spent where
    line: "budget_line L rid ?u = Some (limit, reserved, spent)" and pos: "\<not> ?ch < 0"
    by (auto simp: settle_def Let_def split: if_splits option.splits prod.splits)
  define L2 where "L2 = move_budget rid ?u (att_budget_bound a) ?ch
      (set_attempt (att_id a) (settled_row usage) L)"
  define L3 where "L3 = (if limit < spent + ?ch then set_root rid (over_budget c) L2 else L2)"
  from ok held line pos have L1: "L1 = wake (if att_budget_bound a < ?ch
      then set_pool (att_pool_id a) degrade_pool L3 else L3)"
    by (auto simp: settle_def Let_def L2_def L3_def split: if_splits)
  have line': "budget_line (set_attempt (att_id a) (settled_row usage) L) rid ?u = Some (limit, reserved, spent)"
    using line budget_line_same [of "set_attempt (att_id a) (settled_row usage) L" L] by simp
  have lines2: "p_lines (abs_ledger L2) = (p_lines (abs_ledger L))((rid, ?u) :=
      Some (limit, reserved - att_budget_bound a, spent + ?ch))"
    using lines_move_budget [OF line'] by (simp add: L2_def)
  have roots2: "map abs_root (t_roots L2) = map abs_root (t_roots L)" by (simp add: L2_def)
  have abs3: "abs_ledger L3 = (if limit < spent + ?ch then a_set_root rid a_over (abs_ledger L2) else abs_ledger L2)"
    unfolding L3_def by (simp add: abs_set_root)
  have "abs_ledger L1 = abs_ledger L3" by (simp add: L1)
  then have "map abs_root (t_roots L1) = map abs_root (t_roots L3)" "p_lines (abs_ledger L1) = p_lines (abs_ledger L3)"
    by (metis abs_ledger_sel(1)) (simp add: \<open>abs_ledger L1 = abs_ledger L3\<close>)
  moreover have "map abs_root (t_roots L3) = p_roots (abs_ledger L3)" by simp
  ultimately show thesis
    using that [OF line] pos lines2 roots2 unfolding abs3 by (auto simp: not_less)
qed

text \<open>
  A settlement followed by the update that closes the attempt is one abstract step. \<open>h\<close> is
  that update: it sets the state and drops the compute claim.
\<close>

lemma abs_settle_end:
  assumes d: "distinct (map att_id (t_attempts L))" and found: "find_attempt L (att_id a) = Some a"
    and rid: "root_of_op (t_ops L) (att_operation_id a) = rid"
    and ok: "settle c a rid usage L = Inr L1"
    and h: "\<And>b. \<not> att_budget_held b \<Longrightarrow> att_compute_held b = att_compute_held a \<Longrightarrow>
       abs_att (t_ops L) (h b) = (abs_att (t_ops L) b)\<lparr>aa_state := st, aa_compute := False\<rparr>"
  shows "abs_ledger (set_attempt (att_id a) h L1) = a_end (abs_att (t_ops L) a) st usage (abs_ledger L)"
proof (cases "att_budget_held a")
  case False
  then have L1: "L1 = L" using ok by (simp add: settle_unheld)
  have "abs_att (t_ops L) (h a) = a_end_row st usage (abs_att (t_ops L) a)"
    using h [OF False refl] False by (simp add: a_end_row_def)
  then have "abs_ledger (set_attempt (att_id a) h L) = a_set_att (att_id a) (a_end_row st usage) (abs_ledger L)"
    by (rule abs_set_attempt [OF d found])
  with False L1 show ?thesis by (simp add: a_end_def)
next
  case True
  obtain limit reserved spent where
    line: "budget_line L rid (att_budget_unit a) = Some (limit, reserved, spent)"
    and roots: "map abs_root (t_roots L1) =
       (if limit < spent + or_else usage (att_budget_bound a)
        then update_rows (\<lambda>r. ar_id r = rid) a_over (map abs_root (t_roots L)) else map abs_root (t_roots L))"
    and lines: "p_lines (abs_ledger L1) = (p_lines (abs_ledger L))((rid, att_budget_unit a) :=
       Some (limit, reserved - att_budget_bound a, spent + or_else usage (att_budget_bound a)))"
    using settle_held [OF True ok] by metis
  note frame = settle_frame [OF ok]
  have row: "abs_att (t_ops L) (h (settled_row usage a)) = a_end_row st usage (abs_att (t_ops L) a)"
    using h [of "settled_row usage a"] True by (simp add: settled_row_def a_end_row_def abs_att_def)
  have atts: "map (abs_att (t_ops L)) (t_attempts (set_attempt (att_id a) h L1)) =
      update_rows (\<lambda>x. aa_id x = att_id a) (a_end_row st usage) (map (abs_att (t_ops L)) (t_attempts L))"
  proof -
    have "t_attempts (set_attempt (att_id a) h L1) =
        update_rows (\<lambda>r. att_id r = att_id a) (h \<circ> settled_row usage) (t_attempts L)"
      using True frame(4) by (simp add: update_rows_twice settled_row_def)
    moreover have "s = a" if "s \<in> set (t_attempts L)" "att_id s = att_id a" for s
      using found_unique [OF d found that] .
    ultimately show ?thesis using row
      by (simp, subst map_update_abs [where d = "\<lambda>x. aa_id x = att_id a" and g = "a_end_row st usage"]) auto
  qed
  have pl: "p_lines (abs_ledger L) (rid, att_budget_unit a) = Some (limit, reserved, spent)"
    using line by (simp add: abs_budget_line)
  show ?thesis
  proof (rule proto_eqI)
    show "p_atts (abs_ledger (set_attempt (att_id a) h L1)) = p_atts (a_end (abs_att (t_ops L) a) st usage (abs_ledger L))"
      using atts frame(1) by simp
    show "p_roots (abs_ledger (set_attempt (att_id a) h L1)) = p_roots (a_end (abs_att (t_ops L) a) st usage (abs_ledger L))"
      using roots True rid pl by (simp add: a_end_def Let_def)
    show "p_lines (abs_ledger (set_attempt (att_id a) h L1)) = p_lines (a_end (abs_att (t_ops L) a) st usage (abs_ledger L))"
      using lines True rid pl by (simp add: a_end_def Let_def)
  qed (simp_all add: frame)
qed

end
