(* ===== verification/Ledger_Refine.thy ===== *)
theory Ledger_Refine
  imports Ledger_Abs
begin

text \<open>
  Submission and dispatch refine the abstract machine: in a ledger that satisfies the
  invariant, every transaction of \<open>Ledger_Submit\<close> and \<open>Ledger_Dispatch\<close> that commits is a
  sequence of abstract steps.
\<close>

section \<open>Reading the invariant in the ledger\<close>

definition ledger_ok :: "ledger \<Rightarrow> bool" where
  "ledger_ok L \<longleftrightarrow> proto_inv (abs_ledger L)"

abbreviation refines :: "ledger \<Rightarrow> ledger \<Rightarrow> bool" where
  "refines L M \<equiv> proto_path (abs_ledger L) (abs_ledger M)"

lemma refines_ok: "refines L M \<Longrightarrow> ledger_ok L \<Longrightarrow> ledger_ok M"
  unfolding ledger_ok_def by (rule proto_path_inv)

lemma refines_trans: "refines L M \<Longrightarrow> refines M N \<Longrightarrow> refines L N"
  by (rule proto_path_trans)

lemma refines_same: "abs_ledger M = abs_ledger L \<Longrightarrow> refines L M"
  by (simp add: path_none)

lemma ok_parts:
  assumes "ledger_ok L"
  shows "ident_inv (abs_ledger L)" "shapes_inv (abs_ledger L)" "lines_inv (abs_ledger L)"
    "sends_inv (abs_ledger L)" "excl_inv (abs_ledger L)" "events_inv (abs_ledger L)"
    "results_inv (abs_ledger L)" "runs_inv (abs_ledger L)"
  using assms by (simp_all add: ledger_ok_def proto_inv_def)

lemma map_comp_abs [simp]:
  "map ar_id (map abs_root t) = map root_id t" "map ao_id (map abs_op u) = map op_id u"
  "map aa_id (map (abs_att ops) v) = map att_id v" "map fst (map abs_bind w) = map bind_id w"
  "map fst (map abs_event e) = map ev_id e"
  by (simp_all add: comp_def)

lemma ok_distinct:
  assumes "ledger_ok L"
  shows "distinct (map root_id (t_roots L))" "distinct (map op_id (t_ops L))"
    "distinct (map att_id (t_attempts L))" "distinct (map bind_id (t_bindings L))"
  using ident_inv_distinct [OF ok_parts(1) [OF assms]] by (simp_all add: comp_def)

lemma ok_op:
  assumes "ledger_ok L" and "find_op L k = Some x"
  shows "op_id x = k" "os_operation_id (op_spec x) = k" "os_root_id (op_spec x) = op_root_id x"
    "valid_operation (op_spec x)"
proof -
  show k: "op_id x = k" using assms(2) by (rule lookup_row_Some_key)
  have "op_placed (abs_ledger L) (abs_op x)"
    using ident_inv_opD [OF ok_parts(1) [OF assms(1)]] assms(2) by (auto dest: lookup_row_Some_in)
  with k show "os_operation_id (op_spec x) = k" "os_root_id (op_spec x) = op_root_id x"
    "valid_operation (op_spec x)" by (auto simp: op_placed_def)
qed

lemma ok_attempt:
  assumes "ledger_ok L" and "find_attempt L k = Some a"
  shows "att_id a = k" "att_ok (abs_att (t_ops L) a)"
    "\<exists>x. find_op L (att_operation_id a) = Some x \<and> root_of_op (t_ops L) (att_operation_id a) = op_root_id x
       \<and> att_budget_bound a = budget_bound_of (op_spec x) \<and> att_budget_unit a = budget_unit_of (op_spec x)"
proof -
  show "att_id a = k" using assms(2) by (rule lookup_row_Some_key)
  have mem: "abs_att (t_ops L) a \<in> set (p_atts (abs_ledger L))"
    using assms(2) by (auto dest: lookup_row_Some_in)
  show "att_ok (abs_att (t_ops L) a)" using ok_parts(2) [OF assms(1)] mem
    unfolding shapes_inv_def by blast
  from ident_inv_attD [OF ok_parts(1) [OF assms(1)] mem] obtain x where
    "x \<in> set (t_ops L)" "op_id x = att_operation_id a"
    "op_root_id x = root_of_op (t_ops L) (att_operation_id a)"
    "att_budget_bound a = budget_bound_of (op_spec x)" "att_budget_unit a = budget_unit_of (op_spec x)"
    by (auto simp: att_placed_def)
  moreover from this have "find_op L (att_operation_id a) = Some x"
    using ok_distinct(2) [OF assms(1)] by (simp add: lookup_row_iff)
  ultimately show "\<exists>x. find_op L (att_operation_id a) = Some x
       \<and> root_of_op (t_ops L) (att_operation_id a) = op_root_id x
       \<and> att_budget_bound a = budget_bound_of (op_spec x) \<and> att_budget_unit a = budget_unit_of (op_spec x)"
    by auto
qed

text \<open>The fence hands out the current rows of one attempt.\<close>

lemma ownedE:
  assumes "ledger_ok L" and "owned rv L = Inr (a, x, r)"
  obtains "find_attempt L (rv_attempt_id rv) = Some a" "att_id a = rv_attempt_id rv"
    "find_op L (att_operation_id a) = Some x" "op_id x = att_operation_id a"
    "find_root L (op_root_id x) = Some r" "op_active_attempt x = Some (att_id a)"
    "root_of_op (t_ops L) (att_operation_id a) = op_root_id x"
    "att_budget_bound a = budget_bound_of (op_spec x)" "att_budget_unit a = budget_unit_of (op_spec x)"
    "att_owner_id a = rv_owner_id rv" "att_lease_epoch a = rv_lease_epoch rv"
proof -
  from assms(2) have *: "find_attempt L (rv_attempt_id rv) = Some a" "find_op L (att_operation_id a) = Some x"
    "find_root L (op_root_id x) = Some r" "op_active_attempt x = Some (rv_attempt_id rv)"
    "att_owner_id a = rv_owner_id rv" "att_lease_epoch a = rv_lease_epoch rv"
    by (auto simp: owned_def split: option.splits if_splits)
  with ok_attempt [OF assms(1) *(1)] ok_op(1) [OF assms(1) *(2)] show thesis by (intro that) auto
qed

lemma att_ended_ended [simp]: "att_ended st = ended st"
  by (simp add: att_ended_def ended_def)

text \<open>An open attempt of a pending operation is the active one of an operation in flight.\<close>

lemma open_in_flight:
  assumes ok: "ledger_ok L" and a: "find_attempt L k = Some a" and opn: "\<not> ended (att_state a)"
    and x: "find_op L (att_operation_id a) = Some x" and live: "\<not> op_terminal (op_state x)"
  shows "op_state x = EXECUTING \<or> op_state x = RECONCILING" "op_active_attempt x = Some (att_id a)"
proof -
  have "abs_op x \<in> set (p_ops (abs_ledger L))" using x by (auto dest: lookup_row_Some_in)
  then have "op_excl (p_atts (abs_ledger L)) (abs_op x)" using ok_parts(5) [OF ok] by (rule excl_invD [rotated])
  moreover have "abs_att (t_ops L) a \<in> set (p_atts (abs_ledger L))" using a by (auto dest: lookup_row_Some_in)
  moreover have "open_att (ao_id (abs_op x)) (abs_att (t_ops L) a)"
    using opn ok_op(1) [OF ok x] by (simp add: open_att_def)
  ultimately show "op_state x = EXECUTING \<or> op_state x = RECONCILING" "op_active_attempt x = Some (att_id a)"
    using op_exclD [of _ "abs_op x" "abs_att (t_ops L) a"] live by (auto simp: in_flight_def)
qed

section \<open>Terminal operations and events\<close>

lemma refines_terminal: "st = FAILED \<or> st = CANCELLED \<Longrightarrow> refines L (terminal c k st reason L)"
  unfolding abs_terminal by (rule proto_path_one, rule PTerminal)

lemma refines_terminal_all: "st = FAILED \<or> st = CANCELLED \<Longrightarrow> refines L (terminal_all c ks st reason L)"
proof (induction ks arbitrary: L)
  case Nil
  then show ?case by (simp add: path_none)
next
  case (Cons k ks)
  then show ?case using refines_trans [OF refines_terminal Cons.IH] by simp
qed

lemma refines_expire: "refines L (fst (expire_operation c spec at L))"
  by (simp add: expire_operation_def path_none refines_terminal)

lemma refines_event: "\<not> completion_id e \<Longrightarrow> refines L (emit_event c e agg pl L)"
  unfolding abs_emit_event by (rule proto_path_one, rule PEvent)

lemma refines_complete:
  "find_op L k = Some x \<Longrightarrow> op_terminal (op_state x) \<Longrightarrow> refines L (completion_events c k L)"
  unfolding abs_completion_events by (rule proto_path_one, rule PComplete) auto

section \<open>Roots and runs\<close>

lemma lookup_new_budgets:
  "lookup_row bud_key (rid, u) (map (new_budget rid) bs) = map_option (\<lambda>n. new_budget rid (u, n)) (map_of bs u)"
  by (induction bs) (auto simp: bud_key_def new_budget_def)

lemma lookup_new_budgets_other:
  "rid \<noteq> rid' \<Longrightarrow> lookup_row bud_key (rid, u) (map (new_budget rid') bs) = None"
  by (induction bs) (auto simp: bud_key_def new_budget_def)

lemma abs_new_root:
  assumes ok: "ledger_ok L" and new: "find_root L (rs_root_id s) = None"
  shows "abs_ledger (L\<lparr>t_roots := t_roots L @ [new_root c s],
      t_budgets := t_budgets L @ map (new_budget (rs_root_id s)) (rs_resource_budgets s)\<rparr>)
    = a_new_root s (abs_ledger L)"
proof (rule proto_eqI)
  let ?M = "L\<lparr>t_roots := t_roots L @ [new_root c s],
      t_budgets := t_budgets L @ map (new_budget (rs_root_id s)) (rs_resource_budgets s)\<rparr>"
  have free: "find_budget L (rs_root_id s) u = None" if "u \<noteq> Tokens" for u
  proof (rule ccontr)
    assume "\<not> ?thesis"
    then have "p_lines (abs_ledger L) (rs_root_id s, u) \<noteq> None" using that by (auto simp: abs_lines_def)
    then have "rs_root_id s \<in> ar_id ` set (p_roots (abs_ledger L))"
      using ident_inv_lineD [OF ok_parts(1) [OF ok]] by blast
    then show False using new by (auto simp: lookup_row_None_iff)
  qed
  show "p_lines (abs_ledger ?M) = p_lines (a_new_root s (abs_ledger L))"
  proof
    fix k :: "string \<times> budget_unit"
    obtain rid u where k: "k = (rid, u)" by (cases k)
    show "p_lines (abs_ledger ?M) k = p_lines (a_new_root s (abs_ledger L)) k"
    proof (cases "rid = rs_root_id s")
      case True
      then show ?thesis using new free [of u]
        by (simp add: k a_new_root_def abs_lines_def root_lines_def lookup_row_append lookup_new_budgets
            option.map_comp comp_def) (simp add: new_root_def new_budget_def)
    next
      case False
      then show ?thesis
        by (simp add: k a_new_root_def abs_lines_def lookup_row_append lookup_new_budgets_other
            new_root_def split: option.splits)
    qed
  qed
qed (simp_all add: a_new_root_def abs_root_def new_root_def)

lemma refines_admit_root:
  assumes ok: "ledger_ok L" and v: "valid_root_spec s" and ran: "admit_root c s L = Inr M"
  shows "refines L M"
proof (cases "find_root L (rs_root_id s)")
  case None
  then have M: "M = L\<lparr>t_roots := t_roots L @ [new_root c s],
      t_budgets := t_budgets L @ map (new_budget (rs_root_id s)) (rs_resource_budgets s)\<rparr>"
    using ran by (auto simp: admit_root_def split: if_splits)
  have "proto_step (abs_ledger L) (a_new_root s (abs_ledger L))"
    using None v by (intro PRoot) simp_all
  then show ?thesis unfolding M abs_new_root [OF ok None] by (rule proto_path_one)
next
  case (Some r)
  then show ?thesis using ran by (auto simp: admit_root_def path_none split: if_splits)
qed

lemma refines_submit_run:
  assumes ok: "ledger_ok L" and v: "valid_root_spec root"
    and ran: "submit_run c root key d spec L = Inr (M, run)"
  shows "refines L M"
proof (cases "find_submission L (rs_tenant_id root) key")
  case None
  with ran obtain L1 where L1: "admit_root c root L = Inr L1"
    and M: "M = emit_event c (start_event_id (rs_root_id root)) (rs_root_id root)
                 (StartWorkflow (spec\<lparr>run_deadline := Some (rs_deadline root)\<rparr>))
                 (L1\<lparr>t_submissions := t_submissions L1 @
                       [\<lparr>sub_run_id = rs_root_id root, sub_tenant_id = rs_tenant_id root,
                         sub_key = key, sub_input_digest = d, sub_spec = spec\<rparr>]\<rparr>)"
    by (auto simp: submit_run_def and_then_Inr_iff)
  have "refines L L1" using ok v L1 by (rule refines_admit_root)
  moreover have "refines L1 M"
    unfolding M by (rule refines_trans [OF refines_same refines_event]) (auto intro: abs_same)
  ultimately show ?thesis by (rule refines_trans)
next
  case (Some old)
  then show ?thesis using ran by (auto simp: submit_run_def path_none split: if_splits)
qed

section \<open>Operations\<close>

lemma abs_new_op:
  assumes ok: "ledger_ok L" and new: "find_op L (os_operation_id spec) = None"
    and M: "t_ops M = t_ops L @ [new_op c spec]" "t_roots M = t_roots L" "t_attempts M = t_attempts L"
      "t_budgets M = t_budgets L" "t_bindings M = t_bindings L" "t_outbox M = t_outbox L"
  shows "abs_ledger M = a_new_op spec (abs_ledger L)"
proof (rule proto_eqI)
  have "root_of_op (t_ops L @ [new_op c spec]) (att_operation_id a) = root_of_op (t_ops L) (att_operation_id a)"
    if a: "a \<in> set (t_attempts L)" for a
  proof -
    have "find_attempt L (att_id a) = Some a" using a ok_distinct(3) [OF ok] by (simp add: lookup_row_iff)
    from ok_attempt(3) [OF ok this] show ?thesis by (auto simp: root_of_op_def lookup_row_append)
  qed
  then show "p_atts (abs_ledger M) = p_atts (a_new_op spec (abs_ledger L))"
    using M by (simp add: a_new_op_def abs_att_def)
qed (simp_all add: M a_new_op_def abs_op_def new_op_def)

lemma refines_submit_operation:
  assumes ok: "ledger_ok L" and v: "valid_operation spec"
    and ran: "submit_operation digest c spec L = Inr (M, k)"
  shows "refines L M"
proof (cases "find_op L (os_operation_id spec)")
  case (Some old)
  then show ?thesis using ran by (auto simp: submit_operation_def path_none split: if_splits)
next
  case None
  then obtain r where r: "find_root L (os_root_id spec) = Some r" "root_tenant_id r = os_tenant_id spec"
    "root_state r = RUNNING" "budget_unit_of spec = Tokens \<or> has_resource_budget (root_spec_of r) (budget_unit_of spec)"
    and M: "M = materialize_op c spec L"
    using ran by (auto simp: submit_operation_def split: if_splits option.splits)
  let ?L1 = "L\<lparr>t_models := (if os_model_profile spec \<in> set (t_models L) then t_models L
                          else t_models L @ [os_model_profile spec]), t_ops := t_ops L @ [new_op c spec]\<rparr>"
  let ?L2 = "set_root (os_root_id spec) (\<lambda>r. r\<lparr>root_operation_count := root_operation_count r + 1\<rparr>) ?L1"
  have "proto_step (abs_ledger L) (a_new_op spec (abs_ledger L))"
    using None v r by (intro POp [where r = "abs_root r"]) (simp_all add: has_resource_budget_def)
  moreover have "abs_ledger ?L1 = a_new_op spec (abs_ledger L)"
    using ok None by (rule abs_new_op) simp_all
  moreover have "abs_ledger ?L2 = abs_ledger ?L1"
    by (rule abs_set_root_same) (simp_all add: root_line_def abs_root_def)
  ultimately have "refines L ?L2" by (metis proto_path_one)
  moreover have "refines ?L2 M"
    unfolding M materialize_op_def abs_wake by (rule refines_expire)
  ultimately show ?thesis by (rule refines_trans)
qed

lemma refines_bind_completion:
  assumes ran: "bind_completion digest c k tenant token L = Inr M"
  shows "refines L M"
proof -
  obtain x where x: "find_op L k = Some x"
    and M: "M = (let L1 = (if digest token \<in> bind_id ` set (t_bindings L) then L
        else L\<lparr>t_bindings := t_bindings L @
               [\<lparr>bind_id = digest token, bind_operation_id = k, bind_task_token = token\<rparr>]\<rparr>)
      in if op_terminal (op_state x) then completion_events c k L1 else L1)"
    using ran by (auto simp: bind_completion_def Let_def split: option.splits if_splits)
  define L1 where "L1 = (if digest token \<in> bind_id ` set (t_bindings L) then L
        else L\<lparr>t_bindings := t_bindings L @
               [\<lparr>bind_id = digest token, bind_operation_id = k, bind_task_token = token\<rparr>]\<rparr>)"
  have "bind_id ` set (t_bindings L) = fst ` set (p_binds (abs_ledger L))" by (simp add: image_image)
  then have "abs_ledger L1 = a_bind (digest token) k (abs_ledger L)"
    by (intro proto_eqI) (simp_all add: L1_def a_bind_def abs_bind_def)
  moreover have "M = (if op_terminal (op_state x) then completion_events c k L1 else L1)"
    by (simp add: M L1_def Let_def)
  moreover have "proto_step (abs_ledger L)
      (if op_terminal (ao_state (abs_op x)) then a_complete k (a_bind (digest token) k (abs_ledger L))
       else a_bind (digest token) k (abs_ledger L))"
    using x by (intro PBind) simp
  ultimately show ?thesis by (auto simp: abs_completion_events split: if_splits)
qed

section \<open>Reserving\<close>

lemma fold_max_ge: "(y :: int) \<le> fold max xs y" "x \<in> set xs \<Longrightarrow> x \<le> fold max xs y"
proof (induction xs arbitrary: y)
  case (Cons z zs)
  { case 1 show ?case using Cons.IH(1) [of "max z y"] by simp }
  { case 2 then show ?case using Cons.IH(1) [of "max z y"] Cons.IH(2) [of "max z y"] by auto }
qed simp_all

lemma next_attempt_number_gt:
  "a \<in> set (t_attempts L) \<Longrightarrow> att_operation_id a = k \<Longrightarrow> att_number a < next_attempt_number L k"
  using fold_max_ge(2) [of "att_number a" "map att_number (filter (\<lambda>a. att_operation_id a = k) (t_attempts L))" 0]
  by (force simp: next_attempt_number_def)

lemma abs_reserve:
  assumes ok: "ledger_ok L" and x: "find_op L k = Some x"
  shows "abs_ledger (set_root rid (\<lambda>r. r\<lparr>root_last_served := t\<rparr>) (set_op k (claim_op aid)
      (L\<lparr>t_attempts := t_attempts L @ [new_attempt lease c aid owner p n (op_spec x)]\<rparr>)))
    = a_reserve aid n (abs_op x) (abs_ledger L)"
proof -
  let ?L1 = "L\<lparr>t_attempts := t_attempts L @ [new_attempt lease c aid owner p n (op_spec x)]\<rparr>"
  note opx = ok_op [OF ok x]
  have "abs_att (t_ops L) (new_attempt lease c aid owner p n (op_spec x)) = new_aatt aid n (abs_op x)"
    using opx x by (simp add: abs_att_def new_attempt_def new_aatt_def root_of_op_def)
  then have "abs_ledger ?L1 = (abs_ledger L)\<lparr>p_atts := p_atts (abs_ledger L) @ [new_aatt aid n (abs_op x)]\<rparr>"
    by (intro proto_eqI) simp_all
  moreover have "abs_ledger (set_op k (claim_op aid) ?L1)
      = a_set_op k (\<lambda>x. x\<lparr>ao_state := EXECUTING, ao_active := Some aid\<rparr>) (abs_ledger ?L1)"
    by (rule abs_set_op) (simp_all add: claim_op_def abs_op_def)
  moreover have "abs_ledger (set_root rid (\<lambda>r. r\<lparr>root_last_served := t\<rparr>) (set_op k (claim_op aid) ?L1))
      = abs_ledger (set_op k (claim_op aid) ?L1)"
    by (rule abs_set_root_same) (simp_all add: root_line_def abs_root_def)
  ultimately show ?thesis using opx by (simp add: a_reserve_alt)
qed

lemma refines_reserve_candidate:
  assumes ok: "ledger_ok L" and x: "find_op L k = Some x" and d: "dispatchable x"
    and ran: "reserve_candidate lease c aid owner p root x L = Inr (M, rv)"
  shows "refines L M"
proof -
  note opx = ok_op [OF ok x]
  let ?n = "next_attempt_number L k"
  from ran opx have new: "aid \<notin> att_id ` set (t_attempts L)"
    and M: "M = set_root (op_root_id x) (\<lambda>r. r\<lparr>root_last_served := utc c\<rparr>) (set_op k (claim_op aid)
      (L\<lparr>t_attempts := t_attempts L @ [new_attempt lease c aid owner p ?n (op_spec x)]\<rparr>))"
    by (auto simp: reserve_candidate_def Let_def split: if_splits)
  have "proto_step (abs_ledger L) (a_reserve aid ?n (abs_op x) (abs_ledger L))"
    using x d new next_attempt_number_gt
    by (intro PReserve [where k = k]) (auto simp: dispatchable_def lookup_row_None_iff)
  then show ?thesis unfolding M abs_reserve [OF ok x] by (rule proto_path_one)
qed

lemma abs_wait_reason: "abs_ledger (set_op k (\<lambda>x. x\<lparr>op_wait_reason := w\<rparr>) L) = abs_ledger L"
  by (rule abs_set_op_same) (simp add: abs_op_def)

lemma refines_consider_candidate:
  assumes ok: "ledger_ok L" and ran: "consider_candidate lease c locked aid owner p k L = Inr (M, res)"
  shows "refines L M"
proof (cases "find_op L k")
  case None
  then show ?thesis using ran by (simp add: consider_candidate_def path_none)
next
  case x: (Some x)
  show ?thesis
  proof (cases "find_root L (op_root_id x)")
    case None
    then show ?thesis using ran x by (simp add: consider_candidate_def path_none)
  next
    case r: (Some r)
    have reserve: "refines L M"
      if "dispatchable x" "map_sum id (\<lambda>(L', rv). (L', Some rv)) (reserve_candidate lease c aid owner p r x L) = Inr (M, res)"
    proof -
      from that(2) obtain rv where "reserve_candidate lease c aid owner p r x L = Inr (M, rv)"
        by (cases "reserve_candidate lease c aid owner p r x L") auto
      then show ?thesis by (rule refines_reserve_candidate [OF ok x that(1)])
    qed
    show ?thesis
      using ran x r reserve
      by (auto simp: consider_candidate_def Let_def path_none refines_expire refines_terminal abs_wait_reason
          split: if_splits option.splits)
  qed
qed

lemma refines_consider_all:
  "ledger_ok L \<Longrightarrow> consider_all lease c locked aid owner p ks L = Inr (M, res) \<Longrightarrow> refines L M"
proof (induction ks arbitrary: L)
  case Nil
  then show ?case by (simp add: path_none)
next
  case (Cons k ks)
  then obtain L1 r1 where one: "consider_candidate lease c locked aid owner p k L = Inr (L1, r1)"
    by (cases "consider_candidate lease c locked aid owner p k L") auto
  have first: "refines L L1" using Cons.prems(1) one by (rule refines_consider_candidate)
  show ?case
  proof (cases r1)
    case None
    then have "refines L1 M" using Cons one refines_ok [OF first] by auto
    with first show ?thesis by (rule refines_trans)
  next
    case (Some rv)
    then show ?thesis using Cons.prems(2) one first by simp
  qed
qed

lemma refines_reserve_next:
  "ledger_ok L \<Longrightarrow> reserve_next lease c locked aid pid owner L = Inr (M, res) \<Longrightarrow> refines L M"
  by (auto simp: reserve_next_def path_none split: option.splits if_splits intro: refines_consider_all)

end
