(* ===== verification/Ledger_Refine_Attempts.thy ===== *)
theory Ledger_Refine_Attempts
  imports Ledger_Refine
begin

text \<open>
  The life of a reserved attempt refines the abstract machine: \<open>mark_send\<close>, \<open>heartbeat\<close>,
  \<open>compute_finished\<close>, \<open>commit_result\<close>, \<open>unknown\<close> and \<open>fail\<close>.
\<close>

section \<open>Sending\<close>

lemma lines_charge:
  assumes line: "budget_line L rid u = Some (limit, reserved, spent)"
  shows "p_lines (abs_ledger (charge k rid u bound L)) =
    (p_lines (abs_ledger L))((rid, u) := Some (limit, reserved + bound, spent))"
proof
  fix key :: "string \<times> budget_unit"
  obtain i v where key: "key = (i, v)" by (cases key)
  show "p_lines (abs_ledger (charge k rid u bound L)) key =
    ((p_lines (abs_ledger L))((rid, u) := Some (limit, reserved + bound, spent))) key"
  proof (cases "v = Tokens")
    case True
    then show ?thesis using line
      by (cases "find_root L i")
        (auto simp: key charge_def Let_def abs_lines_def budget_line_def lookup_update_rows
          dest: lookup_row_Some_key split: if_splits)
  next
    case False
    then show ?thesis using line
      by (cases "find_budget L i v")
        (auto simp: key charge_def Let_def abs_lines_def budget_line_def lookup_update_rows bud_key_def
          dest: lookup_row_Some_key split: if_splits)
  qed
qed

lemma charge_frame [simp]:
  "t_attempts (charge k rid u b L) = t_attempts L" "t_bindings (charge k rid u b L) = t_bindings L"
  "t_outbox (charge k rid u b L) = t_outbox L" "t_pools (charge k rid u b L) = t_pools L"
  "t_owners (charge k rid u b L) = t_owners L"
  "t_ops (charge k rid u b L) = update_rows (\<lambda>r. op_id r = k) (\<lambda>x. x\<lparr>op_attempts := op_attempts x + 1\<rparr>) (t_ops L)"
  by (simp_all add: charge_def Let_def)

lemma charge_roots [simp]:
  "map abs_root (t_roots (charge k rid u b L)) =
     update_rows (\<lambda>r. ar_id r = rid) (\<lambda>r. r\<lparr>ar_attempts := ar_attempts r + 1\<rparr>) (map abs_root (t_roots L))"
proof -
  have "t_roots (charge k rid u b L) = update_rows (\<lambda>r. root_id r = rid)
      (\<lambda>r. r\<lparr>root_attempts := root_attempts r + 1, root_reserved := root_reserved r + (if u = Tokens then b else 0)\<rparr>)
      (t_roots L)" by (simp add: charge_def Let_def)
  then show ?thesis
    by (simp only:) (rule map_update_abs, simp_all add: abs_root_def)
qed

lemma abs_send:
  assumes ok: "ledger_ok L" and a: "find_attempt L k = Some a" and rid: "root_of_op (t_ops L) (att_operation_id a) = rid"
    and line: "budget_line L rid (att_budget_unit a) = Some (limit, reserved, spent)"
  shows "abs_ledger (set_attempt k (sent_row c) (charge (att_operation_id a) rid (att_budget_unit a) (att_budget_bound a) L))
    = a_send (abs_att (t_ops L) a) (limit, reserved, spent) (abs_ledger L)"
    (is "abs_ledger (set_attempt k _ ?C) = ?q")
proof (rule proto_eqI)
  have k: "att_id a = k" using a by (rule lookup_row_Some_key)
  have ops: "root_of_op (t_ops ?C) = root_of_op (t_ops L)" by (simp add: root_of_op_update)
  show "p_ops (abs_ledger (set_attempt k (sent_row c) ?C)) = p_ops ?q"
    by (simp, subst map_update_abs [where d = "\<lambda>x. ao_id x = att_operation_id a"
          and g = "\<lambda>x. x\<lparr>ao_sent := ao_sent x + 1\<rparr>"]) (simp_all add: abs_op_def)
  show "p_atts (abs_ledger (set_attempt k (sent_row c) ?C)) = p_atts ?q"
    using k abs_att_ops [OF ops]
    by (simp, subst map_update_abs [where d = "\<lambda>x. aa_id x = k" and g =
          "\<lambda>a. a\<lparr>aa_state := SEND_INTENT, aa_compute := True, aa_budget := True, aa_sent := True\<rparr>"])
      (simp_all add: abs_att_def sent_row_def)
  show "p_lines (abs_ledger (set_attempt k (sent_row c) ?C)) = p_lines ?q"
    using lines_charge [OF line, of "att_operation_id a" "att_budget_bound a"] rid by (simp add: a_send_def)
qed (simp_all add: rid)

lemma refines_mark_send:
  assumes ok: "ledger_ok L" and ran: "mark_send c rv L = Inr M"
  shows "refines L M"
proof -
  from ran obtain a x r where own: "owned rv L = Inr (a, x, r)"
    by (auto simp: mark_send_def and_then_Inr_iff)
  from ownedE [OF ok own] have o: "find_attempt L (rv_attempt_id rv) = Some a" "att_id a = rv_attempt_id rv"
    "find_op L (att_operation_id a) = Some x" "op_id x = att_operation_id a"
    "find_root L (op_root_id x) = Some r" "op_active_attempt x = Some (att_id a)"
    "root_of_op (t_ops L) (att_operation_id a) = op_root_id x"
    "att_budget_bound a = budget_bound_of (op_spec x)" "att_budget_unit a = budget_unit_of (op_spec x)" by metis+
  have st: "att_state a = RESERVED" "op_state x = EXECUTING" "root_state r = RUNNING"
    using ran own by (auto simp: mark_send_def Let_def split: if_splits)
  have free: "\<not> att_budget_held a" using ok_attempt(2) [OF ok o(1)] st(1) by (auto simp: att_ok_def)
  with ran own obtain limit reserved spent where
    line: "budget_line L (op_root_id x) (budget_unit_of (op_spec x)) = Some (limit, reserved, spent)"
    and fits: "spent + reserved + budget_bound_of (op_spec x) \<le> limit"
    and more: "op_attempts x < os_max_attempts (op_spec x)" "root_attempts r < rs_max_attempts (root_spec_of r)"
    and M: "M = set_attempt (rv_attempt_id rv) (sent_row c)
              (charge (op_id x) (op_root_id x) (budget_unit_of (op_spec x)) (budget_bound_of (op_spec x)) L)"
    by (auto simp: mark_send_def Let_def not_le split: if_splits option.splits prod.splits)
  have "abs_ledger M = a_send (abs_att (t_ops L) a) (limit, reserved, spent) (abs_ledger L)"
    unfolding M using abs_send [OF ok o(1) o(7), of limit reserved spent c] line o by simp
  moreover have "proto_step (abs_ledger L) (a_send (abs_att (t_ops L) a) (limit, reserved, spent) (abs_ledger L))"
    by (rule PSend [where aid = "att_id a" and x = "abs_op x" and r = "abs_root r"])
      (use o st free line fits more in \<open>simp_all add: abs_budget_line\<close>)
  ultimately show ?thesis by (metis proto_path_one)
qed

lemma refines_heartbeat:
  assumes "heartbeat lease c rv L = Inr (M, alive)"
  shows "refines L M"
proof (rule refines_same)
  have "M = L \<or> M = set_attempt (rv_attempt_id rv) (\<lambda>a. a\<lparr>att_lease_expires_at := utc c + lease\<rparr>) L"
    using assms by (auto simp: heartbeat_def and_then_Inr_iff split: if_splits)
  then show "abs_ledger M = abs_ledger L"
    using abs_set_attempt_same [of L "\<lambda>a. a\<lparr>att_lease_expires_at := utc c + lease\<rparr>"]
    by (auto simp: abs_att_def)
qed

lemma refines_compute_finished:
  assumes ok: "ledger_ok L" and ran: "compute_finished c rv L = Inr M"
  shows "refines L M"
proof -
  from ran obtain a x r where own: "owned rv L = Inr (a, x, r)"
    by (auto simp: compute_finished_def and_then_Inr_iff)
  from ownedE [OF ok own] have a: "find_attempt L (rv_attempt_id rv) = Some a" by metis
  show ?thesis
  proof (cases "ended (att_state a)")
    case True
    then show ?thesis using ran own by (simp add: compute_finished_def path_none)
  next
    case False
    then have M: "M = wake (set_attempt (rv_attempt_id rv) (finished_row c) L)"
      using ran own by (simp add: compute_finished_def)
    have "abs_ledger M = a_backend (rv_attempt_id rv) (abs_ledger L)"
      unfolding M abs_wake a_backend_def
      by (rule abs_set_attempt [OF ok_distinct(3) [OF ok] a]) (simp add: finished_row_def abs_att_def)
    moreover have "proto_step (abs_ledger L) (a_backend (rv_attempt_id rv) (abs_ledger L))"
      using a False by (intro PBackend [where a = "abs_att (t_ops L) a"]) simp_all
    ultimately show ?thesis by (metis proto_path_one)
  qed
qed

section \<open>Ending an attempt\<close>

text \<open>
  The shape every ending shares: settle, close the attempt with \<open>h\<close>, move the operation with
  \<open>m\<close>.
\<close>

lemma refines_end:
  assumes ok: "ledger_ok L" and a: "find_attempt L (att_id a) = Some a" and opn: "\<not> ended (att_state a)"
    and x: "find_op L (att_operation_id a) = Some x"
    and settled: "settle c a (op_root_id x) usage L = Inr L1" and st: "ended st"
    and pos: "0 \<le> or_else usage (att_budget_bound a)"
    and fence: "st = RESULT_COMMITTED \<longrightarrow> att_state a = BACKEND_FINISHED"
    and h: "\<And>ops b. \<not> att_budget_held b \<Longrightarrow> att_compute_held b = att_compute_held a \<Longrightarrow>
       abs_att ops (h b) = (abs_att ops b)\<lparr>aa_state := st, aa_compute := False\<rparr>"
    and m: "abs_ledger (m (set_attempt (att_id a) h L1)) =
       a_move (att_operation_id a) mv (abs_ledger (set_attempt (att_id a) h L1))"
    and mv: "move_allowed mv st (op_state x)"
  shows "refines L (m (set_attempt (att_id a) h L1))"
proof -
  have "root_of_op (t_ops L) (att_operation_id a) = op_root_id x" using x by (simp add: root_of_op_def)
  then have "abs_ledger (set_attempt (att_id a) h L1) = a_end (abs_att (t_ops L) a) st usage (abs_ledger L)"
    using abs_settle_end [OF ok_distinct(3) [OF ok] a _ settled h] by blast
  moreover have "proto_step (abs_ledger L)
      (a_move (aa_op (abs_att (t_ops L) a)) mv (a_end (abs_att (t_ops L) a) st usage (abs_ledger L)))"
    by (rule PEnd [where aid = "att_id a" and x = "abs_op x"]) (use a opn st x pos fence mv in simp_all)
  ultimately show ?thesis unfolding m by (metis abs_sel(17) proto_path_one)
qed

text \<open>The moves the store makes, under the abstraction.\<close>

lemma move_stay: "abs_ledger L = a_move k Stay (abs_ledger L)"
  by simp

lemma move_finish: "abs_ledger (terminal c k st reason L) = a_move k (Finish st) (abs_ledger L)"
  by (simp add: abs_terminal)

lemma move_retry: "abs_ledger (set_op k (retry_op reason at) L) = a_move k (Requeue RETRY_WAIT False) (abs_ledger L)"
  unfolding a_move.simps a_requeue_def by (rule abs_set_op) (simp_all add: retry_op_def abs_op_def)

lemma move_succeed:
  "abs_ledger (completion_events c k (set_op k (succeed_op ref) L)) = a_move k (Succeed ref) (abs_ledger L)"
  unfolding a_move.simps a_succeed_def abs_completion_events
  by (subst abs_set_op) (simp_all add: succeed_op_def abs_op_def)

lemma record_artifacts_frame:
  "record_artifacts digest tenant k aid d refs L = Inr M \<Longrightarrow>
   t_roots M = t_roots L \<and> t_ops M = t_ops L \<and> t_attempts M = t_attempts L \<and> t_budgets M = t_budgets L
   \<and> t_bindings M = t_bindings L \<and> t_outbox M = t_outbox L"
  by (induction refs arbitrary: L) (auto split: if_splits)

lemma committed_row_abs:
  "\<not> att_compute_held b \<Longrightarrow> abs_att ops (committed_row c b) = (abs_att ops b)\<lparr>aa_state := RESULT_COMMITTED, aa_compute := False\<rparr>"
  by (simp add: committed_row_def abs_att_def)

lemma failed_row_abs:
  "abs_att ops (failed_row st reason b) = (abs_att ops b)\<lparr>aa_state := st, aa_compute := False\<rparr>"
  by (simp add: failed_row_def abs_att_def)

lemma refines_commit_result:
  assumes ok: "ledger_ok L" and ran: "commit_result digest c rv ref usage atts L = Inr M"
  shows "refines L M"
proof -
  from ran obtain a x r where own: "owned rv L = Inr (a, x, r)"
    by (auto simp: commit_result_def and_then_Inr_iff)
  from ownedE [OF ok own] have o: "find_attempt L (rv_attempt_id rv) = Some a" "att_id a = rv_attempt_id rv"
    "find_op L (att_operation_id a) = Some x" "op_id x = att_operation_id a"
    "att_budget_bound a = budget_bound_of (op_spec x)" by metis+
  show ?thesis
  proof (cases "att_state a = RESULT_COMMITTED")
    case True
    then show ?thesis using ran own by (auto simp: commit_result_def path_none split: if_splits)
  next
    case False
    obtain L1 expired where e: "expire_operation c (op_spec x) (stamp c) L = (L1, expired)"
      by (cases "expire_operation c (op_spec x) (stamp c) L")
    define cancelled where "cancelled = (root_cancel_requested r \<or> op_state x = CANCELLED \<or> root_state r \<noteq> RUNNING)"
    define over where "over = (expired \<or> op_terminal (op_state x))"
    define d where "d = (if cancelled then LateCancelled else if over then LateTerminal else ResultDisposition)"
    from ran own False e obtain L2 L3 where guard: "\<not> att_compute_held a" "att_state a = BACKEND_FINISHED"
      and L2: "record_artifacts digest (op_tenant_id x) (op_id x) (att_id a) d (ref # atts) L1 = Inr L2"
      and L3: "settle c a (op_root_id x) usage L2 = Inr L3"
      and M: "M = (let L4 = set_attempt (att_id a) (committed_row c) L3;
                 L5 = (if \<not> cancelled \<and> \<not> over then set_op (op_id x) (succeed_op ref) L4
                       else if cancelled \<and> \<not> over then terminal c (op_id x) FAILED ''root_terminal'' L4
                       else L4)
             in completion_events c (op_id x) L5)"
      by (auto simp: commit_result_def and_then_Inr_iff Let_def cancelled_def over_def d_def split: if_splits)
    have one: "refines L L1" using refines_expire [of L c "op_spec x" "stamp c"] e by simp
    note fr = record_artifacts_frame [OF L2]
    have same2: "abs_ledger L2 = abs_ledger L1" using fr by (intro abs_same) auto
    then have two: "refines L L2" using one by simp
    then have ok2: "ledger_ok L2" using ok by (rule refines_ok)
    have atts1: "t_attempts L1 = t_attempts L" using e by (auto simp: expire_operation_def split: if_splits)
    have a2: "find_attempt L2 (att_id a) = Some a" using o(1,2) fr atts1 by simp
    have kid: "os_operation_id (op_spec x) = op_id x" using ok_op [OF ok o(3)] by simp
    obtain x2 where x2: "find_op L2 (att_operation_id a) = Some x2" "op_root_id x2 = op_root_id x"
      "op_terminal (op_state x2) = over"
    proof (cases expired)
      case True
      then have "L1 = terminal c (op_id x) FAILED ''operation_deadline_exceeded'' L"
        using e kid by (auto simp: expire_operation_def split: if_splits)
      then have "find_op L2 (att_operation_id a) = Some (finish_op FAILED ''operation_deadline_exceeded'' x)"
        using fr o(3,4) by (simp add: lookup_update_rows)
      then show thesis using True
        by (intro that [of "finish_op FAILED ''operation_deadline_exceeded'' x"]) (auto simp: over_def finish_op_state)
    next
      case False
      then have "L1 = L" using e by (auto simp: expire_operation_def split: if_splits)
      then show thesis using that fr o(3) False by (auto simp: over_def)
    qed
    define used where "used = (if att_budget_held a then usage else None)"
    have L3': "settle c a (op_root_id x) used L2 = Inr L3"
      using L3 by (cases "att_budget_held a") (auto simp: used_def settle_unheld)
    have "0 < att_budget_bound a"
      using o(5) valid_operation_bound_pos [OF ok_op(4) [OF ok o(3)]] by simp
    then have pos: "0 \<le> or_else used (att_budget_bound a)"
      using settle_held [OF _ L3] by (cases "att_budget_held a") (auto simp: used_def)
    let ?L4 = "set_attempt (att_id a) (committed_row c) L3"
    have ending: "refines L2 (m ?L4)"
      if m: "abs_ledger (m ?L4) = a_move (att_operation_id a) mv (abs_ledger ?L4)"
        and mv: "move_allowed mv RESULT_COMMITTED (op_state x2)" for m mv
      using refines_end [OF ok2 a2 _ x2(1), of c used L3 RESULT_COMMITTED "committed_row c" m mv]
        L3' x2(2) guard pos m mv committed_row_abs by simp
    have post: "refines L4 (completion_events c (op_id x) L4)"
      if "\<exists>y. find_op L4 (op_id x) = Some y \<and> op_terminal (op_state y)" for L4
      using that refines_complete by blast
    have ops3: "t_ops L3 = t_ops L2" by (rule settle_frame(1) [OF L3])
    consider "\<not> cancelled" "\<not> over" | "cancelled" "\<not> over" | "over" by blast
    then have "refines L2 M"
    proof cases
      case 1
      then have "M = completion_events c (att_operation_id a) (set_op (att_operation_id a) (succeed_op ref) ?L4)"
        using M o(4) by (simp add: Let_def)
      then show ?thesis
        using ending [of "\<lambda>L. completion_events c (att_operation_id a) (set_op (att_operation_id a) (succeed_op ref) L)", OF move_succeed]
          1 x2(3) by simp
    next
      case 2
      let ?L5 = "terminal c (att_operation_id a) FAILED ''root_terminal'' ?L4"
      have M': "M = completion_events c (op_id x) ?L5" using M 2 o(4) by (simp add: Let_def)
      have "find_op ?L5 (op_id x) = Some (finish_op FAILED ''root_terminal'' x2)"
        using ops3 x2(1) o(4) ok_op(1) [OF ok2 x2(1)] by (simp add: lookup_update_rows)
      then have "refines ?L5 M" unfolding M' using finish_op_terminal by (intro post) fastforce
      moreover have "refines L2 ?L5"
        by (rule ending [of "terminal c (att_operation_id a) FAILED ''root_terminal''", OF move_finish]) simp
      ultimately show ?thesis by (rule refines_trans [rotated])
    next
      case 3
      then have M': "M = completion_events c (op_id x) ?L4" using M by (auto simp: Let_def)
      have "refines L2 ?L4" using ending [of "\<lambda>L. L", OF move_stay] 3 x2(3) by simp
      moreover have "refines ?L4 M"
        unfolding M' using ops3 x2 3 o(4) by (intro post) simp
      ultimately show ?thesis by (rule refines_trans)
    qed
    with two show ?thesis by (rule refines_trans)
  qed
qed

lemma refines_unknown:
  assumes ok: "ledger_ok L" and ran: "unknown c rv reason L = Inr M"
  shows "refines L M"
proof -
  from ran obtain a x r where own: "owned rv L = Inr (a, x, r)"
    by (auto simp: unknown_def and_then_Inr_iff)
  from ownedE [OF ok own] have o: "find_attempt L (rv_attempt_id rv) = Some a" "att_id a = rv_attempt_id rv"
    "find_op L (att_operation_id a) = Some x" "op_id x = att_operation_id a" by metis+
  show ?thesis
  proof (cases "ended (att_state a)")
    case True
    then show ?thesis using ran own by (simp add: unknown_def path_none)
  next
    case False
    let ?L1 = "set_attempt (att_id a) (unknown_row c reason) L"
    obtain L2 expired where e: "expire_operation c (op_spec x) (stamp c) ?L1 = (L2, expired)"
      by (cases "expire_operation c (op_spec x) (stamp c) ?L1")
    have M: "M = (if \<not> expired \<and> \<not> op_terminal (op_state x)
                  then set_op (op_id x) (reconciling_op reason) L2 else L2)"
      using ran own False e by (simp add: unknown_def Let_def)
    have abs1: "abs_ledger ?L1 = a_unknown (att_id a) (abs_ledger L)"
      unfolding a_unknown_def using o(1,2)
      by (intro abs_set_attempt [OF ok_distinct(3) [OF ok]]) (simp_all add: unknown_row_def abs_att_def)
    have "proto_step (abs_ledger L) (a_unknown (att_id a) (abs_ledger L))"
      using o(1,2) False by (intro PUnknown [where a = "abs_att (t_ops L) a"]) simp_all
    then have one: "refines L ?L1" unfolding abs1 by (rule proto_path_one)
    have two: "refines L L2"
      using refines_trans [OF one refines_expire [of ?L1 c "op_spec x" "stamp c"]] e by simp
    show ?thesis
    proof (cases "\<not> expired \<and> \<not> op_terminal (op_state x)")
      case True
      then have L2: "L2 = ?L1" using e by (auto simp: expire_operation_def split: if_splits)
      have "abs_ledger M = a_reconciling (op_id x) (abs_ledger ?L1)"
        unfolding a_reconciling_def using True M L2
        by (simp add: abs_set_op [of "reconciling_op reason" "\<lambda>x. x\<lparr>ao_state := RECONCILING\<rparr>"] reconciling_op_def abs_op_def)
      moreover have "proto_step (abs_ledger ?L1) (a_reconciling (op_id x) (abs_ledger ?L1))"
        using o open_in_flight(1) [OF ok o(1) False o(3)] True
        by (intro PReconciling [where x = "abs_op x"]) auto
      ultimately have "refines ?L1 M" by (metis proto_path_one)
      with one show ?thesis by (rule refines_trans)
    next
      case False
      then show ?thesis using M two by auto
    qed
  qed
qed

lemma refines_fail:
  assumes ok: "ledger_ok L" and ran: "fail c rv reason not_sent retry delay L = Inr M"
  shows "refines L M"
proof -
  from ran obtain a x r where own: "owned rv L = Inr (a, x, r)"
    by (auto simp: fail_def and_then_Inr_iff)
  from ownedE [OF ok own] have o: "find_attempt L (rv_attempt_id rv) = Some a" "att_id a = rv_attempt_id rv"
    "find_op L (att_operation_id a) = Some x" "op_id x = att_operation_id a"
    "att_budget_bound a = budget_bound_of (op_spec x)" by metis+
  have kid: "os_operation_id (op_spec x) = op_id x" using ok_op [OF ok o(3)] by simp
  show ?thesis
  proof (cases "ended (att_state a)")
    case True
    then show ?thesis using ran own by (simp add: fail_def path_none)
  next
    case False
    let ?st = "if not_sent then FAILED_NOT_SENT else ATTEMPT_FAILED"
    let ?usage = "if not_sent then Some 0 else (None :: int option)"
    from ran own False obtain L1 where
      L1: "settle c a (op_root_id x) ?usage L = Inr L1"
      and M: "M = (let L2 = set_attempt (att_id a) (failed_row ?st reason) L1 in
              if op_terminal (op_state x) then L2
               else if root_cancel_requested r then terminal c (op_id x) CANCELLED ''user_cancelled'' L2
               else if root_state r \<noteq> RUNNING then terminal c (op_id x) FAILED ''root_terminal'' L2
               else if op_expired (op_spec x) (stamp c) then fst (expire_operation c (op_spec x) (stamp c) L2)
               else if retry then set_op (op_id x) (retry_op reason (utc c + delay)) L2
               else terminal c (op_id x) FAILED reason L2)"
      by (auto simp: fail_def and_then_Inr_iff Let_def simp del: if_split split: if_split_asm)
    have pos: "0 \<le> or_else ?usage (att_budget_bound a)"
      using o(5) valid_operation_bound_pos [OF ok_op(4) [OF ok o(3)]] by simp
    let ?L2 = "set_attempt (att_id a) (failed_row ?st reason) L1"
    have ending: "refines L (m ?L2)"
      if "abs_ledger (m ?L2) = a_move (att_operation_id a) mv (abs_ledger ?L2)"
        and "move_allowed mv ?st (op_state x)" for m mv
      using refines_end [OF ok _ False o(3) L1, of ?st "failed_row ?st reason" m mv]
        o(1,2) pos that failed_row_abs by (simp split: if_splits)
    have fin: "refines L (terminal c (att_operation_id a) st' why ?L2)" if "st' = FAILED \<or> st' = CANCELLED" for st' why
      by (rule ending [of "terminal c (att_operation_id a) st' why", OF move_finish]) (use that in simp)
    have exp: "fst (expire_operation c (op_spec x) (stamp c) ?L2)
        = terminal c (att_operation_id a) FAILED ''operation_deadline_exceeded'' ?L2"
      if "op_expired (op_spec x) (stamp c)" using that kid o(4) by (simp add: expire_operation_def)
    have stay: "refines L ?L2" if "op_terminal (op_state x)"
      using ending [of "\<lambda>L. L", OF move_stay] that by simp
    have again: "refines L (set_op (att_operation_id a) (retry_op reason (utc c + delay)) ?L2)"
      if "\<not> op_terminal (op_state x)"
      by (rule ending [of "set_op (att_operation_id a) (retry_op reason (utc c + delay))", OF move_retry])
        (use that in simp)
    show ?thesis
      unfolding M Let_def using fin exp stay again o(4) by simp
  qed
qed

end
