(* ===== verification/Ledger_Refine_Recovery.thy ===== *)
theory Ledger_Refine_Recovery
  imports Ledger_Refine_Attempts
begin

text \<open>
  The end of a run, the outbox and recovery refine the abstract machine.
\<close>

section \<open>Roots\<close>

text \<open>An update of one root as a step on the whole table.\<close>

lemma refines_set_root:
  assumes ok: "ledger_ok L" and r: "find_root L rid = Some r"
    and lines: "\<And>r. root_line (f r) = root_line r"
    and change: "root_change (abs_ledger L) (abs_root r) (abs_root (f r))"
  shows "refines L (set_root rid f L)"
proof -
  let ?g = "\<lambda>s. if ar_id s = rid then abs_root (f r) else s"
  have only: "s = r" if "s \<in> set (t_roots L)" "root_id s = rid" for s
    using found_unique [OF ok_distinct(1) [OF ok] r that] .
  have "abs_ledger (set_root rid f L) = (abs_ledger L)\<lparr>p_roots := map ?g (p_roots (abs_ledger L))\<rparr>"
    by (rule proto_eqI)
      (use only in \<open>auto simp: update_rows_def lines_update_root [unfolded update_rows_def, OF lines]\<close>)
  moreover have "proto_step (abs_ledger L) ((abs_ledger L)\<lparr>p_roots := map ?g (p_roots (abs_ledger L))\<rparr>)"
  proof (rule PRoots)
    fix s assume "s \<in> set (p_roots (abs_ledger L))"
    then obtain t where "t \<in> set (t_roots L)" "s = abs_root t" by auto
    then show "root_change (abs_ledger L) s (?g s)"
      using only change by (auto simp: root_change_def)
  qed
  ultimately show ?thesis by (metis proto_path_one)
qed

lemma refines_cancel:
  assumes ok: "ledger_ok L" and ran: "cancel c rid tenant L = Inr M"
  shows "refines L M"
proof -
  from ran obtain r where r: "find_root L rid = Some r"
    by (auto simp: cancel_def split: option.splits)
  show ?thesis
  proof (cases "root_state r \<in> {ROOT_SUCCEEDED, PARTIAL, ROOT_FAILED}")
    case True
    then show ?thesis using ran r by (auto simp: cancel_def path_none split: if_splits)
  next
    case False
    then have st: "root_state r = RUNNING \<or> root_state r = ROOT_CANCELLED" by (cases "root_state r") auto
    let ?L1 = "set_root rid (cancelled_root c) L"
    have M: "M = emit_event c (cancel_event_id rid) rid (CancelWorkflow rid)
                (terminal_all c (pending_ids rid ?L1) CANCELLED ''user_cancelled'' ?L1)"
      using ran r False by (auto simp: cancel_def Let_def split: if_splits)
    have "refines L ?L1"
      by (rule refines_set_root [OF ok r])
        (use st in \<open>auto simp: root_line_def cancelled_root_def root_change_def abs_root_def\<close>)
    moreover have "refines ?L1 M"
      unfolding M by (rule refines_trans [OF refines_terminal_all refines_event]) simp_all
    ultimately show ?thesis by (rule refines_trans)
  qed
qed

lemma pending_ids_empty:
  "pending_ids rid L = [] \<longleftrightarrow> (\<forall>x \<in> set (t_ops L). op_root_id x = rid \<longrightarrow> op_terminal (op_state x))"
  by (auto simp: pending_ids_def pending_op_def filter_empty_conv)

lemma refines_transition_run:
  assumes ok: "ledger_ok L" and r: "find_root L rid = Some r" and run: "root_state r = RUNNING"
    and st: "st \<noteq> RUNNING" and ran: "transition_run c r st res reason L = Inr M"
  shows "refines L M"
proof -
  have rid: "root_id r = rid" using r by (rule lookup_row_Some_key)
  let ?f = "finished_root (stamp_later c) st res reason"
  let ?L1 = "set_root rid ?f L"
  from ran rid have none: "st = ROOT_SUCCEEDED \<Longrightarrow> pending_ids rid L = []"
    by (auto simp: transition_run_def Let_def split: if_splits)
  then have M: "M = wake (if root_state (?f r) \<noteq> ROOT_SUCCEEDED
               then terminal_all c (pending_ids rid ?L1) CANCELLED
                      (text_or (root_terminal_reason (?f r)) ''root_finished'') ?L1 else ?L1)"
    using ran rid by (auto simp: transition_run_def Let_def split: if_splits)
  have "refines L ?L1"
  proof (rule refines_set_root [OF ok r])
    show "root_line (?f s) = root_line s" for s by (simp add: root_line_def finished_root_def)
    show "root_change (abs_ledger L) (abs_root r) (abs_root (?f r))"
      using run st none rid
      by (auto simp: root_change_def finished_root_def abs_root_def pending_ids_empty)
  qed
  moreover have "refines ?L1 M" unfolding M by (simp add: refines_terminal_all path_none)
  ultimately show ?thesis by (rule refines_trans)
qed

lemma refines_finish_run:
  assumes ok: "ledger_ok L" and ran: "finish_run digest c rid tenant state res reason L = Inr M"
  shows "refines L M"
proof (cases "state = ''CANCELLED''")
  case True
  then show ?thesis using ran refines_cancel [OF ok] by (auto simp: finish_run_def split: if_splits)
next
  case False
  with ran obtain st r where st: "finish_state state = Some st" and r: "find_root L rid = Some r"
    by (auto simp: finish_run_def split: option.splits if_splits)
  have ne: "st \<noteq> RUNNING" using st by (auto split: if_splits)
  have "M = L \<or> (root_state r = RUNNING \<and>
      (transition_run c r ROOT_FAILED None (Some ''deadline_exceeded'') L = Inr M
       \<or> transition_run c r st res reason L = Inr M))"
    using ran False st r by (simp add: finish_run_def del: finish_state.simps split: if_splits)
  then show ?thesis
    using refines_transition_run [OF ok r _ ne] refines_transition_run [OF ok r, of ROOT_FAILED]
    by (auto intro: path_none)
qed

section \<open>The outbox\<close>

lemma refines_outbox:
  assumes "map abs_event (t_outbox M) = map abs_event (t_outbox L)" and "t_roots M = t_roots L"
    "t_ops M = t_ops L" "t_attempts M = t_attempts L" "t_budgets M = t_budgets L" "t_bindings M = t_bindings L"
  shows "refines L M"
  by (rule refines_same) (rule proto_eqI, simp_all add: assms)

lemma refines_claim_events: "refines L (fst (claim_events c locked owner limit L))"
  by (rule refines_outbox) (simp_all add: claim_events_def Let_def claim_row_def abs_event_def)

lemma refines_delivered: "refines L (fst (delivered c eid owner n L))"
  by (rule refines_outbox) (simp_all add: delivered_def abs_event_def)

lemma refines_defer_event: "defer_event c eid owner n delay L = Inr (M, b) \<Longrightarrow> refines L M"
  by (rule refines_outbox) (auto simp: defer_event_def abs_event_def split: if_splits)

section \<open>Attempts that lapsed\<close>

text \<open>What a settlement and its closing update leave of other rows.\<close>

lemma settle_other:
  assumes "settle c a rid usage L = Inr L1" and "k \<noteq> att_id a" and h: "\<And>b. att_id (h b) = att_id b"
  shows "find_attempt (set_attempt (att_id a) h L1) k = find_attempt L k"
proof -
  have rows: "lookup_row att_id k (update_rows (\<lambda>r. att_id r = att_id a) f t) = lookup_row att_id k t"
    if "\<And>b. att_id (f b) = att_id b" for f t
  proof (cases "lookup_row att_id k t")
    case (Some r)
    then have "att_id r \<noteq> att_id a" using assms(2) by (auto dest: lookup_row_Some_key)
    then show ?thesis using Some that by (simp add: lookup_update_rows)
  qed (use that in \<open>simp add: lookup_update_rows\<close>)
  show ?thesis
    using settle_frame(4) [OF assms(1)] by (simp add: rows h settled_row_def split: if_splits)
qed

definition joined_now :: "ledger \<Rightarrow> joined \<Rightarrow> bool" where
  "joined_now L axr \<longleftrightarrow> (case axr of (a, x, r) \<Rightarrow>
     find_attempt L (att_id a) = Some a \<and> \<not> ended (att_state a) \<and> op_id x = att_operation_id a \<and>
     root_of_op (t_ops L) (att_operation_id a) = op_root_id x)"

lemma set_join_attempts:
  assumes "ledger_ok L" and "xs \<subseteq> set (t_attempts L)" and "(a, x, r) \<in> set (join_attempts L ys)" and "set ys \<subseteq> xs"
  shows "find_attempt L (att_id a) = Some a" "find_op L (att_operation_id a) = Some x"
    "root_of_op (t_ops L) (att_operation_id a) = op_root_id x" "op_id x = att_operation_id a"
proof -
  from assms(3) obtain b where b: "b \<in> set ys" "join_attempt L b = Some (a, x, r)"
    by (auto simp: join_attempts_def List.map_filter_def)
  then have "b = a" and x: "find_op L (att_operation_id a) = Some x"
    by (auto simp: join_attempt_def split: option.splits)
  with b assms(2,4) show "find_attempt L (att_id a) = Some a"
    using ok_distinct(3) [OF assms(1)] by (auto simp: lookup_row_iff)
  show "find_op L (att_operation_id a) = Some x" by (rule x)
  show "root_of_op (t_ops L) (att_operation_id a) = op_root_id x" using x by (simp add: root_of_op_def)
  show "op_id x = att_operation_id a" using x by (rule lookup_row_Some_key)
qed

lemma map_join_attempts:
  "map (att_id \<circ> fst) (join_attempts L ys) = map att_id (filter (\<lambda>a. join_attempt L a \<noteq> None) ys)"
  by (induction ys) (auto simp: join_attempts_def List.map_filter_simps join_attempt_def split: option.splits)

lemma distinct_join_attempts:
  "distinct (map att_id ys) \<Longrightarrow> distinct (map (att_id \<circ> fst) (join_attempts L ys))"
  unfolding map_join_attempts by (rule distinct_map_filter)

lemma unsent_row_abs:
  "abs_att ops (unsent_row b) = (abs_att ops b)\<lparr>aa_state := FAILED_NOT_SENT, aa_compute := False\<rparr>"
  by (simp add: unsent_row_def abs_att_def)

lemma move_requeue:
  assumes d: "distinct (map op_id (t_ops L))" and x: "find_op L k = Some x"
  shows "abs_ledger (set_op k requeue_op L) =
    a_move k (if op_terminal (op_state x) then Stay else Requeue READY True) (abs_ledger L)"
proof (cases "op_terminal (op_state x)")
  case True
  have "update_rows (\<lambda>r. op_id r = k) requeue_op (t_ops L) = update_rows (\<lambda>r. op_id r = k) (\<lambda>x. x) (t_ops L)"
    using True by (intro update_found_cong [OF d x]) (simp add: requeue_op_def)
  then have "t_ops (set_op k requeue_op L) = t_ops L" by (simp add: update_rows_def)
  then have "abs_ledger (set_op k requeue_op L) = abs_ledger L" by (rule abs_same [rotated]) simp_all
  then show ?thesis using True by simp
next
  case False
  let ?f = "\<lambda>x. x\<lparr>op_state := READY, op_active_attempt := None\<rparr>"
  have "update_rows (\<lambda>r. op_id r = k) requeue_op (t_ops L) = update_rows (\<lambda>r. op_id r = k) ?f (t_ops L)"
    using False by (intro update_found_cong [OF d x]) (simp add: requeue_op_def)
  then have "set_op k requeue_op L = set_op k ?f L" by (simp add: set_op_def)
  moreover have "abs_ledger (set_op k ?f L) = a_requeue k READY True (abs_ledger L)"
    unfolding a_requeue_def by (rule abs_set_op) (simp_all add: abs_op_def)
  ultimately show ?thesis using False by simp
qed

lemma find_op_of_root:
  assumes "ledger_ok L" and "find_attempt L k = Some a" 
  obtains x where "find_op L (att_operation_id a) = Some x"
    "op_root_id x = root_of_op (t_ops L) (att_operation_id a)"
    "att_budget_bound a = budget_bound_of (op_spec x)" "0 < att_budget_bound a"
proof -
  obtain x where x: "find_op L (att_operation_id a) = Some x"
    "root_of_op (t_ops L) (att_operation_id a) = op_root_id x" "att_budget_bound a = budget_bound_of (op_spec x)"
    using ok_attempt(3) [OF assms] by blast
  then show thesis using that ok_op(4) [OF assms(1) x(1)] by simp
qed

lemma refines_lapse_attempt:
  assumes ok: "ledger_ok L" and now: "joined_now L axr" and ran: "lapse_attempt c axr L = Inr M"
  shows "refines L M"
proof -
  obtain a x r where axr: "axr = (a, x, r)" by (cases axr)
  with now have n: "find_attempt L (att_id a) = Some a" "\<not> ended (att_state a)"
    "op_id x = att_operation_id a" "root_of_op (t_ops L) (att_operation_id a) = op_root_id x"
    by (auto simp: joined_now_def)
  obtain y where y: "find_op L (att_operation_id a) = Some y" "op_root_id y = op_root_id x"
    "0 < att_budget_bound a" using find_op_of_root [OF ok n(1)] n(4) by metis
  show ?thesis
  proof (cases "att_state a = RESERVED")
    case True
    then obtain L1 where L1: "settle c a (op_root_id x) (Some 0) L = Inr L1"
      and M: "M = set_op (att_operation_id a) requeue_op (set_attempt (att_id a) unsent_row L1)"
      using ran axr by (auto simp: lapse_attempt_def and_then_Inr_iff)
    let ?L2 = "set_attempt (att_id a) unsent_row L1"
    let ?mv = "if op_terminal (op_state y) then Stay else Requeue READY True"
    have y2: "find_op ?L2 (att_operation_id a) = Some y" using y(1) settle_frame(1) [OF L1] by simp
    have d2: "distinct (map op_id (t_ops ?L2))" using ok_distinct(2) [OF ok] settle_frame(1) [OF L1] by simp
    have m: "abs_ledger (set_op (att_operation_id a) requeue_op ?L2) = a_move (att_operation_id a) ?mv (abs_ledger ?L2)"
      by (rule move_requeue [OF d2 y2])
    show ?thesis
      unfolding M
      by (rule refines_end [where m = "set_op (att_operation_id a) requeue_op" and h = unsent_row,
            OF ok n(1,2) y(1) _ _ _ _ _ m])
        (use L1 y n True in \<open>auto simp: unsent_row_abs\<close>)
  next
    case False
    let ?L1 = "set_attempt (att_id a) (lost_row c) L"
    have M: "M = set_op (att_operation_id a) lost_op ?L1" using ran axr False by (simp add: lapse_attempt_def)
    have abs1: "abs_ledger ?L1 = a_unknown (att_id a) (abs_ledger L)"
      unfolding a_unknown_def using n(1)
      by (intro abs_set_attempt [OF ok_distinct(3) [OF ok]]) (simp_all add: lost_row_def abs_att_def)
    have one: "refines L ?L1"
      unfolding abs1 using n(1,2)
      by (intro proto_path_one PUnknown [where a = "abs_att (t_ops L) a"]) simp_all
    have two: "refines ?L1 M"
    proof (cases "op_terminal (op_state y)")
      case True
      have "update_rows (\<lambda>r. op_id r = att_operation_id a) lost_op (t_ops L)
          = update_rows (\<lambda>r. op_id r = att_operation_id a) (\<lambda>x. x) (t_ops L)"
        using True by (intro update_found_cong [OF ok_distinct(2) [OF ok] y(1)]) (simp add: lost_op_def)
      then have "abs_ledger M = abs_ledger ?L1" unfolding M by (intro abs_same) (simp_all add: update_rows_def)
      then show ?thesis by (rule refines_same)
    next
      case False
      let ?f = "\<lambda>x. x\<lparr>op_state := RECONCILING, op_wait_reason := Some ''unknown_compute_or_result''\<rparr>"
      have "update_rows (\<lambda>r. op_id r = att_operation_id a) lost_op (t_ops L)
          = update_rows (\<lambda>r. op_id r = att_operation_id a) ?f (t_ops L)"
        using False by (intro update_found_cong [OF ok_distinct(2) [OF ok] y(1)]) (simp add: lost_op_def)
      then have "M = set_op (att_operation_id a) ?f ?L1" unfolding M by (simp add: set_op_def set_attempt_def)
      moreover have "abs_ledger (set_op (att_operation_id a) ?f ?L1) = a_reconciling (att_operation_id a) (abs_ledger ?L1)"
        unfolding a_reconciling_def by (rule abs_set_op) (simp_all add: abs_op_def)
      moreover have "proto_step (abs_ledger ?L1) (a_reconciling (att_operation_id a) (abs_ledger ?L1))"
        using y(1) open_in_flight(1) [OF ok n(1,2) y(1) False]
        by (intro PReconciling [where x = "abs_op y"]) auto
      ultimately show ?thesis by (metis proto_path_one)
    qed
    from one two show ?thesis by (rule refines_trans)
  qed
qed

lemma lapse_attempt_other:
  assumes ran: "lapse_attempt c (a, x, r) L = Inr M" and now: "joined_now L byz" and ne: "att_id (fst byz) \<noteq> att_id a"
  shows "joined_now M byz"
proof -
  have roots: "root_of_op (update_rows q requeue_op ops) = root_of_op ops" 
    "root_of_op (update_rows q lost_op ops) = root_of_op ops" for q ops
    by (rule root_of_op_update; simp add: requeue_op_def lost_op_def)+
  show ?thesis
  proof (cases "att_state a = RESERVED")
    case True
    then obtain L1 where L1: "settle c a (op_root_id x) (Some 0) L = Inr L1"
      and M: "M = set_op (att_operation_id a) requeue_op (set_attempt (att_id a) unsent_row L1)"
      using ran by (auto simp: lapse_attempt_def and_then_Inr_iff)
    have "find_attempt M (att_id (fst byz)) = find_attempt L (att_id (fst byz))"
      using settle_other [OF L1 ne, of unsent_row] unfolding M by (simp add: unsent_row_def)
    moreover have "root_of_op (t_ops M) = root_of_op (t_ops L)"
      unfolding M using settle_frame(1) [OF L1] by (simp add: roots)
    ultimately show ?thesis using now by (auto simp: joined_now_def)
  next
    case False
    then have M: "M = set_op (att_operation_id a) lost_op (set_attempt (att_id a) (lost_row c) L)"
      using ran by (simp add: lapse_attempt_def)
    have "find_attempt M (att_id (fst byz)) = find_attempt L (att_id (fst byz))"
      unfolding M using ne
      by (cases "find_attempt L (att_id (fst byz))")
        (auto simp: lookup_update_rows lost_row_def dest: lookup_row_Some_key)
    moreover have "root_of_op (t_ops M) = root_of_op (t_ops L)" unfolding M by (simp add: roots)
    ultimately show ?thesis using now by (auto simp: joined_now_def)
  qed
qed

lemma refines_lapse_all:
  assumes "ledger_ok L" and "\<And>axr. axr \<in> set xs \<Longrightarrow> joined_now L axr" and "distinct (map (att_id \<circ> fst) xs)"
    and "lapse_all c xs L = Inr M"
  shows "refines L M"
  using assms
proof (induction xs arbitrary: L)
  case Nil
  then show ?case by (simp add: path_none)
next
  case (Cons axr xs)
  obtain a x r where axr: "axr = (a, x, r)" by (cases axr)
  from Cons.prems(4) obtain L1 where L1: "lapse_attempt c axr L = Inr L1" "lapse_all c xs L1 = Inr M"
    by (auto simp: and_then_Inr_iff)
  have one: "refines L L1" using Cons.prems L1 by (intro refines_lapse_attempt) auto
  have "joined_now L1 byz" if "byz \<in> set xs" for byz
  proof (rule lapse_attempt_other [OF L1(1) [unfolded axr]])
    show "joined_now L byz" using Cons.prems(2) that by simp
    show "att_id (fst byz) \<noteq> att_id a" using Cons.prems(3) that axr by (force simp: image_iff)
  qed
  then have "refines L1 M"
    using Cons.prems L1 refines_ok [OF one] by (intro Cons.IH) auto
  with one show ?case by (rule refines_trans)
qed

section \<open>Reconciliation\<close>

lemma joined_attempt:
  assumes ok: "ledger_ok L" and j: "(a, x, r) \<in> set (join_attempts L ys)" and ys: "set ys \<subseteq> set (t_attempts L)"
    and opn: "\<not> ended (att_state a)"
  shows "joined_now L (a, x, r)"
  using set_join_attempts [OF ok order_refl j ys] opn by (simp add: joined_now_def)

lemma refines_fail_impossible: "refines L (fail_impossible c pools xs L)"
proof (induction xs arbitrary: L)
  case (Cons x xs)
  have "refines L (case impossible_reason (op_spec x) pools of None \<Rightarrow> L
        | Some reason \<Rightarrow> terminal c (op_id x) FAILED reason L)"
    by (simp add: path_none refines_terminal split: option.splits)
  from refines_trans [OF this Cons.IH] show ?case by simp
qed (simp add: path_none)

lemma refines_expire_roots:
  assumes ok: "ledger_ok L"
  shows "refines L (expire_roots c L)"
proof -
  have lines: "abs_lines (update_rows (\<lambda>_. True) (expire_root c) (t_roots L)) (t_budgets L)
      = abs_lines (t_roots L) (t_budgets L)"
    by (rule lines_update_root) (simp add: root_line_def expire_root_def)
  define g where "g r = (if \<exists>s \<in> set (t_roots L). abs_root s = r \<and> root_state s = RUNNING \<and> root_deadline s \<le> txn_now c
      then r\<lparr>ar_state := ROOT_FAILED, ar_reason := Some ''deadline_exceeded''\<rparr> else r)" for r
  have same: "s = r" if "r \<in> set (t_roots L)" "s \<in> set (t_roots L)" "abs_root s = abs_root r" for r s
    using that distinct_lookup_unique [OF ok_distinct(1) [OF ok] that(2,1)] by (simp add: abs_root_def)
  have g: "abs_root (expire_root c r) = g (abs_root r)" if r: "r \<in> set (t_roots L)" for r
  proof -
    have "(\<exists>s \<in> set (t_roots L). abs_root s = abs_root r \<and> root_state s = RUNNING \<and> root_deadline s \<le> txn_now c)
        \<longleftrightarrow> root_state r = RUNNING \<and> root_deadline r \<le> txn_now c"
      using same [OF r] r by metis
    then show ?thesis by (simp add: g_def expire_root_def abs_root_def)
  qed
  have "abs_ledger (expire_roots c L) = (abs_ledger L)\<lparr>p_roots := map g (p_roots (abs_ledger L))\<rparr>"
    by (rule proto_eqI) (use lines g in \<open>simp_all add: expire_roots_def update_rows_def\<close>)
  moreover have "proto_step (abs_ledger L) ((abs_ledger L)\<lparr>p_roots := map g (p_roots (abs_ledger L))\<rparr>)"
    by (rule PRoots) (auto simp: g_def root_change_def dest: arg_cong [of _ _ ar_state])
  ultimately show ?thesis by (metis proto_path_one)
qed

lemma refines_lapsed:
  assumes ok: "ledger_ok L" and ran: "lapse_all c (lapsed_attempts c L) L = Inr M"
  shows "refines L M"
proof -
  have lapsed: "joined_now L axr" if "axr \<in> set (lapsed_attempts c L)" for axr
  proof -
    obtain a x r where axr: "axr = (a, x, r)" by (cases axr)
    with that have "(a, x, r) \<in> set (join_attempts L (t_attempts L))" "\<not> ended (att_state a)"
      by (auto simp: lapsed_attempts_def attempt_lapsed_def)
    then show ?thesis unfolding axr by (intro joined_attempt [OF ok]) auto
  qed
  have "distinct (map (att_id \<circ> fst) (lapsed_attempts c L))"
    unfolding lapsed_attempts_def
    by (rule distinct_map_filter, rule distinct_join_attempts, rule ok_distinct(3) [OF ok])
  then show ?thesis using refines_lapse_all [OF ok lapsed _ ran] by simp
qed

lemma refines_reconcile_transaction:
  assumes ok: "ledger_ok L" and ran: "reconcile_transaction c L = Inr (M, n)"
  shows "refines L M"
proof -
  obtain L1 direct where L1: "expire_direct c (purge_direct c L) = (L1, direct)"
    by (cases "expire_direct c (purge_direct c L)")
  define L2 where "L2 = expire_waiters c L1"
  define L3 where "L3 = terminal_all c (expired_op_ids c L2) FAILED ''operation_deadline_exceeded'' L2"
  from ran L1 obtain L4 where L4: "lapse_all c (lapsed_attempts c L3) L3 = Inr L4"
    and M: "M = (let L5 = terminal_all c (overdue_op_ids c L4) FAILED ''deadline_exceeded'' L4;
             L6 = fail_impossible c (map pool_spec_of (t_pools L5)) (oldest_ready L5) L5;
             L7 = expire_roots c L6;
             L8 = terminal_all c (orphaned_op_ids L7) CANCELLED ''root_terminal'' L7
         in if direct \<noteq> 0 then wake L8 else L8)"
    by (auto simp: reconcile_transaction_def and_then_Inr_iff Let_def L2_def L3_def)
  define L5 where "L5 = terminal_all c (overdue_op_ids c L4) FAILED ''deadline_exceeded'' L4"
  define L6 where "L6 = fail_impossible c (map pool_spec_of (t_pools L5)) (oldest_ready L5) L5"
  define L7 where "L7 = expire_roots c L6"
  have "abs_ledger L1 = abs_ledger L"
    using L1 by (intro abs_same) (auto simp: expire_direct_def purge_direct_def)
  moreover have "abs_ledger L2 = abs_ledger L1" by (rule abs_same) (simp_all add: L2_def expire_waiters_def)
  ultimately have r2: "refines L L2" by (simp add: path_none)
  have r3: "refines L L3" by (rule refines_trans [OF r2]) (simp add: L3_def refines_terminal_all)
  then have ok3: "ledger_ok L3" using ok by (rule refines_ok)
  have r4: "refines L L4" by (rule refines_trans [OF r3 refines_lapsed [OF ok3 L4]])
  have r5: "refines L L5" by (rule refines_trans [OF r4]) (simp add: L5_def refines_terminal_all)
  have r6: "refines L L6" by (rule refines_trans [OF r5]) (simp add: L6_def refines_fail_impossible)
  have r7: "refines L L7"
    unfolding L7_def using refines_trans [OF r6 refines_expire_roots [OF refines_ok [OF r6 ok]]] .
  have "M = (if direct \<noteq> 0 then wake (terminal_all c (orphaned_op_ids L7) CANCELLED ''root_terminal'' L7)
      else terminal_all c (orphaned_op_ids L7) CANCELLED ''root_terminal'' L7)"
    unfolding M L5_def L6_def L7_def Let_def ..
  then have "refines L7 M" by (simp add: refines_terminal_all)
  with r7 show ?thesis by (rule refines_trans)
qed

section \<open>Stopped attempts\<close>

lemma stopped_row_abs:
  "abs_att ops (stopped_row c err b) = (abs_att ops b)\<lparr>aa_state := ATTEMPT_FAILED, aa_compute := False\<rparr>"
  by (simp add: stopped_row_def abs_att_def)

text \<open>A stopped attempt's row and its operation as they stand now.\<close>

definition stopped_now :: "ledger \<Rightarrow> joined \<Rightarrow> bool" where
  "stopped_now L axr \<longleftrightarrow> (case axr of (a, x, r) \<Rightarrow>
     find_attempt L (att_id a) = Some a \<and> \<not> ended (att_state a) \<and>
     find_op L (att_operation_id a) = Some x)"

lemma move_recover:
  assumes d: "distinct (map op_id (t_ops L))" and x: "find_op L k = Some x"
    and active: "op_active_attempt x = Some aid"
  shows "abs_ledger (set_op k (recover_op c aid reason) L) = a_move k (Requeue RETRY_WAIT True) (abs_ledger L)"
proof -
  let ?f = "\<lambda>x. x\<lparr>op_state := RETRY_WAIT, op_active_attempt := None, op_wait_reason := Some reason,
             op_retry_at := Some (txn_now c)\<rparr>"
  have "update_rows (\<lambda>r. op_id r = k) (recover_op c aid reason) (t_ops L) = update_rows (\<lambda>r. op_id r = k) ?f (t_ops L)"
    using active by (intro update_found_cong [OF d x]) (simp add: recover_op_def)
  then have "set_op k (recover_op c aid reason) L = set_op k ?f L" by (simp add: set_op_def)
  moreover have "abs_ledger (set_op k ?f L) = a_requeue k RETRY_WAIT True (abs_ledger L)"
    unfolding a_requeue_def by (rule abs_set_op) (simp_all add: abs_op_def)
  ultimately show ?thesis by simp
qed

lemma refines_settle_stopped_attempt:
  assumes ok: "ledger_ok L" and now: "stopped_now L axr"
    and ran: "settle_stopped_attempt c axr recover err reason L = Inr M"
  shows "refines L M"
proof -
  obtain a x r where axr: "axr = (a, x, r)" by (cases axr)
  with now have n: "find_attempt L (att_id a) = Some a" "\<not> ended (att_state a)"
    "find_op L (att_operation_id a) = Some x" by (auto simp: stopped_now_def)
  let ?usage = "if att_state a = RESERVED then Some 0 else (None :: int option)"
  from ran axr obtain L1 where L1: "settle c a (op_root_id x) ?usage L = Inr L1"
    and M: "M = (let L2 = set_attempt (att_id a) (stopped_row c err) L1 in
         if op_terminal (op_state x) then L2
              else if can_retry c recover x r L2
              then set_op (op_id x) (recover_op c (att_id a) reason) L2
              else terminal c (op_id x) FAILED err L2)"
    by (auto simp: settle_stopped_attempt_def and_then_Inr_iff Let_def simp del: if_split split: if_split_asm)
  let ?L2 = "set_attempt (att_id a) (stopped_row c err) L1"
  have xid: "op_id x = att_operation_id a" using n(3) by (rule lookup_row_Some_key)
  have bound: "0 < att_budget_bound a" using find_op_of_root [OF ok n(1)] by metis
  have ending: "refines L (m ?L2)"
    if "abs_ledger (m ?L2) = a_move (att_operation_id a) mv (abs_ledger ?L2)"
      and "move_allowed mv ATTEMPT_FAILED (op_state x)" for m mv
    by (rule refines_end [OF ok n L1, of ATTEMPT_FAILED "stopped_row c err" m mv])
      (use bound that stopped_row_abs in auto)
  have stay: "refines L ?L2" if "op_terminal (op_state x)"
    using ending [of "\<lambda>L. L", OF move_stay] that by simp
  have fin: "refines L (terminal c (op_id x) FAILED err ?L2)"
    unfolding xid by (rule ending [of "terminal c (att_operation_id a) FAILED err", OF move_finish]) simp
  have again: "refines L (set_op (op_id x) (recover_op c (att_id a) reason) ?L2)" if live: "\<not> op_terminal (op_state x)"
  proof -
    have "distinct (map op_id (t_ops ?L2))" "find_op ?L2 (att_operation_id a) = Some x"
      using ok_distinct(2) [OF ok] settle_frame(1) [OF L1] n(3) by simp_all
    then have "abs_ledger (set_op (att_operation_id a) (recover_op c (att_id a) reason) ?L2)
        = a_move (att_operation_id a) (Requeue RETRY_WAIT True) (abs_ledger ?L2)"
      using open_in_flight(2) [OF ok n live] by (rule move_recover)
    then show ?thesis
      unfolding xid by (rule ending) (use live in simp)
  qed
  show ?thesis unfolding M Let_def using stay fin again by simp
qed

lemma settle_stopped_other:
  assumes ran: "settle_stopped_attempt c (a, x, r) recover err reason L = Inr M"
    and mine: "stopped_now L (a, x, r)" and now: "stopped_now L byz"
    and ne: "att_id (fst byz) \<noteq> att_id a"
    and apart: "\<not> op_terminal (op_state x) \<longrightarrow> att_operation_id (fst byz) \<noteq> att_operation_id a"
  shows "stopped_now M byz"
proof -
  obtain b y z where byz: "byz = (b, y, z)" by (cases byz)
  from ran obtain L1 where L1: "settle c a (op_root_id x) (if att_state a = RESERVED then Some 0 else None) L = Inr L1"
    and M: "M = (let L2 = set_attempt (att_id a) (stopped_row c err) L1 in
         if op_terminal (op_state x) then L2
              else if can_retry c recover x r L2
              then set_op (op_id x) (recover_op c (att_id a) reason) L2
              else terminal c (op_id x) FAILED err L2)"
    by (auto simp: settle_stopped_attempt_def and_then_Inr_iff Let_def simp del: if_split split: if_split_asm)
  have xid: "op_id x = att_operation_id a" using mine by (auto simp: stopped_now_def dest: lookup_row_Some_key)
  let ?L2 = "set_attempt (att_id a) (stopped_row c err) L1"
  have b2: "find_attempt ?L2 (att_id b) = find_attempt L (att_id b)"
    using settle_other [OF L1, of "att_id b" "stopped_row c err"] ne byz by (simp add: stopped_row_def)
  have o1: "t_ops L1 = t_ops L" by (rule settle_frame(1) [OF L1])
  have other: "lookup_row op_id k (update_rows (\<lambda>r. op_id r = op_id x) f (t_ops L)) = lookup_row op_id k (t_ops L)"
    if "k \<noteq> op_id x" "\<And>b. op_id (f b) = op_id b" for f k
  proof (cases "lookup_row op_id k (t_ops L)")
    case (Some q)
    then have "op_id q \<noteq> op_id x" using that(1) by (auto dest: lookup_row_Some_key)
    then show ?thesis using Some that(2) by (simp add: lookup_update_rows)
  qed (use that in \<open>simp add: lookup_update_rows\<close>)
  have rec: "op_id (recover_op c (att_id a) reason q) = op_id q" for q by (simp add: recover_op_def)
  show ?thesis
    using now b2 apart unfolding byz M Let_def
    by (auto simp: stopped_now_def o1 xid [symmetric] other rec)
qed

text \<open>Two open attempts of one pending operation are the same attempt.\<close>

lemma stopped_rest:
  assumes ok: "ledger_ok L" and ran: "settle_stopped_attempt c (a, x, r) recover err reason L = Inr M"
    and mine: "stopped_now L (a, x, r)" and nb: "stopped_now L byz" and ne: "att_id (fst byz) \<noteq> att_id a"
  shows "stopped_now M byz"
proof (rule settle_stopped_other [OF ran mine nb ne], intro impI notI)
  assume live: "\<not> op_terminal (op_state x)" and eq: "att_operation_id (fst byz) = att_operation_id a"
  have "op_active_attempt x = Some (att_id a)"
    using mine live by (auto simp: stopped_now_def intro: open_in_flight(2) [OF ok])
  moreover have "op_active_attempt x = Some (att_id (fst byz))"
    using mine nb live eq open_in_flight(2) [OF ok, of "att_id (fst byz)" "fst byz" x]
    by (auto simp: stopped_now_def)
  ultimately show False using ne by simp
qed

lemma refines_settle_stopped_all:
  assumes "ledger_ok L" and "\<And>axr. axr \<in> set xs \<Longrightarrow> stopped_now L axr" and "distinct (map (att_id \<circ> fst) xs)"
    and "settle_stopped_all c xs recover err reason L = Inr M"
  shows "refines L M"
  using assms
proof (induction xs arbitrary: L)
  case Nil
  then show ?case by (simp add: path_none)
next
  case (Cons axr xs)
  obtain a x r where axr: "axr = (a, x, r)" by (cases axr)
  from Cons.prems(4) obtain L1 where L1: "settle_stopped_attempt c axr recover err reason L = Inr L1"
    "settle_stopped_all c xs recover err reason L1 = Inr M"
    by (auto simp: and_then_Inr_iff)
  have mine: "stopped_now L (a, x, r)" using Cons.prems(2) axr by simp
  have one: "refines L L1" using Cons.prems L1 by (intro refines_settle_stopped_attempt) auto
  have "stopped_now L1 byz" if byz: "byz \<in> set xs" for byz
  proof (rule stopped_rest [OF Cons.prems(1) L1(1) [unfolded axr] mine])
    show "stopped_now L byz" using Cons.prems(2) byz by simp
    show "att_id (fst byz) \<noteq> att_id a" using Cons.prems(3) byz axr by (force simp: image_iff)
  qed
  then have "refines L1 M"
    using Cons.prems L1 refines_ok [OF one] by (intro Cons.IH) auto
  with one show ?case by (rule refines_trans)
qed

lemma stopped_joined:
  assumes ok: "ledger_ok L" and j: "(a, x, r) \<in> set (join_attempts L ys)" and ys: "set ys \<subseteq> set (t_attempts L)"
    and opn: "\<not> ended (att_state a)"
  shows "stopped_now L (a, x, r)"
  using set_join_attempts [OF ok order_refl j ys] opn by (simp add: stopped_now_def)

text \<open>An attempt that holds compute or budget is open.\<close>

lemma held_open:
  assumes ok: "ledger_ok L" and a: "a \<in> set (t_attempts L)" and held: "att_compute_held a \<or> att_budget_held a"
  shows "\<not> ended (att_state a)"
proof -
  have "find_attempt L (att_id a) = Some a" using a ok_distinct(3) [OF ok] by (simp add: lookup_row_iff)
  from ok_attempt(2) [OF ok this] held show ?thesis by (auto simp: att_ok_def)
qed

lemma refines_settle_lost_one:
  assumes ok: "ledger_ok L" and ran: "settle_lost_one c locked aid L = Inr (Some M)"
  shows "refines L M"
proof -
  from ran obtain a axr L' where a: "find_attempt L aid = Some a" "result_lost c L a"
    and j: "join_attempt L a = Some axr"
    and s: "settle_stopped_attempt c axr True ''result_lost_after_backend_finished''
                    ''result_lost_after_backend_finished'' L = Inr L'"
    and M: "M = wake L'"
    by (auto simp: settle_lost_one_def map_sum_def split: option.splits if_splits sum.splits)
  have "\<not> ended (att_state a)" using a(2) by (auto simp: result_lost_def)
  then have "stopped_now L axr"
    using a(1) j lookup_row_Some_key [OF a(1)]
    by (auto simp: stopped_now_def join_attempt_def split: option.splits)
  then have "refines L L'" using s by (rule refines_settle_stopped_attempt [OF ok])
  then show ?thesis by (simp add: M)
qed

lemma refines_settle_lost_all:
  "ledger_ok L \<Longrightarrow> refines L (fst (settle_lost_all clk locked ks L))"
proof (induction ks arbitrary: L)
  case (Cons k ks)
  show ?case
  proof (cases "\<exists>M. settle_lost_one (clk k) locked k L = Inr (Some M)")
    case True
    then obtain M where M: "settle_lost_one (clk k) locked k L = Inr (Some M)" by blast
    have one: "refines L M" using Cons.prems M by (rule refines_settle_lost_one)
    show ?thesis
      using refines_trans [OF one Cons.IH [OF refines_ok [OF one Cons.prems]]] M
      by (cases "settle_lost_all clk locked ks M") simp
  next
    case False
    then show ?thesis using Cons by (auto split: sum.splits option.splits)
  qed
qed (simp add: path_none)

lemma refines_reconcile_expired:
  assumes ok: "ledger_ok L" and ran: "reconcile_expired c c' clk locked L = Inr (M, n)"
  shows "refines L M"
proof -
  from ran obtain L1 m where L1: "reconcile_transaction c L = Inr (L1, m)"
    and M: "M = fst (settle_lost_results c' clk locked L1)"
    by (cases "reconcile_transaction c L") (auto simp: reconcile_expired_def and_then_Inr_iff Let_def case_prod_beta)
  have one: "refines L L1" using ok L1 by (rule refines_reconcile_transaction)
  then show ?thesis
    unfolding M settle_lost_results_def
    by (rule refines_trans) (rule refines_settle_lost_all [OF refines_ok [OF one ok]])
qed

lemma epoch_attempts_now:
  assumes ok: "ledger_ok L" and mem: "axr \<in> set (epoch_attempts L pid epoch)"
  shows "stopped_now L axr"
proof -
  let ?ys = "sort_key att_created_at (filter (\<lambda>a. att_pool_id a = pid \<and> att_engine_epoch a = epoch
                  \<and> (att_compute_held a \<or> att_budget_held a)) (t_attempts L))"
  obtain a x r where axr: "axr = (a, x, r)" by (cases axr)
  with mem have j: "(a, x, r) \<in> set (join_attempts L ?ys)" by (auto simp: epoch_attempts_def)
  then have "a \<in> set ?ys" by (auto simp: join_attempts_def List.map_filter_def join_attempt_def split: option.splits)
  then have "\<not> ended (att_state a)" using held_open [OF ok] by auto
  with j show ?thesis unfolding axr by (intro stopped_joined [OF ok]) auto
qed

lemma epoch_attempts_distinct:
  "ledger_ok L \<Longrightarrow> distinct (map (att_id \<circ> fst) (epoch_attempts L pid epoch))"
  unfolding epoch_attempts_def
  by (rule distinct_join_attempts, rule distinct_sort_filter, rule ok_distinct(3))

lemma refines_confirm_epoch_stopped:
  assumes ok: "ledger_ok L" and ran: "confirm_epoch_stopped loads fiso c pid epoch evidence recover L = Inr (M, n)"
  shows "refines L M"
proof -
  define hit :: "direct_row \<Rightarrow> bool" where "hit = (\<lambda>d. dir_pool_id d = pid \<and> dir_engine_epoch d = epoch \<and> dir_compute_held d)"
  define L2 where "L2 = (set_pool pid close_pool L)\<lparr>t_direct := update_rows hit
        (stop_direct c (if recover then FAILED_RECOVERABLE else ATTEMPT_FAILED) ''engine_epoch_stopped'')
        (t_direct (set_pool pid close_pool L))\<rparr>"
  define todo where "todo = filter (\<lambda>(a, x, r). \<not> (recover \<and> att_state a = BACKEND_FINISHED
                              \<and> \<not> att_compute_held a)) (epoch_attempts L2 pid epoch)"
  from ran obtain p where p: "find_pool L pid = Some p" by (auto simp: confirm_epoch_stopped_def and_then_Inr_iff split: option.splits if_splits)
  with ran obtain L3 where
    L3: "settle_stopped_all c todo recover ''engine_epoch_stopped'' ''engine_recovery'' L2 = Inr L3"
    and M: "M = wake (note_update pid (pool_envelope_version p) 0
                            (''epoch_stopped:'' @ epoch @ '':'' @ evidence) L3)"
    unfolding L2_def todo_def hit_def
    by (auto simp: confirm_epoch_stopped_def and_then_Inr_iff Let_def split: option.splits if_splits)
  have same: "abs_ledger L2 = abs_ledger L" by (rule abs_same) (simp_all add: L2_def)
  then have ok2: "ledger_ok L2" using ok by (simp add: ledger_ok_def)
  have now: "stopped_now L2 axr" if "axr \<in> set todo" for axr
    using that by (intro epoch_attempts_now [OF ok2]) (auto simp: todo_def)
  have "distinct (map (att_id \<circ> fst) todo)"
    unfolding todo_def by (rule distinct_map_filter, rule epoch_attempts_distinct, rule ok2)
  then have "refines L2 L3" using refines_settle_stopped_all [OF ok2 now _ L3] by simp
  moreover have "abs_ledger M = abs_ledger L3" unfolding M by (simp, rule abs_same) (simp_all add: note_update_def)
  ultimately show ?thesis using same by simp
qed

lemma refines_settle_idle_unknown:
  assumes ok: "ledger_ok L" and ran: "settle_idle_unknown c pid epoch idle ids L = Inr (M, n)"
  shows "refines L M"
proof (cases "\<exists>p. find_pool L pid = Some p \<and> pool_engine_epoch p = epoch")
  case False
  then show ?thesis using ran by (auto simp: settle_idle_unknown_def path_none split: option.splits if_splits)
next
  case True
  define hit :: "direct_row \<Rightarrow> bool" where "hit = (\<lambda>d. dir_pool_id d = pid \<and> dir_engine_epoch d = epoch \<and> dir_compute_held d
                        \<and> dir_state d = UNKNOWN \<and> dir_unknown_at d \<noteq> None
                        \<and> opt_all (\<lambda>t. t < idle) (dir_unknown_at d) \<and> dir_attempt_id d \<in> set ids)"
  define L1 where "L1 = L\<lparr>t_direct := update_rows hit
                         (stop_direct c FAILED_RECOVERABLE ''engine_idle_verified'') (t_direct L)\<rparr>"
  define todo where "todo = idle_attempts L1 pid epoch idle ids"
  from ran True obtain L2 where
    L2: "settle_stopped_all c todo True ''engine_idle_verified'' ''engine_recovery'' L1 = Inr L2"
    and M: "abs_ledger M = abs_ledger L2"
    unfolding L1_def todo_def hit_def
    by (auto simp: settle_idle_unknown_def and_then_Inr_iff Let_def split: if_splits)
  have same: "abs_ledger L1 = abs_ledger L" by (rule abs_same) (simp_all add: L1_def)
  then have ok1: "ledger_ok L1" using ok by (simp add: ledger_ok_def)
  let ?ys = "sort_key att_created_at
       (filter (\<lambda>a. att_pool_id a = pid \<and> att_engine_epoch a = epoch \<and> att_compute_held a
                  \<and> att_state a = UNKNOWN \<and> opt_all (\<lambda>t. t < idle) (att_unknown_at a)
                  \<and> att_unknown_at a \<noteq> None \<and> att_id a \<in> set ids) (t_attempts L1))"
  have now: "stopped_now L1 axr" if "axr \<in> set todo" for axr
  proof -
    obtain a x r where axr: "axr = (a, x, r)" by (cases axr)
    with that have j: "(a, x, r) \<in> set (join_attempts L1 ?ys)" by (auto simp: todo_def idle_attempts_def)
    then have "a \<in> set ?ys" by (auto simp: join_attempts_def List.map_filter_def join_attempt_def split: option.splits)
    then have "\<not> ended (att_state a)" by auto
    with j show ?thesis unfolding axr by (intro stopped_joined [OF ok1]) auto
  qed
  have "distinct (map (att_id \<circ> fst) todo)"
    unfolding todo_def idle_attempts_def
    by (rule distinct_join_attempts, rule distinct_sort_filter, rule ok_distinct(3) [OF ok1])
  then have "refines L1 L2" using refines_settle_stopped_all [OF ok1 now _ L2] by simp
  with same M show ?thesis by simp
qed

end
