(* ===== verification/Ledger_Machine.thy ===== *)
theory Ledger_Machine
  imports Ledger_Refine_Recovery
begin

text \<open>
  The ledger as a state machine: one rule for every transaction of \<open>store.py\<close> that
  commits. A transaction that raises rolls back, which is no step at all. Every argument of a
  rule is arbitrary: the clocks, the rows other transactions hold, the digests and parsers of
  the standard library, the caller's texts. What the two submission rules ask of a document is
  what its pydantic model checks when it is built. \<open>SPoolOwners\<close> stands for the statements the
  process-local scheduler itself runs on \<open>runtime_owners\<close>; no invariant rests on that table.

  \<open>reachable\<close> is then every ledger a deployment can produce from the migrations' empty one.
\<close>

section \<open>Steps\<close>

inductive ledger_step :: "ledger \<Rightarrow> ledger \<Rightarrow> bool" where
  SRegisterOwner: "register_owner lease c owner boot L = Inr M \<Longrightarrow> ledger_step L M"
| SHeartbeatOwner: "heartbeat_owner lease c owner boot L = Inr M \<Longrightarrow> ledger_step L M"
| SCreateRoot: "valid_root_spec s \<Longrightarrow> create_root c s L = Inr M \<Longrightarrow> ledger_step L M"
| SSubmitRun: "valid_root_spec s \<Longrightarrow> submit_run c s key d run L = Inr (M, rid) \<Longrightarrow> ledger_step L M"
| SConfigurePool: "configure_pool c pool ceiling L = Inr M \<Longrightarrow> ledger_step L M"
| SSubmitOperation: "valid_operation spec \<Longrightarrow> submit_operation digest c spec L = Inr (M, k) \<Longrightarrow> ledger_step L M"
| SBindCompletion: "bind_completion digest c k tenant token L = Inr M \<Longrightarrow> ledger_step L M"
| SReserveNext: "reserve_next lease c locked aid pid owner L = Inr (M, rv) \<Longrightarrow> ledger_step L M"
| SMarkSend: "mark_send c rv L = Inr M \<Longrightarrow> ledger_step L M"
| SHeartbeat: "heartbeat lease c rv L = Inr (M, alive) \<Longrightarrow> ledger_step L M"
| SComputeFinished: "compute_finished c rv L = Inr M \<Longrightarrow> ledger_step L M"
| SCommitResult: "commit_result digest c rv ref usage atts L = Inr M \<Longrightarrow> ledger_step L M"
| SUnknown: "unknown c rv reason L = Inr M \<Longrightarrow> ledger_step L M"
| SFail: "fail c rv reason not_sent retry delay L = Inr M \<Longrightarrow> ledger_step L M"
| SCancel: "cancel c rid tenant L = Inr M \<Longrightarrow> ledger_step L M"
| SFinishRun: "finish_run digest c rid tenant state res cause L = Inr M \<Longrightarrow> ledger_step L M"
| SClaimEvents: "claim_events c locked owner limit L = (M, batch) \<Longrightarrow> ledger_step L M"
| SDelivered: "delivered c eid owner n L = (M, hit) \<Longrightarrow> ledger_step L M"
| SDeferEvent: "defer_event c eid owner n delay L = Inr (M, hit) \<Longrightarrow> ledger_step L M"
| SReconcile: "reconcile_expired c c' clk locked L = Inr (M, settled) \<Longrightarrow> ledger_step L M"
| SConfirmStopped: "confirm_epoch_stopped loads fiso c pid epoch evidence recover L = Inr (M, settled) \<Longrightarrow> ledger_step L M"
| SSettleIdle: "settle_idle_unknown c pid epoch idle ids L = Inr (M, settled) \<Longrightarrow> ledger_step L M"
| SQuiesce: "quiesce_engine pid epoch token L = Inr M \<Longrightarrow> ledger_step L M"
| SResume: "resume_engine pid epoch token L = Inr M \<Longrightarrow> ledger_step L M"
| SUpdateTarget: "update_target pid target version reason L = Inr M \<Longrightarrow> ledger_step L M"
| SPoolOwners: "ledger_step L (L\<lparr>t_owners := owners\<rparr>)"
| SNotified: "ledger_step L (L\<lparr>woken := False\<rparr>)"

inductive reachable :: "ledger \<Rightarrow> bool" where
  RInit: "reachable empty_ledger"
| RStep: "reachable L \<Longrightarrow> ledger_step L M \<Longrightarrow> reachable M"

inductive history :: "ledger \<Rightarrow> ledger \<Rightarrow> bool" where
  HStart: "history L L"
| HStep: "history L M \<Longrightarrow> ledger_step M N \<Longrightarrow> history L N"

section \<open>Transactions the abstract machine does not see\<close>

lemma refines_silent:
  assumes "t_roots M = t_roots L" "t_ops M = t_ops L" "t_attempts M = t_attempts L"
    "t_budgets M = t_budgets L" "t_bindings M = t_bindings L" "t_outbox M = t_outbox L"
  shows "refines L M"
  by (rule refines_outbox) (simp_all add: assms)

lemma refines_register_owner: "register_owner lease c owner boot L = Inr M \<Longrightarrow> refines L M"
  by (rule refines_silent) (auto simp: register_owner_def split: option.splits if_splits)

lemma refines_heartbeat_owner: "heartbeat_owner lease c owner boot L = Inr M \<Longrightarrow> refines L M"
  by (rule refines_silent) (auto simp: heartbeat_owner_def split: if_splits)

lemma refines_configure_pool: "configure_pool c pool ceiling L = Inr M \<Longrightarrow> refines L M"
  by (rule refines_silent)
    (auto simp: configure_pool_def upsert_group_def Let_def set_pool_def wake_def split: option.splits if_splits)

lemma refines_quiesce: "quiesce_engine pid epoch token L = Inr M \<Longrightarrow> refines L M"
  by (rule refines_silent)
    (auto simp: quiesce_engine_def note_update_def Let_def set_pool_def wake_def split: option.splits if_splits)

lemma refines_resume: "resume_engine pid epoch token L = Inr M \<Longrightarrow> refines L M"
  by (rule refines_silent)
    (auto simp: resume_engine_def note_update_def Let_def set_pool_def wake_def split: option.splits if_splits)

lemma refines_update_target: "update_target pid target version reason L = Inr M \<Longrightarrow> refines L M"
  by (rule refines_silent)
    (auto simp: update_target_def note_update_def Let_def set_pool_def wake_def split: option.splits if_splits)

section \<open>Refinement and the invariant\<close>

lemma refines_step: "ledger_step L M \<Longrightarrow> ledger_ok L \<Longrightarrow> refines L M"
proof (induction rule: ledger_step.induct)
  case (SClaimEvents c locked owner limit L M batch)
  then show ?case using refines_claim_events [of L c locked owner limit] by simp
next
  case (SDelivered c eid owner n L M hit)
  then show ?case using refines_delivered [of L c eid owner n] by simp
next
  case (SCreateRoot s c L M)
  then show ?case by (intro refines_admit_root) (simp_all add: create_root_def)
next
  case (SNotified L)
  show ?case by (rule refines_silent) simp_all
next
  case (SPoolOwners L owners)
  show ?case by (rule refines_silent) simp_all
qed (auto intro: refines_register_owner refines_heartbeat_owner refines_submit_run refines_configure_pool
  refines_submit_operation refines_bind_completion refines_reserve_next refines_mark_send refines_heartbeat
  refines_compute_finished refines_commit_result refines_unknown refines_fail refines_cancel refines_finish_run
  refines_defer_event refines_reconcile_expired refines_confirm_epoch_stopped refines_settle_idle_unknown
  refines_quiesce refines_resume refines_update_target)

lemma ok_empty: "ledger_ok empty_ledger"
proof -
  have "abs_ledger empty_ledger = empty_proto"
    by (rule proto_eqI) (auto simp: empty_ledger_def empty_proto_def abs_lines_def fun_eq_iff)
  then show ?thesis by (simp add: ledger_ok_def proto_inv_empty)
qed

lemma reachable_ok [intro]: "reachable L \<Longrightarrow> ledger_ok L"
  by (induction rule: reachable.induct) (auto intro: ok_empty refines_ok refines_step)

lemma refines_history: "history L M \<Longrightarrow> ledger_ok L \<Longrightarrow> refines L M"
proof (induction rule: history.induct)
  case (HStart L)
  then show ?case by (simp add: path_none)
next
  case (HStep L M N)
  then show ?case by (blast intro: refines_trans refines_step refines_ok)
qed

lemma reachable_history: "reachable L \<Longrightarrow> history L M \<Longrightarrow> reachable M"
  by (rotate_tac, induction rule: history.induct) (auto intro: RStep)

end
