(* ===== verification/Ledger_Demo.thy ===== *)
theory Ledger_Demo
  imports Ledger_Machine
begin

text \<open>
  A small concrete history, evaluated by the simplifier: one root with a token and a speech
  budget, one pool, one completion operation with a bound callback, which is reserved, sent,
  observed as finished and committed with more tokens than it reserved. The properties that
  speak of reachable ledgers are instantiated on its ledgers.
\<close>

section \<open>Documents\<close>

definition demo_clock :: "int \<Rightarrow> clocks" where
  "demo_clock t = \<lparr>utc = t, txn_now = t, stamp = t, stamp_later = t\<rparr>"

definition demo_digest :: "string \<Rightarrow> string" where
  "demo_digest s = s"

definition demo_artifact :: "string \<Rightarrow> artifact" where
  "demo_artifact name = \<lparr>art_key = ''tenants/t/'' @ name, art_sha256 = replicate 64 (CHR ''a''),
     art_size = 1, art_content_type = ''application/json''\<rparr>"

definition demo_root_spec :: root_spec where
  "demo_root_spec = \<lparr>rs_root_id = ''r'', rs_tenant_id = ''t'', rs_deadline = 1000, rs_budget_limit = 35,
     rs_resource_budgets = [(SpeechCharacters, 50)], rs_max_operations = 4, rs_max_pending = 4,
     rs_max_attempts = 3, rs_priority = Interactive\<rparr>"

definition demo_op_spec :: operation_spec where
  "demo_op_spec = \<lparr>os_operation_id = ''o'', os_root_id = ''r'', os_tenant_id = ''t'',
     os_payload = demo_artifact ''in'', os_model_profile = ''m'', os_expected_cost = 1,
     os_max_attempts = 2, os_attempt_timeout = 100, os_deadline = None,
     os_capacity_profile_id = None, os_required_capabilities = {}, os_body = LlmBody 10 20\<rparr>"

definition demo_pool_spec :: pool_spec where
  "demo_pool_spec = \<lparr>ps_pool_id = ''p'', ps_group_id = ''g'', ps_engine_epoch = ''e'',
     ps_profile_id = ''c'', ps_model_profile = ''m'', ps_model_revision = ''v'', ps_hard_ceiling = 2,
     ps_target = 2, ps_transport_limit = 1, ps_background_transport_limit = 1, ps_valid_until = None,
     ps_capabilities = {}, ps_body = LlmPool 64\<rparr>"

definition demo_reservation :: reservation where
  "demo_reservation = \<lparr>rv_attempt_id = ''a'', rv_operation = demo_op_spec, rv_pool_id = ''p'',
     rv_engine_epoch = ''e'', rv_model_revision = ''v'', rv_owner_id = ''w'', rv_lease_epoch = 1,
     rv_sent_attempts = 0, rv_attempt_deadline = 110, rv_workload_class = UserTask\<rparr>"

section \<open>Ledgers\<close>

definition committed :: "error + ledger \<Rightarrow> ledger" where
  "committed res = (case res of Inr L \<Rightarrow> L | Inl _ \<Rightarrow> empty_ledger)"

definition committed_fst :: "error + ledger \<times> 'a \<Rightarrow> ledger" where
  "committed_fst res = (case res of Inr (L, _) \<Rightarrow> L | Inl _ \<Rightarrow> empty_ledger)"

definition demo_rooted :: ledger where
  "demo_rooted = committed (create_root (demo_clock 5) demo_root_spec empty_ledger)"

definition demo_pooled :: ledger where
  "demo_pooled = committed (configure_pool (demo_clock 6) demo_pool_spec 2 demo_rooted)"

definition demo_submitted :: ledger where
  "demo_submitted = committed_fst (submit_operation demo_digest (demo_clock 7) demo_op_spec demo_pooled)"

definition demo_bound :: ledger where
  "demo_bound = committed (bind_completion demo_digest (demo_clock 8) ''o'' ''t'' ''token'' demo_submitted)"

definition demo_reserved :: ledger where
  "demo_reserved = committed_fst (reserve_next 30 (demo_clock 10) [] ''a'' ''p'' ''w'' demo_bound)"

definition demo_sent :: ledger where
  "demo_sent = committed (mark_send (demo_clock 11) demo_reservation demo_reserved)"

definition demo_finished :: ledger where
  "demo_finished = committed (compute_finished (demo_clock 20) demo_reservation demo_sent)"

definition demo_done :: ledger where
  "demo_done = committed (commit_result demo_digest (demo_clock 21) demo_reservation
     (demo_artifact ''out'') (Some 40) [] demo_finished)"

section \<open>The history\<close>

lemma demo_run:
  "create_root (demo_clock 5) demo_root_spec empty_ledger = Inr demo_rooted"
  "configure_pool (demo_clock 6) demo_pool_spec 2 demo_rooted = Inr demo_pooled"
  "submit_operation demo_digest (demo_clock 7) demo_op_spec demo_pooled = Inr (demo_submitted, ''o'')"
  "bind_completion demo_digest (demo_clock 8) ''o'' ''t'' ''token'' demo_submitted = Inr demo_bound"
  "reserve_next 30 (demo_clock 10) [] ''a'' ''p'' ''w'' demo_bound = Inr (demo_reserved, Some demo_reservation)"
  "mark_send (demo_clock 11) demo_reservation demo_reserved = Inr demo_sent"
  "compute_finished (demo_clock 20) demo_reservation demo_sent = Inr demo_finished"
  "commit_result demo_digest (demo_clock 21) demo_reservation (demo_artifact ''out'') (Some 40) [] demo_finished
     = Inr demo_done"
  by code_simp+

lemma demo_valid: "valid_root_spec demo_root_spec" "valid_operation demo_op_spec" "valid_pool demo_pool_spec"
  by code_simp+

lemma demo_reachable:
  "reachable demo_rooted" "reachable demo_bound" "reachable demo_reserved" "reachable demo_sent"
  "reachable demo_finished" "reachable demo_done"
proof -
  show r1: "reachable demo_rooted" by (rule RStep [OF RInit SCreateRoot [OF demo_valid(1) demo_run(1)]])
  have r2: "reachable demo_pooled" by (rule RStep [OF r1 SConfigurePool [OF demo_run(2)]])
  have r3: "reachable demo_submitted" by (rule RStep [OF r2 SSubmitOperation [OF demo_valid(2) demo_run(3)]])
  show r4: "reachable demo_bound" by (rule RStep [OF r3 SBindCompletion [OF demo_run(4)]])
  show r5: "reachable demo_reserved" by (rule RStep [OF r4 SReserveNext [OF demo_run(5)]])
  show r6: "reachable demo_sent" by (rule RStep [OF r5 SMarkSend [OF demo_run(6)]])
  show r7: "reachable demo_finished" by (rule RStep [OF r6 SComputeFinished [OF demo_run(7)]])
  show "reachable demo_done" by (rule RStep [OF r7 SCommitResult [OF demo_run(8)]])
qed

lemma demo_history: "history demo_sent demo_done"
  by (rule HStep [OF HStep [OF HStart SComputeFinished [OF demo_run(7)]] SCommitResult [OF demo_run(8)]])

end
