(* ===== verification/Ledger_Facts.thy ===== *)
theory Ledger_Facts
  imports Ledger_Demo
begin

text \<open>
  What the invariant of the abstract machine says of a reachable ledger, in the ledger's own
  terms: accounts, counters, exclusivity, completion events, results and finality.
\<close>

section \<open>Amounts\<close>

text \<open>What an attempt holds of a line, what it was charged, and what it used beyond its bound.\<close>

definition held_amount :: "ledger \<Rightarrow> string \<Rightarrow> budget_unit \<Rightarrow> attempt_row \<Rightarrow> int" where
  "held_amount L rid u a =
     (if att_budget_held a \<and> attempt_root L a = Some rid \<and> att_budget_unit a = u then att_budget_bound a else 0)"

definition charged_amount :: "ledger \<Rightarrow> string \<Rightarrow> budget_unit \<Rightarrow> attempt_row \<Rightarrow> int" where
  "charged_amount L rid u a =
     (if attempt_root L a = Some rid \<and> att_budget_unit a = u then or_else (att_usage a) 0 else 0)"

definition excess_amount :: "ledger \<Rightarrow> string \<Rightarrow> budget_unit \<Rightarrow> attempt_row \<Rightarrow> int" where
  "excess_amount L rid u a =
     (if attempt_root L a = Some rid \<and> att_budget_unit a = u
      then max 0 (or_else (att_usage a) 0 - att_budget_bound a) else 0)"

lemma attempt_root_abs:
  assumes "ledger_ok L" and "a \<in> set (t_attempts L)"
  shows "attempt_root L a = Some (root_of_op (t_ops L) (att_operation_id a))"
proof -
  have "find_attempt L (att_id a) = Some a"
    using assms ok_distinct(3) [OF assms(1)] by (simp add: lookup_row_iff)
  then obtain x where "find_op L (att_operation_id a) = Some x"
    "root_of_op (t_ops L) (att_operation_id a) = op_root_id x"
    using ok_attempt(3) [OF assms(1)] by blast
  then show ?thesis by (simp add: attempt_root_def op_of_attempt_def)
qed

lemma total_map: "total f (map g t) = total (\<lambda>r. f (g r)) t"
  by (induction t) auto

lemma amounts_abs:
  assumes ok: "ledger_ok L"
  shows "total (held_of rid u) (p_atts (abs_ledger L)) = total (held_amount L rid u) (t_attempts L)"
    "total (spent_of rid u) (p_atts (abs_ledger L)) = total (charged_amount L rid u) (t_attempts L)"
    "total (over_of rid u) (p_atts (abs_ledger L)) = total (excess_amount L rid u) (t_attempts L)"
  by (simp_all add: total_map)
    (rule total_cong, simp add: held_of_def held_amount_def spent_of_def charged_amount_def over_of_def
      excess_amount_def attempt_root_abs [OF ok])+

lemma ledger_line_ok:
  assumes "ledger_ok L" and "budget_line L rid u = Some line"
  shows "line_ok (abs_ledger L) rid u line"
  using lines_invD [OF ok_parts(3) [OF assms(1)]] assms(2) by (simp add: abs_budget_line)

lemma ledger_accounts:
  assumes ok: "ledger_ok L" and line: "budget_line L rid u = Some (limit, reserved, spent)"
  shows "reserved = total (held_amount L rid u) (t_attempts L)"
    "spent = total (charged_amount L rid u) (t_attempts L)"
    "spent + reserved \<le> limit + total (excess_amount L rid u) (t_attempts L)"
    "find_root L rid = Some r \<Longrightarrow> root_state r = RUNNING \<Longrightarrow> spent \<le> limit"
proof -
  note l = ledger_line_ok [OF ok line, unfolded line_ok_def, simplified, unfolded amounts_abs [OF ok], simplified]
  show "reserved = total (held_amount L rid u) (t_attempts L)"
    "spent = total (charged_amount L rid u) (t_attempts L)"
    "spent + reserved \<le> limit + total (excess_amount L rid u) (t_attempts L)"
    using l amounts_abs [OF ok] by auto
  assume "find_root L rid = Some r" "root_state r = RUNNING"
  then have "r \<in> set (t_roots L)" "root_id r = rid" by (auto dest: lookup_row_Some_in lookup_row_Some_key)
  with l \<open>root_state r = RUNNING\<close> show "spent \<le> limit" by auto
qed

lemma join_roots_mem:
  "(x, r) \<in> set (join_roots L xs) \<longleftrightarrow> x \<in> set xs \<and> find_root L (op_root_id x) = Some r"
  by (induction xs) (auto split: option.splits)

lemma join_all:
  assumes ok: "ledger_ok L" and a: "a \<in> set (t_attempts L)"
  obtains x r where "(a, x, r) \<in> set (join_attempts L (t_attempts L))"
proof -
  have f: "find_attempt L (att_id a) = Some a" using a ok_distinct(3) [OF ok] by (simp add: lookup_row_iff)
  obtain x where x: "find_op L (att_operation_id a) = Some x" using ok_attempt(3) [OF ok f] by blast
  then have "abs_op x \<in> set (p_ops (abs_ledger L))" by (auto dest: lookup_row_Some_in)
  from ident_inv_opD [OF ok_parts(1) [OF ok] this] obtain r where "r \<in> set (t_roots L)" "root_id r = op_root_id x"
    by (auto simp: op_placed_def)
  then have "find_root L (op_root_id x) = Some r" using ok_distinct(1) [OF ok] by (simp add: lookup_row_iff)
  then have "join_attempt L a = Some (a, x, r)" using x by (simp add: join_attempt_def)
  then show thesis using that a by (force simp: join_attempts_def List.map_filter_def)
qed

section \<open>Counters\<close>

definition sent_attempt :: "attempt_row \<Rightarrow> bool" where
  "sent_attempt a \<longleftrightarrow> att_send_intent_at a \<noteq> None"

lemma count_rows_map: "count_rows p (map f t) = count_rows (p \<circ> f) t"
  by (simp add: count_rows_as_total total_map)

lemma count_rows_cong: "(\<And>r. r \<in> set t \<Longrightarrow> p r = q r) \<Longrightarrow> count_rows p t = count_rows q t"
  unfolding count_rows_as_total by (rule total_cong) simp

lemma ledger_op_sends:
  assumes ok: "ledger_ok L" and x: "find_op L k = Some x"
  shows "op_attempts x = count_rows (\<lambda>a. att_operation_id a = k \<and> sent_attempt a) (t_attempts L)"
    "op_attempts x \<le> os_max_attempts (op_spec x)"
  using sends_opD [OF ok_parts(4) [OF ok], of "abs_op x"] lookup_row_Some_in [OF x] ok_op(1) [OF ok x]
  by (simp_all add: count_rows_map sent_in_op_def sent_attempt_def comp_def)

lemma ledger_root_sends:
  assumes ok: "ledger_ok L" and r: "find_root L k = Some r"
  shows "root_attempts r = count_rows (\<lambda>a. attempt_root L a = Some k \<and> sent_attempt a) (t_attempts L)"
    "root_attempts r \<le> rs_max_attempts (root_spec_of r)"
proof -
  have s: "root_attempts r = count_rows (sent_in_root k \<circ> abs_att (t_ops L)) (t_attempts L)"
    "root_attempts r \<le> rs_max_attempts (root_spec_of r)"
    using sends_rootD [OF ok_parts(4) [OF ok], of "abs_root r"] lookup_row_Some_in [OF r] lookup_row_Some_key [OF r]
    by (simp_all add: count_rows_map)
  show "root_attempts r \<le> rs_max_attempts (root_spec_of r)" by (rule s)
  show "root_attempts r = count_rows (\<lambda>a. attempt_root L a = Some k \<and> sent_attempt a) (t_attempts L)"
    unfolding s(1)
    by (rule count_rows_cong) (simp add: sent_in_root_def sent_attempt_def attempt_root_abs [OF ok])
qed

section \<open>Exclusivity\<close>

lemma ledger_exclusive:
  assumes ok: "ledger_ok L" and x: "find_op L k = Some x" and live: "\<not> op_terminal (op_state x)"
  shows "a \<in> set (t_attempts L) \<Longrightarrow> att_operation_id a = k \<Longrightarrow> \<not> ended (att_state a) \<Longrightarrow>
      op_active_attempt x = Some (att_id a)"
    "(op_state x = EXECUTING \<or> op_state x = RECONCILING) \<longleftrightarrow>
      (\<exists>a \<in> set (t_attempts L). att_operation_id a = k \<and> \<not> ended (att_state a))"
proof -
  have "abs_op x \<in> set (p_ops (abs_ledger L))" using x by (auto dest: lookup_row_Some_in)
  then have e: "op_excl (p_atts (abs_ledger L)) (abs_op x)" using ok_parts(5) [OF ok] by (rule excl_invD [rotated])
  with live ok_op(1) [OF ok x] show
    "a \<in> set (t_attempts L) \<Longrightarrow> att_operation_id a = k \<Longrightarrow> \<not> ended (att_state a) \<Longrightarrow>
      op_active_attempt x = Some (att_id a)"
    "(op_state x = EXECUTING \<or> op_state x = RECONCILING) \<longleftrightarrow>
      (\<exists>a \<in> set (t_attempts L). att_operation_id a = k \<and> \<not> ended (att_state a))"
    by (auto simp: op_excl_def open_att_def in_flight_def)
qed

section \<open>Completion events, results, finished runs\<close>

lemma ledger_completion:
  assumes ok: "ledger_ok L" and b: "b \<in> set (t_bindings L)"
  obtains x where "find_op L (bind_operation_id b) = Some x"
    "find_event L (completion_event_id (bind_id b)) \<noteq> None \<longleftrightarrow> op_terminal (op_state x)"
proof -
  have mem: "abs_bind b \<in> set (p_binds (abs_ledger L))" using b by auto
  have "snd (abs_bind b) \<in> ao_id ` set (p_ops (abs_ledger L))"
    using ident_inv_bindD [OF ok_parts(1) [OF ok] mem] .
  then obtain x where x: "x \<in> set (t_ops L)" "op_id x = bind_operation_id b" by auto
  then have found: "find_op L (bind_operation_id b) = Some x"
    using ok_distinct(2) [OF ok] by (simp add: lookup_row_iff)
  have "done_event (abs_ledger L) (bind_id b) = op_done (abs_ledger L) (bind_operation_id b)"
    using ok_parts(6) [OF ok] b by (simp add: events_inv_def)
  moreover have "done_event (abs_ledger L) (bind_id b) \<longleftrightarrow> find_event L (completion_event_id (bind_id b)) \<noteq> None"
    by (auto simp: done_event_def lookup_row_None_iff image_iff)
  moreover have "op_done (abs_ledger L) (bind_operation_id b) \<longleftrightarrow> op_terminal (op_state x)"
  proof -
    have "y = x" if "y \<in> set (t_ops L)" "op_id y = bind_operation_id b" for y
      using found_unique [OF ok_distinct(2) [OF ok] found that] .
    moreover have "op_done (abs_ledger L) (bind_operation_id b) \<longleftrightarrow>
        (\<exists>y \<in> set (t_ops L). op_id y = bind_operation_id b \<and> op_terminal (op_state y))"
      by (simp add: op_done_def)
    ultimately show ?thesis using x by blast
  qed
  ultimately show thesis using that found by blast
qed

lemma ledger_results:
  assumes ok: "ledger_ok L" and x: "find_op L k = Some x"
  shows "op_state x = SUCCEEDED \<longleftrightarrow> op_result x \<noteq> None"
    "op_state x = SUCCEEDED \<Longrightarrow>
       \<exists>a \<in> set (t_attempts L). att_operation_id a = k \<and> att_state a = RESULT_COMMITTED"
proof -
  have "op_result_ok (p_atts (abs_ledger L)) (abs_op x)"
    using ok_parts(7) [OF ok] x by (auto simp: results_inv_def dest: lookup_row_Some_in)
  then show "op_state x = SUCCEEDED \<longleftrightarrow> op_result x \<noteq> None"
    "op_state x = SUCCEEDED \<Longrightarrow>
       \<exists>a \<in> set (t_attempts L). att_operation_id a = k \<and> att_state a = RESULT_COMMITTED"
    using ok_op(1) [OF ok x] by (auto simp: op_result_ok_def)
qed

lemma ledger_succeeded:
  assumes ok: "ledger_ok L" and r: "find_root L rid = Some r" and s: "root_state r = ROOT_SUCCEEDED"
    and x: "x \<in> set (t_ops L)" "op_root_id x = rid"
  shows "op_terminal (op_state x)"
proof -
  have "r \<in> set (t_roots L)" "root_id r = rid" using r by (auto dest: lookup_row_Some_in lookup_row_Some_key)
  then show ?thesis using ok_parts(8) [OF ok] s x by (auto simp: runs_inv_def)
qed

section \<open>Finality\<close>

lemma path_progress:
  assumes "ledger_ok L" and "refines L M"
  shows "progress (abs_ledger L) (abs_ledger M)" "ledger_ok M"
  using assms proto_path_progress refines_ok by (auto simp: ledger_ok_def)

lemma history_progress:
  assumes "ledger_ok L" and "history L M"
  shows "progress (abs_ledger L) (abs_ledger M)" "ledger_ok M"
  using path_progress [OF assms(1) refines_history [OF assms(2,1)]] by simp_all

lemma path_op:
  assumes ok: "ledger_ok L" and path: "refines L M" and x: "find_op L k = Some x"
  obtains y where "find_op M k = Some y" "op_spec y = op_spec x" "op_attempts x \<le> op_attempts y"
    "op_terminal (op_state x) \<Longrightarrow> op_state y = op_state x \<and> op_result y = op_result x"
proof -
  have "abs_op x \<in> set (p_ops (abs_ledger L))" using x by (auto dest: lookup_row_Some_in)
  then obtain y where y: "y \<in> set (t_ops M)" "op_le (abs_op x) (abs_op y)"
    using path_progress(1) [OF ok path] by (auto simp: progress_def covers_def)
  then have "op_id y = k" using ok_op(1) [OF ok x] by (simp add: op_le_def ao_ident_def)
  then have "find_op M k = Some y"
    using y(1) ok_distinct(2) [OF path_progress(2) [OF ok path]] by (auto simp: lookup_row_iff)
  with y(2) show thesis by (intro that [of y]) (auto simp: op_le_def ao_ident_def)
qed

lemmas history_op = path_op [OF _ refines_history]

lemma history_root:
  assumes ok: "ledger_ok L" and h: "history L M" and r: "find_root L k = Some r"
  obtains s where "find_root M k = Some s" "root_spec_of s = root_spec_of r" "root_attempts r \<le> root_attempts s"
    "root_state r \<noteq> RUNNING \<Longrightarrow> root_state s = root_state r \<and> root_result s = root_result r"
proof -
  have "abs_root r \<in> set (p_roots (abs_ledger L))" using r by (auto dest: lookup_row_Some_in)
  then obtain s where s: "s \<in> set (t_roots M)" "root_le (abs_root r) (abs_root s)"
    using history_progress(1) [OF ok h] by (auto simp: progress_def covers_def)
  then have "root_id s = k" using lookup_row_Some_key [OF r] by (simp add: root_le_def ar_ident_def)
  then have "find_root M k = Some s"
    using s(1) ok_distinct(1) [OF history_progress(2) [OF ok h]] by (auto simp: lookup_row_iff)
  with s(2) show thesis by (intro that [of s]) (auto simp: root_le_def ar_ident_def)
qed

lemma history_attempt:
  assumes ok: "ledger_ok L" and h: "history L M" and a: "find_attempt L k = Some a"
  obtains b where "find_attempt M k = Some b" "att_operation_id b = att_operation_id a"
    "ended (att_state a) \<Longrightarrow> att_state b = att_state a \<and> att_usage b = att_usage a
       \<and> \<not> att_compute_held b \<and> \<not> att_budget_held b"
proof -
  have "abs_att (t_ops L) a \<in> set (p_atts (abs_ledger L))" using a by (auto dest: lookup_row_Some_in)
  then obtain b where b: "b \<in> set (t_attempts M)" "att_le (abs_att (t_ops L) a) (abs_att (t_ops M) b)"
    using history_progress(1) [OF ok h] by (auto simp: progress_def covers_def)
  then have bk: "att_id b = k" using ok_attempt(1) [OF ok a] by (simp add: att_le_def aa_ident_def)
  then have f: "find_attempt M k = Some b"
    using b(1) ok_distinct(3) [OF history_progress(2) [OF ok h]] by (auto simp: lookup_row_iff)
  have "att_ok (abs_att (t_ops M) b)" by (rule ok_attempt(2) [OF history_progress(2) [OF ok h] f])
  have keep: "abs_att (t_ops M) b = abs_att (t_ops L) a" if "ended (att_state a)"
    using b(2) that by (simp add: att_le_def)
  show thesis
  proof (rule that [OF f])
    show "att_operation_id b = att_operation_id a" using b(2) by (simp add: att_le_def aa_ident_def)
    assume e: "ended (att_state a)"
    have "aa_state (abs_att (t_ops M) b) = att_state a" "aa_usage (abs_att (t_ops M) b) = att_usage a"
      unfolding keep [OF e] by simp_all
    then show "att_state b = att_state a \<and> att_usage b = att_usage a \<and> \<not> att_compute_held b \<and> \<not> att_budget_held b"
      using \<open>att_ok (abs_att (t_ops M) b)\<close> e by (auto simp: att_ok_def)
  qed
qed

end
