(* ===== verification/Ledger_Properties.thy ===== *)
theory Ledger_Properties
  imports Ledger_Facts
begin

text \<open>
  The invariants of every ledger a deployment can reach, and what no continuation of its
  history changes. Each is the invariant of the abstract machine read in the ledger's own rows.
\<close>

section \<open>Budgets\<close>

text \<open>
  C2. Accounts. In every reachable ledger the reserved column of a budget line is exactly the
  sum of the bounds of the attempts that hold budget on it, the spent column is exactly the sum
  of the usage charged for the settled ones, and the two together exceed the limit by no more
  than what backends used beyond the bounds reserved for them.
\<close>

theorem budget_accounts:
  assumes "reachable L" and "budget_line L rid u = Some (limit, reserved, spent)"
  shows "reserved = total (held_amount L rid u) (t_attempts L) \<and>
    spent = total (charged_amount L rid u) (t_attempts L) \<and>
    spent + reserved \<le> limit + total (excess_amount L rid u) (t_attempts L)"
  using ledger_accounts [OF reachable_ok [OF assms(1)] assms(2)] by blast

theorem budget_accounts_witness:
  "(30::int) = total (held_amount demo_sent ''r'' Tokens) (t_attempts demo_sent) \<and>
   (0::int) = total (charged_amount demo_sent ''r'' Tokens) (t_attempts demo_sent) \<and>
   (0::int) + 30 \<le> 35 + total (excess_amount demo_sent ''r'' Tokens) (t_attempts demo_sent)"
proof -
  have "budget_line demo_sent ''r'' Tokens = Some (35, 30, 0)" by code_simp
  from budget_accounts [OF demo_reachable(4) this] show ?thesis .
qed

text \<open>
  A root that is still running has not spent more than its limit on any line: the settlement
  that crosses the limit ends the root.
\<close>

theorem running_within_budget:
  assumes "reachable L" and "find_root L rid = Some r" and "root_state r = RUNNING"
    and "budget_line L rid u = Some (limit, reserved, spent)"
  shows "spent \<le> limit"
  using ledger_accounts(4) [OF reachable_ok [OF assms(1)] assms(4,2,3)] .

theorem running_within_budget_witness:
  "snd (snd (the (budget_line demo_sent ''r'' Tokens))) \<le> fst (the (budget_line demo_sent ''r'' Tokens))"
proof -
  have r: "find_root demo_sent ''r'' = Some (hd (t_roots demo_sent))"
    "root_state (hd (t_roots demo_sent)) = RUNNING"
    "budget_line demo_sent ''r'' Tokens = Some (35, 30, 0)" by code_simp+
  from running_within_budget [OF demo_reachable(4) r] show ?thesis unfolding r(3) by simp
qed

section \<open>Sends\<close>

text \<open>
  C11. Sends are bounded. The attempt counters of an operation and of its root are exactly the
  numbers of attempts that were sent, and neither ever exceeds the maximum of its document.
\<close>

theorem sends_bounded:
  assumes "reachable L" and "find_op L k = Some x" and "find_root L rid = Some r"
  shows "op_attempts x = count_rows (\<lambda>a. att_operation_id a = k \<and> sent_attempt a) (t_attempts L) \<and>
    op_attempts x \<le> os_max_attempts (op_spec x) \<and>
    root_attempts r = count_rows (\<lambda>a. attempt_root L a = Some rid \<and> sent_attempt a) (t_attempts L) \<and>
    root_attempts r \<le> rs_max_attempts (root_spec_of r)"
  using ledger_op_sends [OF reachable_ok [OF assms(1)] assms(2)]
    ledger_root_sends [OF reachable_ok [OF assms(1)] assms(3)] by blast

theorem sends_bounded_witness:
  "op_attempts (hd (t_ops demo_sent)) =
     count_rows (\<lambda>a. att_operation_id a = ''o'' \<and> sent_attempt a) (t_attempts demo_sent) \<and>
   op_attempts (hd (t_ops demo_sent)) \<le> os_max_attempts (op_spec (hd (t_ops demo_sent))) \<and>
   root_attempts (hd (t_roots demo_sent)) =
     count_rows (\<lambda>a. attempt_root demo_sent a = Some ''r'' \<and> sent_attempt a) (t_attempts demo_sent) \<and>
   root_attempts (hd (t_roots demo_sent)) \<le> rs_max_attempts (root_spec_of (hd (t_roots demo_sent)))"
proof -
  have "find_op demo_sent ''o'' = Some (hd (t_ops demo_sent))"
    "find_root demo_sent ''r'' = Some (hd (t_roots demo_sent))" by code_simp+
  from sends_bounded [OF demo_reachable(4) this] show ?thesis .
qed

section \<open>Exclusivity\<close>

text \<open>
  C3. One executor at a time. While an operation is pending, any attempt of it that is not
  settled is its active attempt, so there is at most one; and the operation is EXECUTING or
  RECONCILING exactly when there is one.
\<close>

theorem one_open_attempt:
  assumes "reachable L" and "find_op L k = Some x" and "\<not> op_terminal (op_state x)"
  shows "(\<forall>a \<in> set (t_attempts L). att_operation_id a = k \<and> \<not> att_ended (att_state a) \<longrightarrow>
        op_active_attempt x = Some (att_id a)) \<and>
    (op_state x = EXECUTING \<or> op_state x = RECONCILING \<longleftrightarrow>
       (\<exists>a \<in> set (t_attempts L). att_operation_id a = k \<and> \<not> att_ended (att_state a)))"
  using ledger_exclusive [OF reachable_ok [OF assms(1)] assms(2,3)] by (simp del: not_None_eq)

theorem one_open_attempt_witness:
  "op_active_attempt (hd (t_ops demo_sent)) = Some (att_id (hd (t_attempts demo_sent)))"
proof -
  have x: "find_op demo_sent ''o'' = Some (hd (t_ops demo_sent))"
    "\<not> op_terminal (op_state (hd (t_ops demo_sent)))" by code_simp+
  have a: "hd (t_attempts demo_sent) \<in> set (t_attempts demo_sent)"
    "att_operation_id (hd (t_attempts demo_sent)) = ''o'' \<and> \<not> att_ended (att_state (hd (t_attempts demo_sent)))"
    by code_simp+
  show ?thesis
    using conjunct1 [OF one_open_attempt [OF demo_reachable(4) x]] a by blast
qed

section \<open>Completion, results, success\<close>



text \<open>
  A result is a committed one. An operation has a result exactly when it has SUCCEEDED, and
  then one of its attempts committed; a root that SUCCEEDED has no pending operation.
\<close>

theorem result_is_committed:
  assumes "reachable L" and "find_op L k = Some x" and "find_root L (op_root_id x) = Some r"
  shows "(op_state x = SUCCEEDED \<longleftrightarrow> op_result x \<noteq> None) \<and>
    (op_state x = SUCCEEDED \<longrightarrow>
       (\<exists>a \<in> set (t_attempts L). att_operation_id a = k \<and> att_state a = RESULT_COMMITTED)) \<and>
    (root_state r = ROOT_SUCCEEDED \<longrightarrow> op_terminal (op_state x))"
  using ledger_results [OF reachable_ok [OF assms(1)] assms(2)]
    ledger_succeeded [OF reachable_ok [OF assms(1)] assms(3) _ lookup_row_Some_in [OF assms(2)]] by blast

theorem result_is_committed_witness:
  "op_result (hd (t_ops demo_done)) \<noteq> None \<and>
   (\<exists>a \<in> set (t_attempts demo_done). att_operation_id a = ''o'' \<and> att_state a = RESULT_COMMITTED)"
proof -
  have x: "find_op demo_done ''o'' = Some (hd (t_ops demo_done))"
    "find_root demo_done (op_root_id (hd (t_ops demo_done))) = Some (hd (t_roots demo_done))"
    and s: "op_state (hd (t_ops demo_done)) = SUCCEEDED" by code_simp+
  show ?thesis using result_is_committed [OF demo_reachable(6) x] s by blast
qed

section \<open>Finality\<close>



text \<open>
  A settled attempt stays settled: it keeps its state and the usage it was charged, and
  holds neither compute nor budget, whatever an executor that still believes in it does.
\<close>

theorem settled_attempts_final:
  assumes "reachable L" and "history L M" and "find_attempt L k = Some a" and "att_ended (att_state a)"
  shows "\<exists>b. find_attempt M k = Some b \<and> att_state b = att_state a \<and> att_usage b = att_usage a \<and>
    \<not> att_compute_held b \<and> \<not> att_budget_held b"
  using history_attempt [OF reachable_ok [OF assms(1)] assms(2,3)] assms(4) by (metis att_ended_ended)

theorem settled_attempts_final_witness:
  "\<exists>b. find_attempt demo_done ''a'' = Some b \<and> att_state b = att_state (hd (t_attempts demo_done)) \<and>
    att_usage b = att_usage (hd (t_attempts demo_done)) \<and> \<not> att_compute_held b \<and> \<not> att_budget_held b"
proof -
  have "find_attempt demo_done ''a'' = Some (hd (t_attempts demo_done))"
    "att_ended (att_state (hd (t_attempts demo_done)))" by code_simp+
  from settled_attempts_final [OF demo_reachable(6) HStart this] show ?thesis .
qed

section \<open>The specification\<close>

text \<open>
  C1. The transactions refine the protocol. Every transaction of \<open>store.py\<close> that commits in a
  reachable ledger is, in the abstract view, a sequence of protocol steps, so the tables only
  ever move as the protocol allows.
\<close>

theorem ledger_refines_protocol:
  assumes "reachable L" and "ledger_step L M"
  shows "proto_path (abs_ledger L) (abs_ledger M) \<and> proto_inv (abs_ledger M)"
  using refines_step [OF assms(2) reachable_ok [OF assms(1)]] refines_ok reachable_ok [OF assms(1)]
  by (auto simp: ledger_ok_def)

theorem ledger_refines_protocol_witness:
  "proto_path (abs_ledger demo_sent) (abs_ledger demo_finished) \<and> proto_inv (abs_ledger demo_finished)"
  using ledger_refines_protocol [OF demo_reachable(4) SComputeFinished [OF demo_run(7)]] .

text \<open>
  C37. The tables are well formed. In every reachable ledger identifiers are unique, every
  operation has a valid document, filed under its own identifier, whose root exists and belongs
  to the same tenant, and every attempt has its operation and carries that operation's
  bound and unit.
\<close>

theorem ledger_tables_sound:
  assumes "reachable L"
  shows "distinct (map root_id (t_roots L)) \<and> distinct (map op_id (t_ops L)) \<and> distinct (map att_id (t_attempts L)) \<and>
    distinct (map bind_id (t_bindings L)) \<and>
    (\<forall>x \<in> set (t_ops L). valid_operation (op_spec x) \<and> os_operation_id (op_spec x) = op_id x \<and>
       (\<exists>r \<in> set (t_roots L). root_id r = op_root_id x \<and> os_root_id (op_spec x) = root_id r \<and>
          root_tenant_id r = os_tenant_id (op_spec x))) \<and>
    (\<forall>a \<in> set (t_attempts L). \<exists>x \<in> set (t_ops L). op_id x = att_operation_id a \<and>
       att_budget_bound a = budget_bound_of (op_spec x) \<and> att_budget_unit a = budget_unit_of (op_spec x))"
proof -
  have ok: "ledger_ok L" using assms by (rule reachable_ok)
  have op: "valid_operation (op_spec x) \<and> os_operation_id (op_spec x) = op_id x \<and>
       (\<exists>r \<in> set (t_roots L). root_id r = op_root_id x \<and> os_root_id (op_spec x) = root_id r \<and>
          root_tenant_id r = os_tenant_id (op_spec x))" if "x \<in> set (t_ops L)" for x
  proof -
    have "abs_op x \<in> set (p_ops (abs_ledger L))" using that by simp
    from ident_inv_opD [OF ok_parts(1) [OF ok] this] show ?thesis
      by (force simp: op_placed_def abs_op_def abs_root_def)
  qed
  have att: "\<exists>x \<in> set (t_ops L). op_id x = att_operation_id a \<and>
       att_budget_bound a = budget_bound_of (op_spec x) \<and> att_budget_unit a = budget_unit_of (op_spec x)"
    if "a \<in> set (t_attempts L)" for a
  proof -
    have "find_attempt L (att_id a) = Some a" using that ok_distinct(3) [OF ok] by (simp add: lookup_row_iff)
    from ok_attempt(3) [OF ok this] show ?thesis by (meson lookup_row_Some_in lookup_row_Some_key)
  qed
  show ?thesis using ok_distinct [OF ok] op att by blast
qed

theorem ledger_tables_sound_witness:
  "distinct (map op_id (t_ops demo_done)) \<and> valid_operation (op_spec (hd (t_ops demo_done))) \<and> t_ops demo_done \<noteq> []"
proof -
  have n: "t_ops demo_done \<noteq> []" by code_simp
  with ledger_tables_sound [OF demo_reachable(6)] show ?thesis by (simp add: hd_in_set)
qed

end
