(* ===== verification/Ledger_Sending.thy ===== *)
theory Ledger_Sending
  imports Ledger_Facts
begin

text \<open>
  What dispatch and the send transaction do: which operation is handed out, what the fence
  refuses, when a request may leave the process and what it costs.
\<close>

section \<open>The fence\<close>

text \<open>The one error of the fence.\<close>

definition stale :: error where
  "stale = RuntimeConflict ''stale attempt ownership''"

lemma owned_Inl: "owned rv L = Inl e \<Longrightarrow> e = stale"
  by (auto simp: owned_def stale_def split: option.splits if_splits)

lemma owned_stale:
  assumes "\<And>x. find_op L (os_operation_id (rv_operation rv)) = Some x \<Longrightarrow>
      op_active_attempt x \<noteq> Some (rv_attempt_id rv)"
    and "\<And>a. find_attempt L (rv_attempt_id rv) = Some a \<Longrightarrow>
      att_operation_id a = os_operation_id (rv_operation rv)"
  shows "owned rv L = Inl stale"
  using assms by (auto simp: owned_def stale_def split: option.splits)

lemma owned_foreign:
  assumes "find_attempt L (rv_attempt_id rv) = Some a"
    and "att_owner_id a \<noteq> rv_owner_id rv \<or> att_lease_epoch a \<noteq> rv_lease_epoch rv"
  shows "owned rv L = Inl stale"
  using assms by (auto simp: owned_def stale_def split: option.splits)

lemma fenced:
  assumes "owned rv L = Inl e"
  shows "mark_send c rv L = Inl e" "heartbeat lease c rv L = Inl e" "compute_finished c rv L = Inl e"
    "commit_result digest c rv ref usage atts L = Inl e" "unknown c rv reason L = Inl e"
    "fail c rv reason not_sent retry delay L = Inl e"
  using assms
  by (simp_all add: mark_send_def heartbeat_def compute_finished_def commit_result_def unknown_def fail_def)

text \<open>
  Fencing. An executor whose attempt is no longer the active one of its operation, or whose
  owner identity or lease epoch is not the one the row names, is refused by every transaction
  it may try, and none of them changes the ledger.
\<close>

theorem stale_executor_refused:
  assumes "find_attempt L (rv_attempt_id rv) = Some a"
    and "find_op L (att_operation_id a) = Some x"
    and "op_active_attempt x \<noteq> Some (rv_attempt_id rv)
      \<or> att_owner_id a \<noteq> rv_owner_id rv \<or> att_lease_epoch a \<noteq> rv_lease_epoch rv"
  shows "mark_send c rv L = Inl stale \<and> heartbeat lease c rv L = Inl stale \<and>
    compute_finished c rv L = Inl stale \<and> commit_result digest c rv ref usage atts L = Inl stale \<and>
    unknown c rv reason L = Inl stale \<and> fail c rv reason not_sent retry delay L = Inl stale"
proof -
  have "owned rv L = Inl stale"
    using assms by (auto simp: owned_def stale_def split: option.splits)
  then show ?thesis by (simp add: fenced)
qed

theorem stale_executor_refused_witness:
  "mark_send (demo_clock 12) (demo_reservation\<lparr>rv_owner_id := ''z''\<rparr>) demo_sent = Inl stale \<and>
   heartbeat 30 (demo_clock 12) (demo_reservation\<lparr>rv_owner_id := ''z''\<rparr>) demo_sent = Inl stale \<and>
   compute_finished (demo_clock 12) (demo_reservation\<lparr>rv_owner_id := ''z''\<rparr>) demo_sent = Inl stale \<and>
   commit_result demo_digest (demo_clock 12) (demo_reservation\<lparr>rv_owner_id := ''z''\<rparr>)
     (demo_artifact ''out'') None [] demo_sent = Inl stale \<and>
   unknown (demo_clock 12) (demo_reservation\<lparr>rv_owner_id := ''z''\<rparr>) [] demo_sent = Inl stale \<and>
   fail (demo_clock 12) (demo_reservation\<lparr>rv_owner_id := ''z''\<rparr>) [] True True 1 demo_sent = Inl stale"
proof (rule stale_executor_refused)
  show "find_attempt demo_sent (rv_attempt_id (demo_reservation\<lparr>rv_owner_id := ''z''\<rparr>))
      = Some (hd (t_attempts demo_sent))"
    and "find_op demo_sent (att_operation_id (hd (t_attempts demo_sent))) = Some (hd (t_ops demo_sent))"
    and "op_active_attempt (hd (t_ops demo_sent)) \<noteq> Some (rv_attempt_id (demo_reservation\<lparr>rv_owner_id := ''z''\<rparr>))
      \<or> att_owner_id (hd (t_attempts demo_sent)) \<noteq> rv_owner_id (demo_reservation\<lparr>rv_owner_id := ''z''\<rparr>)
      \<or> att_lease_epoch (hd (t_attempts demo_sent)) \<noteq> rv_lease_epoch (demo_reservation\<lparr>rv_owner_id := ''z''\<rparr>)"
    by code_simp+
qed

section \<open>Sending\<close>

lemma budget_line_charge:
  assumes "budget_line L rid u = Some (limit, reserved, spent)"
  shows "budget_line (charge k rid u bound L) rid u = Some (limit, reserved + bound, spent)"
proof (cases "u = Tokens")
  case True
  with assms obtain r where r: "find_root L rid = Some r" "limit = root_budget_limit r"
    "reserved = root_reserved r" "spent = root_spent r" by (auto simp: budget_line_def)
  moreover have "root_id r = rid" using r(1) by (rule lookup_row_Some_key)
  ultimately show ?thesis using True by (simp add: budget_line_def charge_def Let_def)
next
  case False
  with assms obtain b where b: "find_budget L rid u = Some b" "limit = bud_limit b"
    "reserved = bud_reserved b" "spent = bud_spent b" by (auto simp: budget_line_def)
  moreover have "bud_key b = (rid, u)" using b(1) by (rule lookup_row_Some_key)
  moreover have "bud_key (b\<lparr>bud_reserved := v\<rparr>) = bud_key b" for v by (simp add: bud_key_def)
  ultimately show ?thesis using False by (simp add: budget_line_def charge_def Let_def)
qed

lemma find_op_charge:
  assumes "find_op L k = Some x"
  shows "find_op (charge k rid u bound L) k = Some (x\<lparr>op_attempts := op_attempts x + 1\<rparr>)"
  using assms lookup_row_Some_key [OF assms] by (simp add: charge_def Let_def)

lemma charge_attempts [simp]: "t_attempts (charge k rid u b L) = t_attempts L"
  by (simp add: charge_def Let_def)

lemma charge_owners [simp]: "t_owners (charge k rid u b L) = t_owners L"
  by (simp add: charge_def Let_def)

text \<open>A send transaction that commits, taken apart.\<close>

lemma mark_sendE:
  assumes ok: "ledger_ok L" and ran: "mark_send c rv L = Inr M"
  obtains a x r limit reserved spent where "owned rv L = Inr (a, x, r)"
    "att_state a = RESERVED" "op_state x = EXECUTING" "root_state r = RUNNING" "\<not> root_cancel_requested r"
    "stamp c < attempt_deadline (root_deadline r) (op_spec x) (att_created_at a)"
    "utc c < attempt_deadline (root_deadline r) (op_spec x) (att_created_at a)"
    "stamp c < att_lease_expires_at a \<or> owner_alive L (rv_owner_id rv) (stamp_later c)"
    "op_attempts x < os_max_attempts (op_spec x)" "root_attempts r < rs_max_attempts (root_spec_of r)"
    "budget_line L (op_root_id x) (budget_unit_of (op_spec x)) = Some (limit, reserved, spent)"
    "spent + reserved + budget_bound_of (op_spec x) \<le> limit"
    "M = set_attempt (rv_attempt_id rv) (sent_row c)
              (charge (op_id x) (op_root_id x) (budget_unit_of (op_spec x)) (budget_bound_of (op_spec x)) L)"
proof -
  from ran obtain a x r where own: "owned rv L = Inr (a, x, r)"
    by (auto simp: mark_send_def and_then_Inr_iff)
  have fa: "find_attempt L (rv_attempt_id rv) = Some a" using own by (auto simp: owned_def split: option.splits if_splits)
  have st: "att_state a = RESERVED" using ran own by (auto simp: mark_send_def Let_def split: if_splits)
  have "\<not> att_budget_held a" using ok_attempt(2) [OF ok fa] st by (auto simp: att_ok_def)
  with ran own obtain limit reserved spent where
    line: "budget_line L (op_root_id x) (budget_unit_of (op_spec x)) = Some (limit, reserved, spent)"
    and fits: "spent + reserved + budget_bound_of (op_spec x) \<le> limit"
    and M: "M = set_attempt (rv_attempt_id rv) (sent_row c)
              (charge (op_id x) (op_root_id x) (budget_unit_of (op_spec x)) (budget_bound_of (op_spec x)) L)"
    by (auto simp: mark_send_def Let_def not_le split: if_splits option.splits prod.splits)
  show thesis
    by (rule that [OF own _ _ _ _ _ _ _ _ _ line fits M])
      (use ran own \<open>\<not> att_budget_held a\<close> in
        \<open>auto simp: mark_send_def Let_def not_le split: if_splits option.splits prod.splits\<close>)
qed

text \<open>
  What a send costs and when it may happen. A committed send found its attempt RESERVED,
  its operation EXECUTING and its root running and not cancelled, both clocks before the
  attempt's deadline, a live lease or owner, a spare attempt on both counters and room for the
  whole bound on the budget line; it leaves the attempt in SEND_INTENT holding compute and
  budget, one more attempt on the operation and exactly its bound more reserved.
\<close>

theorem mark_send_charges:
  assumes "reachable L" and "mark_send c rv L = Inr M"
  shows "\<exists>a x r limit reserved spent. owned rv L = Inr (a, x, r) \<and>
    att_state a = RESERVED \<and> op_state x = EXECUTING \<and> root_state r = RUNNING \<and> \<not> root_cancel_requested r \<and>
    max (stamp c) (utc c) < attempt_deadline (root_deadline r) (op_spec x) (att_created_at a) \<and>
    (stamp c < att_lease_expires_at a \<or> owner_alive L (rv_owner_id rv) (stamp_later c)) \<and>
    op_attempts x < os_max_attempts (op_spec x) \<and> root_attempts r < rs_max_attempts (root_spec_of r) \<and>
    budget_line L (op_root_id x) (budget_unit_of (op_spec x)) = Some (limit, reserved, spent) \<and>
    spent + reserved + budget_bound_of (op_spec x) \<le> limit \<and>
    budget_line M (op_root_id x) (budget_unit_of (op_spec x))
      = Some (limit, reserved + budget_bound_of (op_spec x), spent) \<and>
    find_attempt M (rv_attempt_id rv) = Some (sent_row c a) \<and>
    find_op M (op_id x) = Some (x\<lparr>op_attempts := op_attempts x + 1\<rparr>)"
proof -
  have ok: "ledger_ok L" using assms(1) by (rule reachable_ok)
  obtain a x r limit reserved spent where s: "owned rv L = Inr (a, x, r)"
    "att_state a = RESERVED" "op_state x = EXECUTING" "root_state r = RUNNING" "\<not> root_cancel_requested r"
    "stamp c < attempt_deadline (root_deadline r) (op_spec x) (att_created_at a)"
    "utc c < attempt_deadline (root_deadline r) (op_spec x) (att_created_at a)"
    "stamp c < att_lease_expires_at a \<or> owner_alive L (rv_owner_id rv) (stamp_later c)"
    "op_attempts x < os_max_attempts (op_spec x)" "root_attempts r < rs_max_attempts (root_spec_of r)"
    and line: "budget_line L (op_root_id x) (budget_unit_of (op_spec x)) = Some (limit, reserved, spent)"
    and fits: "spent + reserved + budget_bound_of (op_spec x) \<le> limit"
    and M: "M = set_attempt (rv_attempt_id rv) (sent_row c)
              (charge (op_id x) (op_root_id x) (budget_unit_of (op_spec x)) (budget_bound_of (op_spec x)) L)"
    by (rule mark_sendE [OF ok assms(2)])
  have a: "find_attempt L (rv_attempt_id rv) = Some a" "find_op L (op_id x) = Some x"
    using ownedE [OF ok s(1)] by metis+
  have "find_attempt M (rv_attempt_id rv) = Some (sent_row c a)"
    unfolding M using a(1) lookup_row_Some_key [OF a(1)] by (simp add: sent_row_def)
  moreover have "find_op M (op_id x) = Some (x\<lparr>op_attempts := op_attempts x + 1\<rparr>)"
    unfolding M using find_op_charge [OF a(2)] by simp
  moreover have "budget_line M (op_root_id x) (budget_unit_of (op_spec x))
      = Some (limit, reserved + budget_bound_of (op_spec x), spent)"
    unfolding M using budget_line_charge [OF line] budget_line_same by (metis set_attempt_frame(1,3))
  ultimately show ?thesis using s line fits by (intro exI conjI) auto
qed

theorem mark_send_charges_witness:
  "\<exists>a x r limit reserved spent. owned demo_reservation demo_reserved = Inr (a, x, r) \<and>
    att_state a = RESERVED \<and> op_state x = EXECUTING \<and> root_state r = RUNNING \<and> \<not> root_cancel_requested r \<and>
    max (stamp (demo_clock 11)) (utc (demo_clock 11)) < attempt_deadline (root_deadline r) (op_spec x) (att_created_at a) \<and>
    (stamp (demo_clock 11) < att_lease_expires_at a
      \<or> owner_alive demo_reserved (rv_owner_id demo_reservation) (stamp_later (demo_clock 11))) \<and>
    op_attempts x < os_max_attempts (op_spec x) \<and> root_attempts r < rs_max_attempts (root_spec_of r) \<and>
    budget_line demo_reserved (op_root_id x) (budget_unit_of (op_spec x)) = Some (limit, reserved, spent) \<and>
    spent + reserved + budget_bound_of (op_spec x) \<le> limit \<and>
    budget_line demo_sent (op_root_id x) (budget_unit_of (op_spec x))
      = Some (limit, reserved + budget_bound_of (op_spec x), spent) \<and>
    find_attempt demo_sent (rv_attempt_id demo_reservation) = Some (sent_row (demo_clock 11) a) \<and>
    find_op demo_sent (op_id x) = Some (x\<lparr>op_attempts := op_attempts x + 1\<rparr>)"
  by (rule mark_send_charges [OF demo_reachable(3) demo_run(6)])

section \<open>Reserving\<close>

text \<open>A candidate that is skipped leaves every other row alone.\<close>

lemma consider_skipped_shape:
  assumes ok: "ledger_ok L" and ran: "consider_candidate lease c locked aid owner p k L = Inr (M, None)"
  shows "M = L \<or> (\<exists>st reason. M = terminal c k st reason L) \<or>
    (\<exists>w. M = set_op k (\<lambda>x. x\<lparr>op_wait_reason := w\<rparr>) L)"
proof -
  have none: "map_sum id (\<lambda>(L', rv). (L', Some rv)) res \<noteq> Inr (M, None)"
    for res :: "error + ledger \<times> reservation"
    by (cases res) auto
  have key: "os_operation_id (op_spec x) = k" if "find_op L k = Some x" for x
    using ok_op(2) [OF ok that] .
  show ?thesis
  proof (cases "find_op L k")
    case (Some x)
    note k = key [OF Some]
    define P where "P N \<longleftrightarrow> N = L \<or> (\<exists>st reason. N = terminal c k st reason L) \<or>
      (\<exists>w. N = set_op k (\<lambda>x. x\<lparr>op_wait_reason := w\<rparr>) L)" for N
    have P: "P L" "P (terminal c k st reason L)" "P (set_op k (\<lambda>x. x\<lparr>op_wait_reason := w\<rparr>) L)" for st reason w
      unfolding P_def by blast+
    have "P M" using ran none Some P
      by (auto simp: consider_candidate_def Let_def expire_operation_def k split: option.splits if_splits)
    then show ?thesis by (simp add: P_def)
  qed (use ran in \<open>simp add: consider_candidate_def\<close>)
qed

lemma lookup_update_other:
  "(\<And>x. key (f x) = key x) \<Longrightarrow> j \<noteq> k \<Longrightarrow> lookup_row key j (update_rows (\<lambda>r. key r = k) f t) = lookup_row key j t"
  by (induction t) auto

lemma consider_skipped:
  assumes "ledger_ok L" and "consider_candidate lease c locked aid owner p k L = Inr (M, None)"
  shows "t_roots M = t_roots L" "t_attempts M = t_attempts L" "t_budgets M = t_budgets L"
    "j \<noteq> k \<Longrightarrow> find_op M j = find_op L j"
  using consider_skipped_shape [OF assms] by (auto simp: lookup_update_other)

lemma consider_all_taken:
  assumes "ledger_ok L" and "distinct ks" and "consider_all lease c locked aid owner p ks L = Inr (M, Some rv)"
  shows "\<exists>k \<in> set ks. \<exists>L1. ledger_ok L1 \<and> consider_candidate lease c locked aid owner p k L1 = Inr (M, Some rv) \<and>
    t_roots L1 = t_roots L \<and> t_attempts L1 = t_attempts L \<and> t_budgets L1 = t_budgets L \<and> find_op L1 k = find_op L k"
  using assms
proof (induction ks arbitrary: L)
  case (Cons k ks)
  then obtain L1 r1 where one: "consider_candidate lease c locked aid owner p k L = Inr (L1, r1)"
    by (cases "consider_candidate lease c locked aid owner p k L") auto
  show ?case
  proof (cases r1)
    case None
    note skip = consider_skipped [OF Cons.prems(1) one [unfolded None]]
    have "ledger_ok L1" using refines_ok [OF refines_consider_candidate [OF Cons.prems(1) one] Cons.prems(1)] .
    moreover have "consider_all lease c locked aid owner p ks L1 = Inr (M, Some rv)"
      using Cons.prems(3) one None by simp
    ultimately obtain j L2 where "j \<in> set ks" "ledger_ok L2"
      "consider_candidate lease c locked aid owner p j L2 = Inr (M, Some rv)"
      "t_roots L2 = t_roots L1" "t_attempts L2 = t_attempts L1" "t_budgets L2 = t_budgets L1"
      "find_op L2 j = find_op L1 j"
      using Cons.IH [of L1] Cons.prems(2) by auto
    moreover have "j \<noteq> k" using \<open>j \<in> set ks\<close> Cons.prems(2) by auto
    ultimately show ?thesis using skip by auto
  next
    case (Some rv')
    then show ?thesis using Cons.prems one by auto
  qed
qed simp

lemma join_roots_ids: "map (op_id \<circ> fst) (join_roots L xs) =
    map op_id (filter (\<lambda>x. find_root L (op_root_id x) \<noteq> None) xs)"
  by (induction xs) (auto split: option.splits)

lemma candidates_distinct:
  assumes "ledger_ok L"
  shows "distinct (map (op_id \<circ> fst) (candidates c p L))"
proof -
  have "distinct (map (op_id \<circ> fst) (join_roots L (t_ops L)))"
    unfolding join_roots_ids by (rule distinct_map_filter) (rule ok_distinct(2) [OF assms])
  then show ?thesis
    unfolding candidates_def take_map [symmetric]
    by (intro distinct_take distinct_sort_filter)
qed

lemma candidatesD:
  "(x, r) \<in> set (candidates c p L) \<Longrightarrow>
   x \<in> set (t_ops L) \<and> find_root L (op_root_id x) = Some r \<and> dispatchable x \<and>
   retry_due x (txn_now c) \<and> root_live r (txn_now c) \<and> fits_pool p (op_spec x)"
  by (auto simp: candidates_def join_roots_mem dest!: in_set_takeD)

text \<open>A candidate that is taken, taken apart.\<close>

lemma consider_takenE:
  assumes "consider_candidate lease c locked aid owner p k L = Inr (M, Some rv)"
  obtains x r limit reserved spent where
    "find_op L k = Some x" "find_root L (op_root_id x) = Some r" "root_live r (utc c)" "k \<notin> set locked"
    "dispatchable x" "retry_due x (utc c)" "\<not> op_expired (op_spec x) (stamp c)"
    "os_capacity_profile_id (op_spec x) \<in> {None, Some [], Some (ps_profile_id (pool_spec_of p))}"
    "os_required_capabilities (op_spec x) \<subseteq> ps_capabilities (pool_spec_of p)"
    "budget_bound_of (op_spec x) \<le> request_limit (pool_spec_of p)"
    "op_attempts x < os_max_attempts (op_spec x)" "root_attempts r < rs_max_attempts (root_spec_of r)"
    "budget_line L (os_root_id (op_spec x)) (budget_unit_of (op_spec x)) = Some (limit, reserved, spent)"
    "spent + reserved + budget_bound_of (op_spec x) \<le> limit"
    "reserve_candidate lease c aid owner p r x L = Inr (M, rv)"
proof -
  have pick: "reserve_candidate lease c aid owner p r x L = Inr (M, rv)"
    if "map_sum id (\<lambda>(L', rv). (L', Some rv)) (reserve_candidate lease c aid owner p r x L) = Inr (M, Some rv)"
    for r x using that by (cases "reserve_candidate lease c aid owner p r x L") auto
  from assms obtain x r where x: "find_op L k = Some x" "find_root L (op_root_id x) = Some r"
    by (auto simp: consider_candidate_def split: option.splits)
  from assms x obtain limit reserved spent where
    line: "budget_line L (os_root_id (op_spec x)) (budget_unit_of (op_spec x)) = Some (limit, reserved, spent)"
    by (auto simp: consider_candidate_def Let_def split: if_splits option.splits)
  show thesis
    by (rule that [OF x _ _ _ _ _ _ _ _ _ _ line])
      (use assms x line pick in
        \<open>auto simp: consider_candidate_def Let_def not_le not_less split: if_splits option.splits\<close>)
qed

text \<open>
  What dispatch hands out. A reservation comes from a healthy pool of a healthy group with
  a target, for an operation no other transaction holds that was READY or due for a retry,
  under a live root, not expired, that fits the pool's profile, with spare attempts and room
  for its whole bound. The attempt is new and its lease epoch is above every earlier one of the
  operation; afterwards the operation is EXECUTING with this attempt as its active one, the
  attempt holds nothing yet, and the fence lets exactly this reservation in.
\<close>

theorem reserve_next_hands_out:
  assumes "reachable L" and "reserve_next lease c locked aid pid owner L = Inr (M, Some rv)"
  shows "\<exists>p g x r limit reserved spent.
    find_pool L pid = Some p \<and> pool_health p = HEALTHY \<and> pool_target p \<noteq> 0 \<and>
    find_group L (pool_group_id p) = Some g \<and> group_health g = HEALTHY \<and>
    find_op L (op_id x) = Some x \<and> find_root L (op_root_id x) = Some r \<and> op_id x \<notin> set locked \<and>
    dispatchable x \<and> retry_due x (utc c) \<and> root_live r (utc c) \<and> root_live r (txn_now c) \<and>
    \<not> op_expired (op_spec x) (stamp c) \<and> fits_pool p (op_spec x) \<and>
    op_attempts x < os_max_attempts (op_spec x) \<and> root_attempts r < rs_max_attempts (root_spec_of r) \<and>
    budget_line L (op_root_id x) (budget_unit_of (op_spec x)) = Some (limit, reserved, spent) \<and>
    spent + reserved + budget_bound_of (op_spec x) \<le> limit \<and>
    aid \<notin> att_id ` set (t_attempts L) \<and>
    (\<forall>a \<in> set (t_attempts L). att_operation_id a = op_id x \<longrightarrow> 
       att_number a < rv_lease_epoch rv) \<and>
    rv_operation rv = op_spec x \<and> rv_pool_id rv = pid \<and> rv_engine_epoch rv = pool_engine_epoch p \<and>
    owned rv M = Inr (new_attempt lease c aid owner p (rv_lease_epoch rv) (op_spec x), claim_op aid x,
      r\<lparr>root_last_served := utc c\<rparr>)"
proof -
  have ok: "ledger_ok L" using assms(1) by (rule reachable_ok)
  from assms(2) obtain p g where p: "find_pool L pid = Some p" "pool_health p = HEALTHY" "pool_target p \<noteq> 0"
    "find_group L (pool_group_id p) = Some g" "group_health g = HEALTHY"
    and all: "consider_all lease c locked aid owner p (map (op_id \<circ> fst) (candidates c p L)) L = Inr (M, Some rv)"
    by (auto simp: reserve_next_def split: option.splits if_splits)
  from consider_all_taken [OF ok candidates_distinct [OF ok] all] obtain k L1 where
    k: "k \<in> set (map (op_id \<circ> fst) (candidates c p L))" and ok1: "ledger_ok L1"
    and taken: "consider_candidate lease c locked aid owner p k L1 = Inr (M, Some rv)"
    and same: "t_roots L1 = t_roots L" "t_attempts L1 = t_attempts L" "t_budgets L1 = t_budgets L"
      "find_op L1 k = find_op L k" by blast
  from k obtain x' r' where cand: "(x', r') \<in> set (candidates c p L)" "op_id x' = k" by auto
  obtain x r limit reserved spent where t: "find_op L1 k = Some x" "find_root L1 (op_root_id x) = Some r"
    "root_live r (utc c)" "k \<notin> set locked" "dispatchable x" "retry_due x (utc c)"
    "\<not> op_expired (op_spec x) (stamp c)" "op_attempts x < os_max_attempts (op_spec x)"
    "root_attempts r < rs_max_attempts (root_spec_of r)"
    "budget_line L1 (os_root_id (op_spec x)) (budget_unit_of (op_spec x)) = Some (limit, reserved, spent)"
    "spent + reserved + budget_bound_of (op_spec x) \<le> limit"
    "reserve_candidate lease c aid owner p r x L1 = Inr (M, rv)"
    by (rule consider_takenE [OF taken]) blast
  note opx = ok_op [OF ok1 t(1)]
  have "find_op L k = Some x'" using candidatesD [OF cand(1)] cand(2) ok_distinct(2) [OF ok] by (simp add: lookup_row_iff)
  with t(1) same have x: "x' = x" by simp
  have c': "root_live r (txn_now c)" "fits_pool p (op_spec x)"
    using candidatesD [OF cand(1)] x t(2) same by auto
  have line: "budget_line L (op_root_id x) (budget_unit_of (op_spec x)) = Some (limit, reserved, spent)"
    using t(10) opx(3) budget_line_same [OF same(1,3)] by simp
  let ?n = "next_attempt_number L1 k"
  from t(12) opx have new: "aid \<notin> att_id ` set (t_attempts L)"
    and M: "M = set_root (op_root_id x) (\<lambda>r. r\<lparr>root_last_served := utc c\<rparr>) (set_op k (claim_op aid)
      (L1\<lparr>t_attempts := t_attempts L1 @ [new_attempt lease c aid owner p ?n (op_spec x)]\<rparr>))"
    and rv: "rv_attempt_id rv = aid" "rv_operation rv = op_spec x" "rv_pool_id rv = pool_id p"
      "rv_engine_epoch rv = pool_engine_epoch p" "rv_owner_id rv = owner" "rv_lease_epoch rv = ?n"
    by (auto simp: reserve_candidate_def Let_def same split: if_splits)
  have pid: "pool_id p = pid" using p(1) by (rule lookup_row_Some_key)
  let ?a = "new_attempt lease c aid owner p ?n (op_spec x)"
  have none: "lookup_row att_id aid (t_attempts L1) = None" using new same by (simp add: lookup_row_None_iff)
  have "find_attempt M aid = Some ?a"
    unfolding M using none by (simp add: lookup_row_append) (simp add: new_attempt_def)
  moreover have fo: "find_op M k = Some (claim_op aid x)"
    unfolding M using t(1) opx by (simp add: claim_op_def)
  moreover have "find_root M (op_root_id x) = Some (r\<lparr>root_last_served := utc c\<rparr>)"
    unfolding M using t(2) lookup_row_Some_key [OF t(2)] by simp
  ultimately have own: "owned rv M = Inr (?a, claim_op aid x, r\<lparr>root_last_served := utc c\<rparr>)"
    using rv opx by (simp add: owned_def new_attempt_def claim_op_def)
  have later: "att_number a < ?n" if "a \<in> set (t_attempts L)" "att_operation_id a = k" for a
    using next_attempt_number_gt [of a L1 k] that same by simp
  show ?thesis
    using p t c' line new later rv pid own opx same
    by (intro exI [of _ p] exI [of _ g] exI [of _ x] exI [of _ r] exI [of _ limit] exI [of _ reserved] exI [of _ spent])
      simp
qed

theorem reserve_next_hands_out_witness:
  "\<exists>p g x r limit reserved spent.
    find_pool demo_bound ''p'' = Some p \<and> pool_health p = HEALTHY \<and> pool_target p \<noteq> 0 \<and>
    find_group demo_bound (pool_group_id p) = Some g \<and> group_health g = HEALTHY \<and>
    find_op demo_bound (op_id x) = Some x \<and> find_root demo_bound (op_root_id x) = Some r \<and> op_id x \<notin> set [] \<and>
    dispatchable x \<and> retry_due x (utc (demo_clock 10)) \<and> root_live r (utc (demo_clock 10)) \<and> root_live r (txn_now (demo_clock 10)) \<and>
    \<not> op_expired (op_spec x) (stamp (demo_clock 10)) \<and> fits_pool p (op_spec x) \<and>
    op_attempts x < os_max_attempts (op_spec x) \<and> root_attempts r < rs_max_attempts (root_spec_of r) \<and>
    budget_line demo_bound (op_root_id x) (budget_unit_of (op_spec x)) = Some (limit, reserved, spent) \<and>
    spent + reserved + budget_bound_of (op_spec x) \<le> limit \<and>
    ''a'' \<notin> att_id ` set (t_attempts demo_bound) \<and>
    (\<forall>a \<in> set (t_attempts demo_bound). att_operation_id a = op_id x \<longrightarrow> 
       att_number a < rv_lease_epoch demo_reservation) \<and>
    rv_operation demo_reservation = op_spec x \<and> rv_pool_id demo_reservation = ''p'' \<and> rv_engine_epoch demo_reservation = pool_engine_epoch p \<and>
    owned demo_reservation demo_reserved = Inr (new_attempt 30 (demo_clock 10) ''a'' ''w'' p (rv_lease_epoch demo_reservation) (op_spec x), claim_op ''a'' x,
      r\<lparr>root_last_served := utc (demo_clock 10)\<rparr>)"
  by (rule reserve_next_hands_out [OF demo_reachable(2) demo_run(5)])

end
