(* ===== verification/Ledger_Settling.thy ===== *)
theory Ledger_Settling
  imports Ledger_Facts
begin

text \<open>
  How attempts end: a settlement always succeeds in a reachable ledger, a failed attempt
  releases what it held, and a committed result becomes the operation's only when the run and
  the operation still wanted it.
\<close>

section \<open>Settlement\<close>

lemma total_ge: "(\<And>r. r \<in> set t \<Longrightarrow> 0 \<le> w r) \<Longrightarrow> r \<in> set t \<Longrightarrow> w r \<le> total w t"
proof (induction t)
  case (Cons s t)
  then have "0 \<le> total w t" by (intro total_nonneg) simp
  with Cons show ?case by (auto simp: add_increasing)
qed simp

lemma lookup_updated:
  assumes "lookup_row key k (update_rows (\<lambda>r. key r = k) f t) = Some s" and "\<And>r. key (f r) = key r"
  obtains r where "lookup_row key k t = Some r" "s = f r"
  using assms by (induction t) (auto split: if_splits)

lemma attempt_shape:
  assumes "ledger_ok L" and "a \<in> set (t_attempts L)"
  shows "att_ok (abs_att (t_ops L) a)" "0 < att_budget_bound a" "opt_all (\<lambda>u. 0 \<le> u) (att_usage a)"
proof -
  have "find_attempt L (att_id a) = Some a" using assms ok_distinct(3) [OF assms(1)] by (simp add: lookup_row_iff)
  then show o: "att_ok (abs_att (t_ops L) a)" by (rule ok_attempt(2) [OF assms(1)])
  then show "0 < att_budget_bound a" "opt_all (\<lambda>u. 0 \<le> u) (att_usage a)" by (auto simp: att_ok_def)
qed

lemma amounts_nonneg:
  assumes "ledger_ok L" and "a \<in> set (t_attempts L)"
  shows "0 \<le> held_amount L rid u a" "0 \<le> charged_amount L rid u a"
  using attempt_shape [OF assms] by (auto simp: held_amount_def charged_amount_def opt_all_def split: option.splits)

text \<open>The line an attempt is charged to exists and covers what the attempt holds.\<close>

lemma attempt_line:
  assumes ok: "ledger_ok L" and a: "find_attempt L k = Some a" and x: "find_op L (att_operation_id a) = Some x"
  obtains limit reserved spent where
    "budget_line L (op_root_id x) (att_budget_unit a) = Some (limit, reserved, spent)"
    "att_budget_held a \<Longrightarrow> att_budget_bound a \<le> reserved" "0 \<le> spent" "0 \<le> reserved"
proof -
  have "abs_op x \<in> set (p_ops (abs_ledger L))" using x by (auto dest: lookup_row_Some_in)
  from ident_inv_opD [OF ok_parts(1) [OF ok] this]
  have "p_lines (abs_ledger L) (op_root_id x, budget_unit_of (op_spec x)) \<noteq> None" by (simp add: op_placed_def)
  moreover have "att_budget_unit a = budget_unit_of (op_spec x)" using ok_attempt(3) [OF ok a] x by auto
  ultimately obtain limit reserved spent where
    line: "budget_line L (op_root_id x) (att_budget_unit a) = Some (limit, reserved, spent)"
    by (auto simp: abs_budget_line)
  note acc = ledger_accounts [OF ok line]
  have mem: "a \<in> set (t_attempts L)" using a by (rule lookup_row_Some_in)
  have root: "attempt_root L a = Some (op_root_id x)" using x by (simp add: attempt_root_def op_of_attempt_def)
  have "held_amount L (op_root_id x) (att_budget_unit a) a \<le> reserved"
    unfolding acc(1) by (rule total_ge [OF amounts_nonneg(1) [OF ok] mem])
  then have "att_budget_held a \<Longrightarrow> att_budget_bound a \<le> reserved" using root by (simp add: held_amount_def)
  moreover have "0 \<le> spent" unfolding acc(2) by (rule total_nonneg [OF amounts_nonneg(2) [OF ok]])
  moreover have "0 \<le> reserved" unfolding acc(1) by (rule total_nonneg [OF amounts_nonneg(1) [OF ok]])
  ultimately show thesis using that line by blast
qed

lemma over_budget_simps [simp]:
  "root_id (over_budget c r) = root_id r" "root_budget_limit (over_budget c r) = root_budget_limit r"
  "root_reserved (over_budget c r) = root_reserved r" "root_spent (over_budget c r) = root_spent r"
  "root_state (over_budget c r) \<noteq> RUNNING"
  by (simp_all add: over_budget_def)

lemma budget_line_move:
  assumes "budget_line L rid u = Some (limit, reserved, spent)"
  shows "budget_line (move_budget rid u bound charged L) rid u = Some (limit, reserved - bound, spent + charged)"
  using fun_cong [OF lines_move_budget [OF assms], of bound charged "(rid, u)"] by (simp add: abs_budget_line)

lemma settle_succeeds:
  assumes ok: "ledger_ok L" and a: "find_attempt L k = Some a" and x: "find_op L (att_operation_id a) = Some x"
    and pos: "0 \<le> or_else usage (att_budget_bound a)"
  obtains M where "settle c a (op_root_id x) usage L = Inr M"
proof -
  obtain limit reserved spent where
    line: "budget_line L (op_root_id x) (att_budget_unit a) = Some (limit, reserved, spent)"
    "att_budget_held a \<Longrightarrow> att_budget_bound a \<le> reserved" "0 \<le> spent" "0 \<le> reserved"
    using attempt_line [OF ok a x] by blast
  show thesis
  proof (cases "att_budget_held a")
    case True
    then have "\<not> reserved - att_budget_bound a < 0" using line(2) by simp
    then show thesis using that line pos True by (simp add: settle_def Let_def)
  qed (use that in \<open>simp add: settle_def\<close>)
qed

text \<open>
  C38. Settlement cannot fail. In a reachable ledger the settlement of an attempt that holds
  budget passes every check of the tables: the line is there and covers the bound. It moves
  exactly the bound out of reserved and the charge into spent, frees the attempt's budget,
  closes the root when the line is overspent, and degrades a pool that used more than it
  reserved.
\<close>

theorem settlement_total:
  assumes "reachable L" and "find_attempt L k = Some a" and "find_op L (att_operation_id a) = Some x"
    and "att_budget_held a" and "0 \<le> or_else usage (att_budget_bound a)"
  shows "\<exists>M limit reserved spent. settle c a (op_root_id x) usage L = Inr M \<and>
    budget_line L (op_root_id x) (att_budget_unit a) = Some (limit, reserved, spent) \<and>
    budget_line M (op_root_id x) (att_budget_unit a) =
      Some (limit, reserved - att_budget_bound a, spent + or_else usage (att_budget_bound a)) \<and>
    find_attempt M k = Some (settled_row usage a) \<and>
    (limit < spent + or_else usage (att_budget_bound a) \<longrightarrow>
       (\<forall>r. find_root M (op_root_id x) = Some r \<longrightarrow> root_state r \<noteq> RUNNING)) \<and>
    (att_budget_bound a < or_else usage (att_budget_bound a) \<longrightarrow>
       (\<forall>p. find_pool M (att_pool_id a) = Some p \<longrightarrow> pool_target p = 0 \<and> pool_health p = DEGRADED))"
proof -
  have ok: "ledger_ok L" using assms(1) by (rule reachable_ok)
  let ?ch = "or_else usage (att_budget_bound a)" and ?u = "att_budget_unit a" and ?rid = "op_root_id x"
  obtain M where M: "settle c a ?rid usage L = Inr M" by (rule settle_succeeds [OF ok assms(2,3,5)])
  with assms(4) obtain limit reserved spent where
    line: "budget_line L ?rid ?u = Some (limit, reserved, spent)"
    by (auto simp: settle_def Let_def split: if_splits option.splits)
  let ?L2 = "move_budget ?rid ?u (att_budget_bound a) ?ch (set_attempt (att_id a) (settled_row usage) L)"
  let ?L3 = "if limit < spent + ?ch then set_root ?rid (over_budget c) ?L2 else ?L2"
  have M': "M = wake (if att_budget_bound a < ?ch then set_pool (att_pool_id a) degrade_pool ?L3 else ?L3)"
    using M line assms(4) by (auto simp: settle_def Let_def split: if_splits)
  have "budget_line (set_attempt (att_id a) (settled_row usage) L) ?rid ?u = Some (limit, reserved, spent)"
    using line budget_line_same [of "set_attempt (att_id a) (settled_row usage) L" L] by simp
  then have line2: "budget_line ?L2 ?rid ?u = Some (limit, reserved - att_budget_bound a, spent + ?ch)"
    by (rule budget_line_move)
  have over: "budget_line (set_root ?rid (over_budget c) N) ?rid ?u = budget_line N ?rid ?u" for N
    by (cases "find_root N ?rid") (auto simp: budget_line_def lookup_update_rows)
  have "budget_line M ?rid ?u = budget_line ?L3 ?rid ?u"
    unfolding M' by (rule budget_line_same) simp_all
  then have lineM: "budget_line M ?rid ?u = Some (limit, reserved - att_budget_bound a, spent + ?ch)"
    using line2 over by simp
  have row: "find_attempt M k = Some (settled_row usage a)"
    using settle_frame(4) [OF M] assms(2,4) lookup_row_Some_key [OF assms(2)] by (simp add: settled_row_def)
  have closed: "root_state r \<noteq> RUNNING"
    if "limit < spent + ?ch" "find_root M ?rid = Some r" for r
  proof -
    have "find_root (set_root ?rid (over_budget c) ?L2) ?rid = Some r"
      using that unfolding M' by (auto split: if_splits)
    then show ?thesis
      by (simp, elim lookup_updated) simp_all
  qed
  have pool: "pool_target p = 0 \<and> pool_health p = DEGRADED"
    if "att_budget_bound a < ?ch" "find_pool M (att_pool_id a) = Some p" for p
    using that unfolding M' by (simp, elim lookup_updated) (auto simp: degrade_pool_def)
  show ?thesis using M line lineM row closed pool by blast
qed

theorem settlement_total_witness:
  "\<exists>M limit reserved spent. settle (demo_clock 21) (hd (t_attempts demo_finished)) (op_root_id (hd (t_ops demo_finished))) (Some 40) demo_finished = Inr M \<and>
    budget_line demo_finished (op_root_id (hd (t_ops demo_finished))) (att_budget_unit (hd (t_attempts demo_finished))) = Some (limit, reserved, spent) \<and>
    budget_line M (op_root_id (hd (t_ops demo_finished))) (att_budget_unit (hd (t_attempts demo_finished))) =
      Some (limit, reserved - att_budget_bound (hd (t_attempts demo_finished)),
        spent + or_else (Some 40) (att_budget_bound (hd (t_attempts demo_finished)))) \<and>
    find_attempt M ''a'' = Some (settled_row (Some 40) (hd (t_attempts demo_finished))) \<and>
    (limit < spent + or_else (Some 40) (att_budget_bound (hd (t_attempts demo_finished))) \<longrightarrow>
       (\<forall>r. find_root M (op_root_id (hd (t_ops demo_finished))) = Some r \<longrightarrow> root_state r \<noteq> RUNNING)) \<and>
    (att_budget_bound (hd (t_attempts demo_finished)) < or_else (Some 40) (att_budget_bound (hd (t_attempts demo_finished))) \<longrightarrow>
       (\<forall>p. find_pool M (att_pool_id (hd (t_attempts demo_finished))) = Some p \<longrightarrow> pool_target p = 0 \<and> pool_health p = DEGRADED))"
proof (rule settlement_total [OF demo_reachable(5)])
  show "find_attempt demo_finished ''a'' = Some (hd (t_attempts demo_finished))"
    and "find_op demo_finished (att_operation_id (hd (t_attempts demo_finished))) = Some (hd (t_ops demo_finished))"
    and "att_budget_held (hd (t_attempts demo_finished))"
    and "0 \<le> or_else (Some 40) (att_budget_bound (hd (t_attempts demo_finished)))"
    by code_simp+
qed

section \<open>Failure\<close>

text \<open>
  A failed attempt always lets go. For an attempt that is not settled, \<open>fail\<close> commits
  whenever the backend is known not to hold compute or the request was never sent; the attempt
  ends holding nothing, charged nothing if it was not sent and its full bound otherwise, and
  the operation is cancelled, failed or set to wait for a retry exactly as the run, the
  operation's deadline and the caller's verdict say. A sent attempt whose compute is still
  held cannot be failed.
\<close>

theorem fail_releases:
  assumes "reachable L" and "owned rv L = Inr (a, x, r)" and "\<not> att_ended (att_state a)"
    and "att_compute_held a \<longrightarrow> not_sent"
  shows "\<exists>M. fail c rv reason not_sent retry delay L = Inr M \<and>
    (\<exists>b. find_attempt M (rv_attempt_id rv) = Some b \<and>
       att_state b = (if not_sent then FAILED_NOT_SENT else ATTEMPT_FAILED) \<and>
       \<not> att_compute_held b \<and> \<not> att_budget_held b \<and>
       (att_budget_held a \<longrightarrow> att_usage b = Some (if not_sent then 0 else att_budget_bound a))) \<and>
    (\<exists>y. find_op M (op_id x) = Some y \<and> op_result y = op_result x \<and>
       op_state y = (if op_terminal (op_state x) then op_state x
         else if root_cancel_requested r then CANCELLED
         else if root_state r \<noteq> RUNNING \<or> op_expired (op_spec x) (stamp c) then FAILED
         else if retry then RETRY_WAIT else FAILED))"
proof -
  have ok: "ledger_ok L" using assms(1) by (rule reachable_ok)
  have o: "find_attempt L (rv_attempt_id rv) = Some a" "att_id a = rv_attempt_id rv"
    "find_op L (att_operation_id a) = Some x" "op_id x = att_operation_id a"
    "0 < att_budget_bound a"
    using ownedE [OF ok assms(2)] attempt_shape(2) [OF ok] lookup_row_Some_in by metis+
  let ?usage = "if not_sent then Some 0 else None :: int option"
  obtain L1 where L1: "settle c a (op_root_id x) ?usage L = Inr L1"
    by (rule settle_succeeds [OF ok o(1,3)]) (use o(5) in auto)
  let ?h = "failed_row (if not_sent then FAILED_NOT_SENT else ATTEMPT_FAILED) reason"
  let ?L2 = "set_attempt (att_id a) ?h L1"
  define M where "M = (if op_terminal (op_state x) then ?L2
               else if root_cancel_requested r then terminal c (op_id x) CANCELLED ''user_cancelled'' ?L2
               else if root_state r \<noteq> RUNNING then terminal c (op_id x) FAILED ''root_terminal'' ?L2
               else if op_expired (op_spec x) (stamp c) then fst (expire_operation c (op_spec x) (stamp c) ?L2)
               else if retry then set_op (op_id x) (retry_op reason (utc c + delay)) ?L2
               else terminal c (op_id x) FAILED reason ?L2)"
  have ran: "fail c rv reason not_sent retry delay L = Inr M"
    using assms(2-4) L1 by (auto simp: fail_def M_def Let_def)
  have "find_attempt L1 (att_id a) = Some (if att_budget_held a then settled_row ?usage a else a)"
    using settle_frame(4) [OF L1] o(1,2) by (simp add: settled_row_def)
  then have f2: "find_attempt ?L2 (att_id a) = Some (?h (if att_budget_held a then settled_row ?usage a else a))"
    by (simp add: failed_row_def settled_row_def o(2))
  have "t_attempts M = t_attempts ?L2" unfolding M_def by (simp add: expire_operation_def)
  then have att: "find_attempt M (rv_attempt_id rv) = Some (?h (if att_budget_held a then settled_row ?usage a else a))"
    using f2 o(2) by simp
  have opsk: "os_operation_id (op_spec x) = op_id x" using ok_op(2) [OF ok o(3)] o(4) by simp
  have x2: "lookup_row op_id (op_id x) (t_ops L1) = Some x" using settle_frame(1) [OF L1] o(3,4) by simp
  then have opM: "\<exists>y. find_op M (op_id x) = Some y \<and> op_result y = op_result x \<and>
       op_state y = (if op_terminal (op_state x) then op_state x
         else if root_cancel_requested r then CANCELLED
         else if root_state r \<noteq> RUNNING \<or> op_expired (op_spec x) (stamp c) then FAILED
         else if retry then RETRY_WAIT else FAILED)"
    unfolding M_def expire_operation_def opsk by (simp add: finish_op_state retry_op_def)
  show ?thesis
    using ran att opM by (intro exI [of _ M] conjI) (auto simp: failed_row_def settled_row_def)
qed

theorem fail_releases_witness:
  "\<exists>M. fail (demo_clock 21) demo_reservation ''boom'' False True 5 demo_finished = Inr M \<and>
    (\<exists>b. find_attempt M (rv_attempt_id demo_reservation) = Some b \<and>
       att_state b = (if False then FAILED_NOT_SENT else ATTEMPT_FAILED) \<and>
       \<not> att_compute_held b \<and> \<not> att_budget_held b \<and>
       (att_budget_held (hd (t_attempts demo_finished)) \<longrightarrow> att_usage b = Some (if False then 0 else att_budget_bound (hd (t_attempts demo_finished))))) \<and>
    (\<exists>y. find_op M (op_id (hd (t_ops demo_finished))) = Some y \<and> op_result y = op_result (hd (t_ops demo_finished)) \<and>
       op_state y = (if op_terminal (op_state (hd (t_ops demo_finished))) then op_state (hd (t_ops demo_finished))
         else if root_cancel_requested (hd (t_roots demo_finished)) then CANCELLED
         else if root_state (hd (t_roots demo_finished)) \<noteq> RUNNING \<or> op_expired (op_spec (hd (t_ops demo_finished))) (stamp (demo_clock 21)) then FAILED
         else if True then RETRY_WAIT else FAILED))"
proof (rule fail_releases [OF demo_reachable(5)])
  show "owned demo_reservation demo_finished =
      Inr (hd (t_attempts demo_finished), hd (t_ops demo_finished), hd (t_roots demo_finished))"
    and "\<not> att_ended (att_state (hd (t_attempts demo_finished)))"
    and "att_compute_held (hd (t_attempts demo_finished)) \<longrightarrow> False"
    by code_simp+
qed

section \<open>Commit\<close>

text \<open>A result is still wanted: the run goes on, nobody cancelled it, the operation is open and in time.\<close>

definition wanted :: "op_row \<Rightarrow> root_row \<Rightarrow> clocks \<Rightarrow> bool" where
  "wanted x r c \<longleftrightarrow> \<not> root_cancel_requested r \<and> root_state r = RUNNING \<and>
     \<not> op_terminal (op_state x) \<and> \<not> op_expired (op_spec x) (stamp c)"

lemma record_artifacts_rows:
  "record_artifacts digest tenant k aid d refs L = Inr M \<Longrightarrow>
   set (t_artifacts L) \<subseteq> set (t_artifacts M) \<and>
   (\<forall>ra \<in> set refs. \<exists>row \<in> set (t_artifacts M). arow_object_key row = art_key ra \<and>
      arow_attempt_id row = aid \<and> arow_manifest row = ra \<and> arow_disposition row = d)"
proof (induction refs arbitrary: L)
  case (Cons ref refs)
  let ?row = "\<lparr>arow_object_key = art_key ref, arow_tenant_id = tenant, arow_operation_id = k,
                    arow_attempt_id = aid, arow_manifest = ref, arow_disposition = d\<rparr>"
  from Cons.prems have "record_artifacts digest tenant k aid d refs
      (L\<lparr>t_artifacts := t_artifacts L @ [?row]\<rparr>) = Inr M" by (simp split: if_splits)
  from Cons.IH [OF this] show ?case by auto (metis artifact_row.select_convs)
qed simp

lemma settle_artifacts: "settle c a rid usage L = Inr L1 \<Longrightarrow> t_artifacts L1 = t_artifacts L"
  by (auto simp: settle_def Let_def move_budget_def split: if_splits option.splits prod.splits)

text \<open>
  What a commit does with a result. It needs a finished backend; the attempt ends
  RESULT_COMMITTED, holding nothing and charged its reported usage or its bound. Exactly when
  the result is still wanted it becomes the operation's and the operation SUCCEEDED; otherwise
  the operation keeps the result it had and ends FAILED unless it had already ended, and the
  manifest is kept as late evidence, not as a result.
\<close>

theorem commit_result_outcome:
  assumes "reachable L" and "owned rv L = Inr (a, x, r)" and "att_state a \<noteq> RESULT_COMMITTED"
    and "commit_result digest c rv ref usage atts L = Inr M"
  shows "
    att_state a = BACKEND_FINISHED \<and> \<not> att_compute_held a \<and>
    (\<exists>b. find_attempt M (rv_attempt_id rv) = Some b \<and> att_state b = RESULT_COMMITTED \<and>
       \<not> att_compute_held b \<and> \<not> att_budget_held b \<and>
       (att_budget_held a \<longrightarrow> att_usage b = Some (or_else usage (att_budget_bound a)))) \<and>
    (\<exists>y. find_op M (op_id x) = Some y \<and>
       (if wanted x r c then op_state y = SUCCEEDED \<and> op_result y = Some ref
        else op_result y = op_result x \<and>
          op_state y = (if op_terminal (op_state x) then op_state x else FAILED))) \<and>
    (\<forall>ra \<in> set (ref # atts). \<exists>row \<in> set (t_artifacts M). arow_object_key row = art_key ra \<and>
       arow_attempt_id row = att_id a \<and> arow_manifest row = ra \<and>
       (arow_disposition row = ResultDisposition \<longleftrightarrow> wanted x r c))"
proof -
  have ok: "ledger_ok L" using assms(1) by (rule reachable_ok)
  have o: "find_attempt L (rv_attempt_id rv) = Some a" "att_id a = rv_attempt_id rv"
    "find_op L (att_operation_id a) = Some x" "op_id x = att_operation_id a"
    using ownedE [OF ok assms(2)] by metis+
  have opsk: "os_operation_id (op_spec x) = op_id x" using ok_op(2) [OF ok o(3)] o(4) by simp
  define expired where "expired = op_expired (op_spec x) (stamp c)"
  define cancelled where "cancelled \<longleftrightarrow> root_cancel_requested r \<or> op_state x = CANCELLED \<or> root_state r \<noteq> RUNNING"
  define over where "over \<longleftrightarrow> expired \<or> op_terminal (op_state x)"
  define d where "d = (if cancelled then LateCancelled else if over then LateTerminal else ResultDisposition)"
  define L1 where "L1 = fst (expire_operation c (op_spec x) (stamp c) L)"
  have e: "expire_operation c (op_spec x) (stamp c) L = (L1, expired)"
    by (simp add: L1_def expired_def expire_operation_def)
  have fin: "att_state a = BACKEND_FINISHED" "\<not> att_compute_held a"
    using assms by (auto simp: commit_result_def split: if_splits)
  from assms fin e obtain L2 L3 where
    L2: "record_artifacts digest (op_tenant_id x) (op_id x) (att_id a) d (ref # atts) L1 = Inr L2"
    and L3: "settle c a (op_root_id x) usage L2 = Inr L3"
    and M: "M = completion_events c (op_id x)
        (if \<not> cancelled \<and> \<not> over then set_op (op_id x) (succeed_op ref) (set_attempt (att_id a) (committed_row c) L3)
         else if cancelled \<and> \<not> over then terminal c (op_id x) FAILED ''root_terminal'' (set_attempt (att_id a) (committed_row c) L3)
         else set_attempt (att_id a) (committed_row c) L3)"
    unfolding cancelled_def over_def d_def
    by (auto simp: commit_result_def Let_def and_then_Inr_iff simp del: record_artifacts.simps)
  have w: "wanted x r c \<longleftrightarrow> \<not> cancelled \<and> \<not> over"
    by (auto simp: wanted_def cancelled_def over_def expired_def)
  have frame2: "t_attempts L2 = t_attempts L" "t_ops L2 = t_ops L1"
    using record_artifacts_frame [OF L2] by (auto simp: L1_def expire_operation_def)
  have "find_attempt L3 (att_id a) = Some (if att_budget_held a then settled_row usage a else a)"
    using settle_frame(4) [OF L3] o(1,2) frame2 by (simp add: settled_row_def)
  then have att: "find_attempt M (rv_attempt_id rv)
      = Some (committed_row c (if att_budget_held a then settled_row usage a else a))"
    unfolding M by (simp add: committed_row_def settled_row_def o(2))
  have x1: "lookup_row op_id (op_id x) (t_ops L3)
      = Some (if expired then finish_op FAILED ''operation_deadline_exceeded'' x else x)"
    using settle_frame(1) [OF L3] frame2 o(3,4) opsk by (simp add: L1_def expire_operation_def expired_def)
  have op: "\<exists>y. find_op M (op_id x) = Some y \<and>
       (if wanted x r c then op_state y = SUCCEEDED \<and> op_result y = Some ref
        else op_result y = op_result x \<and>
          op_state y = (if op_terminal (op_state x) then op_state x else FAILED))"
    unfolding M w by (auto simp: x1 succeed_op_def finish_op_state over_def split: if_splits)
  have arts: "t_artifacts M = t_artifacts L2" using settle_artifacts [OF L3] unfolding M by simp
  have "d = ResultDisposition \<longleftrightarrow> wanted x r c" unfolding d_def w by simp
  with record_artifacts_rows [OF L2] have rows: "\<forall>ra \<in> set (ref # atts). \<exists>row \<in> set (t_artifacts M).
      arow_object_key row = art_key ra \<and> arow_attempt_id row = att_id a \<and> arow_manifest row = ra \<and>
      (arow_disposition row = ResultDisposition \<longleftrightarrow> wanted x r c)"
    unfolding arts by blast
  show ?thesis
    using fin att op rows
    by (intro conjI) (auto simp: committed_row_def settled_row_def simp del: list.set)
qed

theorem commit_result_outcome_witness:
  "(\<exists>b. find_attempt demo_done ''a'' = Some b \<and> att_state b = RESULT_COMMITTED \<and> att_usage b = Some 40) \<and>
   (\<exists>y. find_op demo_done ''o'' = Some y \<and> op_state y = SUCCEEDED \<and> op_result y = Some (demo_artifact ''out'')) \<and>
   (\<exists>row \<in> set (t_artifacts demo_done). arow_object_key row = ''tenants/t/out'' \<and> arow_disposition row = ResultDisposition)"
proof -
  have o: "owned demo_reservation demo_finished =
      Inr (hd (t_attempts demo_finished), hd (t_ops demo_finished), hd (t_roots demo_finished))"
    "att_state (hd (t_attempts demo_finished)) \<noteq> RESULT_COMMITTED"
    by code_simp+
  have v: "rv_attempt_id demo_reservation = ''a''" "op_id (hd (t_ops demo_finished)) = ''o''"
    "att_budget_held (hd (t_attempts demo_finished))"
    "or_else (Some 40) (att_budget_bound (hd (t_attempts demo_finished))) = 40"
    "wanted (hd (t_ops demo_finished)) (hd (t_roots demo_finished)) (demo_clock 21)"
    "art_key (demo_artifact ''out'') = ''tenants/t/out''"
    by code_simp+
  show ?thesis
    using commit_result_outcome [OF demo_reachable(5) o demo_run(8)] unfolding v(1,2,4,6) by (auto simp: v)
qed

end
