(* ===== verification/Ledger_Closing.thy ===== *)
theory Ledger_Closing
  imports Ledger_Settling
begin

text \<open>
  How runs end: cancellation, \<open>finish_run\<close> and the reconciliation pass, with what each
  leaves behind.
\<close>

section \<open>Ending many operations\<close>

lemma finish_op_twice:
  "op_terminal st \<Longrightarrow> finish_op st reason (finish_op st reason x) = finish_op st reason x"
  by (simp add: finish_op_def)

lemma terminal_all_ops:
  assumes "op_terminal st"
  shows "t_ops (terminal_all c ks st reason L) =
    update_rows (\<lambda>x. op_id x \<in> set ks) (finish_op st reason) (t_ops L)"
proof (induction ks arbitrary: L)
  case Nil
  show ?case by (simp add: update_rows_def)
next
  case (Cons k ks)
  have "t_ops (terminal_all c (k # ks) st reason L) =
      update_rows (\<lambda>x. op_id x \<in> set ks) (finish_op st reason)
        (update_rows (\<lambda>x. op_id x = k) (finish_op st reason) (t_ops L))"
    by (simp add: Cons.IH)
  also have "\<dots> = update_rows (\<lambda>x. op_id x \<in> set (k # ks)) (finish_op st reason) (t_ops L)"
    using assms by (induction "t_ops L") (auto simp: update_rows_def finish_op_twice)
  finally show ?case .
qed

lemma terminal_all_frame [simp]:
  "t_roots (terminal_all c ks st reason L) = t_roots L"
  "t_attempts (terminal_all c ks st reason L) = t_attempts L"
  "t_budgets (terminal_all c ks st reason L) = t_budgets L"
  "t_bindings (terminal_all c ks st reason L) = t_bindings L"
  "t_owners (terminal_all c ks st reason L) = t_owners L"
  "t_pools (terminal_all c ks st reason L) = t_pools L"
  by (induction ks arbitrary: L) simp_all

lemma finish_op_ended [simp]: "op_terminal st \<Longrightarrow> op_terminal (op_state (finish_op st reason x))"
  by simp

lemma pending_ids_iff:
  "k \<in> set (pending_ids rid L) \<longleftrightarrow>
     (\<exists>x \<in> set (t_ops L). op_id x = k \<and> op_root_id x = rid \<and> \<not> op_terminal (op_state x))"
  by (auto simp: pending_ids_def pending_op_def)

text \<open>After all pending operations of a root were ended, none is pending.\<close>

lemma all_ended:
  assumes "op_terminal st" and "x \<in> set (t_ops (terminal_all c (pending_ids rid L) st reason L))"
    and "op_root_id x = rid"
  shows "op_terminal (op_state x)"
proof -
  from assms(2) obtain y where y: "y \<in> set (t_ops L)"
    "x = (if op_id y \<in> set (pending_ids rid L) then finish_op st reason y else y)"
    by (auto simp: terminal_all_ops [OF assms(1)] set_update_rows)
  then show ?thesis using assms(1,3) by (auto simp: pending_ids_iff split: if_splits)
qed

lemma find_ended:
  assumes "distinct (map op_id (t_ops L))" and "op_terminal st"
    and "find_op L k = Some x" and "op_root_id x = rid"
  shows "find_op (terminal_all c (pending_ids rid L) st reason L) k = Some (finish_op st reason x)"
proof -
  have k: "op_id x = k" "x \<in> set (t_ops L)" using assms(3) by (auto dest: lookup_row_Some_key lookup_row_Some_in)
  have "k \<in> set (pending_ids rid L) \<longleftrightarrow> \<not> op_terminal (op_state x)"
    using k assms(1,4) by (auto simp: pending_ids_iff dest: distinct_lookup_unique [where key = op_id])
  then show ?thesis
    using assms k by (auto simp: terminal_all_ops lookup_update_rows finish_op_def)
qed

section \<open>Cancellation\<close>

lemma emitted [simp]: "find_event (emit_event c e a p L) e \<noteq> None"
  by (auto simp: emit_event_def wake_def lookup_row_append split: option.splits)

text \<open>
  Cancellation is complete. Cancelling a run that has not otherwise ended leaves it
  CANCELLED and marked, every operation of it ended (as CANCELLED unless it had ended before),
  the cancellation event in the outbox and the completion event of every callback bound to one
  of its operations; attempts in flight are left to their executors, with all they hold.
\<close>

theorem cancel_closes:
  assumes "reachable L" and "cancel c rid tenant L = Inr M" and "find_root L rid = Some r"
    and "root_state r \<notin> {ROOT_SUCCEEDED, PARTIAL, ROOT_FAILED}"
  shows "
    (\<exists>s. find_root M rid = Some s \<and> root_state s = ROOT_CANCELLED \<and> root_cancel_requested s) \<and>
    (\<forall>k x. find_op L k = Some x \<and> op_root_id x = rid \<longrightarrow>
       (\<exists>y. find_op M k = Some y \<and> op_state y = (if op_terminal (op_state x) then op_state x else CANCELLED))) \<and>
    find_event M (cancel_event_id rid) \<noteq> None \<and>
    (\<forall>b \<in> set (t_bindings M). root_of_op (t_ops M) (bind_operation_id b) = rid \<longrightarrow>
       find_event M (completion_event_id (bind_id b)) \<noteq> None) \<and>
    t_attempts M = t_attempts L"
proof -
  have ok: "ledger_ok L" using assms(1) by (rule reachable_ok)
  have okM: "ledger_ok M" using refines_ok [OF refines_cancel [OF ok assms(2)] ok] .
  let ?L1 = "set_root rid (cancelled_root c) L"
  let ?L2 = "terminal_all c (pending_ids rid ?L1) CANCELLED ''user_cancelled'' ?L1"
  have M: "M = emit_event c (cancel_event_id rid) rid (CancelWorkflow rid) ?L2"
    using assms(2-4) by (auto simp: cancel_def Let_def split: if_splits)
  have root: "find_root M rid = Some (cancelled_root c r)"
    unfolding M using assms(3) lookup_row_Some_key [OF assms(3)] by (simp add: cancelled_root_def)
  have ops: "find_op M k = Some (finish_op CANCELLED ''user_cancelled'' x)"
    if "find_op L k = Some x" "op_root_id x = rid" for k x
    unfolding M using find_ended [of ?L1 CANCELLED k x rid c "''user_cancelled''"] that ok_distinct(2) [OF ok] by simp
  have none: "op_terminal (op_state x)" if "find_op M k = Some x" "op_root_id x = rid" for k x
    using that all_ended [of CANCELLED x c rid ?L1 "''user_cancelled''"] lookup_row_Some_in [OF that(1)] by (simp add: M)
  have done_events: "find_event M (completion_event_id (bind_id b)) \<noteq> None"
    if b: "b \<in> set (t_bindings M)" "root_of_op (t_ops M) (bind_operation_id b) = rid" for b
  proof -
    obtain x where x: "find_op M (bind_operation_id b) = Some x"
      "find_event M (completion_event_id (bind_id b)) \<noteq> None \<longleftrightarrow> op_terminal (op_state x)"
      using ledger_completion [OF okM b(1)] by blast
    then have "op_root_id x = rid" using b(2) by (simp add: root_of_op_def)
    then show ?thesis using x none by blast
  qed
  have "t_attempts M = t_attempts L" unfolding M by simp
  moreover have "find_event M (cancel_event_id rid) \<noteq> None" unfolding M by (rule emitted)
  moreover have "\<exists>s. find_root M rid = Some s \<and> root_state s = ROOT_CANCELLED \<and> root_cancel_requested s"
    using root by (simp add: cancelled_root_def)
  moreover have "\<forall>k x. find_op L k = Some x \<and> op_root_id x = rid \<longrightarrow>
       (\<exists>y. find_op M k = Some y \<and> op_state y = (if op_terminal (op_state x) then op_state x else CANCELLED))"
    using ops finish_op_state by metis
  ultimately show ?thesis using done_events by blast
qed

theorem cancel_closes_witness:
  "(\<exists>s. find_root (committed (cancel (demo_clock 12) ''r'' ''t'' demo_sent)) ''r'' = Some s \<and> root_state s = ROOT_CANCELLED) \<and>
   (\<exists>y. find_op (committed (cancel (demo_clock 12) ''r'' ''t'' demo_sent)) ''o'' = Some y \<and> op_state y = CANCELLED) \<and>
   find_event (committed (cancel (demo_clock 12) ''r'' ''t'' demo_sent)) (cancel_event_id ''r'') \<noteq> None"
proof -
  have r: "cancel (demo_clock 12) ''r'' ''t'' demo_sent = Inr (committed (cancel (demo_clock 12) ''r'' ''t'' demo_sent))"
    "find_root demo_sent ''r'' = Some (hd (t_roots demo_sent))"
    "root_state (hd (t_roots demo_sent)) \<notin> {ROOT_SUCCEEDED, PARTIAL, ROOT_FAILED}"
    by code_simp+
  have x: "find_op demo_sent ''o'' = Some (hd (t_ops demo_sent)) \<and> op_root_id (hd (t_ops demo_sent)) = ''r''"
    "\<not> op_terminal (op_state (hd (t_ops demo_sent)))"
    by code_simp+
  note * = cancel_closes [OF demo_reachable(4) r]
  from * x have "\<exists>y. find_op (committed (cancel (demo_clock 12) ''r'' ''t'' demo_sent)) ''o'' = Some y \<and>
      op_state y = CANCELLED" by (metis (no_types, lifting))
  with * show ?thesis by blast
qed

section \<open>Finishing a run\<close>

lemma finished_root_simps [simp]:
  "root_id (finished_root at st res reason r) = root_id r"
  by (simp add: finished_root_def)

text \<open>
  Finishing a running run. When \<open>finish_run\<close> commits for a running root, the root takes
  the requested state and result if its deadline has not passed by the database clock, and
  FAILED without a result if it has; a success requires that nothing was pending; and every
  operation of the run has ended, those already ended as they were.
\<close>

theorem finish_run_outcome:
  assumes "reachable L" and "finish_run digest c rid tenant state res reason L = Inr M"
    and "find_root L rid = Some r" and "root_state r = RUNNING" and "state \<noteq> ''CANCELLED''"
    and "finish_state state = Some st"
  shows "    (\<exists>s. find_root M rid = Some s \<and>
       (if root_deadline r \<le> max (stamp c) (stamp_later c)
        then root_state s = ROOT_FAILED \<and> root_result s = None \<and> root_terminal_reason s = Some ''deadline_exceeded''
        else root_state s = st \<and> root_result s = res)) \<and>
    (\<forall>k x. find_op L k = Some x \<and> op_root_id x = rid \<longrightarrow>
       (\<exists>y. find_op M k = Some y \<and> op_terminal (op_state y) \<and>
          (op_terminal (op_state x) \<longrightarrow> op_state y = op_state x))) \<and>
    (st = ROOT_SUCCEEDED \<and> stamp c < root_deadline r \<longrightarrow> pending_ids rid L = [])"
proof -
  have ok: "ledger_ok L" using assms(1) by (rule reachable_ok)
  let ?late = "root_deadline r \<le> stamp c"
  define st' where "st' = (if ?late then ROOT_FAILED else st)"
  define res' where "res' = (if ?late then None else res)"
  define why where "why = (if ?late then Some ''deadline_exceeded'' else reason)"
  have rid: "root_id r = rid" using assms(3) by (rule lookup_row_Some_key)
  have run: "transition_run c r st' res' why L = Inr M"
    using assms(2-6) unfolding st'_def res'_def why_def
    by (simp add: finish_run_def del: finish_state.simps split: if_splits)
  have stne: "st \<noteq> RUNNING" using assms(6) by (auto split: if_splits)
  let ?f = "finished_root (stamp_later c) st' res' why"
  let ?L1 = "set_root rid ?f L" and ?why = "text_or (root_terminal_reason (?f r)) ''root_finished''"
  have none: "st' = ROOT_SUCCEEDED \<Longrightarrow> pending_ids rid L = []"
    using run rid by (auto simp: transition_run_def Let_def split: if_splits)
  have M: "M = wake (if root_state (?f r) \<noteq> ROOT_SUCCEEDED
      then terminal_all c (pending_ids rid ?L1) CANCELLED ?why ?L1 else ?L1)"
    using run rid none by (auto simp: transition_run_def Let_def split: if_splits)
  have root: "find_root M rid = Some (?f r)" unfolding M using assms(3) rid by simp
  have pend: "pending_ids rid ?L1 = pending_ids rid L" by (simp add: pending_ids_def)
  have ops: "\<exists>y. find_op M k = Some y \<and> op_terminal (op_state y) \<and> (op_terminal (op_state x) \<longrightarrow> op_state y = op_state x)"
    if x: "find_op L k = Some x" "op_root_id x = rid" for k x
  proof (cases "root_state (?f r) = ROOT_SUCCEEDED")
    case True
    then have "pending_ids rid L = []" using none by (auto simp: finished_root_def split: if_splits)
    then have "op_terminal (op_state x)"
      using x by (auto simp: pending_ids_empty dest: lookup_row_Some_in)
    then show ?thesis unfolding M using True x by simp
  next
    case False
    have "find_op M k = Some (finish_op CANCELLED ?why x)"
      unfolding M using False find_ended [of ?L1 CANCELLED k x rid c ?why] x ok_distinct(2) [OF ok] by simp
    then show ?thesis by (simp add: finish_op_state)
  qed
  have "\<exists>s. find_root M rid = Some s \<and>
       (if root_deadline r \<le> max (stamp c) (stamp_later c)
        then root_state s = ROOT_FAILED \<and> root_result s = None \<and> root_terminal_reason s = Some ''deadline_exceeded''
        else root_state s = st \<and> root_result s = res)"
    using root by (auto simp: finished_root_def st'_def res'_def why_def le_max_iff_disj)
  moreover have "st = ROOT_SUCCEEDED \<and> stamp c < root_deadline r \<longrightarrow> pending_ids rid L = []"
    using none by (auto simp: st'_def)
  ultimately show ?thesis using ops by blast
qed

theorem finish_run_outcome_witness:
  "\<exists>s y. find_root (committed (finish_run demo_digest (demo_clock 12) ''r'' ''t'' ''PARTIAL''
        (Some (demo_artifact ''p'')) (Some ''why'') demo_sent)) ''r'' = Some s \<and>
     root_state s = PARTIAL \<and> root_result s = Some (demo_artifact ''p'') \<and>
     find_op (committed (finish_run demo_digest (demo_clock 12) ''r'' ''t'' ''PARTIAL''
        (Some (demo_artifact ''p'')) (Some ''why'') demo_sent)) ''o'' = Some y \<and> op_terminal (op_state y)"
proof -
  have r: "finish_run demo_digest (demo_clock 12) ''r'' ''t'' ''PARTIAL'' (Some (demo_artifact ''p'')) (Some ''why'') demo_sent
      = Inr (committed (finish_run demo_digest (demo_clock 12) ''r'' ''t'' ''PARTIAL'' (Some (demo_artifact ''p'')) (Some ''why'') demo_sent))"
    "find_root demo_sent ''r'' = Some (hd (t_roots demo_sent))"
    "root_state (hd (t_roots demo_sent)) = RUNNING"
    "''PARTIAL'' \<noteq> ''CANCELLED''" "finish_state ''PARTIAL'' = Some PARTIAL"
    by code_simp+
  have x: "find_op demo_sent ''o'' = Some (hd (t_ops demo_sent)) \<and> op_root_id (hd (t_ops demo_sent)) = ''r''"
    "\<not> root_deadline (hd (t_roots demo_sent)) \<le> max (stamp (demo_clock 12)) (stamp_later (demo_clock 12))"
    by code_simp+
  note * = finish_run_outcome [OF demo_reachable(4) r]
  show ?thesis using * x by (metis (no_types, lifting))
qed

section \<open>The reconciliation pass\<close>

lemma lapse_all_total:
  assumes "\<And>a x r. (a, x, r) \<in> set xs \<Longrightarrow> att_state a = RESERVED \<Longrightarrow> \<not> att_budget_held a"
  shows "\<exists>M. lapse_all c xs L = Inr M"
  using assms
proof (induction xs arbitrary: L)
  case (Cons axr xs)
  obtain a x r where axr: "axr = (a, x, r)" by (cases axr)
  have "\<exists>L1. lapse_attempt c axr L = Inr L1"
    using Cons.prems [of a x r] axr by (simp add: lapse_attempt_def settle_unheld)
  moreover have "\<exists>M. lapse_all c xs L1 = Inr M" for L1
    by (rule Cons.IH) (use Cons.prems in auto)
  ultimately show ?case by auto
qed simp

text \<open>What a lapse does to the attempt rows: each keeps its identity, and the lapsed ones stop.\<close>

definition lapse_le :: "string set \<Rightarrow> attempt_row \<Rightarrow> attempt_row \<Rightarrow> bool" where
  "lapse_le ids a b \<longleftrightarrow> att_id b = att_id a \<and> att_owner_id b = att_owner_id a \<and>
     att_lease_expires_at b = att_lease_expires_at a \<and>
     (att_state b \<in> {FAILED_NOT_SENT, UNKNOWN} \<or> att_state b = att_state a \<and> att_id a \<notin> ids)"

lemma lapse_attempt_rows:
  assumes "lapse_attempt c (a, x, r) L = Inr M"
  shows "list_all2 (lapse_le {att_id a}) (t_attempts L) (t_attempts M)"
proof -
  have upd: "list_all2 (lapse_le {att_id a}) t (update_rows (\<lambda>b. att_id b = att_id a) h t)"
    if "\<And>b. lapse_le {} b (h b) \<and> att_state (h b) \<in> {FAILED_NOT_SENT, UNKNOWN}" for h t
    by (induction t) (use that in \<open>auto simp: lapse_le_def\<close>)
  show ?thesis
  proof (cases "att_state a = RESERVED")
    case True
    with assms obtain L1 where L1: "settle c a (op_root_id x) (Some 0) L = Inr L1"
      and M: "M = set_op (att_operation_id a) requeue_op (set_attempt (att_id a) unsent_row L1)"
      by (auto simp: lapse_attempt_def and_then_Inr_iff)
    have "t_attempts M = update_rows (\<lambda>b. att_id b = att_id a)
        (unsent_row \<circ> (if att_budget_held a then settled_row (Some 0) else id)) (t_attempts L)"
      using settle_frame(4) [OF L1] unfolding M
      by (auto simp: update_rows_twice [where key = att_id] settled_row_def)
    then show ?thesis by (simp add: upd unsent_row_def settled_row_def lapse_le_def)
  next
    case False
    then have "t_attempts M = update_rows (\<lambda>b. att_id b = att_id a) (lost_row c) (t_attempts L)"
      using assms by (auto simp: lapse_attempt_def)
    then show ?thesis by (simp add: upd lost_row_def lapse_le_def)
  qed
qed

lemma lapse_le_trans: "lapse_le I a b \<Longrightarrow> lapse_le J b d \<Longrightarrow> lapse_le (I \<union> J) a d"
  by (auto simp: lapse_le_def)

lemma lapse_all_rows:
  "lapse_all c xs L = Inr M \<Longrightarrow>
   list_all2 (lapse_le (set (map (att_id \<circ> fst) xs))) (t_attempts L) (t_attempts M)"
proof (induction xs arbitrary: L)
  case Nil
  then show ?case by (simp add: list_all2_refl lapse_le_def)
next
  case (Cons axr xs)
  obtain a x r where axr: "axr = (a, x, r)" by (cases axr)
  with Cons.prems obtain L1 where one: "lapse_attempt c (a, x, r) L = Inr L1" and rest: "lapse_all c xs L1 = Inr M"
    by (auto simp: and_then_Inr_iff)
  have "list_all2 (lapse_le ({att_id a} \<union> set (map (att_id \<circ> fst) xs))) (t_attempts L) (t_attempts M)"
    by (rule list_all2_trans [OF lapse_le_trans lapse_attempt_rows [OF one] Cons.IH [OF rest]])
  then show ?case using axr by simp
qed

lemma fail_impossible_frame [simp]:
  "t_attempts (fail_impossible c pools xs L) = t_attempts L" "t_owners (fail_impossible c pools xs L) = t_owners L"
  "t_roots (fail_impossible c pools xs L) = t_roots L"
  by (induction xs arbitrary: L) (auto split: option.splits)

lemma expire_roots_frame [simp]:
  "t_attempts (expire_roots c L) = t_attempts L" "t_owners (expire_roots c L) = t_owners L"
  "t_ops (expire_roots c L) = t_ops L"
  by (simp_all add: expire_roots_def)

lemma lapse_all_owners: "lapse_all c xs L = Inr M \<Longrightarrow> t_owners M = t_owners L"
proof (induction xs arbitrary: L)
  case (Cons axr xs)
  obtain a x r where axr: "axr = (a, x, r)" by (cases axr)
  with Cons.prems obtain L1 where one: "lapse_attempt c (a, x, r) L = Inr L1" and rest: "lapse_all c xs L1 = Inr M"
    by (auto simp: and_then_Inr_iff)
  have "t_owners L1 = t_owners L"
    using one settle_frame(5) by (auto simp: lapse_attempt_def and_then_Inr_iff split: if_splits)
  then show ?case using Cons.IH [OF rest] by simp
qed simp

text \<open>
  C12. The reconciliation pass always commits in a reachable ledger, and afterwards nothing
  overdue is left: an operation whose own deadline had passed has ended, no root past its
  deadline is running, no operation of a closed root is pending, and no attempt whose lease
  has run out under a dead owner is still counted as reserved or in flight.
\<close>

theorem reconcile_clears:
  assumes "reachable L"
  shows "\<exists>M n. reconcile_transaction c L = Inr (M, n) \<and>
    (\<forall>k x. find_op L k = Some x \<and> op_expired (op_spec x) (stamp c) \<longrightarrow>
       (\<exists>y. find_op M k = Some y \<and> op_terminal (op_state y))) \<and>
    (\<forall>r \<in> set (t_roots M). root_deadline r \<le> txn_now c \<longrightarrow> root_state r \<noteq> RUNNING) \<and>
    (\<forall>x \<in> set (t_ops M). \<forall>r. find_root M (op_root_id x) = Some r \<and> root_state r \<noteq> RUNNING \<longrightarrow>
       op_terminal (op_state x)) \<and>
    (\<forall>a \<in> set (t_attempts M). att_lease_expires_at a < txn_now c \<and>
       \<not> owner_alive M (att_owner_id a) (txn_now c) \<longrightarrow> att_state a \<notin> {RESERVED, SEND_INTENT, ACTIVE})"
proof -
  have ok: "ledger_ok L" using assms by (rule reachable_ok)
  obtain L1 direct where L1: "expire_direct c (purge_direct c L) = (L1, direct)"
    by (cases "expire_direct c (purge_direct c L)")
  define L2 where "L2 = expire_waiters c L1"
  define L3 where "L3 = terminal_all c (expired_op_ids c L2) FAILED ''operation_deadline_exceeded'' L2"
  have frame2: "t_ops L2 = t_ops L" "t_attempts L2 = t_attempts L" "abs_ledger L2 = abs_ledger L"
    using L1 by (auto simp: L2_def expire_waiters_def expire_direct_def purge_direct_def intro!: proto_eqI)
  have r3: "refines L L3"
    using refines_terminal_all [of FAILED L2 c "expired_op_ids c L2" "''operation_deadline_exceeded''"] frame2(3)
    by (simp add: L3_def)
  have ok3: "ledger_ok L3" by (rule refines_ok [OF r3 ok])
  have "\<exists>L4. lapse_all c (lapsed_attempts c L3) L3 = Inr L4"
  proof (rule lapse_all_total)
    fix a x r assume "(a, x, r) \<in> set (lapsed_attempts c L3)" and res: "att_state a = RESERVED"
    then have "a \<in> set (t_attempts L3)"
      by (auto simp: lapsed_attempts_def join_attempts_def List.map_filter_def join_attempt_def split: option.splits)
    from attempt_shape(1) [OF ok3 this] res show "\<not> att_budget_held a" by (auto simp: att_ok_def)
  qed
  then obtain L4 where L4: "lapse_all c (lapsed_attempts c L3) L3 = Inr L4" by blast
  define L6 where "L6 = (let L5 = terminal_all c (overdue_op_ids c L4) FAILED ''deadline_exceeded'' L4
      in fail_impossible c (map pool_spec_of (t_pools L5)) (oldest_ready L5) L5)"
  define L8 where "L8 = terminal_all c (orphaned_op_ids (expire_roots c L6)) CANCELLED ''root_terminal'' (expire_roots c L6)"
  define M where "M = (if direct \<noteq> 0 then wake L8 else L8)"
  define n where "n = int (length (lapsed_attempts c L3)) + direct"
  have ran: "reconcile_transaction c L = Inr (M, n)"
    using L1 L4 by (simp add: reconcile_transaction_def Let_def L2_def L3_def L6_def L8_def M_def n_def)
  have frameM: "t_roots M = t_roots (expire_roots c L6)" "t_ops M = t_ops L8" "t_attempts M = t_attempts L4"
    "t_owners M = t_owners L4"
    unfolding M_def L8_def L6_def Let_def by simp_all
  have r3M: "refines L3 M"
  proof -
    have r6: "refines L3 L6" unfolding L6_def Let_def
      by (intro refines_trans [OF refines_lapsed [OF ok3 L4]] refines_trans [OF refines_terminal_all refines_fail_impossible])
        simp
    then have "refines L3 (expire_roots c L6)"
      using refines_trans [OF r6 refines_expire_roots [OF refines_ok [OF r6 ok3]]] by simp
    moreover have "refines (expire_roots c L6) M"
      unfolding M_def L8_def by (simp add: refines_terminal_all)
    ultimately show ?thesis by (rule refines_trans)
  qed
  show ?thesis
  proof (intro exI conjI)
    show "reconcile_transaction c L = Inr (M, n)" by (rule ran)
  next
    show "\<forall>k x. find_op L k = Some x \<and> op_expired (op_spec x) (stamp c) \<longrightarrow>
       (\<exists>y. find_op M k = Some y \<and> op_terminal (op_state y))"
    proof (intro allI impI)
      fix k x assume x: "find_op L k = Some x \<and> op_expired (op_spec x) (stamp c)"
      then have "k \<in> set (expired_op_ids c L2) \<or> op_terminal (op_state x)"
        by (auto simp: expired_op_ids_def pending_op_def frame2 dest: lookup_row_Some_in lookup_row_Some_key)
      moreover have "find_op L3 k = Some (if k \<in> set (expired_op_ids c L2)
          then finish_op FAILED ''operation_deadline_exceeded'' x else x)"
        using x lookup_row_Some_key [of op_id k "t_ops L" x]
        by (simp add: L3_def terminal_all_ops frame2 lookup_update_rows)
      ultimately obtain z where z: "find_op L3 k = Some z" "op_terminal (op_state z)" by (auto split: if_splits)
      obtain y where "find_op M k = Some y" "op_state y = op_state z"
        using path_op [OF ok3 r3M z(1)] z(2) by metis
      then show "\<exists>y. find_op M k = Some y \<and> op_terminal (op_state y)" using z(2) by simp
    qed
  next
    show "\<forall>r \<in> set (t_roots M). root_deadline r \<le> txn_now c \<longrightarrow> root_state r \<noteq> RUNNING"
      unfolding frameM expire_roots_def by (auto simp: expire_root_def set_update_rows)
  next
    show "\<forall>x \<in> set (t_ops M). \<forall>r. find_root M (op_root_id x) = Some r \<and> root_state r \<noteq> RUNNING \<longrightarrow>
       op_terminal (op_state x)"
    proof (intro ballI allI impI)
      fix x r assume x: "x \<in> set (t_ops M)" and r: "find_root M (op_root_id x) = Some r \<and> root_state r \<noteq> RUNNING"
      let ?N = "expire_roots c L6"
      from x obtain y where y: "y \<in> set (t_ops ?N)"
        "x = (if op_id y \<in> set (orphaned_op_ids ?N) then finish_op CANCELLED ''root_terminal'' y else y)"
        unfolding frameM L8_def by (auto simp: terminal_all_ops set_update_rows)
      have "(y, r) \<in> set (join_roots ?N (t_ops ?N))"
        using y r frameM(1) by (auto simp: join_roots_mem split: if_splits)
      then have "\<not> op_terminal (op_state y) \<Longrightarrow> op_id y \<in> set (orphaned_op_ids ?N)"
        using r by (force simp: orphaned_op_ids_def pending_op_def)
      then show "op_terminal (op_state x)" using y(2) by auto
    qed
  next
    show "\<forall>a \<in> set (t_attempts M). att_lease_expires_at a < txn_now c \<and>
       \<not> owner_alive M (att_owner_id a) (txn_now c) \<longrightarrow> att_state a \<notin> {RESERVED, SEND_INTENT, ACTIVE}"
    proof (intro ballI impI)
      fix a assume a: "a \<in> set (t_attempts M)"
        and dead: "att_lease_expires_at a < txn_now c \<and> \<not> owner_alive M (att_owner_id a) (txn_now c)"
      let ?ids = "set (map (att_id \<circ> fst) (lapsed_attempts c L3))"
      from a obtain b where b: "b \<in> set (t_attempts L3)" "lapse_le ?ids b a"
        using lapse_all_rows [OF L4] unfolding frameM by (metis in_set_conv_nth list_all2_conv_all_nth)
      obtain x r where j: "(b, x, r) \<in> set (join_attempts L3 (t_attempts L3))" by (rule join_all [OF ok3 b(1)])
      have "t_owners M = t_owners L3" using frameM(4) lapse_all_owners [OF L4] by simp
      then have "att_lease_expires_at b < txn_now c \<and> \<not> owner_live_now c L3 (att_owner_id b)"
        using dead b(2) by (simp add: lapse_le_def owner_live_now_def owner_alive_def)
      moreover have "att_state b = BACKEND_FINISHED \<longrightarrow> att_state a \<notin> {RESERVED, SEND_INTENT, ACTIVE}"
        using b(2) by (auto simp: lapse_le_def)
      ultimately have "att_state b \<in> {RESERVED, SEND_INTENT, ACTIVE} \<Longrightarrow> att_id b \<in> ?ids"
        using j by (force simp: lapsed_attempts_def attempt_lapsed_def)
      then show "att_state a \<notin> {RESERVED, SEND_INTENT, ACTIVE}" using b(2) by (auto simp: lapse_le_def)
    qed
  qed
qed

theorem reconcile_clears_witness: "\<exists>M n. reconcile_transaction (demo_clock 2000) demo_sent = Inr (M, n) \<and>
    (\<forall>k x. find_op demo_sent k = Some x \<and> op_expired (op_spec x) (stamp (demo_clock 2000)) \<longrightarrow>
       (\<exists>y. find_op M k = Some y \<and> op_terminal (op_state y))) \<and>
    (\<forall>r \<in> set (t_roots M). root_deadline r \<le> txn_now (demo_clock 2000) \<longrightarrow> root_state r \<noteq> RUNNING) \<and>
    (\<forall>x \<in> set (t_ops M). \<forall>r. find_root M (op_root_id x) = Some r \<and> root_state r \<noteq> RUNNING \<longrightarrow>
       op_terminal (op_state x)) \<and>
    (\<forall>a \<in> set (t_attempts M). att_lease_expires_at a < txn_now (demo_clock 2000) \<and>
       \<not> owner_alive M (att_owner_id a) (txn_now (demo_clock 2000)) \<longrightarrow> att_state a \<notin> {RESERVED, SEND_INTENT, ACTIVE})"
  by (rule reconcile_clears [OF demo_reachable(4)])

end
