(* ===== verification/Ledger_Recovery.thy ===== *)
theory Ledger_Recovery
  imports Ledger_Settling
begin

text \<open>
  Recovery of a stopped engine: the evidence it asks for, and that it leaves nothing of the
  stopped epoch holding compute or budget.
\<close>

section \<open>Settling stopped attempts\<close>

lemma settle_pools:
  assumes "settle c a rid usage L = Inr M" and "usage = Some 0 \<or> usage = None" and "0 < att_budget_bound a"
  shows "t_pools M = t_pools L" "t_direct M = t_direct L"
  using assms by (auto simp: settle_def Let_def move_budget_def split: if_splits option.splits prod.splits)

text \<open>What stopping does to the attempt rows.\<close>

definition stop_le :: "string set \<Rightarrow> attempt_row \<Rightarrow> attempt_row \<Rightarrow> bool" where
  "stop_le ids a b \<longleftrightarrow> att_id b = att_id a \<and> att_pool_id b = att_pool_id a \<and>
     att_engine_epoch b = att_engine_epoch a \<and>
     (b = a \<and> att_id a \<notin> ids \<or> \<not> att_compute_held b \<and> \<not> att_budget_held b \<and> att_state b = ATTEMPT_FAILED)"

lemma stop_le_trans: "stop_le I a b \<Longrightarrow> stop_le J b d \<Longrightarrow> stop_le (I \<union> J) a d"
  by (auto simp: stop_le_def)

lemma settle_stopped_rows:
  assumes "settle_stopped_attempt c (a, x, r) recover err reason L = Inr M"
    and a: "find_attempt L (att_id a) = Some a" and d: "distinct (map att_id (t_attempts L))"
    and pos: "0 < att_budget_bound a"
  shows "list_all2 (stop_le {att_id a}) (t_attempts L) (t_attempts M)"
    "t_pools M = t_pools L" "t_direct M = t_direct L"
proof -
  let ?u = "if att_state a = RESERVED then Some 0 else None :: int option"
  from assms obtain L1 where L1: "settle c a (op_root_id x) ?u L = Inr L1"
    and M: "M = (let L2 = set_attempt (att_id a) (stopped_row c err) L1 in
         if op_terminal (op_state x) then L2
              else if can_retry c recover x r L2
              then set_op (op_id x) (recover_op c (att_id a) reason) L2
              else terminal c (op_id x) FAILED err L2)"
    by (auto simp: settle_stopped_attempt_def and_then_Inr_iff Let_def simp del: if_split split: if_split_asm)
  have "t_attempts M = t_attempts (set_attempt (att_id a) (stopped_row c err) L1)"
    unfolding M Let_def by simp
  also have "\<dots> = update_rows (\<lambda>b. att_id b = att_id a)
      (stopped_row c err \<circ> (if att_budget_held a then settled_row ?u else id)) (t_attempts L)"
    using settle_frame(4) [OF L1] by (auto simp: update_rows_twice [where key = att_id] settled_row_def)
  finally have rows: "t_attempts M = update_rows (\<lambda>b. att_id b = att_id a)
      (stopped_row c err \<circ> (if att_budget_held a then settled_row ?u else id)) (t_attempts L)" .
  have one: "b = a" if "b \<in> set (t_attempts L)" "att_id b = att_id a" for b
    using found_unique [OF d a that] .
  have "list_all2 (stop_le {att_id a}) t (update_rows (\<lambda>b. att_id b = att_id a)
      (stopped_row c err \<circ> (if att_budget_held a then settled_row ?u else id)) t)"
    if "set t \<subseteq> set (t_attempts L)" for t
    using that by (induction t) (auto simp: stop_le_def stopped_row_def settled_row_def dest!: one)
  then show "list_all2 (stop_le {att_id a}) (t_attempts L) (t_attempts M)" unfolding rows by simp
  show "t_pools M = t_pools L" "t_direct M = t_direct L"
    using settle_pools [OF L1 _ pos] unfolding M Let_def by simp_all
qed

lemma join_attempts_mem:
  "(a, x, r) \<in> set (join_attempts L ys) \<longleftrightarrow> a \<in> set ys \<and> join_attempt L a = Some (a, x, r)"
proof
  assume "(a, x, r) \<in> set (join_attempts L ys)"
  then obtain b where b: "b \<in> set ys" "join_attempt L b = Some (a, x, r)"
    by (auto simp: join_attempts_def List.map_filter_def)
  then have "b = a" by (auto simp: join_attempt_def split: option.splits)
  with b show "a \<in> set ys \<and> join_attempt L a = Some (a, x, r)" by simp
qed (force simp: join_attempts_def List.map_filter_def)

lemma settle_stopped_all_rows:
  assumes "ledger_ok L" and "\<And>axr. axr \<in> set xs \<Longrightarrow> stopped_now L axr" and "distinct (map (att_id \<circ> fst) xs)"
    and "settle_stopped_all c xs recover err reason L = Inr M"
  shows "list_all2 (stop_le (set (map (att_id \<circ> fst) xs))) (t_attempts L) (t_attempts M) \<and>
    t_pools M = t_pools L \<and> t_direct M = t_direct L"
  using assms
proof (induction xs arbitrary: L)
  case Nil
  then show ?case by (simp add: list_all2_refl stop_le_def)
next
  case (Cons axr xs)
  obtain a x r where axr: "axr = (a, x, r)" by (cases axr)
  from Cons.prems(4) axr obtain L1 where L1: "settle_stopped_attempt c (a, x, r) recover err reason L = Inr L1"
    "settle_stopped_all c xs recover err reason L1 = Inr M"
    by (auto simp: and_then_Inr_iff)
  have mine: "stopped_now L (a, x, r)" using Cons.prems(2) axr by simp
  then have fa: "find_attempt L (att_id a) = Some a" by (auto simp: stopped_now_def)
  have pos: "0 < att_budget_bound a" using attempt_shape(2) [OF Cons.prems(1) lookup_row_Some_in [OF fa]] .
  have ok1: "ledger_ok L1"
    using refines_ok [OF refines_settle_stopped_attempt [OF Cons.prems(1) mine L1(1)] Cons.prems(1)] .
  have rest: "stopped_now L1 byz" if byz: "byz \<in> set xs" for byz
  proof (rule stopped_rest [OF Cons.prems(1) L1(1) mine])
    show "stopped_now L byz" using Cons.prems(2) byz by simp
    show "att_id (fst byz) \<noteq> att_id a" using Cons.prems(3) byz axr by (force simp: image_iff)
  qed
  note head = settle_stopped_rows [OF L1(1) fa ok_distinct(3) [OF Cons.prems(1)] pos]
  have tail: "list_all2 (stop_le (set (map (att_id \<circ> fst) xs))) (t_attempts L1) (t_attempts M) \<and>
    t_pools M = t_pools L1 \<and> t_direct M = t_direct L1"
    using Cons.prems(3) by (intro Cons.IH [OF ok1 rest _ L1(2)]) auto
  have "list_all2 (stop_le ({att_id a} \<union> set (map (att_id \<circ> fst) xs))) (t_attempts L) (t_attempts M)"
    by (rule list_all2_trans [OF stop_le_trans head(1) conjunct1 [OF tail]])
  then show ?case using axr tail head by simp
qed

section \<open>A stopped epoch\<close>

text \<open>
  C17. Recovery of a stopped engine is complete and needs proof. It commits only for evidence
  that is not blank, for the epoch the pool is at, and, when operations are to be retried, for
  a pool already out of service and evidence that passes every check; afterwards the pool is
  closed and no attempt of that epoch, durable or direct, holds compute, nor budget, except
  that a recovery leaves finished inference whose executor may still be storing its result.
\<close>

theorem stop_releases_epoch:
  assumes "reachable L" and "confirm_epoch_stopped loads fiso c pid epoch evidence recover L = Inr (M, n)"
  shows "\<not> blank evidence \<and> (recover \<longrightarrow> check_stop_proof loads fiso pid epoch evidence = Inr ()) \<and>
    (\<exists>p. find_pool L pid = Some p \<and> pool_engine_epoch p = epoch \<and> (recover \<longrightarrow> pool_health p \<noteq> HEALTHY) \<and>
       find_pool M pid = Some (close_pool p)) \<and>
    (\<forall>a \<in> set (t_attempts M). att_pool_id a = pid \<and> att_engine_epoch a = epoch \<longrightarrow>
       \<not> att_compute_held a \<and> (att_budget_held a \<longrightarrow> recover \<and> att_state a = BACKEND_FINISHED)) \<and>
    (\<forall>d \<in> set (t_direct M). dir_pool_id d = pid \<and> dir_engine_epoch d = epoch \<longrightarrow> \<not> dir_compute_held d)"
proof -
  have ok: "ledger_ok L" using assms(1) by (rule reachable_ok)
  from assms(2) obtain p where ev: "\<not> blank evidence" "recover \<longrightarrow> check_stop_proof loads fiso pid epoch evidence = Inr ()"
    and p: "find_pool L pid = Some p" "pool_engine_epoch p = epoch" "recover \<longrightarrow> pool_health p \<noteq> HEALTHY"
    by (auto simp: confirm_epoch_stopped_def and_then_Inr_iff split: option.splits if_splits)
  define hit :: "direct_row \<Rightarrow> bool" where
    "hit = (\<lambda>d. dir_pool_id d = pid \<and> dir_engine_epoch d = epoch \<and> dir_compute_held d)"
  define L2 where "L2 = (set_pool pid close_pool L)\<lparr>t_direct := update_rows hit
        (stop_direct c (if recover then FAILED_RECOVERABLE else ATTEMPT_FAILED) ''engine_epoch_stopped'')
        (t_direct (set_pool pid close_pool L))\<rparr>"
  define todo where "todo = filter (\<lambda>(a, x, r). \<not> (recover \<and> att_state a = BACKEND_FINISHED
                              \<and> \<not> att_compute_held a)) (epoch_attempts L2 pid epoch)"
  from assms(2) p obtain L3 where
    L3: "settle_stopped_all c todo recover ''engine_epoch_stopped'' ''engine_recovery'' L2 = Inr L3"
    and M: "M = wake (note_update pid (pool_envelope_version p) 0
                            (''epoch_stopped:'' @ epoch @ '':'' @ evidence) L3)"
    unfolding L2_def todo_def hit_def
    by (auto simp: confirm_epoch_stopped_def and_then_Inr_iff Let_def split: if_splits)
  have ok2: "ledger_ok L2" and now: "\<And>axr. axr \<in> set todo \<Longrightarrow> stopped_now L2 axr"
    and dist: "distinct (map (att_id \<circ> fst) todo)"
  proof -
    have "abs_ledger L2 = abs_ledger L" by (rule abs_same) (simp_all add: L2_def)
    then show ok2: "ledger_ok L2" using ok by (simp add: ledger_ok_def)
    show "stopped_now L2 axr" if "axr \<in> set todo" for axr
      using that by (intro epoch_attempts_now [OF ok2]) (auto simp: todo_def)
    show "distinct (map (att_id \<circ> fst) todo)"
      unfolding todo_def by (rule distinct_map_filter, rule epoch_attempts_distinct, rule ok2)
  qed
  note rows = settle_stopped_all_rows [OF ok2 now dist L3]
  have M3: "t_attempts M = t_attempts L3" "t_pools M = t_pools L3" "t_direct M = t_direct L3"
    unfolding M by (simp_all add: note_update_def)
  have pool: "find_pool M pid = Some (close_pool p)"
    using rows p(1) lookup_row_Some_key [OF p(1)] unfolding M3 by (simp add: L2_def close_pool_def)
  have att: "\<not> att_compute_held a \<and> (att_budget_held a \<longrightarrow> recover \<and> att_state a = BACKEND_FINISHED)"
    if a: "a \<in> set (t_attempts M)" "att_pool_id a = pid" "att_engine_epoch a = epoch" for a
  proof -
    from a(1) obtain b where b: "b \<in> set (t_attempts L2)" "stop_le (set (map (att_id \<circ> fst) todo)) b a"
      using rows unfolding M3 by (metis in_set_conv_nth list_all2_conv_all_nth)
    show ?thesis
    proof (cases "a = b \<and> att_id b \<notin> set (map (att_id \<circ> fst) todo)")
      case True
      obtain x r where j: "(b, x, r) \<in> set (join_attempts L2 (t_attempts L2))" by (rule join_all [OF ok2 b(1)])
      have "att_compute_held b \<or> att_budget_held b \<Longrightarrow> (b, x, r) \<in> set (epoch_attempts L2 pid epoch)"
        using j a(2,3) True by (simp add: epoch_attempts_def join_attempts_mem)
      then show ?thesis using True by (force simp: todo_def)
    qed (use b(2) in \<open>auto simp: stop_le_def\<close>)
  qed
  define stop where "stop = stop_direct c (if recover then FAILED_RECOVERABLE else ATTEMPT_FAILED) ''engine_epoch_stopped''"
  have free: "\<not> dir_compute_held (stop d)" for d by (simp add: stop_def stop_direct_def)
  have "t_direct M = update_rows hit stop (t_direct L)" using rows unfolding M3 by (simp add: L2_def stop_def)
  then have dir: "\<not> dir_compute_held d"
    if "d \<in> set (t_direct M)" "dir_pool_id d = pid" "dir_engine_epoch d = epoch" for d
    using that free by (auto simp: set_update_rows hit_def)
  show ?thesis using ev p pool att dir by blast
qed

theorem stop_releases_epoch_witness:
  "\<not> blank ''seen'' \<and>
   (\<exists>p. find_pool (committed_fst (confirm_epoch_stopped (\<lambda>_. None) (\<lambda>_. None) (demo_clock 30) ''p'' ''e'' ''seen''
       False demo_sent)) ''p'' = Some (close_pool p)) \<and>
   \<not> att_compute_held (hd (t_attempts (committed_fst (confirm_epoch_stopped (\<lambda>_. None) (\<lambda>_. None) (demo_clock 30)
       ''p'' ''e'' ''seen'' False demo_sent))))"
proof -
  define M where "M = committed_fst (confirm_epoch_stopped (\<lambda>_. None) (\<lambda>_. None) (demo_clock 30) ''p'' ''e'' ''seen'' False demo_sent)"
  have r: "confirm_epoch_stopped (\<lambda>_. None) (\<lambda>_. None) (demo_clock 30) ''p'' ''e'' ''seen'' False demo_sent = Inr (M, 1)"
    unfolding M_def by code_simp
  have a: "hd (t_attempts M) \<in> set (t_attempts M)"
    "att_pool_id (hd (t_attempts M)) = ''p'' \<and> att_engine_epoch (hd (t_attempts M)) = ''e''"
    unfolding M_def by code_simp+
  show ?thesis
    using stop_releases_epoch [OF demo_reachable(4) r] a unfolding M_def [symmetric] by blast
qed

end
