(* ===== verification/Scheduler.thy ===== *)
theory Scheduler
  imports Ledger
begin

text \<open>
  The state of \<open>memory_scheduler.py\<close>: the permits and waiters the API process keeps in
  memory, the capacity provider \<open>SlotCapacity\<close>, and the waiting queue of a pool
  (\<open>_first\<close>, \<open>_add_waiter\<close>, \<open>_remove_waiter\<close>).

  A method between two \<open>await\<close>s runs alone on the event loop: each is one function. A
  \<open>_Permit\<close> is one object that the dictionaries \<open>permits\<close> and \<open>direct_attempts\<close> share;
  here it is one row with a flag for each dictionary, so that a change of its state is seen
  through both. Identifiers of attempts come from \<open>uuid4\<close>, an argument. Instants of
  \<open>monotonic()\<close> and of the wall clock are integers (microseconds); \<open>float("inf")\<close> is
  \<open>None\<close>. Logging is left out.
\<close>

section \<open>Rows\<close>

record sclock =
  mono :: int
  mono_later :: int
  wall :: int
  wall_later :: int

record mpool =
  mp_pool_id :: string
  mp_spec :: pool_spec
  mp_epoch :: string
  mp_health :: health
  mp_target :: int
  mp_group_id :: string
  mp_group_health :: health
  mp_group_ceiling :: int

datatype permit_kind = Direct | Durable | Legacy

record waiter =
  wt_identity :: string
  wt_tenant_id :: string
  wt_pool_id :: string
  wt_owner_id :: string
  wt_class :: workload_class
  wt_deadline :: int
  wt_queued_at :: int
  wt_kind :: permit_kind

record permit =
  pm_attempt_id :: string
  pm_pool_id :: string
  pm_owner_id :: string
  pm_class :: workload_class
  pm_epoch :: string
  pm_kind :: permit_kind
  pm_lease_until :: "int option"
  pm_state :: attempt_state
  pm_reservation :: "direct_reservation option"
  pm_unknown_at :: "int option"
  pm_idle_verified :: bool
  pm_held :: bool      \<comment> \<open>in \<open>permits\<close>\<close>
  pm_listed :: bool    \<comment> \<open>in \<open>direct_attempts\<close>\<close>

record identity_row =
  idr_identity :: string
  idr_request :: direct_request
  idr_owner_id :: string
  idr_expires :: int

text \<open>A streak of idle probes of a pool: epoch, proof key, start, probes, attempts.\<close>

record streak =
  sk_epoch :: string
  sk_key :: string
  sk_since :: int
  sk_probes :: nat
  sk_attempts :: "string set"

type_synonym entry = "nat \<times> int \<times> string"

record sched_config =
  cf_endpoint_limit :: int
  cf_tenant_limit :: int
  cf_request_ttl :: int
  cf_lease :: int
  cf_grace :: int
  cf_drain :: "string \<Rightarrow> int"     \<comment> \<open>restart drain, else attempt timeout, else 1800 s\<close>

record sched =
  sc_pools :: "mpool list"
  sc_waiters :: "waiter list"
  sc_queues :: "string \<Rightarrow> entry list"
  sc_queue_counts :: "string \<Rightarrow> int"
  sc_tenant_counts :: "string \<times> string \<Rightarrow> int"
  sc_refs :: "string \<Rightarrow> int"
  sc_permits :: "permit list"
  sc_identities :: "identity_row list"
  sc_ready :: "string \<Rightarrow> int option"
  sc_dirty :: "string list"
  sc_fallback :: "string \<Rightarrow> int"
  sc_old_expires :: "string \<Rightarrow> int"
  sc_slot_idle :: "string \<Rightarrow> nat"
  sc_unknown_idle :: "string \<Rightarrow> streak option"
  sc_control_ready :: bool
  sc_boot :: string
  sc_generation :: int

definition initial_sched :: "string \<Rightarrow> sched" where
  "initial_sched boot = \<lparr>sc_pools = [], sc_waiters = [], sc_queues = (\<lambda>_. []),
     sc_queue_counts = (\<lambda>_. 0), sc_tenant_counts = (\<lambda>_. 0), sc_refs = (\<lambda>_. 0), sc_permits = [],
     sc_identities = [], sc_ready = (\<lambda>_. None), sc_dirty = [], sc_fallback = (\<lambda>_. 0),
     sc_old_expires = (\<lambda>_. 0),
     sc_slot_idle = (\<lambda>_. 0), sc_unknown_idle = (\<lambda>_. None), sc_control_ready = True,
     sc_boot = boot, sc_generation = 0\<rparr>"

abbreviation find_mpool :: "sched \<Rightarrow> string \<Rightarrow> mpool option" where
  "find_mpool S k \<equiv> lookup_row mp_pool_id k (sc_pools S)"

abbreviation find_waiter :: "sched \<Rightarrow> string \<Rightarrow> waiter option" where
  "find_waiter S k \<equiv> lookup_row wt_identity k (sc_waiters S)"

abbreviation find_identity :: "sched \<Rightarrow> string \<Rightarrow> identity_row option" where
  "find_identity S k \<equiv> lookup_row idr_identity k (sc_identities S)"

text \<open>\<open>self.permits\<close> and \<open>self.direct_attempts\<close>, in insertion order.\<close>

definition held_permits :: "sched \<Rightarrow> permit list" where
  "held_permits S = filter pm_held (sc_permits S)"

definition direct_attempts :: "sched \<Rightarrow> permit list" where
  "direct_attempts S = filter pm_listed (sc_permits S)"

abbreviation find_permit :: "sched \<Rightarrow> string \<Rightarrow> permit option" where
  "find_permit S k \<equiv> lookup_row pm_attempt_id k (held_permits S)"

abbreviation find_direct :: "sched \<Rightarrow> string \<Rightarrow> permit option" where
  "find_direct S k \<equiv> lookup_row pm_attempt_id k (direct_attempts S)"

definition set_permit :: "string \<Rightarrow> (permit \<Rightarrow> permit) \<Rightarrow> sched \<Rightarrow> sched" where
  "set_permit k f S = S\<lparr>sc_permits := update_rows (\<lambda>p. pm_attempt_id p = k) f (sc_permits S)\<rparr>"

definition notify :: "sched \<Rightarrow> sched" where
  "notify S = S\<lparr>sc_generation := sc_generation S + 1\<rparr>"

definition get_pool :: "sched \<Rightarrow> string \<Rightarrow> error + mpool" where
  "get_pool S pid =
     (case find_mpool S pid of
        None \<Rightarrow> Inl (AdmissionDenied ''qualified inference endpoint unavailable'' True)
      | Some p \<Rightarrow> Inr p)"

section \<open>Capacity\<close>

text \<open>\<open>SlotCapacity.try_acquire\<close>: \<open>permits\<close> are the held ones.\<close>

definition endpoint_limit :: "mpool \<Rightarrow> int" where
  "endpoint_limit p =
     (if pool_kind (mp_spec p) = Llm then ps_transport_limit (mp_spec p)
      else min (mp_target p) (ps_hard_ceiling (mp_spec p)))"

definition active_in :: "permit list \<Rightarrow> string \<Rightarrow> int" where
  "active_in permits pid = count_rows (\<lambda>p. pm_pool_id p = pid) permits"

definition lower_in :: "permit list \<Rightarrow> string \<Rightarrow> int" where
  "lower_in permits pid = count_rows (\<lambda>p. pm_pool_id p = pid \<and> pm_class p \<noteq> Qa) permits"

definition counts_for_group :: "mpool list \<Rightarrow> string \<Rightarrow> permit \<Rightarrow> bool" where
  "counts_for_group pools g p =
     (case lookup_row mp_pool_id (pm_pool_id p) pools of
        None \<Rightarrow> False
      | Some other \<Rightarrow> mp_group_id other = g \<and> pool_kind (mp_spec other) \<noteq> Llm)"

definition group_used :: "permit list \<Rightarrow> mpool list \<Rightarrow> string \<Rightarrow> int" where
  "group_used permits pools g = count_rows (counts_for_group pools g) permits"

definition try_acquire :: "mpool \<Rightarrow> permit list \<Rightarrow> mpool list \<Rightarrow> workload_class \<Rightarrow> bool" where
  "try_acquire p permits pools cls =
     (if mp_health p \<noteq> HEALTHY \<or> mp_group_health p \<noteq> HEALTHY \<or> mp_target p \<le> 0 then False
      else if endpoint_limit p \<le> active_in permits (ps_pool_id (mp_spec p)) then False
      else if pool_kind (mp_spec p) = Llm \<and> cls \<noteq> Qa
              \<and> ps_background_transport_limit (mp_spec p) \<le> lower_in permits (ps_pool_id (mp_spec p))
      then False
      else if pool_kind (mp_spec p) \<noteq> Llm \<and> mp_group_ceiling p \<le> group_used permits pools (mp_group_id p)
      then False
      else True)"

text \<open>
  \<open>permits.pop\<close>; a row that neither dictionary holds any more is gone.
\<close>

definition release :: "string \<Rightarrow> sched \<Rightarrow> sched" where
  "release k S = S\<lparr>sc_permits :=
     filter (\<lambda>p. pm_held p \<or> pm_listed p)
       (update_rows (\<lambda>p. pm_attempt_id p = k) (\<lambda>p. p\<lparr>pm_held := False\<rparr>) (sc_permits S))\<rparr>"

section \<open>Waiting\<close>

text \<open>
  A heap of \<open>heapq\<close> is observed only through its smallest entry, so it is kept sorted:
  \<open>heappush\<close> is a sorted insertion, \<open>queue[0]\<close> the head, \<open>heappop\<close> the tail.
\<close>

fun heappush :: "entry \<Rightarrow> entry list \<Rightarrow> entry list" where
  "heappush e [] = [e]"
| "heappush e (x # xs) = (if e \<le> x then e # x # xs else x # heappush e xs)"

definition entry_of :: "waiter \<Rightarrow> entry" where
  "entry_of w = (RANK (wt_class w), wt_queued_at w, wt_identity w)"

definition set_queue :: "string \<Rightarrow> entry list \<Rightarrow> sched \<Rightarrow> sched" where
  "set_queue pid q S = S\<lparr>sc_queues := (sc_queues S)(pid := q)\<rparr>"

definition count_waiter :: "int \<Rightarrow> waiter \<Rightarrow> sched \<Rightarrow> sched" where
  "count_waiter n w S =
     (if wt_kind w = Direct
      then S\<lparr>sc_queue_counts := (sc_queue_counts S)(wt_pool_id w := sc_queue_counts S (wt_pool_id w) + n),
             sc_tenant_counts := (sc_tenant_counts S)((wt_pool_id w, wt_tenant_id w) :=
               sc_tenant_counts S (wt_pool_id w, wt_tenant_id w) + n)\<rparr>
      else S)"

definition add_waiter :: "waiter \<Rightarrow> sched \<Rightarrow> sched" where
  "add_waiter w S = notify (count_waiter 1 w
     (S\<lparr>sc_waiters := remove_row wt_identity (wt_identity w) (sc_waiters S) @ [w],
        sc_queues := (sc_queues S)(wt_pool_id w := heappush (entry_of w) (sc_queues S (wt_pool_id w)))\<rparr>))"

definition remove_waiter :: "string \<Rightarrow> sched \<Rightarrow> sched" where
  "remove_waiter k S =
     (case find_waiter S k of
        None \<Rightarrow> S
      | Some w \<Rightarrow> notify (count_waiter (- 1) w
          (S\<lparr>sc_waiters := remove_row wt_identity k (sc_waiters S)\<rparr>)))"

text \<open>
  \<open>_first\<close>: entries are dropped until one belongs to a live waiter. An expired waiter is
  removed, and its entry is dropped by the next turn of the loop.
\<close>

fun scan_first :: "int \<Rightarrow> string \<Rightarrow> entry list \<Rightarrow> sched \<Rightarrow> sched \<times> waiter option" where
  "scan_first now pid [] S = (set_queue pid [] S, None)"
| "scan_first now pid ((rank, queued_at, k) # q) S =
     (case find_waiter S k of
        None \<Rightarrow> scan_first now pid q S
      | Some w \<Rightarrow>
          (if wt_pool_id w = pid \<and> wt_queued_at w = queued_at
           then (if wt_deadline w \<le> now then scan_first now pid q (remove_waiter k S)
                 else (set_queue pid ((rank, queued_at, k) # q) S, Some w))
           else scan_first now pid q S))"

definition first :: "int \<Rightarrow> string \<Rightarrow> sched \<Rightarrow> sched \<times> waiter option" where
  "first now pid S = scan_first now pid (sc_queues S pid) S"

end
