(* ===== verification/Scheduler_Direct.thy ===== *)
theory Scheduler_Direct
  imports Scheduler
begin

text \<open>
  The direct requests of \<open>memory_scheduler.py\<close>: \<open>_enqueue\<close>, \<open>_validate\<close>, \<open>leave\<close>,
  \<open>_reserve\<close>, \<open>try_reserve\<close>, and what the holder of a reservation does with it
  (\<open>mark_send\<close>, \<open>heartbeat\<close>, \<open>finish\<close>, \<open>unknown\<close>, \<open>recovery_statuses\<close>). A method that
  may raise after changing the state returns the state beside the error.
\<close>

section \<open>Entering the queue\<close>

definition validate :: "direct_request \<Rightarrow> mpool \<Rightarrow> error + unit" where
  "validate q p =
     (let profile = mp_spec p in
      require (\<not> (dq_kind q \<noteq> pool_kind profile \<or> dq_model_profile q \<noteq> ps_model_profile profile
          \<or> (dq_model_revision q \<noteq> None \<and> dq_model_revision q \<noteq> Some (ps_model_revision profile))
          \<or> dq_capacity_profile_id q \<noteq> ps_profile_id profile
          \<or> request_limit profile < dq_request_bound q
          \<or> max_batch_size profile 1 < dq_batch_size q))
        (AdmissionDenied ''direct request exceeds its qualified pool profile'' False))"

definition attempts_of :: "sched \<Rightarrow> string \<Rightarrow> permit list" where
  "attempts_of S k = filter (\<lambda>p. case pm_reservation p of None \<Rightarrow> False
     | Some r \<Rightarrow> dq_request_id (dr_request r) = k) (direct_attempts S)"

definition generation_of :: "permit \<Rightarrow> int" where
  "generation_of p = (case pm_reservation p of None \<Rightarrow> 0 | Some r \<Rightarrow> dr_generation r)"

text \<open>\<open>max(previous, key=...)\<close>: the first of the largest.\<close>

fun latest :: "permit \<Rightarrow> permit list \<Rightarrow> permit" where
  "latest p [] = p"
| "latest p (x # xs) = latest (if generation_of p < generation_of x then x else p) xs"

definition recoverable :: "attempt_state \<Rightarrow> bool" where
  "recoverable st \<longleftrightarrow> st = FAILED_NOT_SENT \<or> st = FAILED_RECOVERABLE"

text \<open>What an already known request leads to: an error, its place in the queue, or nothing.\<close>

definition known_request ::
    "direct_request \<Rightarrow> string \<Rightarrow> sched \<Rightarrow> error + int option" where
  "known_request q owner S =
     (case find_identity S (dq_request_id q) of
        None \<Rightarrow> Inr None
      | Some known \<Rightarrow>
          (if idr_request known \<noteq> q \<or> idr_owner_id known \<noteq> owner
           then Inl (RuntimeConflict ''direct waiting identity conflict'')
           else case find_waiter S (dq_request_id q) of
               Some w \<Rightarrow> Inr (Some (wt_queued_at w))
             | None \<Rightarrow>
                 (case attempts_of S (dq_request_id q) of
                    [] \<Rightarrow> Inr None
                  | p # ps \<Rightarrow>
                      (if recoverable (pm_state (latest p ps)) then Inr None
                       else Inl (RuntimeConflict ''direct request already accepted'')))))"

definition set_identity :: "identity_row \<Rightarrow> sched \<Rightarrow> sched" where
  "set_identity r S = S\<lparr>sc_identities :=
     (if find_identity S (idr_identity r) = None then sc_identities S @ [r]
      else update_rows (\<lambda>x. idr_identity x = idr_identity r) (\<lambda>_. r) (sc_identities S))\<rparr>"

definition new_waiter :: "sclock \<Rightarrow> direct_request \<Rightarrow> string \<Rightarrow> string \<Rightarrow> waiter" where
  "new_waiter c q pid owner =
     \<lparr>wt_identity = dq_request_id q, wt_tenant_id = dq_tenant_id q, wt_pool_id = pid,
      wt_owner_id = owner, wt_class = dq_workload_class q,
      wt_deadline = mono c + (dq_deadline q - wall_later c), wt_queued_at = mono c,
      wt_kind = Direct\<rparr>"

definition enqueue ::
    "sched_config \<Rightarrow> sclock \<Rightarrow> direct_request \<Rightarrow> string \<Rightarrow> string \<Rightarrow> sched \<Rightarrow> error + sched \<times> int" where
  "enqueue cf c q pid owner S =
     and_then (get_pool S pid) (\<lambda>p.
     and_then (known_request q owner S) (\<lambda>place.
       case place of
         Some at \<Rightarrow> Inr (S, at)
       | None \<Rightarrow>
           (if dq_deadline q \<le> wall c
            then Inl (AdmissionDenied ''inference request deadline exceeded'' True)
            else if cf_endpoint_limit cf \<le> sc_queue_counts S pid
                    \<or> cf_tenant_limit cf \<le> sc_tenant_counts S (pid, dq_tenant_id q)
            then Inl (AdmissionDenied ''inference waiting buffer full'' True)
            else and_then (validate q p) (\<lambda>_.
              Inr (set_identity \<lparr>idr_identity = dq_request_id q, idr_request = q,
                     idr_owner_id = owner, idr_expires = mono c + cf_request_ttl cf\<rparr>
                   (add_waiter (new_waiter c q pid owner) S), mono c)))))"

definition leave :: "string \<Rightarrow> string \<Rightarrow> sched \<Rightarrow> sched" where
  "leave k owner S =
     (case find_waiter S k of
        None \<Rightarrow> S
      | Some w \<Rightarrow> if wt_owner_id w = owner then remove_waiter k S else S)"

section \<open>Granting\<close>

definition expire_dirty :: "int \<Rightarrow> sched \<Rightarrow> sched" where
  "expire_dirty now S =
     (let gone = filter (\<lambda>pid. sc_fallback S pid \<le> now) (sc_dirty S) in
      S\<lparr>sc_dirty := filter (\<lambda>pid. \<not> sc_fallback S pid \<le> now) (sc_dirty S),
        sc_generation := sc_generation S + int (length gone)\<rparr>)"

definition pool_ready :: "sched \<Rightarrow> string \<Rightarrow> int \<Rightarrow> bool" where
  "pool_ready S pid now = (case sc_ready S pid of None \<Rightarrow> False | Some t \<Rightarrow> t \<le> now)"

text \<open>
  The generation of the next attempt; \<open>None\<close> when the stopped engine has not restarted and
  no probe has shown the old attempt idle.
\<close>

definition next_generation ::
    "mpool \<Rightarrow> direct_request \<Rightarrow> string \<Rightarrow> string \<Rightarrow> string option \<Rightarrow> sched \<Rightarrow> error + int option" where
  "next_generation p q pid owner previous S =
     (case previous of
        None \<Rightarrow> Inr (Some 0)
      | Some k \<Rightarrow>
          (case find_direct S k of
             None \<Rightarrow> Inl (RuntimeConflict ''recovery identity conflict'')
           | Some old \<Rightarrow>
               (case pm_reservation old of
                  None \<Rightarrow> Inl (RuntimeConflict ''recovery identity conflict'')
                | Some r \<Rightarrow>
                    (if dr_request r \<noteq> q \<or> pm_owner_id old \<noteq> owner \<or> pm_pool_id old \<noteq> pid
                     then Inl (RuntimeConflict ''recovery identity conflict'')
                     else if \<not> recoverable (pm_state old)
                     then Inl (RuntimeConflict ''inference termination is not proven'')
                     else if 2 < dr_generation r + 1
                     then Inl (AdmissionDenied ''inference recovery limit reached'' False)
                     else if pm_state old = FAILED_RECOVERABLE \<and> pm_epoch old = mp_epoch p
                             \<and> \<not> pm_idle_verified old
                     then Inr None
                     else Inr (Some (dr_generation r + 1))))))"

definition grant ::
    "string \<Rightarrow> mpool \<Rightarrow> direct_request \<Rightarrow> string \<Rightarrow> string \<Rightarrow> int \<Rightarrow> sched \<Rightarrow> sched \<times> direct_reservation" where
  "grant aid p q pid owner generation S =
     (let res = \<lparr>dr_attempt_id = aid, dr_request = q, dr_pool_id = pid, dr_engine_epoch = mp_epoch p,
                 dr_owner_id = owner, dr_generation = generation\<rparr>;
          pm = \<lparr>pm_attempt_id = aid, pm_pool_id = pid, pm_owner_id = owner,
                pm_class = dq_workload_class q, pm_epoch = mp_epoch p, pm_kind = Direct,
                pm_lease_until = None, pm_state = RESERVED, pm_reservation = Some res,
                pm_unknown_at = None, pm_idle_verified = False, pm_held = True, pm_listed = True\<rparr>;
          S1 = remove_waiter (dq_request_id q) S
      in (notify (S1\<lparr>sc_permits := sc_permits S1 @ [pm]\<rparr>), res))"

definition stale_proxy :: "mpool \<Rightarrow> direct_request \<Rightarrow> bool" where
  "stale_proxy p q \<longleftrightarrow>
     dq_expected_engine_epoch q \<noteq> None \<and> dq_expected_engine_epoch q \<noteq> Some (mp_epoch p)"

definition reserve ::
    "sclock \<Rightarrow> string \<Rightarrow> direct_request \<Rightarrow> string \<Rightarrow> string \<Rightarrow> string option \<Rightarrow> sched
      \<Rightarrow> sched \<times> (error + direct_reservation option)" where
  "reserve c aid q pid owner previous S0 =
     (let S = expire_dirty (mono c) S0 in
      case get_pool S pid of
        Inl e \<Rightarrow> (S, Inl e)
      | Inr p \<Rightarrow>
     (case find_waiter S (dq_request_id q) of
        None \<Rightarrow> (S, Inr None)
      | Some w \<Rightarrow>
          (if wt_owner_id w \<noteq> owner then (S, Inr None)
           else if dq_deadline q \<le> wall c \<or> \<not> sc_control_ready S \<or> \<not> pool_ready S pid (mono c)
           then (S, Inr None)
           else case validate q p of
               Inl e \<Rightarrow> (S, Inl e)
             | Inr _ \<Rightarrow>
          (if stale_proxy p q \<and> previous = None
           then (S, Inl (RuntimeConflict ''proxy has an older engine epoch''))
           else case next_generation p q pid owner previous S of
               Inl e \<Rightarrow> (S, Inl e)
             | Inr None \<Rightarrow> (S, Inr None)
             | Inr (Some generation) \<Rightarrow>
                 (let (S1, f) = first (mono_later c) pid S in
                  if f \<noteq> Some w
                     \<or> \<not> try_acquire p (held_permits S1) (sc_pools S1) (dq_workload_class q)
                  then (S1, Inr None)
                  else let (S2, res) = grant aid p q pid owner generation S1 in (S2, Inr (Some res)))))))"

text \<open>\<open>try_reserve\<close>: enters and reserves in one turn; \<open>withdraw\<close> is its \<open>finally\<close>.\<close>

definition withdraw :: "string \<Rightarrow> string \<Rightarrow> sched \<Rightarrow> sched" where
  "withdraw k pid S =
     (let S1 = remove_waiter k S in
      S1\<lparr>sc_identities := remove_row idr_identity k (sc_identities S1),
         sc_queues := (sc_queues S1)(pid := filter (\<lambda>(_, _, i). i \<noteq> k) (sc_queues S1 pid))\<rparr>)"

datatype try_answer = Reserved direct_reservation | Refused string

definition try_reserve ::
    "sched_config \<Rightarrow> sclock \<Rightarrow> string \<Rightarrow> direct_request \<Rightarrow> string \<Rightarrow> string \<Rightarrow> sched
      \<Rightarrow> sched \<times> (error + try_answer)" where
  "try_reserve cf c aid q pid owner S =
     (case find_mpool S pid of
        None \<Rightarrow> (S, Inr (Refused ''model_not_ready''))
      | Some p \<Rightarrow>
          (if \<not> sc_control_ready S \<or> mp_health p \<noteq> HEALTHY \<or> mp_group_health p \<noteq> HEALTHY
              \<or> mp_target p \<le> 0 \<or> \<not> pool_ready S pid (mono c)
           then (S, Inr (Refused ''model_not_ready''))
           else if (case dq_dispatch_before q of None \<Rightarrow> False | Some t \<Rightarrow> t \<le> wall c)
           then (S, Inr (Refused ''dispatch_cutoff''))
           else if stale_proxy p q then (S, Inr (Refused ''model_not_ready''))
           else case enqueue cf c q pid owner S of
               Inl (AdmissionDenied m True) \<Rightarrow>
                 (withdraw (dq_request_id q) pid S, Inr (Refused ''inference_capacity''))
             | Inl e \<Rightarrow> (withdraw (dq_request_id q) pid S, Inl e)
             | Inr (S1, _) \<Rightarrow>
                 (case reserve c aid q pid owner None S1 of
                    (S2, Inl e) \<Rightarrow> (withdraw (dq_request_id q) pid S2, Inl e)
                  | (S2, Inr None) \<Rightarrow>
                      (withdraw (dq_request_id q) pid S2, Inr (Refused ''inference_capacity''))
                  | (S2, Inr (Some res)) \<Rightarrow> (S2, Inr (Reserved res)))))"

section \<open>Using a reservation\<close>

definition direct :: "direct_reservation \<Rightarrow> sched \<Rightarrow> error + permit" where
  "direct res S =
     (case find_direct S (dr_attempt_id res) of
        None \<Rightarrow> Inl (RuntimeConflict ''stale direct request ownership'')
      | Some p \<Rightarrow>
          (if pm_reservation p \<noteq> Some res
           then Inl (RuntimeConflict ''stale direct request ownership'') else Inr p))"

definition direct_mark_send :: "sclock \<Rightarrow> direct_reservation \<Rightarrow> sched \<Rightarrow> error + sched" where
  "direct_mark_send c res S =
     and_then (direct res S) (\<lambda>p.
       if pm_state p \<noteq> RESERVED \<or> \<not> pm_held p \<or> dq_deadline (dr_request res) \<le> wall c
       then Inl (RuntimeConflict ''direct attempt cannot send'')
       else Inr (set_permit (pm_attempt_id p) (\<lambda>p. p\<lparr>pm_state := SEND_INTENT\<rparr>) S))"

definition direct_heartbeat :: "sclock \<Rightarrow> direct_reservation \<Rightarrow> sched \<Rightarrow> error + bool" where
  "direct_heartbeat c res S =
     and_then (direct res S) (\<lambda>p.
       Inr (pm_held p \<and> (pm_state p = RESERVED \<or> pm_state p = SEND_INTENT)
            \<and> wall c < dq_deadline (dr_request res)))"

definition direct_finish :: "direct_reservation \<Rightarrow> string \<Rightarrow> sched \<Rightarrow> error + sched" where
  "direct_finish res evidence S =
     (if evidence \<noteq> ''completed_response'' \<and> evidence \<noteq> ''not_sent''
      then Inl (ValueError ''termination evidence is required'')
      else and_then (direct res S) (\<lambda>p.
        if evidence = ''completed_response'' \<and> pm_state p = RESERVED
        then Inl (RuntimeConflict ''direct attempt has not sent'')
        else if \<not> pm_held p then Inr S
        else Inr (notify (release (pm_attempt_id p)
               (set_permit (pm_attempt_id p)
                  (\<lambda>p. p\<lparr>pm_state := if evidence = ''completed_response'' then FINISHED else FAILED_NOT_SENT\<rparr>) S)))))"

definition direct_unknown :: "sclock \<Rightarrow> direct_reservation \<Rightarrow> sched \<Rightarrow> error + sched" where
  "direct_unknown c res S =
     and_then (direct res S) (\<lambda>p.
       Inr (if pm_held p
            then set_permit (pm_attempt_id p)
                   (\<lambda>p. p\<lparr>pm_state := UNKNOWN, pm_unknown_at := Some (wall c)\<rparr>) S
            else S))"

record recovery_status =
  rst_state :: attempt_state
  rst_engine_epoch :: string
  rst_current_epoch :: string
  rst_health :: health
  rst_target :: int
  rst_idle_verified :: bool

definition recovery_status_of :: "sched \<Rightarrow> string \<Rightarrow> (string \<times> recovery_status) option" where
  "recovery_status_of S k =
     (case find_direct S k of
        None \<Rightarrow> None
      | Some p \<Rightarrow>
          (case find_mpool S (pm_pool_id p) of
             None \<Rightarrow> None
           | Some pool \<Rightarrow> Some (k,
               \<lparr>rst_state = pm_state p, rst_engine_epoch = pm_epoch p, rst_current_epoch = mp_epoch pool,
                rst_health = mp_health pool, rst_target = mp_target pool,
                rst_idle_verified = pm_idle_verified p\<rparr>)))"

definition recovery_statuses :: "sched \<Rightarrow> string list \<Rightarrow> (string \<times> recovery_status) list" where
  "recovery_statuses S ks = List.map_filter (recovery_status_of S) (remdups ks)"

end
