(* ===== verification/Scheduler_Durable.thy ===== *)
theory Scheduler_Durable
  imports Scheduler_Direct Ledger_Reconcile
begin

text \<open>
  The permits of durable attempts and the upkeep of \<open>memory_scheduler.py\<close>: \<open>durable\<close>
  (entry, one turn of its loop, its \<open>finally\<close>), \<open>durable_heartbeat\<close>, \<open>durable_release\<close>,
  \<open>_refresh\<close> and \<open>start\<close>, the probes (\<open>_probe_slots\<close>, \<open>_slots_idle\<close>, \<open>_terminated\<close>,
  \<open>_settle_idle_unknown\<close>), \<open>_reconcile_durable\<close>, \<open>_expire_requests\<close> and the metrics.
  Where a method reads the ledger between two awaits, the ledger is an argument.
\<close>

section \<open>Durable permits\<close>

text \<open>\<open>_durable_waiter_valid\<close> and the check that the ledger knows the attempt.\<close>

definition durable_waiter_valid :: "ledger \<Rightarrow> int \<Rightarrow> string \<Rightarrow> bool" where
  "durable_waiter_valid L now k =
     (case find_attempt L k of
        None \<Rightarrow> False
      | Some a \<Rightarrow>
          (case join_attempt L a of
             None \<Rightarrow> False
           | Some (_, x, r) \<Rightarrow>
               att_state a = RESERVED \<and> op_state x = EXECUTING \<and> root_state r = RUNNING
               \<and> \<not> root_cancel_requested r \<and> now < root_deadline r))"

definition durable_identity ::
    "ledger \<Rightarrow> string \<Rightarrow> string \<Rightarrow> string \<Rightarrow> string \<Rightarrow> workload_class \<Rightarrow> error + joined" where
  "durable_identity L k pid owner epoch cls =
     (case find_attempt L k of
        None \<Rightarrow> Inl (RuntimeConflict ''durable permit identity conflicts with ledger'')
      | Some a \<Rightarrow>
          (case join_attempt L a of
             None \<Rightarrow> Inl (RuntimeConflict ''durable permit identity conflicts with ledger'')
           | Some (_, x, r) \<Rightarrow>
               (if att_pool_id a \<noteq> pid \<or> att_owner_id a \<noteq> owner \<or> att_engine_epoch a \<noteq> epoch
                   \<or> root_workload (root_priority r) \<noteq> cls
                   \<or> att_state a \<notin> {RESERVED, SEND_INTENT, ACTIVE}
                   \<or> (att_state a \<noteq> RESERVED \<and> \<not> att_compute_held a)
                then Inl (RuntimeConflict ''durable permit identity conflicts with ledger'')
                else Inr (a, x, r))))"

definition durable_profile :: "operation_spec \<Rightarrow> mpool \<Rightarrow> string \<Rightarrow> error + unit" where
  "durable_profile spec p epoch =
     (if mp_epoch p \<noteq> epoch
      then Inl (RuntimeConflict ''durable attempt engine epoch changed before permit'')
      else if os_model_profile spec \<noteq> ps_model_profile (mp_spec p)
              \<or> (os_capacity_profile_id spec \<noteq> None
                 \<and> os_capacity_profile_id spec \<noteq> Some (ps_profile_id (mp_spec p)))
      then Inl (RuntimeConflict ''durable attempt profile changed before permit'')
      else Inr ())"

text \<open>
  Entry: an existing permit is renewed and returned; otherwise the caller waits, joining the
  waiter that the attempt already has. The deadline is a datetime, with a zone or without.
\<close>

datatype durable_entry = Permitted permit | Waits waiter

definition set_lease :: "int \<Rightarrow> permit \<Rightarrow> permit" where
  "set_lease t p = p\<lparr>pm_lease_until := Some t\<rparr>"

definition durable_waiter ::
    "sclock \<Rightarrow> string \<Rightarrow> string \<Rightarrow> string \<Rightarrow> workload_class \<Rightarrow> int \<Rightarrow> op_row \<Rightarrow> waiter" where
  "durable_waiter c k pid owner cls deadline x =
     \<lparr>wt_identity = k, wt_tenant_id = [], wt_pool_id = pid, wt_owner_id = owner, wt_class = cls,
      wt_deadline = mono_later c + max 0 (deadline - wall c),
      wt_queued_at = mono_later c - max 0 (wall c - op_created_at x), wt_kind = Durable\<rparr>"

definition join_waiter ::
    "sclock \<Rightarrow> string \<Rightarrow> string \<Rightarrow> string \<Rightarrow> workload_class \<Rightarrow> int \<Rightarrow> op_row \<Rightarrow> sched
      \<Rightarrow> error + sched \<times> waiter" where
  "join_waiter c k pid owner cls deadline x S =
     (case find_waiter S k of
        None \<Rightarrow> (let w = durable_waiter c k pid owner cls deadline x in Inr (add_waiter w S, w))
      | Some w \<Rightarrow>
          (if wt_kind w \<noteq> Durable \<or> wt_pool_id w \<noteq> pid \<or> wt_owner_id w \<noteq> owner \<or> wt_class w \<noteq> cls
           then Inl (RuntimeConflict ''durable waiter identity conflict'')
           else Inr (S, w)))"

definition add_ref :: "string \<Rightarrow> int \<Rightarrow> sched \<Rightarrow> sched" where
  "add_ref k n S = S\<lparr>sc_refs := (sc_refs S)(k := sc_refs S k + n)\<rparr>"

definition durable_enter ::
    "sched_config \<Rightarrow> sclock \<Rightarrow> ledger \<Rightarrow> string \<Rightarrow> string \<Rightarrow> string \<Rightarrow> string \<Rightarrow> workload_class
      \<Rightarrow> py_datetime \<Rightarrow> sched \<Rightarrow> error + sched \<times> durable_entry" where
  "durable_enter cf c L k pid owner epoch cls deadline S =
     and_then (durable_identity L k pid owner epoch cls) (\<lambda>(a, x, r).
       case deadline of
         Naive _ \<Rightarrow> Inl (RuntimeConflict ''durable permit deadline exceeds ledger deadline'')
       | Aware dl \<Rightarrow>
     (if attempt_deadline (root_deadline r) (op_spec x) (att_created_at a) < dl
      then Inl (RuntimeConflict ''durable permit deadline exceeds ledger deadline'')
      else and_then (get_pool S pid) (\<lambda>p.
        and_then (durable_profile (op_spec x) p epoch) (\<lambda>_.
        case find_permit S k of
          Some pm \<Rightarrow>
            (if pm_kind pm \<noteq> Durable \<or> pm_pool_id pm \<noteq> pid \<or> pm_owner_id pm \<noteq> owner \<or> pm_epoch pm \<noteq> epoch
             then Inl (RuntimeConflict ''durable permit ownership conflict'')
             else Inr (set_permit k (set_lease (mono c + cf_lease cf)) S,
                       Permitted (set_lease (mono c + cf_lease cf) pm)))
        | None \<Rightarrow>
            and_then (join_waiter c k pid owner cls dl x S) (\<lambda>(S1, w).
              Inr (add_ref k 1 S1, Waits w))))))"

definition durable_grant ::
    "sched_config \<Rightarrow> sclock \<Rightarrow> string \<Rightarrow> string \<Rightarrow> string \<Rightarrow> string \<Rightarrow> workload_class \<Rightarrow> sched
      \<Rightarrow> sched \<times> permit" where
  "durable_grant cf c k pid owner epoch cls S =
     (let pm = \<lparr>pm_attempt_id = k, pm_pool_id = pid, pm_owner_id = owner, pm_class = cls,
                pm_epoch = epoch, pm_kind = Durable, pm_lease_until = Some (mono_later c + cf_lease cf),
                pm_state = RESERVED, pm_reservation = None, pm_unknown_at = None,
                pm_idle_verified = False, pm_held = True, pm_listed = False\<rparr>;
          S1 = remove_waiter k S
      in (notify (S1\<lparr>sc_permits := sc_permits S1 @ [pm]\<rparr>), pm))"

text \<open>
  One turn of the loop for the caller that holds \<open>w\<close>. \<open>revalidated\<close> is the answer of
  \<open>_durable_waiter_valid\<close> when a second has passed since the last time it was asked. That
  answer is taken to arrive at once: the code awaits it between reading the pool and using it,
  and turns of other callers inside that await are not modelled.
\<close>

definition durable_turn ::
    "sched_config \<Rightarrow> sclock \<Rightarrow> bool option \<Rightarrow> operation_spec \<Rightarrow> string \<Rightarrow> string \<Rightarrow> waiter \<Rightarrow> sched
      \<Rightarrow> sched \<times> (error + permit option)" where
  "durable_turn cf c revalidated spec owner epoch w S0 =
     (let S = expire_dirty (mono c) S0; k = wt_identity w; pid = wt_pool_id w in
      case get_pool S pid of
        Inl e \<Rightarrow> (S, Inl e)
      | Inr p \<Rightarrow>
     (case durable_profile spec p epoch of
        Inl e \<Rightarrow> (S, Inl e)
      | Inr _ \<Rightarrow>
     (case find_permit S k of
        Some pm \<Rightarrow> (S, Inr (Some pm))
      | None \<Rightarrow>
          (if revalidated = Some False
           then (S, Inl (RuntimeConflict ''durable attempt no longer dispatchable''))
           else if wt_deadline w \<le> mono c
           then (S, Inl (PyTimeoutError ''durable permit deadline exceeded''))
           else if \<not> sc_control_ready S \<or> \<not> pool_ready S pid (mono c) then (S, Inr None)
           else
             (let (S1, f) = first (mono_later c) pid S in
              if f \<noteq> Some w \<or> \<not> try_acquire p (held_permits S1) (sc_pools S1) (wt_class w)
              then (S1, Inr None)
              else let (S2, pm) = durable_grant cf c k pid owner epoch (wt_class w) S1 in
                (S2, Inr (Some pm)))))))"

definition durable_exit :: "waiter \<Rightarrow> sched \<Rightarrow> sched" where
  "durable_exit w S0 =
     (let k = wt_identity w; S = add_ref k (- 1) S0 in
      if sc_refs S k \<le> 0
      then (let S1 = (if find_waiter S k = Some w then remove_waiter k S else S) in
            S1\<lparr>sc_refs := (sc_refs S1)(k := 0)\<rparr>)
      else S)"

definition durable_heartbeat :: "sched_config \<Rightarrow> sclock \<Rightarrow> string \<Rightarrow> string \<Rightarrow> sched \<Rightarrow> error + sched" where
  "durable_heartbeat cf c k owner S =
     (case find_permit S k of
        None \<Rightarrow> Inl (RuntimeConflict ''durable permit not owned'')
      | Some p \<Rightarrow>
          (if pm_kind p \<noteq> Durable \<or> pm_owner_id p \<noteq> owner
           then Inl (RuntimeConflict ''durable permit not owned'')
           else Inr (set_permit k (set_lease (mono c + cf_lease cf)) S)))"

definition durable_release :: "ledger \<Rightarrow> string \<Rightarrow> string \<Rightarrow> sched \<Rightarrow> error + sched" where
  "durable_release L k owner S =
     (case find_permit S k of
        None \<Rightarrow> Inr S
      | Some p \<Rightarrow>
          (if pm_kind p \<noteq> Durable \<or> pm_owner_id p \<noteq> owner
           then Inl (RuntimeConflict ''durable permit not owned'')
           else if attempt_compute_held L k
           then Inl (RuntimeConflict ''compute termination is not proven'')
           else Inr (notify (release k S))))"

end
