(* ===== verification/Scheduler_Upkeep.thy ===== *)
theory Scheduler_Upkeep
  imports Scheduler_Durable
begin

text \<open>
  The upkeep of \<open>memory_scheduler.py\<close>: \<open>_refresh\<close> and \<open>start\<close>, the probes
  (\<open>_probe_slots\<close>, \<open>_slots_idle\<close>, \<open>_terminated\<close>, \<open>_settle_idle_unknown\<close>),
  \<open>_reconcile_durable\<close>, \<open>_expire_requests\<close> and the metrics. The parts of a method before
  and after an \<open>await\<close> whose outcome other turns may change are separate functions;
  \<open>Scheduler_Maintenance\<close> puts them in the order of the maintenance loop.
\<close>

section \<open>Control-plane refresh\<close>

definition pool_owner :: "string \<Rightarrow> string" where
  "pool_owner pid = ''runtime-api-pool:'' @ pid"

definition legacy_owner_alive :: "int \<Rightarrow> ledger \<Rightarrow> bool" where
  "legacy_owner_alive now L =
     (\<exists>w \<in> set (t_owners L). starts_with ''direct-api-'' (own_id w) \<and> now < own_lease_expires_at w)"

text \<open>The rows of the join of pools and groups.\<close>

definition pool_record :: "ledger \<Rightarrow> pool_row \<Rightarrow> mpool option" where
  "pool_record L p =
     (case find_group L (pool_group_id p) of
        None \<Rightarrow> None
      | Some g \<Rightarrow> Some
          \<lparr>mp_pool_id = pool_id p, mp_spec = pool_spec_of p, mp_epoch = pool_engine_epoch p,
           mp_health = pool_health p, mp_target = pool_target p, mp_group_id = pool_group_id p,
           mp_group_health = group_health g, mp_group_ceiling = group_hard_ceiling g\<rparr>)"

definition pool_records :: "ledger \<Rightarrow> mpool list" where
  "pool_records L = List.map_filter (pool_record L) (t_pools L)"

text \<open>The first claim of a pool takes over an expired owner; a later one only renews its own.\<close>

definition claim_pool :: "int \<Rightarrow> int \<Rightarrow> string \<Rightarrow> string \<Rightarrow> ledger \<Rightarrow> error + ledger" where
  "claim_pool lease now boot pid L =
     (let owner = pool_owner pid in
      case lookup_row own_id owner (t_owners L) of
        None \<Rightarrow> Inr (L\<lparr>t_owners := t_owners L @
                  [\<lparr>own_id = owner, own_boot = boot, own_lease_expires_at = now + lease\<rparr>]\<rparr>)
      | Some w \<Rightarrow>
          (if own_lease_expires_at w \<le> now \<or> own_boot w = boot
           then Inr (L\<lparr>t_owners := update_rows (\<lambda>w. own_id w = owner)
                  (\<lambda>w. w\<lparr>own_boot := boot, own_lease_expires_at := now + lease\<rparr>) (t_owners L)\<rparr>)
           else Inl (RuntimeConflict (''another runtime-api owns pool '' @ pid))))"

definition renew_pool :: "int \<Rightarrow> int \<Rightarrow> string \<Rightarrow> string \<Rightarrow> ledger \<Rightarrow> error + ledger" where
  "renew_pool lease now boot pid L =
     (if \<exists>w \<in> set (t_owners L). own_id w = pool_owner pid \<and> own_boot w = boot
      then Inr (L\<lparr>t_owners := update_rows (\<lambda>w. own_id w = pool_owner pid \<and> own_boot w = boot)
             (\<lambda>w. w\<lparr>own_lease_expires_at := now + lease\<rparr>) (t_owners L)\<rparr>)
      else Inl (RuntimeConflict (''runtime-api ownership lost for '' @ pid)))"

fun claim_pools :: "int \<Rightarrow> int \<Rightarrow> string \<Rightarrow> string list \<Rightarrow> ledger \<Rightarrow> error + ledger" where
  "claim_pools lease now boot [] L = Inr L"
| "claim_pools lease now boot (k # ks) L =
     and_then (claim_pool lease now boot k L) (claim_pools lease now boot ks)"

fun renew_pools :: "int \<Rightarrow> int \<Rightarrow> string \<Rightarrow> string list \<Rightarrow> ledger \<Rightarrow> error + ledger" where
  "renew_pools lease now boot [] L = Inr L"
| "renew_pools lease now boot (k # ks) L =
     and_then (renew_pool lease now boot k L) (renew_pools lease now boot ks)"

text \<open>Pools whose owner row another process left: they start dirty.\<close>

fun note_old_owners :: "ledger \<Rightarrow> string list \<Rightarrow> sched \<Rightarrow> sched" where
  "note_old_owners L [] S = S"
| "note_old_owners L (k # ks) S = note_old_owners L ks
     (case lookup_row own_id (pool_owner k) (t_owners L) of
        None \<Rightarrow> S
      | Some w \<Rightarrow>
          (if own_boot w = sc_boot S then S
           else S\<lparr>sc_dirty := (if k \<in> set (sc_dirty S) then sc_dirty S else sc_dirty S @ [k]),
                  sc_old_expires := (sc_old_expires S)(k := own_lease_expires_at w)\<rparr>))"

definition set_mpool :: "mpool \<Rightarrow> sched \<Rightarrow> sched" where
  "set_mpool p S = S\<lparr>sc_pools :=
     (if find_mpool S (mp_pool_id p) = None then sc_pools S @ [p]
      else update_rows (\<lambda>x. mp_pool_id x = mp_pool_id p) (\<lambda>_. p) (sc_pools S))\<rparr>"

text \<open>The permits of a replaced engine: direct ones end, durable ones await the ledger.\<close>

definition end_old_epoch :: "string \<Rightarrow> string \<Rightarrow> sched \<Rightarrow> sched" where
  "end_old_epoch pid epoch S = S\<lparr>sc_permits := filter (\<lambda>p. pm_held p \<or> pm_listed p)
     (update_rows (\<lambda>p. pm_held p \<and> pm_pool_id p = pid \<and> pm_epoch p \<noteq> epoch \<and> pm_kind p = Direct)
        (\<lambda>p. p\<lparr>pm_state := if pm_state p = RESERVED then FAILED_NOT_SENT else FAILED_RECOVERABLE,
               pm_held := False\<rparr>) (sc_permits S))\<rparr>"

definition absorb_record :: "int \<Rightarrow> mpool \<Rightarrow> sched \<Rightarrow> sched" where
  "absorb_record now p S =
     (let S1 = set_mpool p S; pid = mp_pool_id p in
      case find_mpool S pid of
        None \<Rightarrow> S1
      | Some previous \<Rightarrow>
          (if mp_epoch previous = mp_epoch p then S1
           else
             let S2 = end_old_epoch pid (mp_epoch p) S1 in
             if mp_health p = HEALTHY \<and> pid \<in> set (sc_dirty S2)
             then S2\<lparr>sc_ready := (sc_ready S2)(pid := Some now),
                     sc_dirty := filter (\<lambda>k. k \<noteq> pid) (sc_dirty S2)\<rparr>
             else S2))"

definition durable_record :: "int \<Rightarrow> ledger \<Rightarrow> attempt_row \<Rightarrow> permit option" where
  "durable_record lease_until L a =
     (if att_compute_held a \<and> att_state a \<in> {SEND_INTENT, ACTIVE, UNKNOWN}
      then (case join_attempt L a of
              None \<Rightarrow> None
            | Some (_, x, r) \<Rightarrow> Some
                \<lparr>pm_attempt_id = att_id a, pm_pool_id = att_pool_id a, pm_owner_id = att_owner_id a,
                 pm_class = root_workload (root_priority r), pm_epoch = att_engine_epoch a,
                 pm_kind = Durable, pm_lease_until = Some lease_until, pm_state = att_state a,
                 pm_reservation = None, pm_unknown_at = None, pm_idle_verified = False,
                 pm_held = True, pm_listed = False\<rparr>)
      else None)"

definition legacy_record :: "direct_row \<Rightarrow> permit option" where
  "legacy_record d =
     (if dir_compute_held d \<and> dir_state d \<in> {SEND_INTENT, UNKNOWN}
      then Some
        \<lparr>pm_attempt_id = dir_attempt_id d, pm_pool_id = dir_pool_id d, pm_owner_id = dir_owner_id d,
         pm_class = or_else (dir_workload d) Background, pm_epoch = dir_engine_epoch d,
         pm_kind = Legacy, pm_lease_until = None, pm_state = dir_state d, pm_reservation = None,
         pm_unknown_at = None, pm_idle_verified = False, pm_held = True, pm_listed = False\<rparr>
      else None)"

definition put_permit :: "permit \<Rightarrow> sched \<Rightarrow> sched" where
  "put_permit p S = S\<lparr>sc_permits := remove_row pm_attempt_id (pm_attempt_id p) (sc_permits S) @ [p]\<rparr>"

definition refresh_initial ::
    "sched_config \<Rightarrow> int \<Rightarrow> sclock \<Rightarrow> ledger \<Rightarrow> sched \<Rightarrow> (ledger \<times> sched) \<times> error option" where
  "refresh_initial cf now c L S =
     (if legacy_owner_alive now L
      then ((L, S), Some (RuntimeConflict ''legacy direct API owner is still alive''))
      else
        (let records = pool_records L; ids = map mp_pool_id records;
             S1 = note_old_owners L ids S in
         case claim_pools (cf_lease cf) now (sc_boot S) ids L of
           Inl e \<Rightarrow> ((L, S1), Some e)
         | Inr L1 \<Rightarrow>
             (let S2 = fold (absorb_record (mono c)) records S1;
                  S3 = fold put_permit
                    (List.map_filter (durable_record (mono c + cf_lease cf) L) (t_attempts L)) S2;
                  S4 = fold put_permit (List.map_filter legacy_record (t_direct L)) S3
              in ((L1, notify S4), None))))"

definition refresh ::
    "sched_config \<Rightarrow> int \<Rightarrow> sclock \<Rightarrow> ledger \<Rightarrow> sched \<Rightarrow> error + ledger \<times> sched" where
  "refresh cf now c L S =
     (let records = pool_records L in
      and_then (renew_pools (cf_lease cf) now (sc_boot S) (map mp_pool_id records) L) (\<lambda>L1.
        Inr (L1, notify (fold (absorb_record (mono c)) records S))))"

text \<open>\<open>start\<close>: when each pool may be used, given the first refresh.\<close>

definition schedule_pool :: "sched_config \<Rightarrow> sclock \<Rightarrow> string \<Rightarrow> sched \<Rightarrow> sched" where
  "schedule_pool cf c pid S =
     (if pid \<in> set (sc_dirty S)
      then (let at = mono_later c + max 0 (sc_old_expires S pid + cf_drain cf pid - wall c) in
            S\<lparr>sc_fallback := (sc_fallback S)(pid := at), sc_ready := (sc_ready S)(pid := Some at)\<rparr>)
      else S\<lparr>sc_ready := (sc_ready S)(pid := Some (mono_later c + cf_grace cf))\<rparr>)"

definition start ::
    "sched_config \<Rightarrow> int \<Rightarrow> sclock \<Rightarrow> ledger \<Rightarrow> sched \<Rightarrow> (ledger \<times> sched) \<times> error option" where
  "start cf now c L S =
     (case refresh_initial cf now c L S of
        ((L1, S1), Some e) \<Rightarrow> ((L1, S1), Some e)
      | ((L1, S1), None) \<Rightarrow>
          ((L1, expire_dirty (mono_later c)
                  (fold (schedule_pool cf c) (map mp_pool_id (sc_pools S1)) S1)), None))"

text \<open>\<open>close\<close>: gives up the pools that no direct or legacy permit still uses.\<close>

definition close_owned :: "ledger \<Rightarrow> sched \<Rightarrow> ledger" where
  "close_owned L S = L\<lparr>t_owners := filter (\<lambda>w.
     \<not> (own_boot w = sc_boot S \<and>
        (\<exists>p \<in> set (sc_pools S). own_id w = pool_owner (mp_pool_id p) \<and>
           \<not> (\<exists>m \<in> set (held_permits S). pm_pool_id m = mp_pool_id p \<and> pm_kind m \<noteq> Durable))))
     (t_owners L)\<rparr>"

section \<open>Probes\<close>

text \<open>An answer of an engine: nothing (an HTTP error), or a status and the decoded body.\<close>

type_synonym answer = "(int \<times> json option) option"

definition slot_idle :: "json \<Rightarrow> bool" where
  "slot_idle j \<longleftrightarrow> is_dict j \<and> jget ''is_processing'' j = JBool False"

definition slots_idle :: "answer \<Rightarrow> bool" where
  "slots_idle ans =
     (case ans of
        Some (status, Some (JList slots)) \<Rightarrow> status = 200 \<and> slots \<noteq> [] \<and> list_all slot_idle slots
      | _ \<Rightarrow> False)"

definition probe_slot :: "int \<Rightarrow> bool \<Rightarrow> string \<Rightarrow> sched \<Rightarrow> sched" where
  "probe_slot now idle pid S =
     (let n = (if idle then sc_slot_idle S pid + 1 else 0);
          S1 = S\<lparr>sc_slot_idle := (sc_slot_idle S)(pid := n)\<rparr>
      in if n \<ge> 2
         then notify (S1\<lparr>sc_ready := (sc_ready S1)(pid := Some now),
                         sc_dirty := filter (\<lambda>k. k \<noteq> pid) (sc_dirty S1)\<rparr>)
         else S1)"

text \<open>
  \<open>_terminated\<close>: the proof key and the candidates proven not to be computing. \<open>slots\<close> and
  \<open>registry\<close> are the answers of the two kinds of probe, nothing where none is configured.
\<close>

definition registry_of :: "json \<Rightarrow> (string \<times> string set) option" where
  "registry_of body =
     (if is_dict body
      then (case (jget ''boot_id'' body, jget ''inflight'' body) of
              (JString boot, JList items) \<Rightarrow>
                (if list_all (\<lambda>i. as_string i \<noteq> None) items
                 then Some (boot, set (List.map_filter as_string items)) else None)
            | _ \<Rightarrow> None)
      else None)"

definition terminated ::
    "answer option \<Rightarrow> answer option \<Rightarrow> mpool \<Rightarrow> string set \<Rightarrow> (string \<times> string set) option" where
  "terminated slots registry p lost =
     (if pool_kind (mp_spec p) = Llm
      then (case slots of
              None \<Rightarrow> None
            | Some ans \<Rightarrow> if slots_idle ans then Some (''slots'', lost) else None)
      else (case registry of
              Some (Some (status, Some body)) \<Rightarrow>
                (if status = 200
                 then map_option (\<lambda>(boot, inflight). (boot, lost - inflight)) (registry_of body)
                 else None)
            | _ \<Rightarrow> None))"

section \<open>Settling lost attempts\<close>

definition unknown_in :: "sched \<Rightarrow> string \<Rightarrow> string set" where
  "unknown_in S pid = pm_attempt_id ` set (filter (\<lambda>p. pm_pool_id p = pid \<and> pm_state p = UNKNOWN) (held_permits S))"

definition forget_streaks :: "sched \<Rightarrow> sched" where
  "forget_streaks S = S\<lparr>sc_unknown_idle :=
     (\<lambda>pid. if unknown_in S pid = {} then None else sc_unknown_idle S pid)\<rparr>"

definition extend_streak :: "mpool \<Rightarrow> int \<Rightarrow> string \<Rightarrow> string set \<Rightarrow> streak option \<Rightarrow> streak" where
  "extend_streak p started key proven previous =
     (let fresh = \<lparr>sk_epoch = mp_epoch p, sk_key = key, sk_since = started, sk_probes = 0, sk_attempts = proven\<rparr> in
      case previous of
        None \<Rightarrow> fresh
      | Some sk \<Rightarrow>
          (if sk_epoch sk = mp_epoch p \<and> sk_key sk = key
           then sk\<lparr>sk_attempts := sk_attempts sk \<inter> proven\<rparr> else fresh))"

definition set_streak :: "string \<Rightarrow> streak option \<Rightarrow> sched \<Rightarrow> sched" where
  "set_streak pid sk S = S\<lparr>sc_unknown_idle := (sc_unknown_idle S)(pid := sk)\<rparr>"

definition idle_settled :: "string \<Rightarrow> streak \<Rightarrow> permit \<Rightarrow> bool" where
  "idle_settled pid sk p \<longleftrightarrow> pm_held p \<and> pm_pool_id p = pid \<and> pm_attempt_id p \<in> sk_attempts sk \<and>
     pm_state p = UNKNOWN \<and> pm_kind p = Direct \<and> pm_epoch p = sk_epoch sk \<and>
     (case pm_unknown_at p of None \<Rightarrow> False | Some t \<Rightarrow> t < sk_since sk)"

definition settle_idle_direct :: "string \<Rightarrow> streak \<Rightarrow> sched \<Rightarrow> sched" where
  "settle_idle_direct pid sk S = S\<lparr>sc_permits := filter (\<lambda>p. pm_held p \<or> pm_listed p)
     (update_rows (idle_settled pid sk)
        (\<lambda>p. p\<lparr>pm_state := FAILED_RECOVERABLE, pm_idle_verified := True, pm_held := False\<rparr>) (sc_permits S))\<rparr>"

definition idle_durable :: "string \<Rightarrow> streak \<Rightarrow> sched \<Rightarrow> string list" where
  "idle_durable pid sk S = map pm_attempt_id (filter (\<lambda>p. pm_pool_id p = pid
     \<and> pm_attempt_id p \<in> sk_attempts sk \<and> pm_state p = UNKNOWN \<and> pm_kind p \<noteq> Direct) (held_permits S))"

text \<open>The part of \<open>_settle_idle_unknown\<close> for one pool, once its probe has answered.\<close>

definition settle_idle_pool ::
    "clocks \<Rightarrow> string \<Rightarrow> int \<Rightarrow> (string \<times> string set) option \<Rightarrow> ledger \<Rightarrow> sched
      \<Rightarrow> (ledger \<times> sched) \<times> error option" where
  "settle_idle_pool c pid started answer L S =
     (case (find_mpool S pid, answer) of
        (None, _) \<Rightarrow> ((L, S), None)
      | (Some p, None) \<Rightarrow> ((L, set_streak pid None S), None)
      | (Some p, Some (key, proven)) \<Rightarrow>
          (let sk = extend_streak p started key proven (sc_unknown_idle S pid) in
           if proven = {} \<or> sk_attempts sk = {} then ((L, set_streak pid None S), None)
           else if sk_probes sk + 1 < 2
           then ((L, set_streak pid (Some (sk\<lparr>sk_probes := sk_probes sk + 1\<rparr>)) S), None)
           else
             (let n = count_rows (idle_settled pid sk) (sc_permits S);
                  durable = idle_durable pid sk S;
                  S1 = settle_idle_direct pid sk (set_streak pid None S) in
              if durable = [] then ((L, if n \<noteq> 0 then notify S1 else S1), None)
              else case settle_idle_unknown c pid (sk_epoch sk) (sk_since sk) durable L of
                  Inl e \<Rightarrow> ((L, S1), Some e)
                | Inr (L1, m) \<Rightarrow> ((L1, if n + m \<noteq> 0 then notify S1 else S1), None))))"

section \<open>Reconciling and expiring\<close>

definition durable_ids :: "sched \<Rightarrow> string list" where
  "durable_ids S = map pm_attempt_id (filter (\<lambda>p. pm_kind p \<noteq> Direct) (held_permits S))"

definition live_states :: "ledger \<Rightarrow> string \<Rightarrow> attempt_state option" where
  "live_states L k =
     (case lookup_row dir_attempt_id k (filter dir_compute_held (t_direct L)) of
        Some d \<Rightarrow> Some (dir_state d)
      | None \<Rightarrow> map_option att_state
          (lookup_row att_id k (filter (\<lambda>a. att_compute_held a \<or> att_state a = RESERVED) (t_attempts L))))"

text \<open>
  \<open>active\<close> was listed before the ledger was read; a permit released in between is a
  \<open>KeyError\<close> when its attempt is still live.
\<close>

fun reconcile_permits ::
    "(string \<Rightarrow> attempt_state option) \<Rightarrow> string list \<Rightarrow> sched \<Rightarrow> sched \<times> error option" where
  "reconcile_permits live [] S = (S, None)"
| "reconcile_permits live (k # ks) S =
     (case live k of
        Some st \<Rightarrow>
          (if find_permit S k = None then (S, Some (KeyError k))
           else reconcile_permits live ks (set_permit k (\<lambda>p. p\<lparr>pm_state := st\<rparr>) S))
      | None \<Rightarrow> reconcile_permits live ks (notify (release k S)))"

definition reconcile_durable :: "ledger \<Rightarrow> string list \<Rightarrow> sched \<Rightarrow> sched \<times> error option" where
  "reconcile_durable L active S =
     (if active = [] then (S, None) else reconcile_permits (live_states L) active S)"

definition expired_identities :: "int \<Rightarrow> sched \<Rightarrow> string list" where
  "expired_identities now S = map idr_identity (filter (\<lambda>r. idr_expires r \<le> now
     \<and> find_waiter S (idr_identity r) = None) (sc_identities S))"

definition expire_requests :: "int \<Rightarrow> sched \<Rightarrow> sched" where
  "expire_requests now S =
     (let gone = set (expired_identities now S);
          S1 = S\<lparr>sc_identities := filter (\<lambda>r. idr_identity r \<notin> gone) (sc_identities S),
                 sc_permits := filter (\<lambda>p. pm_held p \<or>
                   (case pm_reservation p of None \<Rightarrow> True
                    | Some r \<Rightarrow> dq_request_id (dr_request r) \<notin> gone)) (sc_permits S)\<rparr>
      in fold remove_waiter (map wt_identity (filter (\<lambda>w. wt_deadline w \<le> now) (sc_waiters S1))) S1)"

section \<open>Metrics\<close>

definition queued_metric :: "sched \<Rightarrow> string \<Rightarrow> workload_class \<Rightarrow> int" where
  "queued_metric S pid cls =
     count_rows (\<lambda>w. wt_kind w = Direct \<and> wt_pool_id w = pid \<and> wt_class w = cls) (sc_waiters S)"

definition held_metric :: "sched \<Rightarrow> string \<Rightarrow> workload_class \<Rightarrow> int" where
  "held_metric S pid cls =
     count_rows (\<lambda>p. pm_kind p = Direct \<and> pm_pool_id p = pid \<and> pm_class p = cls) (held_permits S)"

definition unknown_oldest :: "int \<Rightarrow> sched \<Rightarrow> string \<Rightarrow> int" where
  "unknown_oldest now S pid =
     fold (\<lambda>p m. case pm_unknown_at p of
             Some t \<Rightarrow> (if pm_kind p = Direct \<and> pm_state p = UNKNOWN \<and> pm_pool_id p = pid
                       then max m (now - t) else m)
           | None \<Rightarrow> m) (held_permits S) 0"

definition dirty_blocked :: "int \<Rightarrow> sched \<Rightarrow> sched \<times> (string \<times> bool) list" where
  "dirty_blocked now S =
     (let S1 = expire_dirty now S in
      (S1, map (\<lambda>p. (mp_pool_id p, mp_pool_id p \<in> set (sc_dirty S1))) (sc_pools S1)))"

end
