(* ===== verification/Scheduler_Queue.thy ===== *)
theory Scheduler_Queue
  imports Scheduler_Upkeep
begin

text \<open>
  The waiting state of the scheduler: its counters agree with its waiters, every waiter has an
  entry in the queue of its pool, and \<open>first\<close> finds the smallest entry of a live waiter.
  The heap is used through the interface \<open>priority_queue\<close>, interpreted on \<open>heappush\<close>.
\<close>

section \<open>A priority queue\<close>

locale priority_queue =
  fixes push :: "'e::linorder \<Rightarrow> 'e list \<Rightarrow> 'e list"
    and valid :: "'e list \<Rightarrow> bool"
  assumes valid_empty: "valid []"
    and valid_push: "valid q \<Longrightarrow> valid (push e q)"
    and set_push: "set (push e q) = insert e (set q)"
    and valid_pop: "valid (x # q) \<Longrightarrow> valid q"
    and head_least: "valid (x # q) \<Longrightarrow> y \<in> set q \<Longrightarrow> x \<le> y"
begin

text \<open>Dropping entries from the front until one qualifies leaves the least one that does.\<close>

lemma find_least:
  assumes "valid q" and "find p q = Some e" and "y \<in> set q" and "p y"
  shows "e \<le> y"
  using assms
proof (induction q)
  case (Cons x q)
  show ?case
  proof (cases "p x")
    case True
    with Cons.prems show ?thesis using head_least by auto
  next
    case False
    with Cons show ?thesis using valid_pop by auto
  qed
qed simp

lemma find_qualified:
  "valid q \<Longrightarrow> y \<in> set q \<Longrightarrow> p y \<Longrightarrow> \<exists>e. find p q = Some e \<and> p e \<and> e \<in> set q"
proof (induction q)
  case (Cons x q)
  then show ?case using valid_pop [of x q] by (cases "p x") auto
qed simp

end

lemma set_heappush: "set (heappush e q) = insert e (set q)"
  by (induction q) auto

lemma sorted_heappush: "sorted q \<Longrightarrow> sorted (heappush e q)"
proof (induction q)
  case (Cons x q)
  then have "\<forall>y \<in> set q. x \<le> y" by simp
  then have "e \<le> x \<Longrightarrow> \<forall>y \<in> set q. e \<le> y" using order_trans by blast
  with Cons show ?case by (auto simp: set_heappush)
qed simp

interpretation heap: priority_queue heappush sorted
  by unfold_locales (auto simp: set_heappush sorted_heappush)

section \<open>The waiting invariant\<close>

definition counts_ok :: "sched \<Rightarrow> bool" where
  "counts_ok S \<longleftrightarrow>
     (\<forall>pid. sc_queue_counts S pid =
        count_rows (\<lambda>w. wt_kind w = Direct \<and> wt_pool_id w = pid) (sc_waiters S)) \<and>
     (\<forall>pid t. sc_tenant_counts S (pid, t) =
        count_rows (\<lambda>w. wt_kind w = Direct \<and> wt_pool_id w = pid \<and> wt_tenant_id w = t) (sc_waiters S))"

definition queues_ok :: "sched \<Rightarrow> bool" where
  "queues_ok S \<longleftrightarrow>
     (\<forall>pid. sorted (sc_queues S pid)) \<and>
     (\<forall>w \<in> set (sc_waiters S). entry_of w \<in> set (sc_queues S (wt_pool_id w)))"

definition waiting_ok :: "sched \<Rightarrow> bool" where
  "waiting_ok S \<longleftrightarrow> distinct (map wt_identity (sc_waiters S)) \<and> counts_ok S \<and> queues_ok S"

lemma waiting_okI:
  assumes "distinct (map wt_identity (sc_waiters S))" and "counts_ok S" and "queues_ok S"
  shows "waiting_ok S"
  using assms by (simp add: waiting_ok_def)

lemma waiting_frame:
  assumes "waiting_ok S" and "sc_waiters T = sc_waiters S" and "sc_queues T = sc_queues S"
    and "sc_queue_counts T = sc_queue_counts S" and "sc_tenant_counts T = sc_tenant_counts S"
  shows "waiting_ok T"
  using assms by (simp add: waiting_ok_def counts_ok_def queues_ok_def)

text \<open>What the queue operations leave alone.\<close>

lemma notify_frame [simp]:
  "sc_waiters (notify S) = sc_waiters S" "sc_queues (notify S) = sc_queues S"
  "sc_queue_counts (notify S) = sc_queue_counts S" "sc_tenant_counts (notify S) = sc_tenant_counts S"
  "sc_permits (notify S) = sc_permits S" "sc_pools (notify S) = sc_pools S"
  "sc_identities (notify S) = sc_identities S" "sc_dirty (notify S) = sc_dirty S"
  "sc_unknown_idle (notify S) = sc_unknown_idle S" "sc_ready (notify S) = sc_ready S"
  "sc_control_ready (notify S) = sc_control_ready S"
  by (simp_all add: notify_def)

lemma count_waiter_frame [simp]:
  "sc_waiters (count_waiter n w S) = sc_waiters S" "sc_queues (count_waiter n w S) = sc_queues S"
  "sc_permits (count_waiter n w S) = sc_permits S" "sc_pools (count_waiter n w S) = sc_pools S"
  "sc_identities (count_waiter n w S) = sc_identities S" "sc_dirty (count_waiter n w S) = sc_dirty S"
  "sc_unknown_idle (count_waiter n w S) = sc_unknown_idle S" "sc_ready (count_waiter n w S) = sc_ready S"
  "sc_control_ready (count_waiter n w S) = sc_control_ready S"
  by (simp_all add: count_waiter_def)

lemma remove_waiter_frame [simp]:
  "sc_queues (remove_waiter k S) = sc_queues S"
  "sc_permits (remove_waiter k S) = sc_permits S" "sc_pools (remove_waiter k S) = sc_pools S"
  "sc_identities (remove_waiter k S) = sc_identities S" "sc_dirty (remove_waiter k S) = sc_dirty S"
  "sc_unknown_idle (remove_waiter k S) = sc_unknown_idle S" "sc_ready (remove_waiter k S) = sc_ready S"
  "sc_control_ready (remove_waiter k S) = sc_control_ready S"
  by (simp_all add: remove_waiter_def split: option.splits)

lemma remove_waiter_waiters [simp]:
  "sc_waiters (remove_waiter k S) = remove_row wt_identity k (sc_waiters S)"
  by (simp add: remove_waiter_def remove_row_absent split: option.splits)

lemma find_removed [simp]:
  "find_waiter (remove_waiter k S) j = (if j = k then None else find_waiter S j)"
  by (simp add: row_simps)

lemma set_queue_frame [simp]:
  "sc_waiters (set_queue pid q S) = sc_waiters S" "sc_permits (set_queue pid q S) = sc_permits S"
  "sc_pools (set_queue pid q S) = sc_pools S" "sc_identities (set_queue pid q S) = sc_identities S"
  "sc_dirty (set_queue pid q S) = sc_dirty S" "sc_queues (set_queue pid q S) pid = q"
  "sc_queue_counts (set_queue pid q S) = sc_queue_counts S"
  "sc_tenant_counts (set_queue pid q S) = sc_tenant_counts S"
  "sc_unknown_idle (set_queue pid q S) = sc_unknown_idle S" "sc_ready (set_queue pid q S) = sc_ready S"
  "sc_control_ready (set_queue pid q S) = sc_control_ready S"
  by (simp_all add: set_queue_def)

lemma set_queue_twice [simp]: "set_queue pid q (set_queue pid r S) = set_queue pid q S"
  by (simp add: set_queue_def)

lemma set_queue_same [simp]: "set_queue pid (sc_queues S pid) S = S"
  by (simp add: set_queue_def)

lemma remove_set_queue: "remove_waiter k (set_queue pid q S) = set_queue pid q (remove_waiter k S)"
  by (simp add: remove_waiter_def set_queue_def notify_def count_waiter_def split: option.splits)

section \<open>Adding and removing\<close>

lemma counts_add:
  assumes "counts_ok S" and "find_waiter S (wt_identity w) = None"
  shows "counts_ok (add_waiter w S)"
  using assms remove_row_absent [OF assms(2)]
  by (auto simp: counts_ok_def add_waiter_def notify_def count_waiter_def)

lemma counts_remove:
  assumes "counts_ok S" and "distinct (map wt_identity (sc_waiters S))"
  shows "counts_ok (remove_waiter k S)"
proof (cases "find_waiter S k")
  case None
  then show ?thesis using assms by (simp add: remove_waiter_def)
next
  case (Some w)
  note c = count_remove_row [OF assms(2) Some]
  show ?thesis
    using assms(1) Some by (auto simp: counts_ok_def remove_waiter_def notify_def count_waiter_def c)
qed

lemma waiting_add:
  assumes "waiting_ok S" and "find_waiter S (wt_identity w) = None"
  shows "waiting_ok (add_waiter w S)"
proof (rule waiting_okI)
  show "counts_ok (add_waiter w S)" using assms by (intro counts_add) (auto simp: waiting_ok_def)
  have ws: "sc_waiters (add_waiter w S) = sc_waiters S @ [w]"
    using remove_row_absent [OF assms(2)] by (simp add: add_waiter_def notify_def count_waiter_def)
  show "distinct (map wt_identity (sc_waiters (add_waiter w S)))"
    unfolding ws using assms by (auto simp: waiting_ok_def lookup_row_None_iff)
  have qs: "sc_queues (add_waiter w S) =
      (sc_queues S)(wt_pool_id w := heappush (entry_of w) (sc_queues S (wt_pool_id w)))"
    by (simp add: add_waiter_def notify_def count_waiter_def)
  show "queues_ok (add_waiter w S)"
    using assms(1) by (auto simp: queues_ok_def waiting_ok_def ws qs set_heappush intro: sorted_heappush)
qed

lemma waiting_remove:
  assumes "waiting_ok S"
  shows "waiting_ok (remove_waiter k S)"
  using assms counts_remove
  by (intro waiting_okI) (auto simp: waiting_ok_def queues_ok_def)

section \<open>The first live waiter\<close>

text \<open>An entry is live when its waiter still waits in this pool, with time left.\<close>

definition live_entry :: "int \<Rightarrow> string \<Rightarrow> sched \<Rightarrow> entry \<Rightarrow> bool" where
  "live_entry now pid S e =
     (case find_waiter S (snd (snd e)) of
        None \<Rightarrow> False
      | Some w \<Rightarrow> wt_pool_id w = pid \<and> wt_queued_at w = fst (snd e) \<and> now < wt_deadline w)"

lemma live_entry_removed:
  assumes "find_waiter S k = Some w" and "wt_deadline w \<le> now"
  shows "live_entry now pid (remove_waiter k S) = live_entry now pid S"
  using assms by (auto simp: live_entry_def fun_eq_iff row_simps split: option.splits)

lemma scan_first_result:
  "scan_first now pid q S = (T, r) \<Longrightarrow>
   r = (case find (live_entry now pid S) q of None \<Rightarrow> None | Some e \<Rightarrow> find_waiter S (snd (snd e)))"
proof (induction q arbitrary: S T)
  case (Cons x q)
  obtain rank at k where x: "x = (rank, at, k)" by (cases x)
  show ?case
  proof (cases "find_waiter S k")
    case None
    with Cons x show ?thesis by (auto simp: live_entry_def)
  next
    case (Some w)
    consider (stale) "\<not> (wt_pool_id w = pid \<and> wt_queued_at w = at)"
      | (expired) "wt_pool_id w = pid" "wt_queued_at w = at" "wt_deadline w \<le> now"
      | (live) "wt_pool_id w = pid" "wt_queued_at w = at" "now < wt_deadline w" by force
    then show ?thesis
    proof cases
      case stale
      then show ?thesis using Cons Some x by (auto simp: live_entry_def)
    next
      case expired
      then have dead: "\<not> live_entry now pid S x" using Some x by (simp add: live_entry_def)
      have "scan_first now pid q (remove_waiter k S) = (T, r)" using Cons.prems Some expired x by simp
      from Cons.IH [OF this] have r: "r = (case find (live_entry now pid S) q of None \<Rightarrow> None
          | Some e \<Rightarrow> find_waiter (remove_waiter k S) (snd (snd e)))"
        unfolding live_entry_removed [OF Some expired(3)] .
      have "find (live_entry now pid S) q = Some e \<Longrightarrow> snd (snd e) \<noteq> k" for e
        using Some expired by (auto simp: find_Some_iff live_entry_def)
      then show ?thesis using r dead by (auto simp: lookup_remove_row split: option.splits)
    next
      case live
      then have "live_entry now pid S x" using Some x by (simp add: live_entry_def)
      moreover have "r = Some w" using Cons.prems live Some x by auto
      ultimately show ?thesis using Some x by simp
    qed
  qed
qed simp

lemma scan_first_frame:
  "scan_first now pid q S = (T, r) \<Longrightarrow>
   sc_permits T = sc_permits S \<and> sc_pools T = sc_pools S \<and> sc_identities T = sc_identities S \<and>
   sc_dirty T = sc_dirty S \<and> sc_unknown_idle T = sc_unknown_idle S \<and> sc_ready T = sc_ready S"
proof (induction q arbitrary: S T)
  case (Cons x q)
  obtain rank at k where "x = (rank, at, k)" by (cases x)
  with Cons show ?case by (auto split: option.splits if_splits)
qed auto

text \<open>Only expired waiters of the pool go.\<close>

lemma scan_first_waiters:
  "scan_first now pid q S = (T, r) \<Longrightarrow>
   find_waiter T k = find_waiter S k \<or>
   (find_waiter T k = None \<and> (\<exists>w. find_waiter S k = Some w \<and> wt_pool_id w = pid \<and> wt_deadline w \<le> now))"
proof (induction q arbitrary: S T)
  case (Cons x q)
  obtain rank at j where x: "x = (rank, at, j)" by (cases x)
  show ?case
  proof (cases "find_waiter S j")
    case None
    with Cons x show ?thesis by simp
  next
    case (Some w)
    show ?thesis
    proof (cases "wt_pool_id w = pid \<and> wt_queued_at w = at \<and> wt_deadline w \<le> now")
      case True
      then have "scan_first now pid q (remove_waiter j S) = (T, r)" using Cons.prems Some x by simp
      from Cons.IH [OF this] show ?thesis using Some True by (auto simp: lookup_remove_row split: if_splits)
    next
      case False
      then show ?thesis using Cons Some x by (auto split: if_splits)
    qed
  qed
qed auto

lemma waiting_drop:
  assumes "waiting_ok (set_queue pid (e # q) S)"
    and "\<And>w. find_waiter S (snd (snd e)) = Some w \<Longrightarrow> \<not> (wt_pool_id w = pid \<and> wt_queued_at w = fst (snd e))"
  shows "waiting_ok (set_queue pid q S)"
proof (rule waiting_okI)
  have ok: "distinct (map wt_identity (sc_waiters S))" "counts_ok (set_queue pid (e # q) S)"
    "queues_ok (set_queue pid (e # q) S)" using assms(1) by (simp_all add: waiting_ok_def)
  show "distinct (map wt_identity (sc_waiters (set_queue pid q S)))" using ok by simp
  show "counts_ok (set_queue pid q S)" using ok(2) by (simp add: counts_ok_def)
  have other: "entry_of w \<noteq> e" if "w \<in> set (sc_waiters S)" "wt_pool_id w = pid" for w
    using assms(2) [of w] that lookup_row_iff [OF ok(1), of "wt_identity w" w] by (auto simp: entry_of_def)
  show "queues_ok (set_queue pid q S)" unfolding queues_ok_def
  proof (intro conjI allI ballI)
    fix k show "sorted (sc_queues (set_queue pid q S) k)"
      using ok(3) by (auto simp: queues_ok_def set_queue_def split: if_splits)
  next
    fix w assume w: "w \<in> set (sc_waiters (set_queue pid q S))"
    then have "entry_of w \<in> set (sc_queues (set_queue pid (e # q) S) (wt_pool_id w))"
      using ok(3) by (simp add: queues_ok_def)
    then show "entry_of w \<in> set (sc_queues (set_queue pid q S) (wt_pool_id w))"
      using other [of w] w by (auto simp: set_queue_def split: if_splits)
  qed
qed

lemma waiting_scan_first:
  "scan_first now pid q S = (T, r) \<Longrightarrow> waiting_ok (set_queue pid q S) \<Longrightarrow> waiting_ok T"
proof (induction q arbitrary: S T)
  case (Cons x q)
  obtain rank at k where x: "x = (rank, at, k)" by (cases x)
  show ?case
  proof (cases "find_waiter S k")
    case None
    with Cons.prems(2) x have "waiting_ok (set_queue pid q S)" by (intro waiting_drop [of pid x q S]) auto
    with None Cons.IH Cons.prems(1) x show ?thesis by simp
  next
    case (Some w)
    consider (stale) "\<not> (wt_pool_id w = pid \<and> wt_queued_at w = at)"
      | (expired) "wt_pool_id w = pid" "wt_queued_at w = at" "wt_deadline w \<le> now"
      | (live) "wt_pool_id w = pid" "wt_queued_at w = at" "now < wt_deadline w" by force
    then show ?thesis
    proof cases
      case stale
      with Cons.prems(2) Some x have "waiting_ok (set_queue pid q S)"
        by (intro waiting_drop [of pid x q S]) auto
      then show ?thesis using stale Some Cons.IH Cons.prems(1) x by auto
    next
      case expired
      have "waiting_ok (set_queue pid (x # q) (remove_waiter k S))"
        using waiting_remove [OF Cons.prems(2)] by (simp add: remove_set_queue)
      then have "waiting_ok (set_queue pid q (remove_waiter k S))"
        using x by (intro waiting_drop [of pid x q]) (auto simp: lookup_remove_row)
      then show ?thesis using expired Some Cons.IH Cons.prems(1) x by simp
    next
      case live
      then show ?thesis using Cons.prems Some x by auto
    qed
  qed
qed auto

lemma first_frame:
  "first now pid S = (T, r) \<Longrightarrow>
   sc_permits T = sc_permits S \<and> sc_pools T = sc_pools S \<and> sc_identities T = sc_identities S \<and>
   sc_dirty T = sc_dirty S \<and> sc_unknown_idle T = sc_unknown_idle S \<and> sc_ready T = sc_ready S"
  unfolding first_def by (rule scan_first_frame)

lemma waiting_first: "first now pid S = (T, r) \<Longrightarrow> waiting_ok S \<Longrightarrow> waiting_ok T"
  unfolding first_def by (erule waiting_scan_first) simp

text \<open>
  A queue tells the truth when an entry that matches a waiter by identity and time carries its
  rank. Only a stale entry of an earlier request with the same identity and the same clock
  reading could lie.
\<close>

definition truthful :: "string \<Rightarrow> sched \<Rightarrow> bool" where
  "truthful pid S \<longleftrightarrow> (\<forall>e \<in> set (sc_queues S pid).
     case find_waiter S (snd (snd e)) of
       None \<Rightarrow> True
     | Some w \<Rightarrow> wt_pool_id w = pid \<and> wt_queued_at w = fst (snd e) \<longrightarrow> e = entry_of w)"

lemma first_least:
  assumes "first now pid S = (T, Some w)" and "waiting_ok S" and "truthful pid S"
  shows "w \<in> set (sc_waiters S)" and "wt_pool_id w = pid" and "now < wt_deadline w"
    and "\<forall>v \<in> set (sc_waiters S). wt_pool_id v = pid \<and> now < wt_deadline v \<longrightarrow> entry_of w \<le> entry_of v"
proof -
  from scan_first_result [OF assms(1) [unfolded first_def]]
  obtain e where e: "find (live_entry now pid S) (sc_queues S pid) = Some e"
    and w: "find_waiter S (snd (snd e)) = Some w" by (auto split: option.splits)
  have le: "live_entry now pid S e" "e \<in> set (sc_queues S pid)"
    using e unfolding find_Some_iff by auto
  show "w \<in> set (sc_waiters S)" using w by (rule lookup_row_Some_in)
  show "wt_pool_id w = pid" "now < wt_deadline w" using le w by (auto simp: live_entry_def)
  have ew: "e = entry_of w" using assms(3) le w by (auto simp: truthful_def live_entry_def)
  have s: "sorted (sc_queues S pid)" using assms(2) by (simp add: waiting_ok_def queues_ok_def)
  show "\<forall>v \<in> set (sc_waiters S). wt_pool_id v = pid \<and> now < wt_deadline v \<longrightarrow> entry_of w \<le> entry_of v"
  proof (intro ballI impI)
    fix v assume v: "v \<in> set (sc_waiters S)" "wt_pool_id v = pid \<and> now < wt_deadline v"
    have "entry_of v \<in> set (sc_queues S pid)" using assms(2) v by (auto simp: waiting_ok_def queues_ok_def)
    moreover have "live_entry now pid S (entry_of v)"
      using assms(2) v lookup_row_iff [of wt_identity "sc_waiters S" "wt_identity v" v]
      by (auto simp: live_entry_def entry_of_def waiting_ok_def)
    ultimately show "entry_of w \<le> entry_of v" using heap.find_least [OF s e] ew by blast
  qed
qed

text \<open>And it is found whenever it exists.\<close>

lemma first_found:
  assumes "first now pid S = (T, r)" and "waiting_ok S" and "truthful pid S"
    and "w \<in> set (sc_waiters S)" and "wt_pool_id w = pid" and "now < wt_deadline w"
    and "\<forall>v \<in> set (sc_waiters S). wt_pool_id v = pid \<and> now < wt_deadline v \<longrightarrow> entry_of w \<le> entry_of v"
  shows "r = Some w"
proof -
  have in_queue: "entry_of w \<in> set (sc_queues S pid)" using assms(2,4,5) by (auto simp: waiting_ok_def queues_ok_def)
  have k: "find_waiter S (wt_identity w) = Some w"
    using assms(2,4) lookup_row_iff [of wt_identity "sc_waiters S"] by (auto simp: waiting_ok_def)
  have live: "live_entry now pid S (entry_of w)"
    using k assms(5,6) by (auto simp: live_entry_def entry_of_def)
  have s: "sorted (sc_queues S pid)" using assms(2) by (simp add: waiting_ok_def queues_ok_def)
  from heap.find_qualified [OF s in_queue, of "live_entry now pid S"] live obtain e where
    e: "find (live_entry now pid S) (sc_queues S pid) = Some e" "live_entry now pid S e"
      "e \<in> set (sc_queues S pid)" by blast
  from e(2) obtain v where v: "find_waiter S (snd (snd e)) = Some v" "wt_pool_id v = pid"
    "wt_queued_at v = fst (snd e)" "now < wt_deadline v" by (auto simp: live_entry_def split: option.splits)
  have ev: "e = entry_of v" using assms(3) e(3) v by (auto simp: truthful_def)
  have "entry_of w \<le> entry_of v" using assms(7) v lookup_row_Some_in [OF v(1)] by blast
  moreover have "entry_of v \<le> entry_of w" using heap.find_least [OF s e(1) in_queue live] ev by simp
  ultimately have "entry_of v = entry_of w" by simp
  then have "wt_identity v = wt_identity w" by (simp add: entry_of_def)
  moreover have "snd (snd e) = wt_identity v" unfolding ev by (simp add: entry_of_def)
  ultimately have "Some v = Some w" using k v(1) by metis
  then show ?thesis using scan_first_result [OF assms(1) [unfolded first_def]]
    unfolding e(1) option.case(2) v(1) by simp
qed

end
