(* ===== verification/Transitions.thy ===== *)
theory Transitions
  imports Main
begin

text \<open>
  Transition systems with an invariant, shared by the components that are state machines: the
  reachable states satisfy the invariant, and a relation that every step respects holds
  between the two ends of every run.
\<close>

locale invariant_system =
  fixes initial :: "'s \<Rightarrow> bool"
    and step :: "'s \<Rightarrow> 's \<Rightarrow> bool"
    and inv :: "'s \<Rightarrow> bool"
  assumes initial_inv: "initial s \<Longrightarrow> inv s"
    and step_inv: "inv s \<Longrightarrow> step s t \<Longrightarrow> inv t"
begin

lemma run_inv: "step\<^sup>*\<^sup>* s t \<Longrightarrow> inv s \<Longrightarrow> inv t"
  by (induction rule: rtranclp_induct) (auto intro: step_inv)

lemma reachable_inv: "initial s \<Longrightarrow> step\<^sup>*\<^sup>* s t \<Longrightarrow> inv t"
  by (rule run_inv) (auto intro: initial_inv)

lemma run_relation:
  assumes "step\<^sup>*\<^sup>* s t" and "inv s"
    and "\<And>u. inv u \<Longrightarrow> r u u"
    and "\<And>u v. inv u \<Longrightarrow> step u v \<Longrightarrow> r u v"
    and "\<And>u v w. r u v \<Longrightarrow> r v w \<Longrightarrow> r u w"
  shows "r s t"
  using assms(1)
proof (induction rule: rtranclp_induct)
  case base
  show ?case using assms(2,3) by blast
next
  case (step u v)
  have "inv u" using step.hyps(1) assms(2) by (rule run_inv)
  with step assms(4,5) show ?case by blast
qed

end

end
