(* ===== verification/Scheduler_Machine.thy ===== *)
theory Scheduler_Machine
  imports Scheduler_Queue Transitions
begin

text \<open>
  The scheduler as a state machine: \<open>sched_step\<close> has one rule per turn of the event loop,
  \<open>sched_ok\<close> is its invariant. Freshness of identifiers (\<open>uuid4\<close>) is a premise of the rules
  that create or look for an attempt.
\<close>

section \<open>The permit invariant\<close>

definition permit_ok :: "permit \<Rightarrow> bool" where
  "permit_ok p \<longleftrightarrow>
     (if pm_kind p = Direct
      then pm_listed p \<and>
        (case pm_reservation p of
           None \<Rightarrow> False
         | Some r \<Rightarrow> dr_attempt_id r = pm_attempt_id p \<and> dr_pool_id r = pm_pool_id p \<and>
             dr_owner_id r = pm_owner_id p \<and> dr_engine_epoch r = pm_epoch p \<and>
             0 \<le> dr_generation r \<and> dr_generation r \<le> 2) \<and>
        (if pm_held p then pm_state p \<in> {RESERVED, SEND_INTENT, UNKNOWN}
         else pm_state p \<in> {FINISHED, FAILED_NOT_SENT, FAILED_RECOVERABLE}) \<and>
        (pm_state p = UNKNOWN \<longrightarrow> pm_unknown_at p \<noteq> None) \<and>
        (pm_idle_verified p \<longrightarrow> pm_state p = FAILED_RECOVERABLE)
      else pm_held p \<and> \<not> pm_listed p \<and> pm_reservation p = None)"

definition permits_ok :: "sched \<Rightarrow> bool" where
  "permits_ok S \<longleftrightarrow> distinct (map pm_attempt_id (sc_permits S)) \<and> (\<forall>p \<in> set (sc_permits S). permit_ok p)"

definition pools_ok :: "sched \<Rightarrow> bool" where
  "pools_ok S \<longleftrightarrow> distinct (map mp_pool_id (sc_pools S)) \<and>
     (\<forall>p \<in> set (sc_pools S). mp_pool_id p = ps_pool_id (mp_spec p))"

text \<open>The request of a direct waiter is known, so no second caller can take its place.\<close>

definition known_ok :: "sched \<Rightarrow> bool" where
  "known_ok S \<longleftrightarrow> (\<forall>w \<in> set (sc_waiters S). wt_kind w = Direct \<longrightarrow>
     wt_identity w \<in> idr_identity ` set (sc_identities S))"

definition sched_ok :: "sched \<Rightarrow> bool" where
  "sched_ok S \<longleftrightarrow> waiting_ok S \<and> known_ok S \<and> permits_ok S \<and> pools_ok S"

lemma sched_okI:
  assumes "waiting_ok S" and "known_ok S" and "permits_ok S" and "pools_ok S"
  shows "sched_ok S"
  using assms by (simp add: sched_ok_def)

lemma sched_okD:
  assumes "sched_ok S"
  shows "waiting_ok S" "known_ok S" "permits_ok S" "pools_ok S"
  using assms by (simp_all add: sched_ok_def)

lemma known_frame:
  assumes "known_ok S" and "set (sc_waiters T) \<subseteq> set (sc_waiters S)"
    and "idr_identity ` set (sc_identities S) \<subseteq> idr_identity ` set (sc_identities T)"
  shows "known_ok T"
  using assms unfolding known_ok_def by blast

lemma permits_frame: "permits_ok S \<Longrightarrow> sc_permits T = sc_permits S \<Longrightarrow> permits_ok T"
  by (simp add: permits_ok_def)

lemma pools_frame: "pools_ok S \<Longrightarrow> sc_pools T = sc_pools S \<Longrightarrow> pools_ok T"
  by (simp add: pools_ok_def)

lemma distinct_filter_update:
  assumes "distinct (map key t)" and "\<And>r. P r \<Longrightarrow> key (f r) = key r"
  shows "distinct (map key (filter Q (update_rows P f t)))"
  using assms by (intro distinct_map_filter) simp

text \<open>Updating permits in place, dropping those neither dictionary holds.\<close>

lemma permits_update:
  assumes "permits_ok S" and "sc_permits T = filter Q (update_rows P f (sc_permits S))"
    and "\<And>p. P p \<Longrightarrow> pm_attempt_id (f p) = pm_attempt_id p"
    and "\<And>p. p \<in> set (sc_permits S) \<Longrightarrow> permit_ok p \<Longrightarrow> P p \<Longrightarrow> Q (f p) \<Longrightarrow> permit_ok (f p)"
  shows "permits_ok T"
  using assms distinct_filter_update [of pm_attempt_id "sc_permits S" P f Q]
  by (auto simp: permits_ok_def set_update_rows)

lemma permits_append:
  assumes "permits_ok S" and "sc_permits T = sc_permits S @ [p]" and "permit_ok p"
    and "pm_attempt_id p \<notin> pm_attempt_id ` set (sc_permits S)"
  shows "permits_ok T"
  using assms by (auto simp: permits_ok_def)

lemma filter_True_id: "filter (\<lambda>_. True) xs = xs"
  by simp

section \<open>Permits of single operations\<close>

lemma permits_set:
  assumes "permits_ok S" and "\<And>p. pm_attempt_id (f p) = pm_attempt_id p"
    and "\<And>p. p \<in> set (sc_permits S) \<Longrightarrow> permit_ok p \<Longrightarrow> pm_attempt_id p = k \<Longrightarrow> permit_ok (f p)"
  shows "permits_ok (set_permit k f S)"
  using assms(1)
  by (rule permits_update [where Q = "\<lambda>_. True" and P = "\<lambda>p. pm_attempt_id p = k" and f = f])
    (auto simp: set_permit_def assms)

text \<open>Ending and releasing in one go: what \<open>finish\<close> and the settlement of idle attempts do.\<close>

lemma permits_end:
  assumes "permits_ok S"
    and "sc_permits T = filter (\<lambda>p. pm_held p \<or> pm_listed p) (update_rows P
      (\<lambda>p. f p\<lparr>pm_held := False\<rparr>) (sc_permits S))"
    and "\<And>p. pm_attempt_id (f p) = pm_attempt_id p \<and> pm_kind (f p) = pm_kind p \<and> pm_listed (f p) = pm_listed p
      \<and> pm_reservation (f p) = pm_reservation p \<and> pm_pool_id (f p) = pm_pool_id p \<and> pm_owner_id (f p) = pm_owner_id p
      \<and> pm_epoch (f p) = pm_epoch p"
    and "\<And>p. p \<in> set (sc_permits S) \<Longrightarrow> P p \<Longrightarrow> permit_ok p \<Longrightarrow> pm_kind p = Direct \<Longrightarrow>
      pm_state (f p) \<in> {FINISHED, FAILED_NOT_SENT, FAILED_RECOVERABLE} \<and>
      (pm_idle_verified (f p) \<longrightarrow> pm_state (f p) = FAILED_RECOVERABLE)"
  shows "permits_ok T"
  using assms(1,2)
proof (rule permits_update)
  show "pm_attempt_id ((f p)\<lparr>pm_held := False\<rparr>) = pm_attempt_id p" for p using assms(3) by simp
  fix p assume p: "p \<in> set (sc_permits S)" "permit_ok p" "P p"
    and keep: "pm_held ((f p)\<lparr>pm_held := False\<rparr>) \<or> pm_listed ((f p)\<lparr>pm_held := False\<rparr>)"
  have d: "pm_kind p = Direct" using keep assms(3) p(2) by (auto simp: permit_ok_def split: if_splits)
  show "permit_ok ((f p)\<lparr>pm_held := False\<rparr>)"
  proof -
    obtain r where r: "pm_reservation p = Some r" using p(2) d by (auto simp: permit_ok_def split: option.splits)
    note e = assms(4) [OF p(1,3,2) d]
    have "pm_state (f p) \<noteq> UNKNOWN" using e by auto
    then show ?thesis using e p(2) d r assms(3) [of p] by (simp add: permit_ok_def)
  qed
qed

lemma release_permits:
  "sc_permits (release k S) = filter (\<lambda>p. pm_held p \<or> pm_listed p)
     (update_rows (\<lambda>p. pm_attempt_id p = k) (\<lambda>p. p\<lparr>pm_held := False\<rparr>) (sc_permits S))"
  by (simp add: release_def)

lemma release_frame [simp]:
  "sc_waiters (release k S) = sc_waiters S" "sc_queues (release k S) = sc_queues S"
  "sc_queue_counts (release k S) = sc_queue_counts S" "sc_tenant_counts (release k S) = sc_tenant_counts S"
  "sc_pools (release k S) = sc_pools S" "sc_identities (release k S) = sc_identities S"
  by (simp_all add: release_def)

lemma set_permit_frame [simp]:
  "sc_waiters (set_permit k f S) = sc_waiters S" "sc_queues (set_permit k f S) = sc_queues S"
  "sc_queue_counts (set_permit k f S) = sc_queue_counts S" "sc_tenant_counts (set_permit k f S) = sc_tenant_counts S"
  "sc_pools (set_permit k f S) = sc_pools S" "sc_identities (set_permit k f S) = sc_identities S"
  by (simp_all add: set_permit_def)

text \<open>A permit of another kind than \<open>Direct\<close> simply goes.\<close>

lemma permits_release:
  assumes "permits_ok S" and "\<And>p. p \<in> set (sc_permits S) \<Longrightarrow> pm_attempt_id p = k \<Longrightarrow> pm_kind p \<noteq> Direct"
  shows "permits_ok (release k S)"
  using assms(1) release_permits
  by (rule permits_end [where f = "\<lambda>p. p"]) (use assms(2) in auto)

lemma direct_found:
  assumes "direct res S = Inr p" and "permits_ok S"
  shows "p \<in> set (sc_permits S)" "pm_listed p" "pm_kind p = Direct" "permit_ok p"
    "pm_reservation p = Some res" "pm_attempt_id p = dr_attempt_id res"
proof -
  have f: "find_direct S (dr_attempt_id res) = Some p" and r: "pm_reservation p = Some res"
    using assms(1) by (auto simp: direct_def split: option.splits if_splits)
  have in_: "p \<in> set (direct_attempts S)" using f by (rule lookup_row_Some_in)
  then show s: "p \<in> set (sc_permits S)" "pm_listed p" by (auto simp: direct_attempts_def)
  then show ok: "permit_ok p" using assms(2) by (simp add: permits_ok_def)
  with s(2) show "pm_kind p = Direct" by (auto simp: permit_ok_def split: if_splits)
  show "pm_reservation p = Some res" by (rule r)
  show "pm_attempt_id p = dr_attempt_id res" using f by (rule lookup_row_Some_key)
qed

lemma permit_by_id:
  "permits_ok S \<Longrightarrow> p \<in> set (sc_permits S) \<Longrightarrow> q \<in> set (sc_permits S) \<Longrightarrow> pm_attempt_id p = pm_attempt_id q \<Longrightarrow> p = q"
  by (rule distinct_lookup_unique [of pm_attempt_id "sc_permits S"]) (simp_all add: permits_ok_def)

end
