(* ===== verification/Scheduler_Steps.thy ===== *)
theory Scheduler_Steps
  imports Scheduler_Machine
begin

text \<open>
  Every turn of the scheduler preserves \<open>sched_ok\<close>: one lemma per method, then the step
  relation, its reachable states and the interpretation of \<open>invariant_system\<close> on them.
\<close>

section \<open>Waiting\<close>

lemma sched_remove_waiter: "sched_ok S \<Longrightarrow> sched_ok (remove_waiter k S)"
  by (rule sched_okI [OF waiting_remove [OF sched_okD(1)] known_frame [OF sched_okD(2)]
        permits_frame [OF sched_okD(3)] pools_frame [OF sched_okD(4)]]) auto

text \<open>What only touches the other fields, or only the permits, or only the identities.\<close>

lemma sched_permits:
  assumes "sched_ok S" and "permits_ok T" and "sc_waiters T = sc_waiters S" and "sc_queues T = sc_queues S"
    and "sc_queue_counts T = sc_queue_counts S" and "sc_tenant_counts T = sc_tenant_counts S"
    and "sc_pools T = sc_pools S" and "sc_identities T = sc_identities S"
  shows "sched_ok T"
  by (rule sched_okI [OF waiting_frame [OF sched_okD(1) [OF assms(1)] assms(3-6)]
        known_frame [OF sched_okD(2) [OF assms(1)]] assms(2) pools_frame [OF sched_okD(4) [OF assms(1)] assms(7)]])
    (use assms in simp_all)

lemma sched_frame:
  assumes "sched_ok S" and "sc_permits T = sc_permits S" and "sc_waiters T = sc_waiters S"
    and "sc_queues T = sc_queues S" and "sc_queue_counts T = sc_queue_counts S"
    and "sc_tenant_counts T = sc_tenant_counts S" and "sc_pools T = sc_pools S"
    and "sc_identities T = sc_identities S"
  shows "sched_ok T"
  using assms(1) permits_frame [OF sched_okD(3) [OF assms(1)] assms(2)] assms(3-8)
  by (rule sched_permits)

lemma sched_notify: "sched_ok S \<Longrightarrow> sched_ok (notify S)"
  by (erule sched_frame) simp_all

lemma sched_expire_dirty: "sched_ok S \<Longrightarrow> sched_ok (expire_dirty now S)"
  by (erule sched_frame) (simp_all add: expire_dirty_def Let_def)

lemma first_waiters: "first now pid S = (T, r) \<Longrightarrow> sched_ok S \<Longrightarrow> set (sc_waiters T) \<subseteq> set (sc_waiters S)"
proof
  fix w assume f: "first now pid S = (T, r)" "sched_ok S" "w \<in> set (sc_waiters T)"
  have "waiting_ok T" using waiting_first [OF f(1)] sched_okD(1) [OF f(2)] .
  then have "find_waiter T (wt_identity w) = Some w"
    using f(3) by (simp add: waiting_ok_def lookup_row_iff)
  then have "find_waiter S (wt_identity w) = Some w"
    using scan_first_waiters [OF f(1) [unfolded first_def], of "wt_identity w"] by auto
  then show "w \<in> set (sc_waiters S)" by (rule lookup_row_Some_in)
qed

lemma sched_first: "first now pid S = (T, r) \<Longrightarrow> sched_ok S \<Longrightarrow> sched_ok T"
proof (rule sched_okI)
  assume f: "first now pid S = (T, r)" and ok: "sched_ok S"
  note fr = first_frame [OF f]
  show "waiting_ok T" by (rule waiting_first [OF f sched_okD(1) [OF ok]])
  show "known_ok T" by (rule known_frame [OF sched_okD(2) [OF ok] first_waiters [OF f ok]]) (simp add: fr)
  show "permits_ok T" by (rule permits_frame [OF sched_okD(3) [OF ok]]) (simp add: fr)
  show "pools_ok T" by (rule pools_frame [OF sched_okD(4) [OF ok]]) (simp add: fr)
qed

lemma set_identity_ids:
  "idr_identity ` set (sc_identities (set_identity r S)) = insert (idr_identity r) (idr_identity ` set (sc_identities S))"
proof (cases "find_identity S (idr_identity r)")
  case (Some x)
  then have "idr_identity r \<in> idr_identity ` set (sc_identities S)"
    using lookup_row_None_iff by (metis option.distinct(1))
  moreover have "map idr_identity (sc_identities (set_identity r S)) = map idr_identity (sc_identities S)"
    using Some by (simp add: set_identity_def)
  ultimately show ?thesis by (metis insert_absorb set_map)
qed (simp add: set_identity_def)

lemma set_identity_frame [simp]:
  "sc_waiters (set_identity r S) = sc_waiters S" "sc_queues (set_identity r S) = sc_queues S"
  "sc_queue_counts (set_identity r S) = sc_queue_counts S" "sc_tenant_counts (set_identity r S) = sc_tenant_counts S"
  "sc_permits (set_identity r S) = sc_permits S" "sc_pools (set_identity r S) = sc_pools S"
  "sc_dirty (set_identity r S) = sc_dirty S" "sc_ready (set_identity r S) = sc_ready S"
  "sc_control_ready (set_identity r S) = sc_control_ready S"
  by (simp_all add: set_identity_def)

lemma add_waiter_frame [simp]:
  "sc_permits (add_waiter w S) = sc_permits S" "sc_pools (add_waiter w S) = sc_pools S"
  "sc_identities (add_waiter w S) = sc_identities S" "sc_dirty (add_waiter w S) = sc_dirty S"
  "sc_ready (add_waiter w S) = sc_ready S" "sc_control_ready (add_waiter w S) = sc_control_ready S"
  by (simp_all add: add_waiter_def)

lemma add_waiter_waiters:
  "find_waiter S (wt_identity w) = None \<Longrightarrow> sc_waiters (add_waiter w S) = sc_waiters S @ [w]"
  using remove_row_absent [of wt_identity "wt_identity w" "sc_waiters S"] by (simp add: add_waiter_def)

text \<open>No durable attempt waits under the identifier of a direct request.\<close>

definition separate :: "direct_request \<Rightarrow> sched \<Rightarrow> bool" where
  "separate q S \<longleftrightarrow> (case find_waiter S (dq_request_id q) of None \<Rightarrow> True | Some w \<Rightarrow> wt_kind w = Direct)"

lemma enqueueE:
  assumes "enqueue cf c q pid owner S = Inr (T, at)"
  obtains (waiting) w where "T = S" "find_waiter S (dq_request_id q) = Some w" "at = wt_queued_at w"
  | (entered) p where "find_mpool S pid = Some p" "known_request q owner S = Inr None" "validate q p = Inr ()"
      "wall c < dq_deadline q" "sc_queue_counts S pid < cf_endpoint_limit cf"
      "sc_tenant_counts S (pid, dq_tenant_id q) < cf_tenant_limit cf" "at = mono c"
      "T = set_identity \<lparr>idr_identity = dq_request_id q, idr_request = q, idr_owner_id = owner,
         idr_expires = mono c + cf_request_ttl cf\<rparr> (add_waiter (new_waiter c q pid owner) S)"
proof -
  from assms obtain p place where p: "get_pool S pid = Inr p" and k: "known_request q owner S = Inr place"
    and rest: "(case place of Some t \<Rightarrow> Inr (S, t)
       | None \<Rightarrow>
           (if dq_deadline q \<le> wall c
            then Inl (AdmissionDenied ''inference request deadline exceeded'' True)
            else if cf_endpoint_limit cf \<le> sc_queue_counts S pid
                    \<or> cf_tenant_limit cf \<le> sc_tenant_counts S (pid, dq_tenant_id q)
            then Inl (AdmissionDenied ''inference waiting buffer full'' True)
            else and_then (validate q p) (\<lambda>_.
              Inr (set_identity \<lparr>idr_identity = dq_request_id q, idr_request = q,
                     idr_owner_id = owner, idr_expires = mono c + cf_request_ttl cf\<rparr>
                   (add_waiter (new_waiter c q pid owner) S), mono c)))) = Inr (T, at)"
    unfolding enqueue_def by (elim and_then_InrE)
  from p have pool: "find_mpool S pid = Some p" by (simp add: get_pool_def split: option.splits)
  show thesis
  proof (cases place)
    case (Some t)
    with k obtain w where "find_waiter S (dq_request_id q) = Some w" "t = wt_queued_at w"
      by (auto simp: known_request_def split: option.splits if_splits list.splits)
    then show thesis using waiting rest Some by simp
  next
    case None
    have n: "\<not> dq_deadline q \<le> wall c" "\<not> (cf_endpoint_limit cf \<le> sc_queue_counts S pid
        \<or> cf_tenant_limit cf \<le> sc_tenant_counts S (pid, dq_tenant_id q))"
      using rest unfolding None by (simp_all split: if_splits)
    obtain u where v: "validate q p = Inr u" and T: "set_identity \<lparr>idr_identity = dq_request_id q, idr_request = q,
        idr_owner_id = owner, idr_expires = mono c + cf_request_ttl cf\<rparr> (add_waiter (new_waiter c q pid owner) S) = T"
      "mono c = at"
      using rest n unfolding None by (simp add: and_then_Inr_iff del: new_waiter_def) blast
    show thesis using entered [OF pool] k None v n T by simp
  qed
qed

lemma known_none:
  assumes "known_request q owner S = Inr None" and "sched_ok S" and "separate q S"
  shows "find_waiter S (dq_request_id q) = None"
proof (rule ccontr)
  assume "find_waiter S (dq_request_id q) \<noteq> None"
  then obtain w where w: "find_waiter S (dq_request_id q) = Some w" by blast
  have "wt_kind w = Direct" using assms(3) w by (simp add: separate_def)
  then have "wt_identity w \<in> idr_identity ` set (sc_identities S)"
    using sched_okD(2) [OF assms(2)] lookup_row_Some_in [OF w] by (auto simp: known_ok_def)
  then have "find_identity S (dq_request_id q) \<noteq> None"
    using lookup_row_Some_key [OF w] by (simp add: lookup_row_None_iff del: not_None_eq)
  with assms(1) w show False by (auto simp: known_request_def split: option.splits if_splits list.splits)
qed

lemma new_waiter_sel [simp]:
  "wt_identity (new_waiter c q pid owner) = dq_request_id q" "wt_pool_id (new_waiter c q pid owner) = pid"
  "wt_kind (new_waiter c q pid owner) = Direct" "wt_owner_id (new_waiter c q pid owner) = owner"
  "wt_class (new_waiter c q pid owner) = dq_workload_class q"
  "wt_queued_at (new_waiter c q pid owner) = mono c"
  by (simp_all add: new_waiter_def)

lemma sched_enqueue:
  assumes "enqueue cf c q pid owner S = Inr (T, at)" and "sched_ok S" and "separate q S"
  shows "sched_ok T"
  using assms(1)
proof (cases rule: enqueueE)
  case (waiting w)
  with assms show ?thesis by simp
next
  case (entered p)
  have none: "find_waiter S (dq_request_id q) = None" by (rule known_none [OF entered(2) assms(2,3)])
  show ?thesis
  proof (rule sched_okI)
    show "waiting_ok T" unfolding entered(8)
      using waiting_add [OF sched_okD(1) [OF assms(2)], of "new_waiter c q pid owner"] none
      by (auto elim: waiting_frame)
    show "known_ok T" using sched_okD(2) [OF assms(2)] add_waiter_waiters [of "new_waiter c q pid owner" S] none
      by (auto simp: entered(8) known_ok_def set_identity_ids)
    show "permits_ok T" "pools_ok T"
      using sched_okD(3,4) [OF assms(2)] by (auto simp: entered(8) permits_ok_def pools_ok_def)
  qed
qed

lemma sched_leave: "sched_ok S \<Longrightarrow> sched_ok (leave k owner S)"
  by (auto simp: leave_def sched_remove_waiter split: option.splits)

section \<open>Granting\<close>

lemma next_generation_bounds:
  assumes "next_generation p q pid owner previous S = Inr (Some g)" and "permits_ok S"
  shows "0 \<le> g \<and> g \<le> 2"
proof (cases previous)
  case None
  with assms(1) show ?thesis by (simp add: next_generation_def)
next
  case (Some k)
  with assms(1) obtain old r where old: "find_direct S k = Some old" "pm_reservation old = Some r"
    and g: "g = dr_generation r + 1" "g \<le> 2"
    by (auto simp: next_generation_def split: option.splits if_splits)
  have "permit_ok old" using assms(2) lookup_row_Some_in [OF old(1)] by (simp add: permits_ok_def direct_attempts_def)
  with old(2) g show ?thesis by (auto simp: permit_ok_def split: if_splits)
qed

lemma sched_grant:
  assumes "grant aid p q pid owner g S = (T, res)" and "sched_ok S"
    and "aid \<notin> pm_attempt_id ` set (sc_permits S)" and "0 \<le> g" and "g \<le> 2"
  shows "sched_ok T"
proof -
  obtain pm where T: "T = notify ((remove_waiter (dq_request_id q) S)\<lparr>sc_permits := sc_permits S @ [pm]\<rparr>)"
    and pm: "pm_attempt_id pm = aid" "permit_ok pm"
    using assms(1,4,5) by (auto simp: grant_def Let_def permit_ok_def)
  have "sched_ok (remove_waiter (dq_request_id q) S)" using assms(2) by (rule sched_remove_waiter)
  then show ?thesis
  proof (rule sched_permits)
    show "permits_ok T"
      by (rule permits_append [OF sched_okD(3) [OF assms(2)], of T pm]) (use pm assms(3) in \<open>simp_all add: T\<close>)
  qed (simp_all add: T)
qed

text \<open>What a reservation that is not granted leaves, and what a granted one went through.\<close>

lemma reserveE:
  assumes "reserve c aid q pid owner previous S = (T, r)"
  obtains (refused) "T = expire_dirty (mono c) S" "\<not> (\<exists>res. r = Inr (Some res))"
  | (queued) f where "first (mono_later c) pid (expire_dirty (mono c) S) = (T, f)" "r = Inr None"
  | (granted) p w g S1 res where "find_mpool S pid = Some p" "find_waiter S (dq_request_id q) = Some w"
      "wt_owner_id w = owner" "wall c < dq_deadline q" "sc_control_ready S"
      "pool_ready (expire_dirty (mono c) S) pid (mono c)" "validate q p = Inr ()"
      "next_generation p q pid owner previous (expire_dirty (mono c) S) = Inr (Some g)"
      "first (mono_later c) pid (expire_dirty (mono c) S) = (S1, Some w)"
      "try_acquire p (held_permits S1) (sc_pools S1) (dq_workload_class q)"
      "grant aid p q pid owner g S1 = (T, res)" "r = Inr (Some res)"
proof -
  define S0 where "S0 = expire_dirty (mono c) S"
  have fr: "sc_pools S0 = sc_pools S" "sc_waiters S0 = sc_waiters S" "sc_control_ready S0 = sc_control_ready S"
    by (simp_all add: S0_def expire_dirty_def Let_def)
  note eq = assms [unfolded reserve_def Let_def get_pool_def, folded S0_def, unfolded fr]
  show thesis
  proof (cases "find_mpool S pid")
    case None
    with eq show thesis by (intro refused) (auto simp: S0_def)
  next
    case p: (Some p)
    show thesis
    proof (cases "find_waiter S (dq_request_id q)")
      case None
      with eq p show thesis by (intro refused) (auto simp: S0_def)
    next
      case w: (Some w)
      show thesis
      proof (cases "wt_owner_id w \<noteq> owner \<or> dq_deadline q \<le> wall c \<or> \<not> sc_control_ready S \<or> \<not> pool_ready S0 pid (mono c)")
        case True
        with eq p w show thesis by (intro refused) (auto simp: S0_def split: if_splits)
      next
        case ready: False
        show thesis
        proof (cases "validate q p = Inr () \<and> \<not> (stale_proxy p q \<and> previous = None)")
          case False
          with eq p w ready show thesis by (intro refused) (auto simp: S0_def split: if_splits sum.splits)
        next
          case valid: True
          show thesis
          proof (cases "next_generation p q pid owner previous S0")
            case (Inl e)
            with eq p w ready valid show thesis by (intro refused) (auto simp: S0_def)
          next
            case (Inr go)
            show thesis
            proof (cases go)
              case None
              with eq p w ready valid Inr show thesis by (intro refused) (auto simp: S0_def)
            next
              case (Some g)
              obtain S1 f where f: "first (mono_later c) pid S0 = (S1, f)" by (cases "first (mono_later c) pid S0")
              obtain S2 res where gr: "grant aid p q pid owner g S1 = (S2, res)" by (cases "grant aid p q pid owner g S1")
              show thesis
              proof (cases "f \<noteq> Some w \<or> \<not> try_acquire p (held_permits S1) (sc_pools S1) (dq_workload_class q)")
                case True
                with eq p w ready valid Inr Some f show thesis by (intro queued) (auto simp: S0_def)
              next
                case False
                with eq p w ready valid Inr Some f gr show thesis
                  by (intro granted [of p w g S1 res]) (auto simp: S0_def)
              qed
            qed
          qed
        qed
      qed
    qed
  qed
qed

lemma sched_reserve:
  assumes "reserve c aid q pid owner previous S = (T, r)" and "sched_ok S"
    and "aid \<notin> pm_attempt_id ` set (sc_permits S)"
  shows "sched_ok T"
  using assms(1)
proof (cases rule: reserveE)
  case refused
  then show ?thesis using sched_expire_dirty [OF assms(2)] by simp
next
  case (queued f)
  show ?thesis by (rule sched_first [OF queued(1) sched_expire_dirty [OF assms(2)]])
next
  case (granted p w g S1 res)
  have S1: "sched_ok S1" by (rule sched_first [OF granted(9) sched_expire_dirty [OF assms(2)]])
  have "0 \<le> g \<and> g \<le> 2"
    by (rule next_generation_bounds [OF granted(8) sched_okD(3) [OF sched_expire_dirty [OF assms(2)]]])
  moreover have "sc_permits S1 = sc_permits S"
    using first_frame [OF granted(9)] by (simp add: expire_dirty_def Let_def)
  ultimately show ?thesis using sched_grant [OF granted(11) S1] assms(3) by simp
qed

lemma withdraw_frame [simp]:
  "sc_permits (withdraw k pid S) = sc_permits S" "sc_pools (withdraw k pid S) = sc_pools S"
  "sc_waiters (withdraw k pid S) = remove_row wt_identity k (sc_waiters S)"
  "sc_identities (withdraw k pid S) = remove_row idr_identity k (sc_identities S)"
  by (simp_all add: withdraw_def Let_def)

lemma sched_withdraw:
  assumes "sched_ok S"
  shows "sched_ok (withdraw k pid S)"
proof (rule sched_okI)
  have ok: "sched_ok (remove_waiter k S)" using assms by (rule sched_remove_waiter)
  have q: "sc_queues (withdraw k pid S) = (sc_queues S)(pid := filter (\<lambda>(_, _, i). i \<noteq> k) (sc_queues S pid))"
    by (simp add: withdraw_def Let_def)
  have qs: "queues_ok S" using sched_okD(1) [OF assms] by (simp add: waiting_ok_def)
  show "waiting_ok (withdraw k pid S)"
  proof (rule waiting_okI)
    show "distinct (map wt_identity (sc_waiters (withdraw k pid S)))"
      using sched_okD(1) [OF assms] by (simp add: waiting_ok_def)
    show "counts_ok (withdraw k pid S)"
      using sched_okD(1) [OF ok] by (simp add: waiting_ok_def counts_ok_def withdraw_def Let_def)
    show "queues_ok (withdraw k pid S)" unfolding queues_ok_def
    proof (intro conjI allI ballI)
      fix j show "sorted (sc_queues (withdraw k pid S) j)"
        using qs by (auto simp: q queues_ok_def intro: sorted_filter [of "\<lambda>x. x", simplified])
    next
      fix w assume "w \<in> set (sc_waiters (withdraw k pid S))"
      then have "wt_identity w \<noteq> k" "entry_of w \<in> set (sc_queues S (wt_pool_id w))"
        using qs by (auto simp: queues_ok_def)
      then show "entry_of w \<in> set (sc_queues (withdraw k pid S) (wt_pool_id w))"
        by (auto simp: q entry_of_def)
    qed
  qed
  show "known_ok (withdraw k pid S)"
    using sched_okD(2) [OF assms] by (auto simp: known_ok_def image_iff)
  show "permits_ok (withdraw k pid S)" "pools_ok (withdraw k pid S)"
    using sched_okD(3,4) [OF assms] by (simp_all add: permits_ok_def pools_ok_def)
qed

text \<open>The ways through \<open>try_reserve\<close>.\<close>

lemma try_reserveE:
  assumes "try_reserve cf c aid q pid owner S = (T, r)"
  obtains (closed) "T = S" "\<exists>m. r = Inr (Refused m)"
  | (not_entered) e where "enqueue cf c q pid owner S = Inl e" "T = withdraw (dq_request_id q) pid S"
      "r = (case e of AdmissionDenied m True \<Rightarrow> Inr (Refused ''inference_capacity'') | _ \<Rightarrow> Inl e)"
  | (not_granted) S1 at S2 r2 where "enqueue cf c q pid owner S = Inr (S1, at)"
      "reserve c aid q pid owner None S1 = (S2, r2)" "\<not> (\<exists>res. r2 = Inr (Some res))"
      "T = withdraw (dq_request_id q) pid S2"
      "r = (case r2 of Inl e \<Rightarrow> Inl e | Inr _ \<Rightarrow> Inr (Refused ''inference_capacity''))"
  | (granted) S1 at res where "enqueue cf c q pid owner S = Inr (S1, at)"
      "reserve c aid q pid owner None S1 = (T, Inr (Some res))" "r = Inr (Reserved res)"
proof (cases "\<exists>p. find_mpool S pid = Some p \<and> \<not> (\<not> sc_control_ready S \<or> mp_health p \<noteq> HEALTHY
    \<or> mp_group_health p \<noteq> HEALTHY \<or> mp_target p \<le> 0 \<or> \<not> pool_ready S pid (mono c))
    \<and> \<not> (case dq_dispatch_before q of None \<Rightarrow> False | Some t \<Rightarrow> t \<le> wall c) \<and> \<not> stale_proxy p q")
  case False
  with assms show thesis by (intro closed) (auto simp: try_reserve_def split: option.splits if_splits)
next
  case True
  then have eq: "(case enqueue cf c q pid owner S of
               Inl (AdmissionDenied m True) \<Rightarrow>
                 (withdraw (dq_request_id q) pid S, Inr (Refused ''inference_capacity''))
             | Inl e \<Rightarrow> (withdraw (dq_request_id q) pid S, Inl e)
             | Inr (S1, _) \<Rightarrow>
                 (case reserve c aid q pid owner None S1 of
                    (S2, Inl e) \<Rightarrow> (withdraw (dq_request_id q) pid S2, Inl e)
                  | (S2, Inr None) \<Rightarrow>
                      (withdraw (dq_request_id q) pid S2, Inr (Refused ''inference_capacity''))
                  | (S2, Inr (Some res)) \<Rightarrow> (S2, Inr (Reserved res)))) = (T, r)"
    using assms by (auto simp: try_reserve_def)
  show thesis
  proof (cases "enqueue cf c q pid owner S")
    case (Inl e)
    with eq show thesis by (intro not_entered [of e]) (auto split: error.splits bool.splits)
  next
    case (Inr S1at)
    obtain S1 at where S1: "S1at = (S1, at)" by (cases S1at)
    obtain S2 r2 where r2: "reserve c aid q pid owner None S1 = (S2, r2)" by (cases "reserve c aid q pid owner None S1")
    show thesis
    proof (cases "\<exists>res. r2 = Inr (Some res)")
      case True
      with eq Inr S1 r2 show thesis by (auto intro: granted)
    next
      case False
      with eq Inr S1 r2 show thesis by (intro not_granted [of S1 at S2 r2]) (auto split: sum.splits option.splits)
    qed
  qed
qed

lemma enqueue_permits:
  "enqueue cf c q pid owner S = Inr (T, at) \<Longrightarrow> sc_permits T = sc_permits S \<and> sc_pools T = sc_pools S \<and>
     sc_dirty T = sc_dirty S \<and> sc_ready T = sc_ready S \<and> sc_control_ready T = sc_control_ready S"
  by (erule enqueueE) simp_all

lemma sched_try_reserve:
  assumes "try_reserve cf c aid q pid owner S = (T, r)" and "sched_ok S" and "separate q S"
    and "aid \<notin> pm_attempt_id ` set (sc_permits S)"
  shows "sched_ok T"
  using assms(1)
proof (cases rule: try_reserveE)
  case closed
  with assms(2) show ?thesis by simp
next
  case (not_entered e)
  with assms(2) show ?thesis by (simp add: sched_withdraw)
next
  case (not_granted S1 at S2 r2)
  have "sched_ok S1" by (rule sched_enqueue [OF not_granted(1) assms(2,3)])
  then have "sched_ok S2"
    by (rule sched_reserve [OF not_granted(2)]) (use assms(4) enqueue_permits [OF not_granted(1)] in simp)
  then show ?thesis unfolding not_granted(4) by (rule sched_withdraw)
next
  case (granted S1 at res)
  have "sched_ok S1" by (rule sched_enqueue [OF granted(1) assms(2,3)])
  then show ?thesis
    by (rule sched_reserve [OF granted(2)]) (use assms(4) enqueue_permits [OF granted(1)] in simp)
qed

section \<open>Using a reservation\<close>

lemma sched_set_permit:
  assumes "sched_ok S" and "\<And>p. pm_attempt_id (f p) = pm_attempt_id p"
    and "\<And>p. p \<in> set (sc_permits S) \<Longrightarrow> permit_ok p \<Longrightarrow> pm_attempt_id p = k \<Longrightarrow> permit_ok (f p)"
  shows "sched_ok (set_permit k f S)"
  using assms(1) permits_set [OF sched_okD(3) [OF assms(1)] assms(2,3)]
  by (rule sched_permits) simp_all

lemma permit_ok_state:
  assumes "permit_ok p" and "pm_held p" and "st \<in> {RESERVED, SEND_INTENT, UNKNOWN}"
    and "st = UNKNOWN \<longrightarrow> u \<noteq> None"
  shows "permit_ok (p\<lparr>pm_state := st, pm_unknown_at := u\<rparr>)"
  using assms by (auto simp: permit_ok_def split: if_splits option.splits)

lemma sched_mark_send:
  assumes "direct_mark_send c res S = Inr T" and "sched_ok S"
  shows "sched_ok T"
proof -
  from assms(1) obtain p where d: "direct res S = Inr p" and h: "pm_held p" "pm_state p = RESERVED"
    and T: "T = set_permit (pm_attempt_id p) (\<lambda>p. p\<lparr>pm_state := SEND_INTENT\<rparr>) S"
    by (auto simp: direct_mark_send_def and_then_Inr_iff split: if_splits)
  note p = direct_found [OF d sched_okD(3) [OF assms(2)]]
  show ?thesis unfolding T
  proof (rule sched_set_permit [OF assms(2)])
    fix x assume x: "x \<in> set (sc_permits S)" "permit_ok x" "pm_attempt_id x = pm_attempt_id p"
    then have "x = p" using permit_by_id [OF sched_okD(3) [OF assms(2)]] p(1) by blast
    with x h show "permit_ok (x\<lparr>pm_state := SEND_INTENT\<rparr>)"
      by (auto simp: permit_ok_def split: if_splits option.splits)
  qed simp
qed

lemma sched_direct_unknown:
  assumes "direct_unknown c res S = Inr T" and "sched_ok S"
  shows "sched_ok T"
proof -
  from assms(1) obtain p where d: "direct res S = Inr p"
    and T: "T = (if pm_held p then set_permit (pm_attempt_id p)
                   (\<lambda>p. p\<lparr>pm_state := UNKNOWN, pm_unknown_at := Some (wall c)\<rparr>) S else S)"
    by (auto simp: direct_unknown_def and_then_Inr_iff)
  note p = direct_found [OF d sched_okD(3) [OF assms(2)]]
  show ?thesis
  proof (cases "pm_held p")
    case True
    have "sched_ok (set_permit (pm_attempt_id p) (\<lambda>p. p\<lparr>pm_state := UNKNOWN, pm_unknown_at := Some (wall c)\<rparr>) S)"
    proof (rule sched_set_permit [OF assms(2)])
      fix x assume x: "x \<in> set (sc_permits S)" "permit_ok x" "pm_attempt_id x = pm_attempt_id p"
      then have "x = p" using permit_by_id [OF sched_okD(3) [OF assms(2)]] p(1) by blast
      with x True show "permit_ok (x\<lparr>pm_state := UNKNOWN, pm_unknown_at := Some (wall c)\<rparr>)"
        by (intro permit_ok_state) auto
    qed simp
    with True T show ?thesis by simp
  qed (use T assms(2) in simp)
qed

text \<open>Releasing right after a change of state is one update of the permit.\<close>

lemma release_set_permit:
  assumes "\<And>p. pm_attempt_id (f p) = pm_attempt_id p"
  shows "sc_permits (release k (set_permit k f S)) = filter (\<lambda>p. pm_held p \<or> pm_listed p)
     (update_rows (\<lambda>p. pm_attempt_id p = k) (\<lambda>p. f p\<lparr>pm_held := False\<rparr>) (sc_permits S))"
  using assms by (simp add: release_def set_permit_def update_rows_def comp_def if_distrib cong: if_cong)

lemma sched_direct_finish:
  assumes "direct_finish res evidence S = Inr T" and "sched_ok S"
  shows "sched_ok T"
proof -
  from assms(1) obtain p where d: "direct res S = Inr p"
    and T: "T = S \<or> T = notify (release (pm_attempt_id p)
               (set_permit (pm_attempt_id p)
                  (\<lambda>p. p\<lparr>pm_state := if evidence = ''completed_response'' then FINISHED else FAILED_NOT_SENT\<rparr>) S))"
      "T \<noteq> S \<longrightarrow> pm_held p"
    by (auto simp: direct_finish_def and_then_Inr_iff split: if_splits)
  note p = direct_found [OF d sched_okD(3) [OF assms(2)]]
  let ?f = "\<lambda>p::permit. p\<lparr>pm_state := if evidence = ''completed_response'' then FINISHED else FAILED_NOT_SENT\<rparr>"
  have "sched_ok T" if "T \<noteq> S"
  proof -
    have T': "T = notify (release (pm_attempt_id p) (set_permit (pm_attempt_id p) ?f S))" using T(1) that by blast
    show ?thesis
    proof (rule sched_permits [OF assms(2)])
      show "permits_ok T"
      proof (rule permits_end [OF sched_okD(3) [OF assms(2)], where f = ?f and P = "\<lambda>x. pm_attempt_id x = pm_attempt_id p"])
        show "sc_permits T = filter (\<lambda>p. pm_held p \<or> pm_listed p)
            (update_rows (\<lambda>x. pm_attempt_id x = pm_attempt_id p) (\<lambda>p. (?f p)\<lparr>pm_held := False\<rparr>) (sc_permits S))"
          unfolding T' by (simp add: release_set_permit)
        fix x assume x: "x \<in> set (sc_permits S)" "pm_attempt_id x = pm_attempt_id p" "permit_ok x"
        then have "x = p" using permit_by_id [OF sched_okD(3) [OF assms(2)]] p(1) by blast
        then have "\<not> pm_idle_verified x" using x(3) p(3) T(2) that by (auto simp: permit_ok_def split: if_splits)
        then show "pm_state (?f x) \<in> {FINISHED, FAILED_NOT_SENT, FAILED_RECOVERABLE} \<and>
            (pm_idle_verified (?f x) \<longrightarrow> pm_state (?f x) = FAILED_RECOVERABLE)" by simp
      qed simp
    qed (simp_all add: T')
  qed
  with assms(2) show ?thesis by blast
qed

end
