(* ===== verification/Scheduler_System.thy ===== *)
theory Scheduler_System
  imports Scheduler_Steps
begin

text \<open>
  The durable permits and the upkeep preserve \<open>sched_ok\<close>; the scheduler's step relation and
  its reachable states.
\<close>

section \<open>Durable permits\<close>

lemma permit_by_key: "find_permit S k = Some p \<Longrightarrow> p \<in> set (sc_permits S) \<and> pm_held p \<and> pm_attempt_id p = k"
  using lookup_row_Some_in [of pm_attempt_id k "held_permits S" p] lookup_row_Some_key [of pm_attempt_id k "held_permits S" p]
  by (simp add: held_permits_def)

lemma permit_ok_lease: "permit_ok p \<Longrightarrow> permit_ok (set_lease t p)"
  by (cases "pm_reservation p") (auto simp: permit_ok_def set_lease_def split: if_splits)

lemma sched_set_lease: "sched_ok S \<Longrightarrow> sched_ok (set_permit k (set_lease t) S)"
  by (erule sched_set_permit) (auto simp: permit_ok_lease, simp add: set_lease_def)

lemma add_ref_frame [simp]:
  "sc_waiters (add_ref k n S) = sc_waiters S" "sc_queues (add_ref k n S) = sc_queues S"
  "sc_queue_counts (add_ref k n S) = sc_queue_counts S" "sc_tenant_counts (add_ref k n S) = sc_tenant_counts S"
  "sc_permits (add_ref k n S) = sc_permits S" "sc_pools (add_ref k n S) = sc_pools S"
  "sc_identities (add_ref k n S) = sc_identities S"
  by (simp_all add: add_ref_def)

lemma sched_add_ref: "sched_ok S \<Longrightarrow> sched_ok (add_ref k n S)"
  by (erule sched_frame) simp_all

lemma sched_add_durable:
  assumes "sched_ok S" and "find_waiter S (wt_identity w) = None" and "wt_kind w \<noteq> Direct"
  shows "sched_ok (add_waiter w S)"
proof (rule sched_okI)
  show "waiting_ok (add_waiter w S)" by (rule waiting_add [OF sched_okD(1) [OF assms(1)] assms(2)])
  show "known_ok (add_waiter w S)"
    using sched_okD(2) [OF assms(1)] assms(3) by (auto simp: known_ok_def add_waiter_waiters [OF assms(2)])
  show "permits_ok (add_waiter w S)" "pools_ok (add_waiter w S)"
    using sched_okD(3,4) [OF assms(1)] by (simp_all add: permits_ok_def pools_ok_def)
qed

lemma sched_join_waiter:
  assumes "join_waiter c k pid owner cls deadline x S = Inr (T, w)" and "sched_ok S"
  shows "sched_ok T"
proof (cases "find_waiter S k")
  case None
  have w: "wt_identity (durable_waiter c k pid owner cls deadline x) = k"
    "wt_kind (durable_waiter c k pid owner cls deadline x) \<noteq> Direct" by (simp_all add: durable_waiter_def)
  have "T = add_waiter (durable_waiter c k pid owner cls deadline x) S"
    using assms(1) None by (auto simp: join_waiter_def Let_def)
  then show ?thesis using sched_add_durable [OF assms(2)] w None by simp
next
  case (Some v)
  with assms show ?thesis by (auto simp: join_waiter_def split: if_splits)
qed

lemma durable_enterE:
  assumes "durable_enter cf c L k pid owner epoch cls deadline S = Inr (T, e)"
  obtains (renewed) t pm where "find_permit S k = Some pm" "T = set_permit k (set_lease t) S"
  | (waits) dl x S1 w where "find_permit S k = None" "join_waiter c k pid owner cls dl x S = Inr (S1, w)"
      "T = add_ref k 1 S1"
proof -
  from assms obtain axr :: joined where "(case axr of (a, x, r) \<Rightarrow> case deadline of
        Naive _ \<Rightarrow> Inl (RuntimeConflict ''durable permit deadline exceeds ledger deadline'')
      | Aware dl \<Rightarrow>
     (if attempt_deadline (root_deadline r) (op_spec x) (att_created_at a) < dl
      then Inl (RuntimeConflict ''durable permit deadline exceeds ledger deadline'')
      else and_then (get_pool S pid) (\<lambda>p.
        and_then (durable_profile (op_spec x) p epoch) (\<lambda>_.
        case find_permit S k of
          Some pm \<Rightarrow>
            (if pm_kind pm \<noteq> Durable \<or> pm_pool_id pm \<noteq> pid \<or> pm_owner_id pm \<noteq> owner \<or> pm_epoch pm \<noteq> epoch
             then Inl (RuntimeConflict ''durable permit ownership conflict'')
             else Inr (set_permit k (set_lease (mono c + cf_lease cf)) S,
                       Permitted (set_lease (mono c + cf_lease cf) pm)))
        | None \<Rightarrow>
            and_then (join_waiter c k pid owner cls dl x S) (\<lambda>(S1, w).
              Inr (add_ref k 1 S1, Waits w)))))) = Inr (T, e)"
    unfolding durable_enter_def by (elim and_then_InrE) (rule that)
  then obtain dl x where rest: "(case find_permit S k of
          Some pm \<Rightarrow>
            (if pm_kind pm \<noteq> Durable \<or> pm_pool_id pm \<noteq> pid \<or> pm_owner_id pm \<noteq> owner \<or> pm_epoch pm \<noteq> epoch
             then Inl (RuntimeConflict ''durable permit ownership conflict'')
             else Inr (set_permit k (set_lease (mono c + cf_lease cf)) S,
                       Permitted (set_lease (mono c + cf_lease cf) pm)))
        | None \<Rightarrow>
            and_then (join_waiter c k pid owner cls dl x S) (\<lambda>(S1, w).
              Inr (add_ref k 1 S1, Waits w))) = Inr (T, e)"
    by (cases axr; cases deadline) (auto split: if_splits elim!: and_then_InrE)
  show thesis
  proof (cases "find_permit S k")
    case (Some pm)
    with rest have "T = set_permit k (set_lease (mono c + cf_lease cf)) S" by (simp split: if_splits)
    then show thesis by (rule renewed [OF Some])
  next
    case None
    with rest obtain S1 w where "join_waiter c k pid owner cls dl x S = Inr (S1, w)" "T = add_ref k 1 S1"
      by (auto elim!: and_then_InrE)
    then show thesis by (rule waits [OF None])
  qed
qed

lemma sched_durable_enter:
  assumes "durable_enter cf c L k pid owner epoch cls deadline S = Inr (T, e)" and "sched_ok S"
  shows "sched_ok T"
  using assms(1)
proof (cases rule: durable_enterE)
  case (renewed t pm)
  then show ?thesis using sched_set_lease [OF assms(2)] by simp
next
  case (waits dl x S1 w)
  show ?thesis unfolding waits(3) by (rule sched_add_ref [OF sched_join_waiter [OF waits(2) assms(2)]])
qed

lemma join_waiter_permits:
  "join_waiter c k pid owner cls dl x S = Inr (T, w) \<Longrightarrow> sc_permits T = sc_permits S"
  by (auto simp: join_waiter_def Let_def split: option.splits if_splits)

lemma durable_turnE:
  assumes "durable_turn cf c again spec owner epoch w S = (T, r)"
  obtains (stays) "T = expire_dirty (mono c) S"
      "(\<exists>e. r = Inl e) \<or> r = Inr None \<or> (\<exists>pm. r = Inr (Some pm) \<and> find_permit S (wt_identity w) = Some pm)"
  | (queued) f where "first (mono_later c) (wt_pool_id w) (expire_dirty (mono c) S) = (T, f)" "r = Inr None"
  | (granted) p S1 pm where "find_mpool S (wt_pool_id w) = Some p" "durable_profile spec p epoch = Inr ()"
      "find_permit S (wt_identity w) = None" "mono c < wt_deadline w" "sc_control_ready S"
      "pool_ready (expire_dirty (mono c) S) (wt_pool_id w) (mono c)"
      "first (mono_later c) (wt_pool_id w) (expire_dirty (mono c) S) = (S1, Some w)"
      "try_acquire p (held_permits S1) (sc_pools S1) (wt_class w)"
      "durable_grant cf c (wt_identity w) (wt_pool_id w) owner epoch (wt_class w) S1 = (T, pm)"
      "r = Inr (Some pm)"
proof -
  define S0 where "S0 = expire_dirty (mono c) S"
  have fr: "sc_pools S0 = sc_pools S" "held_permits S0 = held_permits S" "sc_control_ready S0 = sc_control_ready S"
    by (simp_all add: S0_def expire_dirty_def Let_def held_permits_def)
  note eq = assms [unfolded durable_turn_def Let_def get_pool_def, folded S0_def, unfolded fr]
  show thesis
  proof (cases "find_mpool S (wt_pool_id w)")
    case None
    with eq show thesis by (intro stays) (auto simp: S0_def)
  next
    case p: (Some p)
    show thesis
    proof (cases "durable_profile spec p epoch = Inr ()")
      case False
      with eq p show thesis by (intro stays) (auto simp: S0_def split: sum.splits)
    next
      case prof: True
      show thesis
      proof (cases "find_permit S (wt_identity w)")
        case (Some pm)
        with eq p prof show thesis by (intro stays) (auto simp: S0_def)
      next
        case none: None
        show thesis
        proof (cases "again = Some False \<or> wt_deadline w \<le> mono c \<or> \<not> sc_control_ready S \<or> \<not> pool_ready S0 (wt_pool_id w) (mono c)")
          case True
          with eq p prof none show thesis by (intro stays) (auto simp: S0_def split: if_splits)
        next
          case ready: False
          obtain S1 f where f: "first (mono_later c) (wt_pool_id w) S0 = (S1, f)"
            by (cases "first (mono_later c) (wt_pool_id w) S0")
          obtain S2 pm where gr: "durable_grant cf c (wt_identity w) (wt_pool_id w) owner epoch (wt_class w) S1 = (S2, pm)"
            by (cases "durable_grant cf c (wt_identity w) (wt_pool_id w) owner epoch (wt_class w) S1")
          show thesis
          proof (cases "f \<noteq> Some w \<or> \<not> try_acquire p (held_permits S1) (sc_pools S1) (wt_class w)")
            case True
            with eq p prof none ready f show thesis by (intro queued) (auto simp: S0_def)
          next
            case False
            with eq p prof none ready f gr show thesis by (intro granted [of p S1 pm]) (auto simp: S0_def)
          qed
        qed
      qed
    qed
  qed
qed

lemma sched_durable_grant:
  assumes "durable_grant cf c k pid owner epoch cls S = (T, pm)" and "sched_ok S"
    and "k \<notin> pm_attempt_id ` set (sc_permits S)"
  shows "sched_ok T"
proof -
  have T: "T = notify ((remove_waiter k S)\<lparr>sc_permits := sc_permits S @ [pm]\<rparr>)"
    and pm: "pm_attempt_id pm = k" "permit_ok pm"
    using assms(1) by (auto simp: durable_grant_def Let_def permit_ok_def)
  have "sched_ok (remove_waiter k S)" using assms(2) by (rule sched_remove_waiter)
  then show ?thesis
  proof (rule sched_permits)
    show "permits_ok T"
      by (rule permits_append [OF sched_okD(3) [OF assms(2)], of T pm]) (use pm assms(3) in \<open>simp_all add: T\<close>)
  qed (simp_all add: T)
qed

text \<open>No direct attempt carries the identifier of a durable one.\<close>

definition durable_name :: "string \<Rightarrow> sched \<Rightarrow> bool" where
  "durable_name k S \<longleftrightarrow> (\<forall>p \<in> set (sc_permits S). pm_attempt_id p = k \<longrightarrow> pm_kind p \<noteq> Direct)"

lemma durable_name_fresh:
  assumes "durable_name k S" and "permits_ok S" and "find_permit S k = None"
  shows "k \<notin> pm_attempt_id ` set (sc_permits S)"
proof
  assume "k \<in> pm_attempt_id ` set (sc_permits S)"
  then obtain p where p: "p \<in> set (sc_permits S)" "pm_attempt_id p = k" by auto
  then have "pm_held p" using assms(1,2) by (auto simp: durable_name_def permits_ok_def permit_ok_def)
  with p assms(3) show False by (auto simp: lookup_row_None_iff held_permits_def)
qed

lemma sched_durable_turn:
  assumes "durable_turn cf c again spec owner epoch w S = (T, r)" and "sched_ok S"
    and "durable_name (wt_identity w) S"
  shows "sched_ok T"
  using assms(1)
proof (cases rule: durable_turnE)
  case stays
  then show ?thesis using sched_expire_dirty [OF assms(2)] by simp
next
  case (queued f)
  show ?thesis by (rule sched_first [OF queued(1) sched_expire_dirty [OF assms(2)]])
next
  case (granted p S1 pm)
  have S1: "sched_ok S1" by (rule sched_first [OF granted(7) sched_expire_dirty [OF assms(2)]])
  have "wt_identity w \<notin> pm_attempt_id ` set (sc_permits S)"
    by (rule durable_name_fresh [OF assms(3) sched_okD(3) [OF assms(2)] granted(3)])
  moreover have "sc_permits S1 = sc_permits S"
    using first_frame [OF granted(7)] by (simp add: expire_dirty_def Let_def)
  ultimately show ?thesis using sched_durable_grant [OF granted(9) S1] by simp
qed

lemma sched_durable_exit: "sched_ok S \<Longrightarrow> sched_ok (durable_exit w S)"
proof -
  assume "sched_ok S"
  then have a: "sched_ok (add_ref (wt_identity w) (- 1) S)" by (rule sched_add_ref)
  then have "sched_ok (T\<lparr>sc_refs := f\<rparr>)" if "sched_ok T" for T f
    using that by (rule_tac sched_frame [of T]) simp_all
  with a sched_remove_waiter [OF a] show ?thesis by (simp add: durable_exit_def Let_def)
qed

lemma sched_durable_heartbeat: "durable_heartbeat cf c k owner S = Inr T \<Longrightarrow> sched_ok S \<Longrightarrow> sched_ok T"
  by (auto simp: durable_heartbeat_def sched_set_lease split: option.splits if_splits)

lemma sched_release:
  assumes "sched_ok S" and "durable_name k S"
  shows "sched_ok (release k S)"
proof (rule sched_permits [OF assms(1)])
  show "permits_ok (release k S)"
    by (rule permits_release [OF sched_okD(3) [OF assms(1)]]) (use assms(2) in \<open>simp add: durable_name_def\<close>)
qed simp_all

lemma held_durable_name:
  assumes "find_permit S k = Some p" and "pm_kind p \<noteq> Direct" and "permits_ok S"
  shows "durable_name k S"
  using permit_by_key [OF assms(1)] assms(2) permit_by_id [OF assms(3)] unfolding durable_name_def by metis

lemma sched_durable_release:
  assumes "durable_release L k owner S = Inr T" and "sched_ok S"
  shows "sched_ok T"
proof (cases "find_permit S k")
  case None
  with assms show ?thesis by (simp add: durable_release_def)
next
  case (Some p)
  with assms(1) have "pm_kind p = Durable" and T: "T = notify (release k S)"
    by (auto simp: durable_release_def split: if_splits)
  then have "durable_name k S" using held_durable_name [OF Some _ sched_okD(3) [OF assms(2)]] by simp
  then show ?thesis unfolding T by (intro sched_notify sched_release [OF assms(2)])
qed

section \<open>Upkeep\<close>

text \<open>A pool row is stored under the identifier of its profile; \<open>configure_pool\<close> writes no other.\<close>

definition pools_named :: "ledger \<Rightarrow> bool" where
  "pools_named L \<longleftrightarrow> (\<forall>p \<in> set (t_pools L). pool_id p = ps_pool_id (pool_spec_of p))"

lemma pool_records_named:
  assumes "pools_named L" and "p \<in> set (pool_records L)"
  shows "mp_pool_id p = ps_pool_id (mp_spec p)"
proof -
  from assms(2) obtain x where "x \<in> set (t_pools L)" "pool_record L x = Some p"
    by (auto simp: pool_records_def List.map_filter_def)
  with assms(1) show ?thesis by (auto simp: pools_named_def pool_record_def split: option.splits)
qed

lemma set_mpool_frame [simp]:
  "sc_waiters (set_mpool p S) = sc_waiters S" "sc_queues (set_mpool p S) = sc_queues S"
  "sc_queue_counts (set_mpool p S) = sc_queue_counts S" "sc_tenant_counts (set_mpool p S) = sc_tenant_counts S"
  "sc_permits (set_mpool p S) = sc_permits S" "sc_identities (set_mpool p S) = sc_identities S"
  by (simp_all add: set_mpool_def)

lemma pools_set:
  assumes "pools_ok S" and "mp_pool_id p = ps_pool_id (mp_spec p)"
  shows "pools_ok (set_mpool p S)"
proof (cases "find_mpool S (mp_pool_id p)")
  case None
  with assms show ?thesis by (auto simp: pools_ok_def set_mpool_def lookup_row_None_iff)
next
  case (Some x)
  have "distinct (map mp_pool_id (update_rows (\<lambda>x. mp_pool_id x = mp_pool_id p) (\<lambda>_. p) (sc_pools S)))"
    using assms(1) by (simp add: pools_ok_def)
  then show ?thesis using assms Some by (auto simp: pools_ok_def set_mpool_def set_update_rows)
qed

lemma sched_set_mpool:
  assumes "sched_ok S" and "mp_pool_id p = ps_pool_id (mp_spec p)"
  shows "sched_ok (set_mpool p S)"
  by (rule sched_okI [OF waiting_frame [OF sched_okD(1) [OF assms(1)]] known_frame [OF sched_okD(2) [OF assms(1)]]
        permits_frame [OF sched_okD(3) [OF assms(1)]] pools_set [OF sched_okD(4) [OF assms(1)] assms(2)]]) simp_all

lemma sched_end:
  assumes "sched_ok S" and "T = S\<lparr>sc_permits := filter (\<lambda>p. pm_held p \<or> pm_listed p)
      (update_rows P (\<lambda>p. f p\<lparr>pm_held := False\<rparr>) (sc_permits S))\<rparr>"
    and "\<And>p. pm_attempt_id (f p) = pm_attempt_id p \<and> pm_kind (f p) = pm_kind p \<and> pm_listed (f p) = pm_listed p
      \<and> pm_reservation (f p) = pm_reservation p \<and> pm_pool_id (f p) = pm_pool_id p \<and> pm_owner_id (f p) = pm_owner_id p
      \<and> pm_epoch (f p) = pm_epoch p"
    and "\<And>p. P p \<Longrightarrow> permit_ok p \<Longrightarrow> pm_kind p = Direct \<Longrightarrow>
      pm_state (f p) \<in> {FINISHED, FAILED_NOT_SENT, FAILED_RECOVERABLE} \<and>
      (pm_idle_verified (f p) \<longrightarrow> pm_state (f p) = FAILED_RECOVERABLE)"
  shows "sched_ok T"
proof (rule sched_permits [OF assms(1)])
  show "permits_ok T"
    by (rule permits_end [OF sched_okD(3) [OF assms(1)], of T P f]) (use assms(2-4) in simp_all)
qed (simp_all add: assms(2))

lemma held_not_verified: "permit_ok p \<Longrightarrow> pm_held p \<Longrightarrow> pm_kind p = Direct \<Longrightarrow> \<not> pm_idle_verified p"
  by (auto simp: permit_ok_def split: if_splits)

lemma sched_end_old_epoch: "sched_ok S \<Longrightarrow> sched_ok (end_old_epoch pid epoch S)"
  by (rule sched_end [of S _ "\<lambda>p. pm_held p \<and> pm_pool_id p = pid \<and> pm_epoch p \<noteq> epoch \<and> pm_kind p = Direct"
        "\<lambda>p. p\<lparr>pm_state := if pm_state p = RESERVED then FAILED_NOT_SENT else FAILED_RECOVERABLE\<rparr>"])
    (auto simp: end_old_epoch_def held_not_verified)

lemma sched_absorb:
  assumes "sched_ok S" and "mp_pool_id p = ps_pool_id (mp_spec p)"
  shows "sched_ok (absorb_record now p S)"
proof -
  have s1: "sched_ok (set_mpool p S)" using assms by (rule sched_set_mpool)
  have s2: "sched_ok (end_old_epoch (mp_pool_id p) (mp_epoch p) (set_mpool p S))" using s1 by (rule sched_end_old_epoch)
  have "sched_ok (T\<lparr>sc_ready := f, sc_dirty := d\<rparr>)" if "sched_ok T" for T f d
    using that by (rule sched_frame) simp_all
  with s1 s2 show ?thesis by (simp add: absorb_record_def Let_def split: option.splits)
qed

lemma sched_absorb_all:
  assumes "sched_ok S" and "\<And>p. p \<in> set ps \<Longrightarrow> mp_pool_id p = ps_pool_id (mp_spec p)"
  shows "sched_ok (fold (absorb_record now) ps S)"
  using assms by (induction ps arbitrary: S) (simp_all add: sched_absorb)

lemma sched_refresh:
  assumes "refresh cf now c L S = Inr (L', T)" and "sched_ok S" and "pools_named L"
  shows "sched_ok T"
proof -
  have "T = notify (fold (absorb_record (mono c)) (pool_records L) S)"
    using assms(1) by (auto simp: refresh_def Let_def and_then_Inr_iff)
  then show ?thesis
    using sched_notify [OF sched_absorb_all [OF assms(2) pool_records_named [OF assms(3)]]] by simp
qed

lemma sched_put_permit:
  assumes "sched_ok S" and "permit_ok p"
  shows "sched_ok (put_permit p S)"
proof (rule sched_permits [OF assms(1)])
  show "permits_ok (put_permit p S)"
    using sched_okD(3) [OF assms(1)] assms(2) by (auto simp: permits_ok_def put_permit_def)
qed (simp_all add: put_permit_def)

lemma sched_put_all:
  assumes "sched_ok S" and "\<And>p. p \<in> set ps \<Longrightarrow> permit_ok p"
  shows "sched_ok (fold put_permit ps S)"
  using assms by (induction ps arbitrary: S) (simp_all add: sched_put_permit)

lemma records_ok:
  "durable_record t L a = Some p \<Longrightarrow> permit_ok p"
  "legacy_record d = Some p \<Longrightarrow> permit_ok p"
  by (auto simp: durable_record_def legacy_record_def permit_ok_def split: if_splits option.splits)

lemma sched_note_old: "sched_ok S \<Longrightarrow> sched_ok (note_old_owners L ks S)"
proof (induction ks arbitrary: S)
  case (Cons k ks)
  have "sched_ok (S\<lparr>sc_dirty := d, sc_old_expires := f\<rparr>)" "sched_ok (S\<lparr>sc_old_expires := f\<rparr>)" for d f
    using Cons.prems by (auto elim: sched_frame)
  with Cons show ?case by (simp split: option.splits)
qed simp

lemma sched_schedule: "sched_ok S \<Longrightarrow> sched_ok (schedule_pool cf c pid S)"
  by (erule sched_frame) (simp_all add: schedule_pool_def Let_def)

lemma sched_initial: "sched_ok (initial_sched boot)"
  by (simp add: sched_ok_def waiting_ok_def counts_ok_def queues_ok_def known_ok_def permits_ok_def
      pools_ok_def initial_sched_def)

lemma sched_start:
  assumes "start cf now c L S = ((L', T), None)" and "sched_ok S" and "pools_named L"
  shows "sched_ok T"
proof -
  define S1 where "S1 = note_old_owners L (map mp_pool_id (pool_records L)) S"
  define S2 where "S2 = fold (absorb_record (mono c)) (pool_records L) S1"
  define S3 where "S3 = fold put_permit
      (List.map_filter (durable_record (mono c + cf_lease cf) L) (t_attempts L)) S2"
  define S4 where "S4 = notify (fold put_permit (List.map_filter legacy_record (t_direct L)) S3)"
  have "sched_ok S1" unfolding S1_def using assms(2) by (rule sched_note_old)
  then have "sched_ok S2" unfolding S2_def by (rule sched_absorb_all) (rule pool_records_named [OF assms(3)])
  then have "sched_ok S3" unfolding S3_def
    by (rule sched_put_all) (auto simp: List.map_filter_def intro: records_ok)
  then have S4: "sched_ok S4" unfolding S4_def
    by (intro sched_notify sched_put_all) (auto simp: List.map_filter_def intro: records_ok)
  have fold: "sched_ok (fold (schedule_pool cf c) ks U)" if "sched_ok U" for ks U
    using that by (induction ks arbitrary: U) (simp_all add: sched_schedule)
  have "T = expire_dirty (mono_later c) (fold (schedule_pool cf c) (map mp_pool_id (sc_pools S4)) S4)"
    using assms(1) unfolding start_def refresh_initial_def Let_def S1_def [symmetric]
    unfolding S2_def [symmetric] unfolding S3_def [symmetric] unfolding S4_def [symmetric]
    by (simp split: if_splits sum.splits)
  then show ?thesis using sched_expire_dirty [OF fold [OF S4]] by simp
qed

lemma sched_probe_slot: "sched_ok S \<Longrightarrow> sched_ok (probe_slot now idle pid S)"
  by (erule sched_frame) (simp_all add: probe_slot_def Let_def)

lemma set_streak_frame [simp]:
  "sc_permits (set_streak pid sk S) = sc_permits S" "sc_pools (set_streak pid sk S) = sc_pools S"
  "sc_waiters (set_streak pid sk S) = sc_waiters S"
  by (simp_all add: set_streak_def)

lemma sched_set_streak: "sched_ok S \<Longrightarrow> sched_ok (set_streak pid sk S)"
  by (erule sched_frame) (simp_all add: set_streak_def)

lemma sched_settle_idle_direct: "sched_ok S \<Longrightarrow> sched_ok (settle_idle_direct pid sk S)"
  by (rule sched_end [of S _ "idle_settled pid sk"
        "\<lambda>p. p\<lparr>pm_state := FAILED_RECOVERABLE, pm_idle_verified := True\<rparr>"])
    (auto simp: settle_idle_direct_def)

lemma sched_settle_idle_pool:
  assumes "settle_idle_pool c pid started answer L S = ((L', T), e)" and "sched_ok S"
  shows "sched_ok T"
proof -
  have "T = S \<or> (\<exists>sk. T = set_streak pid sk S) \<or>
      (\<exists>sk U. U = settle_idle_direct pid sk (set_streak pid None S) \<and> (T = U \<or> T = notify U))"
    using assms(1) unfolding settle_idle_pool_def Let_def
    by (simp split: option.splits prod.splits if_splits sum.splits) auto
  then show ?thesis
    using assms(2) sched_set_streak sched_settle_idle_direct sched_notify by blast
qed

lemma durable_name_release: "durable_name j S \<Longrightarrow> durable_name j (notify (release k S))"
  by (auto simp: durable_name_def release_def set_update_rows)

lemma sched_reconcile_permits:
  assumes "reconcile_permits live ks S = (T, e)" and "sched_ok S" and "\<forall>k \<in> set ks. durable_name k S"
  shows "sched_ok T"
  using assms
proof (induction ks arbitrary: S)
  case (Cons k ks)
  show ?case
  proof (cases "live k")
    case None
    have "sched_ok (notify (release k S))"
      by (intro sched_notify sched_release) (use Cons.prems in simp_all)
    then show ?thesis using Cons None by (simp add: durable_name_release)
  next
    case (Some st)
    show ?thesis
    proof (cases "find_permit S k = None")
      case True
      with Cons.prems Some show ?thesis by simp
    next
      case False
      have "sched_ok (set_permit k (\<lambda>p. p\<lparr>pm_state := st\<rparr>) S)"
      proof (rule sched_set_permit [OF Cons.prems(2)])
        fix p assume p: "p \<in> set (sc_permits S)" "permit_ok p" "pm_attempt_id p = k"
        have "pm_kind p \<noteq> Direct" using Cons.prems(3) p by (auto simp: durable_name_def)
        with p(2) show "permit_ok (p\<lparr>pm_state := st\<rparr>)" by (simp add: permit_ok_def)
      qed simp
      moreover have "\<forall>j \<in> set ks. durable_name j (set_permit k (\<lambda>p. p\<lparr>pm_state := st\<rparr>) S)"
        using Cons.prems(3) by (auto simp: durable_name_def set_permit_def set_update_rows)
      ultimately show ?thesis using Cons Some False by simp
    qed
  qed
qed simp

lemma sched_reconcile_durable:
  "reconcile_durable L active S = (T, e) \<Longrightarrow> sched_ok S \<Longrightarrow> \<forall>k \<in> set active. durable_name k S \<Longrightarrow> sched_ok T"
  using sched_reconcile_permits by (auto simp: reconcile_durable_def split: if_splits)

lemma sched_remove_waiters: "sched_ok S \<Longrightarrow> sched_ok (fold remove_waiter ks S)"
  by (induction ks arbitrary: S) (simp_all add: sched_remove_waiter)

lemma sched_expire_requests:
  assumes "sched_ok S"
  shows "sched_ok (expire_requests now S)"
proof -
  define gone where "gone = set (expired_identities now S)"
  define S1 where "S1 = S\<lparr>sc_identities := filter (\<lambda>r. idr_identity r \<notin> gone) (sc_identities S),
     sc_permits := filter (\<lambda>p. pm_held p \<or> (case pm_reservation p of None \<Rightarrow> True
       | Some r \<Rightarrow> dq_request_id (dr_request r) \<notin> gone)) (sc_permits S)\<rparr>"
  have "sched_ok S1"
  proof (rule sched_okI)
    show "waiting_ok S1" by (rule waiting_frame [OF sched_okD(1) [OF assms]]) (simp_all add: S1_def)
    have alone: "wt_identity w \<notin> gone" if "w \<in> set (sc_waiters S)" for w
    proof
      assume "wt_identity w \<in> gone"
      then have "find_waiter S (wt_identity w) = None" by (auto simp: gone_def expired_identities_def)
      with that show False by (auto simp: lookup_row_None_iff)
    qed
    show "known_ok S1" unfolding known_ok_def
    proof (intro ballI impI)
      fix w assume w: "w \<in> set (sc_waiters S1)" "wt_kind w = Direct"
      then have "wt_identity w \<in> idr_identity ` set (sc_identities S)" "wt_identity w \<notin> gone"
        using sched_okD(2) [OF assms] alone by (auto simp: known_ok_def S1_def)
      then show "wt_identity w \<in> idr_identity ` set (sc_identities S1)" by (auto simp: S1_def)
    qed
    show "permits_ok S1" using sched_okD(3) [OF assms] by (auto simp: permits_ok_def S1_def distinct_map_filter)
    show "pools_ok S1" by (rule pools_frame [OF sched_okD(4) [OF assms]]) (simp add: S1_def)
  qed
  then show ?thesis
    unfolding expire_requests_def Let_def gone_def [symmetric] S1_def [symmetric] by (rule sched_remove_waiters)
qed

section \<open>The system\<close>

text \<open>One turn of the event loop. The configuration \<open>cf\<close> is fixed.\<close>

inductive sched_step :: "sched_config \<Rightarrow> sched \<Rightarrow> sched \<Rightarrow> bool" for cf where
  TEnqueue: "enqueue cf c q pid owner S = Inr (T, at) \<Longrightarrow> separate q S \<Longrightarrow> sched_step cf S T"
| TLeave: "sched_step cf S (leave k owner S)"
| TReserve: "reserve c aid q pid owner previous S = (T, r) \<Longrightarrow> aid \<notin> pm_attempt_id ` set (sc_permits S)
    \<Longrightarrow> sched_step cf S T"
| TTry: "try_reserve cf c aid q pid owner S = (T, t) \<Longrightarrow> separate q S \<Longrightarrow> aid \<notin> pm_attempt_id ` set (sc_permits S)
    \<Longrightarrow> sched_step cf S T"
| TSend: "direct_mark_send c res S = Inr T \<Longrightarrow> sched_step cf S T"
| TFinish: "direct_finish res evidence S = Inr T \<Longrightarrow> sched_step cf S T"
| TUnknown: "direct_unknown c res S = Inr T \<Longrightarrow> sched_step cf S T"
| TEnter: "durable_enter cf c L k pid owner epoch cls deadline S = Inr (T, d) \<Longrightarrow> sched_step cf S T"
| TTurn: "durable_turn cf c again spec owner epoch w S = (T, p) \<Longrightarrow> durable_name (wt_identity w) S
    \<Longrightarrow> sched_step cf S T"
| TExit: "sched_step cf S (durable_exit w S)"
| TBeat: "durable_heartbeat cf c k owner S = Inr T \<Longrightarrow> sched_step cf S T"
| TRelease: "durable_release L k owner S = Inr T \<Longrightarrow> sched_step cf S T"
| TRefresh: "refresh cf now c L S = Inr (L', T) \<Longrightarrow> pools_named L \<Longrightarrow> sched_step cf S T"
| TProbe: "sched_step cf S (probe_slot now idle pid S)"
| TForget: "sched_step cf S (forget_streaks S)"
| TSettle: "settle_idle_pool cl pid started answer L S = ((L', T), e) \<Longrightarrow> sched_step cf S T"
| TReconcile: "reconcile_durable L active S = (T, e) \<Longrightarrow> \<forall>k \<in> set active. durable_name k S
    \<Longrightarrow> sched_step cf S T"
| TExpire: "sched_step cf S (expire_requests now S)"
| TDirty: "sched_step cf S (expire_dirty now S)"
| TControl: "sched_step cf S (S\<lparr>sc_control_ready := b\<rparr>)"

definition sched_started :: "sched_config \<Rightarrow> sched \<Rightarrow> bool" where
  "sched_started cf S \<longleftrightarrow> (\<exists>now c L L' boot. pools_named L \<and> start cf now c L (initial_sched boot) = ((L', S), None))"

lemma sched_ok_step: "sched_step cf S T \<Longrightarrow> sched_ok S \<Longrightarrow> sched_ok T"
proof (induction rule: sched_step.induct)
  case (TForget S)
  then show ?case by (rule sched_frame) (simp_all add: forget_streaks_def)
next
  case (TControl S b)
  then show ?case by (rule sched_frame) simp_all
qed (erule sched_enqueue sched_leave sched_reserve sched_try_reserve sched_mark_send sched_direct_finish
    sched_direct_unknown sched_durable_enter sched_durable_turn sched_durable_exit sched_durable_heartbeat
    sched_durable_release sched_refresh sched_probe_slot sched_settle_idle_pool sched_reconcile_durable
    sched_expire_requests sched_expire_dirty; assumption)+

interpretation scheduler: invariant_system "sched_started cf" "sched_step cf" sched_ok for cf
  by unfold_locales (auto simp: sched_started_def intro: sched_start sched_initial sched_ok_step)

definition sched_reachable :: "sched_config \<Rightarrow> sched \<Rightarrow> bool" where
  "sched_reachable cf S \<longleftrightarrow> (\<exists>S0. sched_started cf S0 \<and> (sched_step cf)\<^sup>*\<^sup>* S0 S)"

lemma sched_reachable_ok: "sched_reachable cf S \<Longrightarrow> sched_ok S"
  unfolding sched_reachable_def using scheduler.reachable_inv by blast

lemma sched_reachable_step: "sched_reachable cf S \<Longrightarrow> sched_step cf S T \<Longrightarrow> sched_reachable cf T"
  unfolding sched_reachable_def by (meson rtranclp.rtrancl_into_rtrancl)

end
