(* ===== verification/Scheduler_Capacity.thy ===== *)
theory Scheduler_Capacity
  imports Scheduler_System
begin

text \<open>
  Capacity and order of the scheduler: a grant, direct or durable, stays within the limits of
  the pool and its group and goes to the first waiter; the waiter that is first is granted
  when there is room; the waiting buffers stay within their limits. \<open>slot_provider\<close> is the
  interface behind which \<open>SlotCapacity\<close> is one provider of capacity.
\<close>

section \<open>Providers of capacity\<close>

locale slot_provider =
  fixes acquire :: "mpool \<Rightarrow> permit list \<Rightarrow> mpool list \<Rightarrow> workload_class \<Rightarrow> bool"
  assumes open_pool: "acquire p permits pools cls \<Longrightarrow>
      mp_health p = HEALTHY \<and> mp_group_health p = HEALTHY \<and> 0 < mp_target p"
    and room: "acquire p permits pools cls \<Longrightarrow> active_in permits (ps_pool_id (mp_spec p)) < endpoint_limit p"
    and lower_room: "acquire p permits pools cls \<Longrightarrow> pool_kind (mp_spec p) = Llm \<Longrightarrow> cls \<noteq> Qa \<Longrightarrow>
      lower_in permits (ps_pool_id (mp_spec p)) < ps_background_transport_limit (mp_spec p)"
    and group_room: "acquire p permits pools cls \<Longrightarrow> pool_kind (mp_spec p) \<noteq> Llm \<Longrightarrow>
      group_used permits pools (mp_group_id p) < mp_group_ceiling p"
begin

text \<open>Adding the permit that was acquired keeps every limit that was tested.\<close>

lemma acquired_within:
  assumes "acquire p permits pools cls" and "pm_pool_id m = ps_pool_id (mp_spec p)" and "pm_class m = cls"
  shows "active_in (permits @ [m]) (ps_pool_id (mp_spec p)) \<le> endpoint_limit p"
    and "pool_kind (mp_spec p) = Llm \<Longrightarrow> cls \<noteq> Qa \<Longrightarrow>
      lower_in (permits @ [m]) (ps_pool_id (mp_spec p)) \<le> ps_background_transport_limit (mp_spec p)"
    and "pool_kind (mp_spec p) \<noteq> Llm \<Longrightarrow> group_used (permits @ [m]) pools (mp_group_id p) \<le> mp_group_ceiling p"
  using room [OF assms(1)] lower_room [OF assms(1)] group_room [OF assms(1)] assms(2,3)
  by (simp_all add: active_in_def lower_in_def group_used_def)

end

interpretation slots: slot_provider try_acquire
  by unfold_locales (auto simp: try_acquire_def split: if_splits)

section \<open>Grants\<close>

text \<open>The limits of a pool, for one more permit of a class.\<close>

definition within_limits :: "mpool \<Rightarrow> workload_class \<Rightarrow> sched \<Rightarrow> bool" where
  "within_limits p cls S \<longleftrightarrow>
     active_in (held_permits S) (mp_pool_id p) \<le> endpoint_limit p \<and>
     (pool_kind (mp_spec p) = Llm \<and> cls \<noteq> Qa \<longrightarrow>
        lower_in (held_permits S) (mp_pool_id p) \<le> ps_background_transport_limit (mp_spec p)) \<and>
     (pool_kind (mp_spec p) \<noteq> Llm \<longrightarrow> group_used (held_permits S) (sc_pools S) (mp_group_id p) \<le> mp_group_ceiling p)"

lemma append_within:
  assumes "try_acquire p (held_permits S) (sc_pools S) cls" and "pools_ok S" and "p \<in> set (sc_pools S)"
    and "sc_permits T = sc_permits S @ [m]" and "sc_pools T = sc_pools S" and "pm_held m"
    and "pm_pool_id m = mp_pool_id p" and "pm_class m = cls"
  shows "within_limits p cls T"
proof -
  have name: "ps_pool_id (mp_spec p) = mp_pool_id p" using assms(2,3) by (simp add: pools_ok_def)
  have held: "held_permits T = held_permits S @ [m]" using assms(4,6) by (simp add: held_permits_def)
  show ?thesis
    using slots.acquired_within [OF assms(1), of m] assms(5,7,8)
    unfolding within_limits_def held name by simp
qed

lemma grant_permits:
  assumes "grant aid p q pid owner g S = (T, res)"
  obtains m where "sc_permits T = sc_permits S @ [m]" "sc_pools T = sc_pools S" "pm_held m"
    "pm_pool_id m = pid" "pm_class m = dq_workload_class q" "pm_attempt_id m = aid" "pm_state m = RESERVED"
    "pm_reservation m = Some res" "pm_kind m = Direct" "pm_epoch m = mp_epoch p" "dr_generation res = g"
    "sc_identities T = sc_identities S" "sc_waiters T = remove_row wt_identity (dq_request_id q) (sc_waiters S)"
    "dr_request res = q" "dr_pool_id res = pid" "dr_owner_id res = owner"
    "pm_listed m" "dr_attempt_id res = aid"
  using assms by (auto simp: grant_def Let_def intro: that)

lemma durable_grant_permits:
  assumes "durable_grant cf c k pid owner epoch cls S = (T, pm)"
  shows "sc_permits T = sc_permits S @ [pm]" "sc_pools T = sc_pools S" "pm_held pm" "pm_pool_id pm = pid"
    "pm_class pm = cls" "pm_attempt_id pm = k" "pm_kind pm = Durable"
  using assms by (auto simp: durable_grant_def Let_def)

lemma expire_dirty_frame [simp]:
  "sc_waiters (expire_dirty now S) = sc_waiters S" "sc_queues (expire_dirty now S) = sc_queues S"
  "sc_permits (expire_dirty now S) = sc_permits S" "sc_pools (expire_dirty now S) = sc_pools S"
  "sc_identities (expire_dirty now S) = sc_identities S" "sc_control_ready (expire_dirty now S) = sc_control_ready S"
  "sc_ready (expire_dirty now S) = sc_ready S" "sc_unknown_idle (expire_dirty now S) = sc_unknown_idle S"
  by (simp_all add: expire_dirty_def Let_def)

lemma truthful_dirty [simp]: "truthful pid (expire_dirty now S) = truthful pid S"
  by (simp add: truthful_def)

text \<open>
  C8. No overcommitment. Whatever the state, a reservation that is granted leaves its pool
  within the endpoint limit (the transport limit of a completion pool, the target capped by
  the hard ceiling of a native one), a class below QA within the background share, and a
  native pool's group within its ceiling; the pool and its group were healthy and open.
\<close>

theorem grant_within_capacity:
  assumes "sched_reachable cf S" and "reserve c aid q pid owner previous S = (T, Inr (Some res))"
  shows "\<exists>p. find_mpool T pid = Some p \<and> within_limits p (dq_workload_class q) T \<and>
    mp_health p = HEALTHY \<and> mp_group_health p = HEALTHY \<and> 0 < mp_target p"
  using assms(2)
proof (cases rule: reserveE)
  case (granted p w g S1 res')
  have ok: "sched_ok S" using assms(1) by (rule sched_reachable_ok)
  have S1: "sched_ok S1" by (rule sched_first [OF granted(9) sched_expire_dirty [OF ok]])
  have pools: "sc_pools S1 = sc_pools S" using first_frame [OF granted(9)] by simp
  have p: "p \<in> set (sc_pools S1)" "mp_pool_id p = pid"
    using lookup_row_Some_in [OF granted(1)] lookup_row_Some_key [OF granted(1)] pools by simp_all
  obtain m where m: "sc_permits T = sc_permits S1 @ [m]" "sc_pools T = sc_pools S1" "pm_held m"
    "pm_pool_id m = pid" "pm_class m = dq_workload_class q" by (rule grant_permits [OF granted(11)])
  have "within_limits p (dq_workload_class q) T"
    by (rule append_within [OF granted(10) sched_okD(4) [OF S1] p(1) m(1,2,3)]) (simp_all add: m p)
  then show ?thesis using granted(1) slots.open_pool [OF granted(10)] m(2) pools by auto
qed auto

text \<open>
  The same for durable attempts: a permit granted to a waiting executor keeps the pool,
  the background share and the group within their limits.
\<close>

theorem durable_grant_within_capacity:
  assumes "sched_reachable cf S" and "durable_turn cf c again spec owner epoch w S = (T, Inr (Some pm))"
    and "find_permit S (wt_identity w) = None"
  shows "\<exists>p. find_mpool T (wt_pool_id w) = Some p \<and> within_limits p (wt_class w) T \<and> mp_epoch p = epoch \<and>
    mp_health p = HEALTHY \<and> mp_group_health p = HEALTHY \<and> 0 < mp_target p"
  using assms(2)
proof (cases rule: durable_turnE)
  case (granted p S1 pm')
  have ok: "sched_ok S" using assms(1) by (rule sched_reachable_ok)
  have S1: "sched_ok S1" by (rule sched_first [OF granted(7) sched_expire_dirty [OF ok]])
  have pools: "sc_pools S1 = sc_pools S" using first_frame [OF granted(7)] by simp
  have p: "p \<in> set (sc_pools S1)" "mp_pool_id p = wt_pool_id w"
    using lookup_row_Some_in [OF granted(1)] lookup_row_Some_key [OF granted(1)] pools by simp_all
  note m = durable_grant_permits [OF granted(9)]
  have "within_limits p (wt_class w) T"
    by (rule append_within [OF granted(8) sched_okD(4) [OF S1] p(1) m(1,2,3)]) (simp_all add: m p)
  moreover have "mp_epoch p = epoch" using granted(2) by (auto simp: durable_profile_def split: if_splits)
  ultimately show ?thesis using granted(1) slots.open_pool [OF granted(8)] m(2) pools by auto
qed (use assms(3) in auto)

text \<open>
  Strict class order, first come first served. The request that is granted is the first
  by class rank, then by time of arrival, then by name, among all that wait for the pool and
  whose deadline has not passed.
\<close>

theorem grant_is_first:
  assumes "sched_reachable cf S" and "truthful pid S"
    and "reserve c aid q pid owner previous S = (T, Inr (Some res))"
  shows "\<exists>w. find_waiter S (dq_request_id q) = Some w \<and> wt_owner_id w = owner \<and> wt_pool_id w = pid \<and>
    mono_later c < wt_deadline w \<and>
    (\<forall>v \<in> set (sc_waiters S). wt_pool_id v = pid \<and> mono_later c < wt_deadline v \<longrightarrow>
       (RANK (wt_class w), wt_queued_at w, wt_identity w) \<le> (RANK (wt_class v), wt_queued_at v, wt_identity v))"
  using assms(3)
proof (cases rule: reserveE)
  case (granted p w g S1 res')
  have ok: "waiting_ok (expire_dirty (mono c) S)"
    using sched_okD(1) [OF sched_expire_dirty [OF sched_reachable_ok [OF assms(1)]]] .
  note le = first_least [OF granted(9) ok]
  show ?thesis using le assms(2) granted(2,3) by (auto simp: entry_of_def)
qed auto

text \<open>
  C34. No lost wake-up. When the first waiter of an open pool asks and every limit has room,
  the grant succeeds.
\<close>

theorem first_waiter_is_granted:
  assumes "sched_reachable cf S" and "truthful pid S" and "find_mpool S pid = Some p"
    and "find_waiter S (dq_request_id q) = Some w" and "wt_owner_id w = owner" and "wt_pool_id w = pid"
    and "mono_later c < wt_deadline w" and "wall c < dq_deadline q" and "sc_control_ready S"
    and "pool_ready S pid (mono c)" and "validate q p = Inr ()" and "\<not> stale_proxy p q"
    and "\<forall>v \<in> set (sc_waiters S). wt_pool_id v = pid \<and> mono_later c < wt_deadline v \<longrightarrow> entry_of w \<le> entry_of v"
    and "try_acquire p (held_permits S) (sc_pools S) (dq_workload_class q)"
  shows "\<exists>T res. reserve c aid q pid owner None S = (T, Inr (Some res)) \<and> dr_request res = q \<and>
    dr_generation res = 0 \<and> find_waiter T (dq_request_id q) = None"
proof -
  let ?S = "expire_dirty (mono c) S"
  obtain S1 f where f: "first (mono_later c) pid ?S = (S1, f)" by (cases "first (mono_later c) pid ?S")
  have ok: "waiting_ok ?S" using sched_okD(1) [OF sched_expire_dirty [OF sched_reachable_ok [OF assms(1)]]] .
  have "f = Some w"
    by (rule first_found [OF f ok]) (use assms(2,6,7,13) lookup_row_Some_in [OF assms(4)] in simp_all)
  moreover have "sc_pools S1 = sc_pools S" "held_permits S1 = held_permits S"
    using first_frame [OF f] by (simp_all add: held_permits_def)
  moreover obtain S2 res where g: "grant aid p q pid owner 0 S1 = (S2, res)" by (cases "grant aid p q pid owner 0 S1")
  moreover have "pool_ready ?S pid (mono c)" using assms(10) by (simp add: pool_ready_def)
  ultimately have "reserve c aid q pid owner None S = (S2, Inr (Some res))"
    using assms(3-5,8,9,11,12,14) f
    by (simp add: reserve_def Let_def get_pool_def next_generation_def)
  moreover obtain m where "dr_request res = q" "dr_generation res = 0"
    "sc_waiters S2 = remove_row wt_identity (dq_request_id q) (sc_waiters S1)" by (rule grant_permits [OF g])
  ultimately show ?thesis by (auto simp: lookup_remove_row)
qed

end
