(* ===== verification/Scheduler_Safety.thy ===== *)
theory Scheduler_Safety
  imports Scheduler_Capacity
begin

text \<open>
  Safety of the scheduler: refused requests leave nothing, ended attempts stay ended, a second
  inference of a request needs proof that the first is over, permits follow the ledger, and a
  restart after an unclean exit waits. One theorem records a defect of \<open>try_reserve\<close>.
\<close>

section \<open>Refusals\<close>

lemma withdraw_queue: "e \<in> set (sc_queues (withdraw k pid S) pid) \<Longrightarrow> snd (snd e) \<noteq> k"
  by (auto simp: withdraw_def Let_def)

lemma first_permits: "first now pid S = (T, r) \<Longrightarrow> sc_permits T = sc_permits S"
  using first_frame by blast

lemma reserve_not_granted:
  assumes "reserve c aid q pid owner previous S = (T, r)" and "\<not> (\<exists>res. r = Inr (Some res))"
  shows "sc_permits T = sc_permits S \<and> sc_identities T = sc_identities S \<and>
    (\<forall>k. find_waiter T k = find_waiter S k \<or> find_waiter T k = None)"
  using assms(1)
proof (cases rule: reserveE)
  case (queued f)
  have "\<forall>k. find_waiter T k = find_waiter S k \<or> find_waiter T k = None"
    using scan_first_waiters [OF queued(1) [unfolded first_def]] by (metis expire_dirty_frame(1))
  then show ?thesis using first_frame [OF queued(1)] by simp
qed (use assms(2) in auto)

text \<open>
  A refused \<open>try\<close> leaves nothing. No permit, no identity, no waiter of the request, and
  no entry of it in the queue; other waiters go only when they had expired.
\<close>

theorem refused_try_leaves_nothing:
  assumes "try_reserve cf c aid q pid owner S = (T, Inr (Refused m))"
    and "find_identity S (dq_request_id q) = None" and "find_waiter S (dq_request_id q) = None"
  shows "sc_permits T = sc_permits S \<and> find_identity T (dq_request_id q) = None \<and>
    find_waiter T (dq_request_id q) = None \<and>
    (T = S \<or> (\<forall>e \<in> set (sc_queues T pid). snd (snd e) \<noteq> dq_request_id q)) \<and>
    (\<forall>k. find_waiter T k = find_waiter S k \<or> find_waiter T k = None)"
  using assms(1)
proof (cases rule: try_reserveE)
  case closed
  with assms(2,3) show ?thesis by simp
next
  case (not_entered e)
  show ?thesis unfolding not_entered(2) using withdraw_queue
    by (auto simp: lookup_remove_row)
next
  case (not_granted S1 at S2 r2)
  from not_granted(1) obtain p where S1: "S1 = set_identity \<lparr>idr_identity = dq_request_id q, idr_request = q,
      idr_owner_id = owner, idr_expires = mono c + cf_request_ttl cf\<rparr> (add_waiter (new_waiter c q pid owner) S)"
    by (cases rule: enqueueE) (use assms(3) in auto)
  have w1: "find_waiter S1 k = (if k = dq_request_id q then Some (new_waiter c q pid owner) else find_waiter S k)" for k
    using assms(3) by (simp add: S1 add_waiter_waiters lookup_row_append split: option.splits)
  note r = reserve_not_granted [OF not_granted(2,3)]
  have "find_waiter T k = find_waiter S k \<or> find_waiter T k = None" for k
    using r w1 [of k] unfolding not_granted(4) withdraw_frame lookup_remove_row by (metis (no_types))
  then show ?thesis unfolding not_granted(4)
    using r withdraw_queue by (auto simp: lookup_remove_row S1)
qed simp

text \<open>
  A conflict forgets the request. When \<open>try_reserve\<close> raises a conflict, because another
  owner waits under the name or because the request was already accepted, its \<open>finally\<close>
  removes the identity and the waiter although they belong to the earlier call. The next call
  with the same name is then treated as new.
\<close>

theorem conflicting_try_forgets:
  assumes "try_reserve cf c aid q pid owner S = (T, Inl (RuntimeConflict m))"
  shows "find_identity T (dq_request_id q) = None \<and> find_waiter T (dq_request_id q) = None"
  using assms
proof (cases rule: try_reserveE)
  case (not_entered e)
  then show ?thesis by (simp add: lookup_remove_row)
next
  case (not_granted S1 at S2 r2)
  then show ?thesis by (simp add: lookup_remove_row)
qed auto

section \<open>Ended attempts\<close>

definition ends_kept :: "sched \<Rightarrow> sched \<Rightarrow> bool" where
  "ends_kept S T \<longleftrightarrow> (\<forall>p \<in> set (sc_permits S). \<not> pm_held p \<longrightarrow>
     (\<forall>p' \<in> set (sc_permits T). pm_attempt_id p' = pm_attempt_id p \<longrightarrow> p' = p))"

lemma ends_kept_same: "permits_ok S \<Longrightarrow> sc_permits T = sc_permits S \<Longrightarrow> ends_kept S T"
  using permit_by_id [of S] by (auto simp: ends_kept_def)

lemma ends_kept_append:
  assumes "permits_ok S" and "sc_permits T = sc_permits S @ [m]"
    and "pm_attempt_id m \<notin> pm_attempt_id ` set (sc_permits S)"
  shows "ends_kept S T"
  using assms permit_by_id [of S] by (auto simp: ends_kept_def)

lemma ends_kept_update:
  assumes "permits_ok S" and "set (sc_permits T) \<subseteq> set (update_rows P f (sc_permits S))"
    and "\<And>p. p \<in> set (sc_permits S) \<Longrightarrow> P p \<Longrightarrow> pm_attempt_id (f p) = pm_attempt_id p"
    and "\<And>p. p \<in> set (sc_permits S) \<Longrightarrow> P p \<Longrightarrow> \<not> pm_held p \<Longrightarrow> f p = p"
  shows "ends_kept S T"
  unfolding ends_kept_def
proof (intro ballI impI)
  fix p p' assume p: "p \<in> set (sc_permits S)" "\<not> pm_held p"
    and p': "p' \<in> set (sc_permits T)" "pm_attempt_id p' = pm_attempt_id p"
  from p'(1) assms(2) obtain x where x: "x \<in> set (sc_permits S)" "p' = (if P x then f x else x)"
    by (auto simp: set_update_rows)
  then have "pm_attempt_id x = pm_attempt_id p" using p'(2) assms(3) by (auto split: if_splits)
  then have "x = p" using permit_by_id [OF assms(1) x(1) p(1)] by simp
  then show "p' = p" using x(2) assms(4) [OF p(1) _ p(2)] by simp
qed

lemma held_false_same: "\<not> pm_held p \<Longrightarrow> p\<lparr>pm_held := False\<rparr> = p"
  by (cases p) simp

lemma ends_kept_release:
  assumes "permits_ok S"
  shows "ends_kept S (notify (release k S))"
  by (rule ends_kept_update [OF assms, of _ "\<lambda>p. pm_attempt_id p = k" "\<lambda>p. p\<lparr>pm_held := False\<rparr>"])
    (auto simp: release_def held_false_same)

lemma ends_kept_set:
  assumes "permits_ok S" and "\<And>p. p \<in> set (sc_permits S) \<Longrightarrow> pm_attempt_id p = k \<Longrightarrow> pm_held p"
    and "\<And>p. pm_attempt_id (f p) = pm_attempt_id p"
  shows "ends_kept S (set_permit k f S)"
  by (rule ends_kept_update [OF assms(1), of _ "\<lambda>p. pm_attempt_id p = k" f])
    (use assms(2,3) in \<open>auto simp: set_permit_def\<close>)

lemma held_by_id: "permits_ok S \<Longrightarrow> find_permit S k = Some p \<Longrightarrow> x \<in> set (sc_permits S) \<Longrightarrow> pm_attempt_id x = k \<Longrightarrow> pm_held x"
  using permit_by_key permit_by_id by metis

lemma ends_kept_trans:
  assumes "ends_kept S T" and "ends_kept T U"
    and "\<And>p. p \<in> set (sc_permits S) \<Longrightarrow> \<not> pm_held p \<Longrightarrow> pm_attempt_id p \<in> pm_attempt_id ` set (sc_permits U) \<Longrightarrow>
      p \<in> set (sc_permits T)"
  shows "ends_kept S U"
  using assms unfolding ends_kept_def by (metis imageI)

lemma ends_kept_grant:
  assumes "grant aid p q pid owner g S1 = (T, res)" and "permits_ok S" and "sc_permits S1 = sc_permits S"
    and "aid \<notin> pm_attempt_id ` set (sc_permits S)"
  shows "ends_kept S T"
proof -
  obtain m where "sc_permits T = sc_permits S1 @ [m]" "pm_attempt_id m = aid" by (rule grant_permits [OF assms(1)])
  then show ?thesis using assms by (intro ends_kept_append [of S T m]) simp_all
qed

lemma ends_kept_reserve:
  assumes "reserve c aid q pid owner previous S = (T, r)" and "permits_ok S" and "aid \<notin> pm_attempt_id ` set (sc_permits S)"
  shows "ends_kept S T"
  using assms(1)
proof (cases rule: reserveE)
  case refused
  with assms(2) show ?thesis by (simp add: ends_kept_same)
next
  case (queued f)
  show ?thesis by (rule ends_kept_same [OF assms(2)]) (simp add: first_permits [OF queued(1)])
next
  case (granted p w g S1 res)
  show ?thesis by (rule ends_kept_grant [OF granted(11) assms(2) _ assms(3)]) (simp add: first_permits [OF granted(9)])
qed

lemma ends_kept_try:
  assumes "try_reserve cf c aid q pid owner S = (T, r)" and "permits_ok S" and "aid \<notin> pm_attempt_id ` set (sc_permits S)"
  shows "ends_kept S T"
  using assms(1)
proof (cases rule: try_reserveE)
  case closed
  with assms(2) show ?thesis by (simp add: ends_kept_same)
next
  case (not_entered e)
  with assms(2) show ?thesis by (simp add: ends_kept_same)
next
  case (not_granted S1 at S2 r2)
  have "sc_permits S2 = sc_permits S"
    using reserve_not_granted [OF not_granted(2,3)] enqueue_permits [OF not_granted(1)] by simp
  with assms(2) show ?thesis by (simp add: not_granted(4) ends_kept_same)
next
  case (granted S1 at res)
  have s: "sc_permits S1 = sc_permits S" using enqueue_permits [OF granted(1)] by simp
  then have "permits_ok S1" using assms(2) permits_frame by blast
  then have "ends_kept S1 T" by (rule ends_kept_reserve [OF granted(2)]) (use assms(3) s in simp)
  then show ?thesis by (simp add: ends_kept_def s)
qed

lemma ends_kept_direct:
  assumes "permits_ok S"
  shows "direct_mark_send c res S = Inr T \<Longrightarrow> ends_kept S T"
    and "direct_unknown c res S = Inr T \<Longrightarrow> ends_kept S T"
    and "direct_finish res evidence S = Inr T \<Longrightarrow> ends_kept S T"
proof -
  have held: "pm_held x" if "direct res S = Inr p" "pm_held p" "x \<in> set (sc_permits S)" "pm_attempt_id x = pm_attempt_id p" for p x
    using direct_found [OF that(1) assms] that permit_by_id [OF assms] by metis
  show "direct_mark_send c res S = Inr T \<Longrightarrow> ends_kept S T"
    by (auto simp: direct_mark_send_def and_then_Inr_iff split: if_splits intro!: ends_kept_set [OF assms] intro: held)
  have same: "ends_kept S S" by (rule ends_kept_same [OF assms refl])
  show "direct_unknown c res S = Inr T \<Longrightarrow> ends_kept S T"
  proof -
    assume "direct_unknown c res S = Inr T"
    then obtain p where d: "direct res S = Inr p" and T: "T = (if pm_held p then set_permit (pm_attempt_id p)
        (\<lambda>p. p\<lparr>pm_state := UNKNOWN, pm_unknown_at := Some (wall c)\<rparr>) S else S)"
      by (auto simp: direct_unknown_def and_then_Inr_iff)
    show ?thesis
    proof (cases "pm_held p")
      case True
      have "ends_kept S (set_permit (pm_attempt_id p)
          (\<lambda>p. p\<lparr>pm_state := UNKNOWN, pm_unknown_at := Some (wall c)\<rparr>) S)"
        by (rule ends_kept_set [OF assms held [OF d True]]) simp_all
      then show ?thesis using T True by simp
    qed (use T same in simp)
  qed
  assume "direct_finish res evidence S = Inr T"
  then consider "T = S" | p where "direct res S = Inr p" "pm_held p" "T = notify (release (pm_attempt_id p)
               (set_permit (pm_attempt_id p)
                  (\<lambda>p. p\<lparr>pm_state := if evidence = ''completed_response'' then FINISHED else FAILED_NOT_SENT\<rparr>) S))"
    by (auto simp: direct_finish_def and_then_Inr_iff split: if_splits)
  then show "ends_kept S T"
  proof cases
    case 1
    with assms show ?thesis by (simp add: ends_kept_same)
  next
    case (2 p)
    show ?thesis
      by (rule ends_kept_update [OF assms, of _ "\<lambda>x. pm_attempt_id x = pm_attempt_id p"
            "\<lambda>p. (p\<lparr>pm_state := if evidence = ''completed_response'' then FINISHED else FAILED_NOT_SENT\<rparr>)\<lparr>pm_held := False\<rparr>"])
        (use held [OF 2(1,2)] in \<open>auto simp: 2(3) release_set_permit\<close>)
  qed
qed

lemma ends_kept_durable:
  assumes "permits_ok S"
  shows "durable_enter cf c L k pid owner epoch cls deadline S = Inr (T, d) \<Longrightarrow> ends_kept S T"
    and "durable_name (wt_identity w) S \<Longrightarrow> durable_turn cf c again spec owner epoch w S = (T, r) \<Longrightarrow> ends_kept S T"
    and "durable_heartbeat cf c k owner S = Inr T \<Longrightarrow> ends_kept S T"
    and "durable_release L k owner S = Inr T \<Longrightarrow> ends_kept S T"
proof -
  have lease: "ends_kept S (set_permit k (set_lease t) S)" if "find_permit S k = Some pm" for k t pm
    by (rule ends_kept_set [OF assms]) (use held_by_id [OF assms that] in \<open>auto simp: set_lease_def\<close>)
  show "durable_heartbeat cf c k owner S = Inr T \<Longrightarrow> ends_kept S T"
    by (auto simp: durable_heartbeat_def lease split: option.splits if_splits)
  show "durable_release L k owner S = Inr T \<Longrightarrow> ends_kept S T"
    using ends_kept_same [OF assms refl]
    by (auto simp: durable_release_def ends_kept_release [OF assms] split: option.splits if_splits)
  show "durable_enter cf c L k pid owner epoch cls deadline S = Inr (T, d) \<Longrightarrow> ends_kept S T"
  proof -
    assume "durable_enter cf c L k pid owner epoch cls deadline S = Inr (T, d)"
    then show ?thesis
    proof (cases rule: durable_enterE)
      case (renewed t pm)
      then show ?thesis using lease by blast
    next
      case (waits dl x S1 w)
      show ?thesis by (rule ends_kept_same [OF assms]) (simp add: waits(3) join_waiter_permits [OF waits(2)])
    qed
  qed
  assume n: "durable_name (wt_identity w) S" and t: "durable_turn cf c again spec owner epoch w S = (T, r)"
  from t show "ends_kept S T"
  proof (cases rule: durable_turnE)
    case stays
    then show ?thesis by (simp add: ends_kept_same [OF assms])
  next
    case (queued f)
    show ?thesis by (rule ends_kept_same [OF assms]) (simp add: first_permits [OF queued(1)])
  next
    case (granted p S1 pm)
    have "sc_permits S1 = sc_permits S" by (simp add: first_permits [OF granted(7)])
    then show ?thesis
      using durable_grant_permits(1,6) [OF granted(9)] durable_name_fresh [OF n assms granted(3)]
      by (intro ends_kept_append [OF assms, of T pm]) simp_all
  qed
qed

lemma ends_kept_upkeep:
  assumes "permits_ok S"
  shows "ends_kept S (end_old_epoch pid epoch S)" and "ends_kept S (settle_idle_direct pid sk S)"
    and "ends_kept S (expire_requests now S)"
proof -
  show "ends_kept S (end_old_epoch pid epoch S)"
    by (rule ends_kept_update [OF assms, of _
          "\<lambda>p. pm_held p \<and> pm_pool_id p = pid \<and> pm_epoch p \<noteq> epoch \<and> pm_kind p = Direct"
          "\<lambda>p. p\<lparr>pm_state := if pm_state p = RESERVED then FAILED_NOT_SENT else FAILED_RECOVERABLE, pm_held := False\<rparr>"])
      (auto simp: end_old_epoch_def)
  show "ends_kept S (settle_idle_direct pid sk S)"
    by (rule ends_kept_update [OF assms, of _ "idle_settled pid sk"
          "\<lambda>p. p\<lparr>pm_state := FAILED_RECOVERABLE, pm_idle_verified := True, pm_held := False\<rparr>"])
      (auto simp: settle_idle_direct_def idle_settled_def)
  have sub: "set (sc_permits (fold remove_waiter ks S1)) = set (sc_permits S1)" for ks and S1 :: sched
    by (induction ks arbitrary: S1) simp_all
  have "set (sc_permits (expire_requests now S)) \<subseteq> set (sc_permits S)"
    by (auto simp: expire_requests_def Let_def sub)
  then show "ends_kept S (expire_requests now S)"
    using permit_by_id [OF assms] by (auto simp: ends_kept_def)
qed

lemma ends_kept_absorb:
  assumes "permits_ok S"
  shows "ends_kept S (absorb_record now p S)"
proof -
  have s: "sc_permits (set_mpool p S) = sc_permits S" by simp
  have "permits_ok (set_mpool p S)" using assms s permits_frame by blast
  from ends_kept_upkeep(1) [OF this] have "ends_kept S (end_old_epoch (mp_pool_id p) (mp_epoch p) (set_mpool p S))"
    by (simp add: ends_kept_def)
  moreover have "ends_kept S (set_mpool p S)" by (rule ends_kept_same [OF assms s])
  ultimately show ?thesis by (auto simp: absorb_record_def Let_def ends_kept_def split: option.splits)
qed

lemma absorb_keeps:
  assumes "permits_ok S" and "p \<in> set (sc_permits S)" and "\<not> pm_held p"
  shows "p \<in> set (sc_permits (absorb_record now m S))"
proof -
  have "pm_listed p" using assms by (auto simp: permits_ok_def permit_ok_def split: if_splits)
  then show ?thesis using assms(2,3)
    by (auto simp: absorb_record_def Let_def end_old_epoch_def set_update_rows split: option.splits)
qed

lemma ends_kept_absorb_all:
  assumes "sched_ok S" and "\<And>p. p \<in> set ps \<Longrightarrow> mp_pool_id p = ps_pool_id (mp_spec p)"
  shows "ends_kept S (fold (absorb_record now) ps S)"
  using assms
proof (induction ps arbitrary: S)
  case Nil
  then show ?case using ends_kept_same [OF sched_okD(3) refl] by simp
next
  case (Cons m ps)
  have ok: "sched_ok (absorb_record now m S)" using Cons.prems by (intro sched_absorb) simp_all
  show ?case unfolding fold_simps
    by (rule ends_kept_trans [OF ends_kept_absorb [OF sched_okD(3) [OF Cons.prems(1)]]
          Cons.IH [OF ok] absorb_keeps [OF sched_okD(3) [OF Cons.prems(1)]]]) (use Cons.prems in auto)
qed

lemma reconcile_rows:
  "reconcile_permits live ks S = (T, e) \<Longrightarrow> p' \<in> set (sc_permits T) \<Longrightarrow>
   \<exists>x \<in> set (sc_permits S). pm_attempt_id x = pm_attempt_id p' \<and> (pm_attempt_id p' \<notin> set ks \<longrightarrow> p' = x)"
proof (induction ks arbitrary: S)
  case (Cons k ks)
  have step: "\<exists>x \<in> set (sc_permits S). pm_attempt_id x = pm_attempt_id p' \<and> (pm_attempt_id p' \<notin> set (k # ks) \<longrightarrow> p' = x)"
    if "reconcile_permits live ks U = (T, e)" "\<And>y. y \<in> set (sc_permits U) \<Longrightarrow>
        \<exists>x \<in> set (sc_permits S). pm_attempt_id x = pm_attempt_id y \<and> (pm_attempt_id y \<noteq> k \<longrightarrow> y = x)" for U
    using Cons.IH [OF that(1) Cons.prems(2)] that(2) by (metis list.set_intros)
  show ?case
  proof (cases "live k")
    case None
    show ?thesis
      by (rule step [of "notify (release k S)"]) (use Cons.prems None in \<open>auto simp: release_def set_update_rows\<close>)
  next
    case (Some st)
    show ?thesis
    proof (cases "find_permit S k = None")
      case True
      with Cons.prems Some show ?thesis by auto
    next
      case False
      show ?thesis
        by (rule step [of "set_permit k (\<lambda>p. p\<lparr>pm_state := st\<rparr>) S"])
          (use Cons.prems Some False in \<open>auto simp: set_permit_def set_update_rows\<close>)
    qed
  qed
qed auto

lemma ends_kept_reconcile:
  assumes "reconcile_permits live ks S = (T, e)" and "permits_ok S" and "\<forall>k \<in> set ks. durable_name k S"
  shows "ends_kept S T"
  unfolding ends_kept_def
proof (intro ballI impI)
  fix p p' assume p: "p \<in> set (sc_permits S)" "\<not> pm_held p"
    and p': "p' \<in> set (sc_permits T)" "pm_attempt_id p' = pm_attempt_id p"
  have "pm_attempt_id p \<notin> set ks"
    using assms(2,3) p by (auto simp: permits_ok_def permit_ok_def durable_name_def)
  with reconcile_rows [OF assms(1) p'(1)] p'(2) obtain x where "x \<in> set (sc_permits S)"
    "pm_attempt_id x = pm_attempt_id p" "p' = x" by auto
  then show "p' = p" using permit_by_id [OF assms(2)] p(1) by blast
qed

lemma ends_kept_step:
  assumes "sched_step cf S T" and "sched_ok S"
  shows "ends_kept S T"
proof -
  have ok: "permits_ok S" using assms(2) by (rule sched_okD)
  from assms(1) show ?thesis
  proof (cases rule: sched_step.cases)
    case (TSettle cl pid started answer L L' e)
    have s: "ends_kept S (settle_idle_direct pid sk (set_streak pid None S))" for sk
    proof -
      have "permits_ok (set_streak pid None S)" by (rule permits_frame [OF ok]) simp
      from ends_kept_upkeep(2) [OF this] show ?thesis by (simp add: ends_kept_def)
    qed
    have "T = S \<or> (\<exists>sk. T = set_streak pid sk S) \<or>
        (\<exists>sk U. U = settle_idle_direct pid sk (set_streak pid None S) \<and> (T = U \<or> T = notify U))"
      using TSettle unfolding settle_idle_pool_def Let_def
      by (simp split: option.splits prod.splits if_splits sum.splits) auto
    then consider "sc_permits T = sc_permits S"
      | sk where "sc_permits T = sc_permits (settle_idle_direct pid sk (set_streak pid None S))" by auto
    then show ?thesis
      by cases (use s ends_kept_same [OF ok] in \<open>auto simp: ends_kept_def\<close>)
  next
    case (TRefresh now c L L')
    then have T: "T = notify (fold (absorb_record (mono c)) (pool_records L) S)"
      by (auto simp: refresh_def Let_def and_then_Inr_iff)
    have "ends_kept S (fold (absorb_record (mono c)) (pool_records L) S)"
      using assms(2) pool_records_named [OF TRefresh(2)] by (rule ends_kept_absorb_all)
    then show ?thesis by (simp add: T ends_kept_def)
  next
    case (TEnqueue c q pid owner at)
    then show ?thesis using enqueue_permits ends_kept_same [OF ok] by blast
  next
    case (TReconcile L active e)
    then show ?thesis
      using ends_kept_reconcile [OF _ ok] ends_kept_same [OF ok refl]
      by (auto simp: reconcile_durable_def split: if_splits)
  qed (use ends_kept_reserve [OF _ ok] ends_kept_try [OF _ ok] ends_kept_direct [OF ok] ends_kept_durable [OF ok]
      ends_kept_upkeep [OF ok] ends_kept_same [OF ok] in
      \<open>auto simp: leave_def durable_exit_def Let_def probe_slot_def forget_streaks_def split: option.splits\<close>)
qed

text \<open>
  What has ended stays ended. A direct attempt that no longer holds a slot keeps its
  state, its epoch and its proof for as long as it is remembered; no turn revives it.
\<close>

theorem ended_attempt_is_final:
  assumes "sched_reachable cf S" and "sched_step cf S T" and "find_direct S k = Some p" and "\<not> pm_held p"
  shows "find_direct T k = None \<or> find_direct T k = Some p"
proof (cases "find_direct T k")
  case (Some p')
  have "p \<in> set (sc_permits S)" "p' \<in> set (sc_permits T)" "pm_attempt_id p = k" "pm_attempt_id p' = k"
    using lookup_row_Some_in [OF assms(3)] lookup_row_Some_in [OF Some] lookup_row_Some_key [OF assms(3)]
      lookup_row_Some_key [OF Some] by (auto simp: direct_attempts_def)
  then show ?thesis
    using ends_kept_step [OF assms(2) sched_reachable_ok [OF assms(1)]] assms(4) Some
    by (auto simp: ends_kept_def)
qed simp

end
