(* ===== verification/Scheduler_Recovery.thy ===== *)
theory Scheduler_Recovery
  imports Scheduler_Safety
begin

text \<open>
  Lost attempts and restarts: what it takes to settle an attempt of unknown outcome, to infer
  a request again, and to use a pool after an unclean exit; how the durable permits follow the
  ledger; and the bounds of the waiting buffers.
\<close>

section \<open>Idle settlement\<close>

lemma held_settle_idle:
  "held_permits (settle_idle_direct pid sk S) = filter (\<lambda>p. \<not> idle_settled pid sk p) (held_permits S)"
proof -
  have "filter pm_held (filter (\<lambda>p. pm_held p \<or> pm_listed p) (update_rows (idle_settled pid sk)
      (\<lambda>p. p\<lparr>pm_state := FAILED_RECOVERABLE, pm_idle_verified := True, pm_held := False\<rparr>) xs))
    = filter (\<lambda>p. \<not> idle_settled pid sk p) (filter pm_held xs)" for xs
    by (induction xs) auto
  then show ?thesis by (simp add: held_permits_def settle_idle_direct_def)
qed

lemma listed_settle_idle:
  "find_direct (settle_idle_direct pid sk S) k = map_option (\<lambda>p. if idle_settled pid sk p
     then p\<lparr>pm_state := FAILED_RECOVERABLE, pm_idle_verified := True, pm_held := False\<rparr> else p) (find_direct S k)"
proof -
  have "filter pm_listed (filter (\<lambda>p. pm_held p \<or> pm_listed p) (update_rows (idle_settled pid sk)
      (\<lambda>p. p\<lparr>pm_state := FAILED_RECOVERABLE, pm_idle_verified := True, pm_held := False\<rparr>) xs))
    = update_rows (idle_settled pid sk)
      (\<lambda>p. p\<lparr>pm_state := FAILED_RECOVERABLE, pm_idle_verified := True, pm_held := False\<rparr>) (filter pm_listed xs)" for xs
    by (induction xs) auto
  then show ?thesis by (simp add: direct_attempts_def settle_idle_direct_def row_simps)
qed

lemma lookup_filter:
  "distinct (map key t) \<Longrightarrow> lookup_row key k (filter P t) =
     (case lookup_row key k t of None \<Rightarrow> None | Some r \<Rightarrow> if P r then Some r else None)"
proof (cases "lookup_row key k t")
  case None
  then have "lookup_row key k (filter P t) = None" unfolding lookup_row_None_iff by auto
  with None show ?thesis by simp
next
  case (Some r)
  note r = lookup_row_Some_in [OF Some] lookup_row_Some_key [OF Some]
  assume d: "distinct (map key t)"
  then have df: "distinct (map key (filter P t))" by (rule distinct_map_filter)
  show ?thesis
  proof (cases "P r")
    case True
    with r Some show ?thesis by (simp add: lookup_row_iff [OF df])
  next
    case False
    have "k \<notin> key ` set (filter P t)"
      using distinct_lookup_unique [OF d _ r(1)] r(2) False by auto
    then have "lookup_row key k (filter P t) = None" unfolding lookup_row_None_iff .
    with False Some show ?thesis by simp
  qed
qed

lemma held_distinct: "permits_ok S \<Longrightarrow> distinct (map pm_attempt_id (held_permits S))"
  by (simp add: permits_ok_def held_permits_def distinct_map_filter)

lemma direct_of_permit:
  assumes "permits_ok S" and "find_permit S k = Some p" and "pm_kind p = Direct"
  shows "find_direct S k = Some p"
proof -
  have p: "p \<in> set (sc_permits S)" "pm_attempt_id p = k" using permit_by_key [OF assms(2)] by simp_all
  then have "pm_listed p" using assms(1,3) by (auto simp: permits_ok_def permit_ok_def)
  moreover have "distinct (map pm_attempt_id (direct_attempts S))"
    using assms(1) by (simp add: permits_ok_def direct_attempts_def distinct_map_filter)
  ultimately show ?thesis using p by (simp add: lookup_row_iff direct_attempts_def)
qed


section \<open>Inferring again\<close>


section \<open>Following the ledger\<close>

lemma find_set_permit:
  assumes "\<And>p. pm_attempt_id (f p) = pm_attempt_id p \<and> pm_held (f p) = pm_held p"
  shows "find_permit (set_permit k f S) j = map_option (\<lambda>p. if pm_attempt_id p = k then f p else p) (find_permit S j)"
proof -
  have "filter pm_held (update_rows (\<lambda>p. pm_attempt_id p = k) f xs)
      = update_rows (\<lambda>p. pm_attempt_id p = k) f (filter pm_held xs)" for xs
    by (induction xs) (auto simp: assms)
  then show ?thesis by (simp add: held_permits_def set_permit_def lookup_update_rows assms)
qed

lemma find_release: "find_permit (release k S) j = (if j = k then None else find_permit S j)"
proof -
  have "filter (\<lambda>p. (pm_held p \<or> pm_listed p) \<and> pm_held p)
      (update_rows (\<lambda>p. pm_attempt_id p = k) (\<lambda>p. p\<lparr>pm_held := False\<rparr>) xs)
      = remove_row pm_attempt_id k (filter pm_held xs)" for xs :: "permit list"
    by (induction xs) (auto simp: remove_row_def)
  then show ?thesis by (simp add: held_permits_def release_def lookup_remove_row)
qed

lemma held_notify [simp]: "held_permits (notify S) = held_permits S"
  by (simp add: held_permits_def)

lemma reconcile_find:
  assumes "distinct ks" and "\<forall>k \<in> set ks. find_permit S k \<noteq> None"
    and "reconcile_permits live ks S = (T, e)"
  shows "e = None \<and> find_permit T j = (if j \<in> set ks
     then (case live j of None \<Rightarrow> None | Some st \<Rightarrow> map_option (\<lambda>p. p\<lparr>pm_state := st\<rparr>) (find_permit S j))
     else find_permit S j)"
  using assms
proof (induction ks arbitrary: S)
  case (Cons k ks)
  show ?case
  proof (cases "live k")
    case None
    have "\<forall>i \<in> set ks. find_permit (notify (release k S)) i \<noteq> None"
      using Cons.prems(1,2) by (auto simp: find_release)
    from Cons.IH [OF _ this] Cons.prems None show ?thesis by (auto simp: find_release split: option.splits)
  next
    case (Some st)
    define S1 where "S1 = set_permit k (\<lambda>p. p\<lparr>pm_state := st\<rparr>) S"
    have f: "find_permit S1 i = map_option (\<lambda>p. if pm_attempt_id p = k then p\<lparr>pm_state := st\<rparr> else p) (find_permit S i)" for i
      unfolding S1_def by (rule find_set_permit) simp
    have "\<forall>i \<in> set ks. find_permit S1 i \<noteq> None" using Cons.prems(2) by (auto simp: f)
    moreover obtain y where "find_permit S k = Some y" using Cons.prems(2) by auto
    then have "reconcile_permits live ks S1 = (T, e)" using Cons.prems(3) Some by (simp add: S1_def)
    ultimately have ih: "e = None \<and> find_permit T j = (if j \<in> set ks
       then (case live j of None \<Rightarrow> None | Some st \<Rightarrow> map_option (\<lambda>p. p\<lparr>pm_state := st\<rparr>) (find_permit S1 j))
       else find_permit S1 j)" using Cons.IH Cons.prems(1) by simp
    have "find_permit S1 j = (if j = k then map_option (\<lambda>p. p\<lparr>pm_state := st\<rparr>) (find_permit S j) else find_permit S j)"
      unfolding f by (cases "find_permit S j") (auto dest: permit_by_key)
    then show ?thesis using ih Cons.prems(1) Some by (auto split: option.splits)
  qed
qed simp

text \<open>
  Durable permits mirror the ledger. The reconciliation of a state with a reading of the
  ledger never fails when no other turn comes between; afterwards a durable permit is held
  exactly when the ledger still has its attempt, holding compute or reserved, in the ledger's
  state, and no other permit has moved.
\<close>

theorem reconcile_mirrors_ledger:
  assumes "sched_reachable cf S" and "reconcile_durable L (durable_ids S) S = (T, e)"
  shows "e = None \<and>
    (\<forall>k p. find_permit S k = Some p \<longrightarrow> find_permit T k =
       (if pm_kind p = Direct then Some p
        else case live_states L k of None \<Rightarrow> None | Some st \<Rightarrow> Some (p\<lparr>pm_state := st\<rparr>))) \<and>
    (\<forall>k. find_permit S k = None \<longrightarrow> find_permit T k = None)"
proof -
  have ok: "permits_ok S" using sched_okD(3) [OF sched_reachable_ok [OF assms(1)]] .
  have ids: "k \<in> set (durable_ids S) \<longleftrightarrow> (\<exists>p. find_permit S k = Some p \<and> pm_kind p \<noteq> Direct)" for k
    using lookup_row_iff [OF held_distinct [OF ok]] by (auto simp: durable_ids_def)
  have dist: "distinct (durable_ids S)"
    using held_distinct [OF ok] by (simp add: durable_ids_def distinct_map_filter)
  have "\<forall>k \<in> set (durable_ids S). find_permit S k \<noteq> None" using ids by blast
  note r = reconcile_find [OF dist this]
  show ?thesis
  proof (cases "durable_ids S = []")
    case True
    with assms(2) ids show ?thesis by (auto simp: reconcile_durable_def)
  next
    case False
    with assms(2) have "reconcile_permits (live_states L) (durable_ids S) S = (T, e)"
      by (simp add: reconcile_durable_def)
    from r [OF this] ids show ?thesis by (auto split: option.splits)
  qed
qed

section \<open>Restarts\<close>

lemma note_old_dirty:
  assumes "k \<in> set ks" and "lookup_row own_id (pool_owner k) (t_owners L) = Some w" and "own_boot w \<noteq> sc_boot S"
  shows "k \<in> set (sc_dirty (note_old_owners L ks S)) \<and> sc_old_expires (note_old_owners L ks S) k = own_lease_expires_at w"
proof -
  have boot: "sc_boot (note_old_owners L ks S) = sc_boot S" for ks and S :: sched
    by (induction ks arbitrary: S) (auto split: option.splits)
  have keep: "k \<in> set (sc_dirty S) \<and> sc_old_expires S k = own_lease_expires_at w \<Longrightarrow>
      k \<in> set (sc_dirty (note_old_owners L ks S)) \<and> sc_old_expires (note_old_owners L ks S) k = own_lease_expires_at w"
    for ks and S :: sched
  proof (induction ks arbitrary: S)
    case (Cons j ks)
    show ?case
    proof (cases "lookup_row own_id (pool_owner j) (t_owners L)")
      case None
      with Cons show ?thesis by simp
    next
      case (Some v)
      have "j = k \<Longrightarrow> v = w" using Some assms(2) by simp
      then show ?thesis using Cons Some by auto
    qed
  qed simp
  from assms(1,3) show ?thesis
  proof (induction ks arbitrary: S)
    case (Cons j ks)
    show ?case
    proof (cases "j = k")
      case True
      then show ?thesis using assms(2) Cons.prems(2) by (auto intro!: keep)
    next
      case False
      then show ?thesis using Cons.prems
        by (auto intro!: Cons.IH split: option.splits)
    qed
  qed simp
qed

lemma absorb_new_dirty:
  assumes "distinct (map mp_pool_id ps)" and "\<forall>p \<in> set ps. find_mpool S (mp_pool_id p) = None"
  shows "sc_dirty (fold (absorb_record now) ps S) = sc_dirty S \<and>
    sc_old_expires (fold (absorb_record now) ps S) = sc_old_expires S \<and>
    map mp_pool_id (sc_pools (fold (absorb_record now) ps S)) = map mp_pool_id (sc_pools S) @ map mp_pool_id ps"
  using assms
proof (induction ps arbitrary: S)
  case (Cons p ps)
  have a: "absorb_record now p S = S\<lparr>sc_pools := sc_pools S @ [p]\<rparr>"
    using Cons.prems(2) by (simp add: absorb_record_def set_mpool_def)
  have "\<forall>m \<in> set ps. find_mpool (absorb_record now p S) (mp_pool_id m) = None"
    using Cons.prems by (auto simp: a lookup_row_append split: option.splits)
  from Cons.IH [OF _ this] Cons.prems(1) show ?case by (simp add: a)
qed simp

lemma put_all_frame:
  "sc_dirty (fold put_permit ps S) = sc_dirty S" "sc_old_expires (fold put_permit ps S) = sc_old_expires S"
  "sc_pools (fold put_permit ps S) = sc_pools S"
  by (induction ps arbitrary: S) (simp_all add: put_permit_def)

lemma schedule_other:
  "k \<notin> set ks \<Longrightarrow> sc_ready (fold (schedule_pool cf c) ks S) k = sc_ready S k"
  "sc_dirty (fold (schedule_pool cf c) ks S) = sc_dirty S"
  by (induction ks arbitrary: S) (simp_all add: schedule_pool_def Let_def)

lemma schedule_dirty:
  assumes "k \<in> set ks" and "k \<in> set (sc_dirty S)"
  shows "sc_ready (fold (schedule_pool cf c) ks S) k = Some (mono_later c + max 0 (sc_old_expires S k + cf_drain cf k - wall c))"
  using assms
proof (induction ks arbitrary: S)
  case (Cons j ks)
  have d: "sc_dirty (schedule_pool cf c j S) = sc_dirty S" "sc_old_expires (schedule_pool cf c j S) = sc_old_expires S"
    by (simp_all add: schedule_pool_def Let_def)
  show ?case
  proof (cases "k \<in> set ks")
    case True
    with Cons d show ?thesis by simp
  next
    case False
    with Cons.prems have "j = k" by simp
    with False Cons.prems show ?thesis by (simp add: schedule_other) (simp add: schedule_pool_def Let_def)
  qed
qed simp

lemma start_after_unclean_exit:
  assumes "start cf now c L (initial_sched boot) = ((L', S), None)" and "distinct (map pool_id (t_pools L))"
    and "lookup_row own_id (pool_owner k) (t_owners L) = Some w" and "own_boot w \<noteq> boot"
    and "find_mpool S k = Some p"
  shows "sc_ready S k = Some (mono_later c + max 0 (own_lease_expires_at w + cf_drain cf k - wall c))"
proof -
  define ids where "ids = map mp_pool_id (pool_records L)"
  define S1 where "S1 = note_old_owners L ids (initial_sched boot)"
  define S2 where "S2 = fold (absorb_record (mono c)) (pool_records L) S1"
  define S4 where "S4 = notify (fold put_permit (List.map_filter legacy_record (t_direct L)) (fold put_permit
      (List.map_filter (durable_record (mono c + cf_lease cf) L) (t_attempts L)) S2))"
  have S: "S = expire_dirty (mono_later c) (fold (schedule_pool cf c) (map mp_pool_id (sc_pools S4)) S4)"
    using assms(1) unfolding start_def refresh_initial_def Let_def ids_def [symmetric]
    unfolding S1_def [symmetric] unfolding S2_def [symmetric] unfolding S4_def [symmetric]
    by (simp split: if_splits sum.splits)
  have sub: "mp_pool_id m = pool_id x" if "pool_record L x = Some m" for x m
    using that by (auto simp: pool_record_def split: option.splits)
  have "distinct (map mp_pool_id (List.map_filter (pool_record L) xs)) \<and>
      mp_pool_id ` set (List.map_filter (pool_record L) xs) \<subseteq> pool_id ` set xs"
    if "distinct (map pool_id xs)" for xs
    using that by (induction xs) (auto simp: sub List.map_filter_simps split: option.splits)
  with assms(2) have dist: "distinct ids" by (simp add: ids_def pool_records_def)
  have pools0: "sc_pools S1 = []"
  proof -
    have "sc_pools (note_old_owners L ks U) = sc_pools U" for ks and U :: sched
      by (induction ks arbitrary: U) (auto split: option.splits)
    then show ?thesis by (simp add: S1_def initial_sched_def)
  qed
  have a: "sc_dirty S4 = sc_dirty S1" "sc_old_expires S4 = sc_old_expires S1" "map mp_pool_id (sc_pools S4) = ids"
    using absorb_new_dirty [of "pool_records L" S1 "mono c"] dist pools0
    by (simp_all add: S4_def put_all_frame S2_def ids_def notify_def)
  have "k \<in> mp_pool_id ` set (sc_pools S)"
    using lookup_row_Some_in [OF assms(5)] lookup_row_Some_key [OF assms(5)] by force
  moreover have "sc_pools (fold (schedule_pool cf c) ks U) = sc_pools U" for ks and U :: sched
    by (induction ks arbitrary: U) (simp_all add: schedule_pool_def Let_def)
  ultimately have k: "k \<in> set ids" using a(3) by (simp add: S) (metis list.set_map)
  have n: "k \<in> set (sc_dirty S1) \<and> sc_old_expires S1 k = own_lease_expires_at w"
    unfolding S1_def by (rule note_old_dirty [OF k assms(3)]) (use assms(4) in \<open>simp add: initial_sched_def\<close>)
  show ?thesis unfolding S a(3) using schedule_dirty [OF k, of S4 cf c] a n by simp
qed


end
