(* ===== verification/Scheduler_Demo.thy ===== *)
theory Scheduler_Demo
  imports Scheduler_Capacity Scheduler_Safety Scheduler_Recovery Ledger_Demo
begin

text \<open>
  A concrete history of the scheduler, evaluated by the simplifier: a pool with two slots; a
  request that waits, is granted, sent, lost, shown idle by two probes and granted again; a
  durable attempt; a request that is granted twice because a conflicting call made the
  scheduler forget it. The properties of the scheduler are instantiated on its states.
\<close>

section \<open>Documents\<close>

definition demo_config :: sched_config where
  "demo_config = \<lparr>cf_endpoint_limit = 8, cf_tenant_limit = 4, cf_request_ttl = 500, cf_lease = 30,
     cf_grace = 5, cf_drain = (\<lambda>_. 10)\<rparr>"

definition at_time :: "int \<Rightarrow> sclock" where
  "at_time t = \<lparr>mono = t, mono_later = t, wall = t, wall_later = t\<rparr>"

definition two_slots :: pool_spec where
  "two_slots = demo_pool_spec\<lparr>ps_transport_limit := 2, ps_background_transport_limit := 2\<rparr>"

definition demo_request :: "string \<Rightarrow> direct_request" where
  "demo_request k = \<lparr>dq_request_id = k, dq_tenant_id = ''t'', dq_payload_digest = replicate 64 (CHR ''0''),
     dq_model_profile = ''m'', dq_model_revision = None, dq_expected_engine_epoch = None,
     dq_capacity_profile_id = ''c'', dq_kind = Llm, dq_request_bound = 10, dq_batch_size = 1,
     dq_deadline = 400, dq_workload_class = Qa, dq_logical_request_id = None,
     dq_admission_mode = Wait, dq_dispatch_before = None, dq_execution_timeout = None\<rparr>"

section \<open>Running\<close>

definition entered :: "error + sched \<times> 'a \<Rightarrow> sched" where
  "entered r = (case r of Inr (S, _) \<Rightarrow> S | Inl _ \<Rightarrow> initial_sched [])"

definition moved :: "error + sched \<Rightarrow> sched" where
  "moved r = (case r of Inr S \<Rightarrow> S | Inl _ \<Rightarrow> initial_sched [])"

definition answers :: "error + 'b \<times> 'a \<Rightarrow> 'a option" where
  "answers r = (case r of Inr (_, a) \<Rightarrow> Some a | Inl _ \<Rightarrow> None)"

lemma entered_answer: "answers r = Some a \<Longrightarrow> r = Inr (entered r, a)"
  by (auto simp: answers_def entered_def split: sum.splits)

lemma moved_ok: "\<not> isl r \<Longrightarrow> r = Inr (moved r)"
  by (cases r) (auto simp: moved_def)

lemma fst_answer: "snd r = a \<Longrightarrow> r = (fst r, a)"
  by (metis prod.collapse)

lemma fst_answer2: "snd r = a \<Longrightarrow> r = ((fst (fst r), snd (fst r)), a)"
  by (metis prod.collapse)

section \<open>States\<close>

definition sd_ledger :: ledger where
  "sd_ledger = committed (configure_pool (demo_clock 6) two_slots 2 demo_rooted)"

definition sd_begin :: "(ledger \<times> sched) \<times> error option" where
  "sd_begin = start demo_config 7 (at_time 7) sd_ledger (initial_sched ''boot'')"

definition sd0 :: sched where
  "sd0 = snd (fst sd_begin)"

definition sd1 :: sched where
  "sd1 = entered (enqueue demo_config (at_time 20) (demo_request ''q'') ''p'' ''o'' sd0)"

definition sd2 :: sched where
  "sd2 = fst (reserve (at_time 21) ''a1'' (demo_request ''q'') ''p'' ''o'' None sd1)"

definition demo_grant :: "string \<Rightarrow> int \<Rightarrow> direct_reservation" where
  "demo_grant aid n = \<lparr>dr_attempt_id = aid, dr_request = demo_request ''q'', dr_pool_id = ''p'',
     dr_engine_epoch = ''e'', dr_owner_id = ''o'', dr_generation = n\<rparr>"

definition sd3 :: sched where
  "sd3 = moved (direct_mark_send (at_time 22) (demo_grant ''a1'' 0) sd2)"

definition sd4 :: sched where
  "sd4 = moved (direct_unknown (at_time 23) (demo_grant ''a1'' 0) sd3)"

definition sd_probe :: "int \<Rightarrow> sched \<Rightarrow> (ledger \<times> sched) \<times> error option" where
  "sd_probe t = settle_idle_pool (demo_clock t) ''p'' t (Some (''slots'', {''a1''})) sd_ledger"

definition sd5 :: sched where
  "sd5 = snd (fst (sd_probe 30 sd4))"

definition sd6 :: sched where
  "sd6 = snd (fst (sd_probe 31 sd5))"

definition sd7 :: sched where
  "sd7 = entered (enqueue demo_config (at_time 40) (demo_request ''q'') ''p'' ''o'' sd6)"

definition sd8 :: sched where
  "sd8 = fst (reserve (at_time 41) ''a2'' (demo_request ''q'') ''p'' ''o'' (Some ''a1'') sd7)"

text \<open>A conflicting call while the first attempt runs, and the call that follows it.\<close>

definition sd_conflict :: sched where
  "sd_conflict = fst (try_reserve demo_config (at_time 30) ''a3'' (demo_request ''q'') ''p'' ''x'' sd3)"

definition sd_twice :: sched where
  "sd_twice = fst (try_reserve demo_config (at_time 31) ''a3'' (demo_request ''q'') ''p'' ''o'' sd_conflict)"

text \<open>The durable attempt of the ledger's history.\<close>

definition sd_entry :: "error + sched \<times> durable_entry" where
  "sd_entry = durable_enter demo_config (at_time 20) demo_reserved ''a'' ''p'' ''w'' ''e'' UserTask (Aware 110) sd0"

definition sd_waiter :: waiter where
  "sd_waiter = \<lparr>wt_identity = ''a'', wt_tenant_id = [], wt_pool_id = ''p'', wt_owner_id = ''w'',
     wt_class = UserTask, wt_deadline = 110, wt_queued_at = 7, wt_kind = Durable\<rparr>"

definition sd_waits :: sched where
  "sd_waits = entered sd_entry"

definition sd_turn :: "sched \<times> (error + permit option)" where
  "sd_turn = durable_turn demo_config (at_time 21) None demo_op_spec ''w'' ''e'' sd_waiter sd_waits"

definition sd_permit :: permit where
  "sd_permit = \<lparr>pm_attempt_id = ''a'', pm_pool_id = ''p'', pm_owner_id = ''w'', pm_class = UserTask,
     pm_epoch = ''e'', pm_kind = Durable, pm_lease_until = Some 51, pm_state = RESERVED,
     pm_reservation = None, pm_unknown_at = None, pm_idle_verified = False, pm_held = True,
     pm_listed = False\<rparr>"

definition sd_durable :: sched where
  "sd_durable = fst sd_turn"

lemma sd_runs:
  "snd sd_begin = None"
  "answers (enqueue demo_config (at_time 20) (demo_request ''q'') ''p'' ''o'' sd0) = Some 20"
  "snd (reserve (at_time 21) ''a1'' (demo_request ''q'') ''p'' ''o'' None sd1) = Inr (Some (demo_grant ''a1'' 0))"
  "\<not> isl (direct_mark_send (at_time 22) (demo_grant ''a1'' 0) sd2)"
  "\<not> isl (direct_unknown (at_time 23) (demo_grant ''a1'' 0) sd3)"
  "snd (sd_probe 30 sd4) = None" "snd (sd_probe 31 sd5) = None"
  "answers (enqueue demo_config (at_time 40) (demo_request ''q'') ''p'' ''o'' sd6) = Some 40"
  "snd (reserve (at_time 41) ''a2'' (demo_request ''q'') ''p'' ''o'' (Some ''a1'') sd7)
     = Inr (Some (demo_grant ''a2'' 1))"
  by code_simp+

lemma sd_conflict_runs:
  "snd (try_reserve demo_config (at_time 30) ''a3'' (demo_request ''q'') ''p'' ''x'' sd3)
     = Inl (RuntimeConflict ''direct waiting identity conflict'')"
  "snd (try_reserve demo_config (at_time 31) ''a3'' (demo_request ''q'') ''p'' ''o'' sd_conflict)
     = Inr (Reserved (demo_grant ''a3'' 0))"
  "snd (try_reserve demo_config (at_time 32) ''a4'' (demo_request ''q4'') ''p'' ''o'' sd_twice)
     = Inr (Refused ''inference_capacity'')"
  by code_simp+

lemma sd_durable_runs:
  "answers sd_entry = Some (Waits sd_waiter)"
  "snd sd_turn = Inr (Some sd_permit)"
  by code_simp+

section \<open>Reachability\<close>

lemma sd_reachable:
  "sched_reachable demo_config sd0" "sched_reachable demo_config sd1" "sched_reachable demo_config sd2"
  "sched_reachable demo_config sd3" "sched_reachable demo_config sd4" "sched_reachable demo_config sd5"
  "sched_reachable demo_config sd6" "sched_reachable demo_config sd7"
proof -
  have begins: "start demo_config 7 (at_time 7) sd_ledger (initial_sched ''boot'') = ((fst (fst sd_begin), sd0), None)"
    using fst_answer2 [OF sd_runs(1)] by (simp add: sd0_def sd_begin_def [symmetric])
  have named: "pools_named sd_ledger" by code_simp
  show r0: "sched_reachable demo_config sd0"
    unfolding sched_reachable_def sched_started_def using begins named by blast
  show r1: "sched_reachable demo_config sd1"
    by (rule sched_reachable_step [OF r0 TEnqueue [OF entered_answer [OF sd_runs(2), folded sd1_def]]]) code_simp
  show r2: "sched_reachable demo_config sd2"
    by (rule sched_reachable_step [OF r1 TReserve [OF fst_answer [OF sd_runs(3), folded sd2_def]]]) code_simp
  show r3: "sched_reachable demo_config sd3"
    by (rule sched_reachable_step [OF r2 TSend [OF moved_ok [OF sd_runs(4), folded sd3_def]]])
  show r4: "sched_reachable demo_config sd4"
    by (rule sched_reachable_step [OF r3 TUnknown [OF moved_ok [OF sd_runs(5), folded sd4_def]]])
  show r5: "sched_reachable demo_config sd5"
    by (rule sched_reachable_step [OF r4 TSettle [OF fst_answer2 [OF sd_runs(6), folded sd5_def, unfolded sd_probe_def]]])
  show r6: "sched_reachable demo_config sd6"
    by (rule sched_reachable_step [OF r5 TSettle [OF fst_answer2 [OF sd_runs(7), folded sd6_def, unfolded sd_probe_def]]])
  show "sched_reachable demo_config sd7"
    by (rule sched_reachable_step [OF r6 TEnqueue [OF entered_answer [OF sd_runs(8), folded sd7_def]]]) code_simp
qed

lemma sd_step: "sched_step demo_config sd6 sd7"
  by (rule TEnqueue [OF entered_answer [OF sd_runs(8), folded sd7_def]]) code_simp

lemma sd_durable_reachable: "sched_reachable demo_config sd_waits" "sched_reachable demo_config sd_durable"
proof -
  show r1: "sched_reachable demo_config sd_waits"
    by (rule sched_reachable_step [OF sd_reachable(1) TEnter
        [OF entered_answer [OF sd_durable_runs(1), folded sd_waits_def, unfolded sd_entry_def]]])
  show "sched_reachable demo_config sd_durable"
    by (rule sched_reachable_step [OF r1 TTurn [OF fst_answer [OF sd_durable_runs(2), folded sd_durable_def,
        unfolded sd_turn_def]]]) code_simp
qed

section \<open>The properties on these states\<close>

theorem grant_within_capacity_witness:
  "\<exists>p. find_mpool sd2 ''p'' = Some p \<and> within_limits p Qa sd2 \<and> mp_health p = HEALTHY \<and>
    mp_group_health p = HEALTHY \<and> 0 < mp_target p"
  using grant_within_capacity [OF sd_reachable(2) fst_answer [OF sd_runs(3), folded sd2_def]]
  by (simp add: demo_request_def)

theorem durable_grant_within_capacity_witness:
  "\<exists>p. find_mpool sd_durable ''p'' = Some p \<and> within_limits p UserTask sd_durable \<and> mp_epoch p = ''e'' \<and>
    mp_health p = HEALTHY \<and> mp_group_health p = HEALTHY \<and> 0 < mp_target p"
proof -
  have "find_permit sd_waits (wt_identity sd_waiter) = None" by code_simp
  from durable_grant_within_capacity [OF sd_durable_reachable(1) fst_answer [OF sd_durable_runs(2), folded sd_durable_def,
      unfolded sd_turn_def] this]
  show ?thesis by (simp add: sd_waiter_def)
qed

theorem grant_is_first_witness:
  "\<exists>w. find_waiter sd1 ''q'' = Some w \<and> wt_owner_id w = ''o'' \<and> wt_pool_id w = ''p'' \<and> 21 < wt_deadline w"
proof -
  have "truthful ''p'' sd1" by code_simp
  from grant_is_first [OF sd_reachable(2) this fst_answer [OF sd_runs(3), folded sd2_def]]
  show ?thesis by (auto simp: demo_request_def at_time_def)
qed

theorem first_waiter_is_granted_witness:
  "\<exists>T res. reserve (at_time 21) ''a9'' (demo_request ''q'') ''p'' ''o'' None sd1 = (T, Inr (Some res)) \<and>
    dr_request res = demo_request ''q'' \<and> dr_generation res = 0 \<and> find_waiter T ''q'' = None"
proof -
  define w where "w = \<lparr>wt_identity = ''q'', wt_tenant_id = ''t'', wt_pool_id = ''p'', wt_owner_id = ''o'',
    wt_class = Qa, wt_deadline = 400, wt_queued_at = 20, wt_kind = Direct\<rparr>"
  define p where "p = the (find_mpool sd1 ''p'')"
  have s: "sc_waiters sd1 = [w]" unfolding w_def by code_simp
  have p: "find_mpool sd1 ''p'' = Some p"
    unfolding p_def by (rule option.collapse [symmetric]) code_simp
  have "truthful ''p'' sd1" "wall (at_time 21) < dq_deadline (demo_request ''q'')" "sc_control_ready sd1"
    "pool_ready sd1 ''p'' (mono (at_time 21))" "validate (demo_request ''q'') (the (find_mpool sd1 ''p'')) = Inr ()"
    "\<not> stale_proxy (the (find_mpool sd1 ''p'')) (demo_request ''q'')"
    "try_acquire (the (find_mpool sd1 ''p'')) (held_permits sd1) (sc_pools sd1) (dq_workload_class (demo_request ''q''))"
    by code_simp+
  note facts = this [folded p_def]
  have "\<exists>T res. reserve (at_time 21) ''a9'' (demo_request ''q'') ''p'' ''o'' None sd1 = (T, Inr (Some res)) \<and>
    dr_request res = demo_request ''q'' \<and> dr_generation res = 0 \<and> find_waiter T (dq_request_id (demo_request ''q'')) = None"
    by (rule first_waiter_is_granted [where w = w and p = p, OF sd_reachable(2)])
      (use facts p in \<open>simp_all add: s, simp_all add: w_def demo_request_def at_time_def\<close>)
  then show ?thesis by (simp add: demo_request_def)
qed

theorem refused_try_leaves_nothing_witness:
  "sc_permits (fst (try_reserve demo_config (at_time 32) ''a4'' (demo_request ''q4'') ''p'' ''o'' sd_twice)) = sc_permits sd_twice"
proof -
  have "find_identity sd_twice (dq_request_id (demo_request ''q4'')) = None"
    "find_waiter sd_twice (dq_request_id (demo_request ''q4'')) = None" by code_simp+
  from refused_try_leaves_nothing [OF fst_answer [OF sd_conflict_runs(3)] this] show ?thesis by blast
qed

theorem conflicting_try_forgets_witness:
  "find_identity sd3 ''q'' \<noteq> None \<and> find_identity sd_conflict ''q'' = None \<and>
   map pm_attempt_id (filter pm_held (attempts_of sd_twice ''q'')) = [''a1'', ''a3'']"
proof -
  from conflicting_try_forgets [OF fst_answer [OF sd_conflict_runs(1), folded sd_conflict_def]]
  have "find_identity sd_conflict ''q'' = None" by (simp add: demo_request_def)
  moreover have "find_identity sd3 ''q'' \<noteq> None" by code_simp
  moreover have "map pm_attempt_id (filter pm_held (attempts_of sd_twice ''q'')) = [''a1'', ''a3'']" by code_simp
  ultimately show ?thesis by blast
qed

theorem ended_attempt_is_final_witness:
  "find_direct sd6 ''a1'' \<noteq> None \<and> (find_direct sd7 ''a1'' = None \<or> find_direct sd7 ''a1'' = find_direct sd6 ''a1'')"
proof -
  have "\<not> pm_held (the (find_direct sd6 ''a1''))" and n: "find_direct sd6 ''a1'' \<noteq> None" by code_simp+
  from ended_attempt_is_final [OF sd_reachable(7) sd_step option.collapse [symmetric, OF n] this(1)] n
  show ?thesis by auto
qed



theorem reconcile_mirrors_ledger_witness:
  "map_option pm_state (find_permit (fst (reconcile_durable demo_sent (durable_ids sd_durable) sd_durable)) ''a'')
     = Some SEND_INTENT"
proof -
  define R where "R = reconcile_durable demo_sent (durable_ids sd_durable) sd_durable"
  have p: "find_permit sd_durable ''a'' = Some sd_permit" and l: "live_states demo_sent ''a'' = Some SEND_INTENT"
    by code_simp+
  have "reconcile_durable demo_sent (durable_ids sd_durable) sd_durable = (fst R, snd R)" by (simp add: R_def)
  from reconcile_mirrors_ledger [OF sd_durable_reachable(2) this] p l
  show ?thesis by (simp add: R_def sd_permit_def)
qed

text \<open>A ledger in which a process that died holds the pool; its lease has run out.\<close>

definition sd_left :: ledger where
  "sd_left = sd_ledger\<lparr>t_owners := [\<lparr>own_id = pool_owner ''p'', own_boot = ''old'', own_lease_expires_at = 6\<rparr>]\<rparr>"

definition sd_restart :: "(ledger \<times> sched) \<times> error option" where
  "sd_restart = start demo_config 7 (at_time 7) sd_left (initial_sched ''boot'')"


end
