(* ===== verification/Scheduler_Maintenance.thy ===== *)
theory Scheduler_Maintenance
  imports Scheduler_Demo
begin

text \<open>
  The maintenance loop of \<open>memory_scheduler.py\<close> (\<open>_maintain\<close>) among the turns of the requests: what it
  does between two of its awaits, in order, and where an exception leaves it. Every step of the loop is
  a path of the scheduler's own step relation, so all that is proved of the scheduler holds here.
\<close>

section \<open>The loop\<close>

text \<open>
  Where the loop waits: asleep, asleep after an exception, at a probe of a pool's slots with the pools
  still to probe, for the ledger with the durable attempts it listed, or at the proof for a pool's lost
  attempts, with the time it started and the pools still to look at.
\<close>

datatype maintain_phase =
    Asleep
  | Lost
  | Probing "string list"
  | Reconciling "string list"
  | Settling int "(string \<times> string set) list"

definition lose :: "sched \<Rightarrow> maintain_phase \<times> sched" where
  "lose S = (Lost, S\<lparr>sc_control_ready := False\<rparr>)"

definition unknown_pools :: "sched \<Rightarrow> string list" where
  "unknown_pools S = rev (remdups (rev (map pm_pool_id (filter (\<lambda>p. pm_state p = UNKNOWN) (held_permits S)))))"

definition pending_unknown :: "sched \<Rightarrow> (string \<times> string set) list" where
  "pending_unknown S = map (\<lambda>pid. (pid, unknown_in S pid)) (unknown_pools S)"

text \<open>The loop over the pools, up to its next await; after the last one the requests expire and the turn ends.\<close>

definition await_proof :: "sclock \<Rightarrow> (string \<times> string set) list \<Rightarrow> sched \<Rightarrow> maintain_phase \<times> sched" where
  "await_proof c ps S =
     (case dropWhile (\<lambda>(pid, _). find_mpool S pid = None) ps of
        [] \<Rightarrow> (Asleep, expire_requests (mono c) S)
      | qs \<Rightarrow> (Settling (wall c) qs, S))"

definition begin_settling :: "sclock \<Rightarrow> sched \<Rightarrow> maintain_phase \<times> sched" where
  "begin_settling c S = await_proof c (pending_unknown S) (forget_streaks S)"

definition begin_reconciling :: "sclock \<Rightarrow> sched \<Rightarrow> maintain_phase \<times> sched" where
  "begin_reconciling c S = (case durable_ids S of [] \<Rightarrow> begin_settling c S | ks \<Rightarrow> (Reconciling ks, S))"

text \<open>A dirty pool is probed when it has a probe and is an LLM pool.\<close>

definition slot_probed :: "(string \<Rightarrow> bool) \<Rightarrow> sched \<Rightarrow> string \<Rightarrow> bool" where
  "slot_probed probes S pid \<longleftrightarrow> probes pid \<and>
     (case find_mpool S pid of None \<Rightarrow> False | Some p \<Rightarrow> pool_kind (mp_spec p) = Llm)"

definition begin_probing :: "(string \<Rightarrow> bool) \<Rightarrow> sclock \<Rightarrow> string list \<Rightarrow> sched \<Rightarrow> maintain_phase \<times> sched" where
  "begin_probing probes c ks S =
     (case dropWhile (\<lambda>k. \<not> slot_probed probes S k) ks of
        [] \<Rightarrow> begin_reconciling c (expire_dirty (mono c) S)
      | js \<Rightarrow> (Probing js, S))"

text \<open>What happens when the awaited answer is there.\<close>

definition resume_refresh ::
    "(string \<Rightarrow> bool) \<Rightarrow> sclock \<Rightarrow> error + ledger \<times> sched \<Rightarrow> sched \<Rightarrow> maintain_phase \<times> sched" where
  "resume_refresh probes c r S =
     (case r of
        Inl e \<Rightarrow> lose S
      | Inr (L', T) \<Rightarrow> begin_probing probes c (sc_dirty T) (T\<lparr>sc_control_ready := True\<rparr>))"

definition resume_probe ::
    "(string \<Rightarrow> bool) \<Rightarrow> sclock \<Rightarrow> answer \<Rightarrow> string \<Rightarrow> string list \<Rightarrow> sched \<Rightarrow> maintain_phase \<times> sched" where
  "resume_probe probes c ans k ks S = begin_probing probes c ks (probe_slot (mono c) (slots_idle ans) k S)"

definition resume_reconcile :: "sclock \<Rightarrow> ledger \<Rightarrow> string list \<Rightarrow> sched \<Rightarrow> maintain_phase \<times> sched" where
  "resume_reconcile c L ks S =
     (case reconcile_durable L ks S of (T, None) \<Rightarrow> begin_settling c T | (T, Some e) \<Rightarrow> lose T)"

definition proof_for :: "answer option \<Rightarrow> answer option \<Rightarrow> string \<Rightarrow> string set \<Rightarrow> sched \<Rightarrow> (string \<times> string set) option" where
  "proof_for slots registry pid lost S =
     (case find_mpool S pid of None \<Rightarrow> None | Some p \<Rightarrow> terminated slots registry p lost)"

definition resume_settle ::
    "sclock \<Rightarrow> clocks \<Rightarrow> answer option \<Rightarrow> answer option \<Rightarrow> ledger \<Rightarrow> int \<Rightarrow> string \<times> string set \<Rightarrow>
     (string \<times> string set) list \<Rightarrow> sched \<Rightarrow> maintain_phase \<times> sched" where
  "resume_settle c cl slots registry L started p ps S =
     (case settle_idle_pool cl (fst p) started (proof_for slots registry (fst p) (snd p) S) L S of
        ((L', T), None) \<Rightarrow> await_proof c ps T
      | ((L', T), Some e) \<Rightarrow> lose T)"

text \<open>The turns of the requests, of the executors' permits and of the metrics.\<close>

inductive request_turn :: "sched_config \<Rightarrow> sched \<Rightarrow> sched \<Rightarrow> bool" for cf where
  RtEnqueue: "enqueue cf c q pid owner S = Inr (T, at) \<Longrightarrow> separate q S \<Longrightarrow> request_turn cf S T"
| RtLeave: "request_turn cf S (leave k owner S)"
| RtReserve: "reserve c aid q pid owner previous S = (T, r) \<Longrightarrow> aid \<notin> pm_attempt_id ` set (sc_permits S)
    \<Longrightarrow> request_turn cf S T"
| RtTry: "try_reserve cf c aid q pid owner S = (T, t) \<Longrightarrow> separate q S \<Longrightarrow> aid \<notin> pm_attempt_id ` set (sc_permits S)
    \<Longrightarrow> request_turn cf S T"
| RtSend: "direct_mark_send c res S = Inr T \<Longrightarrow> request_turn cf S T"
| RtFinish: "direct_finish res evidence S = Inr T \<Longrightarrow> request_turn cf S T"
| RtUnknown: "direct_unknown c res S = Inr T \<Longrightarrow> request_turn cf S T"
| RtEnter: "durable_enter cf c L k pid owner epoch cls deadline S = Inr (T, d) \<Longrightarrow> request_turn cf S T"
| RtTurn: "durable_turn cf c again spec owner epoch w S = (T, p) \<Longrightarrow> durable_name (wt_identity w) S
    \<Longrightarrow> request_turn cf S T"
| RtExit: "request_turn cf S (durable_exit w S)"
| RtBeat: "durable_heartbeat cf c k owner S = Inr T \<Longrightarrow> request_turn cf S T"
| RtRelease: "durable_release L k owner S = Inr T \<Longrightarrow> request_turn cf S T"
| RtMetrics: "request_turn cf S (expire_dirty now S)"

text \<open>
  The loop and the requests, interleaved at the loop's awaits. An exception can end any of them
  (\<open>MtFails\<close>). Attempt identities are fresh: what was listed as durable is not a direct attempt later.
\<close>

inductive maintain_step ::
    "sched_config \<Rightarrow> (string \<Rightarrow> bool) \<Rightarrow> maintain_phase \<times> sched \<Rightarrow> maintain_phase \<times> sched \<Rightarrow> bool" for cf probes where
  MtRequest: "request_turn cf S T \<Longrightarrow> maintain_step cf probes (ph, S) (ph, T)"
| MtRefresh: "ph = Asleep \<or> ph = Lost \<Longrightarrow> pools_named L \<Longrightarrow>
    maintain_step cf probes (ph, S) (resume_refresh probes c (refresh cf now c L S) S)"
| MtProbe: "maintain_step cf probes (Probing (k # ks), S) (resume_probe probes c ans k ks S)"
| MtReconcile: "\<forall>k \<in> set ks. durable_name k S \<Longrightarrow>
    maintain_step cf probes (Reconciling ks, S) (resume_reconcile c L ks S)"
| MtSettle: "maintain_step cf probes (Settling started (p # ps), S) (resume_settle c cl slots registry L started p ps S)"
| MtFails: "maintain_step cf probes (ph, S) (lose S)"

inductive_cases maintain_stepE: "maintain_step cf probes (ph, S) t"

section \<open>Only the loop opens and closes admission\<close>

named_theorems control

lemma control_frames [control]:
  "sc_control_ready (release k S) = sc_control_ready S"
  "sc_control_ready (set_permit k f S) = sc_control_ready S"
  "sc_control_ready (withdraw k pid S) = sc_control_ready S"
  "sc_control_ready (add_ref k n S) = sc_control_ready S"
  "sc_control_ready (set_streak pid sk S) = sc_control_ready S"
  "sc_control_ready (forget_streaks S) = sc_control_ready S"
  "sc_control_ready (leave k owner S) = sc_control_ready S"
  "sc_control_ready (durable_exit w S) = sc_control_ready S"
  "sc_control_ready (probe_slot now idle pid S) = sc_control_ready S"
  "sc_control_ready (settle_idle_direct pid st S) = sc_control_ready S"
  "sc_control_ready (fst (grant aid p q pid owner g S)) = sc_control_ready S"
  "sc_control_ready (fst (durable_grant cf c k pid owner epoch cls S)) = sc_control_ready S"
  by (auto simp: release_def set_permit_def withdraw_def add_ref_def set_streak_def forget_streaks_def leave_def
      durable_exit_def probe_slot_def settle_idle_direct_def grant_def durable_grant_def Let_def split: option.splits)

lemma control_scan: "scan_first now pid q S = (T, r) \<Longrightarrow> sc_control_ready T = sc_control_ready S"
proof (induction q arbitrary: S T)
  case (Cons x q)
  obtain rank at k where "x = (rank, at, k)" by (cases x)
  with Cons show ?case by (auto split: option.splits if_splits)
qed auto

lemma control_first: "first now pid S = (T, r) \<Longrightarrow> sc_control_ready T = sc_control_ready S"
  unfolding first_def by (rule control_scan)

lemma control_grant:
  "grant aid p q pid owner g S = (T, res) \<Longrightarrow> sc_control_ready T = sc_control_ready S"
  "durable_grant cf c k pid owner epoch cls S = (T, pm) \<Longrightarrow> sc_control_ready T = sc_control_ready S"
  using control(11,12) by (metis fst_conv)+

lemma control_reserve:
  "reserve c aid q pid owner previous S = (T, r) \<Longrightarrow> sc_control_ready T = sc_control_ready S"
  by (erule reserveE) (auto dest: control_first control_grant)

lemma control_try:
  "try_reserve cf c aid q pid owner S = (T, r) \<Longrightarrow> sc_control_ready T = sc_control_ready S"
  by (erule try_reserveE) (auto simp: control dest: control_reserve enqueue_permits)

lemma control_enter:
  "durable_enter cf c L k pid owner epoch cls deadline S = Inr (T, d) \<Longrightarrow> sc_control_ready T = sc_control_ready S"
  by (erule durable_enterE) (auto simp: control join_waiter_def Let_def split: option.splits if_splits)

lemma control_durable_turn:
  "durable_turn cf c again spec owner epoch w S = (T, r) \<Longrightarrow> sc_control_ready T = sc_control_ready S"
  by (erule durable_turnE) (auto dest: control_first control_grant)

lemma control_request: "request_turn cf S T \<Longrightarrow> sc_control_ready T = sc_control_ready S"
proof (induction rule: request_turn.induct)
  case (RtSend c res S T)
  then show ?case by (auto simp: direct_mark_send_def and_then_Inr_iff control split: if_splits)
next
  case (RtFinish res evidence S T)
  then show ?case by (auto simp: direct_finish_def and_then_Inr_iff control split: if_splits)
next
  case (RtUnknown c res S T)
  then show ?case by (auto simp: direct_unknown_def and_then_Inr_iff control split: if_splits)
next
  case (RtBeat c k owner S T)
  then show ?case by (auto simp: durable_heartbeat_def control split: option.splits if_splits)
next
  case (RtRelease L k owner S T)
  then show ?case by (auto simp: durable_release_def control split: option.splits if_splits)
qed (auto simp: control dest: enqueue_permits control_reserve control_try control_enter control_durable_turn)

lemma request_is_step: "request_turn cf S T \<Longrightarrow> sched_step cf S T"
  by (induction rule: request_turn.induct) (blast intro: sched_step.intros)+

text \<open>The loop's own stretches.\<close>

lemma control_reconcile:
  "reconcile_permits live ks S = (T, e) \<Longrightarrow> sc_control_ready T = sc_control_ready S"
proof (induction ks arbitrary: S)
  case (Cons k ks)
  from Cons.prems show ?case
    by (auto simp: control split: option.splits if_splits dest!: Cons.IH)
qed simp

lemma control_expire: "sc_control_ready (expire_requests now S) = sc_control_ready S"
proof -
  have "sc_control_ready (fold remove_waiter ks U) = sc_control_ready U" for ks U
    by (induction ks arbitrary: U) simp_all
  then show ?thesis by (simp add: expire_requests_def Let_def)
qed

lemma control_settle:
  "settle_idle_pool cl pid started ans L S = ((L', T), e) \<Longrightarrow> sc_control_ready T = sc_control_ready S"
  unfolding settle_idle_pool_def Let_def
  by (auto simp: control split: option.splits prod.splits if_splits sum.splits)

section \<open>The loop over the scheduler\<close>

text \<open>A stretch of the loop that raises nothing: a path of the scheduler that leaves admission as it is.\<close>

definition stretch :: "sched_config \<Rightarrow> sched \<Rightarrow> maintain_phase \<times> sched \<Rightarrow> bool" where
  "stretch cf S t \<longleftrightarrow> (sched_step cf)\<^sup>*\<^sup>* S (snd t) \<and> fst t \<noteq> Lost \<and> sc_control_ready (snd t) = sc_control_ready S"

lemma stretch_after:
  "sched_step cf S T \<Longrightarrow> sc_control_ready T = sc_control_ready S \<Longrightarrow> stretch cf T t \<Longrightarrow> stretch cf S t"
  unfolding stretch_def by (metis converse_rtranclp_into_rtranclp)

lemma stretch_await: "stretch cf S (await_proof c ps S)"
  unfolding stretch_def await_proof_def
  by (auto simp: control_expire intro: r_into_rtranclp TExpire split: list.splits)

lemma stretch_settling: "stretch cf S (begin_settling c S)"
  unfolding begin_settling_def
  by (rule stretch_after [OF TForget]) (simp_all add: control stretch_await)

lemma stretch_reconciling: "stretch cf S (begin_reconciling c S)"
  using stretch_settling [of cf S c] by (auto simp: begin_reconciling_def stretch_def split: list.splits)

lemma stretch_probing: "stretch cf S (begin_probing probes c ks S)"
proof (cases "dropWhile (\<lambda>k. \<not> slot_probed probes S k) ks")
  case Nil
  have "stretch cf S (begin_reconciling c (expire_dirty (mono c) S))"
    by (rule stretch_after [OF TDirty _ stretch_reconciling]) simp
  then show ?thesis by (simp only: begin_probing_def Nil list.case)
qed (simp add: begin_probing_def stretch_def)

lemmas stretches = stretch_await stretch_settling stretch_reconciling stretch_probing

lemma lose_step: "sched_step cf S (snd (lose S))" "fst (lose S) = Lost" "\<not> sc_control_ready (snd (lose S))"
  by (simp_all add: lose_def TControl)

text \<open>Where a step leads: a path of the scheduler, and admission is open unless the loop is lost.\<close>

definition follows :: "sched_config \<Rightarrow> sched \<Rightarrow> maintain_phase \<times> sched \<Rightarrow> bool" where
  "follows cf S t \<longleftrightarrow> (sched_step cf)\<^sup>*\<^sup>* S (snd t) \<and> (sc_control_ready (snd t) \<longleftrightarrow> fst t \<noteq> Lost)"

lemma follows_stretch: "stretch cf S t \<Longrightarrow> sc_control_ready S \<Longrightarrow> follows cf S t"
  by (simp add: stretch_def follows_def)

lemma follows_lose: "follows cf S (lose S)"
  using lose_step(1) [of cf S] lose_step(2,3) [of S] by (auto simp: follows_def)

lemma follows_after: "sched_step cf S T \<Longrightarrow> follows cf T t \<Longrightarrow> follows cf S t"
  unfolding follows_def by (metis converse_rtranclp_into_rtranclp)

lemma follows_refresh:
  assumes "pools_named L"
  shows "follows cf S (resume_refresh probes c (refresh cf now c L S) S)"
proof (cases "refresh cf now c L S")
  case (Inl e)
  then show ?thesis by (simp add: resume_refresh_def follows_lose)
next
  case (Inr r)
  obtain L' T where r: "r = (L', T)" by (cases r)
  have "sched_step cf S T" using Inr assms unfolding r by (rule TRefresh)
  moreover have "sched_step cf T (T\<lparr>sc_control_ready := True\<rparr>)" by (rule TControl)
  ultimately show ?thesis
    using follows_stretch [OF stretch_probing] by (simp add: resume_refresh_def Inr r follows_after)
qed

lemma follows_probe: "sc_control_ready S \<Longrightarrow> follows cf S (resume_probe probes c ans k ks S)"
  unfolding resume_probe_def
  by (rule follows_after [OF TProbe [of cf S "mono c" "slots_idle ans" k]]) (simp add: follows_stretch stretches control)

lemma follows_reconcile:
  assumes "\<forall>k \<in> set ks. durable_name k S" and "sc_control_ready S"
  shows "follows cf S (resume_reconcile c L ks S)"
proof -
  obtain T e where T: "reconcile_durable L ks S = (T, e)" by (cases "reconcile_durable L ks S")
  have "sc_control_ready T"
    using T assms(2) control_reconcile by (auto simp: reconcile_durable_def split: if_splits)
  moreover have "sched_step cf S T" using T assms(1) by (rule TReconcile)
  ultimately show ?thesis
    by (cases e) (simp_all add: resume_reconcile_def T follows_after follows_lose follows_stretch stretches)
qed

lemma follows_settle:
  assumes "sc_control_ready S"
  shows "follows cf S (resume_settle c cl slots registry L started p ps S)"
proof -
  obtain L' T e where T: "settle_idle_pool cl (fst p) started (proof_for slots registry (fst p) (snd p) S) L S = ((L', T), e)"
    by (metis surj_pair)
  have "sc_control_ready T" using control_settle [OF T] assms by simp
  moreover have "sched_step cf S T" using T by (rule TSettle)
  ultimately show ?thesis
    by (cases e) (simp_all add: resume_settle_def T follows_after follows_lose follows_stretch stretches)
qed

lemma maintain_step_follows:
  assumes "maintain_step cf probes (ph, S) t" and "sc_control_ready S \<longleftrightarrow> ph \<noteq> Lost"
  shows "follows cf S t"
  using assms(1)
proof (cases rule: maintain_step.cases)
  case MtRequest
  then show ?thesis using request_is_step control_request assms(2) by (auto simp: follows_def)
qed (use assms(2) in \<open>auto simp: follows_lose follows_refresh follows_probe follows_reconcile follows_settle\<close>)

lemma control_start:
  assumes "sched_started cf S"
  shows "sc_control_ready S"
proof -
  have note_old: "sc_control_ready (note_old_owners L ks U) = sc_control_ready U" for L ks U
    by (induction ks arbitrary: U) (auto split: option.splits)
  have absorb: "sc_control_ready (fold (absorb_record now) ps U) = sc_control_ready U" for now ps U
    by (induction ps arbitrary: U) (simp_all add: absorb_record_def set_mpool_def end_old_epoch_def Let_def split: option.splits)
  have put: "sc_control_ready (fold put_permit ms U) = sc_control_ready U" for ms U
    by (induction ms arbitrary: U) (simp_all add: put_permit_def)
  have sched: "sc_control_ready (fold (schedule_pool cf c) ks U) = sc_control_ready U" for c ks U
    by (induction ks arbitrary: U) (simp_all add: schedule_pool_def Let_def)
  have init: "sc_control_ready T = sc_control_ready U" if "refresh_initial cf now c L U = ((L1, T), None)" for now c L L1 U T
    using that by (auto simp: refresh_initial_def Let_def note_old absorb put split: if_splits sum.splits)
  obtain now c L L' boot where s: "start cf now c L (initial_sched boot) = ((L', S), None)"
    using assms by (auto simp: sched_started_def)
  obtain L1 T e where T: "refresh_initial cf now c L (initial_sched boot) = ((L1, T), e)" by (metis surj_pair)
  with s have "e = None" and S: "S = expire_dirty (mono_later c) (fold (schedule_pool cf c) (map mp_pool_id (sc_pools T)) T)"
    by (auto simp: start_def split: option.splits)
  then have "sc_control_ready T = sc_control_ready (initial_sched boot)" using T init by blast
  then show ?thesis by (simp add: S sched initial_sched_def)
qed

text \<open>
  The states of the loop and the scheduler together: admission is open exactly while the loop is not
  lost, and the scheduler is in a state it could have reached by its own steps.
\<close>

interpretation maintenance: invariant_system "\<lambda>s. fst s = Asleep \<and> sched_started cf (snd s)" "maintain_step cf probes"
    "\<lambda>s. sched_reachable cf (snd s) \<and> (sc_control_ready (snd s) \<longleftrightarrow> fst s \<noteq> Lost)" for cf probes
proof (unfold_locales, goal_cases)
  case (1 s)
  then show ?case using control_start [of cf "snd s"] by (auto simp: sched_reachable_def)
next
  case (2 s t)
  then have f: "follows cf (snd s) t" using maintain_step_follows [of cf probes "fst s" "snd s" t] by simp
  then have "sched_reachable cf (snd t)" using 2(1) by (auto simp: follows_def sched_reachable_def intro: rtranclp_trans)
  with f show ?case by (simp add: follows_def)
qed

lemma closed_grants_nothing:
  assumes "\<not> sc_control_ready S"
  shows "snd (reserve c aid q pid owner previous S) \<noteq> Inr (Some res)"
    and "snd (try_reserve cf c aid q pid owner S) \<noteq> Inr (Reserved res)"
    and "snd (durable_turn cf c again spec owner epoch w S) = Inr (Some pm) \<Longrightarrow> find_permit S (wt_identity w) = Some pm"
proof -
  obtain T r where T: "reserve c aid q pid owner previous S = (T, r)" by (metis surj_pair)
  then have "\<not> (\<exists>res. r = Inr (Some res))" by (cases rule: reserveE) (use assms in auto)
  then show "snd (reserve c aid q pid owner previous S) \<noteq> Inr (Some res)" using T by auto
  show "snd (try_reserve cf c aid q pid owner S) \<noteq> Inr (Reserved res)"
    using assms by (simp add: try_reserve_def split: option.splits)
  assume d: "snd (durable_turn cf c again spec owner epoch w S) = Inr (Some pm)"
  obtain U where "durable_turn cf c again spec owner epoch w S = (U, Inr (Some pm))" using d by (metis prod.collapse)
  then show "find_permit S (wt_identity w) = Some pm" by (cases rule: durable_turnE) (use assms in auto)
qed

lemma refreshed: "fst (resume_refresh probes c r S) \<noteq> Lost \<Longrightarrow> \<exists>L' T. r = Inr (L', T)"
  by (cases r) (auto simp: resume_refresh_def lose_def)

lemma lost_until_refreshed:
  assumes "maintain_step cf probes (Lost, S) t" and "fst t \<noteq> Lost"
  shows "\<exists>now c L L' T. refresh cf now c L S = Inr (L', T)"
  using assms(1)
proof (cases rule: maintain_step.cases)
  case MtRefresh
  then show ?thesis using assms(2) refreshed by blast
qed (use assms(2) in \<open>auto simp: lose_def\<close>)

text \<open>
  C28. A scheduler that lost its ledger grants nothing. Whatever turns of requests and of the
  maintenance loop led here, in whatever order, admission is closed exactly while the loop has failed
  and has not refreshed since: then no reservation, no immediate try and no executor obtains a permit
  it did not have, and only a refresh that renewed the ownership of the pools ends it. All that is
  proved of the scheduler's reachable states holds at every such point.
\<close>
theorem lost_ledger_grants_nothing:
  assumes "sched_started cf S0" and "(maintain_step cf probes)\<^sup>*\<^sup>* (Asleep, S0) (ph, S)"
  shows "sched_reachable cf S \<and> (sc_control_ready S \<longleftrightarrow> ph \<noteq> Lost) \<and>
    (ph = Lost \<longrightarrow>
       (\<forall>c aid q pid owner previous res. snd (reserve c aid q pid owner previous S) \<noteq> Inr (Some res)) \<and>
       (\<forall>c aid q pid owner res. snd (try_reserve cf c aid q pid owner S) \<noteq> Inr (Reserved res)) \<and>
       (\<forall>c again spec owner epoch w pm. snd (durable_turn cf c again spec owner epoch w S) = Inr (Some pm) \<longrightarrow>
          find_permit S (wt_identity w) = Some pm) \<and>
       (\<forall>t. maintain_step cf probes (ph, S) t \<longrightarrow> fst t \<noteq> Lost \<longrightarrow> (\<exists>now c L L' T. refresh cf now c L S = Inr (L', T))))"
proof -
  have r: "sched_reachable cf S" and c: "sc_control_ready S \<longleftrightarrow> ph \<noteq> Lost"
    using maintenance.reachable_inv [OF _ assms(2)] assms(1) by auto
  have "\<not> sc_control_ready S" if "ph = Lost" using c that by simp
  note closed = closed_grants_nothing [OF this]
  show ?thesis
    using r c closed lost_until_refreshed [of cf probes S] by (intro conjI impI allI) simp_all
qed

lemma sd_started: "sched_started demo_config sd0"
proof -
  have "start demo_config 7 (at_time 7) sd_ledger (initial_sched ''boot'') = ((fst (fst sd_begin), sd0), None)"
    using fst_answer2 [OF sd_runs(1)] by (simp add: sd0_def sd_begin_def [symmetric])
  moreover have "pools_named sd_ledger" by code_simp
  ultimately show ?thesis unfolding sched_started_def by blast
qed

theorem lost_ledger_grants_nothing_witness:
  "snd (reserve (at_time 21) ''a1'' (demo_request ''q'') ''p'' ''o'' None sd1) = Inr (Some (demo_grant ''a1'' 0)) \<and>
   snd (reserve (at_time 21) ''a1'' (demo_request ''q'') ''p'' ''o'' None (sd1\<lparr>sc_control_ready := False\<rparr>))
     \<noteq> Inr (Some (demo_grant ''a1'' 0))"
proof -
  have "request_turn demo_config sd0 sd1"
    by (rule RtEnqueue [OF entered_answer [OF sd_runs(2), folded sd1_def]]) code_simp
  then have "maintain_step demo_config (\<lambda>_. True) (Asleep, sd0) (Asleep, sd1)" by (rule MtRequest)
  moreover have "maintain_step demo_config (\<lambda>_. True) (Asleep, sd1) (Lost, sd1\<lparr>sc_control_ready := False\<rparr>)"
    using MtFails [of demo_config "\<lambda>_. True" Asleep sd1] by (simp add: lose_def)
  ultimately have "(maintain_step demo_config (\<lambda>_. True))\<^sup>*\<^sup>* (Asleep, sd0) (Lost, sd1\<lparr>sc_control_ready := False\<rparr>)"
    by (rule converse_rtranclp_into_rtranclp [OF _ r_into_rtranclp])
  note lost = lost_ledger_grants_nothing [OF sd_started this]
  have "\<forall>c aid q pid owner previous res. snd (reserve c aid q pid owner previous (sd1\<lparr>sc_control_ready := False\<rparr>)) \<noteq> Inr (Some res)"
    by (rule conjunct1 [OF mp [OF conjunct2 [OF conjunct2 [OF lost]] refl]])
  then show ?thesis by (intro conjI sd_runs(3)) blast
qed

end
