(* ===== verification/Direct_Attempt.thy ===== *)
theory Direct_Attempt
  imports Scheduler_Direct Json
begin

text \<open>
  One attempt of the direct proxy (\<open>direct_proxy.py\<close>, \<open>_attempt\<close>): the checks before the
  send, the reading of the engine's answer, and the settlement its \<open>finally\<close> decides on. The
  stretches between two awaits that other turns can separate are separate functions:
  \<open>begin_attempt\<close> ends with the send intent, \<open>read_exchange\<close> is the exchange with the engine,
  \<open>finish_attempt\<close> the \<open>finally\<close>. The engine's answer is an argument: its status, headers, the
  chunks the transport delivers, and how the body ends. What the channel receives is a list of
  frames; that it may stop the reader is not modelled here.
\<close>

section \<open>Frames\<close>

text \<open>
  Server-sent events. \<open>frame_text\<close> writes one with an encoder of JSON documents (\<open>encode\<close> of
  \<open>store.py\<close>, the library's \<open>json.dumps\<close>).
\<close>

datatype frame = ControlFrame json | ErrorFrame json | HeartbeatFrame | BodyFrame json | DataFrame string

definition newline :: char where
  "newline = CHR 0x0A"

fun frame_text :: "(json \<Rightarrow> string) \<Rightarrow> frame \<Rightarrow> string" where
  "frame_text encode (ControlFrame body) =
     ''event: intramind.control'' @ [newline] @ ''data: '' @ encode body @ [newline, newline]"
| "frame_text encode (ErrorFrame body) =
     ''event: intramind.error'' @ [newline] @ ''data: '' @ encode body @ [newline, newline]"
| "frame_text encode HeartbeatFrame = '': heartbeat'' @ [newline, newline]"
| "frame_text encode (BodyFrame body) = encode body"
| "frame_text encode (DataFrame chunk) = chunk"

definition text_or_null :: "string option \<Rightarrow> json" where
  "text_or_null s = (case s of None \<Rightarrow> JNull | Some t \<Rightarrow> JString t)"

definition control :: "string \<Rightarrow> int \<Rightarrow> string option \<Rightarrow> frame" where
  "control kind generation reason = ControlFrame (JDict
     ([(''type'', JString kind), (''generation'', JInt generation)] @
      (case reason of None \<Rightarrow> [] | Some r \<Rightarrow> if r = [] then [] else [(''reason'', JString r)])))"

definition error_data :: "string \<Rightarrow> string \<Rightarrow> string option \<Rightarrow> (string \<times> json) list" where
  "error_data message error_type reason =
     [(''message'', JString message), (''type'', JString error_type)] @
     (case reason of None \<Rightarrow> [] | Some r \<Rightarrow> [(''reason'', JString r)])"

definition error_frame :: "string \<Rightarrow> string \<Rightarrow> string option \<Rightarrow> frame" where
  "error_frame message error_type reason = ErrorFrame (JDict (error_data message error_type reason))"

definition error_object :: "string \<Rightarrow> string \<Rightarrow> string option \<Rightarrow> json" where
  "error_object message error_type reason = JDict [(''error'', JDict (error_data message error_type reason))]"

definition evidence_data :: "direct_reservation \<Rightarrow> string \<Rightarrow> (string \<times> json) list" where
  "evidence_data res compute_state =
     [(''attempt_id'', JString (dr_attempt_id res)),
      (''logical_request_id'', text_or_null (dq_logical_request_id (dr_request res))),
      (''generation'', JInt (dr_generation res)), (''compute_state'', JString compute_state)]"

section \<open>Before the send\<close>

definition cut_off :: "int \<Rightarrow> direct_request \<Rightarrow> bool" where
  "cut_off now q = (case dq_dispatch_before q of None \<Rightarrow> False | Some t \<Rightarrow> t \<le> now)"

text \<open>
  What \<open>_attempt\<close> answers. An attempt that a cancellation of its task ends answers nothing.
\<close>

datatype outcome = Finished | Deferred | Not_sent | Unknown | Terminal_error | Task_cancelled

text \<open>
  The context of the timeout, the two looks at the cutoff around \<open>mark_send\<close>: the first at
  \<open>wall c\<close>, the second at \<open>wall_later c\<close>. \<open>expired\<close>: the request's time is over.
\<close>

definition begin_attempt ::
    "bool \<Rightarrow> sclock \<Rightarrow> direct_reservation \<Rightarrow> sched \<Rightarrow> sched \<times> (outcome \<times> string + unit)" where
  "begin_attempt expired c res S =
     (if expired then (S, Inl (Not_sent, ''inference request deadline exceeded''))
      else if cut_off (wall c) (dr_request res) then (S, Inl (Deferred, ''dispatch_cutoff''))
      else case direct_mark_send c res S of
          Inl _ \<Rightarrow> (S, Inl (Not_sent, ''direct inference interrupted''))
        | Inr S1 \<Rightarrow>
            (if cut_off (wall_later c) (dr_request res) then (S1, Inl (Deferred, ''dispatch_cutoff''))
             else (S1, Inr ())))"

section \<open>The exchange\<close>

text \<open>
  How an exchange ends early: a timeout (\<open>True\<close>: of the whole request), the cancellation of the
  task, or any other exception.
\<close>

datatype broken = Timed_out bool | Cancelled_task | Interrupted

record response =
  rp_status :: int
  rp_header :: "string \<Rightarrow> string option"
  rp_chunks :: "string list"
  rp_end :: "broken option"

datatype exchange = Unconnected | Broken broken | Answered response

record endpoint =
  ep_kind :: kind
  ep_model_revision :: string
  ep_max_response :: nat
  ep_valid_json :: "(string \<Rightarrow> bool) option"    \<comment> \<open>\<open>profile.validate_response\<close> of the decoded body\<close>

definition contract_header :: "kind \<Rightarrow> string" where
  "contract_header k = (case k of
     Llm \<Rightarrow> ''X-Intramind-Llm-Contract'' | Speech \<Rightarrow> ''X-Intramind-Speech-Contract''
   | Embedding \<Rightarrow> ''X-Intramind-Embedding-Contract'' | Rerank \<Rightarrow> ''X-Intramind-Rerank-Contract'')"

definition rejected_status :: "int \<Rightarrow> bool" where
  "rejected_status s \<longleftrightarrow> s \<in> {400, 401, 403, 404, 422}"

text \<open>The proof of termination that a native backend gives in its headers.\<close>

definition native_terminated :: "endpoint \<Rightarrow> direct_reservation \<Rightarrow> response \<Rightarrow> bool" where
  "native_terminated ep res rp \<longleftrightarrow>
     rp_header rp (contract_header (ep_kind ep)) = Some ''termination-v1'' \<and>
     rp_header rp ''X-Intramind-Attempt-ID'' = Some (dr_attempt_id res) \<and>
     rp_header rp ''X-Intramind-Compute-State'' \<in> {Some ''terminated'', Some ''not_started''}"

definition native_changed :: "endpoint \<Rightarrow> response \<Rightarrow> bool" where
  "native_changed ep rp \<longleftrightarrow> rp_status rp = 200 \<and>
     (rp_header rp ''X-Intramind-Compute-State'' \<noteq> Some ''terminated'' \<or>
      rp_header rp ''X-Intramind-Model-Revision'' \<noteq> Some (ep_model_revision ep))"

subsection \<open>Lines of a stream\<close>

text \<open>\<open>bytes.split(b"\n")\<close>: the complete lines and the rest.\<close>

fun split_lines :: "string \<Rightarrow> string list \<times> string" where
  "split_lines [] = ([], [])"
| "split_lines (c # cs) =
     (case split_lines cs of
        (lines, rest) \<Rightarrow>
          (if c = newline then ([] # lines, rest)
           else case lines of [] \<Rightarrow> ([], c # rest) | l # ls \<Rightarrow> ((c # l) # ls, rest)))"

definition ascii_space :: "char \<Rightarrow> bool" where
  "ascii_space c \<longleftrightarrow> c \<in> set [CHR '' '', CHR 0x09, CHR 0x0A, CHR 0x0D, CHR 0x0B, CHR 0x0C]"

definition strip :: "string \<Rightarrow> string" where
  "strip s = List.rev (dropWhile ascii_space (List.rev (dropWhile ascii_space s)))"

definition done_line :: "string \<Rightarrow> bool" where
  "done_line l \<longleftrightarrow> take 5 l = ''data:'' \<and> strip (drop 5 l) = ''[DONE]''"

definition mebibyte :: nat where
  "mebibyte = 1024 * 1024"

text \<open>Slices of 16 KiB, in order.\<close>

function slices :: "string \<Rightarrow> string list" where
  "slices s = (if s = [] then [] else take (16 * 1024) s # slices (drop (16 * 1024) s))"
  by auto
termination by (relation "measure length") (auto simp: length_greater_0_conv)

declare slices.simps [simp del]

record reading =
  rd_size :: nat
  rd_pending :: string
  rd_terminated :: bool
  rd_frames :: "frame list"
  rd_buffered :: string

text \<open>One turn of the loop over the body; nothing when it raises.\<close>

definition read_chunk :: "nat \<Rightarrow> bool \<Rightarrow> string \<Rightarrow> reading \<Rightarrow> reading option" where
  "read_chunk bound lined chunk r =
     (let r1 = r\<lparr>rd_size := rd_size r + length chunk\<rparr> in
      if bound < rd_size r1 then None
      else if lined
      then (case split_lines (rd_pending r @ chunk) of
              (lines, rest) \<Rightarrow>
                (if mebibyte < length rest then None
                 else Some (r1\<lparr>rd_pending := rest,
                     rd_terminated := rd_terminated r \<or> list_ex done_line lines,
                     rd_frames := rd_frames r @ map DataFrame (slices chunk)\<rparr>)))
      else Some (r1\<lparr>rd_buffered := rd_buffered r @ chunk\<rparr>))"

text \<open>
  The loop: the reading reached, and whether a bound was passed. A chunk over the bound of the
  response leaves the reading as it was; one that leaves too long a rest has been split, but
  neither its lines nor its bytes have been looked at.
\<close>

fun read_chunks :: "nat \<Rightarrow> bool \<Rightarrow> string list \<Rightarrow> reading \<Rightarrow> reading \<times> bool" where
  "read_chunks bound lined [] r = (r, False)"
| "read_chunks bound lined (x # xs) r =
     (case read_chunk bound lined x r of
        None \<Rightarrow> (r, True)
      | Some r1 \<Rightarrow> read_chunks bound lined xs r1)"

definition fresh_reading :: "bool \<Rightarrow> frame list \<Rightarrow> reading" where
  "fresh_reading terminated frames =
     \<lparr>rd_size = 0, rd_pending = [], rd_terminated = terminated, rd_frames = frames, rd_buffered = []\<rparr>"

subsection \<open>Reading the answer\<close>

record exchange_end =
  xe_sent :: bool
  xe_terminated :: bool
  xe_answer :: "(outcome \<times> string option) option"      \<comment> \<open>an explicit \<open>return\<close>\<close>
  xe_error :: "string option"
  xe_frames :: "frame list"
  xe_headers :: "(int \<times> (string \<times> string) list) option"

definition breaks :: "bool \<Rightarrow> frame list \<Rightarrow> broken \<Rightarrow> exchange_end" where
  "breaks terminated frames b =
     \<lparr>xe_sent = True, xe_terminated = terminated,
      xe_answer = (if b = Cancelled_task then Some (Task_cancelled, None) else None),
      xe_error = (case b of
          Timed_out True \<Rightarrow> Some ''inference request deadline exceeded''
        | Timed_out False \<Rightarrow> Some ''direct backend attempt timed out''
        | Cancelled_task \<Rightarrow> None
        | Interrupted \<Rightarrow> Some ''direct inference interrupted''),
      xe_frames = frames, xe_headers = None\<rparr>"

definition returns :: "bool \<Rightarrow> bool \<Rightarrow> outcome \<Rightarrow> string option \<Rightarrow> frame list \<Rightarrow> exchange_end" where
  "returns sent terminated ans err frames =
     \<lparr>xe_sent = sent, xe_terminated = terminated, xe_answer = Some (ans, err), xe_error = None,
      xe_frames = frames, xe_headers = None\<rparr>"

definition forwarded_headers :: "endpoint \<Rightarrow> direct_reservation \<Rightarrow> response \<Rightarrow> string \<Rightarrow> (string \<times> string) list" where
  "forwarded_headers ep res rp content_type =
     List.map_filter (\<lambda>name. case rp_header rp name of
         None \<Rightarrow> None
       | Some v \<Rightarrow> if length v \<le> 512 then Some (name, v) else None)
       [''Retry-After'', ''X-Intramind-Model-Revision'', ''X-Intramind-Compute-State'', contract_header (ep_kind ep)] @
     [(''Content-Type'', content_type), (''X-Intramind-Attempt-ID'', dr_attempt_id res)]"

definition content_type_of :: "response \<Rightarrow> string" where
  "content_type_of rp = (case rp_header rp ''Content-Type'' of None \<Rightarrow> ''application/json'' | Some v \<Rightarrow> v)"

definition valid_answer :: "endpoint \<Rightarrow> response \<Rightarrow> string \<Rightarrow> bool" where
  "valid_answer ep rp body = (case ep_valid_json ep of
     None \<Rightarrow> True
   | Some ok \<Rightarrow> rp_status rp = 200 \<longrightarrow>
       takeWhile (\<lambda>c. c \<noteq> CHR '';'') (content_type_of rp) = ''application/json'' \<and> ok body)"

text \<open>The end of the body: what is still checked, and what is forwarded.\<close>

definition read_end :: "endpoint \<Rightarrow> bool \<Rightarrow> direct_reservation \<Rightarrow> response \<Rightarrow> reading \<Rightarrow> exchange_end" where
  "read_end ep streaming res rp r =
     (let terminated = (if ep_kind ep = Llm \<and> \<not> streaming
                        then rp_status rp = 200 \<or> rejected_status (rp_status rp) else rd_terminated r) in
      if \<not> terminated
      then returns True False Unknown (Some ''direct backend termination unconfirmed'') (rd_frames r)
      else if \<not> valid_answer ep rp (rd_buffered r) then breaks True (rd_frames r) Interrupted
      else if streaming
      then returns True True Finished None (rd_frames r @
             (if rp_status rp \<noteq> 200
              then [ErrorFrame (JDict ([(''message'', JString (rd_buffered r)), (''type'', JString ''upstream_error'')]
                      @ evidence_data res ''terminated''))]
              else []))
      else (returns True True Finished None (rd_frames r @ map DataFrame (slices (rd_buffered r))))
             \<lparr>xe_headers := Some (rp_status rp, forwarded_headers ep res rp (content_type_of rp))\<rparr>)"

definition read_body :: "endpoint \<Rightarrow> bool \<Rightarrow> direct_reservation \<Rightarrow> response \<Rightarrow> bool \<Rightarrow> exchange_end" where
  "read_body ep streaming res rp native =
     (let started = (if streaming \<and> dq_admission_mode (dr_request res) = Try
                     then [ControlFrame (JDict ((''type'', JString ''started'') # evidence_data res ''sent''))] else []);
          lined = (streaming \<and> rp_status rp = 200);
          (r, over) = read_chunks (ep_max_response ep) lined (rp_chunks rp)
            (fresh_reading (if ep_kind ep = Llm then rejected_status (rp_status rp) else native) started)
      in if over then breaks (rd_terminated r) (rd_frames r) Interrupted
         else case rp_end rp of
             Some b \<Rightarrow> breaks (rd_terminated r) (rd_frames r) b
           | None \<Rightarrow> read_end ep streaming res rp r)"

definition read_loading :: "response \<Rightarrow> exchange_end" where
  "read_loading rp =
     (case rp_end rp of
        Some b \<Rightarrow> breaks False [] b
      | None \<Rightarrow>
          (if take 13 (concat (rp_chunks rp)) = ''Loading model''
           then returns False False Not_sent None []
           else (returns True False Unknown (Some ''engine rejected request without termination proof'') [])
                  \<lparr>xe_error := Some ''engine rejected request without termination proof''\<rparr>))"

definition read_exchange :: "endpoint \<Rightarrow> bool \<Rightarrow> direct_reservation \<Rightarrow> exchange \<Rightarrow> exchange_end" where
  "read_exchange ep streaming res x =
     (case x of
        Unconnected \<Rightarrow>
          \<lparr>xe_sent = False, xe_terminated = False, xe_answer = None,
           xe_error = Some ''direct backend connection failed'', xe_frames = [], xe_headers = None\<rparr>
      | Broken b \<Rightarrow> breaks False [] b
      | Answered rp \<Rightarrow>
          (if ep_kind ep \<noteq> Llm \<and> \<not> native_terminated ep res rp then breaks False [] Interrupted
           else if ep_kind ep \<noteq> Llm \<and> native_changed ep rp then breaks True [] Interrupted
           else if ep_kind ep = Llm \<and> rp_status rp = 503 then read_loading rp
           else if ep_kind ep = Llm \<and> rp_status rp \<noteq> 200 \<and> \<not> rejected_status (rp_status rp)
           then returns True False Unknown (Some ''engine rejected request without termination proof'') []
           else read_body ep streaming res rp (ep_kind ep \<noteq> Llm)))"

section \<open>The settlement\<close>

datatype settlement = Settle string | Lose string

definition settlement_of :: "exchange_end \<Rightarrow> settlement" where
  "settlement_of xe =
     (if xe_terminated xe \<or> \<not> xe_sent xe
      then Settle (if xe_terminated xe then ''completed_response'' else ''not_sent'')
      else Lose (case xe_error xe of None \<Rightarrow> ''direct_response_unconfirmed'' | Some e \<Rightarrow> e))"

definition answer_of :: "exchange_end \<Rightarrow> outcome \<times> string option" where
  "answer_of xe =
     (case xe_answer xe of
        Some a \<Rightarrow> a
      | None \<Rightarrow> (if xe_terminated xe then Terminal_error else if \<not> xe_sent xe then Not_sent else Unknown,
                 xe_error xe))"

text \<open>An attempt that ended before its send is settled as not sent.\<close>

definition settle_attempt :: "sclock \<Rightarrow> direct_reservation \<Rightarrow> settlement \<Rightarrow> sched \<Rightarrow> error + sched" where
  "settle_attempt c res st S =
     (case st of Settle evidence \<Rightarrow> direct_finish res evidence S | Lose _ \<Rightarrow> direct_unknown c res S)"

end
