(* ===== verification/Direct_Settlement.thy ===== *)
theory Direct_Settlement
  imports Direct_Attempt Scheduler_Demo
begin

text \<open>
  What the settlement of a direct attempt rests on: the incremental scan of a stream agrees
  with a scan of the whole text, the bytes reach the caller unchanged, a completed settlement
  needs a proof of termination, and the scheduler gives up a permit only on such a proof.
\<close>

section \<open>Lines and slices\<close>

lemma split_lines_append:
  "split_lines (a @ b) =
     (let (ls, rest) = split_lines a; (ls', rest') = split_lines (rest @ b) in (ls @ ls', rest'))"
proof (induction a)
  case Nil
  then show ?case by (simp split: prod.splits)
next
  case (Cons c a)
  obtain ls rest where a: "split_lines a = (ls, rest)" by fastforce
  obtain ls' rest' where b: "split_lines (rest @ b) = (ls', rest')" by fastforce
  from Cons a b show ?case
    by (auto split: list.splits prod.splits)
qed

lemma split_lines_rest: "newline \<notin> set (snd (split_lines s))"
  by (induction s) (auto split: prod.splits list.splits)

lemma split_lines_clean: "newline \<notin> set s \<Longrightarrow> split_lines s = ([], s)"
  by (induction s) auto

lemma split_lines_idem: "split_lines (snd (split_lines s)) = ([], snd (split_lines s))"
  by (rule split_lines_clean) (rule split_lines_rest)

lemma concat_slices [simp]: "concat (slices s) = s"
  by (induction s rule: slices.induct) (subst slices.simps, simp)

lemma slices_bounded: "x \<in> set (slices s) \<Longrightarrow> x \<noteq> [] \<and> length x \<le> 16 * 1024"
proof (induction s rule: slices.induct)
  case (1 s)
  from 1(2) show ?case by (subst (asm) slices.simps) (auto split: if_splits dest: 1(1) [simplified])
qed

lemma frame_text_slices: "concat (map (frame_text enc) (map DataFrame (slices s))) = s"
proof -
  have "map (frame_text enc) (map DataFrame xs) = xs" for xs by (induction xs) auto
  then show ?thesis by simp
qed

lemma read_chunks_lined:
  assumes "read_chunks bound True xs r = (r', False)" and "split_lines (rd_pending r) = ([], rd_pending r)"
  shows "rd_terminated r' = (rd_terminated r \<or> list_ex done_line (fst (split_lines (rd_pending r @ concat xs)))) \<and>
    concat (map (frame_text enc) (rd_frames r')) = concat (map (frame_text enc) (rd_frames r)) @ concat xs \<and>
    rd_pending r' = snd (split_lines (rd_pending r @ concat xs)) \<and> rd_buffered r' = rd_buffered r \<and>
    rd_size r' = rd_size r + length (concat xs)"
  using assms
proof (induction xs arbitrary: r)
  case Nil
  then show ?case by simp
next
  case (Cons x xs)
  obtain ls rest where s: "split_lines (rd_pending r @ x) = (ls, rest)" by fastforce
  from Cons.prems(1) obtain r1 where r1: "read_chunk bound True x r = Some r1"
    and go: "read_chunks bound True xs r1 = (r', False)" by (auto split: option.splits)
  have f: "rd_pending r1 = rest" "rd_terminated r1 = (rd_terminated r \<or> list_ex done_line ls)"
    "rd_frames r1 = rd_frames r @ map DataFrame (slices x)" "rd_buffered r1 = rd_buffered r"
    "rd_size r1 = rd_size r + length x"
    using r1 s by (auto simp: read_chunk_def Let_def split: if_splits)
  have idem: "split_lines (rd_pending r1) = ([], rd_pending r1)"
    using split_lines_idem [of "rd_pending r @ x"] by (simp add: s f)
  obtain ls' rest' where s': "split_lines (rest @ concat xs) = (ls', rest')" by fastforce
  have "split_lines (rd_pending r @ concat (x # xs)) = (ls @ ls', rest')"
    using split_lines_append [of "rd_pending r @ x" "concat xs"] by (simp add: s s')
  with Cons.IH [OF go idem] f s' show ?case
    by (simp add: frame_text_slices [unfolded map_map] del: map_map) (auto simp: frame_text_slices [unfolded map_map])
qed

text \<open>Reading without lines collects the body.\<close>

lemma read_chunks_plain:
  "read_chunks bound False xs r = (r', False) \<Longrightarrow>
   rd_terminated r' = rd_terminated r \<and> rd_frames r' = rd_frames r \<and> rd_buffered r' = rd_buffered r @ concat xs"
proof (induction xs arbitrary: r)
  case (Cons x xs)
  then obtain r1 where "read_chunk bound False x r = Some r1" "read_chunks bound False xs r1 = (r', False)"
    by (auto split: option.splits)
  with Cons.IH [of r1] show ?case by (auto simp: read_chunk_def Let_def split: if_splits)
qed simp

text \<open>Whatever way a lined reading ends, a termination it saw is a line of a part it read.\<close>

lemma read_chunks_seen:
  assumes "read_chunks bound True xs r = (r', over)" and "split_lines (rd_pending r) = ([], rd_pending r)"
    and "rd_terminated r'" and "\<not> rd_terminated r"
  shows "\<exists>n. list_ex done_line (fst (split_lines (rd_pending r @ concat (take n xs))))"
proof -
  have "\<exists>n. read_chunks bound True (take n xs) r = (r', False)"
    using assms(1)
  proof (induction xs arbitrary: r)
    case (Cons x xs)
    show ?case
    proof (cases "read_chunk bound True x r")
      case None
      with Cons.prems have "read_chunks bound True (take 0 (x # xs)) r = (r', False)" by simp
      then show ?thesis by blast
    next
      case (Some r1)
      with Cons.prems Cons.IH [of r1] obtain n where "read_chunks bound True (take n xs) r1 = (r', False)" by auto
      with Some have "read_chunks bound True (take (Suc n) (x # xs)) r = (r', False)" by simp
      then show ?thesis by blast
    qed
  qed simp
  with read_chunks_lined assms(2-4) show ?thesis by blast
qed

lemma read_chunks_kept: "read_chunks bound False xs r = (r', over) \<Longrightarrow> rd_terminated r' = rd_terminated r"
proof (induction xs arbitrary: r)
  case (Cons x xs)
  then show ?case by (auto simp: read_chunk_def Let_def split: option.splits if_splits)
qed simp

lemma read_chunks_size:
  "read_chunks bound lined xs r = (r', over) \<Longrightarrow> rd_size r \<le> bound \<Longrightarrow> rd_size r' \<le> bound"
proof (induction xs arbitrary: r)
  case (Cons x xs)
  then show ?case
    by (auto simp: read_chunk_def Let_def split: option.splits if_splits prod.splits)
qed simp

lemma read_chunks_frames:
  "read_chunks bound lined xs r = (r', over) \<Longrightarrow> DataFrame s \<in> set (rd_frames r') \<Longrightarrow>
   DataFrame s \<in> set (rd_frames r) \<or> length s \<le> 16 * 1024"
proof (induction xs arbitrary: r)
  case (Cons x xs)
  show ?case
  proof (cases "read_chunk bound lined x r")
    case None
    with Cons.prems show ?thesis by simp
  next
    case (Some r1)
    with Cons.prems have "DataFrame s \<in> set (rd_frames r1) \<or> length s \<le> 16 * 1024"
      by (intro Cons.IH [of r1]) auto
    with Some slices_bounded [of s x] show ?thesis
      by (auto simp: read_chunk_def Let_def split: if_splits prod.splits)
  qed
qed simp

section \<open>Properties\<close>

text \<open>
  The scan of a stream does not depend on how the transport cuts it. When the whole body
  of a successful stream was read, it was within the bound, the caller got exactly its bytes,
  in frames of at most 16 KiB, and the attempt counts as terminated exactly when some line of
  the whole text is the closing \<open>data: [DONE]\<close>.
\<close>

theorem stream_scan_whole:
  assumes "read_chunks bound True chunks (fresh_reading False started) = (r, False)"
  shows "rd_terminated r = list_ex done_line (fst (split_lines (concat chunks))) \<and>
    concat (map (frame_text enc) (rd_frames r)) = concat (map (frame_text enc) started) @ concat chunks \<and>
    (\<forall>s. DataFrame s \<in> set (rd_frames r) \<longrightarrow> DataFrame s \<in> set started \<or> length s \<le> 16 * 1024) \<and>
    length (concat chunks) \<le> bound"
  using read_chunks_lined [OF assms] read_chunks_frames [OF assms] read_chunks_size [OF assms]
  by (simp add: fresh_reading_def)

text \<open>A proof that the engine has stopped computing for an attempt.\<close>

definition proves_end :: "endpoint \<Rightarrow> bool \<Rightarrow> direct_reservation \<Rightarrow> response \<Rightarrow> bool" where
  "proves_end ep streaming res rp =
     (if ep_kind ep \<noteq> Llm then native_terminated ep res rp
      else rejected_status (rp_status rp) \<or>
        (rp_status rp = 200 \<and>
          (if streaming
           then \<exists>n \<le> length (rp_chunks rp). list_ex done_line (fst (split_lines (concat (take n (rp_chunks rp)))))
           else rp_end rp = None)))"

definition proves_unsent :: "endpoint \<Rightarrow> exchange \<Rightarrow> bool" where
  "proves_unsent ep x =
     (case x of
        Unconnected \<Rightarrow> True
      | Broken _ \<Rightarrow> False
      | Answered rp \<Rightarrow> ep_kind ep = Llm \<and> rp_status rp = 503 \<and> rp_end rp = None \<and>
          take 13 (concat (rp_chunks rp)) = ''Loading model'')"

lemma breaks_simps [simp]:
  "xe_sent (breaks t fs b)" "xe_terminated (breaks t fs b) = t"
  "xe_sent (returns sn t a e fs) = sn" "xe_terminated (returns sn t a e fs) = t"
  by (simp_all add: breaks_def returns_def)

lemma read_end_flags:
  "xe_sent (read_end ep streaming res rp r)"
  "xe_terminated (read_end ep streaming res rp r) \<longleftrightarrow>
     (if ep_kind ep = Llm \<and> \<not> streaming then rp_status rp = 200 \<or> rejected_status (rp_status rp) else rd_terminated r)"
  by (auto simp: read_end_def Let_def)

lemma read_body_sent: "xe_sent (read_body ep streaming res rp native)"
  by (auto simp: read_body_def Let_def read_end_flags split: prod.splits option.splits)

lemma read_body_terminated:
  assumes "xe_terminated (read_body ep streaming res rp (ep_kind ep \<noteq> Llm))"
    and "ep_kind ep = Llm \<Longrightarrow> rp_status rp = 200 \<or> rejected_status (rp_status rp)"
    and "ep_kind ep \<noteq> Llm \<Longrightarrow> native_terminated ep res rp"
  shows "proves_end ep streaming res rp"
proof (cases "ep_kind ep = Llm \<and> \<not> rejected_status (rp_status rp)")
  case False
  with assms(3) show ?thesis by (auto simp: proves_end_def)
next
  case True
  with assms(2) have st: "rp_status rp = 200" "ep_kind ep = Llm" "\<not> rejected_status (rp_status rp)" by auto
  define started where "started = (if streaming \<and> dq_admission_mode (dr_request res) = Try
    then [ControlFrame (JDict ((''type'', JString ''started'') # evidence_data res ''sent''))] else [])"
  obtain r over where rd: "read_chunks (ep_max_response ep) streaming (rp_chunks rp) (fresh_reading False started) = (r, over)"
    by fastforce
  have t: "(if over then rd_terminated r else case rp_end rp of Some b \<Rightarrow> rd_terminated r
      | None \<Rightarrow> if \<not> streaming then True else rd_terminated r)"
    using assms(1) st rd
    by (auto simp: read_body_def Let_def started_def [symmetric] read_end_flags split: option.splits if_splits)
  show ?thesis
  proof (cases streaming)
    case True
    with t have "rd_terminated r" by (auto split: if_splits option.splits)
    moreover from rd True have "read_chunks (ep_max_response ep) (1 = (1::nat)) (rp_chunks rp) (fresh_reading False started) = (r, over)"
      by simp
    ultimately obtain n where "list_ex done_line (fst (split_lines (concat (take n (rp_chunks rp)))))"
      using read_chunks_seen [of "ep_max_response ep" "rp_chunks rp" "fresh_reading False started" r over]
      by (auto simp: fresh_reading_def)
    then have "list_ex done_line (fst (split_lines (concat (take (min n (length (rp_chunks rp))) (rp_chunks rp)))))"
      by (cases "n \<le> length (rp_chunks rp)") (simp_all add: min_def)
    with True st show ?thesis by (auto simp: proves_end_def intro!: exI [of _ "min n (length (rp_chunks rp))"])
  next
    case False
    with rd read_chunks_kept have "\<not> rd_terminated r" by (fastforce simp: fresh_reading_def)
    with t have "rp_end rp = None" by (auto split: if_splits option.splits)
    with False st show ?thesis by (simp add: proves_end_def)
  qed
qed

lemma read_exchange_terminated:
  assumes "xe_terminated (read_exchange ep streaming res x)"
  shows "\<exists>rp. x = Answered rp \<and> proves_end ep streaming res rp"
proof (cases x)
  case (Answered rp)
  have "proves_end ep streaming res rp"
  proof (cases "ep_kind ep = Llm")
    case True
    with assms Answered have "xe_terminated (read_body ep streaming res rp (ep_kind ep \<noteq> Llm))"
      and "rp_status rp = 200 \<or> rejected_status (rp_status rp)"
      by (auto simp: read_exchange_def read_loading_def split: if_splits option.splits)
    with True show ?thesis by (intro read_body_terminated) auto
  next
    case False
    with assms Answered show ?thesis by (auto simp: read_exchange_def proves_end_def split: if_splits)
  qed
  with Answered show ?thesis by blast
qed (use assms in \<open>auto simp: read_exchange_def\<close>)

lemma read_exchange_sent: "xe_sent (read_exchange ep streaming res x) \<longleftrightarrow> \<not> proves_unsent ep x"
  by (auto simp: read_exchange_def proves_unsent_def read_loading_def read_body_sent
      split: exchange.splits option.splits)

lemma unsent_not_terminated: "proves_unsent ep x \<Longrightarrow> \<not> xe_terminated (read_exchange ep streaming res x)"
  by (auto simp: read_exchange_def proves_unsent_def read_loading_def split: exchange.splits option.splits)

text \<open>
  What an attempt settles. It is settled as not sent exactly when no request reached the
  engine (no connection, or the engine answered that it is still loading); it is settled as
  completed only on a proof of termination; otherwise it is reported lost.
\<close>

theorem attempt_settlement:
  "case settlement_of (read_exchange ep streaming res x) of
     Settle evidence \<Rightarrow>
       (evidence = ''completed_response'' \<and> (\<exists>rp. x = Answered rp \<and> proves_end ep streaming res rp)) \<or>
       (evidence = ''not_sent'' \<and> proves_unsent ep x)
   | Lose _ \<Rightarrow> \<not> proves_unsent ep x"
  using read_exchange_terminated [where ep = ep and streaming = streaming and res = res and x = x]
    unsent_not_terminated [where ep = ep and streaming = streaming and res = res and x = x]
  by (auto simp: settlement_of_def read_exchange_sent)

text \<open>
  C7. The scheduler gives up a permit only on a proof. When the settlement of an exchange is
  applied to a scheduler in which the attempt still holds its permit, either the permit goes,
  and then no request had reached the engine or the engine was proven to have stopped, or it
  stays held as \<open>UNKNOWN\<close>, counted against the capacity.
\<close>

theorem permit_given_up_on_proof:
  assumes "sched_reachable cf S" and "find_permit S (dr_attempt_id res) = Some p"
    and "settle_attempt c res (settlement_of (read_exchange ep streaming res x)) S = Inr T"
  shows "if find_permit T (dr_attempt_id res) = None
    then proves_unsent ep x \<or> (\<exists>rp. x = Answered rp \<and> proves_end ep streaming res rp)
    else find_permit T (dr_attempt_id res) = Some (p\<lparr>pm_state := UNKNOWN, pm_unknown_at := Some (wall c)\<rparr>)"
proof -
  have ok: "permits_ok S" using sched_okD(3) [OF sched_reachable_ok [OF assms(1)]] .
  define st where "st = settlement_of (read_exchange ep streaming res x)"
  from assms(3) obtain d where d: "direct res S = Inr d"
    by (auto simp: settle_attempt_def direct_finish_def direct_unknown_def and_then_Inr_iff split: settlement.splits if_splits)
  then have f: "find_direct S (dr_attempt_id res) = Some d" by (auto simp: direct_def split: option.splits if_splits)
  have k: "pm_attempt_id d = dr_attempt_id res" using lookup_row_Some_key [OF f] .
  have "d \<in> set (sc_permits S)" using lookup_row_Some_in [OF f] by (simp add: direct_attempts_def)
  with permit_by_key [OF assms(2)] permit_by_id [OF ok] k have "d = p" by metis
  moreover have "pm_held p" using lookup_row_Some_in [OF assms(2)] by (simp add: held_permits_def)
  ultimately have held: "pm_held d" "d = p" by auto
  show ?thesis
  proof (cases st)
    case (Settle evidence)
    with assms(3) d held k have "find_permit T (dr_attempt_id res) = None"
      by (auto simp: st_def [symmetric] settle_attempt_def direct_finish_def find_release split: if_splits)
    with attempt_settlement [where ep = ep and streaming = streaming and res = res and x = x] Settle show ?thesis by (auto simp: st_def)
  next
    case (Lose reason)
    with assms(3) d held k have "T = set_permit (dr_attempt_id res) (\<lambda>p. p\<lparr>pm_state := UNKNOWN, pm_unknown_at := Some (wall c)\<rparr>) S"
      by (auto simp: st_def [symmetric] settle_attempt_def direct_unknown_def)
    with assms(2) k held show ?thesis by (simp add: find_set_permit)
  qed
qed

section \<open>Instances\<close>

definition demo_stream :: "string list" where
  "demo_stream = [''data: 1'', [newline] @ ''data: [D'', ''ONE]'', [CHR 0x0D, newline]]"

lemma demo_stream_read:
  "snd (read_chunks 100 True demo_stream (fresh_reading False [])) = False"
  "rd_terminated (fst (read_chunks 100 True demo_stream (fresh_reading False [])))"
  by (simp_all add: demo_stream_def fresh_reading_def read_chunk_def mebibyte_def newline_def slices.simps done_line_def
      strip_def ascii_space_def)

theorem stream_scan_whole_witness:
  "list_ex done_line (fst (split_lines (concat demo_stream))) \<and> length (concat demo_stream) \<le> 100 \<and>
   concat (map (frame_text (\<lambda>_. [])) (rd_frames (fst (read_chunks 100 True demo_stream (fresh_reading False []))))) = concat demo_stream"
  using stream_scan_whole [OF fst_answer [OF demo_stream_read(1)], where enc = "\<lambda>_. []"] demo_stream_read(2) by simp

definition demo_endpoint :: endpoint where
  "demo_endpoint = \<lparr>ep_kind = Llm, ep_model_revision = ''v'', ep_max_response = 100, ep_valid_json = None\<rparr>"

definition sd_settled :: "exchange \<Rightarrow> error + sched" where
  "sd_settled x = settle_attempt (at_time 23) (demo_grant ''a1'' 0)
     (settlement_of (read_exchange demo_endpoint True (demo_grant ''a1'' 0) x)) sd3"

theorem permit_given_up_on_proof_witness:
  "find_permit (moved (sd_settled Unconnected)) ''a1'' = None \<and> proves_unsent demo_endpoint Unconnected \<and>
   map_option pm_state (find_permit (moved (sd_settled (Broken Interrupted))) ''a1'') = Some UNKNOWN"
proof -
  have k: "dr_attempt_id (demo_grant ''a1'' 0) = ''a1''" by (simp add: demo_grant_def)
  have "find_permit sd3 ''a1'' \<noteq> None" by code_simp
  then obtain p where p: "find_permit sd3 (dr_attempt_id (demo_grant ''a1'' 0)) = Some p" unfolding k by auto
  have ok: "\<not> isl (sd_settled Unconnected)" "\<not> isl (sd_settled (Broken Interrupted))"
    and n: "find_permit (moved (sd_settled Unconnected)) ''a1'' = None"
    and h: "find_permit (moved (sd_settled (Broken Interrupted))) ''a1'' \<noteq> None" by code_simp+
  note t = permit_given_up_on_proof [OF sd_reachable(4) p, unfolded k]
  from t [OF moved_ok [OF ok(1), unfolded sd_settled_def], folded sd_settled_def] n
  have "proves_unsent demo_endpoint Unconnected" by auto
  moreover from t [OF moved_ok [OF ok(2), unfolded sd_settled_def], folded sd_settled_def] h
  have "map_option pm_state (find_permit (moved (sd_settled (Broken Interrupted))) ''a1'') = Some UNKNOWN" by auto
  ultimately show ?thesis using n by blast
qed

end
