(* ===== verification/Direct_Proxy.thy ===== *)
theory Direct_Proxy
  imports Direct_Attempt
begin

text \<open>
  The proxy of one endpoint (\<open>direct_proxy.py\<close>): the requests that wait for a grant, the
  futures their producers look at, the settlements that still have to be made, and one turn of
  the dispatcher (\<open>_dispatch_once\<close>). The scheduler's methods never suspend, so a turn up to its
  final wait is one step on the proxy and the scheduler together. A future is a number; a
  dictionary is an association list in insertion order.
\<close>

section \<open>State\<close>

datatype future = Open | Granted direct_reservation | Confirmed recovery_status | Failing error | Declined | Cancelled

record pending =
  pd_request :: direct_request
  pd_future :: nat
  pd_queued_at :: int
  pd_previous :: "string option"

record proxy =
  px_pool :: pool_spec
  px_owner :: string
  px_pending :: "pending list"
  px_recovering :: "(string \<times> nat) list"
  px_settlements :: "(direct_reservation \<times> string) list"
  px_futures :: "nat \<Rightarrow> future"
  px_signal :: bool

definition pending_id :: "pending \<Rightarrow> string" where
  "pending_id e = dq_request_id (pd_request e)"

definition find_pending :: "proxy \<Rightarrow> string \<Rightarrow> pending option" where
  "find_pending P k = lookup_row pending_id k (px_pending P)"

text \<open>\<open>dict[key] = row\<close>: a known key keeps its place.\<close>

definition put_row :: "('r \<Rightarrow> 'k) \<Rightarrow> 'r \<Rightarrow> 'r list \<Rightarrow> 'r list" where
  "put_row key r t = (if lookup_row key (key r) t = None then t @ [r]
     else update_rows (\<lambda>x. key x = key r) (\<lambda>_. r) t)"

definition pop_pending :: "string \<Rightarrow> proxy \<Rightarrow> proxy" where
  "pop_pending k P = P\<lparr>px_pending := remove_row pending_id k (px_pending P)\<rparr>"

text \<open>The entry goes only when it still belongs to the caller's future.\<close>

definition drop_pending :: "string \<Rightarrow> nat \<Rightarrow> proxy \<Rightarrow> proxy" where
  "drop_pending k fu P =
     (case find_pending P k of
        None \<Rightarrow> P
      | Some e \<Rightarrow> if pd_future e = fu then pop_pending k P else P)"

definition resolve :: "nat \<Rightarrow> future \<Rightarrow> proxy \<Rightarrow> proxy" where
  "resolve fu v P = P\<lparr>px_futures := (px_futures P)(fu := v)\<rparr>"

definition resolve_open :: "nat \<Rightarrow> future \<Rightarrow> proxy \<Rightarrow> proxy" where
  "resolve_open fu v P = (if px_futures P fu = Open then resolve fu v P else P)"

section \<open>Settlements\<close>

definition settlement_id :: "direct_reservation \<times> string \<Rightarrow> string" where
  "settlement_id s = dr_attempt_id (fst s)"

text \<open>A settlement that raises stays, for the dispatcher to make again.\<close>

definition settle_held :: "direct_reservation \<Rightarrow> string \<Rightarrow> proxy \<times> sched \<Rightarrow> (proxy \<times> sched) \<times> error option" where
  "settle_held res evidence PS =
     (case PS of (P, S) \<Rightarrow>
        (let P1 = P\<lparr>px_settlements := put_row settlement_id (res, evidence) (px_settlements P)\<rparr> in
         case direct_finish res evidence S of
           Inl e \<Rightarrow> ((P1, S), Some e)
         | Inr T \<Rightarrow> ((P1\<lparr>px_settlements := remove_row settlement_id (dr_attempt_id res) (px_settlements P1)\<rparr>, T), None)))"

fun settle_all :: "(direct_reservation \<times> string) list \<Rightarrow> proxy \<times> sched \<Rightarrow> (proxy \<times> sched) \<times> error option" where
  "settle_all [] PS = (PS, None)"
| "settle_all ((res, evidence) # xs) PS =
     (case settle_held res evidence PS of
        (PS1, Some e) \<Rightarrow> (PS1, Some e)
      | (PS1, None) \<Rightarrow> settle_all xs PS1)"

section \<open>The dispatcher\<close>

definition sync_pool_epoch :: "sched \<Rightarrow> proxy \<Rightarrow> proxy" where
  "sync_pool_epoch S P =
     (case find_mpool S (ps_pool_id (px_pool P)) of
        None \<Rightarrow> P
      | Some m \<Rightarrow>
          (if mp_epoch m \<noteq> ps_engine_epoch (px_pool P)
              \<and> ps_profile_id (mp_spec m) = ps_profile_id (px_pool P)
              \<and> ps_model_revision (mp_spec m) = ps_model_revision (px_pool P)
           then P\<lparr>px_pool := (px_pool P)\<lparr>ps_engine_epoch := mp_epoch m, ps_target := mp_target m,
                    ps_valid_until := ps_valid_until (mp_spec m)\<rparr>\<rparr>
           else P))"

definition pop_recovering :: "string \<Rightarrow> proxy \<Rightarrow> proxy" where
  "pop_recovering k P = P\<lparr>px_recovering := remove_row fst k (px_recovering P)\<rparr>"

definition recovery_confirmed :: "recovery_status \<Rightarrow> bool" where
  "recovery_confirmed st \<longleftrightarrow> rst_state st = FAILED_RECOVERABLE \<and> rst_health st = HEALTHY \<and>
     (rst_current_epoch st \<noteq> rst_engine_epoch st \<or> rst_idle_verified st)"

definition observe_recovery :: "(string \<times> recovery_status) list \<Rightarrow> string \<times> nat \<Rightarrow> proxy \<Rightarrow> proxy" where
  "observe_recovery statuses af P =
     (case af of (k, fu) \<Rightarrow>
        (case map_of statuses k of
           None \<Rightarrow> P
         | Some st \<Rightarrow>
             (if px_futures P fu \<noteq> Open then P
              else if recovery_confirmed st then pop_recovering k (resolve fu (Confirmed st) P)
              else if rst_state st = ATTEMPT_FAILED then pop_recovering k (resolve fu Declined P)
              else P)))"

definition observe_all :: "sched \<Rightarrow> proxy \<Rightarrow> proxy" where
  "observe_all S P = fold (observe_recovery (recovery_statuses S (map fst (px_recovering P)))) (px_recovering P) P"

definition pending_key :: "pending \<Rightarrow> nat \<times> int \<times> string" where
  "pending_key e = (RANK (dq_workload_class (pd_request e)), pd_queued_at e, pending_id e)"

text \<open>
  What follows a grant: it is given back when its caller has gone, or when a first attempt was
  granted in another engine epoch than the proxy knows; otherwise the future gets it.
\<close>

definition hand_over :: "pending \<Rightarrow> direct_reservation \<Rightarrow> proxy \<times> sched \<Rightarrow> (proxy \<times> sched) \<times> nat \<times> error option" where
  "hand_over e res PS =
     (case PS of (P, S) \<Rightarrow>
        (if px_futures P (pd_future e) \<noteq> Open
            \<or> (case find_pending P (pending_id e) of None \<Rightarrow> True | Some x \<Rightarrow> pd_future x \<noteq> pd_future e)
         then (case settle_held res ''not_sent'' (P, S) of (PS1, err) \<Rightarrow> (PS1, 0, err))
         else if dr_engine_epoch res \<noteq> ps_engine_epoch (px_pool P) \<and> pd_previous e = None
         then (case settle_held res ''not_sent''
                 (resolve_open (pd_future e) (Failing (RuntimeConflict ''proxy has an older engine epoch''))
                   (drop_pending (pending_id e) (pd_future e) P), S) of (PS1, err) \<Rightarrow> (PS1, 0, err))
         else ((resolve (pd_future e) (Granted res) (pop_pending (pending_id e)
                 (P\<lparr>px_pool := (px_pool P)\<lparr>ps_engine_epoch := dr_engine_epoch res\<rparr>\<rparr>)), S), 1, None)))"

text \<open>
  The loop over the waiting requests. \<open>aid\<close> gives the fresh attempt identifier of a request.
  The scheduler's refusals are \<open>AdmissionDenied\<close> and \<open>RuntimeConflict\<close>.
\<close>

fun dispatch_each ::
    "sclock \<Rightarrow> (string \<Rightarrow> string) \<Rightarrow> pending list \<Rightarrow> proxy \<times> sched \<Rightarrow> (proxy \<times> sched) \<times> nat \<times> error option" where
  "dispatch_each c aid [] PS = (PS, 0, None)"
| "dispatch_each c aid (e # es) PS =
     (case PS of (P, S) \<Rightarrow>
        (if px_futures P (pd_future e) \<noteq> Open then dispatch_each c aid es (pop_pending (pending_id e) P, S)
         else case reserve c (aid (pending_id e)) (pd_request e) (ps_pool_id (px_pool P)) (px_owner P) (pd_previous e) S of
             (S1, Inl err) \<Rightarrow>
               dispatch_each c aid es (resolve_open (pd_future e) (Failing err)
                 (drop_pending (pending_id e) (pd_future e) P), S1)
           | (S1, Inr None) \<Rightarrow> ((P, S1), 0, None)
           | (S1, Inr (Some res)) \<Rightarrow>
               (case hand_over e res (P, S1) of
                  (PS2, n, Some err) \<Rightarrow> (PS2, n, Some err)
                | (PS2, n, None) \<Rightarrow>
                    (case dispatch_each c aid es PS2 of (PS3, m, err) \<Rightarrow> (PS3, n + m, err)))))"

definition dispatch_once ::
    "sclock \<Rightarrow> (string \<Rightarrow> string) \<Rightarrow> proxy \<times> sched \<Rightarrow> (proxy \<times> sched) \<times> nat \<times> error option" where
  "dispatch_once c aid PS =
     (case settle_all (px_settlements (fst PS)) PS of
        (PS1, Some e) \<Rightarrow> (PS1, 0, Some e)
      | ((P, S), None) \<Rightarrow>
          (let P1 = observe_all S ((sync_pool_epoch S P)\<lparr>px_signal := False\<rparr>) in
           dispatch_each c aid (take 8 (sort_key pending_key (px_pending P1))) (P1, S)))"

section \<open>Entering and leaving\<close>

text \<open>\<open>_enqueue_request\<close>: a refusal withdraws what it may have left.\<close>

definition enqueue_request ::
    "sched_config \<Rightarrow> sclock \<Rightarrow> direct_request \<Rightarrow> nat \<Rightarrow> string option \<Rightarrow> proxy \<times> sched
      \<Rightarrow> (proxy \<times> sched) \<times> error option" where
  "enqueue_request cf c q fu previous PS =
     (case PS of (P, S) \<Rightarrow>
        (case enqueue cf c q (ps_pool_id (px_pool P)) (px_owner P) S of
           Inl e \<Rightarrow> ((P, leave (dq_request_id q) (px_owner P) S), Some e)
         | Inr (S1, at) \<Rightarrow>
             ((P\<lparr>px_pending := put_row pending_id
                   \<lparr>pd_request = q, pd_future = fu, pd_queued_at = at, pd_previous = previous\<rparr> (px_pending P),
                 px_futures := (px_futures P)(fu := Open), px_signal := True\<rparr>, S1), None)))"

text \<open>
  What a caller did with its grant when its \<open>finally\<close> runs: it never took it from the future,
  it has handed it on, or it took it and gives it back.
\<close>

datatype taken = Untaken | Handed_on | Given_back direct_reservation

definition return_grant :: "nat \<Rightarrow> proxy \<times> sched \<Rightarrow> (proxy \<times> sched) \<times> error option" where
  "return_grant fu PS =
     (case px_futures (fst PS) fu of
        Open \<Rightarrow> ((resolve fu Cancelled (fst PS), snd PS), None)
      | Granted res \<Rightarrow> settle_held res ''not_sent'' PS
      | _ \<Rightarrow> (PS, None))"

definition leave_waiting :: "string \<Rightarrow> proxy \<times> sched \<Rightarrow> proxy \<times> sched" where
  "leave_waiting k PS = (fst PS, leave k (px_owner (fst PS)) (snd PS))"

text \<open>The \<open>finally\<close> of \<open>_produce_waiting\<close>, and that of \<open>_queue_retry\<close>.\<close>

definition stop_waiting :: "string \<Rightarrow> nat \<Rightarrow> taken \<Rightarrow> proxy \<times> sched \<Rightarrow> (proxy \<times> sched) \<times> error option" where
  "stop_waiting k fu own PS =
     (let PS1 = (drop_pending k fu (fst PS), snd PS) in
      case (case own of
              Untaken \<Rightarrow> return_grant fu PS1
            | Given_back res \<Rightarrow> settle_held res ''not_sent'' PS1
            | Handed_on \<Rightarrow> (PS1, None)) of
        (PS2, Some e) \<Rightarrow> (PS2, Some e)
      | (PS2, None) \<Rightarrow> (leave_waiting k PS2, None))"

definition stop_retry :: "string \<Rightarrow> nat \<Rightarrow> taken \<Rightarrow> proxy \<times> sched \<Rightarrow> (proxy \<times> sched) \<times> error option" where
  "stop_retry k fu own PS =
     (let PS1 = (drop_pending k fu (fst PS), snd PS) in
      case (if own = Untaken then return_grant fu PS1 else (PS1, None)) of
        (PS2, Some e) \<Rightarrow> (PS2, Some e)
      | (PS2, None) \<Rightarrow>
          (case own of
             Given_back res \<Rightarrow> settle_held res ''not_sent'' (leave_waiting k PS2)
           | _ \<Rightarrow> (leave_waiting k PS2, None)))"

text \<open>\<open>_await_confirmed_recovery\<close> puts its future here, and takes it away at its end.\<close>

definition await_recovery :: "string \<Rightarrow> nat \<Rightarrow> proxy \<Rightarrow> proxy" where
  "await_recovery k fu P = P\<lparr>px_recovering := put_row fst (k, fu) (px_recovering P),
     px_futures := (px_futures P)(fu := Open), px_signal := True\<rparr>"

text \<open>\<open>close\<close>: every open future is cancelled.\<close>

definition close_proxy :: "proxy \<Rightarrow> proxy" where
  "close_proxy P =
     (let P1 = fold (\<lambda>e. resolve_open (pd_future e) Cancelled) (px_pending P) P in
      fold (\<lambda>af. resolve_open (snd af) Cancelled) (px_recovering P1) (P1\<lparr>px_signal := True\<rparr>))"

end
