(* ===== verification/Direct_Dispatch.thy ===== *)
theory Direct_Dispatch
  imports Direct_Proxy Direct_Settlement
begin

text \<open>
  The dispatcher keeps what it is given: every permit it obtains goes to an open future of a
  waiting request or back to the scheduler. A settlement that the scheduler refuses stops the
  dispatcher of its endpoint.
\<close>

section \<open>Settlements\<close>

abbreviation permit_ids :: "sched \<Rightarrow> string set" where
  "permit_ids S \<equiv> pm_attempt_id ` set (sc_permits S)"

lemma find_permit_held: "find_permit S k \<noteq> None \<longleftrightarrow> (\<exists>p \<in> set (sc_permits S). pm_attempt_id p = k \<and> pm_held p)"
  by (auto simp: lookup_row_None_iff held_permits_def)

lemma finish_permits:
  assumes "direct_finish res evidence S = Inr T" and "permits_ok S"
  shows "find_permit T k = (if k = dr_attempt_id res then None else find_permit S k)"
    and "permit_ids T \<subseteq> permit_ids S"
proof -
  from assms(1) obtain d where d: "direct res S = Inr d"
    and T: "T = (if pm_held d then notify (release (pm_attempt_id d) (set_permit (pm_attempt_id d)
        (\<lambda>p. p\<lparr>pm_state := if evidence = ''completed_response'' then FINISHED else FAILED_NOT_SENT\<rparr>) S)) else S)"
    by (auto simp: direct_finish_def and_then_Inr_iff split: if_splits)
  note p = direct_found [OF d assms(2)]
  have none: "find_permit S (dr_attempt_id res) = None" if "\<not> pm_held d"
    using permit_by_id [OF assms(2) p(1)] p(6) that find_permit_held by metis
  have other: "find_permit (set_permit (pm_attempt_id d) (\<lambda>p. p\<lparr>pm_state := st\<rparr>) S) k = find_permit S k"
    if "k \<noteq> dr_attempt_id res" for st
    by (subst find_set_permit) (use that p(6) in \<open>auto simp: option.map_ident map_option_case split: option.splits dest: permit_by_key\<close>)
  show "find_permit T k = (if k = dr_attempt_id res then None else find_permit S k)"
    using none other p(6) by (auto simp: T find_release)
  have sub: "pm_attempt_id ` set (filter K (update_rows A (\<lambda>p. p\<lparr>pm_held := b\<rparr>) (update_rows B (\<lambda>p. p\<lparr>pm_state := st\<rparr>) xs)))
      \<subseteq> pm_attempt_id ` set xs" for K A B b st and xs :: "permit list"
    by (induction xs) auto
  show "permit_ids T \<subseteq> permit_ids S"
    unfolding T using sub [unfolded set_filter] by (simp add: release_def set_permit_def)
qed

lemma settle_held_frame:
  assumes "settle_held res evidence (P, S) = ((Q, T), err)" and "sched_ok S"
  shows "px_futures Q = px_futures P \<and> px_pending Q = px_pending P \<and> px_pool Q = px_pool P \<and> px_owner Q = px_owner P \<and>
    sched_ok T \<and> permit_ids T \<subseteq> permit_ids S \<and> (\<forall>k. find_permit T k \<noteq> None \<longrightarrow> find_permit S k \<noteq> None)"
proof (cases "direct_finish res evidence S")
  case (Inl e)
  with assms show ?thesis by (auto simp: settle_held_def Let_def)
next
  case (Inr U)
  with assms(1) have "T = U" and q: "px_futures Q = px_futures P" "px_pending Q = px_pending P" "px_pool Q = px_pool P"
    "px_owner Q = px_owner P"
    by (auto simp: settle_held_def Let_def)
  with Inr finish_permits [OF Inr sched_okD(3) [OF assms(2)]] sched_direct_finish [OF Inr assms(2)]
  show ?thesis by auto
qed

lemma settle_all_frame:
  assumes "settle_all xs (P, S) = ((Q, T), err)" and "sched_ok S"
  shows "px_futures Q = px_futures P \<and> px_pending Q = px_pending P \<and> px_pool Q = px_pool P \<and> px_owner Q = px_owner P \<and>
    sched_ok T \<and> permit_ids T \<subseteq> permit_ids S \<and> (\<forall>k. find_permit T k \<noteq> None \<longrightarrow> find_permit S k \<noteq> None)"
  using assms
proof (induction xs arbitrary: P S)
  case (Cons x xs)
  obtain res evidence where x: "x = (res, evidence)" by fastforce
  obtain P1 S1 e1 where s: "settle_held res evidence (P, S) = ((P1, S1), e1)" by (metis prod.collapse)
  note f = settle_held_frame [OF s Cons.prems(2)]
  show ?case
  proof (cases e1)
    case None
    with Cons.prems(1) s x have "settle_all xs (P1, S1) = ((Q, T), err)" by simp
    from Cons.IH [OF this] f have g: "px_futures Q = px_futures P1 \<and> px_pending Q = px_pending P1 \<and> px_pool Q = px_pool P1 \<and>
      px_owner Q = px_owner P1 \<and> sched_ok T \<and> permit_ids T \<subseteq> permit_ids S1 \<and>
      (\<forall>k. find_permit T k \<noteq> None \<longrightarrow> find_permit S1 k \<noteq> None)" by blast
    have "permit_ids T \<subseteq> permit_ids S1" "permit_ids S1 \<subseteq> permit_ids S" using f g by simp_all
    then have "permit_ids T \<subseteq> permit_ids S" by (rule subset_trans)
    then show ?thesis using f g by simp
  next
    case (Some e)
    with Cons.prems(1) s x f show ?thesis by auto
  qed
qed simp

section \<open>Grants\<close>

text \<open>What one reserve call of the dispatcher does to the permits.\<close>

definition fresh_grant :: "sched \<Rightarrow> string \<Rightarrow> direct_reservation \<Rightarrow> sched \<Rightarrow> bool" where
  "fresh_grant S aid res T \<longleftrightarrow> dr_attempt_id res = aid \<and>
     (\<exists>pm. sc_permits T = sc_permits S @ [pm] \<and> pm_attempt_id pm = aid \<and> pm_held pm \<and> pm_listed pm \<and>
        pm_reservation pm = Some res \<and> pm_state pm = RESERVED)"

lemma grant_fresh:
  assumes "grant aid p q pid owner g S = (T, res)"
  shows "fresh_grant S aid res T"
  using assms unfolding grant_def Let_def fresh_grant_def
  by (auto simp: notify_def remove_waiter_def count_waiter_def split: option.splits if_splits)

lemma reserve_fresh:
  assumes "reserve c aid q pid owner previous S = (T, Inr (Some res))"
  shows "fresh_grant S aid res T"
  using assms
proof (cases rule: reserveE)
  case (granted p w g S1 res')
  have "sc_permits S1 = sc_permits S"
    using first_permits [OF granted(9)] by (simp add: expire_dirty_def Let_def)
  with grant_fresh [OF granted(11)] granted(12) show ?thesis by (simp add: fresh_grant_def)
qed auto

lemma fresh_grant_finish:
  assumes "fresh_grant S aid res T" and "aid \<notin> permit_ids S"
  shows "\<exists>U. direct_finish res ''not_sent'' T = Inr U"
proof -
  from assms obtain pm where pm: "sc_permits T = sc_permits S @ [pm]" "pm_attempt_id pm = aid" "pm_held pm" "pm_listed pm"
    "pm_reservation pm = Some res" "dr_attempt_id res = aid" by (auto simp: fresh_grant_def)
  moreover have "lookup_row pm_attempt_id aid (filter pm_listed (sc_permits S)) = None"
    using assms(2) by (auto simp: lookup_row_None_iff)
  ultimately have "find_direct T aid = Some pm" by (simp add: direct_attempts_def lookup_row_append)
  with pm have "direct res T = Inr pm" by (simp add: direct_def)
  then show ?thesis by (simp add: direct_finish_def)
qed

lemma fresh_grant_ids:
  "fresh_grant S aid res T \<Longrightarrow> permit_ids T = insert aid (permit_ids S)"
  "fresh_grant S aid res T \<Longrightarrow> find_permit T k \<noteq> None \<Longrightarrow> k \<noteq> aid \<Longrightarrow> find_permit S k \<noteq> None"
  unfolding find_permit_held fresh_grant_def by auto

lemma hand_over_keeps:
  assumes "hand_over e res (P, S1) = ((Q, T), n, err)" and "sched_ok S1" and "fresh_grant S aid res S1" and "aid \<notin> permit_ids S"
  shows "err = None \<and> sched_ok T \<and> permit_ids T \<subseteq> insert aid (permit_ids S) \<and>
    (\<forall>fu. px_futures P fu \<noteq> Open \<longrightarrow> px_futures Q fu = px_futures P fu) \<and>
    (\<forall>k. find_permit T k \<noteq> None \<longrightarrow> find_permit S k \<noteq> None \<or>
       (k = aid \<and> px_futures P (pd_future e) = Open \<and> px_futures Q (pd_future e) = Granted res))"
proof -
  obtain U where U: "direct_finish res ''not_sent'' S1 = Inr U" using fresh_grant_finish [OF assms(3,4)] by blast
  note fin = finish_permits [OF U sched_okD(3) [OF assms(2)]] sched_direct_finish [OF U assms(2)]
  have aid: "dr_attempt_id res = aid" using assms(3) by (simp add: fresh_grant_def)
  have returned: "sched_ok U \<and> permit_ids U \<subseteq> insert aid (permit_ids S) \<and> (\<forall>k. find_permit U k \<noteq> None \<longrightarrow> find_permit S k \<noteq> None)"
    using fin fresh_grant_ids [OF assms(3)] aid by (metis option.distinct(1))
  have settled: "T = U \<and> err = None \<and> px_futures Q = px_futures P0"
    if "(case settle_held res ''not_sent'' (P0, S1) of (PS1, err) \<Rightarrow> (PS1, 0 :: nat, err)) = ((Q, T), n, err)" for P0
    using that U by (auto simp: settle_held_def Let_def)
  consider (gone) "px_futures P (pd_future e) \<noteq> Open \<or> (case find_pending P (pending_id e) of None \<Rightarrow> True | Some x \<Rightarrow> pd_future x \<noteq> pd_future e)"
    | (stale) "\<not> (px_futures P (pd_future e) \<noteq> Open \<or> (case find_pending P (pending_id e) of None \<Rightarrow> True | Some x \<Rightarrow> pd_future x \<noteq> pd_future e))"
        "dr_engine_epoch res \<noteq> ps_engine_epoch (px_pool P) \<and> pd_previous e = None"
    | (given) "\<not> (px_futures P (pd_future e) \<noteq> Open \<or> (case find_pending P (pending_id e) of None \<Rightarrow> True | Some x \<Rightarrow> pd_future x \<noteq> pd_future e))"
        "\<not> (dr_engine_epoch res \<noteq> ps_engine_epoch (px_pool P) \<and> pd_previous e = None)" by blast
  then show ?thesis
  proof cases
    case gone
    with assms(1) have "(case settle_held res ''not_sent'' (P, S1) of (PS1, err) \<Rightarrow> (PS1, 0 :: nat, err)) = ((Q, T), n, err)"
      by (simp add: hand_over_def)
    from settled [OF this] returned show ?thesis by simp
  next
    case stale
    define P0 where "P0 = resolve_open (pd_future e) (Failing (RuntimeConflict ''proxy has an older engine epoch''))
      (drop_pending (pending_id e) (pd_future e) P)"
    from assms(1) stale have "(case settle_held res ''not_sent'' (P0, S1) of (PS1, err) \<Rightarrow> (PS1, 0 :: nat, err)) = ((Q, T), n, err)"
      unfolding P0_def hand_over_def by (simp only: prod.case if_False if_True simp_thms)
    note s = settled [OF this]
    have "px_futures P fu \<noteq> Open \<Longrightarrow> px_futures P0 fu = px_futures P fu" for fu
      by (auto simp: P0_def resolve_open_def resolve_def drop_pending_def pop_pending_def split: option.splits)
    with s returned show ?thesis by auto
  next
    case given
    with assms(1) have Q: "T = S1" "err = None" "px_futures Q = (px_futures P)(pd_future e := Granted res)"
      and opn: "px_futures P (pd_future e) = Open"
      unfolding hand_over_def by (auto simp: resolve_def pop_pending_def)
    with assms(2) fresh_grant_ids [OF assms(3)] show ?thesis by auto
  qed
qed

lemma dispatch_each_keeps:
  assumes "dispatch_each c aid es (P, S) = ((Q, T), n, err)" and "sched_ok S"
    and "\<forall>e \<in> set es. aid (pending_id e) \<notin> permit_ids S" and "distinct (map (\<lambda>e. aid (pending_id e)) es)"
  shows "sched_ok T \<and> (\<forall>fu. px_futures P fu \<noteq> Open \<longrightarrow> px_futures Q fu = px_futures P fu) \<and>
    (\<forall>k. find_permit T k \<noteq> None \<longrightarrow> find_permit S k \<noteq> None \<or>
      (\<exists>e res. e \<in> set es \<and> px_futures P (pd_future e) = Open \<and> px_futures Q (pd_future e) = Granted res \<and> dr_attempt_id res = k))"
  using assms
proof (induction es arbitrary: P S n)
  case (Cons e es)
  have rest: "\<forall>x \<in> set es. aid (pending_id x) \<noteq> aid (pending_id e)" "distinct (map (\<lambda>e. aid (pending_id e)) es)"
    using Cons.prems(4) by (auto simp: image_iff)
  show ?case
  proof (cases "px_futures P (pd_future e) = Open")
    case False
    with Cons.prems(1) have "dispatch_each c aid es (pop_pending (pending_id e) P, S) = ((Q, T), n, err)" by simp
    from Cons.IH [OF this Cons.prems(2) _ rest(2)] Cons.prems(3) show ?thesis
      by (simp add: pop_pending_def) (metis (lifting))
  next
    case True
    obtain S1 r where r: "reserve c (aid (pending_id e)) (pd_request e) (ps_pool_id (px_pool P)) (px_owner P) (pd_previous e) S = (S1, r)"
      by fastforce
    have fresh: "aid (pending_id e) \<notin> permit_ids S" using Cons.prems(3) by simp
    have ok1: "sched_ok S1" by (rule sched_reserve [OF r Cons.prems(2) fresh])
    show ?thesis
    proof (cases "\<exists>res. r = Inr (Some res)")
      case False
      with reserve_not_granted [OF r] have same: "sc_permits S1 = sc_permits S" by blast
      then have fp: "find_permit S1 k = find_permit S k" for k by (simp add: held_permits_def)
      show ?thesis
      proof (cases r)
        case (Inl e1)
        define P1 where "P1 = resolve_open (pd_future e) (Failing e1) (drop_pending (pending_id e) (pd_future e) P)"
        from Inl Cons.prems(1) True r have d: "dispatch_each c aid es (P1, S1) = ((Q, T), n, err)" by (simp add: P1_def)
        have f: "px_futures P fu \<noteq> Open \<Longrightarrow> px_futures P1 fu = px_futures P fu"
          "px_futures P1 fu = Open \<Longrightarrow> px_futures P fu = Open" for fu
          by (auto simp: P1_def resolve_open_def resolve_def drop_pending_def pop_pending_def split: option.splits if_splits)
        from Cons.IH [OF d ok1] Cons.prems(3) rest(2) same
        have ih: "sched_ok T \<and> (\<forall>fu. px_futures P1 fu \<noteq> Open \<longrightarrow> px_futures Q fu = px_futures P1 fu) \<and>
          (\<forall>k. find_permit T k \<noteq> None \<longrightarrow> find_permit S1 k \<noteq> None \<or>
            (\<exists>e res. e \<in> set es \<and> px_futures P1 (pd_future e) = Open \<and> px_futures Q (pd_future e) = Granted res \<and> dr_attempt_id res = k))"
          by simp
        then show ?thesis using f fp by (metis list.set_intros(2))
      next
        case (Inr o1)
        with False have "r = Inr None" by (cases o1) auto
        with Cons.prems(1) True r have "T = S1" "Q = P" by auto
        with ok1 fp show ?thesis by simp
      qed
    next
      case True': True
      then obtain res where res: "r = Inr (Some res)" by blast
      note g = reserve_fresh [OF r [unfolded res]]
      obtain P2 S2 m e2 where h: "hand_over e res (P, S1) = ((P2, S2), m, e2)" by (metis prod.collapse)
      note hk = hand_over_keeps [OF h ok1 g fresh]
      then obtain m' where d: "dispatch_each c aid es (P2, S2) = ((Q, T), m', err)"
        using Cons.prems(1) True r res h by (auto split: prod.splits option.splits)
      have "\<forall>x \<in> set es. aid (pending_id x) \<notin> permit_ids S2"
        using hk rest(1) Cons.prems(3) by (metis insertE list.set_intros(2) subsetD)
      from Cons.IH [OF d _ this rest(2)] hk
      have ih: "sched_ok T" "\<forall>fu. px_futures P2 fu \<noteq> Open \<longrightarrow> px_futures Q fu = px_futures P2 fu"
        "\<forall>k. find_permit T k \<noteq> None \<longrightarrow> find_permit S2 k \<noteq> None \<or>
          (\<exists>e res. e \<in> set es \<and> px_futures P2 (pd_future e) = Open \<and> px_futures Q (pd_future e) = Granted res \<and> dr_attempt_id res = k)"
        by blast+
      have aid: "dr_attempt_id res = aid (pending_id e)" using g by (simp add: fresh_grant_def)
      show ?thesis using ih hk aid by (smt (verit) future.distinct(1) list.set_intros)
    qed
  qed
qed simp

lemma observe_all_frame:
  "px_pending (observe_all S P) = px_pending P \<and> px_settlements (observe_all S P) = px_settlements P \<and>
   (px_futures P fu \<noteq> Open \<longrightarrow> px_futures (observe_all S P) fu = px_futures P fu) \<and>
   (px_futures (observe_all S P) fu = Open \<longrightarrow> px_futures P fu = Open)"
proof -
  define steady where "steady = (\<lambda>(A :: proxy) (B :: proxy). px_pending B = px_pending A \<and> px_settlements B = px_settlements A \<and>
    (px_futures A fu \<noteq> Open \<longrightarrow> px_futures B fu = px_futures A fu) \<and> (px_futures B fu = Open \<longrightarrow> px_futures A fu = Open))"
  have refl: "steady A A" for A :: proxy by (simp add: steady_def)
  have trans: "steady A B \<Longrightarrow> steady B C \<Longrightarrow> steady A C" for A B C :: proxy unfolding steady_def by metis
  have one: "steady A (observe_recovery st af A)" for st af and A :: proxy
  proof (cases "map_of st (fst af)")
    case None
    then show ?thesis by (cases af) (simp add: observe_recovery_def refl)
  next
    case (Some v)
    have "steady A (pop_recovering k (resolve g (Confirmed v) A))" "steady A (pop_recovering k (resolve g Declined A))"
      if "px_futures A g = Open" for k g
      using that by (simp_all add: steady_def pop_recovering_def resolve_def)
    with Some show ?thesis by (cases af) (simp add: observe_recovery_def refl)
  qed
  have "steady A (fold (observe_recovery st) xs A)" for st xs and A :: proxy
  proof (induction xs arbitrary: A)
    case (Cons x xs)
    show ?case unfolding fold_Cons comp_apply by (rule trans [OF one Cons.IH])
  qed (simp add: refl)
  from this [of P] show ?thesis unfolding observe_all_def steady_def by blast
qed

lemma sync_pool_frame:
  "px_pending (sync_pool_epoch S P) = px_pending P \<and> px_futures (sync_pool_epoch S P) = px_futures P \<and>
   px_settlements (sync_pool_epoch S P) = px_settlements P"
  by (auto simp: sync_pool_epoch_def split: option.splits)

text \<open>
  C18. The dispatcher keeps no permit for itself. Whatever a turn of the dispatcher does, each
  permit that the scheduler holds afterwards was held before, or it was granted for a waiting
  request whose future was open and now carries that grant; every other grant of the turn has
  gone back to the scheduler.
\<close>

theorem dispatcher_keeps_no_permit:
  assumes "sched_reachable cf S" and "dispatch_once c aid (P, S) = ((Q, T), n, err)"
    and "distinct (map pending_id (px_pending P))" and "inj aid"
    and "\<forall>e \<in> set (px_pending P). aid (pending_id e) \<notin> pm_attempt_id ` set (sc_permits S)"
  shows "sched_ok T \<and> (\<forall>k. find_permit T k = None \<or> find_permit S k \<noteq> None \<or>
    (\<exists>e res. e \<in> set (px_pending P) \<and> px_futures P (pd_future e) = Open \<and>
       px_futures Q (pd_future e) = Granted res \<and> dr_attempt_id res = k))"
proof -
  have ok: "sched_ok S" by (rule sched_reachable_ok [OF assms(1)])
  obtain P1 S1 e1 where s: "settle_all (px_settlements P) (P, S) = ((P1, S1), e1)" by (metis prod.collapse)
  note f = settle_all_frame [OF s ok]
  show ?thesis
  proof (cases e1)
    case (Some e)
    with assms(2) s have "T = S1" by (simp add: dispatch_once_def)
    with f show ?thesis by blast
  next
    case None
    define P2 where "P2 = observe_all S1 ((sync_pool_epoch S1 P1)\<lparr>px_signal := False\<rparr>)"
    have pend: "px_pending P2 = px_pending P"
      using observe_all_frame [of S1 "(sync_pool_epoch S1 P1)\<lparr>px_signal := False\<rparr>"] sync_pool_frame [of S1 P1] f
      by (simp add: P2_def)
    have fut: "px_futures P2 fu = Open \<longrightarrow> px_futures P fu = Open" for fu
      using observe_all_frame [of S1 "(sync_pool_epoch S1 P1)\<lparr>px_signal := False\<rparr>" fu] sync_pool_frame [of S1 P1] f
      by (simp add: P2_def)
    define es where "es = take 8 (sort_key pending_key (px_pending P2))"
    have sub: "set es \<subseteq> set (px_pending P)" using set_take_subset [of 8 "sort_key pending_key (px_pending P2)"] pend
      by (simp add: es_def)
    have "distinct (map pending_id (sort_key pending_key (px_pending P2)))"
      using assms(3) pend by (metis distinct_map distinct_sort set_sort)
    then have "distinct (map pending_id es)" by (simp add: es_def take_map [symmetric])
    then have "distinct (map aid (map pending_id es))" using assms(4) by (simp only: distinct_map) (meson inj_on_subset subset_UNIV)
    then have dist: "distinct (map (\<lambda>e. aid (pending_id e)) es)" by (simp add: comp_def)
    have "dispatch_each c aid es (P2, S1) = ((Q, T), n, err)"
      using assms(2) s None by (simp add: dispatch_once_def P2_def es_def Let_def)
    note d = this
    have fresh: "\<forall>e \<in> set es. aid (pending_id e) \<notin> permit_ids S1" using f assms(5) sub by blast
    have ok1: "sched_ok S1" and held: "\<And>k. find_permit S1 k \<noteq> None \<Longrightarrow> find_permit S k \<noteq> None" using f by blast+
    note k = dispatch_each_keeps [OF d ok1 fresh dist]
    show ?thesis
    proof (intro conjI allI)
      show "sched_ok T" using k by (rule conjunct1)
      fix i
      show "find_permit T i = None \<or> find_permit S i \<noteq> None \<or>
        (\<exists>e res. e \<in> set (px_pending P) \<and> px_futures P (pd_future e) = Open \<and>
           px_futures Q (pd_future e) = Granted res \<and> dr_attempt_id res = i)"
      proof (cases "find_permit T i = None \<or> find_permit S1 i \<noteq> None")
        case True
        with held show ?thesis by blast
      next
        case False
        with k obtain e res where "e \<in> set es" "px_futures P2 (pd_future e) = Open" "px_futures Q (pd_future e) = Granted res"
          "dr_attempt_id res = i" by blast
        with fut [of "pd_future e"] sub show ?thesis by blast
      qed
    qed
  qed
qed

text \<open>
  A settlement the scheduler refuses stops its endpoint. When the scheduler no longer
  knows the attempt of the first retained settlement, a turn of the dispatcher raises before
  it looks at any waiting request, and changes nothing; so does every later turn.
\<close>

theorem refused_settlement_blocks:
  assumes "px_settlements P = (res, evidence) # rest" and "distinct (map settlement_id (px_settlements P))"
    and "direct_finish res evidence S = Inl e"
  shows "dispatch_once c aid (P, S) = ((P, S), 0, Some e)"
proof -
  have "settlement_id x \<noteq> settlement_id (res, evidence)" if "x \<in> set rest" for x
    using assms(1,2) that by (auto simp: image_iff)
  then have "update_rows (\<lambda>x. settlement_id x = settlement_id (res, evidence)) (\<lambda>_. (res, evidence)) rest = rest"
    by (induction rest) auto
  then have "put_row settlement_id (res, evidence) (px_settlements P) = px_settlements P"
    by (simp add: put_row_def assms(1))
  then have "settle_held res evidence (P, S) = ((P, S), Some e)"
    using assms(3) by (simp add: settle_held_def)
  then show ?thesis by (simp add: dispatch_once_def assms(1))
qed

section \<open>Recovery\<close>

lemma observed_confirmed:
  assumes "px_futures (fold (observe_recovery sts) xs P) fu = Confirmed st" and "px_futures P fu = Open"
  shows "\<exists>k. (k, fu) \<in> set xs \<and> map_of sts k = Some st \<and> recovery_confirmed st"
  using assms
proof (induction xs arbitrary: P)
  case (Cons x xs)
  obtain k g where x: "x = (k, g)" by fastforce
  show ?case
  proof (cases "px_futures (observe_recovery sts x P) fu = Open")
    case True
    with Cons.IH [of "observe_recovery sts x P"] Cons.prems(1) show ?thesis by auto
  next
    case False
    have "px_futures (fold (observe_recovery sts) xs (observe_recovery sts x P)) fu = px_futures (observe_recovery sts x P) fu"
      using False
    proof (induction xs arbitrary: P x)
      case (Cons y ys)
      have "px_futures (observe_recovery sts y (observe_recovery sts x P)) fu = px_futures (observe_recovery sts x P) fu"
        using Cons.prems by (cases y) (auto simp: observe_recovery_def resolve_def pop_recovering_def split: option.splits)
      then show ?case using Cons.IH [of y "observe_recovery sts x P"] Cons.prems by simp
    qed simp
    with Cons.prems(1) have "px_futures (observe_recovery sts x P) fu = Confirmed st" by simp
    with Cons.prems(2) x show ?thesis
      by (auto simp: observe_recovery_def resolve_def pop_recovering_def split: option.splits if_splits)
  qed
qed simp

lemma map_of_recovery: "map_of (recovery_statuses S ks) k = Some st \<Longrightarrow> recovery_status_of S k = Some (k, st)"
proof -
  assume "map_of (recovery_statuses S ks) k = Some st"
  then have "(k, st) \<in> set (recovery_statuses S ks)" by (rule map_of_SomeD)
  then obtain j where "recovery_status_of S j = Some (k, st)"
    by (auto simp: recovery_statuses_def List.map_filter_def)
  then show ?thesis by (auto simp: recovery_status_of_def split: option.splits)
qed

text \<open>
  A lost attempt is tried again only on proof. When the dispatcher resolves the recovery
  that a producer awaits, the awaited attempt has ended as recoverable in the scheduler, its
  engine has a new epoch or was shown idle, and the scheduler answers the retry it unlocks
  with the next generation, unless the limit is reached.
\<close>

theorem confirmed_recovery_is_proven:
  assumes "sched_reachable cf S" and "px_futures P fu = Open" and "px_futures (observe_all S P) fu = Confirmed st"
  shows "\<exists>k d r m. (k, fu) \<in> set (px_recovering P) \<and> find_direct S k = Some d \<and> pm_reservation d = Some r \<and>
    \<not> pm_held d \<and> pm_state d = FAILED_RECOVERABLE \<and> find_mpool S (pm_pool_id d) = Some m \<and>
    (mp_epoch m \<noteq> pm_epoch d \<or> pm_idle_verified d) \<and>
    next_generation m (dr_request r) (pm_pool_id d) (pm_owner_id d) (Some k) S =
      (if dr_generation r = 2 then Inl (AdmissionDenied ''inference recovery limit reached'' False)
       else Inr (Some (dr_generation r + 1)))"
proof -
  from observed_confirmed [OF assms(3) [unfolded observe_all_def] assms(2)]
  obtain k where k: "(k, fu) \<in> set (px_recovering P)" and rs: "recovery_status_of S k = Some (k, st)"
    and c: "recovery_confirmed st" using map_of_recovery by blast
  then obtain d m where d: "find_direct S k = Some d" and m: "find_mpool S (pm_pool_id d) = Some m"
    and st: "rst_state st = pm_state d" "rst_engine_epoch st = pm_epoch d" "rst_current_epoch st = mp_epoch m"
      "rst_idle_verified st = pm_idle_verified d"
    by (auto simp: recovery_status_of_def split: option.splits)
  have ok: "permits_ok S" using sched_okD(3) [OF sched_reachable_ok [OF assms(1)]] .
  have "d \<in> set (sc_permits S)" "pm_listed d" using lookup_row_Some_in [OF d] by (simp_all add: direct_attempts_def)
  then have pok: "permit_ok d" and "pm_kind d = Direct" using ok by (auto simp: permits_ok_def permit_ok_def split: if_splits)
  then obtain r where r: "pm_reservation d = Some r" "dr_generation r \<le> 2"
    and "\<not> pm_held d" using c st by (auto simp: permit_ok_def recovery_confirmed_def split: option.splits if_splits)
  with k d m c st show ?thesis
    by (intro exI [of _ k] exI [of _ d] exI [of _ r] exI [of _ m])
      (auto simp: recovery_confirmed_def next_generation_def recoverable_def)
qed

section \<open>Instances\<close>

definition demo_proxy :: proxy where
  "demo_proxy = \<lparr>px_pool = two_slots, px_owner = ''o'', px_pending = [], px_recovering = [], px_settlements = [],
     px_futures = (\<lambda>_. Cancelled), px_signal = False\<rparr>"

definition dp_waiting :: "(proxy \<times> sched) \<times> error option" where
  "dp_waiting = enqueue_request demo_config (at_time 20) (demo_request ''q'') 0 None (demo_proxy, sd0)"

definition dp_dispatched :: "(proxy \<times> sched) \<times> nat \<times> error option" where
  "dp_dispatched = dispatch_once (at_time 21) (append ''x'') (fst dp_waiting)"

lemma dp_reachable: "sched_reachable demo_config (snd (fst dp_waiting))"
proof -
  have e: "enqueue demo_config (at_time 20) (demo_request ''q'') ''p'' ''o'' sd0 = Inr (sd1, 20)"
    by (rule entered_answer [OF sd_runs(2), folded sd1_def])
  have "snd (fst dp_waiting) = sd1"
    by (simp add: dp_waiting_def enqueue_request_def e demo_proxy_def two_slots_def demo_pool_spec_def)
  with sd_reachable(2) show ?thesis by simp
qed

theorem dispatcher_keeps_no_permit_witness:
  "\<exists>res. px_futures (fst (fst dp_dispatched)) 0 = Granted res \<and> dr_attempt_id res = ''xq''"
proof -
  define P where "P = fst (fst dp_waiting)"
  define S where "S = snd (fst dp_waiting)"
  have d: "dispatch_once (at_time 21) (append ''x'') (P, S) = ((fst (fst dp_dispatched), snd (fst dp_dispatched)),
      fst (snd dp_dispatched), snd (snd dp_dispatched))"
    by (simp add: P_def S_def dp_dispatched_def)
  have pend: "map pending_id (px_pending (fst (fst dp_waiting))) = [''q'']"
    "map pd_future (px_pending (fst (fst dp_waiting))) = [0]"
    "list_all (\<lambda>e. ''x'' @ pending_id e \<notin> pm_attempt_id ` set (sc_permits (snd (fst dp_waiting)))) (px_pending (fst (fst dp_waiting)))"
    by code_simp+
  have g: "find_permit (snd (fst dp_dispatched)) ''xq'' \<noteq> None" "find_permit (snd (fst dp_waiting)) ''xq'' = None"
    by code_simp+
  have dist: "distinct (map pending_id (px_pending P))" by (simp add: P_def pend(1))
  have "\<forall>e \<in> set (px_pending P). ''x'' @ pending_id e \<notin> pm_attempt_id ` set (sc_permits S)"
    using pend(3) by (simp add: P_def S_def list_all_iff)
  note k = dispatcher_keeps_no_permit [OF dp_reachable [folded S_def] d dist _ this]
  have "inj (append ''x'')" by (simp add: inj_def)
  from conjunct2 [OF k [OF this], THEN spec, of "''xq''"] g obtain e res where e: "e \<in> set (px_pending P)" "px_futures (fst (fst dp_dispatched)) (pd_future e) = Granted res"
    "dr_attempt_id res = ''xq''" unfolding S_def by auto
  moreover have "pd_future e = 0" using e(1) pend(2) by (metis P_def image_eqI list.set(1) list.set(2) list.set_map singletonD)
  ultimately show ?thesis by auto
qed

text \<open>
  An attempt whose engine got a new epoch while it ran, and whose request was forgotten when
  its time had passed: its settlement, made at the end of the response, is refused for good.
\<close>

definition sd_new_epoch :: "error + ledger \<times> sched" where
  "sd_new_epoch = refresh demo_config 30 (at_time 30)
     ((fst (fst sd_begin))\<lparr>t_pools := map (\<lambda>p. p\<lparr>pool_engine_epoch := ''e2''\<rparr>) (t_pools sd_ledger)\<rparr>) sd3"

definition sd_renewed :: sched where
  "sd_renewed = (case sd_new_epoch of Inr (_, S) \<Rightarrow> S | Inl _ \<Rightarrow> sd3)"

definition sd_forgotten :: sched where
  "sd_forgotten = expire_requests 600 sd_renewed"

lemma sd_forgotten_reachable: "sched_reachable demo_config sd_forgotten"
proof -
  have "\<not> isl sd_new_epoch" by code_simp
  then obtain L T where e: "sd_new_epoch = Inr (L, T)" by (metis sum.collapse(2) prod.collapse)
  have T: "sd_renewed = T" unfolding sd_renewed_def e by simp
  have n: "pools_named ((fst (fst sd_begin))\<lparr>t_pools := map (\<lambda>p. p\<lparr>pool_engine_epoch := ''e2''\<rparr>) (t_pools sd_ledger)\<rparr>)"
    by code_simp
  have "sched_reachable demo_config sd_renewed" unfolding T
    by (rule sched_reachable_step [OF sd_reachable(4) TRefresh [OF e [unfolded sd_new_epoch_def] n]])
  then show ?thesis unfolding sd_forgotten_def by (rule sched_reachable_step [OF _ TExpire])
qed

definition dp_stuck :: proxy where
  "dp_stuck = demo_proxy\<lparr>px_settlements := [(demo_grant ''a1'' 0, ''completed_response'')]\<rparr>"

theorem refused_settlement_blocks_witness:
  "sched_reachable demo_config sd_forgotten \<and>
   dispatch_once (at_time 700) (append ''x'') (dp_stuck, sd_forgotten) =
     ((dp_stuck, sd_forgotten), 0, Some (RuntimeConflict ''stale direct request ownership''))"
proof -
  have "case direct_finish (demo_grant ''a1'' 0) ''completed_response'' sd_forgotten of
      Inl e \<Rightarrow> e = RuntimeConflict ''stale direct request ownership'' | Inr _ \<Rightarrow> False" by code_simp
  then have "direct_finish (demo_grant ''a1'' 0) ''completed_response'' sd_forgotten
      = Inl (RuntimeConflict ''stale direct request ownership'')" by (simp split: sum.splits)
  moreover have "px_settlements dp_stuck = [(demo_grant ''a1'' 0, ''completed_response'')]" by (simp add: dp_stuck_def)
  ultimately show ?thesis
    using refused_settlement_blocks [of dp_stuck "demo_grant ''a1'' 0" "''completed_response''" "[]" sd_forgotten]
      sd_forgotten_reachable by simp
qed

definition dp_recovering :: proxy where
  "dp_recovering = await_recovery ''a1'' 0 demo_proxy"

theorem confirmed_recovery_is_proven_witness:
  "\<exists>d. find_direct sd6 ''a1'' = Some d \<and> pm_state d = FAILED_RECOVERABLE \<and> \<not> pm_held d"
proof -
  have o1: "px_futures dp_recovering 0 = Open" by code_simp
  have "px_futures (observe_all sd6 dp_recovering) 0 = Confirmed
    \<lparr>rst_state = FAILED_RECOVERABLE, rst_engine_epoch = ''e'', rst_current_epoch = ''e'', rst_health = HEALTHY,
     rst_target = 2, rst_idle_verified = True\<rparr>" by code_simp
  from confirmed_recovery_is_proven [OF sd_reachable(7) o1 this]
  show ?thesis by (auto simp: dp_recovering_def await_recovery_def demo_proxy_def put_row_def)
qed

end
