(* ===== verification/Direct_Produce.thy ===== *)
theory Direct_Produce
  imports Direct_Proxy
begin

text \<open>
  The producer of a direct answer (\<open>direct_proxy.py\<close>): what \<open>open\<close> accepts, the wait for the
  first grant (\<open>_produce_waiting\<close>), the sequence of attempts of one request (\<open>_produce\<close>), the
  answer for a deferred dispatch (\<open>_deferred\<close>), and the channel to the caller. What a producer
  finds at each of its awaits is an argument: one record per turn of its loop. The settlements
  it makes itself are listed, and taken to succeed; channel writes are listed as frames.
\<close>

section \<open>The channel\<close>

record channel =
  ch_chunks :: "frame list"
  ch_detached :: bool
  ch_ended :: bool
  ch_error :: "string option"

definition new_channel :: channel where
  "new_channel = \<lparr>ch_chunks = [], ch_detached = False, ch_ended = False, ch_error = None\<rparr>"

text \<open>\<open>put\<close> waits (no result) while eight chunks are there and the reader is.\<close>

definition chan_put :: "frame \<Rightarrow> channel \<Rightarrow> channel option" where
  "chan_put x ch =
     (if \<not> ch_detached ch \<and> 8 \<le> length (ch_chunks ch) then None
      else Some (if ch_detached ch then ch else ch\<lparr>ch_chunks := ch_chunks ch @ [x]\<rparr>))"

definition chan_detach :: "channel \<Rightarrow> channel" where
  "chan_detach ch = ch\<lparr>ch_detached := True, ch_chunks := []\<rparr>"

definition chan_finish :: "string option \<Rightarrow> channel \<Rightarrow> channel" where
  "chan_finish err ch = (if ch_ended ch then ch else ch\<lparr>ch_ended := True, ch_error := err\<rparr>)"

text \<open>
  One turn of \<open>stream\<close>: it waits, yields the oldest chunk, or ends, with the error if there is
  one; the end detaches.
\<close>

datatype delivery = Waiting | Yields frame | Ends "string option"

definition chan_next :: "channel \<Rightarrow> channel \<times> delivery" where
  "chan_next ch =
     (case ch_chunks ch of
        x # xs \<Rightarrow> (ch\<lparr>ch_chunks := xs\<rparr>, Yields x)
      | [] \<Rightarrow> (if ch_ended ch then (chan_detach ch, Ends (ch_error ch)) else (ch, Waiting)))"

datatype channel_op = Put frame | Detach | Finish "string option" | Next

text \<open>A channel, what it accepted and what it has yielded; an operation that waits is no step.\<close>

definition chan_step :: "channel_op \<Rightarrow> channel \<times> frame list \<times> frame list \<Rightarrow> channel \<times> frame list \<times> frame list" where
  "chan_step x cas =
     (case cas of (ch, accepted, yielded) \<Rightarrow>
        (case x of
           Put f \<Rightarrow> (case chan_put f ch of
               None \<Rightarrow> cas
             | Some ch1 \<Rightarrow> (ch1, if ch_detached ch then accepted else accepted @ [f], yielded))
         | Detach \<Rightarrow> (chan_detach ch, accepted, yielded)
         | Finish err \<Rightarrow> (chan_finish err ch, accepted, yielded)
         | Next \<Rightarrow> (case chan_next ch of
               (ch1, Yields f) \<Rightarrow> (ch1, accepted, yielded @ [f])
             | (ch1, _) \<Rightarrow> (ch1, accepted, yielded))))"

definition chan_run :: "channel_op list \<Rightarrow> channel \<times> frame list \<times> frame list" where
  "chan_run ops = fold chan_step ops (new_channel, [], [])"

section \<open>Opening\<close>

text \<open>
  The request's body is decoded JSON and its encoding \<open>raw\<close>. Durations are microseconds; a
  duration that is not finite or not positive is refused before.
\<close>

record direct_call =
  dc_tenant_id :: string
  dc_payload :: json
  dc_raw :: string
  dc_request_bound :: int
  dc_batch_size :: int
  dc_workload_class :: workload_class
  dc_logical_request_id :: "string option"
  dc_deadline :: "int option"
  dc_started_at :: "int option"
  dc_mode :: admission_mode
  dc_dispatch_before :: "int option"
  dc_execution_timeout :: "int option"

record proxy_config =
  pc_model :: string
  pc_timeout :: int
  pc_workload_deadline :: "workload_class \<Rightarrow> int"

definition default_workload_deadline :: "int \<Rightarrow> workload_class \<Rightarrow> int" where
  "default_workload_deadline timeout cls =
     (case cls of Qa \<Rightarrow> seconds 600 | UserTask \<Rightarrow> seconds 1800 | _ \<Rightarrow> timeout)"

definition payload_checked :: "kind \<Rightarrow> string \<Rightarrow> json \<Rightarrow> bool" where
  "payload_checked k model p \<longleftrightarrow> k \<noteq> Llm \<or>
     (jget ''model'' p = JString model \<and> (jhas ''n'' p \<longrightarrow> jget ''n'' p = JInt 1) \<and>
      (jhas ''stream'' p \<longrightarrow> (\<exists>b. jget ''stream'' p = JBool b)))"

definition streams :: "kind \<Rightarrow> json \<Rightarrow> bool" where
  "streams k p \<longleftrightarrow> k = Llm \<and> jget ''stream'' p = JBool True"

definition min_opt :: "int \<Rightarrow> int option \<Rightarrow> int" where
  "min_opt n x = (case x of None \<Rightarrow> n | Some m \<Rightarrow> min n m)"

definition execution_timeout_of :: "proxy_config \<Rightarrow> direct_call \<Rightarrow> int" where
  "execution_timeout_of pc d =
     min (min_opt (pc_timeout pc) (dc_execution_timeout d)) (if dc_mode d = Try then seconds 30 else pc_timeout pc)"

definition total_time :: "proxy_config \<Rightarrow> direct_call \<Rightarrow> int" where
  "total_time pc d =
     (if dc_mode d = Try then min (execution_timeout_of pc d + seconds 10) (case dc_deadline d of None \<Rightarrow> seconds 86400 | Some t \<Rightarrow> if t = 0 then seconds 86400 else t)
      else min_opt (pc_workload_deadline pc (dc_workload_class d)) (dc_deadline d))"

definition until_of :: "proxy_config \<Rightarrow> int \<Rightarrow> direct_call \<Rightarrow> int" where
  "until_of pc now d = min_opt now (dc_started_at d) + total_time pc d"

definition deferred_body :: "string \<Rightarrow> json" where
  "deferred_body reason = JDict [(''error'', JDict [(''type'', JString ''admission_deferred''),
     (''message'', JString ''inference dispatch deferred''), (''compute_state'', JString ''not_sent''),
     (''reason'', JString reason)])]"

datatype open_result =
    Refuses error
  | Answers int frame             \<comment> \<open>a status and a body\<close>
  | Expired_stream frame          \<comment> \<open>a stream of one error\<close>
  | Requests direct_request

definition deadline_response :: "bool \<Rightarrow> open_result" where
  "deadline_response streaming =
     (if streaming
      then Expired_stream (error_frame ''inference request deadline exceeded'' ''admission_timeout'' (Some ''deadline_exceeded''))
      else Answers 504 (BodyFrame (error_object ''inference request deadline exceeded'' ''admission_timeout''
        (Some ''deadline_exceeded''))))"

definition late_response :: "admission_mode \<Rightarrow> bool \<Rightarrow> open_result" where
  "late_response mode streaming =
     (if mode = Try then Answers 409 (BodyFrame (deferred_body ''model_not_ready'')) else deadline_response streaming)"

text \<open>
  \<open>open\<close> up to the request it makes, on a started proxy. \<open>now\<close> and \<open>later\<close> are the loop's
  clock before and after the start, \<open>wall\<close> the time of day then; \<open>rid\<close> is the fresh identifier and
  \<open>digest\<close> SHA-256.
\<close>

definition direct_request_of ::
    "proxy_config \<Rightarrow> pool_spec \<Rightarrow> (string \<Rightarrow> string) \<Rightarrow> string \<Rightarrow> int \<Rightarrow> direct_call \<Rightarrow> direct_request" where
  "direct_request_of pc pool digest rid deadline d =
     \<lparr>dq_request_id = rid, dq_tenant_id = dc_tenant_id d, dq_payload_digest = digest (dc_raw d),
      dq_model_profile = ps_model_profile pool, dq_model_revision = Some (ps_model_revision pool),
      dq_expected_engine_epoch = Some (ps_engine_epoch pool), dq_capacity_profile_id = ps_profile_id pool,
      dq_kind = pool_kind pool, dq_request_bound = dc_request_bound d, dq_batch_size = dc_batch_size d,
      dq_deadline = deadline, dq_workload_class = dc_workload_class d,
      dq_logical_request_id = dc_logical_request_id d, dq_admission_mode = dc_mode d,
      dq_dispatch_before = dc_dispatch_before d, dq_execution_timeout = Some (execution_timeout_of pc d)\<rparr>"

definition open_direct ::
    "proxy_config \<Rightarrow> (string \<Rightarrow> string) \<Rightarrow> string \<Rightarrow> int \<Rightarrow> int \<Rightarrow> int \<Rightarrow> direct_call \<Rightarrow> proxy \<times> sched \<Rightarrow> proxy \<times> open_result" where
  "open_direct pc digest rid now later wall_now d PS =
     (case PS of (P, S) \<Rightarrow>
        (let k = pool_kind (px_pool P); streaming = streams k (dc_payload d); until = until_of pc now d in
         if mebibyte < length (dc_raw d)
         then (P, Refuses (AdmissionDenied ''direct request exceeds transport bound'' False))
         else if \<not> payload_checked k (pc_model pc) (dc_payload d)
         then (P, Refuses (AdmissionDenied ''direct request differs from the qualified model/completion contract'' False))
         else if (case dc_execution_timeout d of None \<Rightarrow> False | Some t \<Rightarrow> t \<le> 0)
         then (P, Refuses (ValueError ''invalid execution timeout''))
         else if dc_mode d = Wait \<and> (case dc_deadline d of None \<Rightarrow> False | Some t \<Rightarrow> t \<le> 0)
         then (P, Refuses (ValueError ''inference deadline must be a positive number of seconds''))
         else if until \<le> now \<or> until \<le> later then (P, late_response (dc_mode d) streaming)
         else let P1 = sync_pool_epoch S P in
           (P1, Requests (direct_request_of pc (px_pool P1) digest rid (wall_now + (until - later)) d))))"

section \<open>Answers of the producer\<close>

text \<open>
  What the caller gets: frames, and the status and headers of an answer that is no stream;
  \<open>failing\<close> is the error the channel ends with.
\<close>

record reply =
  ry_frames :: "frame list"
  ry_headers :: "(int \<times> (string \<times> string) list) option"
  ry_ended :: bool
  ry_failing :: "string option"

definition json_header :: "(string \<times> string) list" where
  "json_header = [(''Content-Type'', ''application/json'')]"

definition attempt_header :: "direct_reservation option \<Rightarrow> (string \<times> string) list" where
  "attempt_header res = (case res of None \<Rightarrow> [] | Some r \<Rightarrow> [(''X-Intramind-Attempt-ID'', dr_attempt_id r)])"

definition stream_reply :: "frame \<Rightarrow> reply" where
  "stream_reply f = \<lparr>ry_frames = [f], ry_headers = None, ry_ended = True, ry_failing = None\<rparr>"

definition body_reply :: "int \<Rightarrow> (string \<times> string) list \<Rightarrow> json \<Rightarrow> reply" where
  "body_reply status headers body =
     \<lparr>ry_frames = [BodyFrame body], ry_headers = Some (status, headers), ry_ended = True, ry_failing = None\<rparr>"

definition deferred :: "bool \<Rightarrow> direct_reservation \<Rightarrow> string \<Rightarrow> reply" where
  "deferred streaming res reason =
     (let unsent = (dr_generation res = 0);
          body = [(''type'', JString (if unsent then ''admission_deferred'' else ''upstream_error'')),
                  (''message'', JString ''inference dispatch deferred''), (''reason'', JString reason)] @
                 evidence_data res (if unsent then ''not_sent'' else ''terminated'')
      in if streaming then stream_reply (ErrorFrame (JDict body))
         else body_reply (if unsent then 409 else 502) json_header (JDict [(''error'', JDict body)]))"

section \<open>Waiting for the first grant\<close>

text \<open>
  How the wait ends: the caller went before it looked at the grant; an exception (the
  request's time, or another) before or after it did; the caller went after; or the grant is
  handed to \<open>_produce\<close>, which returns or raises.
\<close>

datatype wait_end =
    Left_unseen
  | Late_unseen
  | Raised_unseen string
  | Left_with direct_reservation
  | Late_with direct_reservation
  | Raised_with direct_reservation string
  | Produced direct_reservation "string option"

definition taken_of :: "wait_end \<Rightarrow> taken" where
  "taken_of w = (case w of
     Left_unseen \<Rightarrow> Untaken | Late_unseen \<Rightarrow> Untaken | Raised_unseen _ \<Rightarrow> Untaken
   | Left_with res \<Rightarrow> Given_back res | Late_with res \<Rightarrow> Given_back res | Raised_with res _ \<Rightarrow> Given_back res
   | Produced _ _ \<Rightarrow> Handed_on)"

definition late_reply :: "bool \<Rightarrow> reply" where
  "late_reply streaming =
     (if streaming
      then stream_reply (error_frame ''inference request deadline exceeded'' ''admission_timeout'' (Some ''deadline_exceeded''))
      else body_reply 504 json_header (error_object ''inference request deadline exceeded'' ''admission_timeout''
        (Some ''deadline_exceeded'')))"

definition raised_reply :: "bool \<Rightarrow> direct_reservation option \<Rightarrow> string \<Rightarrow> reply" where
  "raised_reply streaming res message =
     (if streaming
      then stream_reply (ErrorFrame (JDict [(''message'', JString message), (''type'', JString ''admission_error'')]))
      else body_reply 503 (json_header @ attempt_header res)
        (JDict [(''error'', JDict [(''message'', JString message), (''type'', JString ''admission_error'')])]))"

text \<open>The exception handlers and the last lines of the \<open>finally\<close>.\<close>

definition waiting_reply :: "bool \<Rightarrow> admission_mode \<Rightarrow> wait_end \<Rightarrow> reply option" where
  "waiting_reply streaming mode w = (case w of
     Left_unseen \<Rightarrow> Some \<lparr>ry_frames = [], ry_headers = Some (499, json_header), ry_ended = True,
       ry_failing = Some ''direct request disconnected before inference''\<rparr>
   | Late_unseen \<Rightarrow> Some (late_reply streaming)
   | Raised_unseen m \<Rightarrow> Some (raised_reply streaming None m)
   | Left_with _ \<Rightarrow> None
   | Late_with res \<Rightarrow> Some (if mode = Try then deferred streaming res ''model_not_ready'' else late_reply streaming)
   | Raised_with res m \<Rightarrow> Some (raised_reply streaming (Some res) m)
   | Produced res (Some m) \<Rightarrow> Some (raised_reply streaming (Some res) m)
   | Produced res None \<Rightarrow> None)"

definition produce_waiting ::
    "bool \<Rightarrow> direct_request \<Rightarrow> nat \<Rightarrow> wait_end \<Rightarrow> proxy \<times> sched
      \<Rightarrow> ((proxy \<times> sched) \<times> error option) \<times> reply option" where
  "produce_waiting streaming q fu w PS =
     (stop_waiting (dq_request_id q) fu (taken_of w) PS, waiting_reply streaming (dq_admission_mode q) w)"

section \<open>The attempts of one request\<close>

text \<open>
  What a turn of \<open>_produce\<close> finds: whether the caller has gone, the time is over or the cutoff
  has passed at its start; the answer of \<open>_attempt\<close>; whether the time is over after it; how the
  wait for a confirmed recovery ended; how \<open>_queue_retry\<close> ended; whether the caller had gone
  then; and whether it has gone when an error is reported.
\<close>

datatype recovery_end = Recovered | Recovery_left | Recovery_late | Recovery_failed string

datatype retry_end = Replaced direct_reservation | Retry_left | Retry_late | Retry_failed string

record produce_turn =
  pt_gone :: bool
  pt_expired :: bool
  pt_cut_off :: bool
  pt_attempt :: "outcome \<times> string option"
  pt_late :: bool
  pt_recovery :: recovery_end
  pt_retry :: retry_end
  pt_gone_after :: bool
  pt_gone_last :: bool

text \<open>The attempts made, the reservations settled as not sent, the frames of control, the answer.\<close>

record production =
  pr_attempted :: "direct_reservation list"
  pr_unsent :: "direct_reservation list"
  pr_control :: "frame list"
  pr_reply :: "reply option"
  pr_cancelled :: bool

definition ends_with :: "direct_reservation list \<Rightarrow> direct_reservation list \<Rightarrow> frame list \<Rightarrow> reply option \<Rightarrow> production" where
  "ends_with attempted unsent frames answer =
     \<lparr>pr_attempted = attempted, pr_unsent = unsent, pr_control = frames, pr_reply = answer, pr_cancelled = False\<rparr>"

text \<open>The lines after the loop.\<close>

definition upstream_error :: "bool \<Rightarrow> direct_reservation \<Rightarrow> string option \<Rightarrow> bool \<Rightarrow> string \<Rightarrow> reply" where
  "upstream_error streaming res err late state =
     (let message = (case err of None \<Rightarrow> ''direct inference unavailable''
                     | Some e \<Rightarrow> if e = [] then ''direct inference unavailable'' else e) in
      if streaming
      then stream_reply (ErrorFrame (JDict ([(''message'', JString message), (''type'', JString ''upstream_error'')] @
             evidence_data res state @ [(''reason'', if late then JString ''deadline_exceeded'' else JNull)])))
      else body_reply (if late then 504 else 502) (json_header @ attempt_header (Some res))
             (error_object message ''upstream_error'' (if late then Some ''deadline_exceeded'' else None)))"

definition gives_up ::
    "bool \<Rightarrow> produce_turn \<Rightarrow> direct_reservation \<Rightarrow> direct_reservation list \<Rightarrow> direct_reservation list \<Rightarrow> frame list
      \<Rightarrow> string option \<Rightarrow> bool \<Rightarrow> string \<Rightarrow> production" where
  "gives_up streaming t res attempted unsent frames err late state =
     ends_with attempted unsent frames
       (if pt_gone_last t then None else Some (upstream_error streaming res err late state))"

definition expired_message :: string where
  "expired_message = ''inference request deadline exceeded''"

text \<open>After an attempt that may be followed by another: the wait for the recovery's proof.\<close>

datatype retry_decision = Tries_again "frame list" | Gives_up "frame list" "string option" bool

definition decide_retry :: "kind \<Rightarrow> bool \<Rightarrow> produce_turn \<Rightarrow> direct_reservation \<Rightarrow> retry_decision" where
  "decide_retry k streaming t res =
     (let (out, err) = pt_attempt t; g = dr_generation res;
          waits = (if streaming then [control ''waiting'' g (Some ''engine_termination_unconfirmed'')] else []);
          recovers = (if streaming then [control ''recovering'' g (Some ''engine_epoch_stopped'')] else []) in
      if dq_admission_mode (dr_request res) = Try then Gives_up [] err False
      else if pt_late t then Gives_up [] (Some expired_message) True
      else if out = Unknown
      then (if k \<noteq> Llm then Gives_up [] err False
            else case pt_recovery t of
                Recovery_late \<Rightarrow> Gives_up waits (Some expired_message) True
              | Recovery_failed m \<Rightarrow> Gives_up waits (Some m) False
              | Recovery_left \<Rightarrow> Gives_up waits err False
              | Recovered \<Rightarrow>
                  (if 2 \<le> g then Gives_up (waits @ recovers) (Some ''inference recovery limit reached'') False
                   else Tries_again (waits @ recovers)))
      else if out \<noteq> Not_sent then Gives_up [] err False
      else if 2 \<le> g then Gives_up [] (Some ''inference recovery limit reached'') False
      else Tries_again [])"

fun produce ::
    "kind \<Rightarrow> bool \<Rightarrow> produce_turn list \<Rightarrow> direct_reservation \<Rightarrow> direct_reservation list \<Rightarrow> direct_reservation list
      \<Rightarrow> frame list \<Rightarrow> production option" where
  "produce k streaming [] res attempted unsent frames = None"
| "produce k streaming (t # ts) res attempted unsent frames =
     (if pt_gone t then Some (ends_with attempted (unsent @ [res]) frames None)
      else if pt_expired t
      then Some (if dq_admission_mode (dr_request res) = Try
                 then ends_with attempted (unsent @ [res]) frames (Some (deferred streaming res ''model_not_ready''))
                 else gives_up streaming t res attempted (unsent @ [res]) frames (Some expired_message) True ''unknown'')
      else if pt_cut_off t
      then Some (ends_with attempted (unsent @ [res]) frames (Some (deferred streaming res ''dispatch_cutoff'')))
      else
        (let (out, err) = pt_attempt t; made = attempted @ [res] in
         if out = Task_cancelled then Some ((ends_with made unsent frames None)\<lparr>pr_cancelled := True\<rparr>)
         else if out = Finished
         then Some (ends_with made unsent frames (Some \<lparr>ry_frames = [], ry_headers = None, ry_ended = True, ry_failing = None\<rparr>))
         else if out = Deferred \<or> (out = Not_sent \<and> dq_admission_mode (dr_request res) = Try)
         then Some (ends_with made unsent frames (Some (deferred streaming res
                (if out = Deferred then (case err of None \<Rightarrow> [] | Some e \<Rightarrow> e) else ''model_not_ready''))))
         else if out = Terminal_error
         then Some (gives_up streaming t res made unsent frames err False ''terminated'')
         else
           (case decide_retry k streaming t res of
              Gives_up fs e late \<Rightarrow> Some (gives_up streaming t res made unsent (frames @ fs) e late ''unknown'')
            | Tries_again fs \<Rightarrow>
                (case pt_retry t of
                   Retry_late \<Rightarrow> Some (gives_up streaming t res made unsent (frames @ fs) (Some expired_message) True ''unknown'')
                 | Retry_failed m \<Rightarrow> Some (gives_up streaming t res made unsent (frames @ fs) (Some m) False ''unknown'')
                 | Retry_left \<Rightarrow> Some (ends_with made unsent (frames @ fs) None)
                 | Replaced res1 \<Rightarrow>
                     (if pt_gone_after t then Some (ends_with made (unsent @ [res1]) (frames @ fs) None)
                      else produce k streaming ts res1 made unsent
                        (frames @ fs @
                          (if streaming
                           then [control ''generation_reset'' (dr_generation res1)
                                   (Some (if out = Unknown then ''engine_epoch_stopped'' else ''not_sent'')),
                                 control ''resumed'' (dr_generation res1) None]
                           else [])))))))"

end
