(* ===== verification/Direct_Answers.thy ===== *)
theory Direct_Answers
  imports Direct_Produce Direct_Dispatch
begin

text \<open>
  What the producer of a direct answer guarantees: the channel is a bounded queue, the
  producer makes at most three attempts and answers for every reservation it receives, and a
  request is opened in the engine epoch the scheduler knows.
\<close>

section \<open>The channel\<close>

definition channel_ok :: "channel \<times> frame list \<times> frame list \<Rightarrow> bool" where
  "channel_ok cas \<longleftrightarrow> (case cas of (ch, accepted, yielded) \<Rightarrow>
     length (ch_chunks ch) \<le> 8 \<and>
     (if ch_detached ch then ch_chunks ch = [] \<and> (\<exists>zs. accepted = yielded @ zs)
      else accepted = yielded @ ch_chunks ch))"

lemma channel_step: "channel_ok cas \<Longrightarrow> channel_ok (chan_step x cas)"
proof -
  assume ok: "channel_ok cas"
  obtain ch accepted yielded where cas: "cas = (ch, accepted, yielded)" by (cases cas)
  show ?thesis
  proof (cases "ch_detached ch")
    case True
    with ok have "ch_chunks ch = []" "\<exists>zs. accepted = yielded @ zs" by (simp_all add: cas channel_ok_def)
    with True show ?thesis
      by (cases x) (auto simp: cas channel_ok_def chan_step_def chan_put_def chan_detach_def chan_finish_def chan_next_def)
  next
    case False
    with ok have "accepted = yielded @ ch_chunks ch" "length (ch_chunks ch) \<le> 8" by (simp_all add: cas channel_ok_def)
    with False show ?thesis
      by (cases x; cases "ch_chunks ch")
        (auto simp: cas channel_ok_def chan_step_def chan_put_def chan_detach_def chan_finish_def chan_next_def)
  qed
qed

text \<open>
  The channel is a bounded queue. Whatever writer and reader do, it never holds more than
  eight chunks; the reader gets a prefix of what was accepted, in order, and as long as it has
  not left, what it has not got yet is still in the channel.
\<close>

theorem channel_is_queue:
  "case chan_run ops of (ch, accepted, yielded) \<Rightarrow>
     length (ch_chunks ch) \<le> 8 \<and>
     (if ch_detached ch then ch_chunks ch = [] \<and> (\<exists>zs. accepted = yielded @ zs)
      else accepted = yielded @ ch_chunks ch)"
proof -
  have "channel_ok (fold chan_step ops cas)" if "channel_ok cas" for cas
    using that
  proof (induction ops arbitrary: cas)
    case (Cons x xs)
    show ?case unfolding fold_Cons comp_apply by (rule Cons.IH [OF channel_step [OF Cons.prems]])
  qed simp
  from this [of "(new_channel, [], [])"] have "channel_ok (chan_run ops)"
    by (simp add: chan_run_def channel_ok_def new_channel_def)
  then show ?thesis unfolding channel_ok_def .
qed

section \<open>The attempts of a request\<close>

text \<open>Replacements come with the generation the scheduler gives a retry.\<close>

fun counts_up :: "int \<Rightarrow> produce_turn list \<Rightarrow> bool" where
  "counts_up g [] = True"
| "counts_up g (t # ts) =
     (case pt_retry t of Replaced r \<Rightarrow> dr_generation r = g + 1 \<and> counts_up (g + 1) ts | _ \<Rightarrow> counts_up (g + 1) ts)"

lemma gives_up_sel [simp]:
  "pr_attempted (gives_up s t r a u f e l st) = a" "pr_unsent (gives_up s t r a u f e l st) = u"
  "pr_attempted (ends_with a u f y) = a" "pr_unsent (ends_with a u f y) = u"
  by (simp_all add: gives_up_def ends_with_def)

lemma decide_retry_generation: "decide_retry k s t r = Tries_again fs \<Longrightarrow> dr_generation r < 2"
  by (auto simp: decide_retry_def Let_def split: prod.splits if_splits recovery_end.splits)

lemma produce_bounded:
  assumes "counts_up (dr_generation r) ts" and "dr_generation r \<le> 2" and "3 - dr_generation r \<le> int (length ts)"
  shows "\<exists>pr. produce k s ts r a u fs = Some pr \<and> int (length (pr_attempted pr)) \<le> int (length a) + 3 - dr_generation r"
  using assms
proof (induction ts arbitrary: r a u fs)
  case (Cons t ts)
  let ?next = "\<exists>pr. produce k s (t # ts) r a u fs = Some pr \<and> int (length (pr_attempted pr)) \<le> int (length a) + 3 - dr_generation r"
  have stop: ?next if "produce k s (t # ts) r a u fs = Some pr" "length (pr_attempted pr) \<le> Suc (length a)" for pr
    using that Cons.prems(2) by auto
  show ?case
  proof (cases "\<exists>pr. produce k s (t # ts) r a u fs = Some pr \<and> length (pr_attempted pr) \<le> Suc (length a)")
    case True
    with stop show ?thesis by blast
  next
    case False
    then obtain gs r1 where d: "decide_retry k s t r = Tries_again gs" "pt_retry t = Replaced r1"
      and p: "\<exists>fs'. produce k s (t # ts) r a u fs = produce k s ts r1 (a @ [r]) u fs'"
      by (auto simp: Let_def split: if_splits prod.splits retry_decision.splits retry_end.splits)
    from Cons.prems(1) d(2) have g: "dr_generation r1 = dr_generation r + 1" "counts_up (dr_generation r1) ts" by auto
    from Cons.IH [of r1 "a @ [r]" u] g decide_retry_generation [OF d(1)] Cons.prems(3) p show ?thesis by fastforce
  qed
qed simp

text \<open>
  The attempts of a request come to an end. With the generations the scheduler gives to
  retries, three turns are enough: the producer stops, having made at most three attempts.
\<close>

theorem produce_terminates:
  assumes "dr_generation r = 0" and "counts_up 0 ts" and "3 \<le> length ts"
  shows "\<exists>pr. produce k streaming ts r [] [] [] = Some pr \<and> length (pr_attempted pr) \<le> 3"
  using produce_bounded [of r ts k streaming "[]" "[]" "[]"] assms by auto

definition replacement :: "produce_turn \<Rightarrow> direct_reservation list" where
  "replacement t = (case pt_retry t of Replaced r \<Rightarrow> [r] | _ \<Rightarrow> [])"

text \<open>A turn after which another attempt may be made.\<close>

definition unlocks_retry :: "kind \<Rightarrow> produce_turn \<Rightarrow> bool" where
  "unlocks_retry k t \<longleftrightarrow> fst (pt_attempt t) = Not_sent \<or>
     (fst (pt_attempt t) = Unknown \<and> pt_recovery t = Recovered \<and> k = Llm)"

lemma decide_retry_unlocks: "decide_retry k s t r = Tries_again fs \<Longrightarrow> unlocks_retry k t"
  by (auto simp: decide_retry_def unlocks_retry_def Let_def split: prod.splits if_splits recovery_end.splits)

lemma produce_accounts:
  assumes "produce k s ts r a u fs = Some pr"
  shows "\<exists>m us rs. m \<le> length ts \<and> pr_attempted pr = a @ rs \<and> pr_unsent pr = u @ us \<and> length us \<le> 1 \<and>
    rs @ us = r # concat (map replacement (take m ts)) \<and>
    (\<forall>t \<in> set (take m ts). replacement t \<noteq> [] \<and> unlocks_retry k t)"
  using assms
proof (induction ts arbitrary: r a u fs)
  case (Cons t ts)
  have unsent: ?case if "pr_attempted pr = a" "pr_unsent pr = u @ [r]"
    by (rule exI [of _ 0]) (use that in simp)
  have made: ?case if "pr_attempted pr = a @ [r]" "pr_unsent pr = u"
    by (rule exI [of _ 0]) (use that in simp)
  consider "pr_attempted pr = a" "pr_unsent pr = u @ [r]" | "pr_attempted pr = a @ [r]" "pr_unsent pr = u"
    | (replaced) gs r1 where "decide_retry k s t r = Tries_again gs" "pt_retry t = Replaced r1"
      "(pr_attempted pr = a @ [r] \<and> pr_unsent pr = u @ [r1]) \<or> (\<exists>fs'. produce k s ts r1 (a @ [r]) u fs' = Some pr)"
    using Cons.prems
    by (auto simp: Let_def split: if_splits prod.splits retry_decision.splits retry_end.splits)
  then show ?case
  proof cases
    case replaced
    have t: "replacement t = [r1]" "unlocks_retry k t"
      using replaced(2) decide_retry_unlocks [OF replaced(1)] by (simp_all add: replacement_def)
    from replaced(3) show ?thesis
    proof (elim disjE exE)
      assume "pr_attempted pr = a @ [r] \<and> pr_unsent pr = u @ [r1]"
      with t show ?thesis by (intro exI [of _ 1]) simp
    next
      fix fs' assume "produce k s ts r1 (a @ [r]) u fs' = Some pr"
      from Cons.IH [OF this] obtain m us rs where "m \<le> length ts" "pr_attempted pr = (a @ [r]) @ rs" "pr_unsent pr = u @ us"
        "length us \<le> 1" "rs @ us = r1 # concat (map replacement (take m ts))"
        "\<forall>t \<in> set (take m ts). replacement t \<noteq> [] \<and> unlocks_retry k t" by blast
      with t show ?thesis by (intro exI [of _ "Suc m"] exI [of _ us] exI [of _ "r # rs"]) simp
    qed
  qed (use unsent made in blast)+
qed simp


section \<open>Opening\<close>

text \<open>
  A request is opened for the engine that serves it. When the scheduler knows the pool of
  the proxy with the same profile and revision, the request names the engine epoch of the
  scheduler, so it is not refused as coming from an older proxy; its deadline lies ahead,
  within the time of its class, and a \<open>try\<close> may compute for 30 seconds at most.
\<close>

theorem opened_for_current_engine:
  assumes "open_direct pc digest rid now later wall_now d (P, S) = (Q, Requests q)"
    and "find_mpool S (ps_pool_id (px_pool P)) = Some m"
    and "ps_profile_id (mp_spec m) = ps_profile_id (px_pool P)"
    and "ps_model_revision (mp_spec m) = ps_model_revision (px_pool P)"
  shows "\<not> stale_proxy m q \<and> wall_now < dq_deadline q \<and> dq_deadline q \<le> wall_now + total_time pc d + (now - later) \<and>
    (\<exists>t. dq_execution_timeout q = Some t \<and> t \<le> pc_timeout pc \<and> (dc_mode d = Wait \<or> t \<le> seconds 30))"
proof -
  have now: "until_of pc now d \<le> now + total_time pc d"
    by (auto simp: until_of_def min_opt_def split: option.splits)
  from assms(1) have q: "q = direct_request_of pc (px_pool (sync_pool_epoch S P)) digest rid (wall_now + (until_of pc now d - later)) d"
    and late: "later < until_of pc now d"
    by (auto simp: open_direct_def Let_def late_response_def deadline_response_def split: if_splits option.splits)
  have "ps_engine_epoch (px_pool (sync_pool_epoch S P)) = mp_epoch m"
    using assms(2-4) by (auto simp: sync_pool_epoch_def)
  then have "\<not> stale_proxy m q" by (simp add: q direct_request_of_def stale_proxy_def)
  moreover have "execution_timeout_of pc d \<le> pc_timeout pc"
    by (auto simp: execution_timeout_of_def min_opt_def split: option.splits)
  moreover have "dc_mode d = Wait \<or> execution_timeout_of pc d \<le> seconds 30"
    by (cases "dc_mode d") (auto simp: execution_timeout_of_def)
  ultimately show ?thesis using now late by (simp add: q direct_request_of_def)
qed

section \<open>Instances\<close>

definition demo_turn :: "outcome \<Rightarrow> retry_end \<Rightarrow> produce_turn" where
  "demo_turn out again = \<lparr>pt_gone = False, pt_expired = False, pt_cut_off = False, pt_attempt = (out, None), pt_late = False,
     pt_recovery = Recovered, pt_retry = again, pt_gone_after = False, pt_gone_last = False\<rparr>"

definition demo_turns :: "produce_turn list" where
  "demo_turns = [demo_turn Not_sent (Replaced (demo_grant ''a2'' 1)), demo_turn Unknown (Replaced (demo_grant ''a3'' 2)),
     demo_turn Unknown (Replaced (demo_grant ''a4'' 3))]"

theorem produce_terminates_witness:
  "\<exists>pr. produce Llm True demo_turns (demo_grant ''a1'' 0) [] [] [] = Some pr \<and> length (pr_attempted pr) \<le> 3"
  by (rule produce_terminates) (simp_all add: demo_turns_def demo_turn_def demo_grant_def)

definition demo_production :: production where
  "demo_production = the (produce Llm False demo_turns (demo_grant ''a1'' 0) [] [] [])"


definition demo_call :: direct_call where
  "demo_call = \<lparr>dc_tenant_id = ''t'', dc_payload = JDict [(''model'', JString ''v'')], dc_raw = ''{}'', dc_request_bound = 10,
     dc_batch_size = 1, dc_workload_class = Qa, dc_logical_request_id = None, dc_deadline = None, dc_started_at = None,
     dc_mode = Try, dc_dispatch_before = None, dc_execution_timeout = None\<rparr>"

definition demo_proxy_config :: proxy_config where
  "demo_proxy_config = \<lparr>pc_model = ''v'', pc_timeout = seconds 1800,
     pc_workload_deadline = default_workload_deadline (seconds 1800)\<rparr>"

definition demo_opened :: "proxy \<times> open_result" where
  "demo_opened = open_direct demo_proxy_config demo_digest ''q'' 10 11 20 demo_call (demo_proxy, sd0)"

theorem opened_for_current_engine_witness:
  "\<exists>q. snd demo_opened = Requests q \<and> dq_expected_engine_epoch q = Some ''e'' \<and> 20 < dq_deadline q \<and>
     \<not> stale_proxy (the (find_mpool sd0 ''p'')) q"
proof -
  have raw: "\<not> mebibyte < length (dc_raw demo_call)" by (simp add: demo_call_def mebibyte_def)
  have checks: "payload_checked Llm ''v'' (dc_payload demo_call)"
    by (simp add: payload_checked_def demo_call_def jlookup_def)
  have px: "px_pool demo_proxy = two_slots" "pool_kind two_slots = Llm" "ps_pool_id two_slots = ''p''"
    by (simp_all add: demo_proxy_def two_slots_def demo_pool_spec_def)
  have tm: "until_of demo_proxy_config 10 demo_call = 10 + seconds 40"
    by (simp add: until_of_def min_opt_def demo_call_def total_time_def execution_timeout_of_def demo_proxy_config_def seconds_def)
  define q where "q = direct_request_of demo_proxy_config (px_pool (sync_pool_epoch sd0 demo_proxy)) demo_digest ''q'' (9 + seconds 40 + 10) demo_call"
  have o1: "open_direct demo_proxy_config demo_digest ''q'' 10 11 20 demo_call (demo_proxy, sd0) = (sync_pool_epoch sd0 demo_proxy, Requests q)"
    unfolding open_direct_def Let_def using raw checks
    by (simp add: px tm q_def) (simp add: demo_call_def demo_proxy_config_def seconds_def)
  have "find_mpool sd0 ''p'' \<noteq> None" by code_simp
  then have m: "find_mpool sd0 (ps_pool_id (px_pool demo_proxy)) = Some (the (find_mpool sd0 ''p''))" by (simp add: px)
  have "ps_profile_id (mp_spec (the (find_mpool sd0 ''p''))) = ps_profile_id (px_pool demo_proxy)"
    "ps_model_revision (mp_spec (the (find_mpool sd0 ''p''))) = ps_model_revision (px_pool demo_proxy)" by code_simp+
  note c = opened_for_current_engine [OF o1 m this]
  have "dq_expected_engine_epoch q = Some (ps_engine_epoch (px_pool (sync_pool_epoch sd0 demo_proxy)))"
    by (simp add: q_def direct_request_of_def)
  moreover have "ps_engine_epoch (px_pool (sync_pool_epoch sd0 demo_proxy)) = ''e''" by code_simp
  ultimately show ?thesis using c o1 by (simp add: demo_opened_def)
qed

end
