(* ===== verification/Drivers.thy ===== *)
theory Drivers
  imports Contracts Json
begin

text \<open>
  The engine drivers (\<open>drivers.py\<close>, \<open>speech.py\<close>, \<open>embedding.py\<close>), the native profiles, the
  rerank contract (\<open>rerank.py\<close>) and the preparers. A driver makes one HTTP exchange; how it
  ends is an argument, and the driver's answer is a result or a \<open>DriverFailure\<close> that says what
  is known of the backend's compute. The decoding of a body by \<open>pydantic\<close>, of a WAV file by
  \<open>wave\<close>, and floating point are arguments too. Bytes are characters.
\<close>

section \<open>Failures and results\<close>

record driver_failure =
  df_reason :: string
  df_not_sent :: bool
  df_finished :: bool
  df_retry :: bool

text \<open>
  The exceptions an attempt tells apart. \<open>SendBudgetUnavailable\<close> is a \<open>RuntimeConflict\<close> with a
  clause of its own; a cancellation is no \<open>Exception\<close>.
\<close>

datatype raised =
    Driver_failed driver_failure
  | Timed_out
  | Budget_unavailable string
  | Conflicting
  | Task_cancelled
  | Other_error

datatype 'a call_end = Returned 'a | Raised raised

datatype result =
    Engine_result json "int option" "int option"     \<comment> \<open>body, input and output tokens\<close>
  | Speech_result json int
  | Embedding_result json int

text \<open>An exchange that breaks: no connection was made, another \<open>HTTPError\<close>, or anything else.\<close>

datatype http_break = Not_connected string | Http_failed string | Interrupted_by raised

definition failure :: "string \<Rightarrow> bool \<Rightarrow> bool \<Rightarrow> bool \<Rightarrow> 'a call_end" where
  "failure reason not_sent finished retry =
     Raised (Driver_failed \<lparr>df_reason = reason, df_not_sent = not_sent, df_finished = finished, df_retry = retry\<rparr>)"

text \<open>The decimal of a status code in a reason.\<close>

fun decimal :: "nat \<Rightarrow> string" where
  "decimal n = (if n < 10 then [char_of (48 + n)] else decimal (n div 10) @ [char_of (48 + n mod 10)])"

declare decimal.simps [simp del]

section \<open>The completion driver\<close>

definition completion_fields :: "string list" where
  "completion_fields = [''messages'', ''temperature'', ''top_p'', ''seed'', ''stop'', ''response_format'',
     ''presence_penalty'', ''frequency_penalty'', ''tools'', ''tool_choice'', ''chat_template_kwargs'',
     ''parallel_tool_calls'']"

fun is_bool :: "json \<Rightarrow> bool" where
  "is_bool (JBool _) = True"
| "is_bool _ = False"

definition valid_completion_payload :: "(string \<times> json) list \<Rightarrow> bool" where
  "valid_completion_payload d \<longleftrightarrow>
     fst ` set d \<subseteq> set completion_fields \<and> is_list (jget ''messages'' (JDict d)) \<and>
     (jhas ''parallel_tool_calls'' (JDict d) \<longrightarrow> is_bool (jget ''parallel_tool_calls'' (JDict d)))"

text \<open>The request: the payload with the routing fields the caller does not control.\<close>

definition completion_request :: "string \<Rightarrow> int \<Rightarrow> (string \<times> json) list \<Rightarrow> json" where
  "completion_request model max_tokens d =
     JDict (d @ [(''model'', JString model), (''max_tokens'', JInt max_tokens), (''n'', JInt 1), (''stream'', JBool False)])"

text \<open>
  Reading the answer: exactly one choice; \<open>body.get("usage") or {}\<close>, where a truthy value that
  is no dict raises outside the driver's clause. \<open>count\<close> is what the contract accepts as a
  token count.
\<close>

fun falsy :: "json \<Rightarrow> bool" where
  "falsy JNull = True"
| "falsy (JBool b) = (\<not> b)"
| "falsy (JInt n) = (n = 0)"
| "falsy (JFloat s) = (s \<in> {''0.0'', ''-0.0''})"
| "falsy (JString s) = (s = [])"
| "falsy (JList l) = (l = [])"
| "falsy (JDict d) = (d = [])"

definition one_choice :: "json \<Rightarrow> bool" where
  "one_choice body \<longleftrightarrow> is_dict body \<and> (case jget ''choices'' body of JList l \<Rightarrow> length l = 1 | _ \<Rightarrow> False)"

definition token_count :: "(json \<Rightarrow> int option) \<Rightarrow> json \<Rightarrow> int option option" where
  "token_count count j = (if j = JNull then Some None else map_option Some (count j))"

definition read_completion :: "(json \<Rightarrow> int option) \<Rightarrow> json option \<Rightarrow> result call_end" where
  "read_completion count decoded =
     (let invalid = failure ''invalid_response'' False True False in
      case decoded of
        None \<Rightarrow> invalid
      | Some body \<Rightarrow>
          (if \<not> one_choice body then invalid
           else
             (let u = jget ''usage'' body; usage = (if falsy u then JDict [] else u) in
              if \<not> is_dict usage then Raised Other_error
              else case (token_count count (jget ''prompt_tokens'' usage), token_count count (jget ''completion_tokens'' usage)) of
                  (Some i, Some n) \<Rightarrow> Returned (Engine_result body i n)
                | _ \<Rightarrow> invalid)))"

text \<open>\<open>OpenAICompletionDriver.execute\<close>: whether the request was posted, and the answer.\<close>

type_synonym completion_exchange = "http_break + int \<times> json option"   \<comment> \<open>status and decoded body\<close>

definition rejected_statuses :: "int list" where
  "rejected_statuses = [400, 401, 403, 404, 422]"

definition completion_answer :: "(json \<Rightarrow> int option) \<Rightarrow> completion_exchange \<Rightarrow> result call_end" where
  "completion_answer count x =
     (case x of
        Inl (Not_connected name) \<Rightarrow> failure name True False True
      | Inl (Http_failed name) \<Rightarrow> failure name False False False
      | Inl (Interrupted_by e) \<Rightarrow> Raised e
      | Inr (status, decoded) \<Rightarrow>
          (if status \<in> set rejected_statuses then failure (''backend_rejected_'' @ decimal (nat status)) False True False
           else if status \<noteq> 200
             then failure (''backend_status_'' @ decimal (nat status) @ ''_unconfirmed'') False False False
           else read_completion count decoded))"

definition execute_completion ::
    "(json \<Rightarrow> int option) \<Rightarrow> string \<Rightarrow> reservation \<Rightarrow> json \<Rightarrow> completion_exchange \<Rightarrow> json option \<times> result call_end" where
  "execute_completion count model rv payload x =
     (case payload of
        JDict d \<Rightarrow>
          (if \<not> valid_completion_payload d then (None, failure ''invalid_completion_payload'' True False False)
           else case os_body (rv_operation rv) of
               LlmBody _ n \<Rightarrow> (Some (completion_request model n d), completion_answer count x)
             | _ \<Rightarrow> (None, Raised Other_error))
      | _ \<Rightarrow> (None, Raised Other_error))"

section \<open>Native profiles\<close>

text \<open>\<open>not text.strip()\<close>, on the characters Python calls whitespace.\<close>

definition py_space :: "char \<Rightarrow> bool" where
  "py_space c \<longleftrightarrow> (let n = of_char c :: nat in (9 \<le> n \<and> n \<le> 13) \<or> (28 \<le> n \<and> n \<le> 32) \<or> n = 133 \<or> n = 160)"

definition blank_text :: "string \<Rightarrow> bool" where
  "blank_text s \<longleftrightarrow> list_all py_space s"

record speech_payload =
  sp_text :: string
  sp_voice_id :: "string option"
  sp_gender :: "string option"

record speech_profile =
  spf_model_profile :: string
  spf_capacity_profile :: string
  spf_character_limit :: int
  spf_sample_rate :: int
  spf_max_audio_bytes :: int
  spf_voices :: "string list"

definition speech_voice :: "speech_payload \<Rightarrow> string" where
  "speech_voice p = (case sp_voice_id p of
     Some v \<Rightarrow> v
   | None \<Rightarrow> ''vi_'' @ (case sp_gender p of Some g \<Rightarrow> g | None \<Rightarrow> ''female''))"

definition validate_speech :: "(json \<Rightarrow> speech_payload option) \<Rightarrow> speech_profile \<Rightarrow> json \<Rightarrow> speech_payload option" where
  "validate_speech decode pf payload =
     (case decode payload of
        None \<Rightarrow> None
      | Some p \<Rightarrow>
          (if blank_text (sp_text p) \<or> spf_character_limit pf < int (length (sp_text p)) then None
           else if speech_voice p \<notin> set (spf_voices pf) then None
           else Some p))"

record embedding_payload =
  ep_texts :: "string list"
  ep_input_type :: string

record embedding_profile =
  epf_model_profile :: string
  epf_capacity_profile :: string
  epf_model :: string
  epf_model_revision :: string
  epf_dimension :: int
  epf_max_batch :: int
  epf_character_limit :: int
  epf_max_text :: int
  epf_max_response_bytes :: int

definition embedding_characters :: "embedding_payload \<Rightarrow> int" where
  "embedding_characters p = sum_list (map (\<lambda>t. int (length t)) (ep_texts p))"

definition validate_embedding ::
    "(json \<Rightarrow> embedding_payload option) \<Rightarrow> embedding_profile \<Rightarrow> json \<Rightarrow> embedding_payload option" where
  "validate_embedding decode pf payload =
     (case decode payload of
        None \<Rightarrow> None
      | Some p \<Rightarrow>
          (if epf_max_batch pf < int (length (ep_texts p)) \<or> epf_character_limit pf < embedding_characters p \<or>
              list_ex (\<lambda>t. epf_max_text pf < int (length t)) (ep_texts p)
           then None else Some p))"

record vectors =
  vc_embeddings :: "string list list"
  vc_dimension :: int
  vc_model :: string

definition validate_vectors :: "embedding_profile \<Rightarrow> embedding_payload \<Rightarrow> vectors \<Rightarrow> bool" where
  "validate_vectors pf p v \<longleftrightarrow>
     vc_model v = epf_model pf \<and> vc_dimension v = epf_dimension pf \<and>
     length (vc_embeddings v) = length (ep_texts p) \<and>
     list_all (\<lambda>x. int (length x) = vc_dimension v) (vc_embeddings v)"

definition vectors_json :: "vectors \<Rightarrow> json" where
  "vectors_json v = JDict
     [(''embeddings'', JList (map (\<lambda>x. JList (map JFloat x)) (vc_embeddings v))),
      (''dimension'', JInt (vc_dimension v)), (''model'', JString (vc_model v))]"

section \<open>The native drivers\<close>

text \<open>
  A response of a native engine: the four headers, the status, the body in pieces, and how the
  body breaks off if it does.
\<close>

record native_response =
  nr_contract :: "string option"
  nr_attempt :: "string option"
  nr_state :: "string option"
  nr_revision :: "string option"
  nr_type :: string                \<comment> \<open>the media type before a semicolon\<close>
  nr_status :: int
  nr_pieces :: "string list"
  nr_break :: "http_break option"

definition compute_state :: "reservation \<Rightarrow> native_response \<Rightarrow> string option" where
  "compute_state rv r =
     (if nr_contract r = Some ''termination-v1'' \<and> nr_attempt r = Some (rv_attempt_id rv) then nr_state r else None)"

text \<open>Reading the pieces: \<open>None\<close> when their size passes the limit.\<close>

fun read_pieces :: "int \<Rightarrow> int \<Rightarrow> string list \<Rightarrow> string option" where
  "read_pieces limit got [] = Some []"
| "read_pieces limit got (c # cs) =
     (let s = got + int (length c) in
      if limit < s then None else map_option ((@) c) (read_pieces limit s cs))"

text \<open>The classification of a broken exchange, by the state the headers gave.\<close>

definition broken_exchange :: "string option \<Rightarrow> http_break \<Rightarrow> result call_end" where
  "broken_exchange state b =
     (case b of
        Not_connected name \<Rightarrow> failure name True False True
      | Http_failed name \<Rightarrow> failure name False (state = Some ''terminated'') (state = Some ''terminated'')
      | Interrupted_by e \<Rightarrow> Raised e)"

text \<open>The steps both drivers share; \<open>use\<close> reads the whole body.\<close>

definition native_body :: "string \<Rightarrow> int \<Rightarrow> native_response \<Rightarrow> (string \<Rightarrow> result call_end) \<Rightarrow> result call_end" where
  "native_body too_long limit r use =
     (case read_pieces limit 0 (nr_pieces r) of
        None \<Rightarrow> failure too_long False True False
      | Some body \<Rightarrow>
          (case nr_break r of
             Some b \<Rightarrow> broken_exchange (Some ''terminated'') b
           | None \<Rightarrow> use body))"

record wav =
  wv_channels :: int
  wv_width :: int
  wv_rate :: int
  wv_frames :: int
  wv_read :: int                   \<comment> \<open>bytes that \<open>readframes\<close> returns\<close>

definition qualified_wav :: "speech_profile \<Rightarrow> wav \<Rightarrow> bool" where
  "qualified_wav pf w \<longleftrightarrow> wv_channels w = 1 \<and> wv_width w = 2 \<and> wv_rate w = spf_sample_rate pf \<and>
     wv_frames w \<noteq> 0 \<and> wv_read w = wv_frames w * 2"

definition speech_audio ::
    "(string \<Rightarrow> wav option) \<Rightarrow> (int \<Rightarrow> int \<Rightarrow> int) \<Rightarrow> speech_profile \<Rightarrow> speech_payload \<Rightarrow> native_response \<Rightarrow> string \<Rightarrow> result call_end" where
  "speech_audio read_wav duration pf p r audio =
     (case (if nr_type r = ''audio/wav'' then read_wav audio else None) of
        None \<Rightarrow> failure ''speech_invalid_audio'' False True False
      | Some w \<Rightarrow>
          (if qualified_wav pf w
           then Returned (Speech_result (JDict [(''duration_ms'', JInt (duration (wv_frames w) (wv_rate w)))])
                            (int (length (sp_text p))))
           else failure ''speech_invalid_audio'' False True False))"

definition speech_response ::
    "(string \<Rightarrow> wav option) \<Rightarrow> (int \<Rightarrow> int \<Rightarrow> int) \<Rightarrow> speech_profile \<Rightarrow> speech_payload \<Rightarrow> reservation \<Rightarrow> native_response \<Rightarrow> result call_end" where
  "speech_response read_wav duration pf p rv r =
     (let state = compute_state rv r in
      if state \<notin> {Some ''not_started'', Some ''terminated''} then failure ''speech_response_unconfirmed'' False False False
      else if nr_status r \<noteq> 200
        then failure (''speech_backend_'' @ decimal (nat (nr_status r))) (state = Some ''not_started'')
               (state = Some ''terminated'') (nr_status r \<in> {429, 500})
      else if state \<noteq> Some ''terminated'' then failure ''speech_success_without_termination'' False False False
      else native_body ''speech_audio_exceeds_profile'' (spf_max_audio_bytes pf) r (speech_audio read_wav duration pf p r))"

definition speech_matches :: "speech_profile \<Rightarrow> speech_payload \<Rightarrow> operation_spec \<Rightarrow> bool" where
  "speech_matches pf p s \<longleftrightarrow>
     os_body s = SpeechBody (int (length (sp_text p))) \<and>
     os_model_profile s = spf_model_profile pf \<and> os_capacity_profile_id s = Some (spf_capacity_profile pf)"

definition execute_speech ::
    "(json \<Rightarrow> speech_payload option) \<Rightarrow> (string \<Rightarrow> wav option) \<Rightarrow> (int \<Rightarrow> int \<Rightarrow> int) \<Rightarrow> speech_profile \<Rightarrow>
     reservation \<Rightarrow> json \<Rightarrow> http_break + native_response \<Rightarrow> bool \<times> result call_end" where
  "execute_speech decode read_wav duration pf rv payload x =
     (let invalid = (False, failure ''invalid_speech_payload'' True False False) in
      case validate_speech decode pf payload of
        None \<Rightarrow> invalid
      | Some p \<Rightarrow>
          (if \<not> speech_matches pf p (rv_operation rv) then invalid
           else (True, case x of Inl b \<Rightarrow> broken_exchange None b | Inr r \<Rightarrow> speech_response read_wav duration pf p rv r)))"

definition embedding_vectors ::
    "(string \<Rightarrow> vectors option) \<Rightarrow> embedding_profile \<Rightarrow> embedding_payload \<Rightarrow> native_response \<Rightarrow> string \<Rightarrow> result call_end" where
  "embedding_vectors read_vectors pf p r body =
     (case (if nr_type r = ''application/json'' then read_vectors body else None) of
        None \<Rightarrow> failure ''embedding_invalid_vectors'' False True False
      | Some v \<Rightarrow>
          (if validate_vectors pf p v then Returned (Embedding_result (vectors_json v) (embedding_characters p))
           else failure ''embedding_invalid_vectors'' False True False))"

definition embedding_response ::
    "(string \<Rightarrow> vectors option) \<Rightarrow> embedding_profile \<Rightarrow> embedding_payload \<Rightarrow> reservation \<Rightarrow> native_response \<Rightarrow> result call_end" where
  "embedding_response read_vectors pf p rv r =
     (let state = compute_state rv r in
      if state \<notin> {Some ''not_started'', Some ''terminated''} then failure ''embedding_response_unconfirmed'' False False False
      else if nr_status r \<noteq> 200
        then failure (''embedding_backend_'' @ decimal (nat (nr_status r))) (state = Some ''not_started'')
               (state = Some ''terminated'') (state = Some ''not_started'' \<and> nr_status r = 429)
      else if state \<noteq> Some ''terminated'' then failure ''embedding_success_without_termination'' False False False
      else if nr_revision r \<noteq> Some (epf_model_revision pf) then failure ''embedding_model_revision_changed'' False True False
      else native_body ''embedding_response_exceeds_profile'' (epf_max_response_bytes pf) r (embedding_vectors read_vectors pf p r))"

definition embedding_matches :: "embedding_profile \<Rightarrow> embedding_payload \<Rightarrow> reservation \<Rightarrow> bool" where
  "embedding_matches pf p rv \<longleftrightarrow>
     os_body (rv_operation rv) = EmbeddingBody (epf_model_revision pf) (embedding_characters p) (int (length (ep_texts p))) \<and>
     os_model_profile (rv_operation rv) = epf_model_profile pf \<and>
     os_capacity_profile_id (rv_operation rv) = Some (epf_capacity_profile pf) \<and>
     rv_model_revision rv = epf_model_revision pf"

definition execute_embedding ::
    "(json \<Rightarrow> embedding_payload option) \<Rightarrow> (string \<Rightarrow> vectors option) \<Rightarrow> embedding_profile \<Rightarrow>
     reservation \<Rightarrow> json \<Rightarrow> http_break + native_response \<Rightarrow> bool \<times> result call_end" where
  "execute_embedding decode read_vectors pf rv payload x =
     (let invalid = (False, failure ''invalid_embedding_payload'' True False False) in
      case validate_embedding decode pf payload of
        None \<Rightarrow> invalid
      | Some p \<Rightarrow>
          (if \<not> embedding_matches pf p rv then invalid
           else (True, case x of Inl b \<Rightarrow> broken_exchange None b | Inr r \<Rightarrow> embedding_response read_vectors pf p rv r)))"

section \<open>Preparers\<close>

text \<open>
  The preparation of native input: the document that is stored as the artifact, and the fields
  of the operation that will carry it. \<open>None\<close>: the request is refused.
\<close>

record prepare_request =
  pq_model_profile :: string
  pq_capacity_profile :: string
  pq_payload :: json
  pq_attempt_timeout :: int

record prepared =
  pr_document :: json
  pr_model_profile :: string
  pr_capacity_profile :: string
  pr_body :: operation_body
  pr_expected_cost :: int
  pr_attempt_timeout :: int

definition prepare_speech :: "(json \<Rightarrow> speech_payload option) \<Rightarrow> speech_profile \<Rightarrow> prepare_request \<Rightarrow> prepared option" where
  "prepare_speech decode pf q =
     (if pq_model_profile q \<noteq> spf_model_profile pf \<or> pq_capacity_profile q \<noteq> spf_capacity_profile pf then None
      else case validate_speech decode pf (pq_payload q) of
          None \<Rightarrow> None
        | Some p \<Rightarrow> Some \<lparr>pr_document = pq_payload q, pr_model_profile = pq_model_profile q,
              pr_capacity_profile = pq_capacity_profile q, pr_body = SpeechBody (int (length (sp_text p))),
              pr_expected_cost = int (length (sp_text p)), pr_attempt_timeout = pq_attempt_timeout q\<rparr>)"

definition embedding_json :: "embedding_payload \<Rightarrow> json" where
  "embedding_json p = JDict [(''texts'', JList (map JString (ep_texts p))), (''input_type'', JString (ep_input_type p))]"

definition prepare_embedding ::
    "(json \<Rightarrow> embedding_payload option) \<Rightarrow> embedding_profile \<Rightarrow> prepare_request \<Rightarrow> prepared option" where
  "prepare_embedding decode pf q =
     (if pq_model_profile q \<noteq> epf_model_profile pf \<or> pq_capacity_profile q \<noteq> epf_capacity_profile pf then None
      else case validate_embedding decode pf (pq_payload q) of
          None \<Rightarrow> None
        | Some p \<Rightarrow> Some \<lparr>pr_document = embedding_json p, pr_model_profile = pq_model_profile q,
              pr_capacity_profile = pq_capacity_profile q,
              pr_body = EmbeddingBody (epf_model_revision pf) (embedding_characters p) (int (length (ep_texts p))),
              pr_expected_cost = max 1 (embedding_characters p), pr_attempt_timeout = pq_attempt_timeout q\<rparr>)"

section \<open>Reranking\<close>

record rerank_payload =
  rk_query :: string
  rk_documents :: "string list"
  rk_top_k :: "int option"

record rerank_profile =
  rkp_character_limit :: int
  rkp_max_batch :: int

text \<open>What the native cap processes: the characters and the number of the first documents.\<close>

definition rerank_requirement :: "rerank_profile \<Rightarrow> rerank_payload \<Rightarrow> int \<times> int" where
  "rerank_requirement pf p =
     (let processed = take (nat (rkp_max_batch pf)) (rk_documents p) in
      if processed = [] then (0, 0)
      else (int (length (rk_query p)) + sum_list (map (\<lambda>d. int (length d)) processed), int (length processed)))"

definition validate_rerank :: "(json \<Rightarrow> rerank_payload option) \<Rightarrow> rerank_profile \<Rightarrow> json \<Rightarrow> rerank_payload option" where
  "validate_rerank decode pf payload =
     (case decode payload of
        None \<Rightarrow> None
      | Some p \<Rightarrow> (if rkp_character_limit pf < fst (rerank_requirement pf p) then None else Some p))"

text \<open>The indices of a response (each nonnegative by its contract) against the candidates.\<close>

definition validate_ranking :: "rerank_profile \<Rightarrow> rerank_payload \<Rightarrow> nat list \<Rightarrow> bool" where
  "validate_ranking pf p indices \<longleftrightarrow>
     distinct indices \<and> list_all (\<lambda>i. int i < min (int (length (rk_documents p))) (rkp_max_batch pf)) indices"

end
