(* ===== verification/Executor.thy ===== *)
theory Executor
  imports Ledger_Dispatch Drivers
begin

text \<open>
  The executor (\<open>executor.py\<close>) and its permit client (\<open>permits.py\<close>). A tick reserves one attempt and makes calls on the ledger, the permit
  holder, the artifact store and the driver; how each call ends is an argument, and a tick
  yields the calls it made and its conclusion. The concurrent heartbeat task is one function
  per turn. Instants and delays are microseconds.
\<close>

section \<open>Calls\<close>

datatype call =
    Acquire_permit | Get_payload | Mark_send | Beat_permit | Execute | Finish_compute | Release_permit
  | Put_artifact | Commit_result "int option"
  | Fail_attempt string bool bool    \<comment> \<open>reason, not sent, retry\<close>
  | Lose_attempt string

section \<open>The permit client\<close>

text \<open>
  A turn of \<open>PermitClient.acquire\<close>: the time left before the request, and the answer to it. A
  body that is no JSON object raises outside every clause.
\<close>

datatype permit_answer = Permit_status int "json option" | Transport_failed | Answer_late | Answer_raised raised

definition permit_identity :: "reservation \<Rightarrow> json \<Rightarrow> bool" where
  "permit_identity rv data \<longleftrightarrow>
     jget ''attempt_id'' data = JString (rv_attempt_id rv) \<and> jget ''pool_id'' data = JString (rv_pool_id rv) \<and>
     jget ''engine_epoch'' data = JString (rv_engine_epoch rv)"

text \<open>\<open>None\<close>: another turn.\<close>

definition permit_status :: "reservation \<Rightarrow> int \<Rightarrow> int \<Rightarrow> json option \<Rightarrow> unit call_end option" where
  "permit_status rv left status body =
     (if status = 200
      then (case body of
          Some (JDict d) \<Rightarrow> Some (if permit_identity rv (JDict d) then Returned () else Raised Conflicting)
        | _ \<Rightarrow> Some (Raised Other_error))
      else if status = 409 then Some (Raised Conflicting)
      else if status = 504 then (if left \<le> seconds 1 then Some (Raised Timed_out) else None)
      else if status \<in> {401, 403, 422} then Some (Raised Conflicting)
      else None)"

definition permit_turn :: "reservation \<Rightarrow> int \<times> permit_answer \<Rightarrow> unit call_end option" where
  "permit_turn rv t =
     (case t of (left, a) \<Rightarrow>
        if left \<le> 0 then Some (Raised Timed_out)
        else case a of
            Permit_status status body \<Rightarrow> permit_status rv left status body
          | Transport_failed \<Rightarrow> None
          | Answer_late \<Rightarrow> (if left \<le> seconds 1 then Some (Raised Timed_out) else None)
          | Answer_raised e \<Rightarrow> Some (Raised e))"

text \<open>The loop over the turns given; \<open>None\<close> when they do not end it.\<close>

fun acquire_permit :: "reservation \<Rightarrow> (int \<times> permit_answer) list \<Rightarrow> unit call_end option" where
  "acquire_permit rv [] = None"
| "acquire_permit rv (t # ts) = (case permit_turn rv t of Some r \<Rightarrow> Some r | None \<Rightarrow> acquire_permit rv ts)"

text \<open>\<open>heartbeat\<close> and \<open>release\<close>: anything but a 200 is a conflict.\<close>

definition permit_call :: "raised + int \<Rightarrow> unit call_end" where
  "permit_call x = (case x of Inl e \<Rightarrow> Raised e | Inr status \<Rightarrow> (if status = 200 then Returned () else Raised Conflicting))"

section \<open>Results\<close>

definition usage_of :: "result \<Rightarrow> int option" where
  "usage_of r = (case r of
     Speech_result _ n \<Rightarrow> Some n
   | Embedding_result _ n \<Rightarrow> Some (max 1 n)
   | Engine_result _ i u \<Rightarrow> (case (i, u) of (Some a, Some b) \<Rightarrow> Some (a + b) | _ \<Rightarrow> None))"

definition puts_of :: "result \<Rightarrow> call list" where
  "puts_of r = (case r of Speech_result _ _ \<Rightarrow> [Put_artifact, Put_artifact] | _ \<Rightarrow> [Put_artifact])"

section \<open>Up to the answer of the driver\<close>

record tick_env =
  te_now :: int                      \<comment> \<open>before the permit\<close>
  te_permit :: "unit call_end"
  te_now_permitted :: int
  te_payload :: "unit call_end"
  te_send :: "unit call_end"
  te_beat :: "unit call_end"
  te_driver :: "result call_end"
  te_expired :: bool                 \<comment> \<open>a timeout inside the block is that of the attempt\<close>

record sending =
  sn_calls :: "call list"
  sn_permit :: bool
  sn_marked :: bool
  sn_end :: "result call_end"

definition deadline_failure :: driver_failure where
  "deadline_failure = \<lparr>df_reason = ''attempt_deadline_exceeded'', df_not_sent = True, df_finished = False, df_retry = True\<rparr>"

text \<open>The block under the attempt's timeout: a \<open>TimeoutError\<close> inside becomes a driver failure.\<close>

definition timeout_failure :: "bool \<Rightarrow> bool \<Rightarrow> driver_failure" where
  "timeout_failure expired marked =
     \<lparr>df_reason = (if expired then ''attempt_deadline_exceeded'' else ''transport_timeout''),
      df_not_sent = \<not> marked, df_finished = False, df_retry = \<not> marked\<rparr>"

definition in_block :: "bool \<Rightarrow> bool \<Rightarrow> raised \<Rightarrow> raised" where
  "in_block expired marked e = (case e of Timed_out \<Rightarrow> Driver_failed (timeout_failure expired marked) | _ \<Rightarrow> e)"

definition send_block :: "tick_env \<Rightarrow> sending" where
  "send_block env =
     (let stop = (\<lambda>calls marked e. \<lparr>sn_calls = Acquire_permit # calls, sn_permit = True, sn_marked = marked,
            sn_end = Raised (in_block (te_expired env) marked e)\<rparr>) in
      case te_payload env of
        Raised e \<Rightarrow> stop [Get_payload] False e
      | Returned _ \<Rightarrow>
     (case te_send env of
        Raised e \<Rightarrow> stop [Get_payload, Mark_send] False e
      | Returned _ \<Rightarrow>
     (case te_beat env of
        Raised e \<Rightarrow> stop [Get_payload, Mark_send, Beat_permit] False e
      | Returned _ \<Rightarrow>
     (case te_driver env of
        Raised e \<Rightarrow> stop [Get_payload, Mark_send, Beat_permit, Execute] True e
      | Returned r \<Rightarrow>
          \<lparr>sn_calls = [Acquire_permit, Get_payload, Mark_send, Beat_permit, Execute], sn_permit = True,
           sn_marked = True, sn_end = Returned r\<rparr>))))"

definition send_stage :: "reservation \<Rightarrow> tick_env \<Rightarrow> sending" where
  "send_stage rv env =
     (let stop = (\<lambda>calls permit e. \<lparr>sn_calls = calls, sn_permit = permit, sn_marked = False, sn_end = Raised e\<rparr>) in
      if rv_attempt_deadline rv \<le> te_now env then stop [] False (Driver_failed deadline_failure)
      else case te_permit env of
          Raised e \<Rightarrow> stop [Acquire_permit] False (if e = Timed_out then Driver_failed deadline_failure else e)
        | Returned _ \<Rightarrow>
            (if rv_attempt_deadline rv \<le> te_now_permitted env then stop [Acquire_permit] True (Driver_failed deadline_failure)
             else send_block env))"

section \<open>Persisting a result\<close>

text \<open>
  One turn of the loop that persists a completed inference: the report of the end (made once),
  the release of the permit (whose failure is only logged), the artifacts, the commit.
\<close>

record persist_turn =
  ps_finish :: "unit call_end"
  ps_release :: "unit call_end"
  ps_puts :: "unit call_end"
  ps_commit :: "unit call_end"

record persisting =
  pt_calls :: "call list"
  pt_recorded :: bool
  pt_permit :: bool

text \<open>\<open>Inl\<close>: the turn raised out of the loop; \<open>Inr True\<close>: committed; \<open>Inr False\<close>: another turn.\<close>

definition retried :: "raised \<Rightarrow> raised + bool" where
  "retried e = (case e of Conflicting \<Rightarrow> Inl e | Budget_unavailable _ \<Rightarrow> Inl e | Task_cancelled \<Rightarrow> Inl e | _ \<Rightarrow> Inr False)"

definition persist_commit :: "result \<Rightarrow> persist_turn \<Rightarrow> persisting \<Rightarrow> persisting \<times> (raised + bool)" where
  "persist_commit r t p =
     (case ps_puts t of
        Raised e \<Rightarrow> (p\<lparr>pt_calls := pt_calls p @ [Put_artifact]\<rparr>, retried e)
      | Returned _ \<Rightarrow>
          (let p1 = p\<lparr>pt_calls := pt_calls p @ puts_of r @ [Commit_result (usage_of r)]\<rparr> in
           case ps_commit t of
             Raised e \<Rightarrow> (p1, retried e)
           | Returned _ \<Rightarrow> (p1, Inr True)))"

definition persist_once :: "result \<Rightarrow> persist_turn \<Rightarrow> persisting \<Rightarrow> persisting \<times> (raised + bool)" where
  "persist_once r t p =
     (if pt_recorded p then persist_commit r t p
      else
        (let p1 = p\<lparr>pt_calls := pt_calls p @ [Finish_compute]\<rparr> in
         case ps_finish t of
           Raised e \<Rightarrow> (p1, retried e)
         | Returned _ \<Rightarrow>
             (let p2 = p1\<lparr>pt_recorded := True, pt_calls := pt_calls p1 @ [Release_permit]\<rparr> in
              case ps_release t of
                Raised Task_cancelled \<Rightarrow> (p2, Inl Task_cancelled)
              | Raised _ \<Rightarrow> persist_commit r t p2
              | Returned _ \<Rightarrow> persist_commit r t (p2\<lparr>pt_permit := False\<rparr>))))"

text \<open>The loop, for as many turns as are given; nothing when they do not suffice.\<close>

fun persist :: "result \<Rightarrow> persist_turn list \<Rightarrow> persisting \<Rightarrow> (persisting \<times> raised option) option" where
  "persist r [] p = None"
| "persist r (t # ts) p =
     (case persist_once r t p of
        (p1, Inl e) \<Rightarrow> Some (p1, Some e)
      | (p1, Inr True) \<Rightarrow> Some (p1, None)
      | (p1, Inr False) \<Rightarrow> persist r ts p1)"

section \<open>Ending an attempt\<close>

text \<open>What the handlers write: the calls of one settlement, whether it is retried, or nothing.\<close>

definition failure_end :: "driver_failure \<Rightarrow> call list" where
  "failure_end f =
     (if df_finished f then [Finish_compute] else []) @
     (if df_finished f \<or> df_not_sent f then [Fail_attempt (df_reason f) (df_not_sent f) (df_retry f)]
      else [Lose_attempt (df_reason f)])"

definition handler_end :: "bool \<Rightarrow> raised \<Rightarrow> call list" where
  "handler_end marked e = (case e of
     Driver_failed f \<Rightarrow> failure_end f
   | Task_cancelled \<Rightarrow> (if marked then [Lose_attempt ''executor_shutdown''] else [Fail_attempt ''shutdown_before_send'' True True])
   | Budget_unavailable reason \<Rightarrow> (if marked then [] else [Fail_attempt reason True True])
   | Conflicting \<Rightarrow> (if marked then [] else [Fail_attempt ''permit_fenced_before_send'' True True])
   | _ \<Rightarrow> (if marked then [Lose_attempt ''executor_error_after_send''] else [Fail_attempt ''payload_unavailable'' True True]))"

text \<open>
  The delay before a retry: none when the deadline passed before a permit was there, else a
  random one below a bound (\<open>pick\<close> is \<open>random.uniform\<close>).
\<close>

definition attempt_delay :: "(int \<Rightarrow> int) \<Rightarrow> driver_failure \<Rightarrow> bool \<Rightarrow> reservation \<Rightarrow> int" where
  "attempt_delay pick f permit rv =
     (if df_not_sent f \<and> \<not> permit \<and> df_reason f = ''attempt_deadline_exceeded'' then 0
      else pick (min (seconds 60) (seconds (2 ^ nat (rv_sent_attempts rv + 1)))))"

text \<open>
  \<open>_write_end\<close>: a fenced write counts as done, another failure is tried again until the tries
  run out. The answers of the writes are a list; \<open>None\<close>: it has not ended within them.
\<close>

fun write_end :: "nat option \<Rightarrow> nat \<Rightarrow> unit call_end list \<Rightarrow> (bool \<times> nat) option" where
  "write_end tries failures [] = None"
| "write_end tries failures (Returned _ # xs) = Some (True, failures)"
| "write_end tries failures (Raised e # xs) =
     (if e = Conflicting \<or> (\<exists>r. e = Budget_unavailable r) then Some (True, failures)
      else if (case tries of None \<Rightarrow> False | Some n \<Rightarrow> n \<le> failures + 1) then Some (False, failures + 1)
      else write_end tries (failures + 1) xs)"

definition settle_tries :: nat where
  "settle_tries = 4"

definition backoff :: "nat \<Rightarrow> int" where
  "backoff failures = min (seconds 30) (seconds (2 ^ (failures - 1)))"

text \<open>\<open>_end_attempt\<close>: four tries at once, the rest in a background task.\<close>

definition end_attempt :: "unit call_end list \<Rightarrow> unit call_end list \<Rightarrow> (bool \<times> nat) option" where
  "end_attempt first later =
     (case write_end (Some settle_tries) 0 first of
        Some (False, n) \<Rightarrow> write_end None 0 later
      | x \<Rightarrow> x)"

section \<open>The tick\<close>

datatype conclusion =
    Committed
  | Ended "call list"       \<comment> \<open>the settlement that is written\<close>
  | Fenced                  \<comment> \<open>another owner has the attempt\<close>

record ticked =
  tk_calls :: "call list"
  tk_conclusion :: conclusion
  tk_result :: bool          \<comment> \<open>the driver returned a result\<close>
  tk_permit :: bool          \<comment> \<open>a permit is left for the \<open>finally\<close>\<close>
  tk_raises :: bool

definition concludes :: "call list \<Rightarrow> bool \<Rightarrow> bool \<Rightarrow> bool \<Rightarrow> raised option \<Rightarrow> ticked" where
  "concludes calls marked result permit e =
     (case e of
        None \<Rightarrow> \<lparr>tk_calls = calls, tk_conclusion = Committed, tk_result = result, tk_permit = permit, tk_raises = False\<rparr>
      | Some x \<Rightarrow>
          (let written = handler_end marked x in
           \<lparr>tk_calls = calls @ written, tk_conclusion = (if written = [] then Fenced else Ended written),
            tk_result = result, tk_permit = permit, tk_raises = (x = Task_cancelled)\<rparr>))"

definition tick :: "reservation \<Rightarrow> tick_env \<Rightarrow> persist_turn list \<Rightarrow> ticked option" where
  "tick rv env turns =
     (let sn = send_stage rv env in
      case sn_end sn of
        Raised e \<Rightarrow> Some (concludes (sn_calls sn) (sn_marked sn) False (sn_permit sn) (Some e))
      | Returned r \<Rightarrow>
          map_option (\<lambda>(p, e). concludes (pt_calls p) (sn_marked sn) True (pt_permit p) e)
            (persist r turns \<lparr>pt_calls = sn_calls sn, pt_recorded = False, pt_permit = sn_permit sn\<rparr>))"

text \<open>The last part of the \<open>finally\<close>: a permit left is released when the ledger holds no compute.\<close>

definition releases_left :: "ledger \<Rightarrow> reservation \<Rightarrow> ticked \<Rightarrow> bool" where
  "releases_left L rv t \<longleftrightarrow> tk_permit t \<and> \<not> attempt_compute_held L (rv_attempt_id rv)"

text \<open>A turn of the heartbeat task: which calls it makes.\<close>

datatype beat = Ledger_beat | Permit_beat | Driver_cancel

definition heartbeat_turn :: "bool call_end \<Rightarrow> bool \<Rightarrow> unit call_end \<Rightarrow> beat list" where
  "heartbeat_turn active permit_ready permit_beat =
     (case active of
        Raised _ \<Rightarrow> [Ledger_beat]
      | Returned alive \<Rightarrow>
          [Ledger_beat] @
          (if permit_ready
           then [Permit_beat] @ (if permit_beat = Returned () \<and> \<not> alive then [Driver_cancel] else [])
           else if \<not> alive then [Driver_cancel] else []))"

end
