(* ===== verification/Executor_Properties.thy ===== *)
theory Executor_Properties
  imports Executor
begin

text \<open>
  What a tick of the executor and the drivers guarantee: the driver is called at most once and
  only when permit, durable send and permit check came first; an inference that completed is
  never reported as failed; what the attempt's end says of the backend is backed by evidence;
  a tick concludes.
\<close>

section \<open>The part that sends\<close>

text \<open>The calls up to the driver are a prefix of one fixed sequence.\<close>

definition send_order :: "call list" where
  "send_order = [Acquire_permit, Get_payload, Mark_send, Beat_permit, Execute]"

definition may_send :: "reservation \<Rightarrow> tick_env \<Rightarrow> bool" where
  "may_send rv env \<longleftrightarrow>
     te_now env < rv_attempt_deadline rv \<and> te_now_permitted env < rv_attempt_deadline rv \<and>
     te_permit env = Returned () \<and> te_payload env = Returned () \<and> te_send env = Returned () \<and> te_beat env = Returned ()"

lemma send_stage_cases:
  obtains (unsent) e n where "sn_calls (send_stage rv env) = take n send_order" "n < 5"
      "sn_end (send_stage rv env) = Raised e" "\<not> sn_marked (send_stage rv env)"
      "\<And>f. e = Driver_failed f \<Longrightarrow>
          f = deadline_failure \<or> f = timeout_failure (te_expired env) False \<or>
          (\<exists>x \<in> {te_permit env, te_payload env, te_send env, te_beat env}. x = Raised (Driver_failed f))"
  | (sent) "may_send rv env" "sn_calls (send_stage rv env) = send_order" "sn_marked (send_stage rv env)"
      "sn_permit (send_stage rv env)"
      "sn_end (send_stage rv env) = (case te_driver env of Returned r \<Rightarrow> Returned r
         | Raised e \<Rightarrow> Raised (in_block (te_expired env) True e))"
proof (cases "may_send rv env")
  case True
  then show ?thesis
    by (intro sent) (auto simp: may_send_def send_stage_def send_block_def send_order_def Let_def split: call_end.splits)
next
  case False
  then have "\<exists>n e. sn_calls (send_stage rv env) = take n send_order \<and> n < 5 \<and>
      sn_end (send_stage rv env) = Raised e \<and> \<not> sn_marked (send_stage rv env) \<and>
      (\<forall>f. e = Driver_failed f \<longrightarrow>
          f = deadline_failure \<or> f = timeout_failure (te_expired env) False \<or>
          (\<exists>x \<in> {te_permit env, te_payload env, te_send env, te_beat env}. x = Raised (Driver_failed f)))"
    by (cases "rv_attempt_deadline rv \<le> te_now env"; cases "te_permit env";
        cases "rv_attempt_deadline rv \<le> te_now_permitted env"; cases "te_payload env"; cases "te_send env"; cases "te_beat env")
      (auto simp: may_send_def send_stage_def send_block_def send_order_def in_block_def Let_def
         take_Cons' numeral_eq_Suc split: raised.splits intro: exI [of _ 0] exI [of _ 1] exI [of _ 2] exI [of _ 3] exI [of _ 4])
  then show ?thesis using unsent by metis
qed

section \<open>Persisting\<close>

definition persist_only :: "result \<Rightarrow> call set" where
  "persist_only r = {Finish_compute, Release_permit, Put_artifact, Commit_result (usage_of r)}"

text \<open>The exceptions that leave the loop.\<close>

definition leaves_loop :: "raised \<Rightarrow> bool" where
  "leaves_loop e \<longleftrightarrow> e = Conflicting \<or> e = Task_cancelled \<or> (\<exists>r. e = Budget_unavailable r)"

text \<open>What a turn, or several, add to the calls.\<close>

definition persists :: "result \<Rightarrow> persisting \<Rightarrow> persisting \<Rightarrow> bool \<Rightarrow> bool" where
  "persists r p p' committed \<longleftrightarrow>
     (\<exists>cs. pt_calls p' = pt_calls p @ cs \<and> set cs \<subseteq> persist_only r \<and>
       (pt_recorded p' \<longrightarrow> pt_recorded p \<or> Finish_compute \<in> set cs) \<and> (pt_recorded p \<longrightarrow> pt_recorded p') \<and>
       (committed \<longrightarrow> cs \<noteq> [] \<and> last cs = Commit_result (usage_of r) \<and> pt_recorded p'))"

lemma persistsI:
  assumes "pt_calls p' = pt_calls p @ cs" "set cs \<subseteq> persist_only r"
    "pt_recorded p' \<longrightarrow> pt_recorded p \<or> Finish_compute \<in> set cs" "pt_recorded p \<longrightarrow> pt_recorded p'"
    "committed \<longrightarrow> cs \<noteq> [] \<and> last cs = Commit_result (usage_of r) \<and> pt_recorded p'"
  shows "persists r p p' committed"
  unfolding persists_def using assms by blast

lemma persists_trans:
  assumes "persists r p p1 False" "persists r p1 p2 b"
  shows "persists r p p2 b"
proof -
  from assms obtain cs ds where
    cs: "pt_calls p1 = pt_calls p @ cs" "set cs \<subseteq> persist_only r"
      "pt_recorded p1 \<longrightarrow> pt_recorded p \<or> Finish_compute \<in> set cs" "pt_recorded p \<longrightarrow> pt_recorded p1"
    and ds: "pt_calls p2 = pt_calls p1 @ ds" "set ds \<subseteq> persist_only r"
      "pt_recorded p2 \<longrightarrow> pt_recorded p1 \<or> Finish_compute \<in> set ds" "pt_recorded p1 \<longrightarrow> pt_recorded p2"
      "b \<longrightarrow> ds \<noteq> [] \<and> last ds = Commit_result (usage_of r) \<and> pt_recorded p2"
    unfolding persists_def by blast
  show ?thesis by (rule persistsI [of _ _ "cs @ ds"]) (use cs ds in auto)
qed

lemma retried_cases: "retried e = Inl e' \<Longrightarrow> e' = e \<and> leaves_loop e" "retried e = Inr b \<Longrightarrow> \<not> b"
  by (auto simp: retried_def leaves_loop_def split: raised.splits)

lemma puts_only: "set (puts_of r) = {Put_artifact}"
  by (auto simp: puts_of_def split: result.splits)

lemma persist_commit_adds:
  assumes "persist_commit r t p = (p', res)" "pt_recorded p"
  shows "persists r p p' (res = Inr True) \<and> (\<forall>e. res = Inl e \<longrightarrow> leaves_loop e)"
proof (cases "ps_puts t")
  case (Raised e)
  with assms(1) have *: "p' = p\<lparr>pt_calls := pt_calls p @ [Put_artifact]\<rparr>" "res = retried e"
    by (auto simp: persist_commit_def)
  have "persists r p p' (res = Inr True)"
    by (rule persistsI [of _ _ "[Put_artifact]"]) (use * assms(2) in \<open>auto simp: persist_only_def dest: retried_cases\<close>)
  with * show ?thesis using retried_cases by metis
next
  case (Returned u)
  define cs where "cs = puts_of r @ [Commit_result (usage_of r)]"
  from assms(1) Returned have *: "p' = p\<lparr>pt_calls := pt_calls p @ cs\<rparr>"
      "res = (case ps_commit t of Raised e \<Rightarrow> retried e | Returned _ \<Rightarrow> Inr True)"
    by (auto simp: persist_commit_def cs_def Let_def split: call_end.splits)
  have "persists r p p' (res = Inr True)"
    by (rule persistsI [of _ _ cs]) (use * assms(2) in \<open>auto simp: persist_only_def cs_def puts_only\<close>)
  moreover have "\<forall>e. res = Inl e \<longrightarrow> leaves_loop e"
    using * retried_cases by (auto split: call_end.splits)
  ultimately show ?thesis by blast
qed

lemma persist_once_adds:
  assumes "persist_once r t p = (p', res)"
  shows "persists r p p' (res = Inr True) \<and> (\<forall>e. res = Inl e \<longrightarrow> leaves_loop e)"
proof (cases "pt_recorded p")
  case True
  with assms persist_commit_adds show ?thesis by (auto simp: persist_once_def)
next
  case unrecorded: False
  define p1 where "p1 = p\<lparr>pt_calls := pt_calls p @ [Finish_compute]\<rparr>"
  define p2 where "p2 = p1\<lparr>pt_recorded := True, pt_calls := pt_calls p1 @ [Release_permit]\<rparr>"
  have to1: "persists r p p1 False"
    by (rule persistsI [of _ _ "[Finish_compute]"]) (auto simp: p1_def unrecorded persist_only_def)
  have to2: "persists r p p2 False"
    by (rule persistsI [of _ _ "[Finish_compute, Release_permit]"]) (auto simp: p1_def p2_def unrecorded persist_only_def)
  have to3: "persists r p (p2\<lparr>pt_permit := False\<rparr>) False"
    by (rule persistsI [of _ _ "[Finish_compute, Release_permit]"]) (auto simp: p1_def p2_def unrecorded persist_only_def)
  note commit = persist_commit_adds [of r t]
  show ?thesis
  proof (cases "ps_finish t")
    case (Raised e)
    with assms unrecorded have "p' = p1" "res = retried e" by (auto simp: persist_once_def p1_def Let_def)
    with to1 show ?thesis using retried_cases by (metis (full_types))
  next
    case (Returned u)
    consider "ps_release t = Raised Task_cancelled" | "\<exists>e. ps_release t = Raised e \<and> e \<noteq> Task_cancelled" | "\<exists>v. ps_release t = Returned v"
      by (cases "ps_release t") auto
    then show ?thesis
    proof cases
      case 1
      with assms unrecorded Returned have "p' = p2" "res = Inl Task_cancelled"
        by (auto simp: persist_once_def p1_def p2_def Let_def)
      with to2 show ?thesis by (auto simp: leaves_loop_def)
    next
      case 2
      then have "persist_commit r t p2 = (p', res)"
        using assms unrecorded Returned by (auto simp: persist_once_def p1_def p2_def Let_def split: raised.splits)
      from commit [OF this] to2 show ?thesis using persists_trans by (auto simp: p2_def)
    next
      case 3
      then have "persist_commit r t (p2\<lparr>pt_permit := False\<rparr>) = (p', res)"
        using assms unrecorded Returned by (auto simp: persist_once_def p1_def p2_def Let_def)
      from commit [OF this] to3 show ?thesis using persists_trans by (auto simp: p2_def)
    qed
  qed
qed

lemma persist_adds:
  assumes "persist r ts p = Some (p', e)"
  shows "persists r p p' (e = None) \<and> (\<forall>x. e = Some x \<longrightarrow> leaves_loop x)"
  using assms
proof (induction r ts p arbitrary: p' rule: persist.induct)
  case (2 r t ts p)
  obtain p1 res where once: "persist_once r t p = (p1, res)" by fastforce
  note adds = persist_once_adds [OF once]
  show ?case
  proof (cases res)
    case (Inl x)
    with 2(2) once have "p' = p1" "e = Some x" by auto
    with adds Inl show ?thesis by auto
  next
    case (Inr b)
    show ?thesis
    proof (cases b)
      case True
      with 2(2) once Inr have "p' = p1" "e = None" by auto
      with adds Inr True show ?thesis by auto
    next
      case False
      with 2(2) once Inr have "persist r ts p1 = Some (p', e)" by auto
      from 2(1) [OF once [symmetric] _ _ this] adds Inr False show ?thesis
        using persists_trans by auto
    qed
  qed
qed simp

text \<open>One turn in which every call returns ends the loop.\<close>

definition turn_returns :: "persist_turn \<Rightarrow> bool" where
  "turn_returns t \<longleftrightarrow> ps_finish t = Returned () \<and> ps_release t \<noteq> Raised Task_cancelled \<and> ps_puts t = Returned () \<and> ps_commit t = Returned ()"

lemma persist_ends: "t \<in> set ts \<Longrightarrow> turn_returns t \<Longrightarrow> \<exists>x. persist r ts p = Some x"
proof (induction ts arbitrary: p)
  case (Cons a ts)
  obtain p1 res where once: "persist_once r a p = (p1, res)" by fastforce
  show ?case
  proof (cases "a = t")
    case True
    with Cons.prems once have "res = Inr True"
      by (auto simp: persist_once_def persist_commit_def turn_returns_def Let_def split: if_splits call_end.splits raised.splits)
    with once show ?thesis by auto
  next
    case False
    with Cons once show ?thesis by (auto split: sum.split bool.split)
  qed
qed simp

section \<open>The tick\<close>

text \<open>Only the driver raises a \<open>DriverFailure\<close>.\<close>

definition driver_only_fails :: "tick_env \<Rightarrow> bool" where
  "driver_only_fails env \<longleftrightarrow>
     (\<forall>x \<in> {te_permit env, te_payload env, te_send env, te_beat env}. case x of Raised (Driver_failed _) \<Rightarrow> False | _ \<Rightarrow> True)"

lemma driver_only_failsD:
  "driver_only_fails env \<Longrightarrow> x \<in> {te_permit env, te_payload env, te_send env, te_beat env} \<Longrightarrow> x \<noteq> Raised (Driver_failed f)"
  unfolding driver_only_fails_def by (rule notI, drule (1) bspec) simp

lemma handler_end_calls:
  "set (handler_end marked e) \<subseteq> {Finish_compute} \<union> range (\<lambda>(r, ns, rt). Fail_attempt r ns rt) \<union> range Lose_attempt"
  by (auto simp: handler_end_def failure_end_def image_def split: raised.splits if_splits)

lemma handler_end_simple: "Execute \<notin> set (handler_end marked e)" "Acquire_permit \<notin> set (handler_end marked e)"
    "Mark_send \<notin> set (handler_end marked e)" "Commit_result u \<notin> set (handler_end marked e)"
  by (auto simp: handler_end_def failure_end_def split: raised.splits if_splits)

lemma concludes_calls: "tk_calls (concludes calls marked res permit e) =
    calls @ (case e of None \<Rightarrow> [] | Some x \<Rightarrow> handler_end marked x)"
  by (simp add: concludes_def Let_def split: option.splits)

lemma concludes_conclusion: "tk_conclusion (concludes calls marked res permit e) =
    (case e of None \<Rightarrow> Committed | Some x \<Rightarrow> if handler_end marked x = [] then Fenced else Ended (handler_end marked x))"
  by (simp add: concludes_def Let_def split: option.splits)

text \<open>The three ways through a tick.\<close>

lemma tick_cases:
  assumes "tick rv env turns = Some t"
  obtains (unsent) e n where "\<not> may_send rv env" "n < 5" "tk_calls t = take n send_order @ handler_end False e"
      "tk_conclusion t = (if handler_end False e = [] then Fenced else Ended (handler_end False e))"
      "\<And>f. e = Driver_failed f \<Longrightarrow> driver_only_fails env \<Longrightarrow> df_not_sent f \<and> \<not> df_finished f"
  | (refused) e where "may_send rv env" "te_driver env = Raised e" "tk_calls t = send_order @ handler_end True (in_block (te_expired env) True e)"
      "tk_conclusion t = (if handler_end True (in_block (te_expired env) True e) = [] then Fenced
         else Ended (handler_end True (in_block (te_expired env) True e)))"
  | (answered) r p e where "may_send rv env" "te_driver env = Returned r"
      "persists r \<lparr>pt_calls = send_order, pt_recorded = False, pt_permit = True\<rparr> p (e = None)"
      "\<And>x. e = Some x \<Longrightarrow> leaves_loop x"
      "t = concludes (pt_calls p) True True (pt_permit p) e"
proof (cases rule: send_stage_cases [of rv env])
  case (unsent e n)
  have "Execute \<notin> set (sn_calls (send_stage rv env))"
    using unsent(1,2) by (auto simp: send_order_def take_Cons' split: if_splits)
  then have "\<not> may_send rv env"
    by (auto simp: may_send_def send_stage_def send_block_def Let_def split: call_end.splits)
  moreover from assms unsent have "t = concludes (take n send_order) False False (sn_permit (send_stage rv env)) (Some e)"
    by (simp add: tick_def Let_def)
  moreover have "df_not_sent f \<and> \<not> df_finished f" if "e = Driver_failed f" "driver_only_fails env" for f
    using unsent(5) [OF that(1)] driver_only_failsD [OF that(2)]
    by (auto simp: deadline_failure_def timeout_failure_def)
  ultimately show ?thesis using that(1) unsent(2) by (simp add: concludes_calls concludes_conclusion)
next
  case sent
  show ?thesis
  proof (cases "te_driver env")
    case (Raised e)
    with assms sent have "t = concludes send_order True False True (Some (in_block (te_expired env) True e))"
      by (simp add: tick_def Let_def)
    then show ?thesis using that(2) sent(1) Raised by (simp add: concludes_calls concludes_conclusion)
  next
    case (Returned r)
    with assms sent obtain p e where run: "persist r turns \<lparr>pt_calls = send_order, pt_recorded = False, pt_permit = True\<rparr> = Some (p, e)"
      and t: "t = concludes (pt_calls p) True True (pt_permit p) e"
      by (auto simp: tick_def Let_def)
    from persist_adds [OF run] show ?thesis using that(3) [OF sent(1) Returned _ _ t] by blast
  qed
qed

lemma count_list_none: "x \<notin> set xs \<Longrightarrow> count_list xs x = 0"
  by (induction xs) auto

lemma send_order_counts: "count_list send_order Execute = 1" "n < 5 \<Longrightarrow> Execute \<notin> set (take n send_order)"
  by (auto simp: send_order_def take_Cons' split: if_splits)

lemma answered_calls:
  assumes "persists r \<lparr>pt_calls = send_order, pt_recorded = False, pt_permit = True\<rparr> p (e = None)"
    "\<And>x. e = Some x \<Longrightarrow> leaves_loop x" "t = concludes (pt_calls p) True True (pt_permit p) e"
  obtains cs where "set cs \<subseteq> persist_only r \<union> {Lose_attempt ''executor_shutdown''}" "tk_calls t = send_order @ cs"
    "e = None \<Longrightarrow> Finish_compute \<in> set cs \<and> last (tk_calls t) = Commit_result (usage_of r)"
    "tk_conclusion t \<in> {Fenced, Ended [Lose_attempt ''executor_shutdown'']} \<or> e = None \<and> tk_conclusion t = Committed"
proof -
  from assms(1) obtain cs where cs: "pt_calls p = send_order @ cs" "set cs \<subseteq> persist_only r"
      "pt_recorded p \<longrightarrow> Finish_compute \<in> set cs" "e = None \<longrightarrow> cs \<noteq> [] \<and> last cs = Commit_result (usage_of r) \<and> pt_recorded p"
    unfolding persists_def by auto
  have handler: "e = Some x \<Longrightarrow> handler_end True x \<in> {[], [Lose_attempt ''executor_shutdown'']}" for x
    using assms(2) [of x] by (auto simp: leaves_loop_def handler_end_def)
  show ?thesis
  proof (rule that [of "cs @ (case e of None \<Rightarrow> [] | Some x \<Rightarrow> handler_end True x)"])
    show "set (cs @ (case e of None \<Rightarrow> [] | Some x \<Rightarrow> handler_end True x)) \<subseteq> persist_only r \<union> {Lose_attempt ''executor_shutdown''}"
      using cs(2) handler by (auto split: option.splits)
    show "tk_calls t = send_order @ cs @ (case e of None \<Rightarrow> [] | Some x \<Rightarrow> handler_end True x)"
      by (simp add: assms(3) concludes_calls cs(1))
    show "tk_conclusion t \<in> {Fenced, Ended [Lose_attempt ''executor_shutdown'']} \<or> e = None \<and> tk_conclusion t = Committed"
      using handler by (auto simp: assms(3) concludes_conclusion split: option.splits)
  qed (use cs in \<open>auto simp: assms(3) concludes_calls\<close>)
qed

section \<open>Properties of the tick\<close>

text \<open>C4. The driver is called exactly when the permit was granted before the attempt's deadline, the payload
was read, the send was committed in the ledger and the permit was confirmed after that; it is called
once, these calls came first and in this order.\<close>

theorem executes_only_permitted:
  assumes "tick rv env turns = Some t"
  shows "count_list (tk_calls t) Execute = (if may_send rv env then 1 else 0) \<and>
    take 5 (tk_calls t) = (if may_send rv env then [Acquire_permit, Get_payload, Mark_send, Beat_permit, Execute] else take 5 (tk_calls t))"
using assms
proof (cases rule: tick_cases)
  case (unsent e n)
  then show ?thesis by (simp add: count_list_none send_order_counts handler_end_simple)
next
  case (refused e)
  then show ?thesis by (simp add: count_list_none send_order_counts handler_end_simple) (simp add: send_order_def)
next
  case (answered r p e)
  obtain cs where "set cs \<subseteq> persist_only r \<union> {Lose_attempt ''executor_shutdown''}" "tk_calls t = send_order @ cs"
    by (rule answered_calls [OF answered(3,4,5)]) (assumption | rule that)+
  moreover from this(1) have "Execute \<notin> set cs" by (auto simp: persist_only_def)
  ultimately show ?thesis using answered(1) by (simp add: count_list_none send_order_counts) (simp add: send_order_def)
qed

text \<open>C5. A completed inference is never thrown away: once the driver has returned a result no failure of
the attempt is written, and the tick ends with the result committed under the usage it had, after
the end of the compute was recorded, or with the attempt fenced off by another owner, or, at
shutdown only, with the attempt declared unknown.\<close>

theorem completed_inference_kept:
  assumes "tick rv env turns = Some t" and "may_send rv env" and "te_driver env = Returned r"
  shows "(\<forall>reason ns rt. Fail_attempt reason ns rt \<notin> set (tk_calls t)) \<and>
    (tk_conclusion t = Fenced \<or> tk_conclusion t = Ended [Lose_attempt ''executor_shutdown''] \<or>
     tk_conclusion t = Committed \<and> Finish_compute \<in> set (tk_calls t) \<and> last (tk_calls t) = Commit_result (usage_of r))"
using assms(1)
proof (cases rule: tick_cases)
  case (answered r' p e)
  then have r: "r' = r" using assms(3) by simp
  obtain cs where cs: "set cs \<subseteq> persist_only r' \<union> {Lose_attempt ''executor_shutdown''}" "tk_calls t = send_order @ cs"
    "e = None \<Longrightarrow> Finish_compute \<in> set cs \<and> last (tk_calls t) = Commit_result (usage_of r')"
    "tk_conclusion t \<in> {Fenced, Ended [Lose_attempt ''executor_shutdown'']} \<or> e = None \<and> tk_conclusion t = Committed"
    by (rule answered_calls [OF answered(3,4,5)]) (assumption | rule that)+
  have "Fail_attempt reason ns rt \<notin> set (tk_calls t)" for reason ns rt
    using cs(1) by (auto simp: cs(2) send_order_def persist_only_def)
  then show ?thesis using cs(3,4) r cs(2) by auto
qed (use assms in auto)

text \<open>C35. What a tick writes about the backend has evidence: an attempt is declared unknown only after its
send was committed and the driver called; it is failed as not sent only when the driver was never
called or said so itself, and as finished only when the driver said so.\<close>

theorem ends_declared_by_evidence:
  assumes "tick rv env turns = Some t" and "driver_only_fails env"
  shows "(Lose_attempt reason \<notin> set (tk_calls t) \<or> may_send rv env) \<and>
    (Fail_attempt reason True rt \<notin> set (tk_calls t) \<or> \<not> may_send rv env \<or>
      (\<exists>f. te_driver env = Raised (Driver_failed f) \<and> df_not_sent f)) \<and>
    (Fail_attempt reason False rt \<notin> set (tk_calls t) \<or>
      may_send rv env \<and> (\<exists>f. te_driver env = Raised (Driver_failed f) \<and> df_finished f \<and> \<not> df_not_sent f))"
using assms(1)
proof (cases rule: tick_cases)
  case (unsent e n)
  have "Lose_attempt reason \<notin> set (tk_calls t)" "Fail_attempt reason False rt \<notin> set (tk_calls t)"
    using unsent(3) unsent(5) [OF _ assms(2)]
    by (auto simp: handler_end_def failure_end_def send_order_def take_Cons' split: raised.splits if_splits)
  with unsent(1) show ?thesis by blast
next
  case (refused e)
  have only: "c \<in> set (tk_calls t) \<longleftrightarrow> c \<in> set (handler_end True (in_block (te_expired env) True e))"
    if "c = Fail_attempt reason True rt \<or> c = Fail_attempt reason False rt" for c
    using that by (auto simp: refused(3) send_order_def)
  show ?thesis
  proof (cases e)
    case (Driver_failed f)
    have "in_block (te_expired env) True e = Driver_failed f" by (simp add: in_block_def Driver_failed)
    then show ?thesis
      using refused(1,2) Driver_failed by (simp add: only handler_end_def failure_end_def)
  next
    case Timed_out
    then show ?thesis using refused(1)
      by (simp add: only handler_end_def failure_end_def in_block_def timeout_failure_def)
  qed (use refused(1) in \<open>simp_all add: only handler_end_def in_block_def\<close>)
next
  case (answered r p e)
  obtain cs where cs: "set cs \<subseteq> persist_only r \<union> {Lose_attempt ''executor_shutdown''}" "tk_calls t = send_order @ cs"
    by (rule answered_calls [OF answered(3,4,5)]) (assumption | rule that)+
  have "Fail_attempt reason ns rt \<notin> set (tk_calls t)" for ns
    using cs(1) by (auto simp: cs(2) send_order_def persist_only_def)
  with answered(1) show ?thesis by blast
qed

text \<open>A tick comes to a conclusion: always when the driver is not reached or does not return a result, and,
when it does, as soon as one turn of the persisting loop meets no failure; the write of the
attempt's end then returns after the first try that is answered or fenced, the first four tries at once.\<close>

theorem tick_concludes:
  assumes "list_ex turn_returns turns" and "list_ex (\<lambda>x. x = Returned () \<or> x = Raised Conflicting) later"
    and "settle_tries \<le> length first"
  shows "(\<exists>t. tick rv env turns = Some t) \<and> (\<exists>n. end_attempt first later = Some (True, n))"
proof
  from assms(1) obtain t where "t \<in> set turns" "turn_returns t" by (auto simp: list_ex_iff)
  then have "\<exists>x. persist r turns p = Some x" for r p by (rule persist_ends)
  then show "\<exists>t. tick rv env turns = Some t" by (fastforce simp: tick_def Let_def split: call_end.splits)
next
  have background: "\<exists>n. write_end None k xs = Some (True, n)" if "list_ex (\<lambda>x. x = Returned () \<or> x = Raised Conflicting) xs" for k xs
    using that by (induction "None :: nat option" k xs rule: write_end.induct) auto
  have tries: "\<exists>b n. write_end (Some m) k xs = Some (b, n)" if "m \<le> k + length xs" "k < m" for m k xs
    using that
  proof (induction xs arbitrary: k)
    case (Cons x xs)
    then show ?case using Cons.IH [of "Suc k"] by (cases x) auto
  qed simp
  from tries [of settle_tries 0 first] assms(3) obtain b n where "write_end (Some settle_tries) 0 first = Some (b, n)"
    by (auto simp: settle_tries_def)
  then show "\<exists>n. end_attempt first later = Some (True, n)"
    using background [OF assms(2)] by (cases b) (auto simp: end_attempt_def)
qed

end
