(* ===== verification/Driver_Properties.thy ===== *)
theory Driver_Properties
  imports Drivers
begin

text \<open>
  What the native drivers conclude from an exchange, the round trip from a preparer through the
  artifact store to the driver, and the reading of a body in pieces.
\<close>

section \<open>Evidence\<close>

text \<open>The engine said, under its contract and for this attempt, what became of the compute.\<close>

definition says :: "reservation \<Rightarrow> http_break + native_response \<Rightarrow> string \<Rightarrow> bool" where
  "says rv x s \<longleftrightarrow> (case x of Inl _ \<Rightarrow> False
     | Inr r \<Rightarrow> nr_contract r = Some ''termination-v1'' \<and> nr_attempt r = Some (rv_attempt_id rv) \<and> nr_state r = Some s)"

lemma says_state: "compute_state rv r = Some s \<longleftrightarrow> says rv (Inr r) s"
  by (auto simp: compute_state_def says_def)

text \<open>The exchange broke before or while connecting.\<close>

definition no_connection :: "http_break + native_response \<Rightarrow> bool" where
  "no_connection x \<longleftrightarrow> (case x of Inl (Not_connected _) \<Rightarrow> True
     | Inr r \<Rightarrow> (case nr_break r of Some (Not_connected _) \<Rightarrow> True | _ \<Rightarrow> False) | _ \<Rightarrow> False)"

text \<open>Whatever else interrupts the exchange is not a \<open>DriverFailure\<close>.\<close>

definition plain_break :: "http_break \<Rightarrow> bool" where
  "plain_break b \<longleftrightarrow> (case b of Interrupted_by (Driver_failed _) \<Rightarrow> False | _ \<Rightarrow> True)"

definition plain_exchange :: "http_break + native_response \<Rightarrow> bool" where
  "plain_exchange x \<longleftrightarrow> (case x of Inl b \<Rightarrow> plain_break b
     | Inr r \<Rightarrow> (case nr_break r of Some b \<Rightarrow> plain_break b | None \<Rightarrow> True))"

definition well_founded :: "reservation \<Rightarrow> http_break + native_response \<Rightarrow> bool \<Rightarrow> result call_end \<Rightarrow> bool" where
  "well_founded rv x posted res \<longleftrightarrow>
     (case res of
        Returned _ \<Rightarrow> posted \<and> says rv x ''terminated'' \<and> (case x of Inr r \<Rightarrow> nr_status r = 200 | Inl _ \<Rightarrow> False)
      | Raised (Driver_failed f) \<Rightarrow>
          (df_finished f \<longrightarrow> posted \<and> says rv x ''terminated'') \<and>
          (df_not_sent f \<longrightarrow> \<not> posted \<or> no_connection x \<or> says rv x ''not_started'')
      | Raised _ \<Rightarrow> True)"

lemma well_founded_failure:
  "well_founded rv x posted (failure reason ns fin rt) \<longleftrightarrow>
     (fin \<longrightarrow> posted \<and> says rv x ''terminated'') \<and> (ns \<longrightarrow> \<not> posted \<or> no_connection x \<or> says rv x ''not_started'')"
  by (simp add: well_founded_def failure_def)

lemma broken_well_founded:
  assumes "plain_break b" "x = Inl b \<and> state = None \<or> (\<exists>r. x = Inr r \<and> nr_break r = Some b \<and> compute_state rv r = state)"
  shows "well_founded rv x True (broken_exchange state b)"
proof (cases b)
  case (Not_connected name)
  with assms(2) have "no_connection x" by (auto simp: no_connection_def)
  with Not_connected show ?thesis by (simp add: broken_exchange_def well_founded_failure)
next
  case (Http_failed name)
  have "state = Some ''terminated'' \<Longrightarrow> says rv x ''terminated''"
    using assms(2) by (auto simp: says_state)
  then show ?thesis by (simp add: Http_failed broken_exchange_def well_founded_failure)
next
  case (Interrupted_by e)
  with assms(1) show ?thesis by (cases e) (simp_all add: plain_break_def broken_exchange_def well_founded_def)
qed

lemma native_body_well_founded:
  assumes "plain_exchange (Inr r)" "says rv (Inr r) ''terminated''" "\<And>body. well_founded rv (Inr r) True (use body)"
  shows "well_founded rv (Inr r) True (native_body too_long limit r use)"
proof (cases "read_pieces limit 0 (nr_pieces r)")
  case None
  then show ?thesis by (simp add: native_body_def well_founded_failure assms(2))
next
  case (Some body)
  have "well_founded rv (Inr r) True (broken_exchange (Some ''terminated'') b)" if "nr_break r = Some b" for b
    by (rule broken_well_founded) (use assms(1,2) that in \<open>auto simp: plain_exchange_def says_state\<close>)
  then show ?thesis using assms(3) by (simp add: native_body_def Some split: option.split)
qed

lemma speech_response_well_founded:
  assumes "plain_exchange (Inr r)"
  shows "well_founded rv (Inr r) True (speech_response wav_of duration pf p rv r)"
proof -
  have body: "well_founded rv (Inr r) True
      (native_body ''speech_audio_exceeds_profile'' (spf_max_audio_bytes pf) r (speech_audio wav_of duration pf p r))"
    if "says rv (Inr r) ''terminated''" "nr_status r = 200"
    by (rule native_body_well_founded [OF assms that(1)])
      (use that in \<open>simp add: speech_audio_def well_founded_failure split: option.split, simp add: well_founded_def\<close>)
  consider "compute_state rv r \<notin> {Some ''not_started'', Some ''terminated''}"
    | "says rv (Inr r) ''not_started''" "\<not> says rv (Inr r) ''terminated''"
    | "\<not> says rv (Inr r) ''not_started''" "says rv (Inr r) ''terminated''"
    unfolding says_state [symmetric] by (cases "compute_state rv r") auto
  then show ?thesis
    by cases (auto simp: speech_response_def Let_def well_founded_failure says_state intro: body)
qed

lemma embedding_response_well_founded:
  assumes "plain_exchange (Inr r)"
  shows "well_founded rv (Inr r) True (embedding_response vectors_of pf p rv r)"
proof -
  have body: "well_founded rv (Inr r) True
      (native_body ''embedding_response_exceeds_profile'' (epf_max_response_bytes pf) r (embedding_vectors vectors_of pf p r))"
    if "says rv (Inr r) ''terminated''" "nr_status r = 200"
    by (rule native_body_well_founded [OF assms that(1)])
      (use that in \<open>simp add: embedding_vectors_def well_founded_failure split: option.split, simp add: well_founded_def\<close>)
  consider "compute_state rv r \<notin> {Some ''not_started'', Some ''terminated''}"
    | "says rv (Inr r) ''not_started''" "\<not> says rv (Inr r) ''terminated''"
    | "\<not> says rv (Inr r) ''not_started''" "says rv (Inr r) ''terminated''"
    unfolding says_state [symmetric] by (cases "compute_state rv r") auto
  then show ?thesis
    by cases (auto simp: embedding_response_def Let_def well_founded_failure says_state intro: body)
qed


section \<open>The round trip of prepared input\<close>

text \<open>
  An operation that carries what a preparer returned; \<open>reload\<close> is the way of the document
  through the artifact store: \<open>json.dumps\<close> with sorted keys, then \<open>json.loads\<close>.
\<close>

definition carries :: "prepared \<Rightarrow> reservation \<Rightarrow> bool" where
  "carries pr rv \<longleftrightarrow>
     os_body (rv_operation rv) = pr_body pr \<and> os_model_profile (rv_operation rv) = pr_model_profile pr \<and>
     os_capacity_profile_id (rv_operation rv) = Some (pr_capacity_profile pr) \<and>
     (case pr_body pr of EmbeddingBody revision _ _ \<Rightarrow> rv_model_revision rv = revision | _ \<Rightarrow> True)"

text \<open>Prepared input comes back unchanged: what a preparer of a profile accepted and stored, the driver
of the same profile reads back as the same payload, accepts for any reservation of an operation
that carries the prepared fields, and posts.\<close>

theorem prepared_is_accepted:
  assumes "\<And>j. decode_s (reload j) = decode_s j" and "\<And>p. decode_e (reload (embedding_json p)) = Some p"
    and "prepare_speech decode_s spf qs = Some ps" and "carries ps rs"
    and "prepare_embedding decode_e epf qe = Some pe" and "carries pe re"
  shows "fst (execute_speech decode_s wav_of duration spf rs (reload (pr_document ps)) x) \<and>
    validate_speech decode_s spf (reload (pr_document ps)) = validate_speech decode_s spf (pq_payload qs) \<and>
    fst (execute_embedding decode_e vectors_of epf re (reload (pr_document pe)) y) \<and>
    validate_embedding decode_e epf (reload (pr_document pe)) = validate_embedding decode_e epf (pq_payload qe)"
proof (intro conjI)
  from assms(3) obtain p where p: "validate_speech decode_s spf (pq_payload qs) = Some p"
    and ps: "pr_document ps = pq_payload qs" "pr_body ps = SpeechBody (int (length (sp_text p)))"
      "pr_model_profile ps = spf_model_profile spf" "pr_capacity_profile ps = spf_capacity_profile spf"
    by (auto simp: prepare_speech_def split: if_splits option.splits)
  show vs: "validate_speech decode_s spf (reload (pr_document ps)) = validate_speech decode_s spf (pq_payload qs)"
    by (simp add: validate_speech_def ps(1) assms(1))
  have "speech_matches spf p (rv_operation rs)"
    using assms(4) ps by (simp add: speech_matches_def carries_def)
  then show "fst (execute_speech decode_s wav_of duration spf rs (reload (pr_document ps)) x)"
    by (simp add: execute_speech_def vs p)
  from assms(5) obtain q where q: "validate_embedding decode_e epf (pq_payload qe) = Some q"
    and pe: "pr_document pe = embedding_json q"
      "pr_body pe = EmbeddingBody (epf_model_revision epf) (embedding_characters q) (int (length (ep_texts q)))"
      "pr_model_profile pe = epf_model_profile epf" "pr_capacity_profile pe = epf_capacity_profile epf"
    by (auto simp: prepare_embedding_def split: if_splits option.splits)
  from q have "validate_embedding decode_e epf (reload (pr_document pe)) = Some q"
    by (auto simp: validate_embedding_def pe(1) assms(2) split: option.splits if_splits)
  then show ve: "validate_embedding decode_e epf (reload (pr_document pe)) = validate_embedding decode_e epf (pq_payload qe)"
    by (simp add: q)
  have "embedding_matches epf q re"
    using assms(6) pe by (simp add: embedding_matches_def carries_def)
  then show "fst (execute_embedding decode_e vectors_of epf re (reload (pr_document pe)) y)"
    by (simp add: execute_embedding_def ve q)
qed

end
