(* ===== verification/Executor_Demo.thy ===== *)
theory Executor_Demo
  imports Ledger_Demo Executor_Properties Driver_Properties
begin

text \<open>Concrete ticks and exchanges at which the properties of the executor and the drivers apply.\<close>

definition demo_env :: "result call_end \<Rightarrow> tick_env" where
  "demo_env d = \<lparr>te_now = 0, te_permit = Returned (), te_now_permitted = 1, te_payload = Returned (),
     te_send = Returned (), te_beat = Returned (), te_driver = d, te_expired = False\<rparr>"

definition demo_result :: result where
  "demo_result = Engine_result (JDict []) (Some 3) (Some 4)"

definition demo_turn :: "unit call_end \<Rightarrow> persist_turn" where
  "demo_turn commit = \<lparr>ps_finish = Returned (), ps_release = Returned (), ps_puts = Returned (), ps_commit = commit\<rparr>"

lemma demo_may_send: "may_send (demo_reservation\<lparr>rv_attempt_deadline := 5\<rparr>) (demo_env d)"
  by (simp add: may_send_def demo_env_def)

text \<open>A result whose first commit fails: the calls, in order.\<close>

definition demo_calls :: "call list" where
  "demo_calls = [Acquire_permit, Get_payload, Mark_send, Beat_permit, Execute, Finish_compute, Release_permit,
     Put_artifact, Commit_result (Some 7), Put_artifact, Commit_result (Some 7)]"

lemma demo_tick:
  "tick (demo_reservation\<lparr>rv_attempt_deadline := 5\<rparr>) (demo_env (Returned demo_result))
     [demo_turn (Raised Other_error), demo_turn (Returned ())] =
   Some \<lparr>tk_calls = demo_calls, tk_conclusion = Committed, tk_result = True, tk_permit = False, tk_raises = False\<rparr>"
  by (simp add: tick_def send_stage_def send_block_def persist_once_def persist_commit_def retried_def puts_of_def usage_of_def
      concludes_def demo_env_def demo_turn_def demo_result_def demo_calls_def Let_def)

theorem executes_only_permitted_witness: "count_list demo_calls Execute = 1"
  using executes_only_permitted [OF demo_tick] demo_may_send by simp

theorem completed_inference_kept_witness: "last demo_calls = Commit_result (usage_of demo_result)"
  using completed_inference_kept [OF demo_tick demo_may_send, of demo_result] by (simp add: demo_env_def)

definition demo_silence :: driver_failure where
  "demo_silence = \<lparr>df_reason = ''x'', df_not_sent = False, df_finished = False, df_retry = False\<rparr>"

lemma demo_lost:
  "tick (demo_reservation\<lparr>rv_attempt_deadline := 5\<rparr>) (demo_env (Raised (Driver_failed demo_silence))) [] =
   Some \<lparr>tk_calls = send_order @ [Lose_attempt ''x''], tk_conclusion = Ended [Lose_attempt ''x''], tk_result = False,
     tk_permit = True, tk_raises = False\<rparr>"
  by (simp add: tick_def send_stage_def send_block_def concludes_def handler_end_def failure_end_def in_block_def
      demo_env_def demo_silence_def send_order_def Let_def)

theorem ends_declared_by_evidence_witness:
  "may_send (demo_reservation\<lparr>rv_attempt_deadline := 5\<rparr>) (demo_env (Raised (Driver_failed demo_silence)))"
proof -
  have "driver_only_fails (demo_env (Raised (Driver_failed demo_silence)))"
    by (simp add: driver_only_fails_def demo_env_def)
  from ends_declared_by_evidence [OF demo_lost this, of "''x''"] show ?thesis by simp
qed

theorem tick_concludes_witness:
  "\<exists>t. tick demo_reservation (demo_env (Returned demo_result)) [demo_turn (Raised Other_error), demo_turn (Returned ())] = Some t"
  using tick_concludes [of "[demo_turn (Raised Other_error), demo_turn (Returned ())]" "[Raised Other_error, Returned ()]"
      "replicate 4 (Raised Other_error)" demo_reservation "demo_env (Returned demo_result)"]
  by (simp add: turn_returns_def demo_turn_def settle_tries_def)

section \<open>Drivers\<close>

definition demo_speech_profile :: speech_profile where
  "demo_speech_profile = \<lparr>spf_model_profile = ''tts'', spf_capacity_profile = ''c'', spf_character_limit = 10,
     spf_sample_rate = 24000, spf_max_audio_bytes = 8, spf_voices = [''vi_female'']\<rparr>"

definition demo_embedding_profile :: embedding_profile where
  "demo_embedding_profile = \<lparr>epf_model_profile = ''emb'', epf_capacity_profile = ''c'', epf_model = ''e'',
     epf_model_revision = ''v1'', epf_dimension = 2, epf_max_batch = 4, epf_character_limit = 10, epf_max_text = 10,
     epf_max_response_bytes = 100\<rparr>"

text \<open>Contracts that read the fields the preparers write.\<close>

fun texts_of :: "json list \<Rightarrow> string list option" where
  "texts_of [] = Some []"
| "texts_of (JString s # xs) = map_option ((#) s) (texts_of xs)"
| "texts_of _ = None"

definition demo_speech_payload :: "json \<Rightarrow> speech_payload option" where
  "demo_speech_payload j = (case jget ''text'' j of
     JString t \<Rightarrow> Some \<lparr>sp_text = t, sp_voice_id = None, sp_gender = None\<rparr> | _ \<Rightarrow> None)"

definition demo_embedding_payload :: "json \<Rightarrow> embedding_payload option" where
  "demo_embedding_payload j = (case (jget ''texts'' j, jget ''input_type'' j) of
     (JList xs, JString t) \<Rightarrow> map_option (\<lambda>ts. \<lparr>ep_texts = ts, ep_input_type = t\<rparr>) (texts_of xs) | _ \<Rightarrow> None)"

lemma texts_of_map: "texts_of (map JString ts) = Some ts"
  by (induction ts) auto

lemma demo_embedding_payload_json: "demo_embedding_payload (embedding_json p) = Some p"
  by (simp add: demo_embedding_payload_def embedding_json_def jlookup_def texts_of_map)

definition demo_speech_request :: prepare_request where
  "demo_speech_request = \<lparr>pq_model_profile = ''tts'', pq_capacity_profile = ''c'',
     pq_payload = JDict [(''text'', JString ''abc'')], pq_attempt_timeout = 60\<rparr>"

definition demo_embedding_request :: prepare_request where
  "demo_embedding_request = \<lparr>pq_model_profile = ''emb'', pq_capacity_profile = ''c'',
     pq_payload = embedding_json \<lparr>ep_texts = [''ab'', ''c''], ep_input_type = ''query''\<rparr>, pq_attempt_timeout = 60\<rparr>"

definition demo_carrier :: "prepared \<Rightarrow> reservation" where
  "demo_carrier pr = demo_reservation\<lparr>rv_operation := demo_op_spec\<lparr>os_body := pr_body pr,
     os_model_profile := pr_model_profile pr, os_capacity_profile_id := Some (pr_capacity_profile pr)\<rparr>,
     rv_model_revision := ''v1''\<rparr>"

definition demo_prepared_speech :: prepared where
  "demo_prepared_speech = \<lparr>pr_document = JDict [(''text'', JString ''abc'')], pr_model_profile = ''tts'', pr_capacity_profile = ''c'',
     pr_body = SpeechBody 3, pr_expected_cost = 3, pr_attempt_timeout = 60\<rparr>"

definition demo_prepared_embedding :: prepared where
  "demo_prepared_embedding = \<lparr>pr_document = embedding_json \<lparr>ep_texts = [''ab'', ''c''], ep_input_type = ''query''\<rparr>,
     pr_model_profile = ''emb'', pr_capacity_profile = ''c'', pr_body = EmbeddingBody ''v1'' 3 2,
     pr_expected_cost = 3, pr_attempt_timeout = 60\<rparr>"

lemma demo_prepares:
  "prepare_speech demo_speech_payload demo_speech_profile demo_speech_request = Some demo_prepared_speech"
  "prepare_embedding demo_embedding_payload demo_embedding_profile demo_embedding_request = Some demo_prepared_embedding"
  by (simp_all add: prepare_speech_def prepare_embedding_def validate_speech_def validate_embedding_def demo_speech_request_def
      demo_embedding_request_def demo_speech_profile_def demo_embedding_profile_def demo_embedding_payload_json
      demo_speech_payload_def jlookup_def blank_text_def py_space_def speech_voice_def embedding_characters_def
      demo_prepared_speech_def demo_prepared_embedding_def)

lemma demo_carries: "carries demo_prepared_speech (demo_carrier demo_prepared_speech)"
    "carries demo_prepared_embedding (demo_carrier demo_prepared_embedding)"
  by (simp_all add: carries_def demo_carrier_def demo_prepared_speech_def demo_prepared_embedding_def)

theorem prepared_is_accepted_witness:
  "fst (execute_speech demo_speech_payload Map.empty (\<lambda>_ _. 0) demo_speech_profile (demo_carrier demo_prepared_speech)
      (pr_document demo_prepared_speech) (Inl (Not_connected ''ConnectError''))) \<and>
   fst (execute_embedding demo_embedding_payload Map.empty demo_embedding_profile (demo_carrier demo_prepared_embedding)
      (pr_document demo_prepared_embedding) (Inl (Http_failed ''ReadError'')))"
proof -
  note all = prepared_is_accepted [of demo_speech_payload id demo_embedding_payload, OF _ _ demo_prepares(1) demo_carries(1)
      demo_prepares(2) demo_carries(2), unfolded id_apply, OF refl demo_embedding_payload_json]
  show ?thesis by (rule conjI [OF all [THEN conjunct1] all [THEN conjunct2, THEN conjunct2, THEN conjunct1]])
qed

definition demo_response :: native_response where
  "demo_response = \<lparr>nr_contract = Some ''termination-v1'', nr_attempt = Some ''a'', nr_state = Some ''terminated'',
     nr_revision = None, nr_type = ''audio/wav'', nr_status = 200, nr_pieces = [''ab'', ''cd''], nr_break = None\<rparr>"

definition demo_wav :: "string \<Rightarrow> wav option" where
  "demo_wav audio = Some \<lparr>wv_channels = 1, wv_width = 2, wv_rate = 24000, wv_frames = 2, wv_read = 4\<rparr>"

lemma demo_speaks:
  "execute_speech demo_speech_payload demo_wav (\<lambda>frames rate. frames) demo_speech_profile (demo_carrier demo_prepared_speech)
     (pr_document demo_prepared_speech) (Inr demo_response) =
   (True, Returned (Speech_result (JDict [(''duration_ms'', JInt 2)]) 3))"
  by (simp add: execute_speech_def validate_speech_def demo_speech_payload_def demo_prepared_speech_def jlookup_def blank_text_def
      py_space_def demo_speech_profile_def speech_voice_def speech_matches_def demo_carrier_def speech_response_def
      compute_state_def demo_response_def demo_reservation_def native_body_def speech_audio_def demo_wav_def qualified_wav_def)


end
