(* ===== verification/Model_Step.thy ===== *)
theory Model_Step
  imports Json
begin

text \<open>
  Planning a pure model leaf from recorded responses (\<open>model_step.py\<close>). A leaf is a coroutine:
  it returns, raises, or invokes the port and goes on with what the port did: a recorded
  response, a recorded error, a rejection it may catch, or its own suspension, which a leaf that
  catches \<open>BaseException\<close> may suppress. \<open>sha\<close> is SHA-256 of the serialized request.
\<close>

section \<open>Leaves\<close>

datatype leaf_raise = Leaf_raises string | Replay_error string | Awaits_call

datatype port_answer = Port_returns json | Port_raises leaf_raise

datatype leaf =
    Leaf_returns json
  | Leaf_fails leaf_raise
  | Leaf_invokes bool json json "port_answer \<Rightarrow> leaf"
      \<comment> \<open>from the owning task, payload, \<open>max_output_tokens\<close>, continuation\<close>

text \<open>\<open>_json_copy\<close>: the value itself, unless it holds a float that JSON has no text for.\<close>

fun json_finite :: "json \<Rightarrow> bool" where
  "json_finite (JFloat s) = (s \<notin> {''nan'', ''inf'', ''-inf''})"
| "json_finite (JList l) = list_all json_finite l"
| "json_finite (JDict d) = list_all (\<lambda>kv. json_finite (snd kv)) d"
| "json_finite _ = True"

definition json_copy :: "json \<Rightarrow> json option" where
  "json_copy j = (if json_finite j then Some j else None)"

section \<open>Records\<close>

text \<open>A record: the digest of the request and its result, or a terminal error.\<close>

record model_record =
  mr_digest :: string
  mr_outcome :: "json + string"      \<comment> \<open>\<open>Inl\<close> a result, \<open>Inr\<close> an error\<close>

definition valid_record :: "model_record \<Rightarrow> bool" where
  "valid_record r \<longleftrightarrow>
     length (mr_digest r) = 64 \<and> list_all (\<lambda>c. c \<in> set ''0123456789abcdef'') (mr_digest r) \<and>
     (case mr_outcome r of Inl v \<Rightarrow> is_dict v \<and> json_finite v | Inr e \<Rightarrow> e \<noteq> [])"

record model_call =
  mc_payload :: json
  mc_max_tokens :: int
  mc_digest :: string

section \<open>The port\<close>

record model_port =
  mp_ordinal :: nat
  mp_pending :: "model_call option"
  mp_violation :: "string option"

definition new_port :: model_port where
  "new_port = \<lparr>mp_ordinal = 0, mp_pending = None, mp_violation = None\<rparr>"

definition reject :: "model_port \<Rightarrow> string \<Rightarrow> model_port \<times> port_answer" where
  "reject p m = (p\<lparr>mp_violation := Some m\<rparr>, Port_raises (Replay_error m))"

definition positive_int :: "json \<Rightarrow> int option" where
  "positive_int j = (case plain_int j of Some n \<Rightarrow> if 0 < n then Some n else None | None \<Rightarrow> None)"

definition answer_call :: "(json \<Rightarrow> int \<Rightarrow> string) \<Rightarrow> model_record list \<Rightarrow> model_port \<Rightarrow> json \<Rightarrow> int \<Rightarrow> model_port \<times> port_answer" where
  "answer_call sha records p payload n =
     (if mp_ordinal p < length records
      then
        (let r = records ! mp_ordinal p; p1 = p\<lparr>mp_ordinal := mp_ordinal p + 1\<rparr> in
         if mr_digest r \<noteq> sha payload n then reject p ''model request changed''
         else case mr_outcome r of
             Inr e \<Rightarrow> (p1, Port_raises (Leaf_raises e))
           | Inl v \<Rightarrow> (p1, Port_returns v))
      else
        (p\<lparr>mp_pending := Some \<lparr>mc_payload = payload, mc_max_tokens = n, mc_digest = sha payload n\<rparr>\<rparr>,
         Port_raises Awaits_call))"

definition invoke :: "(json \<Rightarrow> int \<Rightarrow> string) \<Rightarrow> model_record list \<Rightarrow> model_port \<Rightarrow> bool \<Rightarrow> json \<Rightarrow> json \<Rightarrow> model_port \<times> port_answer" where
  "invoke sha records p own_task payload max_tokens =
     (case mp_violation p of
        Some m \<Rightarrow> (p, Port_raises (Replay_error m))
      | None \<Rightarrow>
          (if \<not> own_task then reject p ''model leaves must be sequential''
           else if mp_pending p \<noteq> None then reject p ''leaf suppressed its suspension''
           else case positive_int max_tokens of
               None \<Rightarrow> reject p ''max_output_tokens must be a positive integer''
             | Some n \<Rightarrow>
                 (if \<not> is_dict payload then reject p ''model payload must be a JSON object''
                  else case json_copy payload of
                      None \<Rightarrow> reject p ''model payload is not JSON''
                    | Some frozen \<Rightarrow> answer_call sha records p frozen n)))"

section \<open>Planning a step\<close>

datatype planned_step =
    Step_done json
  | Step_call model_call
  | Step_raises leaf_raise

primrec run_leaf :: "(json \<Rightarrow> int \<Rightarrow> string) \<Rightarrow> model_record list \<Rightarrow> model_port \<Rightarrow> leaf \<Rightarrow> model_port \<times> (leaf_raise + json)" where
  "run_leaf sha records p (Leaf_returns v) = (p, Inr v)"
| "run_leaf sha records p (Leaf_fails e) = (p, Inl e)"
| "run_leaf sha records p (Leaf_invokes own payload n k) =
     (case invoke sha records p own payload n of (p1, a) \<Rightarrow> run_leaf sha records p1 (k a))"

text \<open>\<open>plan_model_step\<close>. A result that is no JSON raises, as \<open>json.dumps\<close> does.\<close>

definition plan_model_step :: "(json \<Rightarrow> int \<Rightarrow> string) \<Rightarrow> leaf \<Rightarrow> model_record list \<Rightarrow> planned_step" where
  "plan_model_step sha body records =
     (case run_leaf sha records new_port body of
        (p, Inl Awaits_call) \<Rightarrow>
          (case mp_violation p of
             Some m \<Rightarrow> Step_raises (Replay_error m)
           | None \<Rightarrow>
               (case mp_pending p of
                  Some c \<Rightarrow> Step_call c
                | None \<Rightarrow> Step_raises Awaits_call))
      | (p, Inl e) \<Rightarrow> Step_raises e
      | (p, Inr v) \<Rightarrow>
          (case mp_violation p of
             Some m \<Rightarrow> Step_raises (Replay_error m)
           | None \<Rightarrow>
               (if mp_pending p \<noteq> None then Step_raises (Replay_error ''leaf suppressed its model suspension'')
                else if mp_ordinal p \<noteq> length records
                  then Step_raises (Replay_error ''unused model records: leaf control flow changed'')
                else case json_copy v of
                    Some j \<Rightarrow> Step_done j
                  | None \<Rightarrow> Step_raises (Leaf_raises ''ValueError''))))"

section \<open>Running a leaf directly\<close>

text \<open>
  The reference: the leaf runs once, every call answered at once by \<open>model\<close>, which is given the
  position of the call. The answers are yielded too, in order.
\<close>

definition answered :: "json + string \<Rightarrow> port_answer" where
  "answered x = (case x of Inl v \<Rightarrow> Port_returns v | Inr e \<Rightarrow> Port_raises (Leaf_raises e))"

primrec run_direct :: "(nat \<Rightarrow> json \<Rightarrow> int \<Rightarrow> json + string) \<Rightarrow> nat \<Rightarrow> leaf \<Rightarrow> (json + string) list \<times> (leaf_raise + json)" where
  "run_direct model i (Leaf_returns v) = ([], Inr v)"
| "run_direct model i (Leaf_fails e) = ([], Inl e)"
| "run_direct model i (Leaf_invokes own payload n k) =
     (let x = model i payload (case positive_int n of Some m \<Rightarrow> m | None \<Rightarrow> 0) in
      case run_direct model (Suc i) (k (answered x)) of (xs, e) \<Rightarrow> (x # xs, e))"

text \<open>
  The contract of a leaf: it calls the port from its own task with a JSON object and a positive
  bound, lets its suspension through, and does not raise the port's own exceptions itself.
\<close>

primrec pure_leaf :: "leaf \<Rightarrow> bool" where
  "pure_leaf (Leaf_returns v) \<longleftrightarrow> json_finite v"
| "pure_leaf (Leaf_fails e) \<longleftrightarrow> (\<exists>m. e = Leaf_raises m)"
| "pure_leaf (Leaf_invokes own payload n k) \<longleftrightarrow>
     own \<and> is_dict payload \<and> json_finite payload \<and> positive_int n \<noteq> None \<and>
     k (Port_raises Awaits_call) = Leaf_fails Awaits_call \<and>
     (\<forall>x. pure_leaf (k (answered x)))"

section \<open>Replay\<close>

text \<open>The records of a run: the digests of its calls with their outcomes.\<close>

primrec run_records :: "(json \<Rightarrow> int \<Rightarrow> string) \<Rightarrow> (nat \<Rightarrow> json \<Rightarrow> int \<Rightarrow> json + string) \<Rightarrow> nat \<Rightarrow> leaf \<Rightarrow> model_record list" where
  "run_records sha model i (Leaf_invokes own payload n k) =
     (let m = (case positive_int n of Some m \<Rightarrow> m | None \<Rightarrow> 0); x = model i payload m in
      \<lparr>mr_digest = sha payload m, mr_outcome = x\<rparr> # run_records sha model (Suc i) (k (answered x)))"
| "run_records sha model i (Leaf_returns v) = []"
| "run_records sha model i (Leaf_fails e) = []"

text \<open>The call the run makes at a position.\<close>

primrec run_call :: "(json \<Rightarrow> int \<Rightarrow> string) \<Rightarrow> (nat \<Rightarrow> json \<Rightarrow> int \<Rightarrow> json + string) \<Rightarrow> nat \<Rightarrow> leaf \<Rightarrow> nat \<Rightarrow> model_call option" where
  "run_call sha model i (Leaf_invokes own payload n k) j =
     (let m = (case positive_int n of Some m \<Rightarrow> m | None \<Rightarrow> 0) in
      case j of
        0 \<Rightarrow> Some \<lparr>mc_payload = payload, mc_max_tokens = m, mc_digest = sha payload m\<rparr>
      | Suc j' \<Rightarrow> run_call sha model (Suc i) (k (answered (model i payload m))) j')"
| "run_call sha model i (Leaf_returns v) j = None"
| "run_call sha model i (Leaf_fails e) j = None"

lemma run_records_length: "length (run_records sha model i b) = length (fst (run_direct model i b))"
  by (induction b arbitrary: i) (auto simp: Let_def split: prod.split)

lemma run_records_call:
  "j < length (run_records sha model i b) \<Longrightarrow>
   \<exists>c. run_call sha model i b j = Some c \<and> mc_digest c = mr_digest (run_records sha model i b ! j) \<and>
     mr_outcome (run_records sha model i b ! j) = model (i + j) (mc_payload c) (mc_max_tokens c)"
proof (induction b arbitrary: i j)
  case (Leaf_invokes own payload n k)
  show ?case
  proof (cases j)
    case 0
    then show ?thesis by (simp add: Let_def)
  next
    case (Suc j')
    with Leaf_invokes.prems Leaf_invokes.IH [OF rangeI, of j' "Suc i"] show ?thesis by (auto simp: Let_def)
  qed
qed simp_all

text \<open>The port of a replay has consumed the records so far and is in order.\<close>

lemma invoke_recorded:
  assumes "mp_violation p = None" "mp_pending p = None" "is_dict payload" "json_finite payload" "positive_int n = Some m"
    "mp_ordinal p < length records" "records ! mp_ordinal p = \<lparr>mr_digest = sha payload m, mr_outcome = x\<rparr>"
  shows "invoke sha records p True payload n = (p\<lparr>mp_ordinal := Suc (mp_ordinal p)\<rparr>, answered x)"
  using assms by (simp add: invoke_def json_copy_def answer_call_def answered_def Let_def split: sum.split)

lemma invoke_suspends:
  assumes "mp_violation p = None" "mp_pending p = None" "is_dict payload" "json_finite payload" "positive_int n = Some m"
    "mp_ordinal p = length records"
  shows "invoke sha records p True payload n =
    (p\<lparr>mp_pending := Some \<lparr>mc_payload = payload, mc_max_tokens = m, mc_digest = sha payload m\<rparr>\<rparr>, Port_raises Awaits_call)"
  using assms by (simp add: invoke_def json_copy_def answer_call_def Let_def)

lemma replay:
  assumes "pure_leaf b" "records = pre @ take j (run_records sha model i b)" "j \<le> length (run_records sha model i b)"
    "p = \<lparr>mp_ordinal = length pre, mp_pending = None, mp_violation = None\<rparr>"
  shows "(j < length (run_records sha model i b) \<longrightarrow>
      run_leaf sha records p b = (\<lparr>mp_ordinal = length records, mp_pending = run_call sha model i b j, mp_violation = None\<rparr>, Inl Awaits_call)) \<and>
    (j = length (run_records sha model i b) \<longrightarrow>
      run_leaf sha records p b = (\<lparr>mp_ordinal = length records, mp_pending = None, mp_violation = None\<rparr>, snd (run_direct model i b)))"
  using assms
proof (induction b arbitrary: i j pre p)
  case (Leaf_invokes own payload n k)
  then obtain m where m: "positive_int n = Some m" "own" "is_dict payload" "json_finite payload" by auto
  define x where "x = model i payload m"
  define rest where "rest = run_records sha model (Suc i) (k (answered x))"
  have runs: "run_records sha model i (Leaf_invokes own payload n k) = \<lparr>mr_digest = sha payload m, mr_outcome = x\<rparr> # rest"
    by (simp add: rest_def x_def m(1) Let_def)
  have direct: "snd (run_direct model i (Leaf_invokes own payload n k)) = snd (run_direct model (Suc i) (k (answered x)))"
    by (simp add: x_def m(1) Let_def split: prod.split)
  show ?case
  proof (cases j)
    case 0
    with Leaf_invokes.prems(2) have "records = pre" by simp
    then have "invoke sha records p True payload n =
        (p\<lparr>mp_pending := Some \<lparr>mc_payload = payload, mc_max_tokens = m, mc_digest = sha payload m\<rparr>\<rparr>, Port_raises Awaits_call)"
      using m Leaf_invokes.prems(4) by (intro invoke_suspends) auto
    moreover have "k (Port_raises Awaits_call) = Leaf_fails Awaits_call" using Leaf_invokes.prems(1) by simp
    ultimately show ?thesis using Leaf_invokes.prems(4) m \<open>records = pre\<close> by (simp add: 0 runs Let_def)
  next
    case (Suc j')
    have recs: "records = (pre @ [\<lparr>mr_digest = sha payload m, mr_outcome = x\<rparr>]) @ take j' rest"
      using Leaf_invokes.prems(2) unfolding runs Suc by simp
    define q where "q = p\<lparr>mp_ordinal := Suc (mp_ordinal p)\<rparr>"
    have inv: "invoke sha records p True payload n = (q, answered x)"
      unfolding q_def by (rule invoke_recorded) (use m Leaf_invokes.prems(4) in \<open>auto simp: recs\<close>)
    have pure: "pure_leaf (k (answered x))" using Leaf_invokes.prems(1) by auto
    have bound: "j' \<le> length rest" using Leaf_invokes.prems(3) unfolding runs Suc by simp
    have q: "q = \<lparr>mp_ordinal = length (pre @ [\<lparr>mr_digest = sha payload m, mr_outcome = x\<rparr>]), mp_pending = None, mp_violation = None\<rparr>"
      by (simp add: q_def Leaf_invokes.prems(4))
    have step: "run_leaf sha records p (Leaf_invokes own payload n k) = run_leaf sha records q (k (answered x))"
      using m inv by simp
    from Leaf_invokes.IH [OF rangeI pure recs [unfolded rest_def] bound [unfolded rest_def] q]
    show ?thesis unfolding step runs direct using m by (auto simp: Suc rest_def x_def Let_def)
  qed
qed auto

text \<open>Planning with the first records of a run yields its next call, and with all of them its end.\<close>

definition step_end :: "leaf_raise + json \<Rightarrow> planned_step" where
  "step_end e = (case e of Inl x \<Rightarrow> Step_raises x
     | Inr v \<Rightarrow> (case json_copy v of Some j \<Rightarrow> Step_done j | None \<Rightarrow> Step_raises (Leaf_raises ''ValueError'')))"

lemma direct_never_awaits: "pure_leaf b \<Longrightarrow> snd (run_direct model i b) \<noteq> Inl Awaits_call"
proof (induction b arbitrary: i)
  case (Leaf_invokes own payload n k)
  define x where "x = model i payload (case positive_int n of Some m \<Rightarrow> m | None \<Rightarrow> 0)"
  have "pure_leaf (k (answered x))" using Leaf_invokes.prems by simp
  from Leaf_invokes.IH [OF rangeI this, of "Suc i"] show ?case
    by (simp add: x_def Let_def case_prod_beta)
qed auto

lemma plan_replays:
  assumes "pure_leaf b" "j \<le> length (run_records sha model 0 b)"
  shows "plan_model_step sha b (take j (run_records sha model 0 b)) =
    (if j < length (run_records sha model 0 b) then Step_call (the (run_call sha model 0 b j))
     else step_end (snd (run_direct model 0 b)))"
proof -
  define recs where "recs = take j (run_records sha model 0 b)"
  have n: "new_port = \<lparr>mp_ordinal = length ([] :: model_record list), mp_pending = None, mp_violation = None\<rparr>"
    by (simp add: new_port_def)
  note r = replay [OF assms(1) _ assms(2) n, of recs, simplified append_Nil, OF recs_def]
  show ?thesis
  proof (cases "j < length (run_records sha model 0 b)")
    case True
    then obtain c where "run_call sha model 0 b j = Some c" using run_records_call [OF True] by blast
    with r True show ?thesis by (simp add: plan_model_step_def recs_def)
  next
    case False
    with assms(2) r have "run_leaf sha recs new_port b =
        (\<lparr>mp_ordinal = length recs, mp_pending = None, mp_violation = None\<rparr>, snd (run_direct model 0 b))" by (simp add: recs_def)
    with False show ?thesis using direct_never_awaits [OF assms(1), of model 0]
      by (auto simp: plan_model_step_def step_end_def recs_def split: sum.split leaf_raise.split)
  qed
qed

section \<open>A leaf that changed\<close>

lemma invoke_violation: "mp_violation p \<noteq> None \<Longrightarrow> invoke sha records p own payload n = (q, a) \<Longrightarrow> mp_violation q \<noteq> None"
  by (auto simp: invoke_def split: option.splits)

lemma run_leaf_violation:
  "mp_violation p \<noteq> None \<Longrightarrow> mp_violation (fst (run_leaf sha records p b)) \<noteq> None"
proof (induction b arbitrary: p)
  case (Leaf_invokes own payload n k)
  obtain q a where q: "invoke sha records p own payload n = (q, a)" by fastforce
  from Leaf_invokes.IH [OF rangeI invoke_violation [OF Leaf_invokes.prems q]] q show ?case by simp
qed simp_all

text \<open>A call that differs from its record makes the whole step a replay error.\<close>

lemma step_of_violation:
  assumes "mp_violation (fst (run_leaf sha records new_port b)) \<noteq> None"
  shows "\<exists>e. plan_model_step sha b records = Step_raises e"
  using assms by (auto simp: plan_model_step_def split: prod.split sum.split leaf_raise.split option.splits)

lemma changed_call_refused:
  assumes "positive_int n = Some m" "is_dict payload" "json_finite payload" "records \<noteq> []" "mr_digest (hd records) \<noteq> sha payload m"
  shows "\<exists>e. plan_model_step sha (Leaf_invokes own payload n k) records = Step_raises e"
proof (rule step_of_violation)
  obtain q a where q: "invoke sha records new_port own payload n = (q, a)" by fastforce
  have "mp_violation q \<noteq> None"
    using q assms by (auto simp: invoke_def new_port_def answer_call_def reject_def json_copy_def hd_conv_nth Let_def split: if_splits)
  from run_leaf_violation [OF this] q show "mp_violation (fst (run_leaf sha records new_port (Leaf_invokes own payload n k))) \<noteq> None"
    by simp
qed

end
