(* ===== verification/Sdk.thy ===== *)
theory Sdk
  imports Contracts Model_Step
begin

text \<open>
  The feature-facing facade (\<open>sdk.py\<close>): the task policy, the context a workflow handler works
  with, its identities, the activities and inference commands with their deadlines, the outcome
  wrappers, the checkpointed model step and the rollover. The workflow engine (Temporal) is not
  under \<open>src/\<close>: the instants it shows and the ends of its commands are arguments.
\<close>

section \<open>Errors\<close>

text \<open>The cause of an \<open>ActivityError\<close>; \<open>Cause_application\<close> is an \<open>ApplicationError\<close>, type and message.\<close>

datatype act_cause =
    Cause_application string string
  | Cause_timeout
  | Cause_cancelled
  | Cause_other

datatype sdk_error =
    Value_error string
  | Deadline_exceeded string          \<comment> \<open>\<open>OperationDeadlineExceeded\<close>\<close>
  | Activity_error act_cause
  | Sdk_raises string

section \<open>Policy and context\<close>

record task_policy =
  tp_max_iterations :: int
  tp_deadline_seconds :: int
  tp_child_window :: int
  tp_max_rollovers :: int

definition valid_policy :: "task_policy \<Rightarrow> bool" where
  "valid_policy p \<longleftrightarrow> \<not> (tp_max_iterations p \<le> 0 \<or> tp_deadline_seconds p \<le> 0 \<or>
     \<not> (1 \<le> tp_child_window p \<and> tp_child_window p \<le> 64) \<or> \<not> (0 \<le> tp_max_rollovers p \<and> tp_max_rollovers p \<le> 1000))"

text \<open>The envelope a workflow starts from; the optional fields may be missing.\<close>

record envelope =
  en_root_id :: string
  en_tenant_id :: string
  en_configuration :: "artifact option"
  en_child_path :: "json option"
  en_deadline :: py_datetime
  en_started_at :: "py_datetime option"
  en_control_queue :: string
  en_rollovers :: "json option"
  en_pending_events :: "(string \<times> json) list"
  en_input :: json

record task_context =
  cx_root_id :: string
  cx_tenant_id :: string
  cx_configuration :: "artifact option"
  cx_path :: "string list"
  cx_deadline :: int
  cx_policy :: task_policy
  cx_control_queue :: string
  cx_task_queue :: string
  cx_started_at :: int
  cx_rollovers :: int
  cx_active :: nat
  cx_events :: "(string \<times> json) list"

definition path_of :: "json option \<Rightarrow> string list option" where
  "path_of j = (case j of
     None \<Rightarrow> Some []
   | Some (JList l) \<Rightarrow>
       (if length l \<le> 64 \<and> list_all nonempty_string l then Some (map (the \<circ> as_string) l) else None)
   | Some _ \<Rightarrow> None)"

definition rollovers_of :: "task_policy \<Rightarrow> json option \<Rightarrow> int option" where
  "rollovers_of p j = (case (case j of None \<Rightarrow> Some 0 | Some x \<Rightarrow> plain_int x) of
     None \<Rightarrow> None
   | Some n \<Rightarrow> (if 0 \<le> n \<and> n \<le> tp_max_rollovers p then Some n else None))"

text \<open>
  \<open>TaskContext.__init__\<close> and the events \<open>run\<close> hands over; \<open>start\<close> and \<open>queue\<close> are the workflow's.
\<close>

definition open_context :: "task_policy \<Rightarrow> int \<Rightarrow> string \<Rightarrow> envelope \<Rightarrow> sdk_error + task_context" where
  "open_context policy start queue e =
     (if \<not> opt_all valid_artifact (en_configuration e) then Inl (Value_error ''configuration'')
      else case path_of (en_child_path e) of
        None \<Rightarrow> Inl (Value_error ''child path'')
      | Some path \<Rightarrow>
     (case (en_deadline e, (case en_started_at e of None \<Rightarrow> Aware start | Some t \<Rightarrow> t)) of
        (Aware deadline, Aware started) \<Rightarrow>
          (case rollovers_of policy (en_rollovers e) of
             None \<Rightarrow> Inl (Value_error ''invalid workflow rollover count'')
           | Some n \<Rightarrow> Inr
               \<lparr>cx_root_id = en_root_id e, cx_tenant_id = en_tenant_id e, cx_configuration = en_configuration e,
                cx_path = path, cx_deadline = min deadline (started + seconds (tp_deadline_seconds policy)),
                cx_policy = policy, cx_control_queue = en_control_queue e, cx_task_queue = queue,
                cx_started_at = started, cx_rollovers = n, cx_active = 0, cx_events = en_pending_events e\<rparr>)
      | _ \<Rightarrow> Inl (Value_error ''timezone'')))"

section \<open>Identities\<close>

text \<open>
  \<open>json.dumps\<close> of strings with \<open>ensure_ascii=False\<close>: a quote, a backslash and the control
  characters are escaped. An identity is the compact dump of \<open>[root_id, path, key]\<close>, and \<open>sha\<close> of
  it names the operation.
\<close>

definition hex_digit :: "nat \<Rightarrow> char" where
  "hex_digit n = (if n < 10 then char_of (48 + n) else char_of (87 + n))"

definition escape_char :: "char \<Rightarrow> string" where
  "escape_char c =
     (if c = CHR 0x22 then [CHR 0x5C, CHR 0x22]
      else if c = CHR 0x5C then [CHR 0x5C, CHR 0x5C]
      else if of_char c < (32 :: nat)
        then (if c = CHR 0x0A then [CHR 0x5C, CHR ''n'']
              else if c = CHR 0x0D then [CHR 0x5C, CHR ''r'']
              else if c = CHR 0x09 then [CHR 0x5C, CHR ''t'']
              else if c = CHR 0x0C then [CHR 0x5C, CHR ''f'']
              else if c = CHR 0x08 then [CHR 0x5C, CHR ''b'']
              else [CHR 0x5C, CHR ''u'', CHR ''0'', CHR ''0'', hex_digit (of_char c div 16), hex_digit (of_char c mod 16)])
      else [c])"

definition dump_string :: "string \<Rightarrow> string" where
  "dump_string s = [CHR 0x22] @ concat (map escape_char s) @ [CHR 0x22]"

fun dump_strings :: "string \<Rightarrow> string list \<Rightarrow> string" where
  "dump_strings sep [] = []"
| "dump_strings sep [s] = dump_string s"
| "dump_strings sep (s # ss) = dump_string s @ sep @ dump_strings sep ss"

definition identity_text :: "string \<Rightarrow> string list \<Rightarrow> string \<Rightarrow> string" where
  "identity_text root path key =
     ''['' @ dump_string root @ '',['' @ dump_strings '','' path @ ''],'' @ dump_string key @ '']''"

definition context_key :: "(string \<Rightarrow> string) \<Rightarrow> task_context \<Rightarrow> string \<Rightarrow> sdk_error + string" where
  "context_key sha c key =
     (if key = [] \<or> 1024 < length key then Inl (Value_error ''stable operation key required'')
      else Inr (sha (identity_text (cx_root_id c) (cx_path c) key)))"

text \<open>The key of a child: the dump of \<open>[key, identity]\<close> with the default separators.\<close>

definition child_key :: "string \<Rightarrow> string \<Rightarrow> string" where
  "child_key key identity = ''['' @ dump_strings '', '' [key, identity] @ '']''"

section \<open>Activities\<close>

definition remaining :: "int \<Rightarrow> task_context \<Rightarrow> sdk_error + int" where
  "remaining now c =
     (if cx_deadline c - now \<le> 0 then Inl (Value_error ''workflow deadline exceeded'') else Inr (cx_deadline c - now))"

text \<open>The times of an activity: start to close, and schedule to close.\<close>

definition activity_times ::
    "int \<Rightarrow> task_context \<Rightarrow> int \<Rightarrow> int \<Rightarrow> py_datetime option \<Rightarrow> int option \<Rightarrow> sdk_error + int \<times> int" where
  "activity_times now c timeout_seconds max_attempts deadline heartbeat =
     (if timeout_seconds \<le> 0 \<or> \<not> (1 \<le> max_attempts \<and> max_attempts \<le> 100)
      then Inl (Value_error ''activity timeout and retry policy must be finite and positive'')
      else if (case heartbeat of Some h \<Rightarrow> h \<le> 0 | None \<Rightarrow> False)
        then Inl (Value_error ''activity timeout and retry policy must be finite and positive'')
      else case remaining now c of
          Inl e \<Rightarrow> Inl e
        | Inr left \<Rightarrow>
            (case deadline of
               None \<Rightarrow> Inr (seconds timeout_seconds, left)
             | Some (Naive _) \<Rightarrow> Inl (Value_error ''activity deadline must include timezone'')
             | Some (Aware d) \<Rightarrow>
                 (let least = min left (d - now) in
                  if least \<le> 0 then Inl (Deadline_exceeded ''activity deadline exceeded'')
                  else Inr (min (seconds timeout_seconds) least, least))))"

text \<open>How the command ended, at a later instant.\<close>

definition command_end :: "int \<Rightarrow> int option \<Rightarrow> sdk_error + 'a \<Rightarrow> sdk_error + 'a" where
  "command_end later deadline x =
     (case x of
        Inl (Activity_error Cause_timeout) \<Rightarrow>
          (case deadline of
             Some d \<Rightarrow> (if d \<le> later then Inl (Deadline_exceeded ''activity deadline exceeded'') else x)
           | None \<Rightarrow> x)
      | _ \<Rightarrow> x)"

text \<open>An inference command; both times are the same.\<close>

definition inference_time :: "int \<Rightarrow> task_context \<Rightarrow> int option \<Rightarrow> sdk_error + int" where
  "inference_time now c deadline =
     (case remaining now c of
        Inl e \<Rightarrow> Inl e
      | Inr left \<Rightarrow>
          (case deadline of
             None \<Rightarrow> Inr left
           | Some d \<Rightarrow>
               (if min left (d - now) \<le> 0 then Inl (Deadline_exceeded ''operation deadline exceeded'')
                else Inr (min left (d - now)))))"

definition inference_end :: "int \<Rightarrow> int option \<Rightarrow> sdk_error + 'a \<Rightarrow> sdk_error + 'a" where
  "inference_end later deadline x =
     (case x of
        Inl (Activity_error (Cause_application t m)) \<Rightarrow>
          (if t = ''OperationFailed'' \<and> m = ''operation_deadline_exceeded'' then Inl (Deadline_exceeded m) else x)
      | Inl (Activity_error Cause_timeout) \<Rightarrow>
          (case deadline of
             Some d \<Rightarrow> (if d \<le> later then Inl (Deadline_exceeded ''operation deadline exceeded'') else x)
           | None \<Rightarrow> x)
      | _ \<Rightarrow> x)"

text \<open>
  The command of \<open>llm\<close>, \<open>speech\<close> and \<open>embedding\<close>: a validated operation of the context's root and
  tenant under the identity of its key. Older histories lack the timeout and the deadline, so
  an unset one is left out of the dumped command (the two flags).
\<close>

record inference_request =
  ir_payload :: artifact
  ir_model_profile :: string
  ir_expected_cost :: int
  ir_capacity_profile :: "string option"
  ir_attempt_timeout :: "int option"
  ir_deadline :: "py_datetime option"
  ir_body :: operation_body

record inference_command =
  ic_spec :: operation_spec
  ic_has_timeout :: bool
  ic_has_deadline :: bool

definition inference_spec :: "task_context \<Rightarrow> string \<Rightarrow> inference_request \<Rightarrow> int option \<Rightarrow> operation_spec" where
  "inference_spec c i q deadline =
     \<lparr>os_operation_id = i, os_root_id = cx_root_id c, os_tenant_id = cx_tenant_id c, os_payload = ir_payload q,
      os_model_profile = ir_model_profile q, os_expected_cost = ir_expected_cost q, os_max_attempts = 3,
      os_attempt_timeout = (case ir_attempt_timeout q of Some t \<Rightarrow> t | None \<Rightarrow> DEFAULT_ATTEMPT_TIMEOUT),
      os_deadline = deadline, os_capacity_profile_id = ir_capacity_profile q, os_required_capabilities = {},
      os_body = ir_body q\<rparr>"

definition make_command ::
    "(string \<Rightarrow> string) \<Rightarrow> task_context \<Rightarrow> string \<Rightarrow> inference_request \<Rightarrow> sdk_error + inference_command" where
  "make_command sha c key q =
     (case context_key sha c key of
        Inl e \<Rightarrow> Inl e
      | Inr i \<Rightarrow>
          (case (case ir_deadline q of None \<Rightarrow> Inr None | Some t \<Rightarrow> (case aware t of Inl e \<Rightarrow> Inl () | Inr d \<Rightarrow> Inr (Some d))) of
             Inl _ \<Rightarrow> Inl (Value_error ''operation deadline must include timezone'')
           | Inr deadline \<Rightarrow>
               (if \<not> valid_operation (inference_spec c i q deadline) then Inl (Value_error ''operation'')
                else Inr \<lparr>ic_spec = inference_spec c i q deadline,
                       ic_has_timeout = (body_kind (ir_body q) \<noteq> Llm \<or> ir_attempt_timeout q \<noteq> None),
                       ic_has_deadline = (ir_deadline q \<noteq> None)\<rparr>)))"

text \<open>The whole command: \<open>run\<close> is the activity, given the operation and its time, ending \<open>later\<close>.\<close>

definition infer ::
    "(string \<Rightarrow> string) \<Rightarrow> int \<Rightarrow> int \<Rightarrow> task_context \<Rightarrow> (operation_spec \<Rightarrow> int \<Rightarrow> sdk_error + json) \<Rightarrow> string \<Rightarrow>
     inference_request \<Rightarrow> sdk_error + json" where
  "infer sha now later c run key q =
     (case make_command sha c key q of
        Inl e \<Rightarrow> Inl e
      | Inr command \<Rightarrow>
          (case inference_time now c (os_deadline (ic_spec command)) of
             Inl e \<Rightarrow> Inl e
           | Inr t \<Rightarrow> inference_end later (os_deadline (ic_spec command)) (run (ic_spec command) t)))"

section \<open>Outcomes\<close>

text \<open>
  \<open>llm_outcome\<close>, \<open>speech_outcome\<close>, \<open>embedding_outcome\<close>: a terminal failure of a listed reason
  becomes an error value (\<open>Inr\<close> inside), everything else is raised on.
\<close>

definition llm_fallbacks :: "string list" where
  "llm_fallbacks = [''backend_rejected_400'', ''backend_rejected_422'', ''invalid_response'', ''max_attempts'']"

definition speech_fallbacks :: "string list" where
  "speech_fallbacks = [''speech_backend_400'', ''speech_backend_500'', ''speech_backend_503'', ''max_attempts'']"

definition embedding_fallbacks :: "string list" where
  "embedding_fallbacks = [''embedding_backend_400'', ''embedding_backend_500'', ''embedding_backend_502'',
     ''embedding_backend_503'', ''embedding_backend_504'', ''max_attempts'']"

definition fallback :: "string list \<Rightarrow> sdk_error \<Rightarrow> string option" where
  "fallback reasons e = (case e of
     Activity_error (Cause_application t m) \<Rightarrow> (if t = ''OperationFailed'' \<and> m \<in> set reasons then Some m else None)
   | _ \<Rightarrow> None)"

definition native_outcome :: "string list \<Rightarrow> sdk_error + json \<Rightarrow> sdk_error + (json + string)" where
  "native_outcome reasons x = (case x of
     Inr v \<Rightarrow> Inr (Inl v)
   | Inl e \<Rightarrow> (case fallback reasons e of Some m \<Rightarrow> Inr (Inr m) | None \<Rightarrow> Inl e))"

definition llm_outcome :: "sdk_error + json \<Rightarrow> sdk_error + (json + string)" where
  "llm_outcome x = (case x of
     Inr v \<Rightarrow> Inr (Inl v)
   | Inl e \<Rightarrow> (case fallback llm_fallbacks e of Some _ \<Rightarrow> Inr (Inr ''OperationFailed'') | None \<Rightarrow> Inl e))"

section \<open>The model step\<close>

text \<open>What the planning activity of a registered leaf answers.\<close>

datatype plan_answer = Plan_done artifact | Plan_call model_call

text \<open>
  The loop of \<open>model_step\<close>: \<open>plan\<close> is the planning activity and \<open>llm\<close> the inference at an ordinal.
  The calls made are yielded in order with the result.
\<close>

fun model_steps ::
    "(model_record list \<Rightarrow> sdk_error + plan_answer) \<Rightarrow> (nat \<Rightarrow> model_call \<Rightarrow> sdk_error + json) \<Rightarrow> nat \<Rightarrow>
     model_record list \<Rightarrow> model_call list \<times> (sdk_error + artifact)" where
  "model_steps plan llm left records =
     (case plan records of
        Inl e \<Rightarrow> ([], Inl e)
      | Inr (Plan_done a) \<Rightarrow> ([], if valid_artifact a then Inr a else Inl (Value_error ''artifact''))
      | Inr (Plan_call c) \<Rightarrow>
          (case left of
             0 \<Rightarrow> ([], Inl (Value_error ''model step call budget exhausted''))
           | Suc n \<Rightarrow>
               (case llm_outcome (llm (length records) c) of
                  Inl e \<Rightarrow> ([c], Inl e)
                | Inr out \<Rightarrow>
                    (case model_steps plan llm n (records @ [\<lparr>mr_digest = mc_digest c, mr_outcome = out\<rparr>]) of
                       (cs, r) \<Rightarrow> (c # cs, r)))))"

declare model_steps.simps [simp del]

definition model_step ::
    "(model_record list \<Rightarrow> sdk_error + plan_answer) \<Rightarrow> (nat \<Rightarrow> model_call \<Rightarrow> sdk_error + json) \<Rightarrow> json \<Rightarrow>
     model_call list \<times> (sdk_error + artifact)" where
  "model_step plan llm max_calls =
     (case plain_int max_calls of
        Some n \<Rightarrow> (if 1 \<le> n \<and> n \<le> 64 then model_steps plan llm (nat n) []
                   else ([], Inl (Value_error ''model step requires a finite call limit between 1 and 64'')))
      | None \<Rightarrow> ([], Inl (Value_error ''model step requires a finite call limit between 1 and 64'')))"

section \<open>Commands, events and rollover\<close>

text \<open>\<open>_command\<close>: the commands in flight.\<close>

definition begin_command :: "task_context \<Rightarrow> task_context" where
  "begin_command c = c\<lparr>cx_active := cx_active c + 1\<rparr>"

definition end_command :: "task_context \<Rightarrow> task_context" where
  "end_command c = c\<lparr>cx_active := cx_active c - 1\<rparr>"

text \<open>The start of a child: its envelope and the time it may take.\<close>

definition child_envelope :: "task_context \<Rightarrow> string \<Rightarrow> json \<Rightarrow> envelope" where
  "child_envelope c key inputs =
     \<lparr>en_root_id = cx_root_id c, en_tenant_id = cx_tenant_id c, en_configuration = cx_configuration c,
      en_child_path = Some (JList (map JString (cx_path c @ [key]))), en_deadline = Aware (cx_deadline c),
      en_started_at = None, en_control_queue = cx_control_queue c, en_rollovers = None, en_pending_events = [],
      en_input = inputs\<rparr>"

definition start_child ::
    "(string \<Rightarrow> string) \<Rightarrow> int \<Rightarrow> task_context \<Rightarrow> string \<Rightarrow> json \<Rightarrow> sdk_error + string \<times> envelope \<times> int" where
  "start_child sha now c key inputs =
     (if 64 \<le> length (cx_path c) then Inl (Value_error ''child workflow depth limit exceeded'')
      else case context_key sha c key of
          Inl e \<Rightarrow> Inl e
        | Inr i \<Rightarrow>
            (case remaining now c of
               Inl e \<Rightarrow> Inl e
             | Inr left \<Rightarrow> Inr (i, child_envelope c key inputs, left)))"

text \<open>\<open>sleep\<close>: the time slept; a remaining time is needed before and after.\<close>

definition sleep_time :: "int \<Rightarrow> task_context \<Rightarrow> int option \<Rightarrow> sdk_error + int" where
  "sleep_time now c duration =
     (case duration of
        None \<Rightarrow> Inl (Value_error ''sleep duration must be finite and positive'')
      | Some d \<Rightarrow>
          (if d \<le> 0 then Inl (Value_error ''sleep duration must be finite and positive'')
           else case remaining now c of Inl e \<Rightarrow> Inl e | Inr left \<Rightarrow> Inr (min d left)))"

text \<open>A signal stores an event; \<open>wait_event\<close> takes it once it is there.\<close>

definition put_event :: "string \<Rightarrow> json \<Rightarrow> (string \<times> json) list \<Rightarrow> (string \<times> json) list" where
  "put_event k v d = (if k \<in> fst ` set d then map (\<lambda>kv. if fst kv = k then (k, v) else kv) d else d @ [(k, v)])"

definition take_event :: "string \<Rightarrow> (string \<times> json) list \<Rightarrow> (json \<times> (string \<times> json) list) option" where
  "take_event k d = (case map_of d k of None \<Rightarrow> None | Some v \<Rightarrow> Some (v, filter (\<lambda>kv. fst kv \<noteq> k) d))"

text \<open>
  \<open>continue_as_new\<close>: refused while commands are in flight, when the rollovers are used up, after
  the deadline, or when the dumped envelope (of \<open>bytes\<close>) is too large.
\<close>

definition rollover_envelope :: "task_context \<Rightarrow> json \<Rightarrow> envelope" where
  "rollover_envelope c checkpoint =
     \<lparr>en_root_id = cx_root_id c, en_tenant_id = cx_tenant_id c, en_configuration = cx_configuration c,
      en_child_path = Some (JList (map JString (cx_path c))), en_deadline = Aware (cx_deadline c),
      en_started_at = Some (Aware (cx_started_at c)), en_control_queue = cx_control_queue c,
      en_rollovers = Some (JInt (cx_rollovers c + 1)), en_pending_events = cx_events c, en_input = checkpoint\<rparr>"

definition continue_as_new :: "(envelope \<Rightarrow> int) \<Rightarrow> int \<Rightarrow> task_context \<Rightarrow> json \<Rightarrow> sdk_error + envelope" where
  "continue_as_new bytes now c checkpoint =
     (if cx_active c \<noteq> 0 then Inl (Value_error ''cannot roll over while activities, children or waits are active'')
      else if tp_max_rollovers (cx_policy c) \<le> cx_rollovers c then Inl (Value_error ''workflow rollover budget exhausted'')
      else case remaining now c of
          Inl e \<Rightarrow> Inl e
        | Inr _ \<Rightarrow>
            (let e = rollover_envelope c checkpoint in
             if 64 * 1024 < bytes e then Inl (Value_error ''rollover manifest exceeds 64 KiB'') else Inr e))"

end
