(* ===== verification/Sdk_Properties.thy ===== *)
theory Sdk_Properties
  imports Sdk
begin

text \<open>
  Facts about the facade: identities never coincide, a checkpointed model step is the leaf run
  directly, a rollover keeps the context, and no command is given more time than the root has.
\<close>

section \<open>Identities\<close>

text \<open>Reading one character of a dumped string, and a whole one up to its closing quote.\<close>

definition hex_value :: "char \<Rightarrow> nat" where
  "hex_value c = (if of_char c < (58 :: nat) then of_char c - 48 else of_char c - 87)"

fun read_char :: "string \<Rightarrow> (char \<times> string) option" where
  "read_char [] = None"
| "read_char (c # s) =
     (if c \<noteq> CHR 0x5C then Some (c, s)
      else case s of
          [] \<Rightarrow> None
        | d # t \<Rightarrow>
            (if d = CHR ''u''
             then (case t of _ # _ # h # l # t' \<Rightarrow> Some (char_of (16 * hex_value h + hex_value l), t') | _ \<Rightarrow> None)
             else Some (if d = CHR ''n'' then CHR 0x0A else if d = CHR ''r'' then CHR 0x0D
                        else if d = CHR ''t'' then CHR 0x09 else if d = CHR ''f'' then CHR 0x0C
                        else if d = CHR ''b'' then CHR 0x08 else d, t)))"

lemma hex_value_digit: "n < 16 \<Longrightarrow> hex_value (hex_digit n) = n"
  by (auto simp: hex_value_def hex_digit_def)

definition named_control :: "char set" where
  "named_control = {CHR 0x0A, CHR 0x0D, CHR 0x09, CHR 0x0C, CHR 0x08}"

lemma escape_char_cases:
  obtains (quote) "c = CHR 0x22" "escape_char c = [CHR 0x5C, CHR 0x22]"
  | (backslash) "c = CHR 0x5C" "escape_char c = [CHR 0x5C, CHR 0x5C]"
  | (named) d where "c \<in> named_control" "escape_char c = [CHR 0x5C, d]"
      "(c, d) \<in> {(CHR 0x0A, CHR ''n''), (CHR 0x0D, CHR ''r''), (CHR 0x09, CHR ''t''), (CHR 0x0C, CHR ''f''), (CHR 0x08, CHR ''b'')}"
  | (control) "of_char c < (32 :: nat)"
      "escape_char c = [CHR 0x5C, CHR ''u'', CHR ''0'', CHR ''0'', hex_digit (of_char c div 16), hex_digit (of_char c mod 16)]"
  | (plain) "c \<noteq> CHR 0x22" "c \<noteq> CHR 0x5C" "escape_char c = [c]"
proof (cases "c \<in> {CHR 0x22, CHR 0x5C} \<union> named_control")
  case True
  then show ?thesis using quote backslash named by (auto simp: named_control_def escape_char_def)
next
  case False
  show ?thesis
  proof (cases "of_char c < (32 :: nat)")
    case True
    then show ?thesis using False by (intro control) (simp_all add: escape_char_def named_control_def)
  next
    case ge: False
    with False show ?thesis by (intro plain) (simp_all add: escape_char_def named_control_def)
  qed
qed

lemma read_escaped: "read_char (escape_char c @ s) = Some (c, s)"
proof (cases c rule: escape_char_cases)
  case control
  have "16 * (of_char c div 16) + of_char c mod 16 = (of_char c :: nat)" by (rule mult_div_mod_eq)
  moreover have "of_char c div 16 < (16 :: nat)" "of_char c mod 16 < (16 :: nat)" using control(1) by auto
  ultimately have "char_of (16 * hex_value (hex_digit (of_char c div 16)) + hex_value (hex_digit (of_char c mod 16))) = c"
    by (simp only: hex_value_digit char_of_char)
  then show ?thesis by (simp add: control(2))
next
  case (named d)
  then show ?thesis by auto
qed simp_all

lemma escape_no_quote: "\<exists>d t. escape_char c = d # t \<and> d \<noteq> CHR 0x22"
  by (cases c rule: escape_char_cases) simp_all

lemma escape_cancel:
  assumes "escape_char c @ s = escape_char d @ t"
  shows "c = d \<and> s = t"
proof -
  have "Some (c, s) = Some (d, t)"
    using read_escaped [of c s] read_escaped [of d t] unfolding assms by (rule trans [OF sym])
  then show ?thesis by simp
qed

lemma no_quote_first: "concat (map escape_char (c # s)) @ x \<noteq> CHR 0x22 # y"
  using escape_no_quote [of c] by fastforce

lemma quoted_cancel:
  "concat (map escape_char s) @ CHR 0x22 # x = concat (map escape_char t) @ CHR 0x22 # y \<Longrightarrow> s = t \<and> x = y"
proof (induction s arbitrary: t)
  case Nil
  show ?case
  proof (cases t)
    case (Cons d t')
    with Nil no_quote_first [of d t' "CHR 0x22 # y" x] show ?thesis by simp
  qed (use Nil in simp)
next
  case (Cons c s)
  show ?case
  proof (cases t)
    case Nil
    with Cons.prems no_quote_first [of c s "CHR 0x22 # x" y] show ?thesis by simp
  next
    case (Cons d t')
    with Cons.prems have "escape_char c @ (concat (map escape_char s) @ CHR 0x22 # x) =
        escape_char d @ (concat (map escape_char t') @ CHR 0x22 # y)" by simp
    from escape_cancel [OF this] Cons.IH show ?thesis by (simp add: Cons)
  qed
qed

lemma dump_string_cancel: "dump_string s @ x = dump_string t @ y \<Longrightarrow> s = t \<and> x = y"
  by (rule quoted_cancel) (simp add: dump_string_def)

lemma dump_string_Cons: "\<exists>t. dump_string s = CHR 0x22 # t"
  by (simp add: dump_string_def)

lemma dump_strings_Cons: "ss \<noteq> [] \<Longrightarrow> dump_strings sep (s # ss) = dump_string s @ sep @ dump_strings sep ss"
  by (cases ss) auto

lemma dump_strings_cancel:
  "dump_strings '','' ss @ CHR '']'' # x = dump_strings '','' ts @ CHR '']'' # y \<Longrightarrow> ss = ts \<and> x = y"
proof (induction ss arbitrary: ts)
  case Nil
  then show ?case
    by (cases ts; cases "tl ts") (auto simp: dump_string_def)
next
  case (Cons s ss)
  obtain t ts' where ts: "ts = t # ts'"
    using Cons.prems dump_string_Cons [of s] by (cases ts; cases ss) auto
  show ?case
  proof (cases "ss = [] \<or> ts' = []")
    case True
    have "dump_string s @ (if ss = [] then CHR '']'' # x else '','' @ dump_strings '','' ss @ CHR '']'' # x) =
        dump_string t @ (if ts' = [] then CHR '']'' # y else '','' @ dump_strings '','' ts' @ CHR '']'' # y)"
      using Cons.prems by (cases ss; cases ts') (simp_all add: ts)
    from dump_string_cancel [OF this] True show ?thesis by (auto simp: ts split: if_splits)
  next
    case False
    with Cons.prems have "dump_string s @ (CHR '','' # dump_strings '','' ss @ CHR '']'' # x) =
        dump_string t @ (CHR '','' # dump_strings '','' ts' @ CHR '']'' # y)"
      by (simp add: ts dump_strings_Cons)
    from dump_string_cancel [OF this] Cons.IH show ?thesis by (auto simp: ts)
  qed
qed

text \<open>Stable identities do not coincide: the text that is hashed into the identity of an operation or a
child determines the root, the path of the workflow and the key, whatever characters they hold.\<close>

theorem identity_text_injective:
  "identity_text root path key = identity_text root' path' key' \<longleftrightarrow> root = root' \<and> path = path' \<and> key = key'"
proof
  assume "identity_text root path key = identity_text root' path' key'"
  then have 1: "dump_string root @ (CHR '','' # CHR ''['' # dump_strings '','' path @ CHR '']'' # CHR '','' # dump_string key @ '']'') =
      dump_string root' @ (CHR '','' # CHR ''['' # dump_strings '','' path' @ CHR '']'' # CHR '','' # dump_string key' @ '']'')"
    by (simp add: identity_text_def)
  from dump_string_cancel [OF 1] have 2: "root = root'"
    "dump_strings '','' path @ CHR '']'' # CHR '','' # dump_string key @ '']'' =
     dump_strings '','' path' @ CHR '']'' # CHR '','' # dump_string key' @ '']''" by auto
  from dump_strings_cancel [OF 2(2)] have 3: "path = path'" "dump_string key @ '']'' = dump_string key' @ '']''" by auto
  from dump_string_cancel [OF 3(2)] 2(1) 3(1) show "root = root' \<and> path = path' \<and> key = key'" by simp
qed simp

section \<open>The model step\<close>

text \<open>The planning activity of a leaf: it stores the result and answers with the reference.\<close>

definition plans :: "(json \<Rightarrow> int \<Rightarrow> string) \<Rightarrow> (json \<Rightarrow> artifact) \<Rightarrow> leaf \<Rightarrow> model_record list \<Rightarrow> sdk_error + plan_answer" where
  "plans sha put b records = (case plan_model_step sha b records of
     Step_done v \<Rightarrow> Inr (Plan_done (put v))
   | Step_call c \<Rightarrow> Inr (Plan_call c)
   | Step_raises e \<Rightarrow> Inl (Activity_error Cause_other))"

text \<open>The inference commands answer as \<open>model\<close> does.\<close>

definition serves :: "(nat \<Rightarrow> model_call \<Rightarrow> sdk_error + json) \<Rightarrow> (nat \<Rightarrow> json \<Rightarrow> int \<Rightarrow> json + string) \<Rightarrow> bool" where
  "serves llm model \<longleftrightarrow> (\<forall>i c. llm_outcome (llm i c) = Inr (model i (mc_payload c) (mc_max_tokens c)))"

definition step_result :: "(json \<Rightarrow> artifact) \<Rightarrow> leaf_raise + json \<Rightarrow> sdk_error + artifact" where
  "step_result put e = (case e of Inl _ \<Rightarrow> Inl (Activity_error Cause_other)
     | Inr v \<Rightarrow> if json_finite v then Inr (put v) else Inl (Activity_error Cause_other))"

lemma model_steps_replay:
  assumes "pure_leaf b" "serves llm model" "\<And>v. valid_artifact (put v)"
    and "j \<le> length (run_records sha model 0 b)" "left = limit - j" "j \<le> limit"
  shows "model_steps (plans sha put b) llm left (take j (run_records sha model 0 b)) =
    (map (\<lambda>i. the (run_call sha model 0 b i)) [j..<min limit (length (run_records sha model 0 b))],
     if length (run_records sha model 0 b) \<le> limit then step_result put (snd (run_direct model 0 b))
     else Inl (Value_error ''model step call budget exhausted''))"
  using assms(4-6)
proof (induction left arbitrary: j)
  let ?R = "run_records sha model 0 b"
  {
    case 0
    then have j: "j = limit" by simp
    show ?case
    proof (cases "j < length ?R")
      case True
      then show ?thesis using plan_replays [OF assms(1) 0(1)] j
        by (simp add: model_steps.simps plans_def)
    next
      case False
      then show ?thesis using plan_replays [OF assms(1) 0(1)] j 0(1) assms(3)
        by (auto simp: model_steps.simps plans_def step_end_def step_result_def json_copy_def split: sum.split)
    qed
  next
    case (Suc n)
    show ?case
    proof (cases "j < length ?R")
      case False
      then show ?thesis using plan_replays [OF assms(1) Suc.prems(1)] Suc.prems assms(3)
        by (auto simp: model_steps.simps plans_def step_end_def step_result_def json_copy_def split: sum.split)
    next
      case True
      obtain c where c: "run_call sha model 0 b j = Some c" "mc_digest c = mr_digest (?R ! j)"
          "mr_outcome (?R ! j) = model (0 + j) (mc_payload c) (mc_max_tokens c)"
        using run_records_call [OF True] by blast
      have plan: "plans sha put b (take j ?R) = Inr (Plan_call c)"
        using plan_replays [OF assms(1) Suc.prems(1)] True c(1) by (simp add: plans_def)
      have out: "llm_outcome (llm (length (take j ?R)) c) = Inr (mr_outcome (?R ! j))"
        using assms(2) True c(3) by (simp add: serves_def min_absorb2)
      have "?R ! j = \<lparr>mr_digest = mc_digest c, mr_outcome = mr_outcome (?R ! j)\<rparr>" using c(2) by simp
      then have recs: "take j ?R @ [\<lparr>mr_digest = mc_digest c, mr_outcome = mr_outcome (?R ! j)\<rparr>] = take (Suc j) ?R"
        using True by (metis take_Suc_conv_app_nth)
      have IH: "model_steps (plans sha put b) llm n (take (Suc j) ?R) =
          (map (\<lambda>i. the (run_call sha model 0 b i)) [Suc j..<min limit (length ?R)],
           if length ?R \<le> limit then step_result put (snd (run_direct model 0 b))
           else Inl (Value_error ''model step call budget exhausted''))"
        by (rule Suc.IH) (use True Suc.prems in auto)
      have "[j..<min limit (length ?R)] = j # [Suc j..<min limit (length ?R)]"
        using True Suc.prems by (simp add: upt_conv_Cons)
      then show ?thesis
        by (subst model_steps.simps) (simp add: plan out [simplified] recs IH c(1))
    qed
  }
qed

text \<open>C10. A checkpointed model step computes what its leaf computes when it runs at once: replaying the leaf
over the recorded answers makes exactly the calls of the direct run, each of them once and in order,
and ends with the direct run's result; a leaf that needs more calls than allowed is stopped after
exactly that many.\<close>

theorem model_step_is_direct:
  assumes "pure_leaf b" and "serves llm model" and "\<And>v. valid_artifact (put v)" and "1 \<le> limit" and "limit \<le> 64"
  shows "model_step (plans sha put b) llm (JInt (int limit)) =
    (map (\<lambda>i. the (run_call sha model 0 b i)) [0..<min limit (length (fst (run_direct model 0 b)))],
     if length (fst (run_direct model 0 b)) \<le> limit then step_result put (snd (run_direct model 0 b))
     else Inl (Value_error ''model step call budget exhausted''))"
  using model_steps_replay [OF assms(1-3), of 0 sha limit limit] assms(4,5)
  by (simp add: model_step_def run_records_length)

section \<open>Contexts\<close>

text \<open>What opening a context establishes and every command keeps.\<close>

definition context_ok :: "task_context \<Rightarrow> bool" where
  "context_ok c \<longleftrightarrow>
     opt_all valid_artifact (cx_configuration c) \<and> length (cx_path c) \<le> 64 \<and> list_all (\<lambda>p. p \<noteq> []) (cx_path c) \<and>
     cx_deadline c \<le> cx_started_at c + seconds (tp_deadline_seconds (cx_policy c)) \<and>
     0 \<le> cx_rollovers c \<and> cx_rollovers c \<le> tp_max_rollovers (cx_policy c)"

lemma nonempty_string_some: "nonempty_string x \<Longrightarrow> the (as_string x) \<noteq> []"
  by (auto simp: nonempty_string_def split: option.splits)

lemma path_of_ok: "path_of j = Some p \<Longrightarrow> length p \<le> 64 \<and> list_all (\<lambda>x. x \<noteq> []) p"
  by (auto simp: path_of_def list.pred_map comp_def split: option.splits json.splits if_splits
      elim!: list.pred_mono_strong dest: nonempty_string_some)

lemma rollovers_of_ok: "rollovers_of p j = Some n \<Longrightarrow> 0 \<le> n \<and> n \<le> tp_max_rollovers p"
  by (auto simp: rollovers_of_def split: option.splits if_splits)

lemma open_context_fields:
  assumes "open_context policy start queue e = Inr c"
  shows "context_ok c" and "cx_policy c = policy" and "cx_task_queue c = queue" and "cx_active c = 0"
    and "\<exists>d. en_deadline e = Aware d \<and> cx_deadline c \<le> d" and "cx_root_id c = en_root_id e"
    and "path_of (en_child_path e) = Some (cx_path c)" and "cx_tenant_id c = en_tenant_id e"
  using assms
  by (auto simp: open_context_def context_ok_def dest: path_of_ok rollovers_of_ok split: if_splits option.splits py_datetime.splits)

lemma commands_keep_context: "context_ok c \<Longrightarrow> context_ok (begin_command c)" "context_ok c \<Longrightarrow> context_ok (end_command c)"
  by (simp_all add: context_ok_def begin_command_def end_command_def)

lemma path_of_dumped:
  "list_all (\<lambda>p. p \<noteq> []) ps \<Longrightarrow> length ps \<le> 64 \<Longrightarrow> path_of (Some (JList (map JString ps))) = Some ps"
  by (auto simp: path_of_def nonempty_string_def list_all_iff comp_def)

lemma continue_as_new_cases:
  assumes "continue_as_new bytes now c checkpoint = Inr e"
  shows "e = rollover_envelope c checkpoint" "cx_active c = 0" "cx_rollovers c < tp_max_rollovers (cx_policy c)"
    "now < cx_deadline c" "bytes e \<le> 64 * 1024"
  using assms by (auto simp: continue_as_new_def remaining_def Let_def split: if_splits)

text \<open>A rollover keeps the run: the context that the next execution opens from the envelope of an
accepted \<open>continue_as_new\<close> is the old one with one more rollover, so identities, deadline, start and
pending events are unchanged; the number of rollovers is bounded by the policy and none is accepted
while a command is in flight.\<close>

theorem rollover_roundtrip:
  assumes "context_ok c" and "continue_as_new bytes now c checkpoint = Inr e"
  shows "open_context (cx_policy c) start queue e =
      Inr (c\<lparr>cx_rollovers := cx_rollovers c + 1, cx_task_queue := queue, cx_active := 0\<rparr>) \<and>
    cx_active c = 0 \<and> cx_rollovers c + 1 \<le> tp_max_rollovers (cx_policy c) \<and> en_input e = checkpoint"
  using assms(1) continue_as_new_cases [OF assms(2)]
  by (auto simp: context_ok_def open_context_def rollover_envelope_def path_of_dumped rollovers_of_def min_absorb1
      task_context.splits)

section \<open>Time\<close>

lemma remaining_bound: "remaining now c = Inr t \<longleftrightarrow> now < cx_deadline c \<and> t = cx_deadline c - now"
  by (auto simp: remaining_def)

text \<open>No command outlives the run: the time given to an activity, an inference, a child or a sleep is
positive and ends by the workflow's deadline and by the command's own; a child's deadline is at
most its parent's, and its path extends the parent's by the child's key, to at most 64 components.\<close>

theorem commands_within_deadline:
  assumes "context_ok c"
  shows "(activity_times now c timeout tries deadline heartbeat = Inr (s, t) \<longrightarrow>
      0 < t \<and> now + t \<le> cx_deadline c \<and> 0 < s \<and> (\<forall>d. deadline = Some (Aware d) \<longrightarrow> s \<le> t \<and> now + t \<le> d)) \<and>
    (inference_time now c own = Inr u \<longrightarrow> 0 < u \<and> now + u \<le> cx_deadline c \<and> (\<forall>d. own = Some d \<longrightarrow> now + u \<le> d)) \<and>
    (sleep_time now c duration = Inr v \<longrightarrow> 0 < v \<and> now + v \<le> cx_deadline c) \<and>
    (start_child sha now c key inputs = Inr (name, e, w) \<and> open_context policy start queue e = Inr child \<longrightarrow>
      0 < w \<and> now + w \<le> cx_deadline c \<and> cx_deadline child \<le> cx_deadline c \<and>
      cx_path child = cx_path c @ [key] \<and> length (cx_path child) \<le> 64 \<and> cx_root_id child = cx_root_id c)"
proof (intro conjI impI)
  assume "activity_times now c timeout tries deadline heartbeat = Inr (s, t)"
  then show "0 < t" "now + t \<le> cx_deadline c" "0 < s" "\<forall>d. deadline = Some (Aware d) \<longrightarrow> s \<le> t \<and> now + t \<le> d"
    by (auto simp: activity_times_def remaining_def seconds_def Let_def split: if_splits option.splits py_datetime.splits)
next
  assume "inference_time now c own = Inr u"
  then show "0 < u" "now + u \<le> cx_deadline c" "\<forall>d. own = Some d \<longrightarrow> now + u \<le> d"
    by (auto simp: inference_time_def remaining_def split: if_splits option.splits)
next
  assume "sleep_time now c duration = Inr v"
  then show "0 < v" "now + v \<le> cx_deadline c"
    by (auto simp: sleep_time_def remaining_def split: if_splits option.splits)
next
  assume *: "start_child sha now c key inputs = Inr (name, e, w) \<and> open_context policy start queue e = Inr child"
  then have e: "e = child_envelope c key inputs" and w: "now < cx_deadline c" "w = cx_deadline c - now"
      and key: "key \<noteq> []" and len: "length (cx_path c) < 64"
    by (auto simp: start_child_def context_key_def remaining_def split: if_splits)
  from w show "0 < w" "now + w \<le> cx_deadline c" by auto
  note child = open_context_fields [OF conjunct2 [OF *]]
  show "cx_deadline child \<le> cx_deadline c" using child(5) by (simp add: e child_envelope_def)
  have "path_of (en_child_path e) = Some (cx_path c @ [key])"
    unfolding e child_envelope_def envelope.simps
    by (rule path_of_dumped) (use assms key len in \<open>auto simp: context_ok_def\<close>)
  with child(7) show path: "cx_path child = cx_path c @ [key]" by simp
  show "length (cx_path child) \<le> 64" using len by (simp add: path)
  show "cx_root_id child = cx_root_id c" using child(6) by (simp add: e child_envelope_def)
qed

end
