(* ===== verification/Sdk_Children.thy ===== *)
theory Sdk_Children
  imports Sdk
begin

text \<open>
  Fan-out over child workflows (\<open>TaskContext.map_children\<close> and \<open>_rolling_children\<close> of
  \<open>sdk.py\<close>). \<open>ends i\<close> is how the child of item \<open>i\<close> ends; the order in which children end is
  given as the sets of children found done after each wait. A dict of pending tasks is the list
  of its ordinals in insertion order.
\<close>

section \<open>Rolling children\<close>

record rolling =
  ro_cursor :: nat
  ro_pending :: "nat list"
  ro_results :: "json option list"
  ro_started :: "nat list"       \<comment> \<open>every child created so far, in order\<close>

definition rolling_start :: "nat \<Rightarrow> rolling" where
  "rolling_start n = \<lparr>ro_cursor = 0, ro_pending = [], ro_results = replicate n None, ro_started = []\<rparr>"

text \<open>The inner loop that refills the window.\<close>

definition refill :: "nat \<Rightarrow> nat \<Rightarrow> rolling \<Rightarrow> rolling" where
  "refill n limit s =
     (let k = min (n - ro_cursor s) (limit - length (ro_pending s)); new = [ro_cursor s..<ro_cursor s + k] in
      s\<lparr>ro_cursor := ro_cursor s + k, ro_pending := ro_pending s @ new, ro_started := ro_started s @ new\<rparr>)"

text \<open>
  The harvest after a wait, over the pending children in order: a done child's result is stored
  and the child leaves; the first failure is raised, with the children still pending.
\<close>

fun harvest :: "(nat \<Rightarrow> 'e + json) \<Rightarrow> nat list \<Rightarrow> nat list \<Rightarrow> nat list \<Rightarrow> json option list \<Rightarrow> nat list \<times> json option list \<times> 'e option" where
  "harvest ends dn kept [] results = (kept, results, None)"
| "harvest ends dn kept (i # is) results =
     (if i \<in> set dn
      then (case ends i of
          Inr v \<Rightarrow> harvest ends dn kept is (results[i := Some v])
        | Inl e \<Rightarrow> (kept @ i # is, results, Some e))
      else harvest ends dn (kept @ [i]) is results)"

record 'e rolled =
  rl_state :: rolling
  rl_error :: "'e option"
  rl_cancelled :: "nat list"     \<comment> \<open>what the \<open>finally\<close> cancels and drains\<close>

text \<open>The outer loop for the waits given; nothing when they do not suffice.\<close>

fun roll :: "(nat \<Rightarrow> 'e + json) \<Rightarrow> nat \<Rightarrow> nat \<Rightarrow> nat list list \<Rightarrow> rolling \<Rightarrow> 'e rolled option" where
  "roll ends n limit waits s =
     (if ro_cursor s < n \<or> ro_pending s \<noteq> []
      then (case waits of
          [] \<Rightarrow> None
        | dn # waits' \<Rightarrow>
            (let s1 = refill n limit s in
             case harvest ends dn [] (ro_pending s1) (ro_results s1) of
               (kept, results, err) \<Rightarrow>
                 (let s2 = s1\<lparr>ro_pending := kept, ro_results := results\<rparr> in
                  case err of
                    Some e \<Rightarrow> Some \<lparr>rl_state = s2, rl_error = Some e, rl_cancelled = kept\<rparr>
                  | None \<Rightarrow> roll ends n limit waits' s2)))
      else Some \<lparr>rl_state = s, rl_error = None, rl_cancelled = []\<rparr>)"

declare roll.simps [simp del]

section \<open>Batches\<close>

text \<open>
  The schedule of histories recorded before the rolling one: a window is started, gathered, then
  the next. \<open>gather\<close> raises the failure that came first, which \<open>first\<close> picks.
\<close>

definition gather :: "(nat \<Rightarrow> 'e + json) \<Rightarrow> (nat list \<Rightarrow> nat) \<Rightarrow> nat list \<Rightarrow> 'e + json list" where
  "gather ends first window =
     (let failed = filter (\<lambda>i. isl (ends i)) window in
      if failed = [] then Inr (map (projr \<circ> ends) window) else Inl (projl (ends (first failed))))"

function batches :: "(nat \<Rightarrow> 'e + json) \<Rightarrow> (nat list \<Rightarrow> nat) \<Rightarrow> nat \<Rightarrow> nat \<Rightarrow> nat \<Rightarrow> json list \<Rightarrow> 'e + json list" where
  "batches ends first n limit start result =
     (if start < n \<and> 0 < limit
      then (case gather ends first [start..<min (start + limit) n] of
          Inl e \<Rightarrow> Inl e
        | Inr rs \<Rightarrow> batches ends first n limit (start + limit) (result @ rs))
      else Inr result)"
  by auto
termination by (relation "measure (\<lambda>(_, _, n, _, start, _). n - start)") auto

declare batches.simps [simp del]

section \<open>\<open>map_children\<close>\<close>

definition window_limit :: "task_policy \<Rightarrow> int option \<Rightarrow> int" where
  "window_limit p window = (case window of Some w \<Rightarrow> min w (tp_child_window p) | None \<Rightarrow> tp_child_window p)"

text \<open>\<open>Inl\<close> of an \<open>Inl\<close>: refused before any child starts. The window is a decoded argument.\<close>

definition map_children ::
    "bool \<Rightarrow> task_policy \<Rightarrow> json \<Rightarrow> string list \<Rightarrow> (nat \<Rightarrow> 'e + json) \<Rightarrow> (nat list \<Rightarrow> nat) \<Rightarrow> nat list list \<Rightarrow>
     (sdk_error + 'e + json list) option" where
  "map_children rolling_patch policy window identities ends first waits =
     (if window \<noteq> JNull \<and> positive_int window = None then Some (Inl (Value_error ''child window must be a positive integer''))
      else if \<not> distinct identities then Some (Inl (Value_error ''duplicate child identity''))
      else
        (let limit = nat (window_limit policy (positive_int window)); n = length identities in
         if rolling_patch
         then map_option (\<lambda>r. Inr (case rl_error r of Some e \<Rightarrow> Inl e | None \<Rightarrow> Inr (map the (ro_results (rl_state r)))))
                (roll ends n limit waits (rolling_start n))
         else Some (Inr (batches ends first n limit 0 []))))"

section \<open>What the loop keeps\<close>

text \<open>
  The window is respected; every started child is either pending or harvested, and then its
  result is in its place.
\<close>

definition rolling_ok :: "(nat \<Rightarrow> 'e + json) \<Rightarrow> nat \<Rightarrow> nat \<Rightarrow> rolling \<Rightarrow> bool" where
  "rolling_ok ends n limit s \<longleftrightarrow>
     ro_cursor s \<le> n \<and> ro_started s = [0..<ro_cursor s] \<and> length (ro_results s) = n \<and>
     length (ro_pending s) \<le> limit \<and> distinct (ro_pending s) \<and> set (ro_pending s) \<subseteq> {0..<ro_cursor s} \<and>
     (\<forall>i < ro_cursor s. i \<notin> set (ro_pending s) \<longrightarrow> (\<exists>v. ends i = Inr v \<and> ro_results s ! i = Some v))"

lemma rolling_ok_start: "rolling_ok ends n limit (rolling_start n)"
  by (simp add: rolling_ok_def rolling_start_def)

lemma refill_ok:
  assumes "rolling_ok ends n limit s"
  shows "rolling_ok ends n limit (refill n limit s)"
proof -
  define k where "k = min (n - ro_cursor s) (limit - length (ro_pending s))"
  have k: "ro_cursor s + k \<le> n" "length (ro_pending s) + k \<le> limit"
    using assms by (auto simp: rolling_ok_def k_def)
  have upt: "[0..<ro_cursor s] @ [ro_cursor s..<ro_cursor s + k] = [0..<ro_cursor s + k]"
    by (rule upt_add_eq_append [symmetric]) simp
  have r: "refill n limit s = s\<lparr>ro_cursor := ro_cursor s + k, ro_pending := ro_pending s @ [ro_cursor s..<ro_cursor s + k],
      ro_started := ro_started s @ [ro_cursor s..<ro_cursor s + k]\<rparr>"
    by (simp add: refill_def k_def [symmetric] Let_def)
  show ?thesis
    using assms k unfolding r rolling_ok_def by (auto simp: upt subset_eq)
qed

lemma refill_fills:
  assumes "rolling_ok ends n limit s" "ro_cursor s < n \<or> ro_pending s \<noteq> []" "0 < limit"
  shows "ro_pending (refill n limit s) \<noteq> []"
  using assms by (auto simp: rolling_ok_def refill_def Let_def)

definition harvested ::
    "(nat \<Rightarrow> 'e + json) \<Rightarrow> nat list \<Rightarrow> nat list \<Rightarrow> nat list \<Rightarrow> json option list \<Rightarrow> nat list \<times> json option list \<times> 'e option \<Rightarrow> bool" where
  "harvested ends dn kept is results out \<longleftrightarrow>
     (case out of (kept', results', err) \<Rightarrow>
        length results' = length results \<and> distinct kept' \<and> set kept' \<subseteq> set kept \<union> set is \<and> set kept \<subseteq> set kept' \<and>
        length kept' \<le> length kept + length is \<and>
        (\<forall>i. i \<notin> set is \<longrightarrow> results' ! i = results ! i) \<and>
        (\<forall>i \<in> set is. i \<notin> set kept' \<longrightarrow> (\<exists>v. ends i = Inr v \<and> results' ! i = Some v)) \<and>
        (\<forall>e. err = Some e \<longrightarrow> (\<exists>i \<in> set kept'. ends i = Inl e)) \<and>
        (err = None \<longrightarrow> set kept' = set kept \<union> (set is - set dn)))"

lemma harvest_harvested:
  assumes "distinct (kept @ is)" "\<forall>i \<in> set is. i < length results"
  shows "harvested ends dn kept is results (harvest ends dn kept is results)"
  using assms
proof (induction ends dn kept "is" results rule: harvest.induct)
  case (1 ends dn kept results)
  then show ?case by (simp add: harvested_def)
next
  case (2 ends dn kept i "is" results)
  have fresh: "i \<notin> set kept" "i \<notin> set is" "distinct (kept @ is)" using "2.prems"(1) by auto
  show ?case
  proof (cases "i \<in> set dn")
    case False
    have "harvested ends dn (kept @ [i]) is results (harvest ends dn (kept @ [i]) is results)"
      by (rule "2.IH"(2) [OF False]) (use "2.prems" fresh in auto)
    then show ?thesis using False by (auto simp: harvested_def split: prod.splits)
  next
    case dn: True
    show ?thesis
    proof (cases "ends i")
      case (Inl e)
      then show ?thesis using dn fresh "2.prems" by (auto simp: harvested_def)
    next
      case (Inr v)
      have "harvested ends dn kept is (results[i := Some v]) (harvest ends dn kept is (results[i := Some v]))"
        by (rule "2.IH"(1) [OF dn Inr]) (use "2.prems" fresh in auto)
      moreover have "i < length results" using "2.prems"(2) by simp
      ultimately show ?thesis using dn Inr fresh
        by (auto simp: harvested_def nth_list_update split: prod.splits)
    qed
  qed
qed

lemma roll_step_ok:
  assumes "rolling_ok ends n limit s" "ro_pending s \<noteq> []"
    "harvest ends dn [] (ro_pending s) (ro_results s) = (kept, results, err)"
  shows "rolling_ok ends n limit (s\<lparr>ro_pending := kept, ro_results := results\<rparr>)"
    and "err = Some e \<Longrightarrow> \<exists>i \<in> set kept. ends i = Inl e"
    and "err = None \<Longrightarrow> set (ro_pending s) \<inter> set dn \<noteq> {} \<Longrightarrow> length kept < length (ro_pending s)"
proof -
  have pre: "distinct ([] @ ro_pending s)" "\<forall>i \<in> set (ro_pending s). i < length (ro_results s)"
    using assms(1) by (auto simp: rolling_ok_def)
  from harvest_harvested [OF pre, of ends dn] have h: "harvested ends dn [] (ro_pending s) (ro_results s) (kept, results, err)"
    by (simp add: assms(3))
  show "rolling_ok ends n limit (s\<lparr>ro_pending := kept, ro_results := results\<rparr>)"
  proof -
    from assms(1) have r: "ro_cursor s \<le> n" "ro_started s = [0..<ro_cursor s]" "length (ro_results s) = n"
      "length (ro_pending s) \<le> limit" "set (ro_pending s) \<subseteq> {0..<ro_cursor s}"
      "\<And>i. i < ro_cursor s \<Longrightarrow> i \<notin> set (ro_pending s) \<Longrightarrow> \<exists>v. ends i = Inr v \<and> ro_results s ! i = Some v"
      by (simp_all add: rolling_ok_def)
    from h have k: "length results = n" "distinct kept" "set kept \<subseteq> set (ro_pending s)" "length kept \<le> length (ro_pending s)"
      "\<And>i. i \<notin> set (ro_pending s) \<Longrightarrow> results ! i = ro_results s ! i"
      "\<And>i. i \<in> set (ro_pending s) \<Longrightarrow> i \<notin> set kept \<Longrightarrow> \<exists>v. ends i = Inr v \<and> results ! i = Some v"
      by (simp_all add: harvested_def r(3))
    have "\<exists>v. ends i = Inr v \<and> results ! i = Some v" if "i < ro_cursor s" "i \<notin> set kept" for i
      using that r(6) [of i] k(5,6) [of i] by (cases "i \<in> set (ro_pending s)") simp_all
    then show ?thesis using r(1,2,4) k(1-4) subset_trans [OF k(3) r(5)] by (simp add: rolling_ok_def)
  qed
  show "err = Some e \<Longrightarrow> \<exists>i \<in> set kept. ends i = Inl e" using h by (auto simp: harvested_def)
  assume *: "err = None" "set (ro_pending s) \<inter> set dn \<noteq> {}"
  with h have "set kept \<subset> set (ro_pending s)" "distinct kept" by (auto simp: harvested_def)
  moreover have "distinct (ro_pending s)" using pre by simp
  ultimately show "length kept < length (ro_pending s)"
    by (metis distinct_card finite_set psubset_card_mono)
qed

text \<open>The states the loop goes through: at every wait, and at its end.\<close>

inductive rolls :: "(nat \<Rightarrow> 'e + json) \<Rightarrow> nat \<Rightarrow> nat \<Rightarrow> rolling \<Rightarrow> rolling \<Rightarrow> bool" for ends n limit where
  rolls_refl: "rolls ends n limit s s"
| rolls_refill: "rolls ends n limit (refill n limit s) t \<Longrightarrow> rolls ends n limit s t"
| rolls_harvest: "harvest ends dn [] (ro_pending s) (ro_results s) = (kept, results, err) \<Longrightarrow> ro_pending s \<noteq> [] \<Longrightarrow>
    rolls ends n limit (s\<lparr>ro_pending := kept, ro_results := results\<rparr>) t \<Longrightarrow> rolls ends n limit s t"

lemma rolls_ok: "rolls ends n limit s t \<Longrightarrow> rolling_ok ends n limit s \<Longrightarrow> rolling_ok ends n limit t"
  by (induction rule: rolls.induct) (auto intro: refill_ok roll_step_ok(1))

lemma roll_rolls:
  assumes "rolling_ok ends n limit s" "0 < limit" "roll ends n limit waits s = Some r"
  shows "rolls ends n limit s (rl_state r) \<and>
    (case rl_error r of
       None \<Rightarrow> ro_cursor (rl_state r) = n \<and> ro_pending (rl_state r) = [] \<and> rl_cancelled r = []
     | Some e \<Rightarrow> (\<exists>i \<in> set (rl_cancelled r). ends i = Inl e) \<and> rl_cancelled r = ro_pending (rl_state r))"
  using assms
proof (induction ends n limit waits s rule: roll.induct)
  case (1 ends n limit waits s)
  show ?case
  proof (cases "ro_cursor s < n \<or> ro_pending s \<noteq> []")
    case False
    with "1.prems" have "r = \<lparr>rl_state = s, rl_error = None, rl_cancelled = []\<rparr>"
      by (subst (asm) roll.simps) (auto split: if_splits)
    with False "1.prems"(1) show ?thesis by (auto simp: rolling_ok_def intro: rolls_refl)
  next
    case True
    with "1.prems"(3) obtain dn waits' where w: "waits = dn # waits'"
      by (subst (asm) roll.simps) (auto split: list.splits)
    define s1 where "s1 = refill n limit s"
    obtain kept results err where h: "harvest ends dn [] (ro_pending s1) (ro_results s1) = (kept, results, err)"
      by (metis prod_cases3)
    define s2 where "s2 = s1\<lparr>ro_pending := kept, ro_results := results\<rparr>"
    have ok1: "rolling_ok ends n limit s1" unfolding s1_def by (rule refill_ok [OF "1.prems"(1)])
    have ne: "ro_pending s1 \<noteq> []" unfolding s1_def by (rule refill_fills [OF "1.prems"(1) True "1.prems"(2)])
    note step = roll_step_ok [OF ok1 ne h]
    have r: "(case err of Some e \<Rightarrow> Some \<lparr>rl_state = s2, rl_error = Some e, rl_cancelled = kept\<rparr> | None \<Rightarrow> roll ends n limit waits' s2) = Some r"
      using "1.prems"(3) True w h by (subst (asm) roll.simps) (simp add: s1_def [symmetric] s2_def [symmetric] Let_def)
    have to2: "rolls ends n limit s t" if "rolls ends n limit s2 t" for t
      by (rule rolls_refill, fold s1_def, rule rolls_harvest [OF h ne], fold s2_def, rule that)
    show ?thesis
    proof (cases err)
      case (Some e)
      with r have "r = \<lparr>rl_state = s2, rl_error = Some e, rl_cancelled = kept\<rparr>" by simp
      then show ?thesis using to2 [OF rolls_refl] step(2) [OF Some] by (simp add: s2_def)
    next
      case None
      with r have r': "roll ends n limit waits' s2 = Some r" by simp
      have "rolls ends n limit s2 (rl_state r) \<and>
          (case rl_error r of
             None \<Rightarrow> ro_cursor (rl_state r) = n \<and> ro_pending (rl_state r) = [] \<and> rl_cancelled r = []
           | Some e \<Rightarrow> (\<exists>i \<in> set (rl_cancelled r). ends i = Inl e) \<and> rl_cancelled r = ro_pending (rl_state r))"
        using "1.IH" [OF True w s1_def h [symmetric] refl s2_def None step(1) [folded s2_def] "1.prems"(2) r'] .
      with to2 show ?thesis by blast
    qed
  qed
qed

section \<open>Termination\<close>

text \<open>A wait for the first completion returns with a pending child done.\<close>

fun waits_return :: "(nat \<Rightarrow> 'e + json) \<Rightarrow> nat \<Rightarrow> nat \<Rightarrow> nat list list \<Rightarrow> rolling \<Rightarrow> bool" where
  "waits_return ends n limit [] s \<longleftrightarrow> True"
| "waits_return ends n limit (dn # waits) s \<longleftrightarrow>
     (let s1 = refill n limit s in
      ro_pending s1 = [] \<or> set (ro_pending s1) \<inter> set dn \<noteq> {} \<and>
      (case harvest ends dn [] (ro_pending s1) (ro_results s1) of
         (kept, results, _) \<Rightarrow> waits_return ends n limit waits (s1\<lparr>ro_pending := kept, ro_results := results\<rparr>)))"

definition unfinished :: "nat \<Rightarrow> rolling \<Rightarrow> nat" where
  "unfinished n s = n - ro_cursor s + length (ro_pending s)"

lemma refill_unfinished: "rolling_ok ends n limit s \<Longrightarrow> unfinished n (refill n limit s) = unfinished n s"
  by (auto simp: unfinished_def refill_def rolling_ok_def Let_def)

lemma roll_ends:
  assumes "rolling_ok ends n limit s" "0 < limit" "waits_return ends n limit waits s" "unfinished n s \<le> length waits"
  shows "\<exists>r. roll ends n limit waits s = Some r"
  using assms
proof (induction waits arbitrary: s)
  case Nil
  then have "\<not> (ro_cursor s < n \<or> ro_pending s \<noteq> [])" by (auto simp: unfinished_def)
  then show ?case by (subst roll.simps) simp
next
  case (Cons dn waits)
  show ?case
  proof (cases "ro_cursor s < n \<or> ro_pending s \<noteq> []")
    case False
    then show ?thesis by (subst roll.simps) simp
  next
    case True
    define s1 where "s1 = refill n limit s"
    obtain kept results err where h: "harvest ends dn [] (ro_pending s1) (ro_results s1) = (kept, results, err)"
      by (metis prod_cases3)
    define s2 where "s2 = s1\<lparr>ro_pending := kept, ro_results := results\<rparr>"
    have ok1: "rolling_ok ends n limit s1" unfolding s1_def by (rule refill_ok [OF Cons.prems(1)])
    have ne: "ro_pending s1 \<noteq> []" unfolding s1_def by (rule refill_fills [OF Cons.prems(1) True Cons.prems(2)])
    note step = roll_step_ok [OF ok1 ne h]
    have fair: "set (ro_pending s1) \<inter> set dn \<noteq> {}" "waits_return ends n limit waits s2"
      using Cons.prems(3) ne h by (simp_all add: s1_def [symmetric] s2_def [symmetric] Let_def)
    show ?thesis
    proof (cases err)
      case (Some e)
      then show ?thesis using True h by (subst roll.simps) (simp add: s1_def [symmetric] Let_def)
    next
      case None
      have "unfinished n s2 < unfinished n s1"
        using step(3) [OF None fair(1)] by (simp add: unfinished_def s2_def)
      then have "unfinished n s2 \<le> length waits"
        using Cons.prems(4) refill_unfinished [OF Cons.prems(1)] by (simp add: s1_def)
      from Cons.IH [OF step(1) [folded s2_def] Cons.prems(2) fair(2) this]
      show ?thesis using True h None by (subst roll.simps) (simp add: s1_def [symmetric] s2_def [symmetric] Let_def)
    qed
  qed
qed

lemma batches_succeed:
  assumes "\<forall>i < n. ends i = Inr (f i)" "0 < limit"
  shows "batches ends first n limit start result = Inr (result @ map f [start..<n])"
  using assms
proof (induction ends first n limit start result rule: batches.induct)
  case (1 ends first n limit start result)
  show ?case
  proof (cases "start < n")
    case False
    then show ?thesis by (subst batches.simps) simp
  next
    case True
    define m where "m = min (start + limit) n"
    have g: "gather ends first [start..<m] = Inr (map f [start..<m])"
      using "1.prems"(1) by (auto simp: gather_def m_def filter_empty_conv)
    have IH: "batches ends first n limit (start + limit) (result @ map f [start..<m]) =
        Inr ((result @ map f [start..<m]) @ map f [start + limit..<n])"
      using "1.IH" [OF conjI [OF True "1.prems"(2)] g [unfolded m_def] "1.prems"] by (simp add: m_def)
    have "[start..<m] @ [start + limit..<n] = [start..<n]"
      using True upt_add_eq_append [of start "start + limit" "n - (start + limit)"]
      by (cases "start + limit \<le> n") (auto simp: m_def)
    then have "map f [start..<m] @ map f [start + limit..<n] = map f [start..<n]" by (metis map_append)
    then show ?thesis
      using True "1.prems"(2) g IH by (subst batches.simps) (simp add: m_def [symmetric])
  qed
qed

section \<open>Properties\<close>

lemma roll_of_start:
  assumes "roll ends n limit waits (rolling_start n) = Some r" "0 < limit"
  shows "rolling_ok ends n limit (rl_state r)" "rolls ends n limit (rolling_start n) (rl_state r)"
    "rl_error r = None \<Longrightarrow> ro_cursor (rl_state r) = n \<and> ro_pending (rl_state r) = [] \<and> rl_cancelled r = []"
    "rl_error r = Some e \<Longrightarrow> (\<exists>i \<in> set (rl_cancelled r). ends i = Inl e) \<and> rl_cancelled r = ro_pending (rl_state r)"
  using roll_rolls [OF rolling_ok_start assms(2,1)] rolls_ok [OF _ rolling_ok_start]
  by (auto split: option.splits)

text \<open>The rolling fan-out respects its window: in every state it goes through at most \<open>limit\<close> children
are in flight and the children started are the first items, each once and in item order; when it
fails, the error is that of a started child, and every started child has either delivered its
result to its place or is cancelled and drained.\<close>

theorem rolling_window_respected:
  assumes "rolls ends n limit (rolling_start n) s" and "roll ends n limit waits (rolling_start n) = Some r" and "0 < limit"
  shows "length (ro_pending s) \<le> limit \<and> ro_started s = [0..<ro_cursor s] \<and> ro_cursor s \<le> n \<and>
    set (ro_pending s) \<subseteq> set (ro_started s) \<and>
    (\<forall>e. rl_error r = Some e \<longrightarrow> (\<exists>i \<in> set (ro_started (rl_state r)). ends i = Inl e)) \<and>
    (\<forall>i \<in> set (ro_started (rl_state r)). i \<in> set (rl_cancelled r) \<or> ro_results (rl_state r) ! i = Some (projr (ends i)))"
proof -
  have s: "rolling_ok ends n limit s" by (rule rolls_ok [OF assms(1) rolling_ok_start])
  note r = roll_of_start [OF assms(2,3)]
  have sub: "set (ro_pending (rl_state r)) \<subseteq> set (ro_started (rl_state r))"
    using r(1) by (simp add: rolling_ok_def)
  have "\<exists>i \<in> set (ro_started (rl_state r)). ends i = Inl e" if "rl_error r = Some e" for e
    using r(4) [OF that] sub by auto
  moreover have "ro_results (rl_state r) ! i = Some (projr (ends i))"
    if "i \<in> set (ro_started (rl_state r))" "i \<notin> set (rl_cancelled r)" for i
  proof -
    have "i \<notin> set (ro_pending (rl_state r))" using r(3) r(4) that(2) by (cases "rl_error r") auto
    with r(1) that(1) show ?thesis by (auto simp: rolling_ok_def)
  qed
  ultimately show ?thesis using s by (auto simp: rolling_ok_def)
qed

text \<open>C33. Both schedules of a fan-out compute the same: when every child succeeds, mapping over the items with
the rolling window and with the batches of older histories returns the children's results in
item order, in whatever order the children end; the rolling loop ends after at most one wait per item.\<close>

theorem schedules_agree:
  assumes "valid_policy policy" and "window = JNull \<or> positive_int window \<noteq> None" and "distinct identities"
    and "\<forall>i < length identities. ends i = Inr (f i)"
    and "waits_return ends (length identities) (nat (window_limit policy (positive_int window))) waits (rolling_start (length identities))"
    and "length identities \<le> length waits"
  shows "map_children patched policy window identities ends first waits = Some (Inr (Inr (map f [0..<length identities])))"
proof -
  define n where "n = length identities"
  define limit where "limit = nat (window_limit policy (positive_int window))"
  have limit: "0 < limit"
    using assms(1,2) by (auto simp: limit_def window_limit_def valid_policy_def positive_int_def split: option.splits if_splits)
  have "unfinished n (rolling_start n) \<le> length waits"
    using assms(6) by (simp add: unfinished_def rolling_start_def n_def)
  then obtain r where r: "roll ends n limit waits (rolling_start n) = Some r"
    using roll_ends [OF rolling_ok_start limit assms(5) [folded n_def limit_def]] by blast
  note end_of = roll_of_start [OF r limit]
  have none: "rl_error r = None"
  proof (rule ccontr)
    assume "rl_error r \<noteq> None"
    then obtain e where "rl_error r = Some e" by blast
    from end_of(4) [OF this] end_of(1) assms(4) show False
      by (auto simp: rolling_ok_def n_def)
  qed
  have "ro_results (rl_state r) ! i = Some (f i)" if "i < n" for i
    using end_of(1) end_of(3) [OF none] that assms(4) by (auto simp: rolling_ok_def n_def)
  then have "map the (ro_results (rl_state r)) = map f [0..<n]"
    using end_of(1) by (intro nth_equalityI) (auto simp: rolling_ok_def)
  moreover have "batches ends first n limit 0 [] = Inr (map f [0..<n])"
    using batches_succeed [of n ends f limit first 0 "[]"] assms(4) limit by (simp add: n_def)
  ultimately show ?thesis
    using assms(2,3) r none by (auto simp: map_children_def n_def [symmetric] limit_def [symmetric] Let_def)
qed

end
