(* ===== verification/Sdk_Task.thy ===== *)
theory Sdk_Task
  imports Sdk
begin

text \<open>
  The end of a durable task (\<open>durable_task\<close> in \<open>sdk.py\<close>): the chain of an exception's causes,
  the public reason, and what the workflow reports to the ledger. Exceptions live in a store,
  a cause is an index into it, so that a chain may have a cycle as Python's may.
\<close>

section \<open>Exceptions\<close>

text \<open>\<open>Application_error\<close> has a type (empty: none) and a message; \<open>Exc_class\<close> is any other class.\<close>

datatype exc_class =
    Application_error string string
  | Temporal_cancelled
  | Asyncio_cancelled
  | Exc_class string

record exc =
  ex_class :: exc_class
  ex_cause :: "nat option"

function chain_from :: "exc list \<Rightarrow> nat list \<Rightarrow> nat option \<Rightarrow> nat list" where
  "chain_from E seen None = []"
| "chain_from E seen (Some i) =
     (if i \<in> set seen \<or> length E \<le> i then [] else i # chain_from E (i # seen) (ex_cause (E ! i)))"
  by pat_completeness auto
termination
proof (relation "measure (\<lambda>(E, seen, _). card ({0..<length E} - set seen))")
  fix E :: "exc list" and seen i
  assume "\<not> (i \<in> set seen \<or> length E \<le> i)"
  then have "card ({0..<length E} - set seen - {i}) < card ({0..<length E} - set seen)"
    by (intro card_Diff1_less) auto
  then show "((E, i # seen, ex_cause (E ! i)), E, seen, Some i) \<in> measure (\<lambda>(E, seen, _). card ({0..<length E} - set seen))"
    by (simp add: Diff_insert [of "{0..<length E}" i "set seen"] del: card_Diff_insert)
qed auto

definition exception_chain :: "exc list \<Rightarrow> nat \<Rightarrow> nat list" where
  "exception_chain E i = chain_from E [] (Some i)"

definition is_cancellation :: "exc list \<Rightarrow> nat \<Rightarrow> bool" where
  "is_cancellation E i \<longleftrightarrow> list_ex (\<lambda>j. ex_class (E ! j) \<in> {Temporal_cancelled, Asyncio_cancelled}) (exception_chain E i)"

definition wrapper_types :: "string list" where
  "wrapper_types = [''ActivityError'', ''ChildWorkflowError'']"

fun class_name :: "exc_class \<Rightarrow> string" where
  "class_name (Application_error _ _) = ''ApplicationError''"
| "class_name Temporal_cancelled = ''CancelledError''"
| "class_name Asyncio_cancelled = ''CancelledError''"
| "class_name (Exc_class n) = n"

text \<open>The reason one exception of the chain gives, if any.\<close>

definition item_reason :: "exc_class \<Rightarrow> string option" where
  "item_reason c = (case c of
     Application_error t m \<Rightarrow>
       (if t = ''OperationFailed'' \<and> m \<noteq> [] \<and> m \<noteq> ''feature failed'' then Some m
        else if m = ''feature failed'' then None
        else if t \<noteq> [] \<and> t \<notin> set wrapper_types then Some t
        else None)
   | _ \<Rightarrow> (if class_name c \<notin> set wrapper_types then Some (class_name c) else None))"

fun first_reason :: "exc_class list \<Rightarrow> string option" where
  "first_reason [] = None"
| "first_reason (c # cs) = (case item_reason c of Some r \<Rightarrow> Some r | None \<Rightarrow> first_reason cs)"

definition terminal_reason :: "exc list \<Rightarrow> nat \<Rightarrow> string" where
  "terminal_reason E i =
     (case first_reason (map (\<lambda>j. ex_class (E ! j)) (rev (exception_chain E i))) of
        Some r \<Rightarrow> r
      | None \<Rightarrow> class_name (ex_class (E ! i)))"

section \<open>The task\<close>

text \<open>How a handler ends: an \<open>Exception\<close> is an index into the store; anything else leaves the task.\<close>

datatype task_handler = Handler_returns json | Handler_raises nat | Handler_leaves

text \<open>\<open>finish_partial\<close>, and the handing over of events that arrived before \<open>run\<close>.\<close>

definition finish_partial :: "json \<Rightarrow> string \<Rightarrow> sdk_error + json" where
  "finish_partial result reason =
     (if reason = [] then Inl (Value_error ''partial result requires a reason'')
      else Inr (JDict [(''run_status'', JString ''PARTIAL''), (''terminal_reason'', JString reason), (''result'', result)]))"

definition merge_events :: "(string \<times> json) list \<Rightarrow> (string \<times> json) list \<Rightarrow> (string \<times> json) list" where
  "merge_events carried early = foldl (\<lambda>d (k, v). put_event k v d) carried early"

record finish_call =
  fc_state :: string
  fc_result :: "artifact option"
  fc_reason :: json

datatype task_end =
    Task_returns json
  | Task_cancelled_again           \<comment> \<open>the cancellation is raised on\<close>
  | Task_fails string              \<comment> \<open>\<open>ApplicationError("feature failed", type=reason)\<close>\<close>
  | Task_leaves

text \<open>The result of a handler: its state and artifact, or the class of the exception.\<close>

definition result_artifact :: "(json \<Rightarrow> artifact option) \<Rightarrow> json \<Rightarrow> string + string \<times> artifact" where
  "result_artifact artifact_of result =
     (let part = is_dict result \<and> jget ''run_status'' result = JString ''PARTIAL'' in
      if part \<and> \<not> jhas ''result'' result then Inl ''KeyError''
      else case artifact_of (if part then jget ''result'' result else result) of
          None \<Rightarrow> Inl ''ValidationError''
        | Some a \<Rightarrow> Inr (if part then ''PARTIAL'' else ''SUCCEEDED'', a))"

definition failed_task :: "string list \<Rightarrow> bool \<Rightarrow> string \<Rightarrow> finish_call list \<times> task_end" where
  "failed_task path cancelled why =
     (let reason = (if cancelled then ''user_cancelled'' else why) in
      (if path = []
       then [\<lparr>fc_state = (if cancelled then ''CANCELLED'' else ''FAILED''), fc_result = None, fc_reason = JString reason\<rparr>]
       else [],
       if cancelled then Task_cancelled_again else Task_fails reason))"

definition run_task :: "(json \<Rightarrow> artifact option) \<Rightarrow> exc list \<Rightarrow> string list \<Rightarrow> task_handler \<Rightarrow> finish_call list \<times> task_end" where
  "run_task artifact_of E path h =
     (case h of
        Handler_leaves \<Rightarrow> ([], Task_leaves)
      | Handler_raises i \<Rightarrow> failed_task path (is_cancellation E i) (terminal_reason E i)
      | Handler_returns result \<Rightarrow>
          (case result_artifact artifact_of result of
             Inl name \<Rightarrow> failed_task path False name
           | Inr (state, a) \<Rightarrow>
               (if path = []
                then [\<lparr>fc_state = state, fc_result = Some a,
                       fc_reason = (if state = ''PARTIAL'' then jget ''terminal_reason'' result else JNull)\<rparr>]
                else [], Task_returns result)))"

section \<open>Chains\<close>

text \<open>Every cause is an index of the store.\<close>

definition causes_stored :: "exc list \<Rightarrow> bool" where
  "causes_stored E \<longleftrightarrow> list_all (\<lambda>e. case ex_cause e of Some j \<Rightarrow> j < length E | None \<Rightarrow> True) E"

lemma causes_storedD: "causes_stored E \<Longrightarrow> i < length E \<Longrightarrow> ex_cause (E ! i) = Some j \<Longrightarrow> j < length E"
  unfolding causes_stored_def by (auto simp: list_all_length split: option.splits dest!: spec)

lemma chain_within: "set (chain_from E seen i) \<subseteq> {0..<length E} - set seen"
  by (induction E seen i rule: chain_from.induct) auto

lemma chain_distinct: "distinct (chain_from E seen i)"
proof (induction E seen i rule: chain_from.induct)
  case (2 E seen i)
  then show ?case using chain_within [of E "i # seen" "ex_cause (E ! i)"] by auto
qed simp

text \<open>More exceptions do not change the chain of a stored one, nor does marking unrelated ones as seen.\<close>

lemma chain_extend:
  assumes "causes_stored E" "\<And>j. i = Some j \<Longrightarrow> j < length E" "\<forall>k \<in> set new. length E \<le> k"
  shows "chain_from (E @ F) (seen @ new) i = chain_from E seen i"
  using assms
proof (induction E seen i rule: chain_from.induct)
  case (2 E seen i)
  have i: "i < length E" by (rule "2.prems"(2)) simp
  show ?case
  proof (cases "i \<in> set seen")
    case True
    then show ?thesis by simp
  next
    case False
    have "i \<notin> set new" using i "2.prems"(3) by auto
    then show ?thesis
      using "2.IH" [OF _ "2.prems"(1) causes_storedD [OF "2.prems"(1) i] "2.prems"(3)] False i
      by (simp add: nth_append)
  qed
qed simp

text \<open>The exception a parent workflow catches for a child that failed: two wrappers around the child's.\<close>

definition as_child_failure :: "exc list \<Rightarrow> nat \<Rightarrow> exc list \<times> nat" where
  "as_child_failure E i =
     (E @ [\<lparr>ex_class = Application_error (terminal_reason E i) ''feature failed'', ex_cause = Some i\<rparr>,
           \<lparr>ex_class = Exc_class ''ChildWorkflowError'', ex_cause = Some (length E)\<rparr>], length E + 1)"

lemma chain_next:
  "i < length E \<Longrightarrow> i \<notin> set seen \<Longrightarrow> ex_cause (E ! i) = c \<Longrightarrow> chain_from E seen (Some i) = i # chain_from E (i # seen) c"
  by auto

lemma child_failure_chain:
  assumes "causes_stored E" "i < length E"
  shows "exception_chain (fst (as_child_failure E i)) (snd (as_child_failure E i)) =
    [length E + 1, length E] @ exception_chain E i"
proof -
  define F where "F = [\<lparr>ex_class = Application_error (terminal_reason E i) ''feature failed'', ex_cause = Some i\<rparr>,
           \<lparr>ex_class = Exc_class ''ChildWorkflowError'', ex_cause = Some (length E)\<rparr>]"
  have causes: "ex_cause ((E @ F) ! (length E + 1)) = Some (length E)" "ex_cause ((E @ F) ! length E) = Some i"
      "length (E @ F) = length E + 2" by (simp_all add: F_def nth_append)
  have "chain_from (E @ F) [] (Some (length E + 1)) = (length E + 1) # chain_from (E @ F) [length E + 1] (Some (length E))"
    by (rule chain_next) (simp_all only: causes list.set, simp_all)
  moreover have "chain_from (E @ F) [length E + 1] (Some (length E)) = length E # chain_from (E @ F) [length E, length E + 1] (Some i)"
    by (rule chain_next) (simp_all only: causes list.set, simp_all)
  moreover have "chain_from (E @ F) ([] @ [length E, length E + 1]) (Some i) = chain_from E [] (Some i)"
    by (rule chain_extend [OF assms(1)]) (use assms(2) in auto)
  ultimately show ?thesis
    by (simp only: as_child_failure_def F_def [symmetric] exception_chain_def fst_conv snd_conv append_Nil append_Cons)
qed

lemma first_reason_append: "first_reason (xs @ ys) = (case first_reason xs of Some r \<Rightarrow> Some r | None \<Rightarrow> first_reason ys)"
  by (induction xs) (auto split: option.split)

text \<open>The end of a task is reported once and truthfully: only the root workflow reports, with exactly one
call, which says succeeded or partial only with a valid result artifact, cancelled exactly when the
handler's exception is or wraps a cancellation, and failed with the reason otherwise; when a child
fails, its parent's exception gives the same reason and the same cancellation verdict as the
child's own, through every layer of wrapping, and the search for it ends even on cyclic causes.\<close>

theorem task_end_reported:
  assumes "causes_stored E" and "i < length E"
    and "list_ex (\<lambda>j. item_reason (ex_class (E ! j)) \<noteq> None) (exception_chain E i)"
  shows "terminal_reason (fst (as_child_failure E i)) (snd (as_child_failure E i)) = terminal_reason E i \<and>
    is_cancellation (fst (as_child_failure E i)) (snd (as_child_failure E i)) = is_cancellation E i \<and>
    fst (run_task artifact_of E [] (Handler_raises i)) =
      [\<lparr>fc_state = (if is_cancellation E i then ''CANCELLED'' else ''FAILED''), fc_result = None,
        fc_reason = JString (if is_cancellation E i then ''user_cancelled'' else terminal_reason E i)\<rparr>] \<and>
    (\<forall>p ps h. fst (run_task artifact_of E (p # ps) h) = []) \<and>
    (\<forall>v c. fst (run_task artifact_of E [] (Handler_returns v)) = c \<longrightarrow>
       length c = 1 \<and> (fc_result (hd c) = None \<longleftrightarrow> fc_state (hd c) = ''FAILED'') \<and>
       (fc_state (hd c) \<noteq> ''FAILED'' \<longrightarrow> fc_state (hd c) \<in> {''SUCCEEDED'', ''PARTIAL''} \<and>
          snd (run_task artifact_of E [] (Handler_returns v)) = Task_returns v))"
proof (intro conjI)
  let ?E = "fst (as_child_failure E i)"
  have chain: "exception_chain ?E (snd (as_child_failure E i)) = [length E + 1, length E] @ exception_chain E i"
    by (rule child_failure_chain [OF assms(1,2)])
  have inner: "map (\<lambda>j. ex_class (?E ! j)) (exception_chain E i) = map (\<lambda>j. ex_class (E ! j)) (exception_chain E i)"
    using chain_within [of E "[]" "Some i"] by (auto simp: as_child_failure_def exception_chain_def nth_append)
  have two: "ex_class (?E ! (length E + 1)) = Exc_class ''ChildWorkflowError''"
      "ex_class (?E ! length E) = Application_error (terminal_reason E i) ''feature failed''"
    by (simp_all add: as_child_failure_def nth_append)
  have found: "first_reason (map f xs) \<noteq> None" if "list_ex (\<lambda>j. item_reason (f j) \<noteq> None) xs" for f :: "nat \<Rightarrow> exc_class" and xs
    using that by (induction xs) (auto split: option.split)
  have "list_ex (\<lambda>j. item_reason (ex_class (E ! j)) \<noteq> None) (rev (exception_chain E i))"
    using assms(3) by (simp add: list_ex_iff)
  from found [OF this] obtain r where r: "first_reason (rev (map (\<lambda>j. ex_class (E ! j)) (exception_chain E i))) = Some r"
    by (auto simp: rev_map)
  then show "terminal_reason ?E (snd (as_child_failure E i)) = terminal_reason E i"
    by (simp add: terminal_reason_def chain rev_map [symmetric] inner first_reason_append)
  have "list_ex (\<lambda>j. P (ex_class (?E ! j))) (exception_chain E i) = list_ex (\<lambda>j. P (ex_class (E ! j))) (exception_chain E i)" for P
    using inner by (simp add: list_ex_iff)
  then show "is_cancellation ?E (snd (as_child_failure E i)) = is_cancellation E i"
    using two by (simp add: is_cancellation_def chain)
  show "fst (run_task artifact_of E [] (Handler_raises i)) =
      [\<lparr>fc_state = (if is_cancellation E i then ''CANCELLED'' else ''FAILED''), fc_result = None,
        fc_reason = JString (if is_cancellation E i then ''user_cancelled'' else terminal_reason E i)\<rparr>]"
    by (simp add: run_task_def failed_task_def Let_def)
  show "\<forall>p ps h. fst (run_task artifact_of E (p # ps) h) = []"
    by (auto simp: run_task_def failed_task_def Let_def split: task_handler.split sum.split)
  show "\<forall>v c. fst (run_task artifact_of E [] (Handler_returns v)) = c \<longrightarrow>
       length c = 1 \<and> (fc_result (hd c) = None \<longleftrightarrow> fc_state (hd c) = ''FAILED'') \<and>
       (fc_state (hd c) \<noteq> ''FAILED'' \<longrightarrow> fc_state (hd c) \<in> {''SUCCEEDED'', ''PARTIAL''} \<and>
          snd (run_task artifact_of E [] (Handler_returns v)) = Task_returns v)"
    by (auto simp: run_task_def failed_task_def result_artifact_def Let_def split: option.split)
qed

end
