(* ===== verification/Sdk_Demo.thy ===== *)
theory Sdk_Demo
  imports Ledger_Demo Sdk_Properties Sdk_Children Sdk_Task
begin

text \<open>Concrete leaves, contexts, fan-outs and failures at which the properties of the facade apply.\<close>

section \<open>A leaf with one repair\<close>

definition demo_payload :: "string \<Rightarrow> json" where
  "demo_payload s = JDict [(''messages'', JString s)]"

definition suspends :: "(port_answer \<Rightarrow> leaf) \<Rightarrow> port_answer \<Rightarrow> leaf" where
  "suspends k a = (case a of Port_raises Awaits_call \<Rightarrow> Leaf_fails Awaits_call | _ \<Rightarrow> k a)"

text \<open>It asks once, and again with a repair when the first answer is an error.\<close>

definition demo_leaf :: leaf where
  "demo_leaf = Leaf_invokes True (demo_payload ''ask'') (JInt 8) (suspends (\<lambda>a. case a of
     Port_returns v \<Rightarrow> Leaf_returns JNull
   | Port_raises _ \<Rightarrow> Leaf_invokes True (demo_payload ''repair'') (JInt 8) (suspends (\<lambda>b. case b of
       Port_returns _ \<Rightarrow> Leaf_returns (JBool True) | Port_raises _ \<Rightarrow> Leaf_fails (Leaf_raises ''invalid'')))))"

definition demo_model :: "nat \<Rightarrow> json \<Rightarrow> int \<Rightarrow> json + string" where
  "demo_model i p n = (if i = 0 then Inr ''OperationFailed'' else Inl (JDict []))"

definition demo_llm :: "nat \<Rightarrow> model_call \<Rightarrow> sdk_error + json" where
  "demo_llm i c = (if i = 0 then Inl (Activity_error (Cause_application ''OperationFailed'' ''max_attempts'')) else Inr (JDict []))"

definition demo_sha :: "json \<Rightarrow> int \<Rightarrow> string" where
  "demo_sha p n = (if p = demo_payload ''ask'' then ''d1'' else ''d2'')"

lemma demo_pure: "pure_leaf demo_leaf"
  by (simp add: demo_leaf_def demo_payload_def positive_int_def suspends_def answered_def split: sum.split)

lemma demo_serves: "serves demo_llm demo_model"
  by (simp add: serves_def demo_llm_def demo_model_def llm_outcome_def fallback_def llm_fallbacks_def)

theorem model_step_is_direct_witness:
  "model_step (plans demo_sha (\<lambda>_. demo_artifact ''o'') demo_leaf) demo_llm (JInt (int 4)) =
     ([\<lparr>mc_payload = demo_payload ''ask'', mc_max_tokens = 8, mc_digest = ''d1''\<rparr>,
       \<lparr>mc_payload = demo_payload ''repair'', mc_max_tokens = 8, mc_digest = ''d2''\<rparr>], Inr (demo_artifact ''o''))"
proof -
  have runs: "run_direct demo_model 0 demo_leaf = ([Inr ''OperationFailed'', Inl (JDict [])], Inr (JBool True))"
    by (simp add: demo_leaf_def suspends_def answered_def demo_model_def Let_def)
  have calls: "run_call demo_sha demo_model 0 demo_leaf 0 = Some \<lparr>mc_payload = demo_payload ''ask'', mc_max_tokens = 8, mc_digest = ''d1''\<rparr>"
    "run_call demo_sha demo_model 0 demo_leaf 1 = Some \<lparr>mc_payload = demo_payload ''repair'', mc_max_tokens = 8, mc_digest = ''d2''\<rparr>"
    by (simp_all add: demo_leaf_def suspends_def answered_def demo_model_def positive_int_def demo_sha_def demo_payload_def Let_def)
  have "valid_artifact (demo_artifact ''o'')" by code_simp
  from model_step_is_direct [OF demo_pure demo_serves this, of 4 demo_sha]
  show ?thesis by (simp add: runs calls calls(2) [unfolded One_nat_def] step_result_def upt_rec)
qed

section \<open>Contexts\<close>

definition demo_policy :: task_policy where
  "demo_policy = \<lparr>tp_max_iterations = 10, tp_deadline_seconds = 100, tp_child_window = 2, tp_max_rollovers = 3\<rparr>"

definition demo_context :: task_context where
  "demo_context = \<lparr>cx_root_id = ''r'', cx_tenant_id = ''t'', cx_configuration = None, cx_path = [''a''], cx_deadline = 90000000,
     cx_policy = demo_policy, cx_control_queue = ''c'', cx_task_queue = ''q'', cx_started_at = 0, cx_rollovers = 1,
     cx_active = 0, cx_events = [(''k'', JInt 1)]\<rparr>"

lemma demo_context_ok: "context_ok demo_context"
  by (simp add: context_ok_def demo_context_def demo_policy_def seconds_def opt_all_def)

theorem rollover_roundtrip_witness:
  "open_context demo_policy 5 ''p'' (rollover_envelope demo_context JNull) =
     Inr (demo_context\<lparr>cx_rollovers := 2, cx_task_queue := ''p'', cx_active := 0\<rparr>)"
proof -
  have "continue_as_new (\<lambda>_. 100) 7 demo_context JNull = Inr (rollover_envelope demo_context JNull)"
    by (simp add: continue_as_new_def demo_context_def demo_policy_def remaining_def Let_def)
  from rollover_roundtrip [OF demo_context_ok this, of 5 "''p''"] show ?thesis
    by (simp add: demo_context_def)
qed

theorem commands_within_deadline_witness:
  "activity_times 0 demo_context 300 3 (Some (Aware 50)) None = Inr (50, 50) \<and> 50 \<le> cx_deadline demo_context"
proof -
  have t: "activity_times 0 demo_context 300 3 (Some (Aware 50)) None = Inr (50, 50)"
    by (simp add: activity_times_def remaining_def demo_context_def seconds_def Let_def)
  from commands_within_deadline [OF demo_context_ok, of 0 300 3 "Some (Aware 50)" None 50 50] t
  show ?thesis by simp
qed

section \<open>Fan-out\<close>

text \<open>Three items with a window of two; the second child ends first.\<close>

definition demo_ends :: "nat \<Rightarrow> string + json" where
  "demo_ends i = Inr (JInt (int i))"

definition demo_waits :: "nat list list" where
  "demo_waits = [[1], [2], [0]]"

lemma demo_rolls:
  "roll demo_ends 3 2 demo_waits (rolling_start 3) = Some
    \<lparr>rl_state = \<lparr>ro_cursor = 3, ro_pending = [], ro_results = [Some (JInt 0), Some (JInt 1), Some (JInt 2)], ro_started = [0, 1, 2]\<rparr>,
     rl_error = None, rl_cancelled = []\<rparr>"
  by code_simp

theorem schedules_agree_witness:
  "map_children True demo_policy JNull [''x'', ''y'', ''z''] demo_ends hd demo_waits =
   Some (Inr (Inr (map (\<lambda>i. JInt (int i)) [0..<length [''x'', ''y'', ''z'']])))"
proof (rule schedules_agree)
  show "waits_return demo_ends (length [''x'', ''y'', ''z'']) (nat (window_limit demo_policy (positive_int JNull))) demo_waits
      (rolling_start (length [''x'', ''y'', ''z'']))"
    by code_simp
qed (simp_all add: valid_policy_def demo_policy_def demo_ends_def demo_waits_def)

theorem rolling_window_respected_witness:
  "length (ro_pending (refill 3 2 (rolling_start 3))) \<le> 2 \<and> ro_started (refill 3 2 (rolling_start 3)) = [0..<2]"
proof -
  have "rolls demo_ends 3 2 (rolling_start 3) (refill 3 2 (rolling_start 3))" by (rule rolls_refill [OF rolls_refl])
  note respected = rolling_window_respected [OF this demo_rolls zero_less_numeral]
  have "ro_cursor (refill 3 2 (rolling_start 3)) = 2" by code_simp
  with respected [THEN conjunct1] respected [THEN conjunct2, THEN conjunct1] show ?thesis by (simp only: simp_thms)
qed

section \<open>A failed child\<close>

definition demo_excs :: "exc list" where
  "demo_excs = [\<lparr>ex_class = Exc_class ''ActivityError'', ex_cause = Some 1\<rparr>,
                \<lparr>ex_class = Application_error ''OperationFailed'' ''max_attempts'', ex_cause = Some 0\<rparr>]"

theorem task_end_reported_witness:
  "terminal_reason (fst (as_child_failure demo_excs 0)) (snd (as_child_failure demo_excs 0)) = ''max_attempts''"
proof -
  have chain: "exception_chain demo_excs 0 = [0, 1]" by (simp add: exception_chain_def demo_excs_def)
  have "terminal_reason demo_excs 0 = ''max_attempts''"
    by (simp add: terminal_reason_def chain) (simp add: demo_excs_def item_reason_def)
  moreover have "causes_stored demo_excs" by (simp add: causes_stored_def demo_excs_def)
  moreover have "list_ex (\<lambda>j. item_reason (ex_class (demo_excs ! j)) \<noteq> None) (exception_chain demo_excs 0)"
    unfolding chain by (simp add: demo_excs_def item_reason_def)
  ultimately show ?thesis
    using task_end_reported [of demo_excs 0] by (simp add: demo_excs_def)
qed

end
