(* ===== verification/Artifacts.thy ===== *)
theory Artifacts
  imports Contracts
begin

text \<open>
  The artifact adapter (\<open>artifacts.py\<close>): the spool budget, writing a file, verifying what the
  object store returns, and reading. The object store and SHA-256 are not under \<open>src/\<close>:
  \<open>store\<close> and \<open>fetch\<close> answer for the object store, with any content, and \<open>sha\<close> is the hash.
\<close>

section \<open>The spool budget\<close>

datatype artifact_error = Too_large | Integrity_error | Capacity_busy | Bad_size | Store_failed

record spool_budget =
  sb_concurrency :: int
  sb_read_limit :: int
  sb_total_limit :: int
  sb_min_free :: int
  sb_reads :: int
  sb_read_bytes :: int
  sb_total_bytes :: int

definition new_spool_budget :: "int \<Rightarrow> int \<Rightarrow> int \<Rightarrow> int \<Rightarrow> spool_budget option" where
  "new_spool_budget concurrency read_bytes total_bytes min_free =
     (if concurrency \<le> 0 \<or> read_bytes \<le> 0 \<or> total_bytes \<le> 0 \<or> min_free < 0 then None
      else Some \<lparr>sb_concurrency = concurrency, sb_read_limit = read_bytes, sb_total_limit = total_bytes,
             sb_min_free = min_free, sb_reads = 0, sb_read_bytes = 0, sb_total_bytes = 0\<rparr>)"

text \<open>\<open>reserve\<close> up to its \<open>yield\<close>, with the free bytes of the disk, and its \<open>finally\<close>.\<close>

definition reserve_spool :: "int \<Rightarrow> int \<Rightarrow> bool \<Rightarrow> spool_budget \<Rightarrow> artifact_error + spool_budget" where
  "reserve_spool available bytes reading b =
     (if bytes < 0 then Inl Bad_size
      else if sb_total_limit b < sb_total_bytes b + bytes \<or>
              reading \<and> (sb_concurrency b \<le> sb_reads b \<or> sb_read_limit b < sb_read_bytes b + bytes)
        then Inl Capacity_busy
      else if available - sb_total_bytes b - bytes < sb_min_free b then Inl Capacity_busy
      else Inr (if reading
                then b\<lparr>sb_total_bytes := sb_total_bytes b + bytes, sb_reads := sb_reads b + 1, sb_read_bytes := sb_read_bytes b + bytes\<rparr>
                else b\<lparr>sb_total_bytes := sb_total_bytes b + bytes\<rparr>))"

definition release_spool :: "int \<Rightarrow> bool \<Rightarrow> spool_budget \<Rightarrow> spool_budget" where
  "release_spool bytes reading b =
     (if reading
      then b\<lparr>sb_total_bytes := sb_total_bytes b - bytes, sb_reads := sb_reads b - 1, sb_read_bytes := sb_read_bytes b - bytes\<rparr>
      else b\<lparr>sb_total_bytes := sb_total_bytes b - bytes\<rparr>)"

section \<open>Writing\<close>

text \<open>\<open>data.read(IO_CHUNK_BYTES)\<close> until it is empty.\<close>

fun file_chunks :: "nat \<Rightarrow> string \<Rightarrow> string list" where
  "file_chunks n s = (if s = [] \<or> n = 0 then [] else take n s # file_chunks n (drop n s))"

declare file_chunks.simps [simp del]

definition io_chunk_bytes :: nat where
  "io_chunk_bytes = 64 * 1024"

definition artifact_prefix :: "(string \<Rightarrow> string) \<Rightarrow> string \<Rightarrow> string" where
  "artifact_prefix sha tenant = ''tenants/'' @ sha tenant @ ''/''"

definition artifact_of :: "(string \<Rightarrow> string) \<Rightarrow> string \<Rightarrow> string \<Rightarrow> string \<Rightarrow> artifact" where
  "artifact_of sha tenant content_type data =
     (let value = sha (concat (file_chunks io_chunk_bytes data)) in
      \<lparr>art_key = artifact_prefix sha tenant @ ''sha256/'' @ value, art_sha256 = value, art_size = int (length data),
       art_content_type = content_type\<rparr>)"

text \<open>
  \<open>_verify\<close> over the chunks of the response: what is written to the destination, or the
  integrity error as soon as it is known.
\<close>

fun verify_chunks :: "(string \<Rightarrow> string) \<Rightarrow> artifact \<Rightarrow> string \<Rightarrow> string list \<Rightarrow> artifact_error + string" where
  "verify_chunks sha a got [] =
     (if int (length got) \<noteq> art_size a \<or> sha got \<noteq> art_sha256 a then Inl Integrity_error else Inr got)"
| "verify_chunks sha a got (c # cs) =
     (if art_size a < int (length got + length c) then Inl Integrity_error else verify_chunks sha a (got @ c) cs)"

definition verify :: "(string \<Rightarrow> string) \<Rightarrow> (string \<Rightarrow> string list option) \<Rightarrow> artifact \<Rightarrow> artifact_error + string" where
  "verify sha fetch a = (case fetch (art_key a) of None \<Rightarrow> Inl Store_failed | Some cs \<Rightarrow> verify_chunks sha a [] cs)"

text \<open>
  \<open>put_file\<close>: \<open>store\<close> is \<open>put_object\<close> and yields what the bucket answers from then on, or nothing
  when it fails. \<open>put\<close> is the same with an earlier check of the same size.
\<close>

definition put_file ::
    "(string \<Rightarrow> string) \<Rightarrow> int \<Rightarrow> (string \<Rightarrow> string \<Rightarrow> (string \<Rightarrow> string list option) option) \<Rightarrow> string \<Rightarrow> string \<Rightarrow> string \<Rightarrow>
     artifact_error + (string \<Rightarrow> string list option) \<times> artifact" where
  "put_file sha max_bytes store tenant content_type data =
     (if max_bytes < int (length data) then Inl Too_large
      else
        (let a = artifact_of sha tenant content_type data in
         case store (art_key a) data of
           None \<Rightarrow> Inl Store_failed
         | Some fetch \<Rightarrow>
             (case verify sha fetch a of
                Inl e \<Rightarrow> Inl e
              | Inr _ \<Rightarrow> Inr (fetch, a))))"

section \<open>Reading\<close>

text \<open>
  \<open>open_verified\<close> with a consumer: the budget while the file is open and after, and what the
  consumer is given. \<open>get\<close> and \<open>read_to_file\<close> read all of it.
\<close>

definition open_verified ::
    "(string \<Rightarrow> string) \<Rightarrow> int \<Rightarrow> (string \<Rightarrow> string list option) \<Rightarrow> int \<Rightarrow> artifact \<Rightarrow> spool_budget \<Rightarrow>
     spool_budget option \<times> spool_budget \<times> (artifact_error + string)" where
  "open_verified sha max_bytes fetch available a b =
     (if max_bytes < art_size a then (None, b, Inl Too_large)
      else case reserve_spool available (art_size a) True b of
          Inl e \<Rightarrow> (None, b, Inl e)
        | Inr b1 \<Rightarrow> (Some b1, release_spool (art_size a) True b1, verify sha fetch a))"

definition get_artifact ::
    "(string \<Rightarrow> string) \<Rightarrow> int \<Rightarrow> (string \<Rightarrow> string list option) \<Rightarrow> int \<Rightarrow> artifact \<Rightarrow> spool_budget \<Rightarrow> artifact_error + string" where
  "get_artifact sha max_bytes fetch available a b = snd (snd (open_verified sha max_bytes fetch available a b))"

definition read_to_file ::
    "(string \<Rightarrow> string) \<Rightarrow> int \<Rightarrow> (string \<Rightarrow> string list option) \<Rightarrow> int \<Rightarrow> artifact \<Rightarrow> spool_budget \<Rightarrow> artifact_error + string list" where
  "read_to_file sha max_bytes fetch available a b =
     map_sum id (file_chunks io_chunk_bytes) (get_artifact sha max_bytes fetch available a b)"

section \<open>Facts\<close>

lemma concat_file_chunks: "0 < n \<Longrightarrow> concat (file_chunks n s) = s"
proof (induction n s rule: file_chunks.induct)
  case (1 n s)
  then show ?case by (subst file_chunks.simps) auto
qed

lemma verify_chunks_iff:
  "verify_chunks sha a got cs = Inr x \<longleftrightarrow>
     x = got @ concat cs \<and> int (length x) = art_size a \<and> sha x = art_sha256 a"
proof (induction sha a got cs rule: verify_chunks.induct)
  case (2 sha a got c cs)
  then show ?case by auto
qed auto

lemma verify_chunks_end: "verify_chunks sha a got cs = Inl e \<Longrightarrow> e = Integrity_error"
  by (induction sha a got cs rule: verify_chunks.induct) (auto split: if_splits)

lemma artifact_of_fields: "art_sha256 (artifact_of sha t ty d) = sha d" "art_size (artifact_of sha t ty d) = int (length d)"
    "art_key (artifact_of sha t ty d) = artifact_prefix sha t @ ''sha256/'' @ sha d"
  by (simp_all add: artifact_of_def concat_file_chunks io_chunk_bytes_def Let_def)

lemma put_file_cases:
  assumes "put_file sha m store t ty d = Inr (fetch, a)"
  shows "a = artifact_of sha t ty d" "int (length d) \<le> m" "store (art_key a) d = Some fetch" "verify sha fetch a \<noteq> Inl e"
  using assms by (auto simp: put_file_def Let_def split: if_splits option.splits sum.splits)

text \<open>The reservations that are held, each with its size and whether it reads.\<close>

definition budget_holds :: "spool_budget \<Rightarrow> (int \<times> bool) list \<Rightarrow> bool" where
  "budget_holds b held \<longleftrightarrow>
     list_all (\<lambda>h. 0 \<le> fst h) held \<and>
     sb_total_bytes b = sum_list (map fst held) \<and>
     sb_read_bytes b = sum_list (map fst (filter snd held)) \<and>
     sb_reads b = int (length (filter snd held)) \<and>
     sb_total_bytes b \<le> sb_total_limit b \<and> sb_read_bytes b \<le> sb_read_limit b \<and> sb_reads b \<le> sb_concurrency b"

text \<open>Reservations and releases in any order; one that is refused changes nothing.\<close>

inductive spool_run :: "spool_budget \<Rightarrow> spool_budget \<Rightarrow> (int \<times> bool) list \<Rightarrow> bool" for b0 where
  spool_start: "spool_run b0 b0 []"
| spool_reserve: "spool_run b0 b held \<Longrightarrow> reserve_spool available bytes reading b = Inr b' \<Longrightarrow> spool_run b0 b' ((bytes, reading) # held)"
| spool_release: "spool_run b0 b (before @ (bytes, reading) # after) \<Longrightarrow> spool_run b0 (release_spool bytes reading b) (before @ after)"

lemma reserve_holds:
  assumes "reserve_spool available bytes reading b = Inr b'" "budget_holds b held"
  shows "budget_holds b' ((bytes, reading) # held)"
  using assms by (cases reading) (auto simp: reserve_spool_def budget_holds_def split: if_splits)

lemma nonneg_sum: "list_all (\<lambda>h. (0 :: int) \<le> fst h) xs \<Longrightarrow> 0 \<le> sum_list (map fst xs) \<and> 0 \<le> sum_list (map fst (filter snd xs))"
  by (induction xs) auto

lemma release_holds:
  assumes "budget_holds b (before @ (bytes, reading) # after)"
  shows "budget_holds (release_spool bytes reading b) (before @ after)"
  using assms by (cases reading) (auto simp: release_spool_def budget_holds_def)

lemma spool_run_limits:
  "spool_run b0 b held \<Longrightarrow> sb_total_limit b = sb_total_limit b0 \<and> sb_read_limit b = sb_read_limit b0 \<and>
     sb_concurrency b = sb_concurrency b0 \<and> sb_min_free b = sb_min_free b0"
  by (induction rule: spool_run.induct) (auto simp: reserve_spool_def release_spool_def split: if_splits)

text \<open>The spool stays within its budget: whatever the order of reservations and releases, the counters are
exactly the sums over the reservations held, never pass the limits, are back at zero when nothing is
held, and a reservation is accepted only when the disk keeps its free space under all that is held.\<close>

theorem spool_within_budget:
  assumes "new_spool_budget concurrency read_bytes total_bytes min_free = Some b0" and "spool_run b0 b held"
  shows "sb_total_bytes b = sum_list (map fst held) \<and> sb_total_bytes b \<le> total_bytes \<and>
    sb_reads b = int (length (filter snd held)) \<and> sb_reads b \<le> concurrency \<and>
    sb_read_bytes b = sum_list (map fst (filter snd held)) \<and> sb_read_bytes b \<le> read_bytes \<and>
    (reserve_spool available bytes reading b \<noteq> Inr b' \<or> min_free \<le> available - sum_list (map fst held) - bytes)"
proof -
  have start: "budget_holds b0 []" and limits: "sb_total_limit b0 = total_bytes" "sb_read_limit b0 = read_bytes"
      "sb_concurrency b0 = concurrency" "sb_min_free b0 = min_free"
    using assms(1) by (auto simp: new_spool_budget_def budget_holds_def split: if_splits)
  have "budget_holds b held"
    using assms(2) by (induction rule: spool_run.induct) (auto intro: start reserve_holds release_holds)
  moreover note spool_run_limits [OF assms(2)]
  ultimately show ?thesis
    using limits by (auto simp: budget_holds_def reserve_spool_def split: if_splits)
qed

text \<open>C22. Artifacts come back as they were put: an artifact names the digest and the length of the bytes that
were put, under its tenant's prefix, and nothing over the limit is stored; whatever the bucket
returns later, a read yields bytes of that digest and length or an error, so exactly the bytes put
unless the hash collides, and an intact object is returned; the budget is back after every read.\<close>

theorem artifact_roundtrip:
  assumes "put_file sha max_bytes store tenant content_type data = Inr (fetch, a)"
    and "get_artifact sha max_bytes fetch' available a b = x"
    and "\<And>d. sha d = sha data \<Longrightarrow> length d = length data \<Longrightarrow> d = data"
  shows "art_size a = int (length data) \<and> int (length data) \<le> max_bytes \<and>
    art_key a = artifact_prefix sha tenant @ ''sha256/'' @ sha data \<and>
    (isl x \<or> x = Inr data) \<and>
    (x = Inr data \<or> reserve_spool available (art_size a) True b = Inl Capacity_busy \<or>
      map_option concat (fetch' (art_key a)) \<noteq> Some data) \<and>
    fst (snd (open_verified sha max_bytes fetch' available a b)) = b"
proof -
  note put = put_file_cases [OF assms(1)]
  have a: "art_size a = int (length data)" "art_sha256 a = sha data"
      "art_key a = artifact_prefix sha tenant @ ''sha256/'' @ sha data"
    by (simp_all add: put(1) artifact_of_fields)
  have size: "\<not> max_bytes < art_size a" using put(2) a by simp
  have good: "verify sha fetch' a = Inr d \<Longrightarrow> d = data" for d
    using assms(3) a by (auto simp: verify_def verify_chunks_iff split: option.splits)
  have intact: "verify sha fetch' a = Inr data" if "map_option concat (fetch' (art_key a)) = Some data"
    using that a by (auto simp: verify_def verify_chunks_iff)
  have refusal: "reserve_spool available (art_size a) True b = Inl e \<Longrightarrow> e = Capacity_busy" for e
    using a by (auto simp: reserve_spool_def split: if_splits)
  have restored: "reserve_spool available (art_size a) True b = Inr b1 \<Longrightarrow> release_spool (art_size a) True b1 = b" for b1
    by (auto simp: reserve_spool_def release_spool_def split: if_splits)
  show ?thesis
  proof (cases "reserve_spool available (art_size a) True b")
    case (Inl e)
    then show ?thesis using assms(2) a put(2) size refusal by (auto simp: get_artifact_def open_verified_def)
  next
    case (Inr b1)
    then have x: "x = verify sha fetch' a" using assms(2) size by (simp add: get_artifact_def open_verified_def)
    show ?thesis using a put(2) size Inr restored [OF Inr] good intact unfolding x
      by (cases "verify sha fetch' a") (auto simp: open_verified_def)
  qed
qed

section \<open>Concrete files\<close>

definition demo_hash :: "string \<Rightarrow> string" where
  "demo_hash s = s"

definition demo_bucket :: "string \<Rightarrow> string \<Rightarrow> (string \<Rightarrow> string list option) option" where
  "demo_bucket key data = Some (\<lambda>k. if k = key then Some (map (\<lambda>c. [c]) data) else None)"

definition demo_budget :: spool_budget where
  "demo_budget = \<lparr>sb_concurrency = 2, sb_read_limit = 10, sb_total_limit = 20, sb_min_free = 5,
     sb_reads = 0, sb_read_bytes = 0, sb_total_bytes = 0\<rparr>"

lemma demo_put:
  "put_file demo_hash 8 demo_bucket ''t'' ''text'' ''abc'' =
     Inr (the (demo_bucket (art_key (artifact_of demo_hash ''t'' ''text'' ''abc'')) ''abc''), artifact_of demo_hash ''t'' ''text'' ''abc'')"
  by (simp add: put_file_def demo_bucket_def verify_def artifact_of_fields demo_hash_def Let_def)

theorem artifact_roundtrip_witness:
  "get_artifact demo_hash 8 (the (demo_bucket (art_key (artifact_of demo_hash ''t'' ''text'' ''abc'')) ''abc'')) 100
     (artifact_of demo_hash ''t'' ''text'' ''abc'') demo_budget = Inr ''abc''"
proof -
  define F where "F = the (demo_bucket (art_key (artifact_of demo_hash ''t'' ''text'' ''abc'')) ''abc'')"
  define a where "a = artifact_of demo_hash ''t'' ''text'' ''abc''"
  have free: "reserve_spool 100 (art_size a) True demo_budget \<noteq> Inl Capacity_busy"
    by (simp add: a_def artifact_of_fields reserve_spool_def demo_budget_def)
  have intact: "map_option concat (F (art_key a)) = Some ''abc''"
    by (simp add: a_def F_def demo_bucket_def)
  have inj: "demo_hash d = demo_hash ''abc'' \<Longrightarrow> d = ''abc''" for d by (simp add: demo_hash_def)
  from artifact_roundtrip [OF demo_put refl inj, folded F_def a_def, of F 100 demo_budget] free intact
  have "get_artifact demo_hash 8 F 100 a demo_budget = Inr ''abc''" by blast
  then show ?thesis by (simp only: F_def a_def)
qed

theorem spool_within_budget_witness: "reserve_spool 8 4 True demo_budget \<noteq> Inr demo_budget \<and> sb_total_bytes demo_budget \<le> 20"
proof -
  have start: "new_spool_budget 2 10 20 5 = Some demo_budget" by (simp add: new_spool_budget_def demo_budget_def)
  from spool_within_budget [OF start spool_start, of 8 4 True demo_budget] show ?thesis by simp
qed

end
