(* ===== verification/Buffering.thy ===== *)
theory Buffering
  imports Ledger_Submit
begin

text \<open>
  Deferred submissions (\<open>buffering.py\<close>, \<open>buffering.sql\<close>): inputs wait in the table of items,
  are sealed into batches, one at a time for a partition, and a batch is submitted as a root of
  the ledger. Items are listed by ordinal. The states of the roots are seen through the ledger;
  \<open>sha\<close> is SHA-256 and the artifact of a batch's payload is an argument.
\<close>

section \<open>Tables\<close>

record buffer_limits =
  bl_max_batch_size :: int
  bl_max_delay :: int
  bl_max_item_bytes :: "int option"
  bl_per_tenant :: int
  bl_per_partition :: int

record task_definition =
  td_buffering :: "buffer_limits option"
  td_control_queue :: "string option"
  td_task_queue :: string
  td_deadline_seconds :: int
  td_budget_limit :: int
  td_priority :: "priority option"

record buffered_submission =
  bs_task_type :: string
  bs_submission_key :: string
  bs_partition_key :: string
  bs_input :: artifact
  bs_configuration :: artifact
  bs_delay :: int
  bs_batch_size :: int

definition valid_submission :: "buffered_submission \<Rightarrow> bool" where
  "valid_submission q \<longleftrightarrow>
     len_between 1 120 (bs_task_type q) \<and> len_between 1 200 (bs_submission_key q) \<and> len_between 1 200 (bs_partition_key q) \<and>
     valid_artifact (bs_input q) \<and> valid_artifact (bs_configuration q) \<and>
     0 \<le> bs_delay q \<and> bs_delay q \<le> 86400 \<and> 1 \<le> bs_batch_size q \<and> bs_batch_size q \<le> 256"

datatype batch_state = PREPARING | SUBMITTED | BATCH_FAILED

record buffer_item =
  bi_item_id :: string
  bi_tenant :: string
  bi_task_type :: string
  bi_partition :: string
  bi_key :: string
  bi_input :: artifact
  bi_configuration :: artifact
  bi_definition :: task_definition
  bi_batch_size :: int
  bi_due_at :: int
  bi_batch :: "string option"

record buffer_batch =
  bb_batch_id :: string
  bb_tenant :: string
  bb_task_type :: string
  bb_partition :: string
  bb_state :: batch_state
  bb_definition :: task_definition
  bb_configuration :: artifact
  bb_created_at :: int
  bb_deadline :: int
  bb_retry_at :: int
  bb_reason :: "string option"

record buffer =
  bf_items :: "buffer_item list"
  bf_batches :: "buffer_batch list"

abbreviation find_batch :: "buffer \<Rightarrow> string \<Rightarrow> buffer_batch option" where
  "find_batch B k \<equiv> lookup_row bb_batch_id k (bf_batches B)"

text \<open>A partition: tenant, task type and partition key.\<close>

abbreviation item_partition :: "buffer_item \<Rightarrow> string \<times> string \<times> string" where
  "item_partition i \<equiv> (bi_tenant i, bi_task_type i, bi_partition i)"

abbreviation batch_partition :: "buffer_batch \<Rightarrow> string \<times> string \<times> string" where
  "batch_partition b \<equiv> (bb_tenant b, bb_task_type b, bb_partition b)"

text \<open>The state of a root by its identifier, which is that of its batch.\<close>

definition root_state_of :: "ledger \<Rightarrow> string \<Rightarrow> root_state option" where
  "root_state_of L k = map_option root_state (find_root L k)"

section \<open>Appending\<close>

text \<open>The backlog counts an item until the root of its batch has ended.\<close>

definition item_pending :: "(string \<Rightarrow> root_state option) \<Rightarrow> buffer \<Rightarrow> buffer_item \<Rightarrow> bool" where
  "item_pending rs B i \<longleftrightarrow>
     (case bi_batch i of
        None \<Rightarrow> True
      | Some k \<Rightarrow>
          (case find_batch B k of
             None \<Rightarrow> False
           | Some b \<Rightarrow> bb_state b = PREPARING \<or> bb_state b = SUBMITTED \<and> rs k = Some RUNNING))"

definition item_identity :: "(string \<Rightarrow> string) \<Rightarrow> string \<Rightarrow> string \<Rightarrow> string" where
  "item_identity sha tenant key = sha (''buffer'' @ [CHR 0x00] @ tenant @ [CHR 0x00] @ key)"

definition new_item :: "clocks \<Rightarrow> (string \<Rightarrow> string) \<Rightarrow> string \<Rightarrow> buffered_submission \<Rightarrow> task_definition \<Rightarrow> buffer_item" where
  "new_item c sha tenant q definition =
     \<lparr>bi_item_id = item_identity sha tenant (bs_submission_key q), bi_tenant = tenant, bi_task_type = bs_task_type q,
      bi_partition = bs_partition_key q, bi_key = bs_submission_key q, bi_input = bs_input q,
      bi_configuration = bs_configuration q, bi_definition = definition, bi_batch_size = bs_batch_size q,
      bi_due_at = stamp c + seconds (bs_delay q), bi_batch = None\<rparr>"

definition admit_item ::
    "clocks \<Rightarrow> (string \<Rightarrow> string) \<Rightarrow> string \<Rightarrow> string \<Rightarrow> buffered_submission \<Rightarrow> task_definition \<Rightarrow> buffer_limits \<Rightarrow> int \<Rightarrow>
     (string \<Rightarrow> root_state option) \<Rightarrow> buffer \<Rightarrow> error + buffer \<times> string" where
  "admit_item c sha control tenant q definition limits quota rs B =
     (let item = new_item c sha tenant q (definition\<lparr>td_control_queue := Some control\<rparr>);
          waiting = filter (item_pending rs B) (bf_items B);
          mine = filter (\<lambda>i. bi_tenant i = tenant) waiting;
          here = filter (\<lambda>i. bi_task_type i = bs_task_type q \<and> bi_partition i = bs_partition_key q) mine in
      if bl_max_batch_size limits < bs_batch_size q \<or> bl_max_delay limits < bs_delay q
        then Inl (AdmissionDenied ''buffer policy exceeds the configured bounds'' False)
      else if (case bl_max_item_bytes limits of Some n \<Rightarrow> n | None \<Rightarrow> 64 * 1024) < art_size (bs_input q)
        then Inl (AdmissionDenied ''buffered input exceeds the configured size bound'' False)
      else if quota \<le> int (length waiting) \<or> bl_per_tenant limits \<le> int (length mine) \<or> bl_per_partition limits \<le> int (length here)
        then Inl (AdmissionDenied ''buffer backlog full'' True)
      else if lookup_row bi_item_id (bi_item_id item) (bf_items B) \<noteq> None
        then Inl (IntegrityError ''runtime_buffer_items_item_id_key'')
      else Inr (B\<lparr>bf_items := bf_items B @ [item]\<rparr>, bi_item_id item))"

definition append_item ::
    "clocks \<Rightarrow> (string \<Rightarrow> string) \<Rightarrow> string \<Rightarrow> string \<Rightarrow> buffered_submission \<Rightarrow> task_definition \<Rightarrow> int \<Rightarrow>
     (string \<Rightarrow> root_state option) \<Rightarrow> buffer \<Rightarrow> error + buffer \<times> string" where
  "append_item c sha control tenant q definition quota rs B =
     (case find (\<lambda>i. bi_tenant i = tenant \<and> bi_key i = bs_submission_key q) (bf_items B) of
        Some old \<Rightarrow>
          (if bi_input old \<noteq> bs_input q \<or> bi_task_type old \<noteq> bs_task_type q \<or> bi_partition old \<noteq> bs_partition_key q
           then Inl (RuntimeConflict ''buffered submission key/input conflict'')
           else Inr (B, bi_item_id old))
      | None \<Rightarrow>
          (case td_buffering definition of
             None \<Rightarrow> Inl (AdmissionDenied ''task does not accept buffered inputs'' False)
           | Some limits \<Rightarrow> admit_item c sha control tenant q definition limits quota rs B))"

text \<open>\<open>status\<close>: the batch, the state and the reason of an item of the tenant.\<close>

datatype item_state = Item_pending | Item_batch batch_state | Item_root root_state

definition buffer_status :: "ledger \<Rightarrow> buffer \<Rightarrow> string \<Rightarrow> string \<Rightarrow> error + string option \<times> item_state \<times> string option" where
  "buffer_status L B tenant k =
     (case lookup_row bi_item_id k (filter (\<lambda>i. bi_tenant i = tenant) (bf_items B)) of
        None \<Rightarrow> Inl (NotFound ''buffered input'')
      | Some i \<Rightarrow>
          (let batch = (case bi_batch i of Some b \<Rightarrow> find_batch B b | None \<Rightarrow> None);
               root = (case batch of Some b \<Rightarrow> find_root L (bb_batch_id b) | None \<Rightarrow> None) in
           Inr (bi_batch i,
             (case batch of
                Some b \<Rightarrow> (if bb_state b = BATCH_FAILED then Item_batch BATCH_FAILED
                           else case root of Some r \<Rightarrow> Item_root (root_state r) | None \<Rightarrow> Item_batch (bb_state b))
              | None \<Rightarrow> Item_pending),
             (case (case root of Some r \<Rightarrow> root_terminal_reason r | None \<Rightarrow> None) of
                Some reason \<Rightarrow> Some reason
              | None \<Rightarrow> (case batch of Some b \<Rightarrow> bb_reason b | None \<Rightarrow> None)))))"

section \<open>Sealing\<close>

text \<open>A batch that keeps its partition to itself.\<close>

definition batch_active :: "(string \<Rightarrow> root_state option) \<Rightarrow> buffer_batch \<Rightarrow> bool" where
  "batch_active rs b \<longleftrightarrow> bb_state b = PREPARING \<or>
     bb_state b = SUBMITTED \<and> (rs (bb_batch_id b) = Some RUNNING \<or> rs (bb_batch_id b) = None)"

definition partition_busy :: "(string \<Rightarrow> root_state option) \<Rightarrow> buffer \<Rightarrow> string \<times> string \<times> string \<Rightarrow> bool" where
  "partition_busy rs B p \<longleftrightarrow> list_ex (\<lambda>b. batch_partition b = p \<and> batch_active rs b) (bf_batches B)"

text \<open>The items of a partition that no batch has, by ordinal; the oldest of them may be due.\<close>

definition unbatched :: "buffer \<Rightarrow> string \<times> string \<times> string \<Rightarrow> buffer_item list" where
  "unbatched B p = filter (\<lambda>i. bi_batch i = None \<and> item_partition i = p) (bf_items B)"

definition sealable :: "int \<Rightarrow> (string \<Rightarrow> root_state option) \<Rightarrow> buffer \<Rightarrow> buffer_item list" where
  "sealable now rs B =
     filter (\<lambda>i. bi_batch i = None \<and> bi_due_at i \<le> now \<and> \<not> partition_busy rs B (item_partition i) \<and>
       (case unbatched B (item_partition i) of [] \<Rightarrow> False | older # _ \<Rightarrow> bi_item_id older = bi_item_id i)) (bf_items B)"

definition first_sealable :: "int \<Rightarrow> (string \<Rightarrow> root_state option) \<Rightarrow> buffer \<Rightarrow> buffer_item option" where
  "first_sealable now rs B = (case sort_key bi_due_at (sealable now rs B) of [] \<Rightarrow> None | i # _ \<Rightarrow> Some i)"

definition same_policy :: "buffer_item \<Rightarrow> buffer_item \<Rightarrow> bool" where
  "same_policy first i \<longleftrightarrow> bi_configuration i = bi_configuration first \<and> bi_definition i = bi_definition first \<and>
     bi_batch_size i = bi_batch_size first"

definition selection :: "buffer \<Rightarrow> buffer_item \<Rightarrow> buffer_item list" where
  "selection B first = takeWhile (same_policy first) (take (nat (bi_batch_size first)) (unbatched B (item_partition first)))"

definition new_batch :: "clocks \<Rightarrow> (string \<Rightarrow> string) \<Rightarrow> buffer_item \<Rightarrow> buffer_batch" where
  "new_batch c sha first =
     \<lparr>bb_batch_id = sha (''batch'' @ [CHR 0x00] @ bi_item_id first), bb_tenant = bi_tenant first, bb_task_type = bi_task_type first,
      bb_partition = bi_partition first, bb_state = PREPARING, bb_definition = bi_definition first,
      bb_configuration = bi_configuration first, bb_created_at = txn_now c,
      bb_deadline = stamp c + seconds (td_deadline_seconds (bi_definition first)), bb_retry_at = txn_now c, bb_reason = None\<rparr>"

definition seal_one :: "clocks \<Rightarrow> (string \<Rightarrow> string) \<Rightarrow> buffer_item \<Rightarrow> buffer \<Rightarrow> error + buffer \<times> buffer_batch" where
  "seal_one c sha first B =
     (let b = new_batch c sha first; chosen = map bi_item_id (selection B first) in
      if find_batch B (bb_batch_id b) \<noteq> None then Inl (IntegrityError ''runtime_buffer_batches_pkey'')
      else Inr (B\<lparr>bf_batches := bf_batches B @ [b],
                  bf_items := update_rows (\<lambda>i. bi_item_id i \<in> set chosen) (\<lambda>i. i\<lparr>bi_batch := Some (bb_batch_id b)\<rparr>) (bf_items B)\<rparr>, b))"

fun seal_more ::
    "clocks \<Rightarrow> (string \<Rightarrow> string) \<Rightarrow> (string \<Rightarrow> root_state option) \<Rightarrow> nat \<Rightarrow> buffer \<Rightarrow> error + buffer \<times> buffer_batch list" where
  "seal_more c sha rs 0 B = Inr (B, [])"
| "seal_more c sha rs (Suc n) B =
     (case first_sealable (stamp c) rs B of
        None \<Rightarrow> Inr (B, [])
      | Some first \<Rightarrow>
          (case seal_one c sha first B of
             Inl e \<Rightarrow> Inl e
           | Inr (B1, b) \<Rightarrow> map_sum id (\<lambda>(B2, bs). (B2, b # bs)) (seal_more c sha rs n B1)))"

definition unfinished_batches :: "int \<Rightarrow> nat \<Rightarrow> buffer \<Rightarrow> buffer_batch list" where
  "unfinished_batches now limit B =
     take limit (sort_key (\<lambda>b. (bb_retry_at b, bb_batch_id b)) (filter (\<lambda>b. bb_state b = PREPARING \<and> bb_retry_at b \<le> now) (bf_batches B)))"

definition seal ::
    "clocks \<Rightarrow> (string \<Rightarrow> string) \<Rightarrow> (string \<Rightarrow> root_state option) \<Rightarrow> int \<Rightarrow> buffer \<Rightarrow> error + buffer \<times> buffer_batch list" where
  "seal c sha rs limit B =
     (if \<not> (1 \<le> limit \<and> limit \<le> 32) then Inl (ValueError ''buffer pump limit must be between 1 and 32'')
      else
        (let old = unfinished_batches (stamp c) (nat limit) B in
         map_sum id (\<lambda>(B1, bs). (B1, old @ bs)) (seal_more c sha rs (nat limit - length old) B)))"

section \<open>Dispatching\<close>

text \<open>The root and the workflow of a batch; its payload is stored as \<open>ref\<close>.\<close>

definition batch_root :: "buffer_batch \<Rightarrow> root_spec" where
  "batch_root b =
     \<lparr>rs_root_id = bb_batch_id b, rs_tenant_id = bb_tenant b, rs_deadline = bb_deadline b,
      rs_budget_limit = td_budget_limit (bb_definition b), rs_resource_budgets = [], rs_max_operations = 10000,
      rs_max_pending = 64, rs_max_attempts = 30000,
      rs_priority = workload_for_task (bb_task_type b) (td_priority (bb_definition b))\<rparr>"

definition batch_run :: "buffer_batch \<Rightarrow> artifact \<Rightarrow> run_spec" where
  "batch_run b ref =
     \<lparr>run_workflow_type = bb_task_type b, run_task_queue = td_task_queue (bb_definition b), run_root_id = bb_batch_id b,
      run_tenant_id = bb_tenant b,
      run_control_queue = (case td_control_queue (bb_definition b) of Some cq \<Rightarrow> cq | None \<Rightarrow> []),
      run_input = ref, run_configuration = Some (bb_configuration b), run_deadline = None\<rparr>"

text \<open>
  The document of a batch: partition, inputs by ordinal, the instant it was accepted. \<open>put\<close> stores
  it; \<open>None\<close>: the artifact store fails.
\<close>

definition batch_document :: "buffer \<Rightarrow> buffer_batch \<Rightarrow> string \<times> (string \<times> artifact) list \<times> int" where
  "batch_document B b =
     (bb_partition b, map (\<lambda>i. (bi_item_id i, bi_input i)) (filter (\<lambda>i. bi_batch i = Some (bb_batch_id b)) (bf_items B)), bb_created_at b)"

definition submit_batch ::
    "clocks \<Rightarrow> (string \<times> (string \<times> artifact) list \<times> int \<Rightarrow> artifact option) \<Rightarrow> buffer_batch \<Rightarrow> buffer \<Rightarrow> ledger \<Rightarrow> error + ledger" where
  "submit_batch c put b B L =
     (if fst (snd (batch_document B b)) = [] then Inl (RuntimeConflict ''sealed buffer batch has no inputs'')
      else case put (batch_document B b) of
          None \<Rightarrow> Inl (IntegrityError ''artifact'')
        | Some ref \<Rightarrow>
            (if \<not> valid_root_spec (batch_root b) then Inl (ValueError ''root'')
             else map_sum id fst (submit_run c (batch_root b) (''buffer:'' @ bb_batch_id b) (art_sha256 ref) (batch_run b ref) L)))"

definition mark_submitted :: "string \<Rightarrow> buffer \<Rightarrow> buffer" where
  "mark_submitted k B = B\<lparr>bf_batches :=
     update_rows (\<lambda>b. bb_batch_id b = k \<and> bb_state b = PREPARING) (\<lambda>b. b\<lparr>bb_state := SUBMITTED\<rparr>) (bf_batches B)\<rparr>"

text \<open>What a tick writes when a dispatch raised.\<close>

definition defer_batch :: "clocks \<Rightarrow> (string \<Rightarrow> root_state option) \<Rightarrow> string \<Rightarrow> buffer \<Rightarrow> buffer" where
  "defer_batch c rs k B = B\<lparr>bf_batches :=
     update_rows (\<lambda>b. bb_batch_id b = k \<and> bb_state b = PREPARING)
       (\<lambda>b. if bb_deadline b \<le> stamp c \<and> rs k = None
             then b\<lparr>bb_retry_at := stamp c + seconds 10, bb_state := BATCH_FAILED, bb_reason := Some ''buffer_dispatch_deadline_exceeded''\<rparr>
             else b\<lparr>bb_retry_at := stamp c + seconds 10\<rparr>) (bf_batches B)\<rparr>"

definition dispatch_batch ::
    "clocks \<Rightarrow> (string \<times> (string \<times> artifact) list \<times> int \<Rightarrow> artifact option) \<Rightarrow> buffer_batch \<Rightarrow> ledger \<times> buffer \<Rightarrow> ledger \<times> buffer" where
  "dispatch_batch c put b LB =
     (case LB of (L, B) \<Rightarrow>
        (case submit_batch c put b B L of
           Inl e \<Rightarrow> (L, defer_batch c (root_state_of L) (bb_batch_id b) B)
         | Inr L1 \<Rightarrow> (L1, mark_submitted (bb_batch_id b) B)))"

definition buffer_tick ::
    "clocks \<Rightarrow> (string \<Rightarrow> string) \<Rightarrow> (string \<times> (string \<times> artifact) list \<times> int \<Rightarrow> artifact option) \<Rightarrow> ledger \<times> buffer \<Rightarrow>
     error + (ledger \<times> buffer) \<times> int" where
  "buffer_tick c sha put LB =
     (case LB of (L, B) \<Rightarrow>
        (case seal c sha (root_state_of L) 8 B of
           Inl e \<Rightarrow> Inl e
         | Inr (B1, bs) \<Rightarrow> Inr (foldl (\<lambda>s b. dispatch_batch c put b s) (L, B1) bs, int (length bs))))"

end
