(* ===== verification/Buffer_Properties.thy ===== *)
theory Buffer_Properties
  imports Buffering Ledger_Facts
begin

text \<open>
  Buffered submissions beside the ledger: an interleaving of the pump, the appends and every
  transaction of \<open>store.py\<close> keeps one active batch for a partition, batches its items in the
  order they were accepted and within the accepted batch size, and loses none.
\<close>

section \<open>Lists\<close>

text \<open>A prefix of the filtered list, seen in the whole list: what comes before it is in it.\<close>

lemma prefix_of_filter:
  assumes "distinct xs" "filter P xs = zs @ rest"
  shows "sorted_wrt (\<lambda>x y. P x \<longrightarrow> y \<in> set zs \<longrightarrow> x \<in> set zs) xs"
  using assms
proof (induction xs arbitrary: zs)
  case (Cons a xs)
  show ?case
  proof (cases "P a")
    case False
    with Cons.prems have "filter P xs = zs @ rest" "distinct xs" by auto
    with Cons.IH False show ?thesis by simp
  next
    case True
    show ?thesis
    proof (cases zs)
      case Nil
      then show ?thesis by simp
    next
      case (Cons z zs')
      with Cons.prems(2) True have z: "z = a" "filter P xs = zs' @ rest" by auto
      have "sorted_wrt (\<lambda>x y. P x \<longrightarrow> y \<in> set zs' \<longrightarrow> x \<in> set zs') xs"
        using Cons.IH [OF _ z(2)] Cons.prems(1) by simp
      then have "sorted_wrt (\<lambda>x y. P x \<longrightarrow> y \<in> set zs \<longrightarrow> x \<in> set zs) xs"
        by (rule sorted_wrt_mono_rel [rotated]) (use Cons.prems(1) in \<open>auto simp: Cons z(1)\<close>)
      then show ?thesis by (simp add: Cons z(1))
    qed
  qed
qed simp

lemma sorted_wrt_both:
  assumes "sorted_wrt P xs" "sorted_wrt Q xs" "\<And>x y. x \<in> set xs \<Longrightarrow> y \<in> set xs \<Longrightarrow> P x y \<Longrightarrow> Q x y \<Longrightarrow> R x y"
  shows "sorted_wrt R xs"
  using assms by (induction xs) auto

lemma find_append: "find P (xs @ ys) = (case find P xs of Some x \<Rightarrow> Some x | None \<Rightarrow> find P ys)"
  by (induction xs) auto

section \<open>What the tables keep\<close>

definition batch_items :: "buffer \<Rightarrow> string \<Rightarrow> buffer_item list" where
  "batch_items B k = filter (\<lambda>i. bi_batch i = Some k) (bf_items B)"

definition items_filed :: "buffer \<Rightarrow> bool" where
  "items_filed B \<longleftrightarrow> (\<forall>i \<in> set (bf_items B). 1 \<le> bi_batch_size i \<and>
     (\<forall>k. bi_batch i = Some k \<longrightarrow> (\<exists>b. find_batch B k = Some b \<and> batch_partition b = item_partition i \<and>
        bb_definition b = bi_definition i \<and> bb_configuration b = bi_configuration i)))"

definition batches_bounded :: "buffer \<Rightarrow> bool" where
  "batches_bounded B \<longleftrightarrow> (\<forall>b \<in> set (bf_batches B). batch_items B (bb_batch_id b) \<noteq> [] \<and>
     (\<forall>i \<in> set (batch_items B (bb_batch_id b)). int (length (batch_items B (bb_batch_id b))) \<le> bi_batch_size i))"

text \<open>An item is batched only after every older item of its partition.\<close>

definition batched_in_order :: "buffer_item list \<Rightarrow> bool" where
  "batched_in_order items \<longleftrightarrow>
     sorted_wrt (\<lambda>x y. item_partition x = item_partition y \<longrightarrow> bi_batch y \<noteq> None \<longrightarrow> bi_batch x \<noteq> None) items"

definition one_active :: "(string \<Rightarrow> root_state option) \<Rightarrow> buffer \<Rightarrow> bool" where
  "one_active rs B \<longleftrightarrow> (\<forall>b \<in> set (bf_batches B). \<forall>b' \<in> set (bf_batches B).
     batch_active rs b \<and> batch_active rs b' \<and> batch_partition b = batch_partition b' \<longrightarrow> b = b')"

definition buffer_ok :: "(string \<Rightarrow> root_state option) \<Rightarrow> buffer \<Rightarrow> bool" where
  "buffer_ok rs B \<longleftrightarrow>
     distinct (map bi_item_id (bf_items B)) \<and> distinct (map bb_batch_id (bf_batches B)) \<and>
     items_filed B \<and> batches_bounded B \<and> batched_in_order (bf_items B) \<and> one_active rs B"

section \<open>Appending\<close>

lemma append_item_cases:
  assumes "append_item c sha control tenant q definition quota rs B = Inr (B', k)"
  obtains (old) i where "B' = B" "i \<in> set (bf_items B)" "bi_item_id i = k" "bi_tenant i = tenant" "bi_key i = bs_submission_key q"
      "bi_input i = bs_input q" "bi_task_type i = bs_task_type q" "bi_partition i = bs_partition_key q"
  | (new) limits i where "td_buffering definition = Some limits" "i = new_item c sha tenant q (definition\<lparr>td_control_queue := Some control\<rparr>)"
      "B' = B\<lparr>bf_items := bf_items B @ [i]\<rparr>" "k = bi_item_id i" "k \<notin> bi_item_id ` set (bf_items B)"
      "\<forall>j \<in> set (bf_items B). \<not> (bi_tenant j = tenant \<and> bi_key j = bs_submission_key q)"
      "bs_batch_size q \<le> bl_max_batch_size limits"
      "int (length (filter (item_pending rs B) (bf_items B))) < quota"
      "int (length (filter (\<lambda>j. bi_tenant j = tenant) (filter (item_pending rs B) (bf_items B)))) < bl_per_tenant limits"
      "int (length (filter (\<lambda>j. bi_task_type j = bs_task_type q \<and> bi_partition j = bs_partition_key q)
         (filter (\<lambda>j. bi_tenant j = tenant) (filter (item_pending rs B) (bf_items B))))) < bl_per_partition limits"
proof (cases "find (\<lambda>i. bi_tenant i = tenant \<and> bi_key i = bs_submission_key q) (bf_items B)")
  case (Some i)
  then have "i \<in> set (bf_items B)" "bi_tenant i = tenant" "bi_key i = bs_submission_key q"
    by (auto simp: find_Some_iff)
  moreover have "B' = B" "bi_item_id i = k" "bi_input i = bs_input q" "bi_task_type i = bs_task_type q" "bi_partition i = bs_partition_key q"
    using assms Some by (auto simp: append_item_def split: if_splits)
  ultimately show ?thesis using old by blast
next
  case None
  with assms obtain limits where lim: "td_buffering definition = Some limits"
    and adm: "admit_item c sha control tenant q definition limits quota rs B = Inr (B', k)"
    by (auto simp: append_item_def split: option.splits)
  show ?thesis
    by (rule new [OF lim refl])
      (use adm None in \<open>auto simp: admit_item_def Let_def lookup_row_None_iff find_None_iff not_le split: if_splits\<close>)
qed

lemma batch_items_append: "bi_batch i = None \<Longrightarrow> batch_items (B\<lparr>bf_items := bf_items B @ [i]\<rparr>) k = batch_items B k"
  by (simp add: batch_items_def)

lemma append_ok:
  assumes "append_item c sha control tenant q definition quota rs B = Inr (B', k)" "buffer_ok rs B" "valid_submission q"
  shows "buffer_ok rs B'"
  using assms(1)
proof (cases rule: append_item_cases)
  case (new limits i)
  have i: "bi_batch i = None" "1 \<le> bi_batch_size i"
    using assms(3) by (auto simp: new(2) new_item_def valid_submission_def)
  have "items_filed B'" using assms(2) i by (auto simp: buffer_ok_def items_filed_def new(3))
  moreover have "batches_bounded B'" using assms(2) i by (simp add: buffer_ok_def batches_bounded_def new(3) batch_items_append)
  moreover have "batched_in_order (bf_items B')"
    using assms(2) i by (auto simp: buffer_ok_def batched_in_order_def new(3) sorted_wrt_append)
  moreover have "distinct (map bi_item_id (bf_items B'))" using assms(2) new(4,5) by (simp add: buffer_ok_def new(3))
  ultimately show ?thesis using assms(2) by (simp add: buffer_ok_def one_active_def new(3))
qed (use assms(2) in simp)

section \<open>Sealing\<close>

lemma sealable_facts:
  assumes "first_sealable now rs B = Some first" "distinct (map bi_item_id (bf_items B))"
  shows "first \<in> set (bf_items B)" "bi_batch first = None" "bi_due_at first \<le> now"
    "\<not> partition_busy rs B (item_partition first)"
    "\<exists>others. unbatched B (item_partition first) = first # others"
proof -
  have "first \<in> set (sealable now rs B)"
    using assms(1) by (auto simp: first_sealable_def split: list.splits)
      (metis list.set_intros(1) set_sort)
  then have f: "first \<in> set (bf_items B)" "bi_batch first = None" "bi_due_at first \<le> now"
      "\<not> partition_busy rs B (item_partition first)"
    and "\<exists>older others. unbatched B (item_partition first) = older # others \<and> bi_item_id older = bi_item_id first"
    by (auto simp: sealable_def split: list.splits)
  then obtain older others where o: "unbatched B (item_partition first) = older # others" "bi_item_id older = bi_item_id first" by blast
  have "older \<in> set (unbatched B (item_partition first))" by (simp add: o(1))
  then have "older \<in> set (bf_items B)" by (simp add: unbatched_def)
  with o(2) f(1) assms(2) have "older = first" by (metis distinct_map inj_onD)
  with o(1) show "\<exists>others. unbatched B (item_partition first) = first # others" by blast
  show "first \<in> set (bf_items B)" "bi_batch first = None" "bi_due_at first \<le> now" "\<not> partition_busy rs B (item_partition first)"
    by (rule f)+
qed

lemma takeWhile_take_prefix: "\<exists>rest. xs = takeWhile P (take n xs) @ rest"
  by (metis append.assoc append_take_drop_id takeWhile_dropWhile_id)

lemma selection_facts:
  assumes "unbatched B (item_partition first) = first # others" "1 \<le> bi_batch_size first"
  shows "\<exists>rest. unbatched B (item_partition first) = selection B first @ rest" "first \<in> set (selection B first)"
    "int (length (selection B first)) \<le> bi_batch_size first"
    "\<forall>i \<in> set (selection B first). i \<in> set (bf_items B) \<and> bi_batch i = None \<and> item_partition i = item_partition first \<and> same_policy first i"
proof -
  show "\<exists>rest. unbatched B (item_partition first) = selection B first @ rest"
    unfolding selection_def by (rule takeWhile_take_prefix)
  obtain n where n: "nat (bi_batch_size first) = Suc n" using assms(2) by (cases "nat (bi_batch_size first)") auto
  show "first \<in> set (selection B first)"
    by (simp add: selection_def assms(1) n same_policy_def)
  have "length (selection B first) \<le> nat (bi_batch_size first)"
    unfolding selection_def by (metis length_take length_takeWhile_le min.bounded_iff)
  then show "int (length (selection B first)) \<le> bi_batch_size first" using assms(2) by linarith
  show "\<forall>i \<in> set (selection B first). i \<in> set (bf_items B) \<and> bi_batch i = None \<and> item_partition i = item_partition first \<and> same_policy first i"
    unfolding selection_def by (auto dest!: set_takeWhileD in_set_takeD simp: unbatched_def)
qed

lemma seal_one_ok:
  assumes seal: "seal_one c sha first B = Inr (B', b)" and ok: "buffer_ok rs B" and first: "first_sealable now rs B = Some first"
  shows "buffer_ok rs B'"
proof -
  let ?chosen = "set (map bi_item_id (selection B first))"
  let ?file = "\<lambda>i. if bi_item_id i \<in> ?chosen then i\<lparr>bi_batch := Some (bb_batch_id b)\<rparr> else i"
  from seal have b: "b = new_batch c sha first" and fresh: "find_batch B (bb_batch_id b) = None"
    and B': "bf_batches B' = bf_batches B @ [b]" "bf_items B' = map ?file (bf_items B)"
    by (auto simp: seal_one_def update_rows_def Let_def split: if_splits)
  from ok have ids: "distinct (map bi_item_id (bf_items B))" by (simp add: buffer_ok_def)
  note f = sealable_facts [OF first ids]
  then obtain others where others: "unbatched B (item_partition first) = first # others" by blast
  from ok f(1) have pos: "1 \<le> bi_batch_size first" by (auto simp: buffer_ok_def items_filed_def)
  note sel = selection_facts [OF others pos]
  have chosen: "bi_item_id i \<in> ?chosen \<longleftrightarrow> i \<in> set (selection B first)" if "i \<in> set (bf_items B)" for i
    using that sel(4) ids by (auto simp: distinct_map inj_on_def)
  have bpart: "batch_partition b = item_partition first" "bb_definition b = bi_definition first" "bb_configuration b = bi_configuration first"
    "bb_state b = PREPARING"
    by (simp_all add: b new_batch_def)
  have new_ids: "bb_batch_id b \<notin> bb_batch_id ` set (bf_batches B)" using fresh by (simp add: lookup_row_None_iff)
  have nobody: "bi_batch i \<noteq> Some (bb_batch_id b)" if "i \<in> set (bf_items B)" for i
    using ok that fresh by (auto simp: buffer_ok_def items_filed_def)
  have filed: "items_filed B'"
    unfolding items_filed_def
  proof
    fix j assume "j \<in> set (bf_items B')"
    then obtain i where i: "i \<in> set (bf_items B)" "j = ?file i" by (auto simp: B')
    show "1 \<le> bi_batch_size j \<and> (\<forall>k. bi_batch j = Some k \<longrightarrow> (\<exists>b. find_batch B' k = Some b \<and> batch_partition b = item_partition j \<and>
        bb_definition b = bi_definition j \<and> bb_configuration b = bi_configuration j))"
    proof (cases "i \<in> set (selection B first)")
      case True
      then have "same_policy first i" "item_partition i = item_partition first" using sel(4) by auto
      moreover have "find_batch B' (bb_batch_id b) = Some b" using fresh by (simp add: B' lookup_row_append)
      ultimately show ?thesis using ok i chosen [OF i(1)] True bpart
        by (auto simp: buffer_ok_def items_filed_def same_policy_def)
    next
      case False
      then show ?thesis using ok i chosen [OF i(1)]
        by (fastforce simp: buffer_ok_def items_filed_def B' lookup_row_append)
    qed
  qed
  have items_new: "batch_items B' (bb_batch_id b) = map ?file (filter (\<lambda>i. i \<in> set (selection B first)) (bf_items B))"
    unfolding batch_items_def B' filter_map comp_def
    by (rule arg_cong [where f = "map ?file"], rule filter_cong [OF refl]) (use chosen nobody in auto)
  have items_old: "batch_items B' k = batch_items B k" if "k \<noteq> bb_batch_id b" for k
  proof -
    have still: "bi_batch (?file i) = Some k \<longleftrightarrow> bi_batch i = Some k" "bi_batch i = Some k \<Longrightarrow> ?file i = i"
      if "i \<in> set (bf_items B)" for i
      using chosen [OF that] sel(4) \<open>k \<noteq> bb_batch_id b\<close> by auto
    have "batch_items B' k = map ?file (filter (\<lambda>i. bi_batch (?file i) = Some k) (bf_items B))"
      by (simp only: batch_items_def B' filter_map comp_def)
    also have "filter (\<lambda>i. bi_batch (?file i) = Some k) (bf_items B) = filter (\<lambda>i. bi_batch i = Some k) (bf_items B)"
      by (rule filter_cong [OF refl still(1)])
    also have "map ?file (filter (\<lambda>i. bi_batch i = Some k) (bf_items B)) = filter (\<lambda>i. bi_batch i = Some k) (bf_items B)"
      by (rule map_idI, rule still(2)) auto
    finally show ?thesis by (simp add: batch_items_def)
  qed
  have dist: "distinct (bf_items B)" using ids by (simp add: distinct_map)
  obtain rest where rest: "unbatched B (item_partition first) = selection B first @ rest" using sel(1) by blast
  have "distinct (unbatched B (item_partition first))" using dist by (simp add: unbatched_def)
  then have dsel: "distinct (selection B first)" by (simp add: rest)
  have "set (filter (\<lambda>i. i \<in> set (selection B first)) (bf_items B)) = set (selection B first)" using sel(4) by auto
  then have count: "length (filter (\<lambda>i. i \<in> set (selection B first)) (bf_items B)) = length (selection B first)"
    using dist dsel by (metis distinct_card distinct_filter)
  have size: "bi_batch_size i = bi_batch_size first" if "i \<in> set (selection B first)" for i
    using sel(4) that by (simp add: same_policy_def)
  have bounded: "batches_bounded B'"
    unfolding batches_bounded_def
  proof
    fix b' assume b': "b' \<in> set (bf_batches B')"
    show "batch_items B' (bb_batch_id b') \<noteq> [] \<and>
        (\<forall>i \<in> set (batch_items B' (bb_batch_id b')). int (length (batch_items B' (bb_batch_id b'))) \<le> bi_batch_size i)"
    proof (cases "bb_batch_id b' = bb_batch_id b")
      case True
      have "length (batch_items B' (bb_batch_id b)) = length (selection B first)" by (simp add: items_new count)
      moreover have "selection B first \<noteq> []" using sel(2) by auto
      moreover have "bi_batch_size j = bi_batch_size first" if "j \<in> set (batch_items B' (bb_batch_id b))" for j
        using that size unfolding items_new by auto
      ultimately show ?thesis using True sel(3) by (metis length_0_conv)
    next
      case False
      then have "b' \<in> set (bf_batches B)" using b' by (auto simp: B')
      then show ?thesis using ok False by (simp add: items_old buffer_ok_def batches_bounded_def)
    qed
  qed
  have "sorted_wrt (\<lambda>x y. (bi_batch x = None \<and> item_partition x = item_partition first) \<longrightarrow>
      y \<in> set (selection B first) \<longrightarrow> x \<in> set (selection B first)) (bf_items B)"
    by (rule prefix_of_filter [OF dist]) (use rest in \<open>simp add: unbatched_def\<close>)
  moreover have "sorted_wrt (\<lambda>x y. item_partition x = item_partition y \<longrightarrow> bi_batch y \<noteq> None \<longrightarrow> bi_batch x \<noteq> None) (bf_items B)"
    using ok by (simp add: buffer_ok_def batched_in_order_def)
  ultimately have order: "batched_in_order (bf_items B')"
    unfolding batched_in_order_def B' sorted_wrt_map
  proof (rule sorted_wrt_both)
    fix x y assume xy: "x \<in> set (bf_items B)" "y \<in> set (bf_items B)"
      "(bi_batch x = None \<and> item_partition x = item_partition first) \<longrightarrow> y \<in> set (selection B first) \<longrightarrow> x \<in> set (selection B first)"
      "item_partition x = item_partition y \<longrightarrow> bi_batch y \<noteq> None \<longrightarrow> bi_batch x \<noteq> None"
    have batched: "bi_batch (?file i) \<noteq> None \<longleftrightarrow> bi_batch i \<noteq> None \<or> i \<in> set (selection B first)" if "i \<in> set (bf_items B)" for i
      using chosen [OF that] by simp
    have part: "item_partition (?file i) = item_partition i" for i by simp
    have "y \<in> set (selection B first) \<Longrightarrow> item_partition y = item_partition first" using sel(4) by blast
    then show "item_partition (?file x) = item_partition (?file y) \<longrightarrow> bi_batch (?file y) \<noteq> None \<longrightarrow> bi_batch (?file x) \<noteq> None"
      unfolding part batched [OF xy(1)] batched [OF xy(2)] using xy(3,4) by metis
  qed
  have "one_active rs B'"
    using ok f(4) bpart by (auto simp: buffer_ok_def one_active_def B' partition_busy_def list_ex_iff)
  moreover have "map bi_item_id (bf_items B') = map bi_item_id (bf_items B)"
    unfolding B' map_map by (rule map_cong) auto
  then have "distinct (map bi_item_id (bf_items B'))" using ids by simp
  moreover have "distinct (map bb_batch_id (bf_batches B'))" using ok new_ids by (simp add: B' buffer_ok_def)
  ultimately show ?thesis using filed bounded order unfolding buffer_ok_def by blast
qed

lemma seal_more_ok: "seal_more c sha rs n B = Inr (B', bs) \<Longrightarrow> buffer_ok rs B \<Longrightarrow> buffer_ok rs B'"
proof (induction n arbitrary: B bs)
  case (Suc n)
  show ?case
  proof (cases "first_sealable (stamp c) rs B")
    case (Some first)
    with Suc.prems(1) obtain B1 b where one: "seal_one c sha first B = Inr (B1, b)"
      by (auto split: sum.splits prod.splits)
    with Suc.prems(1) Some obtain cs where rest: "seal_more c sha rs n B1 = Inr (B', cs)"
      by (cases "seal_more c sha rs n B1") auto
    from Suc.IH [OF rest seal_one_ok [OF one Suc.prems(2) Some]] show ?thesis .
  qed (use Suc.prems in simp)
qed simp

lemma seal_ok: "seal c sha rs limit B = Inr (B', bs) \<Longrightarrow> buffer_ok rs B \<Longrightarrow> buffer_ok rs B'"
  by (cases "seal_more c sha rs (nat limit - length (unfinished_batches (stamp c) (nat limit) B)) B")
    (auto simp: seal_def Let_def split: if_splits intro: seal_more_ok)

section \<open>Batches and roots move on\<close>

text \<open>An update of batches that keeps identity and policy and revives none.\<close>

lemma batches_move_ok:
  assumes ok: "buffer_ok rs B" and keep: "\<And>b. bb_batch_id (g b) = bb_batch_id b \<and> batch_partition (g b) = batch_partition b \<and>
      bb_definition (g b) = bb_definition b \<and> bb_configuration (g b) = bb_configuration b"
    and active: "\<And>b. b \<in> set (bf_batches B) \<Longrightarrow> batch_active rs' (g b) \<Longrightarrow> batch_active rs b"
  shows "buffer_ok rs' (B\<lparr>bf_batches := map g (bf_batches B)\<rparr>)"
proof -
  have found: "lookup_row bb_batch_id k (map g xs) = map_option g (lookup_row bb_batch_id k xs)" for k xs
    using keep by (induction xs) auto
  have ids: "map bb_batch_id (map g xs) = map bb_batch_id xs" for xs using keep by simp
  have items: "batch_items (B\<lparr>bf_batches := map g (bf_batches B)\<rparr>) k = batch_items B k" for k by (simp add: batch_items_def)
  have "items_filed (B\<lparr>bf_batches := map g (bf_batches B)\<rparr>)"
    using ok keep by (fastforce simp: buffer_ok_def items_filed_def found)
  moreover have "batches_bounded (B\<lparr>bf_batches := map g (bf_batches B)\<rparr>)"
    using ok keep by (auto simp: buffer_ok_def batches_bounded_def items)
  moreover have "one_active rs' (B\<lparr>bf_batches := map g (bf_batches B)\<rparr>)"
    unfolding one_active_def
  proof (intro ballI impI)
    fix x y assume "x \<in> set (bf_batches (B\<lparr>bf_batches := map g (bf_batches B)\<rparr>))" "y \<in> set (bf_batches (B\<lparr>bf_batches := map g (bf_batches B)\<rparr>))"
      and act: "batch_active rs' x \<and> batch_active rs' y \<and> batch_partition x = batch_partition y"
    then obtain b b' where b: "b \<in> set (bf_batches B)" "b' \<in> set (bf_batches B)" "x = g b" "y = g b'" by auto
    then have "batch_active rs b" "batch_active rs b'" "batch_partition b = batch_partition b'"
      using active act keep by metis+
    then have "b = b'" using ok b(1,2) unfolding buffer_ok_def one_active_def by blast
    then show "x = y" by (simp add: b)
  qed
  ultimately show ?thesis using ok ids by (simp add: buffer_ok_def del: map_map)
qed

lemma mark_ok:
  assumes "buffer_ok rs B"
  shows "buffer_ok rs (mark_submitted k B)"
proof -
  have "buffer_ok rs (B\<lparr>bf_batches := map (\<lambda>b. if bb_batch_id b = k \<and> bb_state b = PREPARING then b\<lparr>bb_state := SUBMITTED\<rparr> else b) (bf_batches B)\<rparr>)"
    by (rule batches_move_ok [OF assms]) (auto simp: batch_active_def split: if_splits)
  then show ?thesis by (simp add: mark_submitted_def update_rows_def)
qed

lemma defer_ok:
  assumes "buffer_ok rs B"
  shows "buffer_ok rs (defer_batch c rs' k B)"
proof -
  have "buffer_ok rs (B\<lparr>bf_batches := map (\<lambda>b. if bb_batch_id b = k \<and> bb_state b = PREPARING
       then if bb_deadline b \<le> stamp c \<and> rs' k = None
         then b\<lparr>bb_retry_at := stamp c + seconds 10, bb_state := BATCH_FAILED, bb_reason := Some ''buffer_dispatch_deadline_exceeded''\<rparr>
         else b\<lparr>bb_retry_at := stamp c + seconds 10\<rparr> else b) (bf_batches B)\<rparr>)"
    by (rule batches_move_ok [OF assms]) (auto simp: batch_active_def split: if_splits)
  then show ?thesis by (simp add: defer_batch_def update_rows_def)
qed

text \<open>The ledger only ends roots, it never removes or revives one.\<close>

lemma roots_move_ok:
  assumes "ledger_ok L" "history L M" "buffer_ok (root_state_of L) B"
  shows "buffer_ok (root_state_of M) B"
proof -
  have "batch_active (root_state_of L) b" if "batch_active (root_state_of M) b" for b
  proof (cases "find_root L (bb_batch_id b)")
    case (Some r)
    then obtain s where "find_root M (bb_batch_id b) = Some s" "root_state r \<noteq> RUNNING \<Longrightarrow> root_state s = root_state r"
      using history_root [OF assms(1,2)] by metis
    with Some that show ?thesis
      by (cases "root_state r = RUNNING") (auto simp: batch_active_def root_state_of_def)
  qed (use that in \<open>auto simp: batch_active_def root_state_of_def\<close>)
  from batches_move_ok [OF assms(3), of id "root_state_of M"] this show ?thesis by simp
qed

section \<open>The pump beside the ledger\<close>

definition empty_buffer :: buffer where
  "empty_buffer = \<lparr>bf_items = [], bf_batches = []\<rparr>"

text \<open>
  Appends, seals and dispatches interleaved with the ledger's transactions; a dispatch may stop
  after the submission, before its batch is marked. The hash and the quota are fixed.
\<close>

inductive buffer_run :: "(string \<Rightarrow> string) \<Rightarrow> int \<Rightarrow> ledger \<times> buffer \<Rightarrow> bool" for sha quota where
  BStart: "buffer_run sha quota (empty_ledger, empty_buffer)"
| BLedger: "buffer_run sha quota (L, B) \<Longrightarrow> ledger_step L M \<Longrightarrow> buffer_run sha quota (M, B)"
| BAppend: "buffer_run sha quota (L, B) \<Longrightarrow> valid_submission q \<Longrightarrow>
    append_item c sha control tenant q definition quota (root_state_of L) B = Inr (B', k) \<Longrightarrow> buffer_run sha quota (L, B')"
| BSeal: "buffer_run sha quota (L, B) \<Longrightarrow> seal c sha (root_state_of L) limit B = Inr (B', bs) \<Longrightarrow> buffer_run sha quota (L, B')"
| BSubmit: "buffer_run sha quota (L, B) \<Longrightarrow> submit_batch c put b B L = Inr M \<Longrightarrow> buffer_run sha quota (M, B)"
| BDispatch: "buffer_run sha quota (L, B) \<Longrightarrow> dispatch_batch c put b (L, B) = (M, B') \<Longrightarrow> buffer_run sha quota (M, B')"

lemma submit_batch_step: "submit_batch c put b B L = Inr M \<Longrightarrow> ledger_step L M"
proof -
  assume *: "submit_batch c put b B L = Inr M"
  then obtain ref where "valid_root_spec (batch_root b)"
    "map_sum id fst (submit_run c (batch_root b) (''buffer:'' @ bb_batch_id b) (art_sha256 ref) (batch_run b ref) L) = Inr M"
    by (auto simp: submit_batch_def split: if_splits option.splits)
  then show ?thesis
    by (cases "submit_run c (batch_root b) (''buffer:'' @ bb_batch_id b) (art_sha256 ref) (batch_run b ref) L")
      (auto intro: SSubmitRun)
qed

lemma buffer_run_ok: "buffer_run sha quota LB \<Longrightarrow> reachable (fst LB) \<and> buffer_ok (root_state_of (fst LB)) (snd LB)"
proof (induction rule: buffer_run.induct)
  case BStart
  show ?case
    by (simp add: RInit empty_buffer_def buffer_ok_def items_filed_def batches_bounded_def batched_in_order_def one_active_def)
next
  case (BLedger L B M)
  then show ?case
    using roots_move_ok [OF reachable_ok HStep [OF HStart]] by (auto intro: RStep)
next
  case (BAppend L B q c control tenant d B' k)
  then show ?case using append_ok by auto
next
  case (BSeal L B c limit B' bs)
  then show ?case using seal_ok by auto
next
  case (BSubmit L B c put b M)
  then show ?case
    using roots_move_ok [OF reachable_ok HStep [OF HStart]] submit_batch_step by (auto intro: RStep)
next
  case (BDispatch L B c put b M B')
  show ?case
  proof (cases "submit_batch c put b B L")
    case (Inl e)
    with BDispatch show ?thesis by (auto simp: dispatch_batch_def intro: defer_ok)
  next
    case (Inr N)
    with BDispatch have "M = N" "B' = mark_submitted (bb_batch_id b) B" by (auto simp: dispatch_batch_def)
    with BDispatch Inr show ?thesis
      using roots_move_ok [OF reachable_ok HStep [OF HStart]] submit_batch_step by (auto intro: RStep mark_ok)
  qed
qed

text \<open>C32. Buffered inputs are batched soundly: in every interleaving of appends, seals, dispatches that may
stop half way, and the ledger's own transactions, a partition has at most one batch that is being
prepared or whose run has not ended; items enter batches in the order they were accepted; a batch
is never empty, never larger than the size its items were accepted with, and holds only items of
its partition with its definition and configuration.\<close>

theorem buffer_sound:
  assumes "buffer_run sha quota (L, B)"
  shows "(\<forall>b \<in> set (bf_batches B). \<forall>b' \<in> set (bf_batches B).
      batch_active (root_state_of L) b \<and> batch_active (root_state_of L) b' \<and> batch_partition b = batch_partition b' \<longrightarrow> b = b') \<and>
    (\<forall>b \<in> set (bf_batches B). batch_items B (bb_batch_id b) \<noteq> [] \<and>
      (\<forall>i \<in> set (batch_items B (bb_batch_id b)). int (length (batch_items B (bb_batch_id b))) \<le> bi_batch_size i \<and>
         item_partition i = batch_partition b \<and> bi_definition i = bb_definition b \<and> bi_configuration i = bb_configuration b)) \<and>
    batched_in_order (bf_items B) \<and> distinct (map bi_item_id (bf_items B))"
proof -
  have ok: "buffer_ok (root_state_of L) B" using buffer_run_ok [OF assms] by simp
  have "item_partition i = batch_partition b \<and> bi_definition i = bb_definition b \<and> bi_configuration i = bb_configuration b"
    if "b \<in> set (bf_batches B)" "i \<in> set (batch_items B (bb_batch_id b))" for b i
  proof -
    have "find_batch B (bb_batch_id b) = Some b" using ok that(1) by (simp add: buffer_ok_def lookup_row_iff)
    with ok that(2) show ?thesis by (auto simp: buffer_ok_def items_filed_def batch_items_def)
  qed
  with ok show ?thesis unfolding buffer_ok_def one_active_def batches_bounded_def by blast
qed

text \<open>An append is accepted once: a known submission key with the same input answers the same item and
changes nothing, however often it is repeated and in whatever state, one with other content is
refused, and a new item is accepted only below the quotas of the service, the tenant and the
partition and within the policy's bounds.\<close>

theorem append_item_outcome:
  assumes "append_item c sha control tenant q definition quota rs B = Inr (B', k)"
  shows "append_item c' sha control' tenant q definition' quota' rs' B' = Inr (B', k) \<and>
    (bs_input q' = bs_input q \<or> bs_submission_key q' \<noteq> bs_submission_key q \<or>
      append_item c' sha control' tenant q' definition' quota' rs' B' = Inl (RuntimeConflict ''buffered submission key/input conflict'')) \<and>
    (B' = B \<or> (\<exists>i limits. bf_items B' = bf_items B @ [i] \<and> bi_batch i = None \<and> bi_item_id i = k \<and> bi_input i = bs_input q \<and>
      td_buffering definition = Some limits \<and> bs_batch_size q \<le> bl_max_batch_size limits \<and>
      int (length (filter (item_pending rs B) (bf_items B))) < quota))"
proof -
  obtain i where i: "find (\<lambda>j. bi_tenant j = tenant \<and> bi_key j = bs_submission_key q) (bf_items B') = Some i"
    "bi_item_id i = k" "bi_input i = bs_input q" "bi_task_type i = bs_task_type q" "bi_partition i = bs_partition_key q"
  proof (cases "find (\<lambda>j. bi_tenant j = tenant \<and> bi_key j = bs_submission_key q) (bf_items B)")
    case (Some j)
    with assms have "B' = B" "bi_item_id j = k" "bi_input j = bs_input q" "bi_task_type j = bs_task_type q" "bi_partition j = bs_partition_key q"
      by (auto simp: append_item_def split: if_splits)
    with Some that show ?thesis by blast
  next
    case None
    from assms show ?thesis
    proof (cases rule: append_item_cases)
      case (new limits j)
      have "find (\<lambda>j. bi_tenant j = tenant \<and> bi_key j = bs_submission_key q) (bf_items B') = Some j"
        using None by (simp add: new(3) find_append new(2) new_item_def)
      then show ?thesis using that new(4) by (simp add: new(2) new_item_def)
    qed (use None in \<open>auto simp: find_None_iff\<close>)
  qed
  have again: "append_item c' sha control' tenant q definition' quota' rs' B' = Inr (B', k)"
    using i by (simp add: append_item_def)
  have conflict: "append_item c' sha control' tenant q' definition' quota' rs' B' = Inl (RuntimeConflict ''buffered submission key/input conflict'')"
    if "bs_submission_key q' = bs_submission_key q" "bs_input q' \<noteq> bs_input q"
    using i that by (simp add: append_item_def)
  from assms have "B' = B \<or> (\<exists>i limits. bf_items B' = bf_items B @ [i] \<and> bi_batch i = None \<and> bi_item_id i = k \<and> bi_input i = bs_input q \<and>
      td_buffering definition = Some limits \<and> bs_batch_size q \<le> bl_max_batch_size limits \<and>
      int (length (filter (item_pending rs B) (bf_items B))) < quota)"
    by (cases rule: append_item_cases) (auto simp: new_item_def)
  with again conflict show ?thesis by blast
qed

section \<open>Two inputs and their batch\<close>

definition demo_limits :: buffer_limits where
  "demo_limits = \<lparr>bl_max_batch_size = 4, bl_max_delay = 60, bl_max_item_bytes = None, bl_per_tenant = 5, bl_per_partition = 5\<rparr>"

definition demo_definition :: task_definition where
  "demo_definition = \<lparr>td_buffering = Some demo_limits, td_control_queue = None, td_task_queue = ''q'', td_deadline_seconds = 60,
     td_budget_limit = 100, td_priority = None\<rparr>"

definition demo_submission :: "string \<Rightarrow> buffered_submission" where
  "demo_submission key = \<lparr>bs_task_type = ''memory'', bs_submission_key = key, bs_partition_key = ''p'', bs_input = demo_artifact key,
     bs_configuration = demo_artifact ''c'', bs_delay = 0, bs_batch_size = 2\<rparr>"

definition demo_item :: "string \<Rightarrow> string option \<Rightarrow> buffer_item" where
  "demo_item key batch = (new_item (demo_clock 5) id ''t'' (demo_submission key) (demo_definition\<lparr>td_control_queue := Some ''cq''\<rparr>))\<lparr>bi_batch := batch\<rparr>"

definition demo_buffer :: "nat \<Rightarrow> buffer" where
  "demo_buffer n = \<lparr>bf_items = take n [demo_item ''k1'' None, demo_item ''k2'' None], bf_batches = []\<rparr>"

definition demo_sealed :: buffer where
  "demo_sealed =
     (let b = new_batch (demo_clock 6) id (demo_item ''k1'' None) in
      \<lparr>bf_items = [demo_item ''k1'' (Some (bb_batch_id b)), demo_item ''k2'' (Some (bb_batch_id b))], bf_batches = [b]\<rparr>)"

lemma demo_appends:
  "append_item (demo_clock 5) id ''cq'' ''t'' (demo_submission ''k1'') demo_definition 10 (root_state_of empty_ledger) empty_buffer =
     Inr (demo_buffer 1, bi_item_id (demo_item ''k1'' None))"
  "append_item (demo_clock 5) id ''cq'' ''t'' (demo_submission ''k2'') demo_definition 10 (root_state_of empty_ledger) (demo_buffer 1) =
     Inr (demo_buffer 2, bi_item_id (demo_item ''k2'' None))"
  by code_simp+

lemma demo_seals:
  "seal (demo_clock 6) id (root_state_of empty_ledger) 1 (demo_buffer 2) =
     Inr (demo_sealed, [new_batch (demo_clock 6) id (demo_item ''k1'' None)])"
  by code_simp

theorem buffer_sound_witness: "batch_items demo_sealed (bb_batch_id (hd (bf_batches demo_sealed))) \<noteq> []"
proof -
  have "valid_submission (demo_submission ''k1'')" "valid_submission (demo_submission ''k2'')" by code_simp+
  note run = BSeal [OF BAppend [OF BAppend [OF BStart this(1) demo_appends(1) [folded empty_buffer_def]] this(2) demo_appends(2)] demo_seals]
  show ?thesis using buffer_sound [OF run] by (simp add: demo_sealed_def Let_def)
qed

theorem append_item_outcome_witness:
  "append_item (demo_clock 9) id ''cq'' ''t'' (demo_submission ''k1'') demo_definition 0 (root_state_of empty_ledger) (demo_buffer 1) =
     Inr (demo_buffer 1, bi_item_id (demo_item ''k1'' None))"
  using append_item_outcome [OF demo_appends(1), of "demo_clock 9" "''cq''" demo_definition 0 "root_state_of empty_ledger"] by blast

end
