(* ===== verification/Preparation.thy ===== *)
theory Preparation
  imports Drivers "HOL-Library.Multiset"
begin

text \<open>
  Sizing and validation of text prompts (\<open>preparation.py\<close>): the accepted parameters, the tool
  definitions, the conversation with its tool turns, and the token bound. The template and the
  tokenizer of the engine are arguments, and so is the length of the dumped payload.
\<close>

section \<open>Messages\<close>

definition jkeys :: "json \<Rightarrow> string set" where
  "jkeys j = (case j of JDict d \<Rightarrow> fst ` set d | _ \<Rightarrow> {})"

definition is_str :: "json \<Rightarrow> bool" where
  "is_str j \<longleftrightarrow> as_string j \<noteq> None"

definition the_str :: "json \<Rightarrow> string" where
  "the_str j = (case as_string j of Some s \<Rightarrow> s | None \<Rightarrow> [])"

text \<open>The identity of a well-formed tool call.\<close>

definition call_identity :: "json \<Rightarrow> string option" where
  "call_identity call =
     (let function = jget ''function'' call in
      if is_dict call \<and> jkeys call = {''id'', ''type'', ''function''} \<and> jget ''type'' call = JString ''function'' \<and>
         nonempty_string (jget ''id'' call) \<and>
         is_dict function \<and> jkeys function = {''name'', ''arguments''} \<and>
         is_str (jget ''name'' function) \<and> is_str (jget ''arguments'' function)
      then Some (the_str (jget ''id'' call)) else None)"

definition result_shape :: "json \<Rightarrow> bool" where
  "result_shape m \<longleftrightarrow> jkeys m = {''role'', ''content'', ''tool_call_id''} \<and> is_str (jget ''content'' m) \<and>
     is_str (jget ''tool_call_id'' m)"

definition turn_shape :: "json \<Rightarrow> bool" where
  "turn_shape m \<longleftrightarrow> jkeys m = {''role'', ''content'', ''tool_calls''} \<and>
     (jget ''content'' m = JNull \<or> is_str (jget ''content'' m)) \<and>
     (case jget ''tool_calls'' m of JList calls \<Rightarrow> 1 \<le> length calls \<and> length calls \<le> 16 | _ \<Rightarrow> False)"

definition turn_calls :: "json \<Rightarrow> json list" where
  "turn_calls m = (case jget ''tool_calls'' m of JList calls \<Rightarrow> calls | _ \<Rightarrow> [])"

definition plain_shape :: "json \<Rightarrow> bool" where
  "plain_shape m \<longleftrightarrow> jkeys m = {''role'', ''content''} \<and>
     jget ''role'' m \<in> {JString ''system'', JString ''user'', JString ''assistant''} \<and> is_str (jget ''content'' m)"

text \<open>The loop over the calls of a turn: each must be new.\<close>

fun open_calls :: "json list \<Rightarrow> string list \<times> string list \<Rightarrow> (string list \<times> string list) option" where
  "open_calls [] s = Some s"
| "open_calls (call # calls) (pending, seen) =
     (case call_identity call of
        None \<Rightarrow> None
      | Some i \<Rightarrow> (if i \<in> set seen then None else open_calls calls (i # pending, i # seen)))"

text \<open>One message; the state is the outstanding calls and every call seen.\<close>

definition message_step :: "bool \<Rightarrow> json \<Rightarrow> string list \<times> string list \<Rightarrow> (string list \<times> string list) option" where
  "message_step allow_tools m s =
     (case s of (pending, seen) \<Rightarrow>
        if \<not> is_dict m then None
        else if jget ''role'' m = JString ''tool'' \<and> allow_tools
          then (if result_shape m \<and> the_str (jget ''tool_call_id'' m) \<in> set pending
                then Some (remove1 (the_str (jget ''tool_call_id'' m)) pending, seen) else None)
        else if pending \<noteq> [] then None
        else if allow_tools \<and> jget ''role'' m = JString ''assistant'' \<and> jget ''tool_calls'' m \<noteq> JNull
          then (if turn_shape m then open_calls (turn_calls m) (pending, seen) else None)
        else if plain_shape m then Some (pending, seen) else None)"

fun run_messages :: "bool \<Rightarrow> json list \<Rightarrow> string list \<times> string list \<Rightarrow> bool" where
  "run_messages allow_tools [] (pending, seen) = (pending = [])"
| "run_messages allow_tools (m # ms) s =
     (case message_step allow_tools m s of None \<Rightarrow> False | Some s' \<Rightarrow> run_messages allow_tools ms s')"

definition validate_messages :: "bool \<Rightarrow> json \<Rightarrow> bool" where
  "validate_messages allow_tools messages =
     (case messages of JList ms \<Rightarrow> ms \<noteq> [] \<and> run_messages allow_tools ms ([], []) | _ \<Rightarrow> False)"

section \<open>Tools\<close>

definition tool_name :: "json \<Rightarrow> string option" where
  "tool_name tool =
     (let d = jget ''function'' tool in
      if is_dict tool \<and> jkeys tool = {''type'', ''function''} \<and> jget ''type'' tool = JString ''function'' \<and>
         is_dict d \<and> jkeys d \<subseteq> {''name'', ''description'', ''parameters'', ''strict''} \<and>
         nonempty_string (jget ''name'' d) \<and> is_dict (jget ''parameters'' d)
      then Some (the_str (jget ''name'' d)) else None)"

fun distinct_tools :: "json list \<Rightarrow> string list \<Rightarrow> bool" where
  "distinct_tools [] names = True"
| "distinct_tools (t # ts) names =
     (case tool_name t of None \<Rightarrow> False | Some n \<Rightarrow> n \<notin> set names \<and> distinct_tools ts (n # names))"

definition validate_tools :: "json \<Rightarrow> bool" where
  "validate_tools tools = (case tools of JList ts \<Rightarrow> 1 \<le> length ts \<and> length ts \<le> 64 \<and> distinct_tools ts [] | _ \<Rightarrow> False)"

section \<open>Sizing\<close>

record sizer =
  sz_model :: string
  sz_profile_id :: string
  sz_context_limit :: int
  sz_token_margin :: int
  sz_expected_output :: int
  sz_response_formats :: "string list"
  sz_allow_tools :: bool

definition valid_sizer :: "sizer \<Rightarrow> bool" where
  "valid_sizer z \<longleftrightarrow> sz_profile_id z \<noteq> [] \<and> 0 < sz_context_limit z \<and> 0 \<le> sz_token_margin z \<and> 0 < sz_expected_output z \<and>
     sz_response_formats z \<noteq> [] \<and> set (sz_response_formats z) \<subseteq> {''text'', ''json_object'', ''json_schema''}"

definition jget_or :: "string \<Rightarrow> json \<Rightarrow> json \<Rightarrow> json" where
  "jget_or k other j = (if jhas k j then jget k j else other)"

definition sizer_fields :: "bool \<Rightarrow> string set" where
  "sizer_fields tools = {''messages'', ''temperature'', ''top_p'', ''seed'', ''stop'', ''chat_template_kwargs'', ''response_format'',
     ''presence_penalty'', ''frequency_penalty''} \<union> (if tools then {''tools'', ''tool_choice'', ''parallel_tool_calls''} else {})"

definition valid_format :: "sizer \<Rightarrow> json \<Rightarrow> bool" where
  "valid_format z f \<longleftrightarrow> is_dict f \<and>
     (case jget ''type'' f of JString t \<Rightarrow> t \<in> set (sz_response_formats z) \<and>
        (t = ''json_schema'' \<longrightarrow> is_dict (jget ''json_schema'' f) \<and> is_dict (jget ''schema'' (jget ''json_schema'' f)))
      | _ \<Rightarrow> False)"

text \<open>\<open>template_options in ({}, {"enable_thinking": False})\<close>; a zero equals \<open>False\<close>.\<close>

definition valid_template :: "json \<Rightarrow> bool" where
  "valid_template t \<longleftrightarrow> is_dict t \<and> (jkeys t = {} \<or> jkeys t = {''enable_thinking''} \<and>
     jget ''enable_thinking'' t \<in> {JBool False, JInt 0, JFloat ''0.0'', JFloat ''-0.0''})"

definition valid_prompt :: "sizer \<Rightarrow> (string \<times> json) list \<Rightarrow> bool" where
  "valid_prompt z d \<longleftrightarrow>
     (let p = JDict d in
      jkeys p \<subseteq> sizer_fields (sz_allow_tools z) \<and>
      valid_format z (jget_or ''response_format'' (JDict [(''type'', JString ''text'')]) p) \<and>
      valid_template (jget_or ''chat_template_kwargs'' (JDict []) p) \<and>
      validate_messages (sz_allow_tools z) (jget ''messages'' p) \<and>
      (jhas ''tools'' p \<longrightarrow> validate_tools (jget ''tools'' p)) \<and>
      jget_or ''tool_choice'' (JString ''auto'') p \<in> {JString ''auto'', JString ''none'', JString ''required''} \<and>
      (jhas ''parallel_tool_calls'' p \<longrightarrow> is_bool (jget ''parallel_tool_calls'' p)))"

datatype size_error = Size_invalid | Size_too_long

record sized =
  si_input_bound :: int
  si_max_output :: int
  si_expected_cost :: int
  si_profile_id :: string

text \<open>
  \<open>size\<close>: \<open>bytes\<close> is the length of the dumped payload, \<open>template\<close> the engine's prompt (a JSON
  value, or nothing when the call fails), \<open>tokenize\<close> the tokens of a prompt.
\<close>

definition size_prompt ::
    "sizer \<Rightarrow> (json \<Rightarrow> int) \<Rightarrow> (json \<Rightarrow> json) \<Rightarrow> (string \<Rightarrow> json) \<Rightarrow> (string \<times> json) list \<Rightarrow> int \<Rightarrow> size_error + sized" where
  "size_prompt z bytes template tokenize d max_output =
     (if \<not> valid_prompt z d \<or> 1024 * 1024 < bytes (JDict d) then Inl Size_invalid
      else case template (JDict d) of
          JString prompt \<Rightarrow>
            (case tokenize prompt of
               JList tokens \<Rightarrow>
                 (if list_ex (\<lambda>t. plain_int t = None) tokens then Inl Size_invalid
                  else
                    (let bound = int (length tokens) + sz_token_margin z in
                     if sz_context_limit z < bound + max_output then Inl Size_too_long
                     else Inr \<lparr>si_input_bound = bound, si_max_output = max_output,
                            si_expected_cost = bound + min max_output (sz_expected_output z), si_profile_id = sz_profile_id z\<rparr>))
             | _ \<Rightarrow> Inl Size_invalid)
        | _ \<Rightarrow> Inl Size_invalid)"

section \<open>The grammar of a conversation\<close>

text \<open>
  A conversation is a sequence of plain messages and tool turns; a turn is an assistant message
  and the results of its calls, each once, in any order.
\<close>

datatype block = Plain json | Turn json "json list"

fun block_messages :: "block \<Rightarrow> json list" where
  "block_messages (Plain m) = [m]"
| "block_messages (Turn a rs) = a # rs"

definition turn_ids :: "json \<Rightarrow> string list" where
  "turn_ids a = map (the \<circ> call_identity) (turn_calls a)"

definition is_result :: "json \<Rightarrow> bool" where
  "is_result m \<longleftrightarrow> is_dict m \<and> jget ''role'' m = JString ''tool'' \<and> result_shape m"

definition result_id :: "json \<Rightarrow> string" where
  "result_id m = the_str (jget ''tool_call_id'' m)"

definition opens_turn :: "json \<Rightarrow> bool" where
  "opens_turn a \<longleftrightarrow> is_dict a \<and> jget ''role'' a = JString ''assistant'' \<and> turn_shape a \<and>
     list_all (\<lambda>c. call_identity c \<noteq> None) (turn_calls a)"

fun block_ok :: "bool \<Rightarrow> block \<Rightarrow> bool" where
  "block_ok tools (Plain m) \<longleftrightarrow> is_dict m \<and> plain_shape m"
| "block_ok tools (Turn a rs) \<longleftrightarrow> tools \<and> opens_turn a \<and> list_all is_result rs \<and> mset (map result_id rs) = mset (turn_ids a)"

fun block_ids :: "block \<Rightarrow> string list" where
  "block_ids (Plain m) = []"
| "block_ids (Turn a rs) = turn_ids a"

definition conversation :: "bool \<Rightarrow> json list \<Rightarrow> bool" where
  "conversation tools ms \<longleftrightarrow> ms \<noteq> [] \<and>
     (\<exists>bs. ms = concat (map block_messages bs) \<and> list_all (block_ok tools) bs \<and> distinct (concat (map block_ids bs)))"

section \<open>The validator recognizes the grammar\<close>

lemma open_calls_iff:
  "open_calls calls (pending, seen) = Some s \<longleftrightarrow>
     list_all (\<lambda>c. call_identity c \<noteq> None) calls \<and>
     (let ids = map (the \<circ> call_identity) calls in
      distinct ids \<and> set ids \<inter> set seen = {} \<and> s = (rev ids @ pending, rev ids @ seen))"
proof (induction calls arbitrary: pending seen)
  case (Cons c calls)
  show ?case
  proof (cases "call_identity c")
    case (Some i)
    show ?thesis
    proof (cases "i \<in> set seen")
      case False
      then show ?thesis using Some Cons.IH [of "i # pending" "i # seen"] by (simp add: Let_def) blast
    qed (simp add: Some Let_def)
  qed simp
qed (auto simp: Let_def)

lemma plain_not_tool:
  assumes "plain_shape m"
  shows "jget ''role'' m \<noteq> JString ''tool''"
proof -
  have "jget ''role'' m = JString ''system'' \<or> jget ''role'' m = JString ''user'' \<or> jget ''role'' m = JString ''assistant''"
    using assms by (simp add: plain_shape_def)
  then show ?thesis by (elim disjE) simp_all
qed

lemma jget_absent: "is_dict m \<Longrightarrow> k \<notin> jkeys m \<Longrightarrow> jget k m = JNull"
proof -
  assume "is_dict m" "k \<notin> jkeys m"
  then obtain d where "m = JDict d" "k \<notin> fst ` set d" by (cases m) (auto simp: jkeys_def)
  moreover from this(2) have "find (\<lambda>kv. fst kv = k) (rev d) = None" by (force simp: find_None_iff)
  ultimately show ?thesis by (simp add: jlookup_def)
qed

lemma plain_no_calls: "is_dict m \<Longrightarrow> plain_shape m \<Longrightarrow> jget ''tool_calls'' m = JNull"
  by (rule jget_absent) (simp_all add: plain_shape_def)

lemma step_plain: "is_dict m \<Longrightarrow> plain_shape m \<Longrightarrow> message_step tools m ([], seen) = Some ([], seen)"
  using plain_not_tool [of m] plain_no_calls [of m] by (simp add: message_step_def)

lemma step_turn:
  assumes "opens_turn a" "distinct (turn_ids a)" "set (turn_ids a) \<inter> set seen = {}"
  shows "message_step True a ([], seen) = Some (rev (turn_ids a), rev (turn_ids a) @ seen)"
proof -
  have "turn_shape a" using assms(1) by (simp add: opens_turn_def)
  then have "jget ''tool_calls'' a \<noteq> JNull" by (intro notI) (simp add: turn_shape_def)
  moreover have "open_calls (turn_calls a) ([], seen) = Some (rev (turn_ids a), rev (turn_ids a) @ seen)"
    using assms by (simp add: open_calls_iff opens_turn_def turn_ids_def Let_def)
  ultimately show ?thesis using assms(1) by (simp add: message_step_def opens_turn_def)
qed

lemma run_results:
  "list_all is_result rs \<Longrightarrow> mset (map result_id rs) = mset pending \<Longrightarrow>
   run_messages True (rs @ ms) (pending, seen) = run_messages True ms ([], seen)"
proof (induction rs arbitrary: pending)
  case (Cons r rs)
  from Cons.prems(2) have r: "result_id r \<in> set pending" by (metis list.set_intros(1) list.simps(9) mset_eq_setD)
  have "message_step True r (pending, seen) = Some (remove1 (result_id r) pending, seen)"
    using Cons.prems(1) r by (simp add: message_step_def is_result_def result_id_def)
  moreover have "mset (map result_id rs) = mset (remove1 (result_id r) pending)"
    using Cons.prems(2) by (simp flip: Cons.prems(2))
  ultimately show ?case using Cons.IH [of "remove1 (result_id r) pending"] Cons.prems(1) by simp
qed simp

lemma run_blocks:
  assumes "list_all (block_ok tools) bs" "distinct (concat (map block_ids bs))" "set (concat (map block_ids bs)) \<inter> set seen = {}"
  shows "run_messages tools (concat (map block_messages bs)) ([], seen)"
  using assms
proof (induction bs arbitrary: seen)
  case (Cons b bs)
  show ?case
  proof (cases b)
    case (Plain m)
    with Cons show ?thesis by (simp add: step_plain)
  next
    case (Turn a rs)
    with Cons.prems have a: "tools" "opens_turn a" "list_all is_result rs" "mset (map result_id rs) = mset (rev (turn_ids a))"
      "distinct (turn_ids a)" "set (turn_ids a) \<inter> set seen = {}" by auto
    have "run_messages tools (concat (map block_messages bs)) ([], rev (turn_ids a) @ seen)"
      by (rule Cons.IH) (use Cons.prems Turn in auto)
    then show ?thesis using step_turn [OF a(2,5,6)] run_results [OF a(3,4)] a(1) by (simp add: Turn)
  qed
qed simp

text \<open>An accepting run from a state with calls outstanding: first their results, then blocks.\<close>

lemma run_parses:
  assumes "run_messages tools ms (pending, seen)" "set pending \<subseteq> set seen" "distinct pending" "pending \<noteq> [] \<longrightarrow> tools"
  shows "\<exists>rs bs. ms = rs @ concat (map block_messages bs) \<and> list_all is_result rs \<and> mset (map result_id rs) = mset pending \<and>
    list_all (block_ok tools) bs \<and> distinct (concat (map block_ids bs)) \<and> set (concat (map block_ids bs)) \<inter> set seen = {}"
  using assms
proof (induction ms arbitrary: pending seen)
  case Nil
  then show ?case by (intro exI [of _ "[]"]) simp
next
  case (Cons m ms)
  from Cons.prems(1) obtain s' where step: "message_step tools m (pending, seen) = Some s'" and run: "run_messages tools ms s'"
    by (auto split: option.splits)
  from step have dict: "is_dict m" by (auto simp: message_step_def split: if_splits)
  show ?case
  proof (cases "jget ''role'' m = JString ''tool'' \<and> tools")
    case True
    with step dict have m: "is_result m" "result_id m \<in> set pending" "s' = (remove1 (result_id m) pending, seen)"
      by (auto simp: message_step_def is_result_def result_id_def split: if_splits)
    have "\<exists>rs bs. ms = rs @ concat (map block_messages bs) \<and> list_all is_result rs \<and> mset (map result_id rs) = mset (remove1 (result_id m) pending) \<and>
      list_all (block_ok tools) bs \<and> distinct (concat (map block_ids bs)) \<and> set (concat (map block_ids bs)) \<inter> set seen = {}"
      by (rule Cons.IH [OF run [unfolded m(3)]]) (use Cons.prems(2-) True in \<open>auto dest: notin_set_remove1\<close>)
    then obtain rs bs where "ms = rs @ concat (map block_messages bs)" "list_all is_result rs" "mset (map result_id rs) = mset (remove1 (result_id m) pending)"
      "list_all (block_ok tools) bs" "distinct (concat (map block_ids bs))" "set (concat (map block_ids bs)) \<inter> set seen = {}" by blast
    with m show ?thesis by (intro exI [of _ "m # rs"] exI [of _ bs]) simp
  next
    case False
    with step dict have none: "pending = []" by (auto simp: message_step_def split: if_splits)
    show ?thesis
    proof (cases "tools \<and> jget ''role'' m = JString ''assistant'' \<and> jget ''tool_calls'' m \<noteq> JNull")
      case True
      with step dict False none have "turn_shape m" "open_calls (turn_calls m) ([], seen) = Some s'"
        by (auto simp: message_step_def split: if_splits)
      then have turn: "opens_turn m" "distinct (turn_ids m)" "set (turn_ids m) \<inter> set seen = {}" "s' = (rev (turn_ids m), rev (turn_ids m) @ seen)"
        using dict True by (auto simp: open_calls_iff opens_turn_def turn_ids_def Let_def)
      have "\<exists>rs bs. ms = rs @ concat (map block_messages bs) \<and> list_all is_result rs \<and> mset (map result_id rs) = mset (rev (turn_ids m)) \<and>
        list_all (block_ok tools) bs \<and> distinct (concat (map block_ids bs)) \<and> set (concat (map block_ids bs)) \<inter> set (rev (turn_ids m) @ seen) = {}"
        by (rule Cons.IH [OF run [unfolded turn(4)]]) (use turn True in auto)
      then obtain rs bs where "ms = rs @ concat (map block_messages bs)" "list_all is_result rs" "mset (map result_id rs) = mset (turn_ids m)"
        "list_all (block_ok tools) bs" "distinct (concat (map block_ids bs))" "set (concat (map block_ids bs)) \<inter> set (rev (turn_ids m) @ seen) = {}" by auto
      with turn True none show ?thesis by (intro exI [of _ "[]"] exI [of _ "Turn m rs # bs"]) auto
    next
      case plain: False
      with step dict False none have "plain_shape m" "s' = ([], seen)" by (auto simp: message_step_def split: if_splits)
      with Cons.IH [OF run [unfolded this(2)]] obtain rs bs where "ms = rs @ concat (map block_messages bs)" "rs = []"
        "list_all (block_ok tools) bs" "distinct (concat (map block_ids bs))" "set (concat (map block_ids bs)) \<inter> set seen = {}" by auto
      with none dict \<open>plain_shape m\<close> show ?thesis by (intro exI [of _ "[]"] exI [of _ "Plain m # bs"]) simp
    qed
  qed
qed

text \<open>C39. The validator of conversations accepts exactly the grammar: a message list passes if and only if it
is a nonempty sequence of plain messages and tool turns in which every call is answered exactly
once before the next turn, only its own results follow it, and no call identity is used twice.\<close>

theorem validate_messages_iff: "validate_messages tools (JList ms) \<longleftrightarrow> conversation tools ms"
proof
  assume "validate_messages tools (JList ms)"
  then have "ms \<noteq> []" and run: "run_messages tools ms ([], [])" by (auto simp: validate_messages_def)
  with run_parses [OF run] show "conversation tools ms" by (auto simp: conversation_def)
next
  assume "conversation tools ms"
  then show "validate_messages tools (JList ms)"
    using run_blocks [of tools _ "[]"] by (auto simp: validate_messages_def conversation_def)
qed

lemma valid_prompt_messages: "valid_prompt z d \<Longrightarrow> validate_messages (sz_allow_tools z) (jget ''messages'' (JDict d))"
  unfolding valid_prompt_def Let_def by blast

text \<open>A sized prompt fits: its bound covers every token of the engine's prompt and the margin, bound and
output stay within the context limit, and the expected cost lies between the bound and both.\<close>

theorem sized_prompt_fits:
  assumes "valid_sizer z" and "size_prompt z bytes template tokenize d max_output = Inr s" and "0 < max_output"
  shows "\<exists>prompt tokens. template (JDict d) = JString prompt \<and> tokenize prompt = JList tokens \<and>
    si_input_bound s = int (length tokens) + sz_token_margin z \<and> int (length tokens) \<le> si_input_bound s \<and>
    si_input_bound s + si_max_output s \<le> sz_context_limit z \<and> si_max_output s = max_output \<and>
    si_input_bound s < si_expected_cost s \<and> si_expected_cost s \<le> si_input_bound s + si_max_output s \<and>
    validate_messages (sz_allow_tools z) (jget ''messages'' (JDict d)) \<and> bytes (JDict d) \<le> 1024 * 1024"
proof -
  from assms(2) have "valid_prompt z d" by (auto simp: size_prompt_def split: if_splits)
  then show ?thesis
    using assms valid_prompt_messages [of z d]
    by (auto simp: size_prompt_def valid_sizer_def Let_def split: if_splits json.splits)
qed

definition demo_sizer :: sizer where
  "demo_sizer = \<lparr>sz_model = ''m'', sz_profile_id = ''c'', sz_context_limit = 20, sz_token_margin = 2, sz_expected_output = 4,
     sz_response_formats = [''text''], sz_allow_tools = False\<rparr>"

definition demo_prompt :: "(string \<times> json) list" where
  "demo_prompt = [(''messages'', JList [JDict [(''role'', JString ''user''), (''content'', JString ''hi'')]])]"

lemma demo_size:
  "size_prompt demo_sizer (\<lambda>_. 60) (\<lambda>_. JString ''hi'') (\<lambda>_. JList [JInt 1, JInt 7]) demo_prompt 10 =
     Inr \<lparr>si_input_bound = 4, si_max_output = 10, si_expected_cost = 8, si_profile_id = ''c''\<rparr>"
proof -
  have "valid_prompt demo_sizer demo_prompt" by code_simp
  then show ?thesis by (simp add: size_prompt_def demo_sizer_def)
qed

theorem sized_prompt_fits_witness: "validate_messages False (jget ''messages'' (JDict demo_prompt)) \<and> (4 :: int) + 10 \<le> sz_context_limit demo_sizer"
proof -
  have "valid_sizer demo_sizer" by code_simp
  from sized_prompt_fits [OF this demo_size] show ?thesis by (simp add: demo_sizer_def)
qed

end
