(* ===== verification/Controller.thy ===== *)
theory Controller
  imports Complex_Main
begin

text \<open>
  The feedback controller (\<open>controller.py\<close>): a pure decision on the target of a pool. Ratios are
  rationals, a ratio that is missing or not finite is nothing, and instants are integers;
  \<open>scale\<close> is the floor of a floating point product.
\<close>

record control_profile =
  cp_hard_ceiling :: int
  cp_safe_target :: int
  cp_min_samples :: int
  cp_congestion_ratio :: rat
  cp_decrease_factor :: rat
  cp_cooldown :: int
  cp_max_age :: int
  cp_max_inflight_age :: int

definition valid_control_profile :: "control_profile \<Rightarrow> bool" where
  "valid_control_profile p \<longleftrightarrow>
     0 < cp_safe_target p \<and> cp_safe_target p \<le> cp_hard_ceiling p \<and> 0 < cp_min_samples p \<and> 1 < cp_congestion_ratio p \<and>
     0 < cp_decrease_factor p \<and> cp_decrease_factor p < 1 \<and> 0 < cp_cooldown p \<and> 0 < cp_max_age p \<and> 0 < cp_max_inflight_age p"

record control_sample =
  cs_observed_at :: int
  cs_samples :: int
  cs_latency_ratio :: "rat option"
  cs_pressure :: "bool option"
  cs_oldest_inflight :: int
  cs_healthy :: bool
  cs_demand :: bool
  cs_profile_matches :: bool

datatype control_reason = Unhealthy_or_mismatch | Stale_or_insufficient | Cooldown | Sustained_congestion | Bounded_probe | Hold

definition stale_sample :: "control_profile \<Rightarrow> control_sample \<Rightarrow> int \<Rightarrow> bool" where
  "stale_sample p s now \<longleftrightarrow> now < cs_observed_at s \<or> cp_max_age p < now - cs_observed_at s \<or>
     cs_samples s < cp_min_samples p \<or> cs_latency_ratio s = None"

definition congested :: "control_profile \<Rightarrow> control_sample \<Rightarrow> rat \<Rightarrow> bool" where
  "congested p s ratio \<longleftrightarrow> cp_congestion_ratio p < ratio \<and>
     (cs_pressure s = Some True \<or> cp_max_inflight_age p < cs_oldest_inflight s)"

definition decide_target ::
    "(int \<Rightarrow> rat \<Rightarrow> int) \<Rightarrow> control_profile \<Rightarrow> control_sample \<Rightarrow> int \<Rightarrow> int \<Rightarrow> int \<Rightarrow> int \<times> control_reason" where
  "decide_target scale p s target now last_change =
     (if \<not> cs_healthy s \<or> \<not> cs_profile_matches s then (0, Unhealthy_or_mismatch)
      else if stale_sample p s now then (min target (cp_safe_target p), Stale_or_insufficient)
      else
        (let ratio = the (cs_latency_ratio s) in
         if congested p s ratio
         then (if now - last_change < cp_cooldown p then (target, Cooldown)
               else (max 1 (scale target (cp_decrease_factor p)), Sustained_congestion))
         else if now - last_change < cp_cooldown p then (target, Cooldown)
         else if cs_demand s \<and> cs_pressure s = Some False \<and> ratio \<le> 1
           then (min (target + 1) (cp_hard_ceiling p), Bounded_probe)
         else (target, Hold)))"

text \<open>What the code relies on of the product of a count and a factor between 0 and 1.\<close>

definition scales_down :: "(int \<Rightarrow> rat \<Rightarrow> int) \<Rightarrow> bool" where
  "scales_down scale \<longleftrightarrow> (\<forall>t f. 0 \<le> t \<and> 0 < f \<and> f < 1 \<longrightarrow> 0 \<le> scale t f \<and> scale t f \<le> t)"

text \<open>The controller moves a target within its calibrated bounds: from a target between 0 and the
ceiling it decides one in those bounds; it stops the pool exactly when the engine is unhealthy or
its profile does not match, or a stopped pool is held; it adds at most one at a time, only outside
the cooldown and, from a running target, only on fresh samples with demand, no pressure and a
latency ratio of at most one; and on stale telemetry it never goes above the safe target.\<close>

theorem decide_target_bounded:
  assumes "valid_control_profile p" and "scales_down scale" and "0 \<le> target" and "target \<le> cp_hard_ceiling p"
    and "decide_target scale p s target now last_change = (t, why)"
  shows "0 \<le> t \<and> t \<le> cp_hard_ceiling p \<and> t \<le> target + 1 \<and>
    (t \<noteq> 0 \<or> target = 0 \<or> \<not> cs_healthy s \<or> \<not> cs_profile_matches s) \<and>
    (cs_healthy s \<and> cs_profile_matches s \<or> t = 0) \<and>
    (t \<le> target \<or> cp_cooldown p \<le> now - last_change \<and> \<not> stale_sample p s now \<and>
       (target = 0 \<or> cs_demand s \<and> cs_pressure s = Some False \<and> the (cs_latency_ratio s) \<le> 1)) \<and>
    (\<not> stale_sample p s now \<or> t \<le> cp_safe_target p)"
proof -
  have scaled: "0 \<le> scale target (cp_decrease_factor p)" "scale target (cp_decrease_factor p) \<le> target"
    using assms(1-3) by (auto simp: scales_down_def valid_control_profile_def)
  have profile: "0 < cp_safe_target p" "cp_safe_target p \<le> cp_hard_ceiling p" using assms(1) by (auto simp: valid_control_profile_def)
  consider (ill) "\<not> cs_healthy s \<or> \<not> cs_profile_matches s" "t = 0"
    | (stale) "cs_healthy s" "cs_profile_matches s" "stale_sample p s now" "t = min target (cp_safe_target p)"
    | (down) "cs_healthy s" "cs_profile_matches s" "\<not> stale_sample p s now" "cp_cooldown p \<le> now - last_change"
        "t = max 1 (scale target (cp_decrease_factor p))"
    | (up) "cs_healthy s" "cs_profile_matches s" "\<not> stale_sample p s now" "cp_cooldown p \<le> now - last_change"
        "cs_demand s" "cs_pressure s = Some False" "the (cs_latency_ratio s) \<le> 1" "t = min (target + 1) (cp_hard_ceiling p)"
    | (same) "cs_healthy s" "cs_profile_matches s" "\<not> stale_sample p s now" "t = target"
    using assms(5) by (auto simp: decide_target_def Let_def not_less split: if_splits)
  then show ?thesis
  proof cases
    case stale
    then show ?thesis using profile assms(3,4) by auto
  next
    case down
    then show ?thesis using profile scaled assms(3,4) by auto
  next
    case up
    then show ?thesis using profile assms(3,4) by auto
  qed (use profile assms(3,4) in auto)
qed

definition demo_profile :: control_profile where
  "demo_profile = \<lparr>cp_hard_ceiling = 8, cp_safe_target = 2, cp_min_samples = 5, cp_congestion_ratio = 3 / 2, cp_decrease_factor = 1 / 2,
     cp_cooldown = 30, cp_max_age = 10, cp_max_inflight_age = 60\<rparr>"

definition demo_sample :: control_sample where
  "demo_sample = \<lparr>cs_observed_at = 100, cs_samples = 9, cs_latency_ratio = Some 1, cs_pressure = Some False, cs_oldest_inflight = 3,
     cs_healthy = True, cs_demand = True, cs_profile_matches = True\<rparr>"

definition halve :: "int \<Rightarrow> rat \<Rightarrow> int" where
  "halve t f = t div 2"

theorem decide_target_bounded_witness: "decide_target halve demo_profile demo_sample 4 105 50 = (5, Bounded_probe) \<and> (5 :: int) \<le> 4 + 1"
proof -
  have d: "decide_target halve demo_profile demo_sample 4 105 50 = (5, Bounded_probe)"
    by (simp add: decide_target_def stale_sample_def congested_def demo_sample_def demo_profile_def)
  have "valid_control_profile demo_profile" "scales_down halve"
    by (auto simp: valid_control_profile_def demo_profile_def scales_down_def halve_def)
  from decide_target_bounded [OF this _ _ d] d show ?thesis by (simp add: demo_profile_def)
qed

end
