(* ===== verification/Language.thy ===== *)
theory Language
  imports Drivers "HOL-Library.Sublist" "HOL-Library.Multiset"
begin

text \<open>
  Output-language contracts (\<open>language.py\<close>): the strings of a value and their paths, the
  inspection under a policy, the checks a repair must pass, and the guarded port that asks for at
  most one repair. What the regular expressions and the language detector say of a text is an
  argument (\<open>han\<close>, \<open>number\<close>, \<open>fixed\<close>, \<open>wrong\<close>), and so are \<open>fnmatchcase\<close> and \<open>json.loads\<close>.
\<close>

section \<open>Strings of a value\<close>

datatype path_step = Key string | Index nat

type_synonym path = "path_step list"

function strings_of :: "json \<Rightarrow> (path \<times> string) list" where
  "strings_of (JString s) = [([], s)]"
| "strings_of (JDict d) = concat (map (\<lambda>(k, v). map (apfst ((#) (Key k))) (strings_of v)) d)"
| "strings_of (JList l) = concat (map (\<lambda>i. map (apfst ((#) (Index i))) (strings_of (l ! i))) [0..<length l])"
| "strings_of JNull = []"
| "strings_of (JBool b) = []"
| "strings_of (JInt n) = []"
| "strings_of (JFloat f) = []"
  by pat_completeness auto
termination
proof (relation "measure size")
  fix l :: "json list" and i
  assume "i \<in> set [0..<length l]"
  then have "l ! i \<in> set l" by auto
  then show "(l ! i, JList l) \<in> measure size" by (simp add: less_Suc_eq_le size_list_estimation')
next
  fix d :: "(string \<times> json) list" and x k v
  assume "x \<in> set d" "(k, v) = x"
  then show "(v, JDict d) \<in> measure size" by (induction d) auto
qed auto

text \<open>\<open>parent[issue.path[-1]] = text\<close> on a copy.\<close>

fun set_at :: "json \<Rightarrow> path \<Rightarrow> string \<Rightarrow> json" where
  "set_at v [] t = JString t"
| "set_at (JDict d) (Key k # p) t = JDict (map (\<lambda>(k', v). (k', if k' = k then set_at v p t else v)) d)"
| "set_at (JList l) (Index i # p) t = JList (l[i := set_at (l ! i) p t])"
| "set_at v (_ # _) t = v"

section \<open>Inspection\<close>

record language_policy =
  lp_target :: string
  lp_text_paths :: "string list"
  lp_protected_paths :: "string list"
  lp_protected_terms :: "string list"
  lp_version :: int

record detector =
  dt_match :: "string \<Rightarrow> string \<Rightarrow> bool"      \<comment> \<open>\<open>fnmatchcase\<close>\<close>
  dt_han :: "string \<Rightarrow> bool"
  dt_wrong :: "string \<Rightarrow> string \<Rightarrow> bool"       \<comment> \<open>text, target\<close>
  dt_fixed :: "string \<Rightarrow> string list"
  dt_number :: "string \<Rightarrow> bool"

fun step_text :: "path_step \<Rightarrow> string" where
  "step_text (Key k) = k"
| "step_text (Index i) = decimal i"

fun join_path :: "path \<Rightarrow> string" where
  "join_path [] = []"
| "join_path [s] = step_text s"
| "join_path (s # p) = step_text s @ ''/'' @ join_path p"

text \<open>\<open>str.replace(term, "")\<close> and \<open>str.count(term)\<close> for a nonempty term.\<close>

function remove_term :: "string \<Rightarrow> string \<Rightarrow> string" where
  "remove_term term [] = []"
| "remove_term term (c # s) =
     (if term \<noteq> [] \<and> prefix term (c # s) then remove_term term (drop (length term) (c # s)) else c # remove_term term s)"
  by pat_completeness auto
termination by (relation "measure (\<lambda>(term, s). length s)") auto

function count_term :: "string \<Rightarrow> string \<Rightarrow> nat" where
  "count_term term [] = 0"
| "count_term term (c # s) =
     (if term \<noteq> [] \<and> prefix term (c # s) then Suc (count_term term (drop (length term) (c # s))) else count_term term s)"
  by pat_completeness auto
termination by (relation "measure (\<lambda>(term, s). length s)") auto

definition without_terms :: "language_policy \<Rightarrow> string \<Rightarrow> string" where
  "without_terms pol text = foldl (\<lambda>s term. remove_term term s) text
     (filter (\<lambda>t. t \<noteq> []) (sort_key (\<lambda>t. - int (length t)) (lp_protected_terms pol)))"

definition permits_han :: "language_policy \<Rightarrow> bool" where
  "permits_han pol \<longleftrightarrow> takeWhile (\<lambda>c. c \<noteq> CHR ''-'') (lp_target pol) \<in> {''zh'', ''ja'', ''ko''}"

definition violates :: "detector \<Rightarrow> language_policy \<Rightarrow> path \<Rightarrow> string \<Rightarrow> bool" where
  "violates det pol p text \<longleftrightarrow>
     list_ex (dt_match det (join_path p)) (lp_text_paths pol) \<and> \<not> list_ex (dt_match det (join_path p)) (lp_protected_paths pol) \<and>
     (let candidate = without_terms pol text in
      \<not> permits_han pol \<and> dt_han det candidate \<or> 2 \<le> lp_version pol \<and> dt_wrong det candidate (lp_target pol))"

definition inspect_language :: "detector \<Rightarrow> language_policy \<Rightarrow> json \<Rightarrow> (path \<times> string) list" where
  "inspect_language det pol value =
     (if lp_version pol = 1 \<and> permits_han pol then []
      else filter (\<lambda>(p, text). violates det pol p text) (strings_of value))"

section \<open>Repairs\<close>

text \<open>The scan over the fixed tokens of the repair, with those of the original still to come.\<close>

fun keeps_tokens :: "(string \<Rightarrow> bool) \<Rightarrow> string list \<Rightarrow> string list \<Rightarrow> bool" where
  "keeps_tokens number old [] = (old = [])"
| "keeps_tokens number old (t # new) =
     (case old of
        o1 # os \<Rightarrow> (if t = o1 then keeps_tokens number os new else number t \<and> keeps_tokens number old new)
      | [] \<Rightarrow> number t \<and> keeps_tokens number old new)"

definition repair_keeps_fixed_tokens :: "detector \<Rightarrow> string \<Rightarrow> string \<Rightarrow> bool" where
  "repair_keeps_fixed_tokens det original repaired =
     (if dt_fixed det original = dt_fixed det repaired then True
      else if \<not> dt_han det original \<or> dt_han det repaired then False
      else keeps_tokens (dt_number det) (dt_fixed det original) (dt_fixed det repaired))"

definition repair_accepted :: "detector \<Rightarrow> language_policy \<Rightarrow> string \<Rightarrow> json \<Rightarrow> bool" where
  "repair_accepted det pol original j \<longleftrightarrow>
     (case as_string j of
        None \<Rightarrow> False
      | Some text \<Rightarrow> \<not> blank_text text \<and> repair_keeps_fixed_tokens det original text \<and>
          list_all (\<lambda>term. term = [] \<or> count_term term original = count_term term text) (lp_protected_terms pol))"

text \<open>The loop over issues and texts; a root path replaces the whole value.\<close>

fun apply_texts :: "detector \<Rightarrow> language_policy \<Rightarrow> (path \<times> string) list \<Rightarrow> json list \<Rightarrow> json \<Rightarrow> json option" where
  "apply_texts det pol [] [] v = Some v"
| "apply_texts det pol ((p, original) # issues) (j # js) v =
     (if repair_accepted det pol original j then apply_texts det pol issues js (set_at v p (the (as_string j))) else None)"
| "apply_texts det pol _ _ v = None"

definition apply_repair ::
    "(string \<Rightarrow> json option) \<Rightarrow> detector \<Rightarrow> language_policy \<Rightarrow> json \<Rightarrow> (path \<times> string) list \<Rightarrow> string \<Rightarrow> json option" where
  "apply_repair loads det pol value issues raw =
     (case loads raw of
        Some (JDict d) \<Rightarrow>
          (if fst ` set d \<noteq> {''texts''} then None
           else case jget ''texts'' (JDict d) of
               JList js \<Rightarrow>
                 (if length js \<noteq> length issues then None
                  else case apply_texts det pol issues js value of
                      None \<Rightarrow> None
                    | Some r \<Rightarrow> (if inspect_language det pol r \<noteq> [] then None else Some r))
             | _ \<Rightarrow> None)
      | _ \<Rightarrow> None)"

section \<open>The value of a completion\<close>

record completion =
  co_finish_reason :: json
  co_tool_calls :: bool           \<comment> \<open>\<open>message.get("tool_calls")\<close> is truthy\<close>
  co_content :: json

definition strip_text :: "string \<Rightarrow> string" where
  "strip_text s = rev (dropWhile py_space (rev (dropWhile py_space s)))"

definition fence :: string where
  "fence = ''```''"

text \<open>\<open>completion_value\<close>; \<open>None\<close>: the body is invalid. The flag says whether it can be checked.\<close>

definition completion_value :: "(string \<Rightarrow> json option) \<Rightarrow> completion \<Rightarrow> bool \<Rightarrow> (json \<times> bool) option" where
  "completion_value loads c structured =
     (if co_finish_reason c = JString ''tool_calls'' \<or> co_tool_calls c then Some (JString [], False)
      else case co_content c of
          JString text \<Rightarrow>
            (if co_finish_reason c \<notin> {JNull, JString ''stop''} then Some (JString text, False)
             else
               (let trimmed = strip_text text;
                    fenced = prefix (fence @ ''json'' @ [CHR 0x0A]) trimmed \<and> suffix fence trimmed;
                    candidate = (if fenced then strip_text (take (length trimmed - 3 - 8) (drop 8 trimmed)) else trimmed) in
                if fenced \<or> structured
                then (case loads candidate of Some j \<Rightarrow> Some (j, True) | None \<Rightarrow> Some (JString text, False))
                else Some (JString text, True)))
        | _ \<Rightarrow> None)"

section \<open>The guarded port\<close>

text \<open>\<open>constrain_messages\<close>: the instruction joins a leading system message of text, or becomes one.\<close>

definition constrain_messages :: "string \<Rightarrow> json list \<Rightarrow> json list" where
  "constrain_messages instruction messages =
     (case messages of
        JDict d # rest \<Rightarrow>
          (case (jget ''role'' (JDict d), jget ''content'' (JDict d)) of
             (JString role, JString text) \<Rightarrow>
               (if role = ''system''
                then JDict (map (\<lambda>(k, v). (k, if k = ''content'' then JString (text @ [CHR 0x0A, CHR 0x0A] @ instruction) else v)) d) # rest
                else JDict [(''role'', JString ''system''), (''content'', JString instruction)] # messages)
           | _ \<Rightarrow> JDict [(''role'', JString ''system''), (''content'', JString instruction)] # messages)
      | _ \<Rightarrow> JDict [(''role'', JString ''system''), (''content'', JString instruction)] # messages)"

record language_guard =
  lg_repairs :: nat
  lg_failures :: nat

definition new_guard :: language_guard where
  "new_guard = \<lparr>lg_repairs = 0, lg_failures = 0\<rparr>"

datatype guard_end =
    Guard_returns completion
  | Guard_refuses            \<comment> \<open>\<open>LanguageValidationError\<close>\<close>
  | Guard_raises string      \<comment> \<open>what the port raised\<close>

definition looks_structured :: "bool \<Rightarrow> completion \<Rightarrow> bool" where
  "looks_structured requested c \<longleftrightarrow> requested \<or>
     (case co_content c of JString s \<Rightarrow> (case dropWhile py_space s of ch # _ \<Rightarrow> ch \<in> {CHR ''{'', CHR ''[''} | [] \<Rightarrow> False) | _ \<Rightarrow> False)"

text \<open>
  One invocation: the port is asked for the completion and, if it violates the policy, for the
  repair. \<open>calls\<close> counts the port calls. \<open>dumps\<close> is \<open>json.dumps\<close> of a repaired structured value.
\<close>

definition guard_repair ::
    "(string \<Rightarrow> json option) \<Rightarrow> (json \<Rightarrow> string) \<Rightarrow> detector \<Rightarrow> language_policy \<Rightarrow> bool \<Rightarrow> completion \<Rightarrow> json \<Rightarrow>
     (path \<times> string) list \<Rightarrow> string + completion \<Rightarrow> completion option \<times> guard_end" where
  "guard_repair loads dumps det pol structured c value issues repaired =
     (case repaired of
        Inl e \<Rightarrow> (None, Guard_raises e)
      | Inr rc \<Rightarrow>
          (case completion_value loads rc False of
             Some (JString raw, True) \<Rightarrow>
               (case apply_repair loads det pol value issues raw of
                  Some accepted \<Rightarrow>
                    (let content = (if structured then JString (dumps accepted) else accepted) in
                     (Some (c\<lparr>co_content := content\<rparr>), Guard_returns (c\<lparr>co_content := content\<rparr>)))
                | None \<Rightarrow> (None, Guard_refuses))
           | _ \<Rightarrow> (None, Guard_refuses)))"

definition guard_invoke ::
    "(string \<Rightarrow> json option) \<Rightarrow> (json \<Rightarrow> string) \<Rightarrow> detector \<Rightarrow> language_policy \<Rightarrow> bool \<Rightarrow>
     string + completion \<Rightarrow> string + completion \<Rightarrow> language_guard \<Rightarrow> language_guard \<times> nat \<times> guard_end" where
  "guard_invoke loads dumps det pol requested answer repaired g =
     (if lg_failures g \<noteq> 0 then (g, 0, Guard_refuses)
      else case answer of
          Inl e \<Rightarrow> (g, 1, Guard_raises e)
        | Inr c \<Rightarrow>
            (if as_string (co_content c) = None \<and> \<not> falsy (co_content c) then (g, 1, Guard_raises ''AttributeError'')
             else case completion_value loads c (looks_structured requested c) of
               None \<Rightarrow> (g, 1, Guard_refuses)
             | Some (value, checkable) \<Rightarrow>
                 (let structured = looks_structured requested c \<or> as_string value = None;
                      issues = (if checkable then inspect_language det pol value else []) in
                  if issues = [] then (g, 1, Guard_returns c)
                  else if lg_repairs g \<noteq> 0 then (g\<lparr>lg_failures := lg_failures g + 1\<rparr>, 1, Guard_refuses)
                  else
                    (case guard_repair loads dumps det pol structured c value issues repaired of
                       (Some _, r) \<Rightarrow> (g\<lparr>lg_repairs := lg_repairs g + 1\<rparr>, 2, r)
                     | (None, r) \<Rightarrow> (g\<lparr>lg_repairs := lg_repairs g + 1, lg_failures := lg_failures g + 1\<rparr>, 2, r)))))"

end
