(* ===== verification/Language_Properties.thy ===== *)
theory Language_Properties
  imports Language
begin

text \<open>
  What a language repair may change and what the guarded port returns: an accepted repair touches
  exactly the strings found in violation, its fixed tokens are those of the original with numbers
  added at most, and a port gets one repair per leaf and no call after a failure.
\<close>

section \<open>Fixed tokens\<close>

lemma subseq_mset: "subseq xs ys \<Longrightarrow> mset xs \<subseteq># mset ys"
  by (induction rule: list_emb.induct) (auto intro: subset_mset.order_trans)

lemma extra_cons: "subseq xs ys \<Longrightarrow> mset (t # ys) - mset xs = add_mset t (mset ys - mset xs)"
  using subset_mset.add_diff_assoc [OF subseq_mset, of xs ys "{#t#}"] by simp

lemma keeps_tokens_sound: "keeps_tokens number old new \<Longrightarrow> subseq old new \<and> set_mset (mset new - mset old) \<subseteq> Collect number"
proof (induction new arbitrary: old)
  case (Cons t new)
  show ?case
  proof (cases old)
    case Nil
    with Cons.prems Cons.IH [of "[]"] show ?thesis by auto
  next
    case (Cons o1 os)
    show ?thesis
    proof (cases "t = o1")
      case True
      with Cons Cons.IH [of os] Cons.prems show ?thesis by simp
    next
      case False
      with Cons Cons.prems have "number t" and sub: "subseq old new" "set_mset (mset new - mset old) \<subseteq> Collect number"
        using Cons.IH [of old] by auto
      then show ?thesis by (auto simp: extra_cons simp del: mset.simps intro: list_emb_Cons)
    qed
  qed
qed simp

lemma keeps_tokens_complete: "subseq old new \<Longrightarrow> set_mset (mset new - mset old) \<subseteq> Collect number \<Longrightarrow> keeps_tokens number old new"
proof (induction new arbitrary: old)
  case (Cons t new)
  show ?case
  proof (cases old)
    case Nil
    with Cons.prems Cons.IH [of "[]"] show ?thesis by simp
  next
    case (Cons o1 os)
    show ?thesis
    proof (cases "t = o1")
      case True
      with Cons Cons.IH [of os] Cons.prems show ?thesis by simp
    next
      case False
      with Cons Cons.prems have sub: "subseq old new" by simp
      have "set_mset (add_mset t (mset new - mset old)) \<subseteq> Collect number" using Cons.prems(2) by (simp only: extra_cons [OF sub])
      with Cons.IH [OF sub] False Cons show ?thesis by simp
    qed
  qed
qed simp

text \<open>
  The check on the fixed tokens of a repair (URLs, brackets, numbers) is the one its comment
  promises: it passes exactly if the tokens are unchanged, or if the repair removes the Han of the
  original and its tokens are those of the original in their order with nothing but numbers added.
\<close>
theorem fixed_tokens_kept:
  "repair_keeps_fixed_tokens det original repaired =
     (dt_fixed det original = dt_fixed det repaired \<or>
      dt_han det original \<and> \<not> dt_han det repaired \<and> subseq (dt_fixed det original) (dt_fixed det repaired) \<and>
      set_mset (mset (dt_fixed det repaired) - mset (dt_fixed det original)) \<subseteq> Collect (dt_number det))"
  unfolding repair_keeps_fixed_tokens_def using keeps_tokens_sound keeps_tokens_complete by (auto simp: subset_iff)

section \<open>Replacing strings\<close>

text \<open>Parsed values have distinct keys; \<open>erase\<close> is a value without the content of its strings.\<close>

fun distinct_keys :: "json \<Rightarrow> bool" where
  "distinct_keys (JDict d) = (distinct (map fst d) \<and> list_all (\<lambda>kv. distinct_keys (snd kv)) d)"
| "distinct_keys (JList l) = list_all distinct_keys l"
| "distinct_keys _ = True"

fun erase :: "json \<Rightarrow> json" where
  "erase (JString s) = JString []"
| "erase (JDict d) = JDict (map (\<lambda>kv. (fst kv, erase (snd kv))) d)"
| "erase (JList l) = JList (map erase l)"
| "erase v = v"

definition retext :: "path \<Rightarrow> string \<Rightarrow> path \<times> string \<Rightarrow> path \<times> string" where
  "retext p t = (\<lambda>(q, s). (q, if q = p then t else s))"

lemma path_cases:
  assumes "p \<in> fst ` set (strings_of v)"
  obtains (leaf) s where "p = []" "v = JString s"
  | (dict) d k w q where "v = JDict d" "p = Key k # q" "(k, w) \<in> set d" "q \<in> fst ` set (strings_of w)"
  | (list) l i q where "v = JList l" "p = Index i # q" "i < length l" "q \<in> fst ` set (strings_of (l ! i))"
proof (cases v)
  case (JDict d)
  with assms obtain k w q where "(k, w) \<in> set d" "q \<in> fst ` set (strings_of w)" "p = Key k # q" by force
  with JDict dict show ?thesis by blast
next
  case (JList l)
  with assms obtain i q where "i < length l" "q \<in> fst ` set (strings_of (l ! i))" "p = Index i # q" by force
  with JList list show ?thesis by blast
qed (use assms leaf in auto)

lemma retext_other: "st \<noteq> st' \<Longrightarrow> map (retext (st # p) t) (map (apfst ((#) st')) l) = map (apfst ((#) st')) l"
  by (rule map_idI [THEN trans]) (auto simp: retext_def)

lemma retext_same: "map (retext (st # p) t) (map (apfst ((#) st)) l) = map (apfst ((#) st)) (map (retext p t) l)"
  by (auto simp: retext_def)

lemma distinct_key_value: "distinct (map fst d) \<Longrightarrow> (k, v) \<in> set d \<Longrightarrow> (k, w) \<in> set d \<Longrightarrow> v = w"
  by (metis eq_key_imp_eq_value)

lemma strings_of_set_at:
  "distinct_keys v \<Longrightarrow> p \<in> fst ` set (strings_of v) \<Longrightarrow> strings_of (set_at v p t) = map (retext p t) (strings_of v)"
proof (induction p arbitrary: v)
  case Nil
  from Nil.prems(2) show ?case by (cases rule: path_cases) (auto simp: retext_def)
next
  case (Cons st p)
  from Cons.prems(2) show ?case
  proof (cases rule: path_cases)
    case (dict d k w q)
    then have [simp]: "st = Key k" "q = p" by simp_all
    have one: "map (apfst ((#) (Key k'))) (strings_of (if k' = k then set_at u p t else u)) =
        map (retext (Key k # p) t) (map (apfst ((#) (Key k'))) (strings_of u))" if "(k', u) \<in> set d" for k' u
    proof (cases "k' = k")
      case True
      with that dict Cons.prems(1) have "u = w" using distinct_key_value by auto
      moreover have "distinct_keys w" using dict Cons.prems(1) by (auto simp: list_all_iff)
      ultimately show ?thesis using True Cons.IH [of w] dict by (simp only: retext_same) auto
    next
      case False
      then show ?thesis by (simp only: retext_other [of "Key k" "Key k'"] path_step.inject if_False)
    qed
    have "strings_of (set_at v (st # p) t) =
        concat (map (\<lambda>(k', u). map (apfst ((#) (Key k'))) (strings_of (if k' = k then set_at u p t else u))) d)"
      using dict by (simp add: comp_def case_prod_unfold)
    also have "\<dots> = concat (map (\<lambda>(k', u). map (retext (Key k # p) t) (map (apfst ((#) (Key k'))) (strings_of u))) d)"
      by (rule arg_cong [where f = concat], rule map_cong [OF refl]) (use one in auto)
    also have "\<dots> = map (retext (st # p) t) (strings_of v)" using dict by (simp add: map_concat comp_def case_prod_unfold)
    finally show ?thesis .
  next
    case (list l i q)
    have one: "map (apfst ((#) (Index j))) (strings_of (l[i := set_at (l ! i) p t] ! j)) =
        map (retext (Index i # p) t) (map (apfst ((#) (Index j))) (strings_of (l ! j)))" if "j < length l" for j
    proof (cases "j = i")
      case True
      moreover have "distinct_keys (l ! i)" using list Cons.prems(1) by (auto simp: list_all_iff)
      ultimately show ?thesis using Cons.IH [of "l ! i"] list by (simp only: retext_same) auto
    next
      case False
      then show ?thesis using retext_other [of "Index i" "Index j"] by simp
    qed
    have "strings_of (set_at v (st # p) t) =
        concat (map (\<lambda>j. map (apfst ((#) (Index j))) (strings_of (l[i := set_at (l ! i) p t] ! j))) [0..<length l])"
      using list by simp
    also have "\<dots> = concat (map (\<lambda>j. map (retext (Index i # p) t) (map (apfst ((#) (Index j))) (strings_of (l ! j)))) [0..<length l])"
      by (rule arg_cong [where f = concat], rule map_cong [OF refl]) (use one in auto)
    also have "\<dots> = map (retext (st # p) t) (strings_of v)" using list by (simp add: map_concat comp_def)
    finally show ?thesis .
  qed simp
qed

lemma set_at_keeps:
  "distinct_keys v \<Longrightarrow> p \<in> fst ` set (strings_of v) \<Longrightarrow> distinct_keys (set_at v p t) \<and> erase (set_at v p t) = erase v"
proof (induction p arbitrary: v)
  case Nil
  from Nil.prems(2) show ?case by (cases rule: path_cases) auto
next
  case (Cons st p)
  from Cons.prems(2) show ?case
  proof (cases rule: path_cases)
    case (dict d k w q)
    then have [simp]: "st = Key k" "q = p" by simp_all
    have w: "distinct_keys w" using dict Cons.prems(1) by (auto simp: list_all_iff)
    have one: "distinct_keys (if k' = k then set_at u p t else u) \<and> erase (if k' = k then set_at u p t else u) = erase u"
      if "(k', u) \<in> set d" for k' u
      using that dict Cons.prems(1) w Cons.IH [of w] distinct_key_value [of d k u w] by (auto simp: list_all_iff)
    have "map fst (map (\<lambda>(k', v). (k', if k' = k then set_at v p t else v)) d) = map fst d" by (auto simp: case_prod_beta)
    have "\<forall>x\<in>set d. distinct_keys (if fst x = k then set_at (snd x) p t else snd x) \<and>
        erase (if fst x = k then set_at (snd x) p t else snd x) = erase (snd x)"
      using one by (metis prod.collapse)
    then have "list_all (\<lambda>x. distinct_keys (if fst x = k then set_at (snd x) p t else snd x)) d"
      "map (\<lambda>x. (fst x, erase (if fst x = k then set_at (snd x) p t else snd x))) d = map (\<lambda>x. (fst x, erase (snd x))) d"
      by (simp_all only: list_all_iff) auto
    with dict Cons.prems(1) show ?thesis by (simp add: list.pred_map comp_def case_prod_unfold)
  next
    case (list l i q)
    have "distinct_keys (l ! i)" using list Cons.prems(1) by (auto simp: list_all_iff)
    with Cons.IH [of "l ! i"] list have one: "distinct_keys (set_at (l ! i) p t)" "erase (set_at (l ! i) p t) = erase (l ! i)" by auto
    have "list_all distinct_keys (l[i := set_at (l ! i) p t])"
      using list Cons.prems(1) one(1) by (auto simp: list_all_iff dest!: set_update_subset_insert [THEN subsetD])
    moreover have "map erase (l[i := set_at (l ! i) p t]) = map erase l"
      using one(2) list(3) by (metis list_update_id map_update nth_map)
    ultimately show ?thesis using list by simp
  qed simp
qed

lemma paths_distinct: "distinct_keys v \<Longrightarrow> distinct (map fst (strings_of v))"
proof (induction v rule: strings_of.induct)
  case (2 d)
  then show ?case
  proof (induction d)
    case (Cons kv d)
    obtain k v where kv: "kv = (k, v)" by force
    have "distinct (map fst (strings_of v))" using Cons.prems kv by auto
    then have "distinct (map fst (map (apfst ((#) (Key k))) (strings_of v)))"
      by (auto simp: distinct_map inj_on_def)
    moreover have "distinct (map fst (strings_of (JDict d)))"
      by (rule Cons.IH) (use Cons.prems in \<open>auto\<close>)
    moreover have "k \<notin> fst ` set d" using Cons.prems kv by auto
    ultimately show ?case using kv by (auto simp: distinct_append) force
  qed simp
next
  case (3 l)
  then have each: "distinct (map fst (strings_of (l ! i)))" if "i < length l" for i using that by (auto simp: list_all_iff)
  have "distinct (map fst (concat (map (\<lambda>i. map (apfst ((#) (Index i))) (strings_of (l ! i))) [0..<n])))" if "n \<le> length l" for n
    using that
  proof (induction n)
    case (Suc n)
    have "distinct (map fst (map (apfst ((#) (Index n))) (strings_of (l ! n))))"
      using each [of n] Suc.prems by (auto simp: distinct_map inj_on_def)
    with Suc show ?case by (auto simp: distinct_append)
  qed simp
  then show ?case by simp
qed auto

section \<open>Accepted repairs\<close>

lemma inspect_is_filter: "inspect_language det pol v = filter (\<lambda>(p, text). violates det pol p text) (strings_of v)"
  by (auto simp: inspect_language_def violates_def Let_def)

definition new_text :: "(path \<times> string) list \<Rightarrow> json list \<Rightarrow> path \<times> string \<Rightarrow> path \<times> string" where
  "new_text issues js = (\<lambda>(q, s). (q, case map_of (zip (map fst issues) js) q of Some j \<Rightarrow> the (as_string j) | None \<Rightarrow> s))"

lemma new_text_retext:
  assumes "p \<notin> fst ` set issues" and "the (as_string j) = t"
  shows "new_text issues js (retext p t x) = new_text ((p, s) # issues) (j # js) x"
proof -
  have "map_of (zip (map fst issues) js) p = None" using assms(1) set_zip_leftD by (fastforce simp: map_of_eq_None_iff)
  then show ?thesis using assms(2) by (auto simp: new_text_def retext_def split: prod.splits)
qed

lemma apply_texts_result:
  "apply_texts det pol issues js v = Some r \<Longrightarrow> distinct_keys v \<Longrightarrow> distinct (map fst issues) \<Longrightarrow>
   fst ` set issues \<subseteq> fst ` set (strings_of v) \<Longrightarrow>
   list_all2 (\<lambda>(p, s) j. repair_accepted det pol s j) issues js \<and> erase r = erase v \<and>
   strings_of r = map (new_text issues js) (strings_of v)"
proof (induction det pol issues js v rule: apply_texts.induct)
  case (1 det pol v)
  then show ?case by (auto simp: new_text_def intro!: map_idI [symmetric])
next
  case (2 det pol p original issues j js v)
  let ?t = "the (as_string j)"
  have ok: "repair_accepted det pol original j" and run: "apply_texts det pol issues js (set_at v p ?t) = Some r"
    using "2.prems"(1) by (auto split: if_splits)
  have p: "p \<in> fst ` set (strings_of v)" using "2.prems"(4) by auto
  note keeps = set_at_keeps [OF "2.prems"(2) p, of ?t] strings_of_set_at [OF "2.prems"(2) p, of ?t]
  have "fst ` set (strings_of (set_at v p ?t)) = fst ` set (strings_of v)" using keeps(2) by (force simp: retext_def)
  then have rest: "list_all2 (\<lambda>(p, s) j. repair_accepted det pol s j) issues js \<and> erase r = erase (set_at v p ?t) \<and>
      strings_of r = map (new_text issues js) (strings_of (set_at v p ?t))"
    using "2.IH" [OF ok run] keeps(1) "2.prems"(3,4) by auto
  have "p \<notin> fst ` set issues" using "2.prems"(3) by auto
  then have "strings_of r = map (new_text ((p, original) # issues) (j # js)) (strings_of v)"
    using rest keeps(2) new_text_retext by (simp add: comp_def)
  with rest ok keeps(1) show ?case by simp
qed auto

lemma map_of_zip_issue:
  "list_all2 P issues js \<Longrightarrow> distinct (map fst issues) \<Longrightarrow> (p, s) \<in> set issues \<Longrightarrow>
   \<exists>j. map_of (zip (map fst issues) js) p = Some j \<and> P (p, s) j"
  by (induction rule: list_all2_induct) (auto simp: image_iff)

lemma repair_exact_core:
  assumes "distinct_keys v" and "apply_repair loads det pol v (inspect_language det pol v) raw = Some r"
  shows "inspect_language det pol r = [] \<and> erase r = erase v \<and>
    list_all2 (\<lambda>(p, s) (q, t). q = p \<and> (if violates det pol p s then repair_accepted det pol s (JString t) else t = s))
      (strings_of v) (strings_of r)"
proof -
  let ?issues = "inspect_language det pol v"
  obtain js where run: "apply_texts det pol ?issues js v = Some r" and clean: "inspect_language det pol r = []"
    using assms(2) unfolding apply_repair_def by (auto split: option.splits json.splits if_splits)
  have dist: "distinct (map fst ?issues)" using paths_distinct [OF assms(1)] by (simp add: inspect_is_filter distinct_map_filter)
  have acc: "list_all2 (\<lambda>(p, s) j. repair_accepted det pol s j) ?issues js" and "erase r = erase v"
    and strs: "strings_of r = map (new_text ?issues js) (strings_of v)"
    using apply_texts_result [OF run assms(1) dist] by (auto simp: inspect_is_filter)
  have each: "(if violates det pol p s then repair_accepted det pol s (JString t) else t = s) \<and> q = p"
    if x: "(p, s) \<in> set (strings_of v)" and y: "(q, t) = new_text ?issues js (p, s)" for p s q t
  proof (cases "violates det pol p s")
    case True
    with x have "(p, s) \<in> set ?issues" by (simp add: inspect_is_filter)
    from map_of_zip_issue [OF acc dist this] obtain j where j: "map_of (zip (map fst ?issues) js) p = Some j" "repair_accepted det pol s j"
      by auto
    then obtain u where "j = JString u" by (auto simp: repair_accepted_def split: option.splits elim: as_string.elims)
    with j y True show ?thesis by (simp add: new_text_def)
  next
    case False
    have "p \<notin> fst ` set ?issues"
    proof
      assume "p \<in> fst ` set ?issues"
      then obtain s' where "(p, s') \<in> set (strings_of v)" "violates det pol p s'" by (auto simp: inspect_is_filter)
      with x False eq_key_imp_eq_value [OF paths_distinct [OF assms(1)]] show False by metis
    qed
    then have "map_of (zip (map fst ?issues) js) p = None" using set_zip_leftD by (fastforce simp: map_of_eq_None_iff)
    with y False show ?thesis by (simp add: new_text_def)
  qed
  have "list_all2 (\<lambda>(p, s) (q, t). q = p \<and> (if violates det pol p s then repair_accepted det pol s (JString t) else t = s))
      (strings_of v) (strings_of r)"
    unfolding strs by (subst list.rel_map(2), rule list.rel_refl_strong) (use each in \<open>force split: prod.splits\<close>)
  with clean \<open>erase r = erase v\<close> show ?thesis by simp
qed

text \<open>
  C40. An accepted repair of a value is exact: nothing but the strings found in violation changes,
  neither another string nor the shape of the value; each of those is replaced by a text that keeps
  its fixed tokens and protected terms; and the result violates the policy nowhere.
\<close>
theorem repair_exact:
  assumes "distinct_keys v" and "apply_repair loads det pol v (inspect_language det pol v) raw = Some r"
  shows "inspect_language det pol r = [] \<and> erase r = erase v \<and>
    list_all2 (\<lambda>(p, s) (q, t). q = p \<and> (if violates det pol p s then repair_accepted det pol s (JString t) else t = s))
      (strings_of v) (strings_of r)"
  by (rule repair_exact_core [OF assms])

section \<open>The guarded port\<close>

text \<open>The invocations of one leaf: each with the answer of the port and its answer to a repair.\<close>

type_synonym guard_call = "bool \<times> (string + completion) \<times> (string + completion)"

fun guard_run ::
    "(string \<Rightarrow> json option) \<Rightarrow> (json \<Rightarrow> string) \<Rightarrow> detector \<Rightarrow> language_policy \<Rightarrow> guard_call list \<Rightarrow> language_guard \<Rightarrow>
     language_guard \<times> (nat \<times> guard_end) list" where
  "guard_run loads dumps det pol [] g = (g, [])"
| "guard_run loads dumps det pol ((requested, answer, repaired) # xs) g =
     (case guard_invoke loads dumps det pol requested answer repaired g of
        (g', r) \<Rightarrow> apsnd ((#) r) (guard_run loads dumps det pol xs g'))"

text \<open>What a caller may be given: a body without a violation that can be seen, or a repaired one.\<close>

definition clean_answer ::
    "(string \<Rightarrow> json option) \<Rightarrow> (json \<Rightarrow> string) \<Rightarrow> detector \<Rightarrow> language_policy \<Rightarrow> guard_call \<Rightarrow> nat \<times> guard_end \<Rightarrow> bool" where
  "clean_answer loads dumps det pol x r =
     (case (x, r) of
        ((requested, Inr c, repaired), (n, Guard_returns c')) \<Rightarrow>
          (case completion_value loads c (looks_structured requested c) of
             None \<Rightarrow> False
           | Some (v, checkable) \<Rightarrow>
               (if c' = c \<and> n = 1 then checkable \<longrightarrow> inspect_language det pol v = []
                else n = 2 \<and> checkable \<and>
                  (\<exists>v'. inspect_language det pol v' = [] \<and> (distinct_keys v \<longrightarrow> erase v' = erase v) \<and>
                     c' \<in> {c\<lparr>co_content := v'\<rparr>, c\<lparr>co_content := JString (dumps v')\<rparr>})))
      | ((_, Inl _, _), (_, Guard_returns _)) \<Rightarrow> False
      | _ \<Rightarrow> True)"

lemma apply_repair_clean: "apply_repair loads det pol v issues raw = Some r \<Longrightarrow> inspect_language det pol r = []"
  unfolding apply_repair_def by (auto split: option.splits json.splits if_splits)

lemma guard_step:
  assumes "guard_invoke loads dumps det pol requested answer repaired g = (g', r)"
  shows "lg_repairs g' \<le> max 1 (lg_repairs g) \<and> lg_repairs g \<le> lg_repairs g' \<and> fst r \<le> 1 + (lg_repairs g' - lg_repairs g) \<and>
    (lg_failures g \<noteq> 0 \<longrightarrow> g' = g \<and> r = (0, Guard_refuses)) \<and> (lg_failures g = 0 \<longrightarrow> fst r \<noteq> 0) \<and>
    clean_answer loads dumps det pol (requested, answer, repaired) r"
proof (cases answer)
  case (Inl e)
  with assms show ?thesis by (auto simp: guard_invoke_def clean_answer_def split: if_splits)
next
  case (Inr c)
  show ?thesis
  proof (cases "completion_value loads c (looks_structured requested c)")
    case None
    with assms Inr show ?thesis by (auto simp: guard_invoke_def clean_answer_def split: if_splits)
  next
    case (Some vc)
    obtain v checkable where vc: "vc = (v, checkable)" by force
    let ?issues = "if checkable then inspect_language det pol v else []"
    let ?structured = "looks_structured requested c \<or> as_string v = None"
    obtain acc e where rep: "guard_repair loads dumps det pol ?structured c v ?issues repaired = (acc, e)" by force
    have repair: "(acc = None \<longrightarrow> (\<forall>c'. e \<noteq> Guard_returns c')) \<and>
        (\<forall>c'. e = Guard_returns c' \<longrightarrow> (\<exists>v'. inspect_language det pol v' = [] \<and> (distinct_keys v \<longrightarrow> erase v' = erase v) \<and>
            c' \<in> {c\<lparr>co_content := v'\<rparr>, c\<lparr>co_content := JString (dumps v')\<rparr>}))" if "?issues \<noteq> []"
    proof -
      have "inspect_language det pol v' = [] \<and> (distinct_keys v \<longrightarrow> erase v' = erase v)"
        if "apply_repair loads det pol v ?issues raw = Some v'" for raw v'
        using that \<open>?issues \<noteq> []\<close> repair_exact_core apply_repair_clean [OF that] by (auto split: if_splits)
      with rep show ?thesis by (auto simp: guard_repair_def Let_def split: sum.splits option.splits prod.splits json.splits bool.splits if_splits)
    qed
    show ?thesis using assms Inr Some vc rep repair
      by (auto simp: guard_invoke_def clean_answer_def Let_def split: if_splits option.splits guard_end.splits)
  qed
qed

lemma guard_failed: "lg_failures g \<noteq> 0 \<Longrightarrow> guard_run loads dumps det pol xs g = (g, replicate (length xs) (0, Guard_refuses))"
proof (induction xs)
  case (Cons x xs)
  then show ?case by (cases x) (auto simp: guard_invoke_def)
qed simp

lemma guard_run_sound:
  "guard_run loads dumps det pol xs g = (g', rs) \<Longrightarrow>
   lg_repairs g' \<le> max 1 (lg_repairs g) \<and> lg_repairs g \<le> lg_repairs g' \<and>
   sum_list (map fst rs) \<le> length xs + (lg_repairs g' - lg_repairs g) \<and>
   set (dropWhile (\<lambda>r. fst r \<noteq> 0) rs) \<subseteq> {(0, Guard_refuses)} \<and> list_all2 (clean_answer loads dumps det pol) xs rs"
proof (induction xs arbitrary: g rs)
  case (Cons x xs)
  obtain requested answer repaired where x: "x = (requested, answer, repaired)" by (cases x)
  obtain g1 r where one: "guard_invoke loads dumps det pol requested answer repaired g = (g1, r)" by (rule prod.exhaust)
  obtain rs' where rest: "guard_run loads dumps det pol xs g1 = (g', rs')" and rs: "rs = r # rs'"
    using Cons.prems x one by (cases "guard_run loads dumps det pol xs g1") auto
  note step = guard_step [OF one] and ih = Cons.IH [OF rest]
  show ?case
  proof (cases "lg_failures g = 0")
    case True
    with step ih x rs show ?thesis by auto
  next
    case False
    with step rest have "g1 = g" "r = (0, Guard_refuses)" "rs' = replicate (length xs) (0, Guard_refuses)"
      using guard_failed [OF False] by auto
    with step ih x rs show ?thesis by auto
  qed
qed simp

text \<open>
  A guarded port asks for at most one repair per leaf: any sequence of invocations makes at most
  one call more than its length. No call follows a refused repair, every invocation after it being
  refused. What a caller is given has no violation the guard could check, in the answer itself or
  in the repaired value, which has the shape of the original.
\<close>
theorem guard_repairs_once:
  assumes "guard_run loads dumps det pol xs new_guard = (g, rs)"
  shows "lg_repairs g \<le> 1 \<and> sum_list (map fst rs) \<le> length xs + 1 \<and>
    set (dropWhile (\<lambda>r. fst r \<noteq> 0) rs) \<subseteq> {(0, Guard_refuses)} \<and> list_all2 (clean_answer loads dumps det pol) xs rs"
  using guard_run_sound [OF assms] by (auto simp: new_guard_def)

section \<open>Witnesses\<close>

text \<open>A small policy and a detector that finds the letter Z in violation and digits fixed.\<close>

definition demo_policy :: language_policy where
  "demo_policy = \<lparr>lp_target = ''en'', lp_text_paths = [''*''], lp_protected_paths = [], lp_protected_terms = [''AB''], lp_version = 1\<rparr>"

definition demo_detector :: detector where
  "demo_detector = \<lparr>dt_match = (\<lambda>path pattern. True), dt_han = (\<lambda>s. CHR ''Z'' \<in> set s), dt_wrong = (\<lambda>s target. False),
     dt_fixed = (\<lambda>s. map (\<lambda>c. [c]) (filter (\<lambda>c. c \<in> set ''0123456789'') s)), dt_number = (\<lambda>t. t \<noteq> [])\<rparr>"

definition demo_value :: json where
  "demo_value = JDict [(''a'', JString ''ok''), (''b'', JList [JInt 3, JString ''AB Z 1''])]"

definition demo_loads :: "string \<Rightarrow> json option" where
  "demo_loads raw =
     (if raw = ''VALUE'' then Some demo_value
      else if raw = ''PATCH'' then Some (JDict [(''texts'', JList [JString ''AB 1 2''])]) else None)"

definition demo_completion :: "string \<Rightarrow> completion" where
  "demo_completion s = \<lparr>co_finish_reason = JString ''stop'', co_tool_calls = False, co_content = JString s\<rparr>"

lemma demo_repair:
  "apply_repair demo_loads demo_detector demo_policy demo_value (inspect_language demo_detector demo_policy demo_value) ''PATCH'' =
     Some (JDict [(''a'', JString ''ok''), (''b'', JList [JInt 3, JString ''AB 1 2''])])"
  by code_simp

theorem repair_exact_witness:
  "erase (JDict [(''a'', JString ''ok''), (''b'', JList [JInt 3, JString ''AB 1 2''])]) = erase demo_value \<and>
   inspect_language demo_detector demo_policy demo_value \<noteq> []"
proof -
  have "distinct_keys demo_value" by code_simp
  from repair_exact [OF this demo_repair] have "erase (JDict [(''a'', JString ''ok''), (''b'', JList [JInt 3, JString ''AB 1 2''])]) = erase demo_value"
    by blast
  moreover have "inspect_language demo_detector demo_policy demo_value \<noteq> []" by code_simp
  ultimately show ?thesis by blast
qed

definition demo_calls :: "guard_call list" where
  "demo_calls = [(True, Inr (demo_completion ''VALUE''), Inr (demo_completion ''PATCH'')),
     (True, Inr (demo_completion ''VALUE''), Inr (demo_completion ''PATCH'')), (True, Inr (demo_completion ''VALUE''), Inl ''timeout'')]"

lemma demo_guard:
  "guard_run demo_loads (\<lambda>_. ''DUMP'') demo_detector demo_policy demo_calls new_guard =
     (\<lparr>lg_repairs = 1, lg_failures = 1\<rparr>, [(2, Guard_returns (demo_completion ''DUMP'')), (1, Guard_refuses), (0, Guard_refuses)])"
  by code_simp

theorem guard_repairs_once_witness:
  "lg_repairs (fst (guard_run demo_loads (\<lambda>_. ''DUMP'') demo_detector demo_policy demo_calls new_guard)) \<le> 1 \<and>
   sum_list (map fst [(2 :: nat, Guard_returns (demo_completion ''DUMP'')), (1, Guard_refuses), (0, Guard_refuses)]) \<le> length demo_calls + 1"
  using guard_repairs_once [OF demo_guard] demo_guard by simp

end
