(* ===== verification/Uploads.thy ===== *)
theory Uploads
  imports Artifacts Drivers
begin

text \<open>
  Moving artifacts over HTTP: what the API does with an upload (\<open>uploads.py\<close>), and the client's
  \<open>put_file\<close>, \<open>open_verified\<close> and \<open>read_to_file\<close> (\<open>client.py\<close>). A response is its status or its
  value. What a body holds is the list of its chunks; errors of the local disk are not modelled.
\<close>

section \<open>Receiving an upload\<close>

record upload =
  up_content_type :: string
  up_length :: "string option"    \<comment> \<open>the header \<open>content-length\<close>\<close>
  up_chunks :: "string list"

definition json_limit_bytes :: int where
  "json_limit_bytes = 16 * 1024 * 1024"

definition ascii_lower :: "char \<Rightarrow> char" where
  "ascii_lower ch = (let n = of_char ch :: nat in if 65 \<le> n \<and> n \<le> 90 then char_of (n + 32) else ch)"

text \<open>\<open>content_type.partition(";")[0].strip().lower()\<close>\<close>

definition media_type :: "string \<Rightarrow> string" where
  "media_type s =
     map ascii_lower (rev (dropWhile py_space (rev (dropWhile py_space (takeWhile (\<lambda>ch. ch \<noteq> CHR '';'') s)))))"

definition upload_limit :: "int \<Rightarrow> string \<Rightarrow> int" where
  "upload_limit max_bytes content_type =
     (let m = media_type content_type in
      if m = ''application/json'' \<or> 5 \<le> length m \<and> drop (length m - 5) m = ''+json'' then min max_bytes json_limit_bytes
      else max_bytes)"

definition is_digit :: "char \<Rightarrow> bool" where
  "is_digit ch \<longleftrightarrow> (let n = of_char ch :: nat in 48 \<le> n \<and> n \<le> 57)"

definition digits_value :: "string \<Rightarrow> int" where
  "digits_value s = foldl (\<lambda>n ch. n * 10 + (of_char ch - 48)) 0 s"

text \<open>\<open>isascii\<close>, \<open>isdecimal\<close>, at most 20 characters, and the integer.\<close>

definition parse_length :: "string \<Rightarrow> int option" where
  "parse_length s = (if s \<noteq> [] \<and> list_all is_digit s \<and> length s \<le> 20 then Some (digits_value s) else None)"

text \<open>The loop over the body, with what is staged so far.\<close>

fun receive_chunks :: "int \<Rightarrow> int option \<Rightarrow> string \<Rightarrow> string list \<Rightarrow> nat + string" where
  "receive_chunks limit declared got [] =
     (if declared \<noteq> None \<and> declared \<noteq> Some (int (length got)) then Inl 400 else Inr got)"
| "receive_chunks limit declared got (c # cs) =
     (if limit < int (length got + length c) then Inl 413
      else if declared \<noteq> None \<and> the declared < int (length got + length c) then Inl 400
      else receive_chunks limit declared (got @ c) cs)"

text \<open>The handlers of the errors of the artifact adapter; \<open>ArtifactTooLarge\<close> is a 413 here.\<close>

definition put_status :: "artifact_error \<Rightarrow> nat" where
  "put_status e = (case e of Too_large \<Rightarrow> 413 | Capacity_busy \<Rightarrow> 503 | _ \<Rightarrow> 500)"

text \<open>
  \<open>receive\<close>: the budget while the body is staged, the budget after, and the answer. \<open>busy\<close> tells
  that every upload slot is taken.
\<close>

definition receive ::
    "(string \<Rightarrow> string) \<Rightarrow> int \<Rightarrow> int \<Rightarrow> (string \<Rightarrow> string \<Rightarrow> (string \<Rightarrow> string list option) option) \<Rightarrow> bool \<Rightarrow> int \<Rightarrow>
     string \<Rightarrow> upload \<Rightarrow> spool_budget \<Rightarrow> spool_budget option \<times> spool_budget \<times> (nat + (string \<Rightarrow> string list option) \<times> artifact)" where
  "receive sha store_max max_bytes store busy available tenant up b =
     (let limit = upload_limit max_bytes (up_content_type up);
          declared = (case up_length up of None \<Rightarrow> None | Some s \<Rightarrow> parse_length s) in
      if up_length up \<noteq> None \<and> declared = None then (None, b, Inl 400)
      else if declared \<noteq> None \<and> limit < the declared then (None, b, Inl 413)
      else if busy then (None, b, Inl 503)
      else
        (let bytes = (case declared of Some n \<Rightarrow> n | None \<Rightarrow> limit) in
         case reserve_spool available bytes False b of
           Inl e \<Rightarrow> (None, b, Inl (put_status e))
         | Inr b1 \<Rightarrow>
             (Some b1, release_spool bytes False b1,
              (case receive_chunks limit declared [] (up_chunks up) of
                 Inl status \<Rightarrow> Inl status
               | Inr data \<Rightarrow>
                   (case put_file sha store_max store tenant (up_content_type up) data of
                      Inl e \<Rightarrow> Inl (put_status e)
                    | Inr r \<Rightarrow> Inr r)))))"

section \<open>The client\<close>

datatype client_error =
    Client_refuses       \<comment> \<open>\<open>ValueError\<close>\<close>
  | Client_busy          \<comment> \<open>\<open>ArtifactCapacityBusy\<close> of its own spool\<close>
  | Client_status nat    \<comment> \<open>\<open>raise_for_status\<close>\<close>

definition max_artifact_bytes :: int where
  "max_artifact_bytes = 128 * 1024 * 1024"

text \<open>
  \<open>put_file\<close>: \<open>bytes\<close> is the length measured first, \<open>chunks\<close> what the reads return until one is
  empty; a generator that raises aborts the request, whose outcome the caller never sees.
\<close>

definition client_put_file ::
    "(string \<Rightarrow> string) \<Rightarrow> (upload \<Rightarrow> nat + artifact) \<Rightarrow> string \<Rightarrow> int \<Rightarrow> string list \<Rightarrow> client_error + artifact" where
  "client_put_file sha post content_type bytes chunks =
     (let sent = takeWhile (\<lambda>c. c \<noteq> []) chunks in
      if max_artifact_bytes < bytes then Inl Client_refuses
      else if int (length (concat sent)) \<noteq> bytes then Inl Client_refuses
      else case post \<lparr>up_content_type = content_type, up_length = Some (decimal (nat bytes)), up_chunks = sent\<rparr> of
          Inl status \<Rightarrow> Inl (Client_status status)
        | Inr ref \<Rightarrow>
            (if art_size ref \<noteq> bytes \<or> art_sha256 ref \<noteq> sha (concat sent) then Inl Client_refuses else Inr ref))"

text \<open>\<open>open_verified\<close>: \<open>download\<close> is the response to the read, its status or its chunks.\<close>

definition client_open_verified ::
    "(string \<Rightarrow> string) \<Rightarrow> (artifact \<Rightarrow> nat + string list) \<Rightarrow> int \<Rightarrow> artifact \<Rightarrow> spool_budget \<Rightarrow>
     spool_budget \<times> (client_error + string)" where
  "client_open_verified sha download available ref b =
     (if max_artifact_bytes < art_size ref then (b, Inl Client_refuses)
      else case reserve_spool available (art_size ref) True b of
          Inl e \<Rightarrow> (b, Inl (if e = Capacity_busy then Client_busy else Client_refuses))
        | Inr b1 \<Rightarrow>
            (release_spool (art_size ref) True b1,
             (case download ref of
                Inl status \<Rightarrow> Inl (Client_status status)
              | Inr chunks \<Rightarrow>
                  (case verify_chunks sha ref [] chunks of Inl e \<Rightarrow> Inl Client_refuses | Inr data \<Rightarrow> Inr data))))"

definition client_read_to_file ::
    "(string \<Rightarrow> string) \<Rightarrow> (artifact \<Rightarrow> nat + string list) \<Rightarrow> int \<Rightarrow> artifact \<Rightarrow> spool_budget \<Rightarrow> string \<Rightarrow>
     client_error + string" where
  "client_read_to_file sha download available ref b destination =
     (case snd (client_open_verified sha download available ref b) of
        Inl e \<Rightarrow> Inl e
      | Inr data \<Rightarrow> Inr (destination @ concat (file_chunks io_chunk_bytes data)))"

section \<open>Serving a download\<close>

text \<open>
  \<open>POST /v1/artifacts/read\<close>: only under the tenant's prefix; the status or the streamed chunks.
  \<open>ArtifactTooLarge\<close> has no handler here.
\<close>

definition read_status :: "artifact_error \<Rightarrow> nat" where
  "read_status e = (case e of Capacity_busy \<Rightarrow> 503 | _ \<Rightarrow> 500)"

definition serve_download ::
    "(string \<Rightarrow> string) \<Rightarrow> int \<Rightarrow> (string \<Rightarrow> string list option) \<Rightarrow> int \<Rightarrow> spool_budget \<Rightarrow> string \<Rightarrow> artifact \<Rightarrow> nat + string list" where
  "serve_download sha store_max fetch available b tenant ref =
     (if take (length (artifact_prefix sha tenant)) (art_key ref) \<noteq> artifact_prefix sha tenant then Inl 404
      else case get_artifact sha store_max fetch available ref b of
          Inl e \<Rightarrow> Inl (read_status e)
        | Inr data \<Rightarrow> Inr (file_chunks io_chunk_bytes data))"

section \<open>Facts\<close>

lemma decimal_digits: "list_all is_digit (decimal n) \<and> decimal n \<noteq> []"
proof (induction n rule: decimal.induct)
  case (1 n)
  have d: "is_digit (char_of (48 + m))" if "m < 10" for m :: nat using that by (simp add: is_digit_def)
  show ?case by (cases "n < 10") (use 1 d in \<open>subst decimal.simps, simp\<close>)+
qed

lemma decimal_value: "digits_value (decimal n) = int n"
proof (induction n rule: decimal.induct)
  case (1 n)
  have d: "(of_char (char_of (48 + m) :: char) :: int) = 48 + int m" if "m < 10" for m :: nat
  proof -
    have "(of_char (char_of (48 + m) :: char) :: nat) = 48 + m" using that by simp
    then show ?thesis by (metis of_nat_add of_nat_numeral of_nat_of_char)
  qed
  show ?case
  proof (cases "n < 10")
    case True
    then show ?thesis using d [of n] by (subst decimal.simps) (simp add: digits_value_def)
  next
    case False
    then have "digits_value (decimal n) = digits_value (decimal (n div 10)) * 10 + int (n mod 10)"
      using d [of "n mod 10"] by (subst decimal.simps) (simp add: digits_value_def)
    also have "\<dots> = int n" using 1 [OF False] by (simp add: zmod_int zdiv_int)
    finally show ?thesis .
  qed
qed

lemma decimal_length: "n < 10 ^ k \<Longrightarrow> 0 < k \<Longrightarrow> length (decimal n) \<le> k"
proof (induction k arbitrary: n)
  case (Suc k)
  show ?case
  proof (cases "n < 10")
    case True
    then show ?thesis by (subst decimal.simps) simp
  next
    case False
    then have "0 < k" using Suc.prems(1) by (cases k) auto
    moreover have "n div 10 < 10 ^ k" using Suc.prems(1) by (simp add: less_mult_imp_div_less mult.commute)
    ultimately show ?thesis using False Suc.IH [of "n div 10"] by (subst decimal.simps) simp
  qed
qed simp

lemma parse_decimal: "n < 10 ^ 20 \<Longrightarrow> parse_length (decimal n) = Some (int n)"
  using decimal_digits [of n] decimal_value [of n] decimal_length [of n 20] by (simp add: parse_length_def)

lemma receive_chunks_iff:
  "receive_chunks limit declared got cs = Inr x \<longleftrightarrow>
     x = got @ concat cs \<and> (declared = None \<or> declared = Some (int (length x))) \<and> (cs = [] \<or> int (length x) \<le> limit)"
proof (induction limit declared got cs rule: receive_chunks.induct)
  case (2 limit declared got c cs)
  then show ?case by (cases declared) auto
qed auto

lemma reserve_release: "reserve_spool available n reading b = Inr b1 \<Longrightarrow> release_spool n reading b1 = b"
  by (auto simp: reserve_spool_def release_spool_def split: if_splits)

lemma receive_Inr:
  assumes "snd (snd (receive sha store_max max_bytes store busy available tenant up b)) = Inr (fetch, ref)"
  shows "put_file sha store_max store tenant (up_content_type up) (concat (up_chunks up)) = Inr (fetch, ref)"
  using assms unfolding receive_def
  by (auto simp: Let_def receive_chunks_iff split: if_splits sum.splits option.splits)

lemma map_sum_snd_Inr: "map_sum id snd y = Inr r \<Longrightarrow> \<exists>x. y = Inr (x, r)"
  by (cases y) auto

lemma client_put_Inr:
  assumes "client_put_file sha post content_type bytes chunks = Inr ref"
  obtains up where "post up = Inr ref" and "up_chunks up = takeWhile (\<lambda>c. c \<noteq> []) chunks"
    and "up_content_type up = content_type" and "art_size ref = int (length (concat (up_chunks up)))"
    and "art_sha256 ref = sha (concat (up_chunks up))" and "art_size ref \<le> max_artifact_bytes"
  using assms by (auto simp: client_put_file_def Let_def split: if_splits sum.splits)

lemma serve_download_Inr:
  assumes "serve_download sha store_max fetch available b tenant ref = Inr chunks"
  shows "sha (concat chunks) = art_sha256 ref \<and> int (length (concat chunks)) = art_size ref"
  using assms by (auto simp: serve_download_def get_artifact_def open_verified_def verify_def verify_chunks_iff
      concat_file_chunks io_chunk_bytes_def split: if_splits sum.splits option.splits)

lemma client_open_verified_budget: "fst (client_open_verified sha download available ref b) = b"
  by (auto simp: client_open_verified_def reserve_release split: sum.splits)

lemma client_open_verified_Inr:
  "snd (client_open_verified sha download available ref b) = Inr data \<Longrightarrow>
   sha data = art_sha256 ref \<and> int (length data) = art_size ref"
  by (auto simp: client_open_verified_def verify_chunks_iff split: if_splits sum.splits)

lemma client_open_verified_ok:
  assumes "download ref = Inr chunks" and "sha (concat chunks) = art_sha256 ref" and "int (length (concat chunks)) = art_size ref"
    and "art_size ref \<le> max_artifact_bytes" and "\<not> isl (reserve_spool available (art_size ref) True b)"
  shows "snd (client_open_verified sha download available ref b) = Inr (concat chunks)"
proof -
  have "verify_chunks sha ref [] chunks = Inr (concat chunks)" using assms by (simp add: verify_chunks_iff)
  then show ?thesis using assms by (auto simp: client_open_verified_def split: sum.splits)
qed

lemma serve_download_ok:
  assumes "art_key ref = artifact_prefix sha tenant @ rest" and "art_size ref \<le> store_max"
    and "map_option concat (fetch (art_key ref)) = Some data" and "sha data = art_sha256 ref" and "int (length data) = art_size ref"
    and "\<not> isl (reserve_spool available (art_size ref) True b)"
  shows "serve_download sha store_max fetch available b tenant ref = Inr (file_chunks io_chunk_bytes data)"
proof -
  obtain cs where "fetch (art_key ref) = Some cs" "concat cs = data" using assms(3) by auto
  then have "verify sha fetch ref = Inr data" using assms(4,5) by (simp add: verify_def verify_chunks_iff)
  moreover obtain b1 where "reserve_spool available (art_size ref) True b = Inr b1" using assms(6) by (cases "reserve_spool available (art_size ref) True b") auto
  ultimately show ?thesis using assms(1,2) by (simp add: serve_download_def get_artifact_def open_verified_def)
qed

section \<open>Transfers\<close>

text \<open>
  C29. A file comes back through the API as it was sent. If the client's upload of a file succeeded,
  every later download by the same tenant gives exactly the bytes the client read, or an error, with
  any content the bucket returns in between (unless the hash collides on two contents of the same
  length); it gives them when the object is intact and both spools have room. The spool budget of
  the client is what it was.
\<close>
theorem transfer_roundtrip:
  fixes chunks content_type tenant
  defines "data \<equiv> concat (takeWhile (\<lambda>c. c \<noteq> []) chunks)"
  assumes put: "client_put_file sha (\<lambda>up. map_sum id snd (snd (snd (receive sha store_max max_bytes store busy room tenant up b0))))
      content_type bytes chunks = Inr ref"
    and hash: "\<And>d. sha d = sha data \<Longrightarrow> length d = length data \<Longrightarrow> d = data"
    and read: "client_open_verified sha (serve_download sha store_max fetch server_room b tenant) client_room ref bc = (bc', x)"
  shows "bc' = bc \<and> (isl x \<or> x = Inr data) \<and>
    (x = Inr data \<or> map_option concat (fetch (art_key ref)) \<noteq> Some data \<or>
       isl (reserve_spool server_room (art_size ref) True b) \<or> isl (reserve_spool client_room (art_size ref) True bc))"
proof -
  obtain up fetch0 where up: "up_chunks up = takeWhile (\<lambda>c. c \<noteq> []) chunks" "up_content_type up = content_type"
    and ref: "art_size ref = int (length data)" "art_sha256 ref = sha data" "art_size ref \<le> max_artifact_bytes"
    and got: "snd (snd (receive sha store_max max_bytes store busy room tenant up b0)) = Inr (fetch0, ref)"
  proof -
    obtain up where up: "map_sum id snd (snd (snd (receive sha store_max max_bytes store busy room tenant up b0))) = Inr ref"
        "up_chunks up = takeWhile (\<lambda>c. c \<noteq> []) chunks" "up_content_type up = content_type"
        "art_size ref = int (length (concat (up_chunks up)))" "art_sha256 ref = sha (concat (up_chunks up))" "art_size ref \<le> max_artifact_bytes"
      by (rule client_put_Inr [OF put])
    obtain fetch0 where "snd (snd (receive sha store_max max_bytes store busy room tenant up b0)) = Inr (fetch0, ref)"
      using map_sum_snd_Inr [OF up(1)] by blast
    from that [OF up(2,3) _ _ up(6) this] up(2,4,5) show ?thesis by (simp add: data_def)
  qed
  have "put_file sha store_max store tenant content_type data = Inr (fetch0, ref)"
    using receive_Inr [OF got] up by (simp add: data_def)
  note stored = put_file_cases [OF this]
  have key: "art_key ref = artifact_prefix sha tenant @ (''sha256/'' @ sha data)" "art_size ref \<le> store_max"
    using stored(1,2) ref(1) by (simp_all add: artifact_of_fields)
  have safe: "y = data" if "snd (client_open_verified sha (serve_download sha store_max fetch server_room b tenant) client_room ref bc) = Inr y" for y
    using client_open_verified_Inr [OF that] ref hash [of y] by simp
  have live: "x = Inr data" if "map_option concat (fetch (art_key ref)) = Some data"
      "\<not> isl (reserve_spool server_room (art_size ref) True b)" "\<not> isl (reserve_spool client_room (art_size ref) True bc)"
  proof -
    have "serve_download sha store_max fetch server_room b tenant ref = Inr (file_chunks io_chunk_bytes data)"
      using serve_download_ok [of ref sha tenant "''sha256/'' @ sha data" store_max fetch data server_room b, OF key that(1) _ _ that(2)] ref by simp
    then show ?thesis
      using client_open_verified_ok [of "serve_download sha store_max fetch server_room b tenant" ref "file_chunks io_chunk_bytes data"
          sha client_room bc, OF _ _ _ ref(3) that(3)] ref read
      by (simp add: concat_file_chunks io_chunk_bytes_def)
  qed
  have "bc' = bc" using client_open_verified_budget read by (metis fst_conv)
  moreover have "isl x \<or> x = Inr data" using safe read by (cases x) auto
  ultimately show ?thesis using live by blast
qed

text \<open>
  A file that does not change while it is read, fits the limits and finds a free upload slot and room
  in the spool is accepted, if the bucket returns what it stored: the declared length is read back
  as it was written.
\<close>
lemma stable_file_uploads:
  assumes "list_all (\<lambda>c. c \<noteq> []) chunks" and "bytes = int (length (concat chunks))"
    and "bytes \<le> upload_limit max_bytes content_type" and "bytes \<le> store_max" and "bytes \<le> max_artifact_bytes"
    and "\<not> isl (reserve_spool room bytes False b0)"
    and "store (art_key (artifact_of sha tenant content_type (concat chunks))) (concat chunks) = Some fetch"
    and "map_option concat (fetch (art_key (artifact_of sha tenant content_type (concat chunks)))) = Some (concat chunks)"
  shows "client_put_file sha (\<lambda>up. map_sum id snd (snd (snd (receive sha store_max max_bytes store False room tenant up b0))))
      content_type bytes chunks = Inr (artifact_of sha tenant content_type (concat chunks))"
proof -
  have sent: "takeWhile (\<lambda>c. c \<noteq> []) chunks = chunks" using assms(1) by (simp add: takeWhile_eq_all_conv list_all_iff)
  have len: "parse_length (decimal (nat bytes)) = Some bytes"
    using parse_decimal [of "nat bytes"] assms(2,5) by (simp add: max_artifact_bytes_def)
  obtain b1 where b1: "reserve_spool room bytes False b0 = Inr b1" using assms(6) by (cases "reserve_spool room bytes False b0") auto
  have chunks: "receive_chunks (upload_limit max_bytes content_type) (Some bytes) [] chunks = Inr (concat chunks)"
    using assms(2,3) by (simp add: receive_chunks_iff)
  define a where "a = artifact_of sha tenant content_type (concat chunks)"
  have fields: "art_size a = bytes" "art_sha256 a = sha (concat chunks)" using assms(2) by (simp_all add: a_def artifact_of_fields)
  obtain cs where cs: "fetch (art_key a) = Some cs" "concat cs = concat chunks" using assms(8) by (auto simp: a_def)
  have stored: "put_file sha store_max store tenant content_type (concat chunks) = Inr (fetch, a)"
  proof -
    have "verify_chunks sha a [] cs = Inr (concat chunks)" using cs(2) fields assms(2) by (simp add: verify_chunks_iff)
    then show ?thesis using assms(2,4,7) cs(1) by (simp add: put_file_def Let_def verify_def flip: a_def)
  qed
  then show ?thesis
    using sent len b1 chunks assms(2,3,5) fields by (simp add: client_put_file_def receive_def Let_def flip: a_def del: takeWhile_eq_all_conv)
qed

section \<open>Witnesses\<close>

definition demo_served :: "string \<Rightarrow> string list option" where
  "demo_served = the (demo_bucket (art_key (artifact_of demo_hash ''t'' ''text'' ''abc'')) ''abc'')"

lemma demo_upload:
  "client_put_file demo_hash (\<lambda>up. map_sum id snd (snd (snd (receive demo_hash 8 8 demo_bucket False 100 ''t'' up demo_budget))))
     ''text'' 3 [''ab'', ''c''] = Inr (artifact_of demo_hash ''t'' ''text'' (concat [''ab'', ''c'']))"
proof (rule stable_file_uploads [where fetch = demo_served])
  show "3 \<le> upload_limit 8 ''text''" by code_simp
  show "demo_bucket (art_key (artifact_of demo_hash ''t'' ''text'' (concat [''ab'', ''c'']))) (concat [''ab'', ''c'']) = Some demo_served"
    "map_option concat (demo_served (art_key (artifact_of demo_hash ''t'' ''text'' (concat [''ab'', ''c''])))) = Some (concat [''ab'', ''c''])"
    by (simp_all add: demo_served_def demo_bucket_def)
qed (simp_all add: max_artifact_bytes_def reserve_spool_def demo_budget_def)

theorem transfer_roundtrip_witness:
  "snd (client_open_verified demo_hash (serve_download demo_hash 8 demo_served 100 demo_budget ''t'') 100
     (artifact_of demo_hash ''t'' ''text'' ''abc'') demo_budget) = Inr ''abc''"
proof -
  define x where "x = client_open_verified demo_hash (serve_download demo_hash 8 demo_served 100 demo_budget ''t'') 100
     (artifact_of demo_hash ''t'' ''text'' ''abc'') demo_budget"
  have fields: "art_size (artifact_of demo_hash ''t'' ''text'' ''abc'') = 3" by (simp add: artifact_of_fields)
  have room: "\<not> isl (reserve_spool 100 3 True demo_budget)" by (simp add: reserve_spool_def demo_budget_def)
  have intact: "map_option concat (demo_served (art_key (artifact_of demo_hash ''t'' ''text'' ''abc''))) = Some ''abc''"
    by (simp add: demo_served_def demo_bucket_def)
  have "snd x = Inr ''abc''"
    using transfer_roundtrip [OF demo_upload, where fetch = demo_served and server_room = 100 and b = demo_budget and client_room = 100 and
        bc = demo_budget and bc' = "fst x" and x = "snd x"] room intact
    by (simp add: x_def fields demo_hash_def)
  then show ?thesis by (simp only: x_def)
qed

end
