(* ===== verification/Api.thy ===== *)
theory Api
  imports Ledger_Runs Buffering Uploads
begin

text \<open>
  The routes of the authenticated API that reach the ledger, the buffer and the artifact store
  (\<open>api.py\<close>): the two authentication dependencies, one handler per route, and the statuses the
  exception handlers choose. What a handler does between two awaits of the same transaction is one
  step; the clocks, SHA-256, the object store and the free bytes of the disk are the environment.
\<close>

section \<open>Requests\<close>

record run_submission =
  su_task_type :: string
  su_key :: string
  su_input :: artifact
  su_configuration :: "artifact option"

datatype api_call =
    Submit_run run_submission
  | Buffer_input buffered_submission
  | Buffered_status string
  | Run_status string
  | Run_snapshots "string list"
  | Cancel_run string
  | Operation_status string
  | Upload_artifact upload
  | Read_artifact artifact

record http_headers =
  hd_authorization :: string
  hd_tenant :: string

datatype api_body =
    No_body
  | Accepted_run string
  | Accepted_item string
  | Item_view "string option \<times> item_state \<times> string option"
  | Run_view run_view
  | Snapshots "(string \<times> root_state \<times> bool \<times> bool) list"
  | Operation_view "operation_state \<times> artifact option \<times> string option"
  | Stored artifact
  | Content "string list"

type_synonym api_response = "nat \<times> api_body"

record api_definition =
  ad_task :: task_definition
  ad_resource_budgets :: "(budget_unit \<times> int) list"

record api_env =
  en_token :: string
  en_definitions :: "string \<Rightarrow> api_definition option"
  en_control :: string
  en_sha :: "string \<Rightarrow> string"
  en_store_max :: int
  en_upload_max :: int
  en_clock :: clocks
  en_room :: int
  en_busy :: bool
  en_store :: "string \<Rightarrow> string \<Rightarrow> (string \<Rightarrow> string list option) option"

record api_state =
  ap_ledger :: ledger
  ap_buffer :: buffer
  ap_fetch :: "string \<Rightarrow> string list option"
  ap_spool :: spool_budget

section \<open>Authentication\<close>

text \<open>\<open>tenant\<close> and \<open>service\<close>; the comparison of the token is exact.\<close>

definition bearer :: "api_env \<Rightarrow> string" where
  "bearer env = ''Bearer '' @ en_token env"

definition tenant_of :: "api_env \<Rightarrow> http_headers \<Rightarrow> nat + string" where
  "tenant_of env h =
     (if hd_authorization h \<noteq> bearer env then Inl 401
      else if hd_tenant h = [] \<or> 200 < length (hd_tenant h) then Inl 400
      else Inr (hd_tenant h))"

definition trusted_service :: "api_env \<Rightarrow> http_headers \<Rightarrow> nat + unit" where
  "trusted_service env h = (if hd_authorization h \<noteq> bearer env then Inl 401 else Inr ())"

section \<open>Statuses\<close>

text \<open>The exception handlers; an exception without one is a 500.\<close>

fun error_status :: "error \<Rightarrow> nat" where
  "error_status (AdmissionDenied _ retryable) = (if retryable then 429 else 422)"
| "error_status (NotFound _) = 404"
| "error_status e = (if is_runtime_conflict e then 409 else 500)"

section \<open>Handlers\<close>

definition own_reference :: "api_env \<Rightarrow> string \<Rightarrow> artifact \<Rightarrow> bool" where
  "own_reference env tenant a \<longleftrightarrow> starts_with (tenant_prefix (en_sha env) tenant) (art_key a)"

text \<open>\<open>verify_artifact\<close>: nothing, or the status of what it raises.\<close>

definition verify_reference :: "api_env \<Rightarrow> api_state \<Rightarrow> artifact \<Rightarrow> nat option" where
  "verify_reference env S a =
     (case get_artifact (en_sha env) (en_store_max env) (ap_fetch S) (en_room env) a (ap_spool S) of
        Inl e \<Rightarrow> Some (read_status e)
      | Inr _ \<Rightarrow> None)"

text \<open>The references of a request in turn: each must be the tenant's own and intact.\<close>

fun check_references :: "api_env \<Rightarrow> api_state \<Rightarrow> string \<Rightarrow> artifact list \<Rightarrow> nat option" where
  "check_references env S tenant [] = None"
| "check_references env S tenant (a # as) =
     (if \<not> own_reference env tenant a then Some 404
      else case verify_reference env S a of Some status \<Rightarrow> Some status | None \<Rightarrow> check_references env S tenant as)"

definition submitted_root :: "api_env \<Rightarrow> string \<Rightarrow> run_submission \<Rightarrow> api_definition \<Rightarrow> root_spec" where
  "submitted_root env tenant q d =
     \<lparr>rs_root_id = en_sha env (tenant @ [CHR 0x00] @ su_key q), rs_tenant_id = tenant,
      rs_deadline = utc (en_clock env) + seconds (td_deadline_seconds (ad_task d)),
      rs_budget_limit = td_budget_limit (ad_task d), rs_resource_budgets = ad_resource_budgets d,
      rs_max_operations = 10000, rs_max_pending = 64, rs_max_attempts = 30000,
      rs_priority = workload_for_task (su_task_type q) (td_priority (ad_task d))\<rparr>"

definition submitted_spec :: "api_env \<Rightarrow> string \<Rightarrow> run_submission \<Rightarrow> api_definition \<Rightarrow> run_spec" where
  "submitted_spec env tenant q d =
     \<lparr>run_workflow_type = su_task_type q, run_task_queue = td_task_queue (ad_task d),
      run_root_id = en_sha env (tenant @ [CHR 0x00] @ su_key q), run_tenant_id = tenant, run_control_queue = en_control env,
      run_input = su_input q, run_configuration = su_configuration q, run_deadline = None\<rparr>"

definition valid_run_submission :: "run_submission \<Rightarrow> bool" where
  "valid_run_submission q \<longleftrightarrow> len_between 1 120 (su_task_type q) \<and> len_between 1 200 (su_key q) \<and> valid_artifact (su_input q) \<and>
     (case su_configuration q of None \<Rightarrow> True | Some a \<Rightarrow> valid_artifact a)"

definition post_run :: "api_env \<Rightarrow> string \<Rightarrow> run_submission \<Rightarrow> api_state \<Rightarrow> api_state \<times> api_response" where
  "post_run env tenant q S =
     (if \<not> valid_run_submission q then (S, 422, No_body)
      else case en_definitions env (su_task_type q) of
          None \<Rightarrow> (S, 422, No_body)
        | Some d \<Rightarrow>
            (case check_references env S tenant (su_input q # (case su_configuration q of None \<Rightarrow> [] | Some a \<Rightarrow> [a])) of
               Some status \<Rightarrow> (S, status, No_body)
             | None \<Rightarrow>
                 (if \<not> valid_root_spec (submitted_root env tenant q d) then (S, 500, No_body)
                  else case submit_run (en_clock env) (submitted_root env tenant q d) (su_key q) (art_sha256 (su_input q))
                      (submitted_spec env tenant q d) (ap_ledger S) of
                    Inl e \<Rightarrow> (S, error_status e, No_body)
                  | Inr (L, rid) \<Rightarrow> (S\<lparr>ap_ledger := L\<rparr>, 202, Accepted_run rid))))"

definition post_buffer :: "api_env \<Rightarrow> string \<Rightarrow> buffered_submission \<Rightarrow> api_state \<Rightarrow> api_state \<times> api_response" where
  "post_buffer env tenant q S =
     (if \<not> valid_submission q then (S, 422, No_body)
      else case en_definitions env (bs_task_type q) of
          None \<Rightarrow> (S, 422, No_body)
        | Some d \<Rightarrow>
            (case check_references env S tenant [bs_input q, bs_configuration q] of
               Some status \<Rightarrow> (S, status, No_body)
             | None \<Rightarrow>
                 (case append_item (en_clock env) (en_sha env) (en_control env) tenant q (ad_task d) (max_pending (ap_ledger S))
                     (root_state_of (ap_ledger S)) (ap_buffer S) of
                    Inl e \<Rightarrow> (S, error_status e, No_body)
                  | Inr (B, item) \<Rightarrow> (S\<lparr>ap_buffer := B\<rparr>, 202, Accepted_item item))))"

definition post_cancel :: "api_env \<Rightarrow> string \<Rightarrow> string \<Rightarrow> api_state \<Rightarrow> api_state \<times> api_response" where
  "post_cancel env tenant rid S =
     (case cancel (en_clock env) rid tenant (ap_ledger S) of
        Inl e \<Rightarrow> (S, error_status e, No_body)
      | Inr L \<Rightarrow> (S\<lparr>ap_ledger := L\<rparr>, 202, Accepted_run rid))"

definition post_artifact :: "api_env \<Rightarrow> string \<Rightarrow> upload \<Rightarrow> api_state \<Rightarrow> api_state \<times> api_response" where
  "post_artifact env tenant up S =
     (case receive (en_sha env) (en_store_max env) (en_upload_max env) (en_store env) (en_busy env) (en_room env) tenant up (ap_spool S) of
        (held, b, Inl status) \<Rightarrow> (S\<lparr>ap_spool := b\<rparr>, status, No_body)
      | (held, b, Inr (fetch, a)) \<Rightarrow> (S\<lparr>ap_spool := b, ap_fetch := fetch\<rparr>, 200, Stored a))"

text \<open>A read answers with a value or an error.\<close>

definition read_answer :: "('a \<Rightarrow> api_body) \<Rightarrow> error + 'a \<Rightarrow> api_response" where
  "read_answer f r = (case r of Inl e \<Rightarrow> (error_status e, No_body) | Inr v \<Rightarrow> (200, f v))"

definition post_snapshots :: "string \<Rightarrow> string list \<Rightarrow> api_state \<Rightarrow> api_response" where
  "post_snapshots tenant ids S =
     (if ids = [] \<or> 100 < length ids \<or> \<not> list_all (len_between 1 200) ids then (422, No_body)
      else read_answer Snapshots (run_snapshots (ap_ledger S) ids tenant))"

definition post_read :: "api_env \<Rightarrow> string \<Rightarrow> artifact \<Rightarrow> api_state \<Rightarrow> api_response" where
  "post_read env tenant a S =
     (if \<not> valid_artifact a then (422, No_body)
      else case serve_download (en_sha env) (en_store_max env) (ap_fetch S) (en_room env) (ap_spool S) tenant a of
          Inl status \<Rightarrow> (status, No_body)
        | Inr chunks \<Rightarrow> (200, Content chunks))"

definition route :: "api_env \<Rightarrow> string \<Rightarrow> api_call \<Rightarrow> api_state \<Rightarrow> api_state \<times> api_response" where
  "route env tenant call S =
     (case call of
        Submit_run q \<Rightarrow> post_run env tenant q S
      | Buffer_input q \<Rightarrow> post_buffer env tenant q S
      | Cancel_run rid \<Rightarrow> post_cancel env tenant rid S
      | Upload_artifact up \<Rightarrow> post_artifact env tenant up S
      | Buffered_status k \<Rightarrow> (S, read_answer Item_view (buffer_status (ap_ledger S) (ap_buffer S) tenant k))
      | Run_status rid \<Rightarrow> (S, read_answer Run_view (run_of (ap_ledger S) rid tenant))
      | Run_snapshots ids \<Rightarrow> (S, post_snapshots tenant ids S)
      | Operation_status k \<Rightarrow> (S, read_answer Operation_view (operation_status (ap_ledger S) k tenant))
      | Read_artifact a \<Rightarrow> (S, post_read env tenant a S))"

definition handle :: "api_env \<Rightarrow> http_headers \<Rightarrow> api_call \<Rightarrow> api_state \<Rightarrow> api_state \<times> api_response" where
  "handle env h call S =
     (case tenant_of env h of
        Inl status \<Rightarrow> (S, status, No_body)
      | Inr tenant \<Rightarrow> route env tenant call S)"

end
