(* ===== verification/Api_Properties.thy ===== *)
theory Api_Properties
  imports Api Ledger_Closing
begin

text \<open>
  What the API promises to tenants: a request changes no row of another tenant, a refused request
  changes nothing, and what a read answers is computed from the tenant's own rows alone.
\<close>

section \<open>Writes\<close>

definition foreign :: "string \<Rightarrow> ledger \<Rightarrow> string \<Rightarrow> bool" where
  "foreign t L rid \<longleftrightarrow> map_option root_tenant_id (find_root L rid) \<noteq> Some t"

text \<open>The rows of a ledger that are not a tenant's, by the roots of \<open>M\<close>.\<close>

definition foreign_rows :: "string \<Rightarrow> ledger \<Rightarrow> ledger \<Rightarrow> ledger" where
  "foreign_rows t M L = L\<lparr>t_roots := filter (\<lambda>r. root_tenant_id r \<noteq> t) (t_roots L),
     t_ops := filter (\<lambda>x. foreign t M (op_root_id x)) (t_ops L),
     t_budgets := filter (\<lambda>b. foreign t M (bud_root_id b)) (t_budgets L),
     t_submissions := filter (\<lambda>s. sub_tenant_id s \<noteq> t) (t_submissions L),
     t_outbox := [], woken := False\<rparr>"

text \<open>Events are added only for aggregates in a set.\<close>

definition emits :: "string set \<Rightarrow> ledger \<Rightarrow> ledger \<Rightarrow> bool" where
  "emits A L M \<longleftrightarrow> (\<exists>evs. t_outbox M = t_outbox L @ evs \<and> ev_aggregate_id ` set evs \<subseteq> A)"

lemma emits_refl [simp]: "emits A L L"
  by (simp add: emits_def)

lemma emits_same: "t_outbox M = t_outbox L \<Longrightarrow> emits A L M"
  by (simp add: emits_def)

lemma emits_trans: "emits A L M \<Longrightarrow> emits A M N \<Longrightarrow> emits A L N"
  unfolding emits_def by (metis append.assoc image_Un le_sup_iff set_append)

lemma emits_mono: "emits A L M \<Longrightarrow> A \<subseteq> B \<Longrightarrow> emits B L M"
  unfolding emits_def by blast

lemma emits_event: "a \<in> A \<Longrightarrow> emits A L (emit_event c e a p L)"
  by (auto simp: emits_def emit_event_def wake_def)

lemma emits_completions: "k \<in> A \<Longrightarrow> emits A L (emit_completions c k bs L)"
proof (induction bs arbitrary: L)
  case (Cons b bs)
  then show ?case using emits_event [of k A L] emits_trans by fastforce
qed simp

lemma emits_terminal: "k \<in> A \<Longrightarrow> emits A L (terminal c k st reason L)"
  unfolding terminal_def completion_events_def
  using emits_trans [OF emits_same emits_completions] by (metis set_op_frame(4))

lemma emits_terminal_all: "set ks \<subseteq> A \<Longrightarrow> emits A L (terminal_all c ks st reason L)"
proof (induction ks arbitrary: L)
  case (Cons k ks)
  then have "emits A L (terminal c k st reason L)" by (intro emits_terminal) simp
  with Cons show ?case using emits_trans by fastforce
qed simp

text \<open>What a cancellation does beside its events.\<close>

definition scrub :: "ledger \<Rightarrow> ledger" where
  "scrub L = L\<lparr>t_outbox := [], woken := False\<rparr>"

lemma scrub_emit [simp]: "scrub (emit_event c e a p L) = scrub L"
  by (simp add: scrub_def emit_event_def wake_def)

lemma scrub_completions [simp]: "scrub (emit_completions c k bs L) = scrub L"
  by (induction bs arbitrary: L) simp_all

lemma scrub_terminal: "scrub (terminal c k st reason L) = scrub L\<lparr>t_ops := update_rows (\<lambda>x. op_id x = k) (finish_op st reason) (t_ops L)\<rparr>"
  by (simp add: terminal_def completion_events_def) (simp add: scrub_def set_op_def)

lemma scrub_terminal_all: "scrub (terminal_all c ks st reason L) = scrub L\<lparr>t_ops := t_ops (terminal_all c ks st reason L)\<rparr>"
proof (induction ks arbitrary: L)
  case Nil
  show ?case by (simp add: scrub_def)
next
  case (Cons k ks)
  show ?case by (simp add: Cons.IH scrub_terminal)
qed

lemma terminal_all_submissions [simp]: "t_submissions (terminal_all c ks st reason L) = t_submissions L"
  by (induction ks arbitrary: L) simp_all

lemma foreign_rows_scrub:
  "foreign_rows t M L = (scrub L)\<lparr>t_roots := filter (\<lambda>r. root_tenant_id r \<noteq> t) (t_roots L),
     t_ops := filter (\<lambda>x. foreign t M (op_root_id x)) (t_ops L),
     t_budgets := filter (\<lambda>b. foreign t M (bud_root_id b)) (t_budgets L),
     t_submissions := filter (\<lambda>s. sub_tenant_id s \<noteq> t) (t_submissions L)\<rparr>"
  by (simp add: foreign_rows_def scrub_def)

lemma filter_update_out: "(\<And>x. x \<in> set xs \<Longrightarrow> p x \<Longrightarrow> \<not> q x \<and> \<not> q (f x)) \<Longrightarrow> filter q (update_rows p f xs) = filter q xs"
  by (induction xs) auto

lemma cancel_foreign:
  assumes ok: "ledger_ok L" and "cancel c rid t L = Inr M"
  shows "foreign_rows t M M = foreign_rows t M L \<and>
    emits {k. \<not> foreign t M k \<or> (\<exists>x \<in> set (t_ops M). op_id x = k \<and> \<not> foreign t M (op_root_id x))} L M"
proof -
  obtain r where r: "find_root L rid = Some r" "root_tenant_id r = t"
    using assms(2) by (auto simp: cancel_def split: option.splits if_splits)
  show ?thesis
  proof (cases "root_state r \<in> {ROOT_SUCCEEDED, PARTIAL, ROOT_FAILED}")
    case True
    with assms(2) r show ?thesis by (simp add: cancel_def)
  next
    case False
    define L1 where "L1 = set_root rid (cancelled_root c) L"
    define L2 where "L2 = terminal_all c (pending_ids rid L1) CANCELLED ''user_cancelled'' L1"
    have M: "M = emit_event c (cancel_event_id rid) rid (CancelWorkflow rid) L2"
      using assms(2) r False by (simp add: cancel_def Let_def L1_def L2_def)
    have tenant: "root_tenant_id (cancelled_root c x) = root_tenant_id x" "root_id (cancelled_root c x) = root_id x" for x
      by (simp_all add: cancelled_root_def)
    have roots: "t_roots M = update_rows (\<lambda>x. root_id x = rid) (cancelled_root c) (t_roots L)" by (simp add: M L2_def L1_def)
    have same: "foreign t M = foreign t L"
    proof
      fix k show "foreign t M k = foreign t L k"
        unfolding foreign_def roots by (cases "find_root L k") (simp_all add: lookup_update_rows tenant)
    qed
    have rid: "\<not> foreign t L rid" using r by (simp add: foreign_def)
    have ids: "root_tenant_id x = t" if "x \<in> set (t_roots L)" "root_id x = rid" for x
      using that r lookup_row_Some_in [OF r(1)] lookup_row_Some_key [OF r(1)] ok_distinct(1) [OF ok]
      by (metis distinct_lookup_unique)
    have ops: "t_ops M = update_rows (\<lambda>x. op_id x \<in> set (pending_ids rid L)) (finish_op CANCELLED ''user_cancelled'') (t_ops L)"
      by (simp add: M L2_def L1_def terminal_all_ops pending_ids_def)
    have mine: "op_root_id x = rid" if "x \<in> set (t_ops L)" "op_id x \<in> set (pending_ids rid L)" for x
      using that ok_distinct(2) [OF ok] by (auto simp: pending_ids_iff distinct_map inj_on_def)
    have "scrub M = (scrub L)\<lparr>t_roots := t_roots M, t_ops := t_ops M\<rparr>"
      by (simp add: M L2_def scrub_terminal_all) (simp add: L1_def scrub_def set_root_def)
    then have "foreign_rows t M M = foreign_rows t M L"
      unfolding foreign_rows_scrub roots ops same
      using filter_update_out [of "t_roots L" "\<lambda>x. root_id x = rid" "\<lambda>r. root_tenant_id r \<noteq> t" "cancelled_root c"]
        filter_update_out [of "t_ops L" "\<lambda>x. op_id x \<in> set (pending_ids rid L)" "\<lambda>x. foreign t L (op_root_id x)"
          "finish_op CANCELLED ''user_cancelled''"] ids mine rid tenant
      by (simp add: M L2_def L1_def scrub_def)
    moreover have "emits (insert rid (set (pending_ids rid L))) L M"
    proof -
      have "emits (insert rid (set (pending_ids rid L))) L1 L2"
        unfolding L2_def by (rule emits_terminal_all) (auto simp: L1_def pending_ids_def)
      moreover have "emits (insert rid (set (pending_ids rid L))) L L1" by (rule emits_same) (simp add: L1_def)
      ultimately show ?thesis unfolding M using emits_event emits_trans by (metis insertI1)
    qed
    moreover have "\<exists>y \<in> set (t_ops M). op_id y = k \<and> \<not> foreign t M (op_root_id y)" if k: "k \<in> set (pending_ids rid L)" for k
    proof -
      obtain x where x: "x \<in> set (t_ops L)" "op_id x = k" "op_root_id x = rid" using k by (auto simp: pending_ids_iff)
      then have "finish_op CANCELLED ''user_cancelled'' x \<in> set (t_ops M)" using k unfolding ops set_update_rows by force
      with x rid same show ?thesis by (metis finish_op_simps(1,2))
    qed
    then have "insert rid (set (pending_ids rid L)) \<subseteq>
        {k. \<not> foreign t M k \<or> (\<exists>x \<in> set (t_ops M). op_id x = k \<and> \<not> foreign t M (op_root_id x))}"
      using rid same by auto
    ultimately show ?thesis using same emits_mono by blast
  qed
qed

lemma root_tenant: 
  assumes "ledger_ok L" and "find_root L k = Some r"
  shows "rs_tenant_id (root_spec_of r) = root_tenant_id r"
proof -
  have "abs_root r \<in> set (p_roots (abs_ledger L))" using lookup_row_Some_in [OF assms(2)] by simp
  with ident_inv_parts(1) [OF ok_parts(1) [OF assms(1)]] show ?thesis by (auto simp: roots_ok_def abs_root_def)
qed

lemma submit_foreign:
  assumes ok: "ledger_ok L" and run: "submit_run c root key dg spec L = Inr (M, rid)" and t: "rs_tenant_id root = t"
  shows "foreign_rows t M M = foreign_rows t M L \<and> emits {k. \<not> foreign t M k} L M"
proof (cases "find_submission L t key")
  case (Some old)
  with assms show ?thesis by (auto simp: submit_run_def split: if_splits)
next
  case None
  define k where "k = rs_root_id root"
  obtain L1 where L1: "admit_root c root L = Inr L1"
    and M: "M = emit_event c (start_event_id k) k (StartWorkflow (spec\<lparr>run_deadline := Some (rs_deadline root)\<rparr>))
       (L1\<lparr>t_submissions := t_submissions L1 @
             [\<lparr>sub_run_id = k, sub_tenant_id = t, sub_key = key, sub_input_digest = dg, sub_spec = spec\<rparr>]\<rparr>)"
    using run t None by (auto simp: submit_run_def and_then_Inr_iff k_def)
  consider (old) r where "L1 = L" "find_root L k = Some r" "root_spec_of r = root"
    | (new) "find_root L k = None" "L1 = L\<lparr>t_roots := t_roots L @ [new_root c root],
        t_budgets := t_budgets L @ map (new_budget k) (rs_resource_budgets root)\<rparr>"
    using L1 by (auto simp: admit_root_def k_def split: option.splits if_splits)
  then have own: "\<not> foreign t M k" and rows: "foreign_rows t M L1 = foreign_rows t M L"
  proof (atomize (full), cases)
    case old
    then have "\<not> foreign t M k" using root_tenant [OF ok old(2)] t by (simp add: foreign_def M)
    with old show "\<not> foreign t M k \<and> foreign_rows t M L1 = foreign_rows t M L" by simp
  next
    case new
    then have own: "\<not> foreign t M k" using t by (simp add: foreign_def M new_root_def k_def lookup_row_append)
    have "filter (\<lambda>b. foreign t M (bud_root_id b)) (map (new_budget k) bs) = []" for bs
      using own by (induction bs) (auto simp: new_budget_def)
    then have "foreign_rows t M L1 = foreign_rows t M L" using new t by (simp add: foreign_rows_def new_root_def)
    with own show "\<not> foreign t M k \<and> foreign_rows t M L1 = foreign_rows t M L" by simp
  qed
  have "foreign_rows t M M = foreign_rows t M L1"
    unfolding foreign_rows_scrub by (simp add: M) (simp add: scrub_def)
  moreover have "t_outbox L1 = t_outbox L" using L1 by (auto simp: admit_root_def split: option.splits if_splits)
  then have "emits {k. \<not> foreign t M k} L M"
    unfolding M using emits_trans [OF emits_same emits_event] own M by simp
  ultimately show ?thesis using rows by simp
qed

lemma append_foreign:
  assumes "append_item c sha control t q d quota rs B = Inr (B', k)"
  shows "filter (\<lambda>i. bi_tenant i \<noteq> t) (bf_items B') = filter (\<lambda>i. bi_tenant i \<noteq> t) (bf_items B) \<and> bf_batches B' = bf_batches B"
  using assms by (auto simp: append_item_def admit_item_def new_item_def Let_def split: option.splits if_splits)

lemma receive_budget: "fst (snd (receive sha sm m store busy room t up b)) = b"
  by (auto simp: receive_def Let_def reserve_release split: option.splits sum.splits)

lemma read_status_refuses: "400 \<le> read_status e"
  by (simp add: read_status_def split: artifact_error.splits)

lemma receive_refuses: "snd (snd (receive sha sm m store busy room t up b)) = Inl status \<Longrightarrow> 400 \<le> status"
proof -
  have "receive_chunks limit declared got cs = Inl status \<Longrightarrow> 400 \<le> status" for limit declared got cs
    by (induction limit declared got cs rule: receive_chunks.induct) (auto split: if_splits)
  moreover have "400 \<le> put_status e" for e by (simp add: put_status_def split: artifact_error.splits)
  moreover assume "snd (snd (receive sha sm m store busy room t up b)) = Inl status"
  ultimately show "400 \<le> status" by (auto simp: receive_def Let_def split: if_splits sum.splits option.splits)
qed

lemma error_status_refuses: "400 \<le> error_status e"
  by (cases e) auto

lemma check_references_refuses: "check_references env S t as = Some status \<Longrightarrow> 400 \<le> status"
  by (induction as) (auto simp: verify_reference_def read_status_refuses split: if_splits option.splits sum.splits)

text \<open>What a committed request may do to the state, as its tenant.\<close>

definition only_own :: "string \<Rightarrow> api_state \<Rightarrow> api_state \<Rightarrow> bool" where
  "only_own t S S' \<longleftrightarrow>
     (let L = ap_ledger S; M = ap_ledger S' in
      foreign_rows t M M = foreign_rows t M L \<and>
      emits {k. \<not> foreign t M k \<or> (\<exists>x \<in> set (t_ops M). op_id x = k \<and> \<not> foreign t M (op_root_id x))} L M) \<and>
     filter (\<lambda>i. bi_tenant i \<noteq> t) (bf_items (ap_buffer S')) = filter (\<lambda>i. bi_tenant i \<noteq> t) (bf_items (ap_buffer S)) \<and>
     bf_batches (ap_buffer S') = bf_batches (ap_buffer S) \<and> ap_spool S' = ap_spool S"

lemma only_own_refl [simp]: "only_own t S S"
  by (simp add: only_own_def Let_def)

lemma route_only_own:
  assumes ok: "ledger_ok (ap_ledger S)" and "route env t call S = (S', status, body)"
  shows "only_own t S S' \<and> (S' = S \<or> status < 400)"
proof (cases call)
  case (Submit_run q)
  with assms(2) have "post_run env t q S = (S', status, body)" by (simp add: route_def)
  then consider "S' = S" | d L rid where "S' = S\<lparr>ap_ledger := L\<rparr>" "status = 202"
      "submit_run (en_clock env) (submitted_root env t q d) (su_key q) (art_sha256 (su_input q)) (submitted_spec env t q d) (ap_ledger S) = Inr (L, rid)"
    by (auto simp: post_run_def split: if_splits option.splits sum.splits)
  then show ?thesis
  proof cases
    case 2
    have "rs_tenant_id (submitted_root env t q d) = t" by (simp add: submitted_root_def)
    note own = submit_foreign [OF ok 2(3) this]
    have "emits {k. \<not> foreign t L k \<or> (\<exists>x \<in> set (t_ops L). op_id x = k \<and> \<not> foreign t L (op_root_id x))} (ap_ledger S) L"
      by (rule emits_mono [OF conjunct2 [OF own]]) blast
    with own show ?thesis using 2(1,2) by (simp add: only_own_def Let_def)
  qed simp
next
  case (Buffer_input q)
  with assms(2) have "post_buffer env t q S = (S', status, body)" by (simp add: route_def)
  then show ?thesis
    by (auto simp: post_buffer_def only_own_def Let_def split: if_splits option.splits sum.splits dest: append_foreign)
next
  case (Cancel_run rid)
  with assms(2) have "post_cancel env t rid S = (S', status, body)" by (simp add: route_def)
  then show ?thesis
    using cancel_foreign [OF ok] by (auto simp: post_cancel_def only_own_def Let_def split: sum.splits)
next
  case (Upload_artifact up)
  obtain held b r where r: "receive (en_sha env) (en_store_max env) (en_upload_max env) (en_store env) (en_busy env) (en_room env) t up (ap_spool S) = (held, b, r)"
    by (metis prod.exhaust)
  have "b = ap_spool S" using receive_budget r by (metis fst_conv snd_conv)
  moreover have "400 \<le> e" if "r = Inl e" for e using receive_refuses r that by (metis snd_conv)
  ultimately show ?thesis using assms(2) Upload_artifact r
    by (cases r) (auto simp: route_def post_artifact_def only_own_def Let_def)
qed (use assms(2) in \<open>auto simp: route_def\<close>)


section \<open>Reads\<close>

text \<open>What is a tenant's own: its rows, and the rows that belong to its runs, operations and items.\<close>

definition own_ledger :: "string \<Rightarrow> string set \<Rightarrow> ledger \<Rightarrow> ledger" where
  "own_ledger t batches L =
     empty_ledger\<lparr>t_roots := filter (\<lambda>r. root_tenant_id r = t \<or> root_id r \<in> batches) (t_roots L),
       t_ops := filter (\<lambda>x. op_tenant_id x = t \<or> \<not> foreign t L (op_root_id x)) (t_ops L),
       t_attempts := filter (\<lambda>a. \<exists>x \<in> set (t_ops L). op_id x = att_operation_id a \<and> \<not> foreign t L (op_root_id x)) (t_attempts L),
       t_budgets := filter (\<lambda>b. \<not> foreign t L (bud_root_id b)) (t_budgets L),
       t_submissions := filter (\<lambda>s. \<not> foreign t L (sub_run_id s)) (t_submissions L)\<rparr>"

definition own_state :: "api_env \<Rightarrow> string \<Rightarrow> api_state \<Rightarrow> api_state" where
  "own_state env t S =
     (let items = filter (\<lambda>i. bi_tenant i = t) (bf_items (ap_buffer S));
          batches = {k. Some k \<in> bi_batch ` set items} in
      S\<lparr>ap_ledger := own_ledger t batches (ap_ledger S),
        ap_buffer := \<lparr>bf_items = items, bf_batches = filter (\<lambda>b. bb_batch_id b \<in> batches) (bf_batches (ap_buffer S))\<rparr>,
        ap_fetch := (\<lambda>k. if starts_with (tenant_prefix (en_sha env) t) k then ap_fetch S k else None)\<rparr>)"

definition is_read :: "api_call \<Rightarrow> bool" where
  "is_read call \<longleftrightarrow> (case call of Buffered_status _ \<Rightarrow> True | Run_status _ \<Rightarrow> True | Run_snapshots _ \<Rightarrow> True
     | Operation_status _ \<Rightarrow> True | Read_artifact _ \<Rightarrow> True | _ \<Rightarrow> False)"

lemma row_lookup_filter: "(\<And>r. r \<in> set xs \<Longrightarrow> key r = k \<Longrightarrow> q r) \<Longrightarrow> lookup_row key k (filter q xs) = lookup_row key k xs"
  by (induction xs) auto

lemma lookup_filter_distinct:
  "distinct (map key xs) \<Longrightarrow>
   lookup_row key k (filter q xs) = (case lookup_row key k xs of Some r \<Rightarrow> if q r then Some r else None | None \<Rightarrow> None)"
proof (cases "lookup_row key k xs")
  case None
  then have "lookup_row key k (filter q xs) = None" unfolding lookup_row_None_iff by auto
  with None show ?thesis by simp
next
  case (Some r)
  assume d: "distinct (map key xs)"
  have r: "r \<in> set xs" "key r = k" using Some by (auto dest: lookup_row_Some_in lookup_row_Some_key)
  show ?thesis
  proof (cases "q r")
    case True
    then have "lookup_row key k (filter q xs) = Some r" using r d by (simp add: lookup_row_iff distinct_map_filter)
    with Some True show ?thesis by simp
  next
    case False
    then have "lookup_row key k (filter q xs) = None"
      using r d by (auto simp: lookup_row_None_iff dest: distinct_lookup_unique)
    with Some False show ?thesis by simp
  qed
qed

lemma count_filter: "(\<And>r. r \<in> set xs \<Longrightarrow> p r \<Longrightarrow> q r) \<Longrightarrow> count_rows p (filter q xs) = count_rows p xs"
  by (induction xs) auto

lemma own_operation:
  assumes "ledger_ok L"
  shows "operation_status (own_ledger t B L) k t = operation_status L k t"
  using ok_distinct(2) [OF assms]
  by (auto simp: operation_status_def own_ledger_def lookup_filter_distinct split: option.splits)

lemma own_cleanup:
  assumes ok: "ledger_ok L" and r: "find_root L rid = Some r" "root_tenant_id r = t"
  shows "cleanup_pending (own_ledger t B L) rid = cleanup_pending L rid"
proof -
  have mine: "\<not> foreign t L rid" using r by (simp add: foreign_def)
  have find: "find_op (own_ledger t B L) k =
      (case find_op L k of Some x \<Rightarrow> if op_tenant_id x = t \<or> \<not> foreign t L (op_root_id x) then Some x else None | None \<Rightarrow> None)" for k
    using ok_distinct(2) [OF ok] by (simp add: own_ledger_def lookup_filter_distinct)
  have root: "attempt_root (own_ledger t B L) a = Some rid \<longleftrightarrow> attempt_root L a = Some rid" for a
    using mine by (auto simp: attempt_root_def op_of_attempt_def find split: option.splits if_splits)
  have atts: "a \<in> set (t_attempts (own_ledger t B L)) \<longleftrightarrow> a \<in> set (t_attempts L)" if "attempt_root L a = Some rid" for a
    using that mine by (auto simp: own_ledger_def attempt_root_def op_of_attempt_def dest: lookup_row_Some_in lookup_row_Some_key)
  show ?thesis unfolding cleanup_pending_def root using atts by blast
qed

lemma own_run:
  assumes ok: "ledger_ok L"
  shows "run_of (own_ledger t B L) rid t = run_of L rid t"
proof (cases "find_root L rid")
  case None
  then show ?thesis using ok_distinct(1) [OF ok] by (simp add: run_of_def own_ledger_def lookup_filter_distinct)
next
  case (Some r)
  have root: "find_root (own_ledger t B L) rid = (if root_tenant_id r = t \<or> root_id r \<in> B then Some r else None)"
    using ok_distinct(1) [OF ok] Some by (simp add: own_ledger_def lookup_filter_distinct)
  show ?thesis
  proof (cases "root_tenant_id r = t")
    case False
    with root Some show ?thesis by (simp add: run_of_def)
  next
    case True
    then have mine: "\<not> foreign t L rid" using Some by (simp add: foreign_def)
    have "lookup_row sub_run_id rid (t_submissions (own_ledger t B L)) = lookup_row sub_run_id rid (t_submissions L)"
      "count_rows (\<lambda>x. op_root_id x = rid \<and> op_state x = st) (t_ops (own_ledger t B L)) =
        count_rows (\<lambda>x. op_root_id x = rid \<and> op_state x = st) (t_ops L)"
      "filter (\<lambda>b. bud_root_id b = rid) (t_budgets (own_ledger t B L)) = filter (\<lambda>b. bud_root_id b = rid) (t_budgets L)" for st
      using mine by (auto simp: own_ledger_def row_lookup_filter intro: filter_cong count_filter)
    then show ?thesis using root Some True own_cleanup [OF ok Some True] by (simp add: run_of_def)
  qed
qed

lemma own_snapshots:
  assumes ok: "ledger_ok L"
  shows "run_snapshots (own_ledger t B L) ids t = run_snapshots L ids t"
proof -
  have roots: "filter (\<lambda>r. root_tenant_id r = t \<and> root_id r \<in> set ids) (t_roots (own_ledger t B L)) =
      filter (\<lambda>r. root_tenant_id r = t \<and> root_id r \<in> set ids) (t_roots L)"
    by (auto simp: own_ledger_def intro: filter_cong)
  have clean: "cleanup_pending (own_ledger t B L) (root_id r) = cleanup_pending L (root_id r)"
    if "r \<in> set (filter (\<lambda>r. root_tenant_id r = t \<and> root_id r \<in> set ids) (t_roots L))" for r
    using that own_cleanup [OF ok, of "root_id r" r t B] ok_distinct(1) [OF ok] by (auto simp: lookup_row_iff)
  have "map (\<lambda>r. (root_id r, root_state r, root_cancel_requested r, cleanup_pending (own_ledger t B L) (root_id r)))
        (filter (\<lambda>r. root_tenant_id r = t \<and> root_id r \<in> set ids) (t_roots L)) =
      map (\<lambda>r. (root_id r, root_state r, root_cancel_requested r, cleanup_pending L (root_id r)))
        (filter (\<lambda>r. root_tenant_id r = t \<and> root_id r \<in> set ids) (t_roots L))"
    by (rule map_cong [OF refl]) (simp only: clean)
  then show ?thesis unfolding run_snapshots_def roots by (simp only:)
qed

lemma own_buffered:
  assumes ok: "ledger_ok (ap_ledger S)"
  shows "buffer_status (ap_ledger (own_state env t S)) (ap_buffer (own_state env t S)) t k = buffer_status (ap_ledger S) (ap_buffer S) t k"
proof -
  let ?items = "filter (\<lambda>i. bi_tenant i = t) (bf_items (ap_buffer S))"
  let ?B = "{b. Some b \<in> bi_batch ` set ?items}"
  have items: "bf_items (ap_buffer (own_state env t S)) = ?items"
    and batches: "bf_batches (ap_buffer (own_state env t S)) = filter (\<lambda>b. bb_batch_id b \<in> ?B) (bf_batches (ap_buffer S))"
    and ledger: "ap_ledger (own_state env t S) = own_ledger t ?B (ap_ledger S)"
    by (simp_all add: own_state_def Let_def)
  have batch: "find_batch (ap_buffer (own_state env t S)) b = find_batch (ap_buffer S) b" if "b \<in> ?B" for b
    unfolding batches by (rule row_lookup_filter) (use that in simp)
  have root: "find_root (ap_ledger (own_state env t S)) b = find_root (ap_ledger S) b" if "b \<in> ?B" for b
    unfolding ledger own_ledger_def using that by (simp, intro row_lookup_filter) auto
  show ?thesis
  proof (cases "lookup_row bi_item_id k ?items")
    case None
    then show ?thesis by (simp add: buffer_status_def items)
  next
    case (Some i)
    have known: "b \<in> ?B" if "bi_batch i = Some b" for b using that lookup_row_Some_in [OF Some] by force
    have "find_root (ap_ledger (own_state env t S)) (bb_batch_id x) = find_root (ap_ledger S) (bb_batch_id x)"
      if "bi_batch i = Some b" "find_batch (ap_buffer S) b = Some x" for b x
      using that known root lookup_row_Some_key [OF that(2)] by simp
    then show ?thesis using Some known batch by (cases "bi_batch i") (auto simp: buffer_status_def items Let_def split: option.splits)
  qed
qed

lemma own_download:
  "serve_download sha sm (\<lambda>k. if starts_with (tenant_prefix sha t) k then fetch k else None) room b t a =
   serve_download sha sm fetch room b t a"
proof (cases "starts_with (tenant_prefix sha t) (art_key a)")
  case True
  then have "verify sha (\<lambda>k. if starts_with (tenant_prefix sha t) k then fetch k else None) a = verify sha fetch a" by (simp add: verify_def)
  then show ?thesis
    by (cases "reserve_spool room (art_size a) True b") (simp_all add: serve_download_def get_artifact_def open_verified_def)
next
  case False
  then have "take (length (artifact_prefix sha t)) (art_key a) \<noteq> artifact_prefix sha t"
    unfolding starts_with_def tenant_prefix_def artifact_prefix_def .
  then show ?thesis unfolding serve_download_def by (simp only: if_True simp_thms)
qed

text \<open>
  C15. Tenants are isolated for reads. The answer to a read (a run, snapshots of runs, an operation, a
  buffered item, an artifact) is the same when every row of other tenants and every object outside
  the caller's prefix is taken away: it is computed from the caller's own rows and objects alone.
\<close>
theorem reads_own_rows:
  assumes "reachable (ap_ledger S)" and "is_read call"
  shows "snd (handle env h call S) = snd (handle env h call (own_state env (hd_tenant h) S))"
proof (cases "tenant_of env h")
  case (Inl e)
  then show ?thesis by (simp add: handle_def)
next
  case (Inr t)
  then have t: "t = hd_tenant h" by (simp add: tenant_of_def split: if_splits)
  have ok: "ledger_ok (ap_ledger S)" using assms(1) by (rule reachable_ok)
  have rest: "ap_spool (own_state env t S) = ap_spool S"
      "ap_fetch (own_state env t S) = (\<lambda>k. if starts_with (tenant_prefix (en_sha env) t) k then ap_fetch S k else None)"
      "\<exists>B. ap_ledger (own_state env t S) = own_ledger t B (ap_ledger S)"
    by (auto simp: own_state_def Let_def)
  then obtain B where B: "ap_ledger (own_state env t S) = own_ledger t B (ap_ledger S)" by blast
  have "snd (route env t call S) = snd (route env t call (own_state env t S))"
    using assms(2) own_run [OF ok] own_snapshots [OF ok] own_operation [OF ok]
    by (cases call)
      (simp_all add: route_def is_read_def post_snapshots_def post_read_def own_buffered [OF ok, of env t, unfolded B] rest(1,2) own_download B)
  then show ?thesis using Inr by (simp add: handle_def flip: t)
qed

section \<open>Witnesses\<close>

definition demo_api_env :: api_env where
  "demo_api_env = \<lparr>en_token = ''secret'', en_definitions = (\<lambda>_. None), en_control = ''c'', en_sha = demo_hash, en_store_max = 8,
     en_upload_max = 8, en_clock = demo_clock 12, en_room = 100, en_busy = False, en_store = demo_bucket\<rparr>"

definition demo_headers :: http_headers where
  "demo_headers = \<lparr>hd_authorization = ''Bearer secret'', hd_tenant = ''t''\<rparr>"

definition demo_api :: api_state where
  "demo_api = \<lparr>ap_ledger = demo_sent, ap_buffer = \<lparr>bf_items = [], bf_batches = []\<rparr>, ap_fetch = (\<lambda>_. None), ap_spool = demo_budget\<rparr>"

lemma demo_tenant: "tenant_of demo_api_env demo_headers = Inr ''t''"
  by (simp add: tenant_of_def bearer_def demo_api_env_def demo_headers_def)

lemma demo_api_reachable: "reachable (ap_ledger demo_api)"
  using demo_reachable(4) by (simp add: demo_api_def)


theorem reads_own_rows_witness:
  "snd (handle demo_api_env demo_headers (Operation_status ''o'') demo_api) =
     snd (handle demo_api_env demo_headers (Operation_status ''o'') (own_state demo_api_env ''t'' demo_api)) \<and>
   fst (snd (handle demo_api_env demo_headers (Operation_status ''o'') demo_api)) = 200"
proof -
  have "fst (read_answer Operation_view (operation_status demo_sent ''o'' ''t'')) = 200" by code_simp
  then have "fst (snd (handle demo_api_env demo_headers (Operation_status ''o'') demo_api)) = 200"
    by (simp add: handle_def demo_tenant route_def) (simp add: demo_api_def)
  moreover have "is_read (Operation_status ''o'')" by (simp add: is_read_def)
  ultimately show ?thesis using reads_own_rows [OF demo_api_reachable, where h = demo_headers and env = demo_api_env] by (simp add: demo_headers_def)
qed

end
