(* ===== verification/Direct_Routes.thy ===== *)
theory Direct_Routes
  imports Direct_Produce Preparation Uploads
begin

text \<open>
  The routes of direct inference (\<open>direct_routes.py\<close>): from the headers and the body of a request
  to the call of the proxy's \<open>open\<close>, or the answer that takes its place. Durations and instants are
  microseconds. What the libraries read in a header (\<open>fromisoformat\<close>, \<open>float\<close>), JSON decoding and
  the engine's sizing endpoints are arguments.
\<close>

section \<open>Headers\<close>

record direct_headers =
  dh_workload :: "string option"
  dh_logical :: "string option"
  dh_deadline :: "string option"
  dh_mode :: "string option"
  dh_cutoff :: "string option"
  dh_timeout :: "string option"

definition workload_named :: "string \<Rightarrow> workload_class option" where
  "workload_named s =
     (if s = ''qa'' then Some Qa else if s = ''user_task'' then Some UserTask
      else if s = ''background'' then Some Background else if s = ''maintenance'' then Some Maintenance else None)"

definition logical_char :: "char \<Rightarrow> bool" where
  "logical_char ch \<longleftrightarrow>
     (let n = of_char ch :: nat in 48 \<le> n \<and> n \<le> 57 \<or> 65 \<le> n \<and> n \<le> 90 \<or> 97 \<le> n \<and> n \<le> 122) \<or> ch \<in> set ''._:-''"

definition workload_header :: "direct_headers \<Rightarrow> (workload_class \<times> string option) option" where
  "workload_header h =
     (case workload_named (case dh_workload h of None \<Rightarrow> ''background'' | Some s \<Rightarrow> s) of
        None \<Rightarrow> None
      | Some cls \<Rightarrow>
          (case dh_logical h of
             None \<Rightarrow> Some (cls, None)
           | Some l \<Rightarrow> (if 200 < length l \<or> l = [] \<or> \<not> list_all logical_char l then None else Some (cls, Some l))))"

text \<open>\<open>requested_deadline\<close>: nothing, or a positive number of seconds; \<open>None\<close> refuses.\<close>

definition deadline_header :: "direct_headers \<Rightarrow> int option option" where
  "deadline_header h =
     (case dh_deadline h of
        None \<Rightarrow> Some None
      | Some s \<Rightarrow>
          (if 64 < length s \<or> s = [] \<or> \<not> list_all is_digit s \<or> digits_value s \<le> 0 then None else Some (Some (digits_value s))))"

record admission_options =
  ao_mode :: admission_mode
  ao_before :: "int option"
  ao_timeout :: "int option"

text \<open>\<open>utc_instant\<close> reads a timestamp with a zero offset, \<open>finite_float\<close> a finite number of seconds.\<close>

definition admission_header ::
    "(string \<Rightarrow> int option) \<Rightarrow> (string \<Rightarrow> int option) \<Rightarrow> direct_headers \<Rightarrow> workload_class \<Rightarrow> admission_options option" where
  "admission_header utc_instant finite_float h cls =
     (let mode = (case dh_mode h of None \<Rightarrow> ''wait'' | Some s \<Rightarrow> s);
          cutoff = (case dh_cutoff h of None \<Rightarrow> Some None
            | Some s \<Rightarrow> if 64 < length s then None else map_option Some (utc_instant s));
          timeout = (case dh_timeout h of None \<Rightarrow> Some None
            | Some s \<Rightarrow> (case (if length s \<le> 64 then finite_float s else None) of
                None \<Rightarrow> None
              | Some t \<Rightarrow> if 0 < t \<and> t \<le> seconds 86400 then Some (Some t) else None)) in
      if mode \<notin> {''wait'', ''try''} \<or> mode = ''try'' \<and> cls \<noteq> Background then None
      else case (cutoff, timeout) of
          (Some before, Some t) \<Rightarrow> Some \<lparr>ao_mode = (if mode = ''try'' then Try else Wait), ao_before = before, ao_timeout = t\<rparr>
        | _ \<Rightarrow> None)"

section \<open>Bodies\<close>

text \<open>The body of a request: its chunks, or a timeout, telling whether the deadline has passed.\<close>

datatype body_read = Body_late bool | Body_chunks "string list"

fun gather_body :: "string \<Rightarrow> string list \<Rightarrow> string option" where
  "gather_body raw [] = Some raw"
| "gather_body raw (c # cs) = (if 1024 * 1024 < int (length raw + length c) then None else gather_body (raw @ c) cs)"

definition payload_of :: "(string \<Rightarrow> json option) \<Rightarrow> string list \<Rightarrow> nat + (string \<times> json) list" where
  "payload_of loads chunks =
     (case gather_body [] chunks of
        None \<Rightarrow> Inl 413
      | Some raw \<Rightarrow> (case loads raw of Some (JDict d) \<Rightarrow> Inr d | _ \<Rightarrow> Inl 422))"

section \<open>The deadline of a request\<close>

definition ceil_seconds :: "int \<Rightarrow> int" where
  "ceil_seconds t = - ((- t) div 1000000)"

text \<open>The seconds requested (as an integer) and the instant until which the route may run.\<close>

definition route_deadline :: "proxy_config \<Rightarrow> workload_class \<Rightarrow> admission_options \<Rightarrow> int option \<Rightarrow> int \<Rightarrow> int option \<times> int" where
  "route_deadline pc cls o1 requested started =
     (if ao_mode o1 = Try
      then
        (let t = min (min (seconds 30) (pc_timeout pc)) (case ao_timeout o1 of None \<Rightarrow> seconds 30 | Some s \<Rightarrow> s);
             r = min (case requested of None \<Rightarrow> 86400 | Some n \<Rightarrow> n) (ceil_seconds (t + seconds 10)) in
         (Some r, started + seconds (min 10 r)))
      else (requested, started + min_opt (pc_workload_deadline pc cls) (map_option seconds requested)))"

section \<open>Chat completions\<close>

datatype route_end =
    Rejected nat
  | Deferred_route string
  | Expired_route bool          \<comment> \<open>as a stream or not\<close>
  | Denied_route                \<comment> \<open>\<open>AdmissionDenied\<close> of the sizer\<close>
  | Failed_route                \<comment> \<open>an exception without a handler\<close>
  | No_candidates
  | Calls_open direct_call

definition valid_stream_options :: "json \<Rightarrow> bool" where
  "valid_stream_options o1 \<longleftrightarrow> is_dict o1 \<and> jkeys o1 \<subseteq> {''include_usage''} \<and>
     (jhas ''include_usage'' o1 \<longrightarrow> is_bool (jget ''include_usage'' o1))"

text \<open>\<open>payload.get("max_tokens", payload.get("max_completion_tokens"))\<close>, when it is acceptable.\<close>

definition output_limit :: "json \<Rightarrow> int option option" where
  "output_limit p =
     (let l = (if jhas ''max_tokens'' p then jget ''max_tokens'' p else jget ''max_completion_tokens'' p) in
      if l = JNull then Some None
      else case plain_int l of Some n \<Rightarrow> (if 0 < n then Some (Some n) else None) | None \<Rightarrow> None)"

definition route_fields :: "string set" where
  "route_fields = {''model'', ''n'', ''stream'', ''stream_options'', ''max_tokens'', ''max_completion_tokens''}"

definition valid_completion_body :: "string \<Rightarrow> json \<Rightarrow> bool" where
  "valid_completion_body model p \<longleftrightarrow>
     jget ''model'' p = JString model \<and> (jhas ''n'' p \<longrightarrow> jget ''n'' p = JInt 1) \<and>
     (jhas ''stream'' p \<longrightarrow> is_bool (jget ''stream'' p)) \<and>
     (jhas ''stream_options'' p \<longrightarrow> valid_stream_options (jget ''stream_options'' p)) \<and>
     output_limit p \<noteq> None \<and> \<not> (jhas ''max_tokens'' p \<and> jhas ''max_completion_tokens'' p)"

text \<open>
  What the engine says when it is asked for the size of a prompt; \<open>Sizer_late\<close> is the timeout,
  telling whether the deadline has passed, \<open>Sizer_down\<close> an HTTP error.
\<close>

datatype sizer_says = Sizer_answers "json \<Rightarrow> json" "string \<Rightarrow> json" | Sizer_late bool | Sizer_down

record route_env =
  re_loads :: "string \<Rightarrow> json option"
  re_encode :: "json \<Rightarrow> string"
  re_bytes :: "json \<Rightarrow> int"
  re_utc_instant :: "string \<Rightarrow> int option"
  re_finite_float :: "string \<Rightarrow> int option"
  re_started :: int
  re_wall :: int
  re_body :: body_read
  re_sizer :: sizer_says

definition late_route :: "bool \<Rightarrow> bool \<Rightarrow> bool \<Rightarrow> route_end" where
  "late_route trying passed streaming =
     (if trying then Deferred_route ''model_not_ready'' else if passed then Expired_route streaming else Failed_route)"

definition size_and_open ::
    "route_env \<Rightarrow> sizer \<Rightarrow> admission_options \<Rightarrow> direct_call \<Rightarrow> (string \<times> json) list \<Rightarrow> int option \<Rightarrow> route_end" where
  "size_and_open env z o1 d p limit =
     (let prompt = filter (\<lambda>kv. fst kv \<notin> route_fields) p; wanted = (case limit of None \<Rightarrow> 1 | Some n \<Rightarrow> n) in
      if 1000000 < wanted \<or> \<not> valid_prompt z prompt \<or> 1024 * 1024 < re_bytes env (JDict prompt) then Rejected 422
      else case re_sizer env of
          Sizer_late passed \<Rightarrow> late_route (ao_mode o1 = Try) passed (streams Llm (JDict p))
        | Sizer_down \<Rightarrow> (if ao_mode o1 = Try then Deferred_route ''model_not_ready'' else Failed_route)
        | Sizer_answers template tokenize \<Rightarrow>
            (case size_prompt z (re_bytes env) template tokenize prompt wanted of
               Inl Size_invalid \<Rightarrow> Rejected 422
             | Inl Size_too_long \<Rightarrow> Denied_route
             | Inr s \<Rightarrow> Calls_open (d\<lparr>dc_request_bound := (case limit of None \<Rightarrow> sz_context_limit z | Some n \<Rightarrow> si_input_bound s + n)\<rparr>)))"

text \<open>The part both routes share: the headers, the cutoff, the deadline and the body.\<close>

definition with_body ::
    "route_env \<Rightarrow> proxy_config \<Rightarrow> string \<Rightarrow> direct_headers \<Rightarrow>
     (admission_options \<Rightarrow> direct_call \<Rightarrow> (string \<times> json) list \<Rightarrow> route_end) \<Rightarrow> route_end" where
  "with_body env pc tenant h use =
     (case workload_header h of
        None \<Rightarrow> Rejected 400
      | Some (cls, logical) \<Rightarrow>
     (case deadline_header h of
        None \<Rightarrow> Rejected 400
      | Some requested \<Rightarrow>
     (case admission_header (re_utc_instant env) (re_finite_float env) h cls of
        None \<Rightarrow> Rejected 400
      | Some o1 \<Rightarrow>
          (if (case ao_before o1 of None \<Rightarrow> False | Some t \<Rightarrow> t \<le> re_wall env) then Deferred_route ''dispatch_cutoff''
           else
             (let r = fst (route_deadline pc cls o1 requested (re_started env)) in
              case re_body env of
                Body_late passed \<Rightarrow> late_route (ao_mode o1 = Try) passed False
              | Body_chunks chunks \<Rightarrow>
                  (case payload_of (re_loads env) chunks of
                     Inl status \<Rightarrow> Rejected status
                   | Inr p \<Rightarrow>
                       use o1
                         \<lparr>dc_tenant_id = tenant, dc_payload = JDict p, dc_raw = re_encode env (JDict p), dc_request_bound = 1,
                          dc_batch_size = 1, dc_workload_class = cls, dc_logical_request_id = logical,
                          dc_deadline = map_option seconds r, dc_started_at = Some (re_started env), dc_mode = ao_mode o1,
                          dc_dispatch_before = ao_before o1, dc_execution_timeout = ao_timeout o1\<rparr> p))))))"

text \<open>\<open>qualified\<close>: the profile has a proxy of the kind and a preparer.\<close>

definition route_completion :: "route_env \<Rightarrow> proxy_config \<Rightarrow> bool \<Rightarrow> sizer \<Rightarrow> string \<Rightarrow> direct_headers \<Rightarrow> route_end" where
  "route_completion env pc qualified z tenant h =
     (if \<not> qualified then Rejected 503
      else with_body env pc tenant h (\<lambda>o1 d p.
        if \<not> valid_completion_body (pc_model pc) (JDict p) then Rejected 422
        else size_and_open env z o1 d p (the (output_limit (JDict p)))))"

section \<open>Native requests\<close>

text \<open>\<open>bounds\<close>: the bound and the batch of a validated payload, or nothing.\<close>

definition route_native :: "route_env \<Rightarrow> proxy_config \<Rightarrow> bool \<Rightarrow> (json \<Rightarrow> (int \<times> int) option) \<Rightarrow> string \<Rightarrow> direct_headers \<Rightarrow> route_end" where
  "route_native env pc qualified bounds tenant h =
     (if \<not> qualified then Rejected 503
      else with_body env pc tenant h (\<lambda>o1 d p.
        case bounds (JDict p) of
          None \<Rightarrow> Rejected 422
        | Some (bound, batch) \<Rightarrow>
            (if batch = 0 then No_candidates
             else Calls_open (d\<lparr>dc_request_bound := max 1 bound, dc_batch_size := batch\<rparr>))))"

definition embedding_bounds :: "(json \<Rightarrow> embedding_payload option) \<Rightarrow> embedding_profile \<Rightarrow> json \<Rightarrow> (int \<times> int) option" where
  "embedding_bounds decode pf j =
     map_option (\<lambda>p. (embedding_characters p, int (length (ep_texts p)))) (validate_embedding decode pf j)"

definition rerank_bounds :: "(json \<Rightarrow> rerank_payload option) \<Rightarrow> rerank_profile \<Rightarrow> json \<Rightarrow> (int \<times> int) option" where
  "rerank_bounds decode pf j = map_option (rerank_requirement pf) (validate_rerank decode pf j)"

end
