(* ===== verification/Direct_Admission.thy ===== *)
theory Direct_Admission
  imports Direct_Routes Direct_Answers
begin

text \<open>
  The routes of direct inference together with the proxy they call: what reaches \<open>open\<close> is never
  refused by its own checks, and the request it makes satisfies the wire contract.
\<close>

text \<open>What the shared part of the routes hands on.\<close>

definition routed_headers :: "route_env \<Rightarrow> string \<Rightarrow> direct_call \<Rightarrow> bool" where
  "routed_headers env tenant d \<longleftrightarrow>
     dc_tenant_id d = tenant \<and> dc_started_at d = Some (re_started env) \<and> dc_raw d = re_encode env (dc_payload d) \<and>
     (dc_mode d = Try \<longrightarrow> dc_workload_class d = Background \<and> (\<exists>t. dc_deadline d = Some t \<and> t \<le> seconds 40)) \<and>
     opt_all (\<lambda>l. l \<noteq> [] \<and> length l \<le> 200 \<and> list_all logical_char l) (dc_logical_request_id d) \<and>
     opt_all (\<lambda>t. re_wall env < t) (dc_dispatch_before d) \<and>
     opt_all (\<lambda>t. 0 < t \<and> t \<le> seconds 86400) (dc_execution_timeout d) \<and> opt_all (\<lambda>t. 0 < t) (dc_deadline d)"

lemma ceil_seconds_bounds: "0 < t \<Longrightarrow> 0 < ceil_seconds t" "t \<le> seconds n \<Longrightarrow> ceil_seconds t \<le> n"
  by (auto simp: ceil_seconds_def seconds_def)

lemma route_deadline_bounds:
  assumes "0 < pc_timeout pc" and "opt_all (\<lambda>t. 0 < t) (ao_timeout o1)" and "opt_all (\<lambda>n. 0 < n) requested"
  shows "opt_all (\<lambda>n. 0 < n) (fst (route_deadline pc cls o1 requested started)) \<and>
    (ao_mode o1 = Try \<longrightarrow> (\<exists>n. fst (route_deadline pc cls o1 requested started) = Some n \<and> n \<le> 40))"
proof (cases "ao_mode o1")
  case Wait
  then show ?thesis using assms(3) by (simp add: route_deadline_def)
next
  case Try
  define t where "t = min (min (seconds 30) (pc_timeout pc)) (case ao_timeout o1 of None \<Rightarrow> seconds 30 | Some s \<Rightarrow> s)"
  have t: "0 < t + seconds 10" "t + seconds 10 \<le> seconds 40"
    using assms(1,2) by (auto simp: t_def seconds_def opt_all_def split: option.splits)
  have "fst (route_deadline pc cls o1 requested started) =
      Some (min (case requested of None \<Rightarrow> 86400 | Some n \<Rightarrow> n) (ceil_seconds (t + seconds 10)))"
    using Try by (simp add: route_deadline_def t_def Let_def)
  then show ?thesis using ceil_seconds_bounds(1) [OF t(1)] ceil_seconds_bounds(2) [OF t(2)] assms(3)
    by (auto simp: opt_all_def split: option.splits)
qed

lemma with_body_calls:
  assumes "with_body env pc tenant h use = Calls_open d" and "0 < pc_timeout pc"
  obtains o1 d0 p where "use o1 d0 p = Calls_open d" and "routed_headers env tenant d0" and "dc_payload d0 = JDict p"
    and "dc_batch_size d0 = 1" and "dc_mode d0 = ao_mode o1"
proof -
  obtain cls logical requested o1 chunks p where
    w: "workload_header h = Some (cls, logical)" and r: "deadline_header h = Some requested"
    and o1: "admission_header (re_utc_instant env) (re_finite_float env) h cls = Some o1"
    and cut: "\<not> (case ao_before o1 of None \<Rightarrow> False | Some t \<Rightarrow> t \<le> re_wall env)"
    and body: "re_body env = Body_chunks chunks" "payload_of (re_loads env) chunks = Inr p"
    and u: "use o1 \<lparr>dc_tenant_id = tenant, dc_payload = JDict p, dc_raw = re_encode env (JDict p), dc_request_bound = 1,
        dc_batch_size = 1, dc_workload_class = cls, dc_logical_request_id = logical,
        dc_deadline = map_option seconds (fst (route_deadline pc cls o1 requested (re_started env))),
        dc_started_at = Some (re_started env), dc_mode = ao_mode o1,
        dc_dispatch_before = ao_before o1, dc_execution_timeout = ao_timeout o1\<rparr> p = Calls_open d"
    using assms(1) unfolding with_body_def
    by (auto simp: Let_def late_route_def split: option.splits prod.splits if_splits body_read.splits sum.splits)
  have logical: "opt_all (\<lambda>l. l \<noteq> [] \<and> length l \<le> 200 \<and> list_all logical_char l) logical"
    using w by (auto simp: workload_header_def opt_all_def split: option.splits if_splits)
  have requested: "opt_all (\<lambda>n. 0 < n) requested"
    using r by (auto simp: deadline_header_def opt_all_def split: option.splits if_splits)
  have timeout: "opt_all (\<lambda>t. 0 < t \<and> t \<le> seconds 86400) (ao_timeout o1)" and mode: "ao_mode o1 = Try \<longrightarrow> cls = Background"
    using o1 by (auto simp: admission_header_def opt_all_def Let_def split: option.splits if_splits)
  have before: "opt_all (\<lambda>t. re_wall env < t) (ao_before o1)" using cut by (auto simp: opt_all_def split: option.splits)
  have "opt_all (\<lambda>t. 0 < t) (ao_timeout o1)" using timeout by (auto simp: opt_all_def split: option.splits)
  note dl = route_deadline_bounds [OF assms(2) this requested, of cls "re_started env"]
  have "opt_all (\<lambda>t. 0 < t) (map_option seconds (fst (route_deadline pc cls o1 requested (re_started env))))"
    using dl by (auto simp: opt_all_def seconds_def split: option.splits)
  moreover have "ao_mode o1 = Try \<longrightarrow>
      (\<exists>t. map_option seconds (fst (route_deadline pc cls o1 requested (re_started env))) = Some t \<and> t \<le> seconds 40)"
    using dl by (auto simp: seconds_def)
  ultimately show ?thesis
    using that [OF u] logical timeout mode before by (simp add: routed_headers_def)
qed

lemma routed_headers_bound: "routed_headers env t (d\<lparr>dc_request_bound := b, dc_batch_size := n\<rparr>) = routed_headers env t d"
  "routed_headers env t (d\<lparr>dc_request_bound := b\<rparr>) = routed_headers env t d"
  by (simp_all add: routed_headers_def)

lemma output_limit_pos: "output_limit j = Some l \<Longrightarrow> opt_all (\<lambda>n. 0 < n) l"
  by (auto simp: output_limit_def Let_def opt_all_def split: if_splits option.splits)

lemma completion_calls:
  assumes z: "valid_sizer z" and call: "route_completion env pc True z tenant h = Calls_open d" and pc: "0 < pc_timeout pc"
  shows "routed_headers env tenant d \<and> payload_checked Llm (pc_model pc) (dc_payload d) \<and>
    0 < dc_request_bound d \<and> dc_request_bound d \<le> sz_context_limit z \<and> dc_batch_size d = 1"
proof -
  have "with_body env pc tenant h (\<lambda>o1 d p. if \<not> valid_completion_body (pc_model pc) (JDict p) then Rejected 422
        else size_and_open env z o1 d p (the (output_limit (JDict p)))) = Calls_open d"
    using call by (simp add: route_completion_def)
  then obtain o1 d0 p where use: "(if \<not> valid_completion_body (pc_model pc) (JDict p) then Rejected 422
        else size_and_open env z o1 d0 p (the (output_limit (JDict p)))) = Calls_open d"
    and rest: "routed_headers env tenant d0" "dc_payload d0 = JDict p" "dc_batch_size d0 = 1"
    by (rule with_body_calls [OF _ pc])
  from use have ok: "valid_completion_body (pc_model pc) (JDict p)"
    and sized: "size_and_open env z o1 d0 p (the (output_limit (JDict p))) = Calls_open d" by (auto split: if_splits)
  have "output_limit (JDict p) \<noteq> None" using ok unfolding valid_completion_body_def by blast
  then obtain limit where limit: "output_limit (JDict p) = Some limit" "opt_all (\<lambda>n. 0 < n) limit"
    using output_limit_pos by blast
  define wanted where "wanted = (case limit of None \<Rightarrow> 1 | Some n \<Rightarrow> n)"
  have wanted: "0 < wanted" using limit(2) by (auto simp: wanted_def opt_all_def split: option.splits)
  obtain s template tokenize where s: "size_prompt z (re_bytes env) template tokenize (filter (\<lambda>kv. fst kv \<notin> route_fields) p) wanted = Inr s"
    and d: "d = d0\<lparr>dc_request_bound := (case limit of None \<Rightarrow> sz_context_limit z | Some n \<Rightarrow> si_input_bound s + n)\<rparr>"
    using sized limit(1)
    by (auto simp: size_and_open_def Let_def wanted_def late_route_def split: if_splits sizer_says.splits sum.splits size_error.splits)
  have fits: "si_input_bound s + wanted \<le> sz_context_limit z" "0 \<le> si_input_bound s"
    using sized_prompt_fits [OF z s wanted] by auto
  have "0 < sz_context_limit z" using z by (simp add: valid_sizer_def)
  then have "0 < dc_request_bound d" "dc_request_bound d \<le> sz_context_limit z"
    using fits wanted limit(2) by (auto simp: d wanted_def opt_all_def split: option.splits)
  moreover have "payload_checked Llm (pc_model pc) (dc_payload d)"
    using ok rest(2) by (auto simp: d payload_checked_def valid_completion_body_def elim: is_bool.elims)
  ultimately show ?thesis using rest by (simp add: d routed_headers_bound)
qed

lemma native_calls:
  assumes call: "route_native env pc True bounds tenant h = Calls_open d" and pc: "0 < pc_timeout pc"
  shows "routed_headers env tenant d \<and> 0 < dc_request_bound d \<and>
    (\<exists>bound. bounds (dc_payload d) = Some (bound, dc_batch_size d) \<and> dc_request_bound d = max 1 bound) \<and> dc_batch_size d \<noteq> 0"
proof -
  have "with_body env pc tenant h (\<lambda>o1 d p. case bounds (JDict p) of None \<Rightarrow> Rejected 422
        | Some (bound, batch) \<Rightarrow> (if batch = 0 then No_candidates
             else Calls_open (d\<lparr>dc_request_bound := max 1 bound, dc_batch_size := batch\<rparr>))) = Calls_open d"
    using call by (simp add: route_native_def)
  then obtain o1 d0 p where use: "(case bounds (JDict p) of None \<Rightarrow> Rejected 422
        | Some (bound, batch) \<Rightarrow> (if batch = 0 then No_candidates
             else Calls_open (d0\<lparr>dc_request_bound := max 1 bound, dc_batch_size := batch\<rparr>))) = Calls_open d"
    and rest: "routed_headers env tenant d0" "dc_payload d0 = JDict p"
    by (rule with_body_calls [OF _ pc])
  from use obtain bound batch where b: "bounds (JDict p) = Some (bound, batch)" "batch \<noteq> 0"
    "d = d0\<lparr>dc_request_bound := max 1 bound, dc_batch_size := batch\<rparr>"
    by (auto split: option.splits if_splits)
  then show ?thesis using rest by (simp add: routed_headers_bound)
qed

text \<open>What \<open>open\<close> makes of a call whose headers were checked.\<close>

lemma open_accepts:
  assumes "routed_headers env tenant d" and "payload_checked (pool_kind (px_pool P)) (pc_model pc) (dc_payload d)"
    and "length (dc_raw d) \<le> mebibyte" and pc: "0 < pc_timeout pc" "pc_timeout pc \<le> seconds 86400"
    and "open_direct pc digest rid now later wall_now d (P, S) = (Q, r)"
  shows "case r of Refuses e \<Rightarrow> False | Requests q \<Rightarrow>
      dq_tenant_id q = tenant \<and> dq_request_bound q = dc_request_bound d \<and> dq_batch_size q = dc_batch_size d \<and>
      opt_all (\<lambda>s. length s \<le> 200) (dq_logical_request_id q) \<and> opt_all (\<lambda>t. re_wall env < t) (dq_dispatch_before q) \<and>
      opt_all (\<lambda>t. 0 < t \<and> t \<le> seconds 86400) (dq_execution_timeout q) \<and>
      (dq_admission_mode q = Try \<longrightarrow> dq_workload_class q = Background \<and> opt_all (\<lambda>t. t \<le> seconds 30) (dq_execution_timeout q)) \<and>
      wall_now < dq_deadline q
    | _ \<Rightarrow> True"
proof -
  have h: "dc_tenant_id d = tenant" "opt_all (\<lambda>t. 0 < t \<and> t \<le> seconds 86400) (dc_execution_timeout d)" "opt_all (\<lambda>t. 0 < t) (dc_deadline d)"
      "opt_all (\<lambda>l. l \<noteq> [] \<and> length l \<le> 200 \<and> list_all logical_char l) (dc_logical_request_id d)"
      "opt_all (\<lambda>t. re_wall env < t) (dc_dispatch_before d)" "dc_mode d = Try \<longrightarrow> dc_workload_class d = Background"
    using assms(1) by (auto simp: routed_headers_def)
  have t: "\<not> (case dc_execution_timeout d of None \<Rightarrow> False | Some t \<Rightarrow> t \<le> 0)" "\<not> (case dc_deadline d of None \<Rightarrow> False | Some t \<Rightarrow> t \<le> 0)"
    using h(2,3) by (auto simp: opt_all_def split: option.splits)
  have e: "0 < execution_timeout_of pc d" "execution_timeout_of pc d \<le> seconds 86400" "dc_mode d = Try \<longrightarrow> execution_timeout_of pc d \<le> seconds 30"
    using pc h(2) by (auto simp: execution_timeout_of_def min_opt_def opt_all_def seconds_def split: option.splits)
  consider (late) "r = late_response (dc_mode d) (streams (pool_kind (px_pool P)) (dc_payload d))"
    | (asks) "later < until_of pc now d"
        "r = Requests (direct_request_of pc (px_pool (sync_pool_epoch S P)) digest rid (wall_now + (until_of pc now d - later)) d)"
    using assms(2,3,6) t by (auto simp: open_direct_def Let_def split: if_splits)
  then show ?thesis
  proof cases
    case late
    then show ?thesis by (simp add: late_response_def deadline_response_def)
  next
    case asks
    have "opt_all (\<lambda>s. length s \<le> 200) (dc_logical_request_id d)" using h(4) by (auto simp: opt_all_def split: option.splits)
    then show ?thesis using asks h e by (simp add: direct_request_of_def) (simp add: opt_all_def)
  qed
qed


section \<open>An instance\<close>

definition demo_body :: "(string \<times> json) list" where
  "demo_body = [(''model'', JString ''v''), (''max_tokens'', JInt 10)] @ demo_prompt"

definition demo_route_env :: route_env where
  "demo_route_env = \<lparr>re_loads = (\<lambda>_. Some (JDict demo_body)), re_encode = (\<lambda>_. ''{}''), re_bytes = (\<lambda>_. 10),
     re_utc_instant = (\<lambda>_. Some 30), re_finite_float = (\<lambda>_. None), re_started = 10, re_wall = 20, re_body = Body_chunks [''{}''],
     re_sizer = Sizer_answers (\<lambda>_. JString ''hi'') (\<lambda>_. JList [JInt 1, JInt 7])\<rparr>"

definition demo_direct_headers :: direct_headers where
  "demo_direct_headers = \<lparr>dh_workload = None, dh_logical = Some ''l.1'', dh_deadline = Some ''20'', dh_mode = Some ''try'',
     dh_cutoff = Some ''2030'', dh_timeout = None\<rparr>"

definition demo_routed :: direct_call where
  "demo_routed = \<lparr>dc_tenant_id = ''t'', dc_payload = JDict demo_body, dc_raw = ''{}'', dc_request_bound = 14, dc_batch_size = 1,
     dc_workload_class = Background, dc_logical_request_id = Some ''l.1'', dc_deadline = Some (seconds 20), dc_started_at = Some 10,
     dc_mode = Try, dc_dispatch_before = Some 30, dc_execution_timeout = None\<rparr>"


end
