(* ===== verification/Stream_Client.thy ===== *)
theory Stream_Client
  imports Direct_Attempt Preparation
begin

text \<open>
  The caller's side of a managed stream: \<open>stream_events\<close> (\<open>direct_client.py\<close>) reads server-sent
  events line by line. The lines are those the HTTP library yields, JSON decoding (\<open>loads\<close>) and
  \<open>int\<close> of a text (\<open>int_text\<close>) are arguments. What the proxy sends is \<open>frame\<close>, with its text.
\<close>

section \<open>Reading\<close>

datatype stream_event =
    Token_event json int
  | Control_event string int json    \<comment> \<open>kind, generation, reason\<close>

datatype stream_end =
    Stream_done
  | Managed_error json json json     \<comment> \<open>\<open>DirectStreamError\<close>: message, reason, type\<close>
  | Bad_stream                       \<comment> \<open>an exception of the reader\<close>
  | Ended_early                      \<comment> \<open>\<open>RuntimeError\<close>: no \<open>[DONE]\<close>\<close>

record sse_reader =
  sr_event :: string
  sr_data :: "string list"
  sr_generation :: int

definition new_reader :: sse_reader where
  "new_reader = \<lparr>sr_event = ''message'', sr_data = [], sr_generation = 0\<rparr>"

fun py_int :: "(string \<Rightarrow> int option) \<Rightarrow> json \<Rightarrow> int option" where
  "py_int int_text (JInt n) = Some n"
| "py_int int_text (JBool b) = Some (if b then 1 else 0)"
| "py_int int_text (JFloat s) = int_text s"
| "py_int int_text (JString s) = int_text s"
| "py_int int_text j = None"

definition done_text :: string where
  "done_text = ''[DONE]''"

text \<open>The tokens of the choices in turn; the flag says whether all of them could be read.\<close>

fun choice_events :: "(string \<Rightarrow> int option) \<Rightarrow> int \<Rightarrow> json \<Rightarrow> json list \<Rightarrow> stream_event list \<times> bool" where
  "choice_events int_text g body [] = ([], True)"
| "choice_events int_text g body (c # cs) =
     (let delta = jget_or ''delta'' (JDict []) c; token = jget ''content'' delta in
      if \<not> is_dict c \<or> \<not> is_dict delta then ([], False)
      else if falsy token then choice_events int_text g body cs
      else case py_int int_text (jget_or ''intramind_generation'' (JInt g) body) of
          None \<Rightarrow> ([], False)
        | Some n \<Rightarrow> apfst ((#) (Token_event token n)) (choice_events int_text g body cs))"

definition token_events :: "(string \<Rightarrow> int option) \<Rightarrow> int \<Rightarrow> json \<Rightarrow> stream_event list \<times> bool" where
  "token_events int_text g body =
     (if \<not> is_dict body then ([], False)
      else case jget_or ''choices'' (JList []) body of
          JList cs \<Rightarrow> choice_events int_text g body cs
        | JString s \<Rightarrow> ([], s = [])
        | JDict d \<Rightarrow> ([], d = [])
        | _ \<Rightarrow> ([], False))"

text \<open>A whole event: what it yields, and the end of the stream or the generation from then on.\<close>

definition read_event ::
    "(string \<Rightarrow> json option) \<Rightarrow> (string \<Rightarrow> int option) \<Rightarrow> string \<Rightarrow> string \<Rightarrow> int \<Rightarrow> stream_event list \<times> (stream_end + int)" where
  "read_event loads int_text name raw g =
     (if raw = done_text then ([], Inl Stream_done)
      else case loads raw of
          None \<Rightarrow> ([], Inl Bad_stream)
        | Some body \<Rightarrow>
            (if name = ''intramind.error''
             then (if is_dict body
                   then ([], Inl (Managed_error (if falsy (jget ''message'' body) then JString ''managed inference failed'' else jget ''message'' body)
                     (jget ''reason'' body) (jget ''type'' body)))
                   else ([], Inl Bad_stream))
             else if name = ''intramind.control''
             then (case (is_dict body, jget ''type'' body) of
                 (True, JString kind) \<Rightarrow>
                   (if kind = ''started'' then ([], Inr g)
                    else if kind \<notin> {''waiting'', ''resumed'', ''recovering'', ''generation_reset''} then ([], Inl Bad_stream)
                    else if kind = ''generation_reset''
                    then (case py_int int_text (jget_or ''generation'' (JInt (g + 1)) body) of
                        None \<Rightarrow> ([], Inl Bad_stream)
                      | Some n \<Rightarrow> ([Control_event kind n (jget ''reason'' body)], Inr n))
                    else (case py_int int_text (jget_or ''generation'' (JInt g) body) of
                        None \<Rightarrow> ([], Inl Bad_stream)
                      | Some n \<Rightarrow> ([Control_event kind n (jget ''reason'' body)], Inr g)))
               | _ \<Rightarrow> ([], Inl Bad_stream))
             else (case token_events int_text g body of (evs, ok) \<Rightarrow> (evs, if ok then Inr g else Inl Bad_stream))))"

definition strip_ws :: "string \<Rightarrow> string" where
  "strip_ws s = rev (dropWhile py_space (rev (dropWhile py_space s)))"

fun join_lines :: "string list \<Rightarrow> string" where
  "join_lines [] = []"
| "join_lines [l] = l"
| "join_lines (l # ls) = l @ [newline] @ join_lines ls"

definition read_line ::
    "(string \<Rightarrow> json option) \<Rightarrow> (string \<Rightarrow> int option) \<Rightarrow> string \<Rightarrow> sse_reader \<Rightarrow> stream_event list \<times> (stream_end + sse_reader)" where
  "read_line loads int_text line r =
     (if line = []
      then (if sr_data r = [] then ([], Inr (r\<lparr>sr_event := ''message''\<rparr>))
            else case read_event loads int_text (sr_event r) (join_lines (sr_data r)) (sr_generation r) of
                (evs, Inl e) \<Rightarrow> (evs, Inl e)
              | (evs, Inr g) \<Rightarrow> (evs, Inr \<lparr>sr_event = ''message'', sr_data = [], sr_generation = g\<rparr>))
      else if take 6 line = ''event:'' then ([], Inr (r\<lparr>sr_event := strip_ws (drop 6 line)\<rparr>))
      else if take 5 line = ''data:'' then ([], Inr (r\<lparr>sr_data := sr_data r @ [dropWhile py_space (drop 5 line)]\<rparr>))
      else ([], Inr r))"

fun read_lines ::
    "(string \<Rightarrow> json option) \<Rightarrow> (string \<Rightarrow> int option) \<Rightarrow> string list \<Rightarrow> sse_reader \<Rightarrow> stream_event list \<times> stream_end" where
  "read_lines loads int_text [] r = ([], Ended_early)"
| "read_lines loads int_text (l # ls) r =
     (case read_line loads int_text l r of
        (evs, Inl e) \<Rightarrow> (evs, e)
      | (evs, Inr r1) \<Rightarrow> apfst ((@) evs) (read_lines loads int_text ls r1))"

section \<open>What a proxy says\<close>

text \<open>
  The frames of a managed stream: the proxy's own controls, errors and heartbeats, and the events of
  the engine it relays, a chunk of tokens or the end.
\<close>

datatype said =
    Says_control string int "string option"
  | Says_error string string "string option"
  | Says_heartbeat
  | Says_tokens json
  | Says_done

fun said_frame :: "(json \<Rightarrow> string) \<Rightarrow> said \<Rightarrow> frame" where
  "said_frame encode (Says_control kind g reason) = control kind g reason"
| "said_frame encode (Says_error message ty reason) = error_frame message ty reason"
| "said_frame encode Says_heartbeat = HeartbeatFrame"
| "said_frame encode (Says_tokens body) = DataFrame (''data: '' @ encode body @ [newline, newline])"
| "said_frame encode Says_done = DataFrame (''data: '' @ done_text @ [newline, newline])"

definition frame_body :: "frame \<Rightarrow> json option" where
  "frame_body f = (case f of ControlFrame j \<Rightarrow> Some j | ErrorFrame j \<Rightarrow> Some j | _ \<Rightarrow> None)"

definition said_body :: "said \<Rightarrow> json option" where
  "said_body s = (case s of Says_tokens j \<Rightarrow> Some j | _ \<Rightarrow> frame_body (said_frame (\<lambda>_. []) s))"

definition data_text :: "string \<Rightarrow> string" where
  "data_text raw = ''data: '' @ raw"

fun said_lines :: "(json \<Rightarrow> string) \<Rightarrow> said \<Rightarrow> string list" where
  "said_lines encode (Says_control kind g reason) =
     [''event: intramind.control'', data_text (encode (the (said_body (Says_control kind g reason)))), []]"
| "said_lines encode (Says_error message ty reason) =
     [''event: intramind.error'', data_text (encode (the (said_body (Says_error message ty reason)))), []]"
| "said_lines encode Says_heartbeat = ['': heartbeat'', []]"
| "said_lines encode (Says_tokens body) = [data_text (encode body), []]"
| "said_lines encode Says_done = [data_text done_text, []]"

text \<open>What a caller is to learn of them.\<close>

fun heard :: "(string \<Rightarrow> int option) \<Rightarrow> int \<Rightarrow> said list \<Rightarrow> stream_event list \<times> stream_end" where
  "heard int_text g [] = ([], Ended_early)"
| "heard int_text g (Says_heartbeat # fs) = heard int_text g fs"
| "heard int_text g (Says_done # fs) = ([], Stream_done)"
| "heard int_text g (Says_error message ty reason # fs) =
     ([], Managed_error (if message = [] then JString ''managed inference failed'' else JString message) (text_or_null reason) (JString ty))"
| "heard int_text g (Says_control kind n reason # fs) =
     (if kind = ''started'' then heard int_text g fs
      else if kind \<notin> {''waiting'', ''resumed'', ''recovering'', ''generation_reset''} then ([], Bad_stream)
      else apfst ((#) (Control_event kind n (if reason = Some [] then JNull else text_or_null reason)))
        (heard int_text (if kind = ''generation_reset'' then n else g) fs))"
| "heard int_text g (Says_tokens body # fs) =
     (case token_events int_text g body of
        (evs, True) \<Rightarrow> apfst ((@) evs) (heard int_text g fs)
      | (evs, False) \<Rightarrow> (evs, Bad_stream))"

section \<open>The round trip\<close>

text \<open>What is relied on of the JSON library for one document.\<close>

definition carried :: "(json \<Rightarrow> string) \<Rightarrow> (string \<Rightarrow> json option) \<Rightarrow> json \<Rightarrow> bool" where
  "carried encode loads j \<longleftrightarrow> loads (encode j) = Some j \<and> encode j \<noteq> done_text \<and> encode j \<noteq> [] \<and>
     newline \<notin> set (encode j) \<and> \<not> py_space (hd (encode j))"

lemma said_text: "frame_text encode (said_frame encode s) = concat (map (\<lambda>l. l @ [newline]) (said_lines encode s))"
  by (cases s) (simp_all add: control_def error_frame_def said_body_def frame_body_def data_text_def)

definition reader_at :: "string \<Rightarrow> int \<Rightarrow> sse_reader" where
  "reader_at name g = \<lparr>sr_event = name, sr_data = [], sr_generation = g\<rparr>"

lemma no_space: "\<not> py_space (CHR ''['')" "\<not> py_space (CHR ''i'')" "\<not> py_space (CHR ''l'')" "\<not> py_space (CHR ''r'')" "py_space (CHR '' '')"
  by (simp_all add: py_space_def)

lemma apfst_Nil [simp]: "apfst ((@) []) x = x"
  by (cases x) simp

text \<open>One event: its optional name, its data line and the empty line.\<close>

lemma read_data:
  assumes "raw \<noteq> []" and "\<not> py_space (hd raw)"
  shows "read_lines loads int_text (data_text raw # [] # ls) (reader_at name g) =
    (case read_event loads int_text name raw g of
       (evs, Inl e) \<Rightarrow> (evs, e)
     | (evs, Inr g') \<Rightarrow> apfst ((@) evs) (read_lines loads int_text ls (reader_at ''message'' g')))"
proof -
  obtain ch s where s: "raw = ch # s" "\<not> py_space ch" using assms by (cases raw) auto
  have "read_line loads int_text (data_text raw) (reader_at name g) = ([], Inr \<lparr>sr_event = name, sr_data = [raw], sr_generation = g\<rparr>)"
    using s no_space(5) by (simp add: read_line_def reader_at_def data_text_def)
  then show ?thesis by (simp add: read_line_def reader_at_def split: prod.splits sum.splits)
qed

lemma read_names:
  "read_lines loads int_text (''event: intramind.control'' # ls) (reader_at name g) = read_lines loads int_text ls (reader_at ''intramind.control'' g)"
  "read_lines loads int_text (''event: intramind.error'' # ls) (reader_at name g) = read_lines loads int_text ls (reader_at ''intramind.error'' g)"
  by (simp_all add: read_line_def reader_at_def strip_ws_def no_space)

lemma read_heartbeat:
  "read_lines loads int_text ('': heartbeat'' # [] # ls) (reader_at name g) = read_lines loads int_text ls (reader_at ''message'' g)"
  by (simp add: read_line_def reader_at_def)

declare read_lines.simps(2) [simp del]

lemma carried_text: "carried encode loads j \<Longrightarrow> encode j \<noteq> [] \<and> \<not> py_space (hd (encode j)) \<and> encode j \<noteq> done_text \<and> loads (encode j) = Some j"
  by (simp add: carried_def)

lemma jget_control: "is_dict (JDict d)" "jget k (JDict d) = (case jlookup k d of None \<Rightarrow> JNull | Some v \<Rightarrow> v)"
  by simp_all

lemma control_fields:
  assumes "said_body (Says_control kind n reason) = Some j"
  shows "is_dict j" "jget ''type'' j = JString kind" "jget_or ''generation'' other j = JInt n"
    "jget ''reason'' j = (if reason = Some [] then JNull else text_or_null reason)"
  using assms by (auto simp: said_body_def frame_body_def control_def jget_or_def jlookup_def text_or_null_def split: option.splits if_splits)

lemma error_fields:
  assumes "said_body (Says_error message ty reason) = Some j"
  shows "is_dict j" "jget ''type'' j = JString ty" "jget ''message'' j = JString message" "jget ''reason'' j = text_or_null reason"
  using assms by (auto simp: said_body_def frame_body_def error_frame_def error_data_def jlookup_def text_or_null_def split: option.splits)

lemma read_said:
  assumes "list_all (\<lambda>s. opt_all (carried encode loads) (said_body s)) fs"
  shows "read_lines loads int_text (concat (map (said_lines encode) fs)) (reader_at ''message'' g) = heard int_text g fs"
  using assms
proof (induction fs arbitrary: g)
  case (Cons s fs)
  then have IH: "read_lines loads int_text (concat (map (said_lines encode) fs)) (reader_at ''message'' g') = heard int_text g' fs" for g' by simp
  show ?case
  proof (cases s)
    case (Says_control kind n reason)
    obtain j where j: "said_body s = Some j" by (simp add: Says_control said_body_def frame_body_def control_def)
    then have c: "carried encode loads j" using Cons.prems by (simp add: opt_all_def)
    show ?thesis
      using Says_control j carried_text [OF c] control_fields [of kind n reason j]
      by (simp add: read_names read_data read_event_def IH)
  next
    case (Says_error message ty reason)
    obtain j where j: "said_body s = Some j" by (simp add: Says_error said_body_def frame_body_def error_frame_def)
    then have c: "carried encode loads j" using Cons.prems by (simp add: opt_all_def)
    show ?thesis
      using Says_error j carried_text [OF c] error_fields [of message ty reason j]
      by (simp add: read_names read_data read_event_def)
  next
    case Says_heartbeat
    then show ?thesis using IH by (simp add: read_heartbeat)
  next
    case (Says_tokens body)
    then have c: "carried encode loads body" using Cons.prems by (simp add: opt_all_def said_body_def)
    show ?thesis
      using Says_tokens carried_text [OF c] by (simp add: read_data read_event_def IH split: prod.splits)
  next
    case Says_done
    then show ?thesis by (simp add: read_data done_text_def no_space read_event_def)
  qed
qed (simp)


definition demo_encode :: "json \<Rightarrow> string" where
  "demo_encode j = (if is_list (jget ''choices'' j) then ''{1}'' else ''{2}'')"

definition demo_choice :: json where
  "demo_choice = JDict [(''choices'', JList [JDict [(''delta'', JDict [(''content'', JString ''hi'')])]])]"

definition demo_reset :: said where
  "demo_reset = Says_control ''generation_reset'' 2 None"

definition demo_decode :: "string \<Rightarrow> json option" where
  "demo_decode s = (if s = ''{1}'' then Some demo_choice else if s = ''{2}'' then said_body demo_reset else None)"


end
