(* ===== verification/Admission.thy ===== *)
theory Admission
  imports Stream_Client
begin

text \<open>
  The caller's admission scope (\<open>admission.py\<close>): the evidence it gathers from the runtime's frames,
  the byte stream that keeps the internal frames from the completion library, and the policy headers.
  The transport delivers the text of a response in any chunks; JSON decoding is an argument.
\<close>

section \<open>The scope\<close>

datatype scope_error =
    Scope_deferred json                            \<comment> \<open>\<open>AdmissionDeferred\<close>, with its reason\<close>
  | Scope_outcome json "(string \<times> json) list"      \<comment> \<open>\<open>InferenceOutcomeError\<close>: message, evidence\<close>

record admission_scope =
  as_evidence :: "(string \<times> json) list"
  as_error :: "scope_error option"
  as_reports :: "(string \<times> json) list list"       \<comment> \<open>what \<open>on_event\<close> was given\<close>

definition new_scope :: admission_scope where
  "new_scope = \<lparr>as_evidence = [], as_error = None, as_reports = []\<rparr>"

definition evidence_keys :: "string list" where
  "evidence_keys = [''attempt_id'', ''logical_request_id'', ''generation'', ''compute_state'']"

text \<open>
  \<open>observe\<close>: the evidence takes the four keys the frame has, then the error the frame means, the
  report, and the raise of an error, also of one set before. \<open>None\<close>: the frame is no object.
\<close>

definition observed_error :: "json \<Rightarrow> admission_scope \<Rightarrow> scope_error option" where
  "observed_error f sc =
     (if jget ''type'' f = JString ''admission_deferred'' \<and> jget ''compute_state'' f = JString ''not_sent''
      then Some (Scope_deferred (jget_or ''reason'' (JString ''inference_capacity'') f))
      else if jget ''type'' f \<noteq> JString ''started''
      then Some (Scope_outcome (jget_or ''message'' (JString ''inference failed'') f) (as_evidence sc))
      else as_error sc)"

definition observe :: "json \<Rightarrow> admission_scope \<Rightarrow> admission_scope" where
  "observe f sc =
     (let sc1 = sc\<lparr>as_evidence := as_evidence sc @ map (\<lambda>k. (k, jget k f)) (filter (\<lambda>k. jhas k f) evidence_keys)\<rparr>;
          sc2 = sc1\<lparr>as_error := observed_error f sc1\<rparr> in
      if jget ''compute_state'' (JDict (as_evidence sc2)) \<in> {JString ''sent'', JString ''unknown'', JString ''terminated''}
      then sc2\<lparr>as_reports := as_reports sc2 @ [as_evidence sc2]\<rparr> else sc2)"

section \<open>The evidence stream\<close>

text \<open>\<open>bytes.splitlines\<close>\<close>

fun byte_lines :: "string \<Rightarrow> string list" where
  "byte_lines [] = []"
| "byte_lines [ch] = (if ch = newline \<or> ch = CHR 0x0D then [[]] else [[ch]])"
| "byte_lines (ch # c2 # s) =
     (if ch = newline then [] # byte_lines (c2 # s)
      else if ch = CHR 0x0D then [] # byte_lines (if c2 = newline then s else c2 # s)
      else (case byte_lines (c2 # s) of [] \<Rightarrow> [[ch]] | l # ls \<Rightarrow> (ch # l) # ls))"

definition byte_space :: "char \<Rightarrow> bool" where
  "byte_space ch \<longleftrightarrow> (let n = of_char ch :: nat in n = 32 \<or> 9 \<le> n \<and> n \<le> 13)"

definition byte_strip :: "string \<Rightarrow> string" where
  "byte_strip s = rev (dropWhile byte_space (rev (dropWhile byte_space s)))"

definition event_of :: "string list \<Rightarrow> string" where
  "event_of ls = (case filter (\<lambda>l. take 6 l = ''event:'') ls of [] \<Rightarrow> [] | l # _ \<Rightarrow> byte_strip (drop 6 l))"

definition data_of :: "string list \<Rightarrow> string" where
  "data_of ls = join_lines (map (\<lambda>l. dropWhile byte_space (drop 5 l)) (filter (\<lambda>l. take 5 l = ''data:'') ls))"

definition says_done :: "string list \<Rightarrow> bool" where
  "says_done ls \<longleftrightarrow> list_ex (\<lambda>l. take 5 l = ''data:'' \<and> byte_strip (drop 5 l) = done_text) ls"

datatype evidence_end = Evidence_ends | Evidence_raises | Frame_too_long

text \<open>One frame: whether it is passed on, the scope, and whether the iteration raises.\<close>

definition evidence_frame :: "(string \<Rightarrow> json option) \<Rightarrow> string \<Rightarrow> admission_scope \<Rightarrow> bool \<times> admission_scope \<times> bool" where
  "evidence_frame loads raw sc =
     (let ls = byte_lines raw in
      if event_of ls \<in> {''intramind.control'', ''intramind.error''}
      then (case loads (data_of ls) of
          Some (JDict d) \<Rightarrow>
            (if event_of ls = ''intramind.error'' \<or> jget ''type'' (JDict d) = JString ''started''
             then (let sc1 = observe (JDict d) sc in (False, sc1, as_error sc1 \<noteq> None))
             else (False, sc, False))
        | _ \<Rightarrow> (False, sc, True))
      else if says_done ls \<and> \<not> falsy (jget ''attempt_id'' (JDict (as_evidence sc)))
      then (True, sc\<lparr>as_evidence := as_evidence sc @ [(''compute_state'', JString ''terminated'')]\<rparr>, False)
      else (True, sc, False))"

fun evidence_frames :: "(string \<Rightarrow> json option) \<Rightarrow> string list \<Rightarrow> admission_scope \<Rightarrow> string \<times> admission_scope \<times> bool" where
  "evidence_frames loads [] sc = ([], sc, False)"
| "evidence_frames loads (raw # fs) sc =
     (case evidence_frame loads raw sc of
        (_, sc1, True) \<Rightarrow> ([], sc1, True)
      | (pass, sc1, False) \<Rightarrow>
          apfst ((@) (if pass then raw @ [newline, newline] else [])) (evidence_frames loads fs sc1))"

text \<open>The frames of a text, each ended by an empty line, and what follows the last.\<close>

fun split_frames :: "string \<Rightarrow> string list \<times> string" where
  "split_frames [] = ([], [])"
| "split_frames [ch] = ([], [ch])"
| "split_frames (ch # c2 # s) =
     (if ch = newline \<and> c2 = newline then apfst ((#) []) (split_frames s)
      else (case split_frames (c2 # s) of
          ([], r) \<Rightarrow> ([], ch # r)
        | (f # fs, r) \<Rightarrow> ((ch # f) # fs, r)))"

definition frame_bound :: nat where
  "frame_bound = 1024 * 1024"

fun evidence_chunks ::
    "(string \<Rightarrow> json option) \<Rightarrow> string \<Rightarrow> string list \<Rightarrow> admission_scope \<Rightarrow> string \<times> admission_scope \<times> evidence_end" where
  "evidence_chunks loads pending [] sc = (pending, sc, Evidence_ends)"
| "evidence_chunks loads pending (c # cs) sc =
     (case split_frames (pending @ c) of
        (fs, rest) \<Rightarrow>
          (case evidence_frames loads fs sc of
             (out, sc1, True) \<Rightarrow> (out, sc1, Evidence_raises)
           | (out, sc1, False) \<Rightarrow>
               (if frame_bound < length rest then (out, sc1, Frame_too_long)
                else apfst ((@) out) (evidence_chunks loads rest cs sc1))))"

section \<open>Policy\<close>

text \<open>\<open>admission_scope\<close>'s checks and \<open>apply_headers\<close>, with the text of an instant and of a duration.\<close>

definition valid_scope :: "string \<Rightarrow> py_datetime option \<Rightarrow> int option \<Rightarrow> bool" where
  "valid_scope mode before timeout \<longleftrightarrow> mode \<in> {''wait'', ''try''} \<and> (case before of Some (Naive _) \<Rightarrow> False | _ \<Rightarrow> True) \<and>
     (case timeout of None \<Rightarrow> True | Some t \<Rightarrow> 0 < t \<and> t \<le> seconds 86400)"

definition scope_headers :: "(int \<Rightarrow> string) \<Rightarrow> (int \<Rightarrow> string) \<Rightarrow> string \<Rightarrow> int option \<Rightarrow> int option \<Rightarrow> (string \<times> string) list" where
  "scope_headers instant_text seconds_text mode before timeout =
     [(''X-Intramind-Admission-Mode'', mode)] @
     (case before of None \<Rightarrow> [] | Some t \<Rightarrow> [(''X-Intramind-Dispatch-Before'', instant_text t)]) @
     (case timeout of None \<Rightarrow> [] | Some t \<Rightarrow> [(''X-Intramind-Step-Timeout-Seconds'', seconds_text t)])"

text \<open>\<open>observe_response\<close> on a conflict: a proven deferral is raised.\<close>

definition observe_conflict :: "json \<Rightarrow> admission_scope \<Rightarrow> admission_scope" where
  "observe_conflict body sc =
     (let f = jget_or ''error'' (JDict []) body in
      if jget ''type'' f = JString ''admission_deferred'' then observe f sc else sc)"

section \<open>Facts\<close>

lemma apfst_append [simp]: "apfst ((@) a) (apfst ((@) b) x) = apfst ((@) (a @ b)) x"
  "apfst ((#) f) (apfst ((@) fs) y) = apfst ((@) (f # fs)) y" "apfst ((@) [f]) y = apfst ((#) f) y"
  by (cases x, simp) (cases y, simp)+

lemma split_step:
  assumes "\<not> (ch = newline \<and> c2 = newline)" and "split_frames (c2 # s) = (gs, q)"
  shows "split_frames (ch # c2 # s) = (case gs of [] \<Rightarrow> ([], ch # q) | g # hs \<Rightarrow> ((ch # g) # hs, q))"
  using assms by (auto split: list.splits)

lemma split_text: "split_frames x = (fs, r) \<Longrightarrow> x = concat (map (\<lambda>f. f @ [newline, newline]) fs) @ r"
proof (induction x arbitrary: fs r rule: split_frames.induct)
  case (3 ch c2 s)
  show ?case
  proof (cases "ch = newline \<and> c2 = newline")
    case True
    with "3.IH"(1) "3.prems" show ?thesis by (cases "split_frames s") auto
  next
    case False
    obtain gs q where q: "split_frames (c2 # s) = (gs, q)" by force
    have IH: "c2 # s = concat (map (\<lambda>f. f @ [newline, newline]) gs) @ q" using "3.IH"(2) [OF False q] .
    show ?thesis using "3.prems" IH unfolding split_step [OF False q] by (cases gs) auto
  qed
qed auto

lemma split_nothing: "split_frames x = ([], r) \<Longrightarrow> r = x"
  using split_text by fastforce

lemma split_frames_append:
  "split_frames (x @ y) = (case split_frames x of (fs, r) \<Rightarrow> apfst ((@) fs) (split_frames (r @ y)))"
proof (induction x rule: split_frames.induct)
  case (3 ch c2 s)
  show ?case
  proof (cases "ch = newline \<and> c2 = newline")
    case True
    then show ?thesis using "3.IH"(1) by (auto split: prod.splits)
  next
    case False
    then have IH: "split_frames (c2 # s @ y) = (case split_frames (c2 # s) of (fs, r) \<Rightarrow> apfst ((@) fs) (split_frames (r @ y)))"
      using "3.IH"(2) by simp
    show ?thesis
    proof (cases "fst (split_frames (c2 # s))")
      case Nil
      then obtain r where r: "split_frames (c2 # s) = ([], r)" by (cases "split_frames (c2 # s)") auto
      have q: "r = c2 # s" using r by (rule split_nothing)
      show ?thesis unfolding append_Cons split_step [OF False r] using q by simp
    next
      case (Cons f fs)
      then obtain r where r: "split_frames (c2 # s) = (f # fs, r)" by (cases "split_frames (c2 # s)") auto
      obtain hs q where all: "split_frames (c2 # s @ y) = (hs, q)" by force
      with IH r obtain ks where ks: "hs = f # fs @ ks" "split_frames (r @ y) = (ks, q)"
        by (cases "split_frames (r @ y)") auto
      show ?thesis unfolding append_Cons split_step [OF False r] split_step [OF False all] using ks by simp
    qed
  qed
qed simp_all

lemma evidence_frames_append:
  "evidence_frames loads (fs @ gs) sc =
     (case evidence_frames loads fs sc of
        (out, sc1, True) \<Rightarrow> (out, sc1, True)
      | (out, sc1, False) \<Rightarrow> apfst ((@) out) (evidence_frames loads gs sc1))"
  by (induction fs arbitrary: sc) (auto split: prod.splits bool.splits)

lemma split_rest: "split_frames x = (fs, r) \<Longrightarrow> split_frames r = ([], r)"
proof (induction x arbitrary: fs r rule: split_frames.induct)
  case (3 ch c2 s)
  show ?case
  proof (cases "ch = newline \<and> c2 = newline")
    case True
    with "3.IH"(1) "3.prems" show ?thesis by (cases "split_frames s") auto
  next
    case False
    obtain gs q where q: "split_frames (c2 # s) = (gs, q)" by force
    show ?thesis
    proof (cases gs)
      case Nil
      have "q = c2 # s" using q Nil split_nothing by metis
      with False q Nil "3.prems" show ?thesis by auto
    next
      case (Cons g hs)
      with False q "3.IH"(2) "3.prems" show ?thesis by auto
    qed
  qed
qed auto

lemma split_blank_line: "fst (split_frames (a @ newline # newline # b)) \<noteq> []"
proof (induction a)
  case Nil
  show ?case by (cases "split_frames b") simp
next
  case (Cons ch a)
  obtain c2 s where s: "a @ newline # newline # b = c2 # s" by (cases a) auto
  with Cons show ?case by (cases "split_frames (c2 # s)") (auto split: list.splits)
qed

text \<open>What is pending never grows past the frame it belongs to.\<close>

lemma pending_bounded:
  assumes "split_frames p = ([], p)" and "split_frames (p @ y) = (fs, r)"
    and "list_all (\<lambda>f. length f < n) fs" and "length r \<le> n"
  shows "length p \<le> n"
proof (cases fs)
  case Nil
  with assms(2) have "r = p @ y" using split_nothing by simp
  with assms(4) show ?thesis by simp
next
  case (Cons f gs)
  then obtain z where z: "p @ y = (f @ [newline, newline]) @ z" using split_text [OF assms(2)] by auto
  have "length p \<le> Suc (length f)"
  proof (rule ccontr)
    assume "\<not> length p \<le> Suc (length f)"
    then have "Suc (Suc (length f)) \<le> length p" by simp
    then have "take (Suc (Suc (length f))) p = f @ [newline, newline]"
      using z by (metis (no_types, lifting) append_eq_conv_conj length_append_singleton append.assoc append_Cons append_Nil take_append take_all diff_is_0_eq append_Nil2 take0)
    then have "p = (f @ [newline, newline]) @ drop (Suc (Suc (length f))) p" by (metis append_take_drop_id)
    then obtain b where "p = f @ newline # newline # b" by auto
    with split_blank_line [of f b] assms(1) show False by simp
  qed
  with Cons assms(3) show ?thesis by simp
qed

definition evidence_whole :: "(string \<Rightarrow> json option) \<Rightarrow> string \<Rightarrow> admission_scope \<Rightarrow> string \<times> admission_scope \<times> evidence_end" where
  "evidence_whole loads text sc =
     (case split_frames text of
        (fs, rest) \<Rightarrow>
          (case evidence_frames loads fs sc of
             (out, sc1, True) \<Rightarrow> (out, sc1, Evidence_raises)
           | (out, sc1, False) \<Rightarrow> (out @ rest, sc1, Evidence_ends)))"

definition small_frames :: "string \<Rightarrow> bool" where
  "small_frames text \<longleftrightarrow> (case split_frames text of (fs, r) \<Rightarrow> list_all (\<lambda>f. length f < frame_bound) fs \<and> length r \<le> frame_bound)"

lemma evidence_chunks_whole:
  "split_frames p = ([], p) \<Longrightarrow> small_frames (p @ concat cs) \<Longrightarrow>
   evidence_chunks loads p cs sc = evidence_whole loads (p @ concat cs) sc"
proof (induction cs arbitrary: p sc)
  case Nil
  then show ?case by (simp add: evidence_whole_def)
next
  case (Cons c cs)
  obtain fs r where one: "split_frames (p @ c) = (fs, r)" by force
  obtain gs q where rest: "split_frames (r @ concat cs) = (gs, q)" by force
  have whole: "split_frames (p @ concat (c # cs)) = (fs @ gs, q)"
    using split_frames_append [of "p @ c" "concat cs"] one rest by simp
  with Cons.prems(2) have small: "list_all (\<lambda>f. length f < frame_bound) gs" "length q \<le> frame_bound"
    by (simp_all add: small_frames_def)
  have r: "split_frames r = ([], r)" using one by (rule split_rest)
  have bound: "\<not> frame_bound < length r" using pending_bounded [OF r rest small] by simp
  have IH: "evidence_chunks loads r cs sc' = evidence_whole loads (r @ concat cs) sc'" for sc'
    by (rule Cons.IH [OF r]) (simp add: small_frames_def rest small)
  show ?case
    unfolding evidence_whole_def [of loads "p @ concat (c # cs)"] whole
    using one bound by (auto simp: IH evidence_whole_def rest evidence_frames_append split: prod.splits bool.splits)
qed

definition passed_frame :: "string \<Rightarrow> bool" where
  "passed_frame f \<longleftrightarrow> event_of (byte_lines f) \<notin> {''intramind.control'', ''intramind.error''}"

lemma evidence_frame_ends:
  "evidence_frame loads f sc = (pass, sc1, False) \<Longrightarrow> pass = passed_frame f \<and> (as_error sc = None \<longrightarrow> as_error sc1 = None)"
  by (auto simp: evidence_frame_def passed_frame_def Let_def split: if_splits option.splits json.splits)

lemma evidence_frames_end:
  "evidence_frames loads fs sc = (out, sc1, False) \<Longrightarrow>
   out = concat (map (\<lambda>f. f @ [newline, newline]) (filter passed_frame fs)) \<and> (as_error sc = None \<longrightarrow> as_error sc1 = None)"
proof (induction fs arbitrary: out sc)
  case (Cons f fs)
  obtain pass sc2 stop where one: "evidence_frame loads f sc = (pass, sc2, stop)" by (cases "evidence_frame loads f sc") auto
  obtain more sc3 halt where rest: "evidence_frames loads fs sc2 = (more, sc3, halt)" by (cases "evidence_frames loads fs sc2") auto
  from Cons.prems one rest have stop: "\<not> stop" "\<not> halt" "sc3 = sc1"
    and out: "out = (if pass then f @ [newline, newline] else []) @ more" by (auto split: bool.splits)
  with Cons.IH rest evidence_frame_ends one show ?case by fastforce
qed simp

text \<open>
  C31. The evidence stream does not depend on how the transport cuts a response into chunks, as long
  as every frame keeps the bound. A stream that ends without raising hands the completion library
  the response's own bytes less the runtime's internal frames, and leaves no error in the scope.
\<close>
theorem evidence_stream_transparent:
  assumes "small_frames (concat cs)"
  shows "evidence_chunks loads [] cs sc = evidence_whole loads (concat cs) sc \<and>
    (case evidence_chunks loads [] cs sc of
       (out, sc1, Evidence_ends) \<Rightarrow>
         out = concat (map (\<lambda>f. f @ [newline, newline]) (filter passed_frame (fst (split_frames (concat cs))))) @
               snd (split_frames (concat cs)) \<and>
         (as_error sc \<noteq> None \<or> as_error sc1 = None)
     | (_, _, Evidence_raises) \<Rightarrow> True
     | (_, _, Frame_too_long) \<Rightarrow> False)"
proof -
  have whole: "evidence_chunks loads [] cs sc = evidence_whole loads (concat cs) sc"
    using evidence_chunks_whole [of "[]" cs loads sc] assms by simp
  obtain fs r where fs: "split_frames (concat cs) = (fs, r)" by force
  obtain out sc1 halt where out: "evidence_frames loads fs sc = (out, sc1, halt)" by (cases "evidence_frames loads fs sc") auto
  show ?thesis unfolding whole
    using evidence_frames_end [of loads fs sc out sc1] fs out by (cases halt) (auto simp: evidence_whole_def)
qed

definition demo_chunks :: "string list" where
  "demo_chunks = [''event: intramind.control'' @ [newline] @ ''data: {1}'', [newline], [newline] @ ''data: hi'' @ [newline], [newline]]"

definition demo_started :: json where
  "demo_started = JDict [(''type'', JString ''started''), (''attempt_id'', JString ''a1''), (''compute_state'', JString ''sent'')]"

definition demo_loads :: "string \<Rightarrow> json option" where
  "demo_loads s = (if s = ''{1}'' then Some demo_started else None)"

lemma demo_frames:
  "split_frames (concat demo_chunks) =
     ([''event: intramind.control'' @ [newline] @ ''data: {1}'', ''data: hi''], [])"
  "map passed_frame [''event: intramind.control'' @ [newline] @ ''data: {1}'', ''data: hi''] = [False, True]"
  "snd (snd (evidence_frames demo_loads [''event: intramind.control'' @ [newline] @ ''data: {1}'', ''data: hi''] new_scope)) = False"
  by code_simp+

theorem evidence_stream_transparent_witness:
  "fst (evidence_chunks demo_loads [] demo_chunks new_scope) = ''data: hi'' @ [newline, newline]"
proof -
  define control where "control = ''event: intramind.control'' @ [newline] @ ''data: {1}''"
  note demo = demo_frames [folded control_def]
  have len: "length control = 34" by (simp add: control_def)
  have small: "small_frames (concat demo_chunks)" by (simp add: small_frames_def demo(1) frame_bound_def len)
  have "\<not> passed_frame control" "passed_frame ''data: hi''" using demo(2) by simp_all
  moreover have "snd (snd (evidence_whole demo_loads (concat demo_chunks) new_scope)) = Evidence_ends"
    using demo(3) by (auto simp: evidence_whole_def demo(1) split: prod.splits bool.splits)
  ultimately show ?thesis
    using evidence_stream_transparent [OF small, of demo_loads new_scope] by (auto simp: demo(1) split: prod.splits)
qed

end
