(* ===== verification/Release_Gate.thy ===== *)
theory Release_Gate
  imports Complex_Main Preparation
begin

text \<open>
  The release gate (\<open>release_gate.py\<close>): which manifest and evidence bundle is let through. The files
  of the bundle, SHA-256, JSON and UTF-8 decoding, the XML parser and the reading of numbers are
  arguments (\<open>gate_env\<close>); a raised \<open>InvalidEvidence\<close> is a \<open>refusal\<close>.
\<close>

section \<open>Evidence\<close>

datatype py_float = Finite rat | Infinite bool | Not_a_number

datatype xml = Element (xml_tag: string) (xml_attrs: "(string \<times> string) list") (xml_children: "xml list")

record gate_env =
  ge_file :: "string \<Rightarrow> string option"    \<comment> \<open>the bytes of a file under the base directory\<close>
  ge_sha :: "string \<Rightarrow> string"
  ge_loads :: "string \<Rightarrow> json option"
  ge_decode :: "string \<Rightarrow> string option"
  ge_xml :: "string \<Rightarrow> xml option"
  ge_int :: "string \<Rightarrow> int option"
  ge_float :: "string \<Rightarrow> py_float"

datatype refusal =
    Reference_required | Path_required | Digest_required | Cannot_read | Bad_size | Digest_mismatch
  | Bad_json | Cases_required | Cases_repeated | Required_cases refusal
  | Not_utf8 | Xml_declarations | Bad_xml | Suite_root_required | No_tests | Has_failures | Case_not_passed
  | Case_duplicated | Bad_counters | Counters_disagree | Coverage_missing
  | Gate_mismatch | Profile_mismatch | Policy_mismatch | Thresholds_required
  | Measurement_required string | Requirement_not_met string | Unit_required string
  | Bounds_required string | Bounds_contradict string | Bounds_exceeded string
  | Source_required | Gates_required | Report_required | Wrong_format | Policy_required
  | Regression_required | Cases_not_qualified

definition max_report_bytes :: int where
  "max_report_bytes = 16 * 1024 * 1024"

text \<open>The read stops one byte past the bound, so a longer file is refused without its rest.\<close>

definition read_report :: "gate_env \<Rightarrow> json \<Rightarrow> refusal + string" where
  "read_report env ref =
     (if \<not> is_dict ref then Inl Reference_required
      else case jget ''report_path'' ref of
          JString name \<Rightarrow>
            (if name = [] then Inl Path_required
             else case jget ''report_sha256'' ref of
                 JString digest \<Rightarrow>
                   (if \<not> is_sha256 digest then Inl Digest_required
                    else case ge_file env name of
                        None \<Rightarrow> Inl Cannot_read
                      | Some content \<Rightarrow>
                          (if content = [] \<or> max_report_bytes < int (length content) then Inl Bad_size
                           else if ge_sha env content \<noteq> digest then Inl Digest_mismatch
                           else Inr content))
               | _ \<Rightarrow> Inl Digest_required)
        | _ \<Rightarrow> Inl Path_required)"

definition json_report :: "gate_env \<Rightarrow> string \<Rightarrow> refusal + json" where
  "json_report env content =
     (case ge_loads env content of
        Some (JDict d) \<Rightarrow> (if jget ''schema_version'' (JDict d) = JInt 1 then Inr (JDict d) else Inl Bad_json)
      | _ \<Rightarrow> Inl Bad_json)"

definition case_names :: "json \<Rightarrow> refusal + string list" where
  "case_names v =
     (case v of
        JList xs \<Rightarrow>
          (if xs = [] \<or> list_ex (\<lambda>j. \<not> nonempty_string j) xs then Inl Cases_required
           else if \<not> distinct (map the_str xs) then Inl Cases_repeated
           else Inr (map the_str xs))
      | _ \<Rightarrow> Inl Cases_required)"

section \<open>Test reports\<close>

text \<open>\<open>Element.iter\<close>: the element and all below it, in document order.\<close>

fun xml_iter :: "xml \<Rightarrow> xml list" where
  "xml_iter (Element t a cs) = Element t a cs # concat (map xml_iter cs)"

definition iter_tag :: "string \<Rightarrow> xml \<Rightarrow> xml list" where
  "iter_tag t x = filter (\<lambda>e. xml_tag e = t) (xml_iter x)"

definition xml_get :: "string \<Rightarrow> xml \<Rightarrow> string option" where
  "xml_get k x = map_of (xml_attrs x) k"

definition ascii_upper :: "char \<Rightarrow> char" where
  "ascii_upper ch = (let n = of_char ch :: nat in if 97 \<le> n \<and> n \<le> 122 then char_of (n - 32) else ch)"

fun contains_text :: "string \<Rightarrow> string \<Rightarrow> bool" where
  "contains_text p [] = (p = [])"
| "contains_text p (ch # s) = (take (length p) (ch # s) = p \<or> contains_text p s)"

definition case_passed :: "xml \<Rightarrow> bool" where
  "case_passed x \<longleftrightarrow> (case xml_get ''name'' x of None \<Rightarrow> False | Some n \<Rightarrow> n \<noteq> []) \<and>
     or_else (xml_get ''status'' x) ''run'' \<in> {''run'', ''passed'', ''success'', ''completed''} \<and>
     or_else (xml_get ''result'' x) ''completed'' = ''completed''"

definition case_identity :: "xml \<Rightarrow> string" where
  "case_identity x = or_else (xml_get ''classname'' x) [] @ ''::'' @ or_else (xml_get ''name'' x) []"

definition suite_totals :: "xml \<Rightarrow> (string \<times> int) list" where
  "suite_totals s = [(''tests'', int (length (iter_tag ''testcase'' s))), (''failures'', 0), (''errors'', 0), (''skipped'', 0), (''disabled'', 0)]"

fun check_totals :: "gate_env \<Rightarrow> xml \<Rightarrow> (string \<times> int) list \<Rightarrow> refusal option" where
  "check_totals env s [] = None"
| "check_totals env s ((k, expected) # ks) =
     (case xml_get k s of
        None \<Rightarrow> check_totals env s ks
      | Some t \<Rightarrow>
          (case ge_int env t of
             None \<Rightarrow> Some Bad_counters
           | Some actual \<Rightarrow> if actual \<noteq> expected then Some Counters_disagree else check_totals env s ks))"

fun check_suites :: "gate_env \<Rightarrow> xml list \<Rightarrow> refusal option" where
  "check_suites env [] = None"
| "check_suites env (s # ss) =
     (if xml_tag s \<notin> {''testsuite'', ''testsuites''} then check_suites env ss
      else case check_totals env s (suite_totals s) of Some e \<Rightarrow> Some e | None \<Rightarrow> check_suites env ss)"

definition junit_root :: "gate_env \<Rightarrow> string \<Rightarrow> refusal + xml" where
  "junit_root env content =
     (case ge_decode env content of
        None \<Rightarrow> Inl Not_utf8
      | Some text \<Rightarrow>
          (if contains_text ''<!DOCTYPE'' (map ascii_upper text) \<or> contains_text ''<!ENTITY'' (map ascii_upper text)
           then Inl Xml_declarations
           else case ge_xml env text of
               None \<Rightarrow> Inl Bad_xml
             | Some suite \<Rightarrow> if xml_tag suite \<notin> {''testsuite'', ''testsuites''} then Inl Suite_root_required else Inr suite))"

definition check_tests :: "gate_env \<Rightarrow> xml \<Rightarrow> string list \<Rightarrow> refusal + string list" where
  "check_tests env suite required =
     (let tests = iter_tag ''testcase'' suite; identities = map case_identity tests in
      if tests = [] then Inl No_tests
      else if list_ex (\<lambda>e. xml_tag e \<in> {''failure'', ''error'', ''skipped''}) (xml_iter suite) then Inl Has_failures
      else if \<not> list_all case_passed tests then Inl Case_not_passed
      else if \<not> distinct identities then Inl Case_duplicated
      else case check_suites env (xml_iter suite) of
          Some e \<Rightarrow> Inl e
        | None \<Rightarrow> if set required \<subseteq> set identities then Inr required else Inl Coverage_missing)"

definition junit_cases :: "gate_env \<Rightarrow> string \<Rightarrow> json \<Rightarrow> refusal + string list" where
  "junit_cases env content required =
     (case case_names required of
        Inl e \<Rightarrow> Inl (Required_cases e)
      | Inr names \<Rightarrow> (case junit_root env content of Inl e \<Rightarrow> Inl e | Inr suite \<Rightarrow> check_tests env suite names))"

section \<open>Qualification reports\<close>

text \<open>
  A number of Python: \<open>bool\<close> is one for \<open>==\<close> but not for \<open>_finite_number\<close>, which also refuses an
  integer that no finite float is near.
\<close>

definition finite_number :: "gate_env \<Rightarrow> json \<Rightarrow> rat option" where
  "finite_number env j =
     (case j of
        JInt n \<Rightarrow> (if \<bar>n\<bar> < 2 ^ 1024 - 2 ^ 970 then Some (of_int n) else None)
      | JFloat s \<Rightarrow> (case ge_float env s of Finite q \<Rightarrow> Some q | _ \<Rightarrow> None)
      | _ \<Rightarrow> None)"

definition number_of :: "gate_env \<Rightarrow> json \<Rightarrow> py_float option" where
  "number_of env j =
     (case j of
        JBool b \<Rightarrow> Some (Finite (if b then 1 else 0))
      | JInt n \<Rightarrow> Some (Finite (of_int n))
      | JFloat s \<Rightarrow> Some (ge_float env s)
      | _ \<Rightarrow> None)"

lemma find_in: "find P xs = Some x \<Longrightarrow> x \<in> set xs \<and> P x"
  by (induction xs) (auto split: if_splits)

lemma jlookup_in: "jlookup k d = Some v \<Longrightarrow> (k, v) \<in> set d"
  unfolding jlookup_def using find_in by fastforce

lemma entry_smaller: "(k, v) \<in> set d \<Longrightarrow> size v \<le> size_list (\<lambda>x. Suc (size (snd x))) d"
  by (induction d) auto

text \<open>\<open>==\<close> on decoded JSON: numbers by value, dicts whatever their order.\<close>

function py_equal :: "gate_env \<Rightarrow> json \<Rightarrow> json \<Rightarrow> bool" where
  "py_equal env a b =
     (case (a, b) of
        (JNull, JNull) \<Rightarrow> True
      | (JString s, JString t) \<Rightarrow> s = t
      | (JList xs, JList ys) \<Rightarrow> list_all2 (py_equal env) xs ys
      | (JDict d, JDict e) \<Rightarrow>
          fst ` set d = fst ` set e \<and>
          (\<forall>k \<in> fst ` set d. case jlookup k d of None \<Rightarrow> True
             | Some x \<Rightarrow> (case jlookup k e of None \<Rightarrow> True | Some y \<Rightarrow> py_equal env x y))
      | _ \<Rightarrow>
          (case (number_of env a, number_of env b) of
             (Some Not_a_number, _) \<Rightarrow> False
           | (Some m, Some n) \<Rightarrow> m = n
           | _ \<Rightarrow> False))"
  by pat_completeness auto
termination
  by (relation "measure (\<lambda>(env, a, b). size a)")
    (auto simp: termination_simp less_Suc_eq_le dest!: jlookup_in intro: entry_smaller)

definition valid_profile :: "json \<Rightarrow> bool" where
  "valid_profile p \<longleftrightarrow> is_dict p \<and> nonempty_string (jget ''profile_id'' p) \<and>
     (case jget ''fingerprint_sha256'' p of JString s \<Rightarrow> is_sha256 s | _ \<Rightarrow> False)"

declare py_equal.simps [simp del]

definition required_measurements :: "string \<Rightarrow> (string \<times> rat option \<times> rat option) list" where
  "required_measurements key =
     (if key = ''gpu_capacity''
      then [(''samples'', Some 1, None), (''oom_count'', Some 0, Some 0), (''memory_headroom_bytes'', Some 1, None)]
      else if key = ''offhost_restore''
      then [(''rpo_seconds'', Some 0, Some 900), (''rto_seconds'', Some 0, Some 14400), (''offhost_restore_completed'', Some 1, Some 1),
        (''restored_artifact_checks'', Some 1, None), (''broken_artifact_refs'', Some 0, Some 0)]
      else if key = ''celery_drained''
      then [(''queued_business_tasks'', Some 0, Some 0), (''active_business_tasks'', Some 0, Some 0), (''reserved_business_tasks'', Some 0, Some 0)]
      else [])"

definition bounds_keep :: "rat option \<Rightarrow> rat option \<Rightarrow> rat \<Rightarrow> bool" where
  "bounds_keep lo hi v \<longleftrightarrow> (case lo of None \<Rightarrow> True | Some m \<Rightarrow> m \<le> v) \<and> (case hi of None \<Rightarrow> True | Some m \<Rightarrow> v \<le> m)"

fun check_required :: "gate_env \<Rightarrow> json \<Rightarrow> json \<Rightarrow> (string \<times> rat option \<times> rat option) list \<Rightarrow> refusal option" where
  "check_required env limits measured [] = None"
| "check_required env limits measured ((metric, lo, hi) # ms) =
     (case finite_number env (jget metric measured) of
        None \<Rightarrow> Some (Measurement_required metric)
      | Some v \<Rightarrow>
          (if \<not> jhas metric limits then Some (Measurement_required metric)
           else if \<not> bounds_keep lo hi v then Some (Requirement_not_met metric)
           else check_required env limits measured ms))"

text \<open>One bound of the policy; a bound that is absent does not limit.\<close>

definition check_limit :: "gate_env \<Rightarrow> json \<Rightarrow> string \<Rightarrow> json \<Rightarrow> refusal option" where
  "check_limit env measured metric bound =
     (case finite_number env (jget metric measured) of
        None \<Rightarrow> Some (Unit_required metric)
      | Some v \<Rightarrow>
          (let lo = finite_number env (jget ''minimum'' bound); hi = finite_number env (jget ''maximum'' bound) in
           if \<not> is_dict bound \<or> falsy (jget ''unit'' bound) then Some (Unit_required metric)
           else if \<not> jhas ''minimum'' bound \<and> \<not> jhas ''maximum'' bound \<or>
             jhas ''minimum'' bound \<and> lo = None \<or> jhas ''maximum'' bound \<and> hi = None then Some (Bounds_required metric)
           else if jhas ''minimum'' bound \<and> jhas ''maximum'' bound \<and> the hi < the lo then Some (Bounds_contradict metric)
           else if \<not> bounds_keep (if jhas ''minimum'' bound then lo else None) (if jhas ''maximum'' bound then hi else None) v
           then Some (Bounds_exceeded metric)
           else None))"

text \<open>\<open>limits.items()\<close>: the keys in the order of their first binding.\<close>

definition dict_keys :: "(string \<times> json) list \<Rightarrow> string list" where
  "dict_keys d = rev (remdups (rev (map fst d)))"

fun check_limits :: "gate_env \<Rightarrow> json \<Rightarrow> json \<Rightarrow> string list \<Rightarrow> refusal option" where
  "check_limits env limits measured [] = None"
| "check_limits env limits measured (k # ks) =
     (case check_limit env measured k (jget k limits) of Some e \<Rightarrow> Some e | None \<Rightarrow> check_limits env limits measured ks)"

definition qualify :: "gate_env \<Rightarrow> string \<Rightarrow> string \<Rightarrow> json \<Rightarrow> json \<Rightarrow> json \<Rightarrow> refusal option" where
  "qualify env key content policy policy_hash profile =
     (case json_report env content of
        Inl e \<Rightarrow> Some e
      | Inr report \<Rightarrow>
          (if jget ''gate'' report \<noteq> JString key \<or> jget ''status'' report \<noteq> JString ''passed'' then Some Gate_mismatch
           else if \<not> py_equal env (jget ''production_capacity_profile'' report) profile then Some Profile_mismatch
           else if jget ''policy_sha256'' report \<noteq> policy_hash then Some Policy_mismatch
           else case (jget key (jget ''gates'' policy), jget ''measurements'' report) of
               (JDict limits, JDict measured) \<Rightarrow>
                 (case check_required env (JDict limits) (JDict measured) (required_measurements key) of
                    Some e \<Rightarrow> Some e
                  | None \<Rightarrow> check_limits env (JDict limits) (JDict measured) (dict_keys limits))
             | _ \<Rightarrow> Some Thresholds_required))"

section \<open>The manifest\<close>

definition test_gates :: "string list" where
  "test_gates = [''ledger_fault_injection'', ''workflow_replay'', ''feature_regression'', ''api_security'', ''minio_contract'']"

definition required_evidence :: "string list" where
  "required_evidence = test_gates @ [''gpu_capacity'', ''offhost_restore'', ''celery_drained'']"

definition two_digits :: "nat \<Rightarrow> string" where
  "two_digits n = [char_of (48 + n div 10), char_of (48 + n mod 10)]"

definition inventory_ids :: "string list" where
  "inventory_ids = concat (map (\<lambda>(p, n). map (\<lambda>i. p # two_digits i) [1..<Suc n])
     [(CHR ''A'', 12), (CHR ''B'', 8), (CHR ''D'', 10), (CHR ''H'', 8), (CHR ''O'', 3), (CHR ''X'', 2)])"

datatype gate_failure =
    Not_an_object | Inventory_incomplete | Profile_missing | Policy_refused refusal
  | Gate_refused string refusal | Migration_incomplete json | Migration_refused json refusal | Backend_changed

definition inventory_tasks :: "json \<Rightarrow> json list" where
  "inventory_tasks m = (case jget_or ''inventory'' (JList []) m of JList xs \<Rightarrow> xs | _ \<Rightarrow> [])"

definition inventory_complete :: "json list \<Rightarrow> bool" where
  "inventory_complete tasks \<longleftrightarrow>
     (let ids = map (jget ''id'') (filter is_dict tasks) in
      length tasks = 43 \<and> list_all is_str ids \<and> set (map the_str ids) = set inventory_ids)"

definition check_policy :: "gate_env \<Rightarrow> json \<Rightarrow> refusal + json" where
  "check_policy env m =
     (let profile = jget ''production_capacity_profile'' m in
      case and_then (read_report env (jget ''qualification_policy'' m)) (json_report env) of
        Inl e \<Rightarrow> Inl e
      | Inr policy \<Rightarrow>
          (if \<not> nonempty_string (jget ''source'' policy) then Inl Source_required
           else if \<not> valid_profile profile \<or> \<not> py_equal env (jget ''production_capacity_profile'' policy) profile
           then Inl Profile_mismatch
           else if \<not> is_dict (jget ''gates'' policy) then Inl Gates_required
           else Inr policy))"

text \<open>One gate: the cases of a test report that were verified.\<close>

definition check_gate :: "gate_env \<Rightarrow> json \<Rightarrow> string \<Rightarrow> refusal + string list" where
  "check_gate env m key =
     (let evidence = jget key (jget ''evidence'' m) in
      if \<not> is_dict evidence \<or> jget ''status'' evidence \<noteq> JString ''passed'' then Inl Report_required
      else case read_report env evidence of
          Inl e \<Rightarrow> Inl e
        | Inr content \<Rightarrow>
            (if jget ''format'' evidence \<noteq> JString (if key \<in> set test_gates then ''junit_xml'' else ''qualification_json'')
             then Inl Wrong_format
             else if key \<in> set test_gates then junit_cases env content (jget ''required_testcases'' evidence)
             else case check_policy env m of
                 Inl _ \<Rightarrow> Inl Policy_required
               | Inr policy \<Rightarrow>
                   (case qualify env key content policy (jget ''report_sha256'' (jget ''qualification_policy'' m))
                           (jget ''production_capacity_profile'' m) of
                      Some e \<Rightarrow> Inl e
                    | None \<Rightarrow> Inr [])))"

definition check_migration :: "string list \<Rightarrow> json \<Rightarrow> refusal option" where
  "check_migration verified ref =
     (if \<not> is_dict ref \<or> jget ''gate'' ref \<noteq> JString ''feature_regression'' then Some Regression_required
      else case case_names (jget ''testcases'' ref) of
          Inl e \<Rightarrow> Some e
        | Inr names \<Rightarrow> if set names \<subseteq> set verified then None else Some Cases_not_qualified)"

definition item_failures :: "string list \<Rightarrow> json \<Rightarrow> gate_failure list" where
  "item_failures verified item =
     (if \<not> is_dict item then []
      else
        (if jget ''disposition'' item \<in> {JString ''migrated'', JString ''retained_native'', JString ''removed''} then []
         else [Migration_incomplete (jget ''id'' item)]) @
        (if jget ''disposition'' item = JString ''migrated''
         then (case check_migration verified (jget ''evidence'' item) of
             None \<Rightarrow> [] | Some e \<Rightarrow> [Migration_refused (jget ''id'' item) e])
         else []))"

definition violations :: "gate_env \<Rightarrow> json \<Rightarrow> gate_failure list" where
  "violations env m =
     (if \<not> is_dict m then [Not_an_object]
      else
        (let verified = (case check_gate env m ''feature_regression'' of Inl _ \<Rightarrow> [] | Inr names \<Rightarrow> names) in
         (if inventory_complete (inventory_tasks m) then [] else [Inventory_incomplete]) @
         (if valid_profile (jget ''production_capacity_profile'' m) then [] else [Profile_missing]) @
         (case check_policy env m of Inl e \<Rightarrow> [Policy_refused e] | Inr _ \<Rightarrow> []) @
         concat (map (\<lambda>key. case check_gate env m key of Inl e \<Rightarrow> [Gate_refused key e] | Inr _ \<Rightarrow> []) required_evidence) @
         concat (map (item_failures verified) (inventory_tasks m)) @
         (if jget ''artifact_backend'' m = JString ''minio'' then [] else [Backend_changed])))"

end
