(* ===== verification/Release_Properties.thy ===== *)
theory Release_Properties
  imports Release_Gate
begin

text \<open>
  What a release that the gate lets through has shown: the bytes of every report, the executed cases,
  the measurements and the complete inventory.
\<close>

section \<open>Single checks\<close>

definition file_matches :: "gate_env \<Rightarrow> json \<Rightarrow> string \<Rightarrow> bool" where
  "file_matches env ref content \<longleftrightarrow>
     (\<exists>name. jget ''report_path'' ref = JString name \<and> ge_file env name = Some content \<and>
        jget ''report_sha256'' ref = JString (ge_sha env content) \<and> content \<noteq> [] \<and> int (length content) \<le> max_report_bytes)"

lemma read_report_ok: "read_report env ref = Inr content \<Longrightarrow> file_matches env ref content"
  by (auto simp: read_report_def file_matches_def split: if_splits json.splits option.splits)

text \<open>The case a name stands for was executed and passed, in a report without a failure.\<close>

definition case_ran :: "gate_env \<Rightarrow> string \<Rightarrow> string \<Rightarrow> bool" where
  "case_ran env content name \<longleftrightarrow>
     (\<exists>doc suite. ge_decode env content = Some doc \<and> ge_xml env doc = Some suite \<and>
        (\<forall>e \<in> set (xml_iter suite). xml_tag e \<notin> {''failure'', ''error'', ''skipped''}) \<and>
        (\<exists>t \<in> set (xml_iter suite). xml_tag t = ''testcase'' \<and> case_passed t \<and> case_identity t = name))"

lemma case_names_ok: "case_names v = Inr names \<Longrightarrow> names \<noteq> [] \<and> distinct names"
  by (auto simp: case_names_def split: json.splits if_splits)

lemma junit_root_ok:
  "junit_root env content = Inr suite \<Longrightarrow> \<exists>doc. ge_decode env content = Some doc \<and> ge_xml env doc = Some suite"
  by (auto simp: junit_root_def split: option.splits if_splits)

lemma check_tests_ok:
  assumes "check_tests env suite required = Inr names"
  shows "names = required" and "\<forall>e \<in> set (xml_iter suite). xml_tag e \<notin> {''failure'', ''error'', ''skipped''}"
    and "\<forall>n \<in> set names. \<exists>t \<in> set (xml_iter suite). xml_tag t = ''testcase'' \<and> case_passed t \<and> case_identity t = n"
proof -
  from assms have n: "names = required" and e: "\<not> list_ex (\<lambda>e. xml_tag e \<in> {''failure'', ''error'', ''skipped''}) (xml_iter suite)"
    and p: "list_all case_passed (iter_tag ''testcase'' suite)"
    and c: "set required \<subseteq> set (map case_identity (iter_tag ''testcase'' suite))"
    by (auto simp: check_tests_def Let_def split: if_splits option.splits)
  show "names = required" by (rule n)
  show "\<forall>e \<in> set (xml_iter suite). xml_tag e \<notin> {''failure'', ''error'', ''skipped''}" using e by (auto simp: list_ex_iff)
  show "\<forall>n \<in> set names. \<exists>t \<in> set (xml_iter suite). xml_tag t = ''testcase'' \<and> case_passed t \<and> case_identity t = n"
    using p c n by (fastforce simp: iter_tag_def list_all_iff)
qed

lemma junit_cases_ok:
  assumes "junit_cases env content required = Inr names"
  shows "names \<noteq> [] \<and> case_names required = Inr names \<and> (\<forall>n \<in> set names. case_ran env content n)"
proof -
  from assms obtain ns suite where ns: "case_names required = Inr ns" and s: "junit_root env content = Inr suite"
    and t: "check_tests env suite ns = Inr names"
    by (auto simp: junit_cases_def split: sum.splits)
  show ?thesis
    using check_tests_ok [OF t] junit_root_ok [OF s] case_names_ok [OF ns] ns unfolding case_ran_def by blast
qed

lemma check_required_ok:
  "check_required env limits measured ms = None \<Longrightarrow> (metric, lo, hi) \<in> set ms \<Longrightarrow>
   \<exists>v. finite_number env (jget metric measured) = Some v \<and> bounds_keep lo hi v"
  by (induction ms) (auto split: option.splits if_splits)

definition bound_kept :: "gate_env \<Rightarrow> json \<Rightarrow> rat \<Rightarrow> bool" where
  "bound_kept env bound v \<longleftrightarrow>
     (jhas ''minimum'' bound \<or> jhas ''maximum'' bound) \<and>
     (jhas ''minimum'' bound \<longrightarrow> (\<exists>q. finite_number env (jget ''minimum'' bound) = Some q \<and> q \<le> v)) \<and>
     (jhas ''maximum'' bound \<longrightarrow> (\<exists>q. finite_number env (jget ''maximum'' bound) = Some q \<and> v \<le> q))"

lemma check_limit_ok:
  "check_limit env measured metric bound = None \<Longrightarrow>
   \<exists>v. finite_number env (jget metric measured) = Some v \<and> bound_kept env bound v"
  by (auto simp: check_limit_def bound_kept_def bounds_keep_def Let_def split: option.splits if_splits)

lemma check_limits_ok:
  "check_limits env limits measured ks = None \<Longrightarrow> k \<in> set ks \<Longrightarrow>
   \<exists>v. finite_number env (jget k measured) = Some v \<and> bound_kept env (jget k limits) v"
  by (induction ks) (auto dest: check_limit_ok split: option.splits)

lemma set_dict_keys [simp]: "set (dict_keys d) = fst ` set d"
  by (simp add: dict_keys_def)

lemma jhas_key: "jhas k (JDict d) \<Longrightarrow> k \<in> fst ` set d"
  using jlookup_in by force

definition measured_well :: "gate_env \<Rightarrow> string \<Rightarrow> string \<Rightarrow> json \<Rightarrow> bool" where
  "measured_well env key content policy \<longleftrightarrow>
     (\<exists>report. ge_loads env content = Some report \<and> jget ''gate'' report = JString key \<and>
        (\<forall>(metric, lo, hi) \<in> set (required_measurements key).
           \<exists>v. finite_number env (jget metric (jget ''measurements'' report)) = Some v \<and> bounds_keep lo hi v) \<and>
        (\<forall>metric. jhas metric (jget key (jget ''gates'' policy)) \<longrightarrow>
           (\<exists>v. finite_number env (jget metric (jget ''measurements'' report)) = Some v \<and>
              bound_kept env (jget metric (jget key (jget ''gates'' policy))) v)))"

lemma qualify_ok:
  assumes "qualify env key content policy h profile = None"
  shows "measured_well env key content policy"
proof -
  from assms obtain report where report: "json_report env content = Inr report" and g: "jget ''gate'' report = JString key"
    by (auto simp: qualify_def split: sum.splits if_splits)
  from assms report obtain limits measured where lm: "jget key (jget ''gates'' policy) = JDict limits"
    "jget ''measurements'' report = JDict measured"
    and r: "check_required env (JDict limits) (JDict measured) (required_measurements key) = None"
    and l: "check_limits env (JDict limits) (JDict measured) (dict_keys limits) = None"
    by (auto simp: qualify_def split: if_splits json.splits option.splits)
  have "ge_loads env content = Some report"
    using report by (auto simp: json_report_def split: option.splits json.splits if_splits)
  then show ?thesis
    unfolding measured_well_def using g lm check_required_ok [OF r] check_limits_ok [OF l] jhas_key [of _ limits]
    by fastforce
qed

section \<open>The inventory\<close>

lemma inventory_length: "length (remdups inventory_ids) = 43"
  by code_simp

lemma inventory_card: "card (set inventory_ids) = 43"
  unfolding inventory_length [symmetric] by (metis List.card_set)

text \<open>Forty-three entries that name forty-three identities: each is an object, and each name is used once.\<close>

lemma inventory_exact:
  assumes "inventory_complete tasks"
  shows "list_all is_dict tasks \<and> distinct (map (jget ''id'') tasks) \<and>
    set (map (jget ''id'') tasks) = JString ` set inventory_ids"
proof -
  define ids where "ids = map (jget ''id'') (filter is_dict tasks)"
  from assms have n: "length tasks = 43" and s: "list_all is_str ids" and e: "set (map the_str ids) = set inventory_ids"
    unfolding inventory_complete_def Let_def ids_def by blast+
  have short: "length ids \<le> length tasks" by (simp add: ids_def)
  have many: "card (set (map the_str ids)) = 43" using e inventory_card by simp
  have "card (set (map the_str ids)) \<le> length (map the_str ids)" by (rule card_length)
  with many short n have len: "length ids = 43" by simp
  then have same: "length (filter is_dict tasks) = length tasks" using n by (simp add: ids_def)
  have "is_dict t" if "t \<in> set tasks" for t
    using length_filter_less [of t tasks is_dict] that same by fastforce
  then have all: "filter is_dict tasks = tasks" by (simp add: filter_id_conv)
  have "distinct (map the_str ids)" using many len by (intro card_distinct) simp
  then have d: "distinct ids" by (simp add: distinct_map)
  have j: "JString (the_str j) = j" if "j \<in> set ids" for j
    using s that by (cases j) (auto simp: list_all_iff is_str_def the_str_def)
  have "set ids = JString ` set (map the_str ids)" using j by (force simp: image_image)
  then have "set ids = JString ` set inventory_ids" using e by simp
  moreover have "list_all is_dict tasks" using all by (metis filter_id_conv list_all_iff)
  ultimately show ?thesis using d all by (simp add: ids_def)
qed

text \<open>An item with an accepted disposition; one that was migrated names cases that ran.\<close>

definition item_settled :: "gate_env \<Rightarrow> string \<Rightarrow> json \<Rightarrow> bool" where
  "item_settled env content item \<longleftrightarrow>
     jget ''disposition'' item \<in> {JString ''migrated'', JString ''retained_native'', JString ''removed''} \<and>
     (jget ''disposition'' item = JString ''migrated'' \<longrightarrow>
        (\<exists>names. case_names (jget ''testcases'' (jget ''evidence'' item)) = Inr names \<and> names \<noteq> [] \<and>
           (\<forall>n \<in> set names. case_ran env content n)))"

lemma concat_empty: "concat (map f xs) = [] \<longleftrightarrow> (\<forall>x \<in> set xs. f x = [])"
  by (induction xs) auto

lemma item_ok:
  assumes "item_failures verified item = []" and "is_dict item"
  shows "jget ''disposition'' item \<in> {JString ''migrated'', JString ''retained_native'', JString ''removed''} \<and>
    (jget ''disposition'' item = JString ''migrated'' \<longrightarrow>
      (\<exists>names. case_names (jget ''testcases'' (jget ''evidence'' item)) = Inr names \<and> names \<noteq> [] \<and> set names \<subseteq> set verified))"
  using assms case_names_ok
  by (fastforce simp: item_failures_def check_migration_def split: if_splits option.splits sum.splits)

section \<open>The release\<close>

lemma check_gate_tests:
  assumes "check_gate env m key = Inr names" and "key \<in> set test_gates"
  shows "\<exists>content. file_matches env (jget key (jget ''evidence'' m)) content \<and> names \<noteq> [] \<and>
    (\<forall>n \<in> set names. case_ran env content n)"
proof -
  from assms obtain content where r: "read_report env (jget key (jget ''evidence'' m)) = Inr content"
    and j: "junit_cases env content (jget ''required_testcases'' (jget key (jget ''evidence'' m))) = Inr names"
    by (auto simp: check_gate_def Let_def split: if_splits sum.splits)
  show ?thesis using read_report_ok [OF r] junit_cases_ok [OF j] by blast
qed

lemma check_gate_measures:
  assumes "check_gate env m key = Inr names" and "key \<notin> set test_gates"
  shows "\<exists>content policy. file_matches env (jget key (jget ''evidence'' m)) content \<and> check_policy env m = Inr policy \<and>
    measured_well env key content policy"
proof -
  from assms obtain content policy where r: "read_report env (jget key (jget ''evidence'' m)) = Inr content"
    and c: "check_policy env m = Inr policy"
    and q: "qualify env key content policy (jget ''report_sha256'' (jget ''qualification_policy'' m))
      (jget ''production_capacity_profile'' m) = None"
    by (auto simp: check_gate_def Let_def split: if_splits sum.splits option.splits)
  show ?thesis using read_report_ok [OF r] c qualify_ok [OF q] by blast
qed

text \<open>Without a violation every gate is accepted, and the items are settled by the cases of the feature regression.\<close>

lemma no_violation:
  assumes "violations env m = []"
  obtains names where "is_dict m" and "jget ''artifact_backend'' m = JString ''minio''"
    and "inventory_complete (inventory_tasks m)" and "\<forall>key \<in> set required_evidence. \<exists>ns. check_gate env m key = Inr ns"
    and "check_gate env m ''feature_regression'' = Inr names" and "\<forall>item \<in> set (inventory_tasks m). item_failures names item = []"
proof -
  define verified where "verified = (case check_gate env m ''feature_regression'' of Inl _ \<Rightarrow> [] | Inr names \<Rightarrow> names)"
  from assms have m: "is_dict m" "jget ''artifact_backend'' m = JString ''minio''" "inventory_complete (inventory_tasks m)"
    and items: "\<forall>item \<in> set (inventory_tasks m). item_failures verified item = []"
    and accepted: "\<forall>key \<in> set required_evidence. \<forall>e. check_gate env m key \<noteq> Inl e"
    by (auto simp: violations_def verified_def Let_def concat_empty split: if_splits sum.splits)
  have gates: "\<forall>key \<in> set required_evidence. \<exists>ns. check_gate env m key = Inr ns"
  proof
    fix key assume "key \<in> set required_evidence"
    with accepted show "\<exists>ns. check_gate env m key = Inr ns" by (cases "check_gate env m key") auto
  qed
  have "''feature_regression'' \<in> set required_evidence" by (simp add: required_evidence_def test_gates_def)
  with gates obtain names where names: "check_gate env m ''feature_regression'' = Inr names" by blast
  then have "verified = names" by (simp add: verified_def)
  with m gates names items show thesis by (intro that) simp_all
qed

text \<open>
  C23. A release is only let through on evidence. When the gate reports no violation, the inventory
  holds each of its 43 items exactly once and every item has an accepted disposition; each test gate
  has a report with the declared digest in which nothing failed, was in error or was skipped, with at
  least one required case, all of them executed and passed; each operational gate has a report with
  the declared digest whose measurements keep the accepted requirements and every bound of the
  policy; and each migrated item names cases that were executed and passed in the report of the
  feature regression.
\<close>
theorem release_needs_evidence:
  assumes "violations env m = []"
  shows "is_dict m \<and> jget ''artifact_backend'' m = JString ''minio'' \<and>
    list_all is_dict (inventory_tasks m) \<and> distinct (map (jget ''id'') (inventory_tasks m)) \<and>
    set (map (jget ''id'') (inventory_tasks m)) = JString ` set inventory_ids \<and>
    (\<forall>key \<in> set test_gates. \<exists>content names. file_matches env (jget key (jget ''evidence'' m)) content \<and> names \<noteq> [] \<and>
       (\<forall>n \<in> set names. case_ran env content n)) \<and>
    (\<forall>key \<in> {''gpu_capacity'', ''offhost_restore'', ''celery_drained''}.
       \<exists>content policy. file_matches env (jget key (jget ''evidence'' m)) content \<and> check_policy env m = Inr policy \<and>
         measured_well env key content policy) \<and>
    (\<exists>content. file_matches env (jget ''feature_regression'' (jget ''evidence'' m)) content \<and>
       (\<forall>item \<in> set (inventory_tasks m).
          item_settled env content item))"
proof -
  from assms obtain names where m: "is_dict m" "jget ''artifact_backend'' m = JString ''minio''"
    and inv: "inventory_complete (inventory_tasks m)"
    and gates: "\<forall>key \<in> set required_evidence. \<exists>ns. check_gate env m key = Inr ns"
    and names: "check_gate env m ''feature_regression'' = Inr names"
    and items: "\<forall>item \<in> set (inventory_tasks m). item_failures names item = []"
    by (rule no_violation)
  from inventory_exact [OF inv] have e: "list_all is_dict (inventory_tasks m)" "distinct (map (jget ''id'') (inventory_tasks m))"
    "set (map (jget ''id'') (inventory_tasks m)) = JString ` set inventory_ids" by simp_all
  have t: "\<forall>key \<in> set test_gates. \<exists>content names. file_matches env (jget key (jget ''evidence'' m)) content \<and> names \<noteq> [] \<and>
      (\<forall>n \<in> set names. case_ran env content n)"
  proof
    fix key assume k: "key \<in> set test_gates"
    then have "key \<in> set required_evidence" by (simp add: required_evidence_def)
    then obtain ns where "check_gate env m key = Inr ns" using gates by blast
    from check_gate_tests [OF this k] show "\<exists>content names. file_matches env (jget key (jget ''evidence'' m)) content \<and>
      names \<noteq> [] \<and> (\<forall>n \<in> set names. case_ran env content n)" by blast
  qed
  have o: "\<forall>key \<in> {''gpu_capacity'', ''offhost_restore'', ''celery_drained''}.
    \<exists>content policy. file_matches env (jget key (jget ''evidence'' m)) content \<and> check_policy env m = Inr policy \<and>
         measured_well env key content policy"
  proof
    fix key assume "key \<in> {''gpu_capacity'', ''offhost_restore'', ''celery_drained''}"
    then have k: "key \<in> set required_evidence" "key \<notin> set test_gates" by (auto simp: required_evidence_def test_gates_def)
    then obtain ns where "check_gate env m key = Inr ns" using gates by blast
    from check_gate_measures [OF this k(2)] show "\<exists>content policy. file_matches env (jget key (jget ''evidence'' m)) content \<and>
      check_policy env m = Inr policy \<and> measured_well env key content policy" .
  qed
  obtain content where content: "file_matches env (jget ''feature_regression'' (jget ''evidence'' m)) content"
    and ran: "\<forall>n \<in> set names. case_ran env content n"
    using check_gate_tests [OF names] by (auto simp: test_gates_def)
  have "item_settled env content item" if i: "item \<in> set (inventory_tasks m)" for item
    using item_ok [OF bspec [OF items i]] i e(1) ran unfolding item_settled_def list_all_iff by (meson subsetD)
  with content have i: "\<exists>content. file_matches env (jget ''feature_regression'' (jget ''evidence'' m)) content \<and>
    (\<forall>item \<in> set (inventory_tasks m). item_settled env content item)" by blast
  show ?thesis by (intro conjI m e t o i)
qed

definition demo_digest :: string where
  "demo_digest = replicate 64 (CHR ''a'')"

definition demo_capacity :: json where
  "demo_capacity = JDict [(''profile_id'', JString ''p''), (''fingerprint_sha256'', JString demo_digest)]"

definition demo_bound :: json where
  "demo_bound = JDict [(''unit'', JString ''1''), (''minimum'', JInt 0)]"

definition demo_limits :: "string \<Rightarrow> (string \<times> json) list" where
  "demo_limits key = map (\<lambda>(metric, _). (metric, demo_bound)) (required_measurements key)"

definition demo_measured :: "string \<Rightarrow> (string \<times> json) list" where
  "demo_measured key = map (\<lambda>(metric, lo, hi). (metric, JInt (if lo = Some 1 then 1 else 0))) (required_measurements key)"

definition demo_document :: "string \<Rightarrow> json" where
  "demo_document name =
     JDict ([(''schema_version'', JInt 1), (''production_capacity_profile'', demo_capacity)] @
       (if name = ''policy''
        then [(''source'', JString ''s''),
          (''gates'', JDict (map (\<lambda>key. (key, JDict (demo_limits key))) [''gpu_capacity'', ''offhost_restore'', ''celery_drained'']))]
        else [(''gate'', JString name), (''status'', JString ''passed''), (''policy_sha256'', JString demo_digest),
          (''measurements'', JDict (demo_measured name))]))"

definition demo_suite :: xml where
  "demo_suite = Element ''testsuite'' [(''tests'', ''1'')] [Element ''testcase'' [(''classname'', ''c''), (''name'', ''t'')] []]"

definition demo_bundle :: gate_env where
  "demo_bundle = \<lparr>ge_file = Some, ge_sha = (\<lambda>_. demo_digest), ge_loads = (\<lambda>name. Some (demo_document name)), ge_decode = Some,
     ge_xml = (\<lambda>_. Some demo_suite), ge_int = (\<lambda>_. Some 1), ge_float = (\<lambda>_. Not_a_number)\<rparr>"

definition demo_reference :: "string \<Rightarrow> (string \<times> json) list" where
  "demo_reference name = [(''report_path'', JString name), (''report_sha256'', JString demo_digest)]"

definition demo_evidence :: "string \<Rightarrow> json" where
  "demo_evidence key = JDict (demo_reference key @ [(''status'', JString ''passed''),
     (''format'', JString (if key \<in> set test_gates then ''junit_xml'' else ''qualification_json'')),
     (''required_testcases'', JList [JString ''c::t''])])"

definition demo_item :: "string \<Rightarrow> json" where
  "demo_item k = JDict [(''id'', JString k), (''disposition'', JString (if k = ''A01'' then ''migrated'' else ''removed'')),
     (''evidence'', JDict [(''gate'', JString ''feature_regression''), (''testcases'', JList [JString ''c::t''])])]"

definition demo_manifest :: json where
  "demo_manifest = JDict [(''artifact_backend'', JString ''minio''), (''production_capacity_profile'', demo_capacity),
     (''qualification_policy'', JDict (demo_reference ''policy'')), (''inventory'', JList (map demo_item inventory_ids)),
     (''evidence'', JDict (map (\<lambda>key. (key, demo_evidence key)) required_evidence))]"

lemma demo_manifest_fields:
  "is_dict demo_manifest" "jget ''artifact_backend'' demo_manifest = JString ''minio''"
  "jget ''production_capacity_profile'' demo_manifest = demo_capacity"
  "inventory_tasks demo_manifest = map demo_item inventory_ids"
  by (simp_all add: demo_manifest_def inventory_tasks_def jget_or_def jlookup_def)

lemma demo_item_fields: "is_dict (demo_item k)" "jget ''id'' (demo_item k) = JString k"
  by (simp_all add: demo_item_def jlookup_def)

lemma demo_inventory: "inventory_complete (map demo_item inventory_ids)"
proof -
  have "length inventory_ids = 43" by (simp add: inventory_ids_def)
  moreover have "map (jget ''id'') (filter is_dict (map demo_item ks)) = map JString ks" for ks
    by (induction ks) (simp_all add: demo_item_fields)
  ultimately show ?thesis
    by (simp add: inventory_complete_def list_all_iff is_str_def the_str_def image_image)
qed

lemma demo_items: "item_failures [''c::t''] (demo_item k) = []"
  by (simp add: item_failures_def check_migration_def case_names_def demo_item_def jlookup_def nonempty_string_def the_str_def)

lemma demo_references:
  "jget ''qualification_policy'' demo_manifest = JDict (demo_reference ''policy'')"
  "key \<in> set required_evidence \<Longrightarrow> jget key (jget ''evidence'' demo_manifest) = demo_evidence key"
proof -
  have keys: "jlookup key (map (\<lambda>key. (key, demo_evidence key)) ks) = Some (demo_evidence key)" if "key \<in> set ks" for ks
    using that unfolding jlookup_def by (induction ks rule: rev_induct) auto
  show "jget ''qualification_policy'' demo_manifest = JDict (demo_reference ''policy'')"
    by (simp add: demo_manifest_def jlookup_def)
  have "jget ''evidence'' demo_manifest = JDict (map (\<lambda>key. (key, demo_evidence key)) required_evidence)"
    by (simp add: demo_manifest_def jlookup_def)
  moreover assume "key \<in> set required_evidence"
  ultimately show "jget key (jget ''evidence'' demo_manifest) = demo_evidence key" by (simp add: keys)
qed

lemma demo_policy: "check_policy demo_bundle demo_manifest = Inr (demo_document ''policy'')"
  unfolding check_policy_def demo_references demo_manifest_fields by code_simp

lemma demo_reports:
  "list_all (\<lambda>key. read_report demo_bundle (demo_evidence key) = Inr key) required_evidence"
  "list_all (\<lambda>key. junit_cases demo_bundle key (jget ''required_testcases'' (demo_evidence key)) = Inr [''c::t'']) test_gates"
  "list_all (\<lambda>key. qualify demo_bundle key key (demo_document ''policy'') (JString demo_digest) demo_capacity = None)
     [''gpu_capacity'', ''offhost_restore'', ''celery_drained'']"
  by code_simp+

lemma demo_evidence_fields:
  "is_dict (demo_evidence key)" "jget ''status'' (demo_evidence key) = JString ''passed''"
  "jget ''format'' (demo_evidence key) = JString (if key \<in> set test_gates then ''junit_xml'' else ''qualification_json'')"
  "jlookup ''report_sha256'' (demo_reference name) = Some (JString demo_digest)"
  by (simp_all add: demo_evidence_def demo_reference_def jlookup_def)

lemma demo_accepted:
  "key \<in> set test_gates \<Longrightarrow> check_gate demo_bundle demo_manifest key = Inr [''c::t'']"
  "key \<in> {''gpu_capacity'', ''offhost_restore'', ''celery_drained''} \<Longrightarrow> check_gate demo_bundle demo_manifest key = Inr []"
  "valid_profile demo_capacity"
proof -
  assume k: "key \<in> set test_gates"
  then have "key \<in> set required_evidence" by (simp add: required_evidence_def)
  with k demo_reports(1,2) show "check_gate demo_bundle demo_manifest key = Inr [''c::t'']"
    by (simp add: check_gate_def demo_references demo_evidence_fields list_all_iff)
next
  assume k: "key \<in> {''gpu_capacity'', ''offhost_restore'', ''celery_drained''}"
  then have "key \<in> set required_evidence" "key \<notin> set test_gates" by (auto simp: required_evidence_def test_gates_def)
  moreover have "qualify demo_bundle key key (demo_document ''policy'') (JString demo_digest) demo_capacity = None"
    using demo_reports(3) k by auto
  ultimately show "check_gate demo_bundle demo_manifest key = Inr []"
    using demo_reports(1) by (simp add: check_gate_def demo_references demo_evidence_fields demo_policy demo_manifest_fields list_all_iff)
next
  show "valid_profile demo_capacity" by code_simp
qed

lemma demo_qualifies: "violations demo_bundle demo_manifest = []"
proof -
  have "check_gate demo_bundle demo_manifest ''feature_regression'' = Inr [''c::t'']"
    by (rule demo_accepted(1)) (simp add: test_gates_def)
  moreover have "\<forall>key \<in> set required_evidence. \<exists>ns. check_gate demo_bundle demo_manifest key = Inr ns"
    using demo_accepted(1,2) by (auto simp: required_evidence_def)
  ultimately show ?thesis
    using demo_accepted(3) demo_inventory
    by (auto simp: violations_def demo_manifest_fields demo_items demo_policy concat_empty split: sum.splits)
qed

theorem release_needs_evidence_witness:
  "\<exists>content. file_matches demo_bundle (jget ''feature_regression'' (jget ''evidence'' demo_manifest)) content \<and>
     (\<forall>item \<in> set (inventory_tasks demo_manifest). item_settled demo_bundle content item)"
  using release_needs_evidence [OF demo_qualifies] by blast

end
