(* ===== verification/Direct_Binding.thy ===== *)
theory Direct_Binding
  imports Api Direct_Routes Admission
begin

text \<open>
  A caller's binding to the runtime (\<open>direct_client.py\<close>): the identity scope, the authentication that
  turns it into headers, and the routing of configured backends to profiles. A parsed URL is what
  the HTTP library makes of its text; texts of instants and durations are arguments.
\<close>

section \<open>The scope\<close>

record inference_scope =
  nf_tenant :: "string option"
  nf_class :: string
  nf_logical :: "string option"
  nf_deadline :: "int option"

definition identity_char :: "char \<Rightarrow> bool" where
  "identity_char ch \<longleftrightarrow> (let n = of_char ch :: nat in 32 < n \<and> n < 127)"

definition valid_identity :: "string \<Rightarrow> bool" where
  "valid_identity t \<longleftrightarrow> t \<noteq> [] \<and> length t \<le> 240 \<and> list_all identity_char t"

definition valid_inference_scope :: "inference_scope \<Rightarrow> bool" where
  "valid_inference_scope sc \<longleftrightarrow>
     (case nf_tenant sc of None \<Rightarrow> True | Some t \<Rightarrow> valid_identity t) \<and>
     nf_class sc \<in> {''qa'', ''user_task'', ''background'', ''maintenance''} \<and>
     (case nf_logical sc of None \<Rightarrow> True | Some l \<Rightarrow> l \<noteq> [] \<and> length l \<le> 200 \<and> list_all logical_char l) \<and>
     (case nf_deadline sc of None \<Rightarrow> True | Some d \<Rightarrow> 0 < d)"

section \<open>The binding\<close>

record parsed_url =
  pu_scheme :: string
  pu_host :: string
  pu_port :: "int option"
  pu_userinfo :: string
  pu_path :: string
  pu_query :: string
  pu_fragment :: string

record direct_binding =
  db_base_url :: string
  db_token :: string
  db_profile :: string

definition profile_char :: "char \<Rightarrow> bool" where
  "profile_char ch \<longleftrightarrow> logical_char ch \<and> ch \<noteq> CHR '':''"

definition valid_profile_name :: "string \<Rightarrow> bool" where
  "valid_profile_name s \<longleftrightarrow> s \<noteq> [] \<and> length s \<le> 128 \<and> list_all profile_char s"

definition valid_binding :: "(string \<Rightarrow> parsed_url) \<Rightarrow> direct_binding \<Rightarrow> bool" where
  "valid_binding url b \<longleftrightarrow>
     (let u = url (db_base_url b) in
      pu_scheme u \<in> {''http'', ''https''} \<and> pu_host u \<noteq> [] \<and> pu_userinfo u = [] \<and> pu_query u = [] \<and> pu_fragment u = [] \<and>
      32 \<le> length (db_token b) \<and> valid_profile_name (db_profile b))"

definition rstrip_slash :: "string \<Rightarrow> string" where
  "rstrip_slash s = rev (dropWhile (\<lambda>ch. ch = CHR ''/'') (rev s))"

definition client_url :: "direct_binding \<Rightarrow> string" where
  "client_url b = rstrip_slash (db_base_url b) @ ''/v1/direct/'' @ db_profile b @ ''/''"

text \<open>The policy of the active admission scope: its mode, cutoff and execution time.\<close>

record dispatch_policy =
  dp_mode :: string
  dp_before :: "int option"
  dp_timeout :: "int option"

definition policy_headers ::
    "(int \<Rightarrow> string) \<Rightarrow> (int \<Rightarrow> string) \<Rightarrow> dispatch_policy option \<Rightarrow> (string \<times> string) list" where
  "policy_headers instant_text seconds_text policy =
     (case policy of None \<Rightarrow> []
      | Some p \<Rightarrow> scope_headers instant_text seconds_text (dp_mode p) (dp_before p) (dp_timeout p))"

text \<open>\<open>auth_flow\<close>: the headers of a request within the binding, or \<open>ValueError\<close>.\<close>

definition auth_flow ::
    "(int \<Rightarrow> string) \<Rightarrow> (int \<Rightarrow> string) \<Rightarrow> parsed_url \<Rightarrow> string \<Rightarrow> inference_scope \<Rightarrow> dispatch_policy option \<Rightarrow> parsed_url \<Rightarrow>
     (http_headers \<times> direct_headers) option" where
  "auth_flow instant_text seconds_text base token sc policy u =
     (if (pu_scheme u, pu_host u, pu_port u) \<noteq> (pu_scheme base, pu_host base, pu_port base) \<or>
       \<not> starts_with (pu_path base) (pu_path u) then None
      else case nf_tenant sc of
          None \<Rightarrow> None
        | Some identity \<Rightarrow>
            (let hs = policy_headers instant_text seconds_text policy in
             Some (\<lparr>hd_authorization = ''Bearer '' @ token, hd_tenant = identity\<rparr>,
               \<lparr>dh_workload = Some (nf_class sc), dh_logical = nf_logical sc,
                dh_deadline = map_option (\<lambda>d. decimal (nat (min d 86400))) (nf_deadline sc),
                dh_mode = map_of hs ''X-Intramind-Admission-Mode'',
                dh_cutoff = map_of hs ''X-Intramind-Dispatch-Before'',
                dh_timeout = map_of hs ''X-Intramind-Step-Timeout-Seconds''\<rparr>)))"

section \<open>Routing\<close>

record llm_route =
  lr_base_url :: string
  lr_model :: string
  lr_profile :: string

record direct_routing =
  dg_enabled :: bool
  dg_embedding :: string
  dg_rerank :: string
  dg_routes :: "llm_route list"

definition route_key :: "llm_route \<Rightarrow> string \<times> string" where
  "route_key r = (rstrip_slash (lr_base_url r), lr_model r)"

definition valid_routing :: "direct_routing \<Rightarrow> bool" where
  "valid_routing g \<longleftrightarrow> distinct (map route_key (dg_routes g)) \<and> list_all (\<lambda>r. valid_profile_name (lr_profile r)) (dg_routes g)"

text \<open>No binding when routing is off; \<open>Inl\<close> is a \<open>ValueError\<close>.\<close>

definition native_binding :: "direct_routing \<Rightarrow> string \<Rightarrow> string \<Rightarrow> string \<Rightarrow> unit + direct_binding option" where
  "native_binding g kind base_url token =
     (if \<not> dg_enabled g then Inr None
      else
        (let profile = (if kind = ''embedding'' then dg_embedding g else if kind = ''rerank'' then dg_rerank g else []) in
         if profile = [] then Inl ()
         else Inr (Some \<lparr>db_base_url = base_url, db_token = token, db_profile = profile\<rparr>)))"

record llm_config =
  lc_enabled :: bool
  lc_provider :: string
  lc_base_url :: string
  lc_model :: "string option"

definition llm_binding :: "direct_routing \<Rightarrow> llm_config \<Rightarrow> string \<Rightarrow> string \<Rightarrow> unit + direct_binding option" where
  "llm_binding g c base_url token =
     (if \<not> dg_enabled g \<or> \<not> lc_enabled c then Inr None
      else if lc_provider c \<noteq> ''openai'' then Inl ()
      else case find (\<lambda>r. rstrip_slash (lr_base_url r) = rstrip_slash (lc_base_url c) \<and> Some (lr_model r) = lc_model c) (dg_routes g) of
          None \<Rightarrow> Inl ()
        | Some r \<Rightarrow> Inr (Some \<lparr>db_base_url = base_url, db_token = token, db_profile = lr_profile r\<rparr>))"

section \<open>What the runtime reads\<close>

lemma workload_class_named: "s \<in> {''qa'', ''user_task'', ''background'', ''maintenance''} \<Longrightarrow> workload_named s \<noteq> None"
  by (auto simp: workload_named_def)

lemma policy_fields:
  "map_of (policy_headers it st (Some p)) ''X-Intramind-Admission-Mode'' = Some (dp_mode p)"
  "map_of (policy_headers it st (Some p)) ''X-Intramind-Dispatch-Before'' = map_option it (dp_before p)"
  "map_of (policy_headers it st (Some p)) ''X-Intramind-Step-Timeout-Seconds'' = map_option st (dp_timeout p)"
  by (simp_all add: policy_headers_def scope_headers_def split: option.splits)

lemma deadline_read:
  assumes "0 < d"
  shows "deadline_header (h\<lparr>dh_deadline := Some (decimal (nat (min d 86400)))\<rparr>) = Some (Some (min d 86400))"
proof -
  have "nat (min d 86400) < 10 ^ 20" by simp
  then have "length (decimal (nat (min d 86400))) \<le> 20" by (rule decimal_length) simp
  with assms show ?thesis by (simp add: deadline_header_def decimal_digits decimal_value)
qed

text \<open>The headers a policy asks for are readable when the texts of its instant and duration are.\<close>

definition readable_policy ::
    "(int \<Rightarrow> string) \<Rightarrow> (int \<Rightarrow> string) \<Rightarrow> (string \<Rightarrow> int option) \<Rightarrow> (string \<Rightarrow> int option) \<Rightarrow> dispatch_policy \<Rightarrow> bool" where
  "readable_policy instant_text seconds_text utc_instant finite_float p \<longleftrightarrow>
     valid_scope (dp_mode p) (map_option Aware (dp_before p)) (dp_timeout p) \<and>
     (case dp_before p of None \<Rightarrow> True
      | Some t \<Rightarrow> length (instant_text t) \<le> 64 \<and> utc_instant (instant_text t) = Some t) \<and>
     (case dp_timeout p of None \<Rightarrow> True
      | Some t \<Rightarrow> length (seconds_text t) \<le> 64 \<and> finite_float (seconds_text t) = Some t)"

lemma policy_read:
  assumes "readable_policy it st ui ff p"
    and "dh_mode d = Some (dp_mode p)" and "dh_cutoff d = map_option it (dp_before p)" and "dh_timeout d = map_option st (dp_timeout p)"
  shows "admission_header ui ff d cls =
    (if dp_mode p = ''try'' \<and> cls \<noteq> Background then None
     else Some \<lparr>ao_mode = (if dp_mode p = ''try'' then Try else Wait), ao_before = dp_before p, ao_timeout = dp_timeout p\<rparr>)"
  using assms by (auto simp: admission_header_def readable_policy_def valid_scope_def split: option.splits)


definition demo_scope :: inference_scope where
  "demo_scope = \<lparr>nf_tenant = Some ''t'', nf_class = ''background'', nf_logical = Some ''r1'', nf_deadline = Some 100000\<rparr>"

definition demo_url :: parsed_url where
  "demo_url = \<lparr>pu_scheme = ''http'', pu_host = ''h'', pu_port = None, pu_userinfo = [], pu_path = ''/v1/'', pu_query = [], pu_fragment = []\<rparr>"

definition demo_policy :: dispatch_policy where
  "demo_policy = \<lparr>dp_mode = ''try'', dp_before = Some 7, dp_timeout = None\<rparr>"


text \<open>A validated routing names at most one profile for a backend and model, whatever the order of its routes.\<close>

lemma llm_binding_unique:
  assumes "valid_routing g" and "r \<in> set (dg_routes g)" and "dg_enabled g" and "lc_enabled c" and "lc_provider c = ''openai''"
    and "route_key r = (rstrip_slash (lc_base_url c), m)" and "lc_model c = Some m"
  shows "llm_binding g c base_url token = Inr (Some \<lparr>db_base_url = base_url, db_token = token, db_profile = lr_profile r\<rparr>)"
proof -
  have "find (\<lambda>r. rstrip_slash (lr_base_url r) = rstrip_slash (lc_base_url c) \<and> Some (lr_model r) = lc_model c) rs = Some r"
    if "distinct (map route_key rs)" "r \<in> set rs" for rs
    using that assms(6,7) by (induction rs) (auto simp: route_key_def image_iff)
  with assms show ?thesis by (simp add: llm_binding_def valid_routing_def)
qed

end
