(* ===== verification/Profiles.thy ===== *)
theory Profiles
  imports Direct_Routes
begin

text \<open>
  From the pool configuration to what a process serves (\<open>cli.py\<close>): the sizing, speech, embedding and
  rerank contracts, the direct endpoints, the drivers and workers of an executor. \<open>None\<close> is an
  exception: the process does not start. The admission record of a pool is what \<open>parse_pool\<close> makes
  of it; HTTP clients and keys are not modelled.
\<close>

section \<open>The configuration\<close>

record qualification =
  ql_profile_id :: string
  ql_contract :: string

record prompt_sizing =
  pz_profile_id :: string
  pz_token_margin :: int
  pz_expected_output :: int
  pz_response_formats :: "string list"
  pz_allow_tools :: bool

record speech_qualification = qualification +
  qs_sample_rate :: int
  qs_max_audio_bytes :: int
  qs_voices :: "string list"

record embedding_qualification = qualification +
  qe_model :: string
  qe_dimension :: int
  qe_max_text :: int
  qe_max_response_bytes :: int

record rerank_qualification = qualification +
  qr_max_response_bytes :: int

record pool_config =
  pg_kind :: "string option"            \<comment> \<open>\<open>admission["kind"]\<close>\<close>
  pg_spec :: "pool_spec option"         \<comment> \<open>the validated admission record\<close>
  pg_base_url :: string
  pg_model :: "string option"
  pg_sizing :: "prompt_sizing option"
  pg_speech :: "speech_qualification option"
  pg_embedding :: "embedding_qualification option"
  pg_rerank :: "rerank_qualification option"
  pg_direct :: json                      \<comment> \<open>\<open>direct_enabled\<close>, \<open>False\<close> when absent\<close>
  pg_timeout :: int
  pg_deadlines :: "(workload_class \<times> int) list"

record rerank_contract = rerank_profile +
  rc_model_profile :: string
  rc_capacity_profile :: string
  rc_model_revision :: string
  rc_max_response_bytes :: int

section \<open>Contracts of the profiles\<close>

definition valid_speech_profile :: "speech_profile \<Rightarrow> bool" where
  "valid_speech_profile pf \<longleftrightarrow> spf_model_profile pf \<noteq> [] \<and> spf_capacity_profile pf \<noteq> [] \<and>
     0 < spf_character_limit pf \<and> spf_character_limit pf \<le> 100000 \<and> 0 < spf_sample_rate pf \<and>
     44 < spf_max_audio_bytes pf \<and> spf_max_audio_bytes pf \<le> 128 * 1024 * 1024 \<and> spf_voices pf \<noteq> []"

definition valid_embedding_profile :: "embedding_profile \<Rightarrow> bool" where
  "valid_embedding_profile pf \<longleftrightarrow> epf_model_profile pf \<noteq> [] \<and> epf_capacity_profile pf \<noteq> [] \<and> epf_model pf \<noteq> [] \<and>
     valid_revision (epf_model_revision pf) \<and> 0 < epf_dimension pf \<and> epf_dimension pf \<le> 16384 \<and>
     0 < epf_max_batch pf \<and> epf_max_batch pf \<le> 256 \<and> 0 < epf_character_limit pf \<and> epf_character_limit pf \<le> 1000000 \<and>
     0 < epf_max_text pf \<and> epf_max_text pf \<le> 1000000 \<and> 0 < epf_max_response_bytes pf \<and> epf_max_response_bytes pf \<le> 16 * 1024 * 1024"

definition valid_rerank_contract :: "rerank_contract \<Rightarrow> bool" where
  "valid_rerank_contract pf \<longleftrightarrow> rc_model_profile pf \<noteq> [] \<and> rc_capacity_profile pf \<noteq> [] \<and>
     valid_revision (rc_model_revision pf) \<and> 0 < rkp_character_limit pf \<and> rkp_character_limit pf \<le> 1000000 \<and>
     0 < rkp_max_batch pf \<and> rkp_max_batch pf \<le> 256 \<and> 0 < rc_max_response_bytes pf \<and> rc_max_response_bytes pf \<le> 16 * 1024 * 1024"

text \<open>The common loop: a pool adds nothing, or one entry for its model profile, which must be new.\<close>

fun collect :: "('p \<Rightarrow> (string \<times> 'v) option option) \<Rightarrow> 'p list \<Rightarrow> (string \<times> 'v) list \<Rightarrow> (string \<times> 'v) list option" where
  "collect f [] found = Some found"
| "collect f (p # ps) found =
     (case f p of
        None \<Rightarrow> None
      | Some None \<Rightarrow> collect f ps found
      | Some (Some (k, v)) \<Rightarrow> if k \<in> fst ` set found then None else collect f ps (found @ [(k, v)]))"

definition termination_contract :: string where
  "termination_contract = ''termination-v1''"

definition contract_matches :: "pool_spec \<Rightarrow> ('a qualification_scheme) option \<Rightarrow> bool" where
  "contract_matches s q \<longleftrightarrow> (case q of None \<Rightarrow> False | Some q \<Rightarrow> ql_profile_id q = ps_profile_id s \<and> ql_contract q = termination_contract)"

definition sizer_entry :: "pool_config \<Rightarrow> (string \<times> sizer) option option" where
  "sizer_entry p =
     (if pg_kind p \<notin> {None, Some ''llm''} then Some None
      else case pg_sizing p of
          None \<Rightarrow> Some None
        | Some z \<Rightarrow>
            (case (pg_spec p, pg_model p) of
               (Some s, Some model) \<Rightarrow>
                 (let sizer = \<lparr>sz_model = model, sz_profile_id = ps_profile_id s, sz_context_limit = request_limit s,
                    sz_token_margin = pz_token_margin z, sz_expected_output = pz_expected_output z,
                    sz_response_formats = pz_response_formats z, sz_allow_tools = pz_allow_tools z\<rparr> in
                  if pz_profile_id z \<noteq> ps_profile_id s \<or> \<not> valid_sizer sizer then None
                  else Some (Some (ps_model_profile s, sizer)))
             | _ \<Rightarrow> None))"

definition speech_entry :: "pool_config \<Rightarrow> (string \<times> speech_profile) option option" where
  "speech_entry p =
     (case pg_spec p of
        None \<Rightarrow> None
      | Some s \<Rightarrow>
          (case ps_body s of
             SpeechPool n \<Rightarrow>
               (if \<not> contract_matches s (pg_speech p) then None
                else
                  (let q = the (pg_speech p);
                       pf = \<lparr>spf_model_profile = ps_model_profile s, spf_capacity_profile = ps_profile_id s, spf_character_limit = n,
                         spf_sample_rate = qs_sample_rate q, spf_max_audio_bytes = qs_max_audio_bytes q, spf_voices = qs_voices q\<rparr> in
                   if valid_speech_profile pf then Some (Some (ps_model_profile s, pf)) else None))
           | _ \<Rightarrow> Some None))"

definition embedding_entry :: "pool_config \<Rightarrow> (string \<times> embedding_profile) option option" where
  "embedding_entry p =
     (case pg_spec p of
        None \<Rightarrow> None
      | Some s \<Rightarrow>
          (case ps_body s of
             EmbeddingPool n b \<Rightarrow>
               (if \<not> contract_matches s (pg_embedding p) then None
                else
                  (let q = the (pg_embedding p);
                       pf = \<lparr>epf_model_profile = ps_model_profile s, epf_capacity_profile = ps_profile_id s, epf_model = qe_model q,
                         epf_model_revision = ps_model_revision s, epf_dimension = qe_dimension q, epf_max_batch = b,
                         epf_character_limit = n, epf_max_text = qe_max_text q, epf_max_response_bytes = qe_max_response_bytes q\<rparr> in
                   if valid_embedding_profile pf then Some (Some (ps_model_profile s, pf)) else None))
           | _ \<Rightarrow> Some None))"

definition rerank_entry :: "pool_config \<Rightarrow> (string \<times> rerank_contract) option option" where
  "rerank_entry p =
     (case pg_spec p of
        None \<Rightarrow> None
      | Some s \<Rightarrow>
          (case ps_body s of
             RerankPool n b \<Rightarrow>
               (if \<not> contract_matches s (pg_rerank p) then None
                else
                  (let pf = \<lparr>rkp_character_limit = n, rkp_max_batch = b, rc_model_profile = ps_model_profile s,
                         rc_capacity_profile = ps_profile_id s, rc_model_revision = ps_model_revision s,
                         rc_max_response_bytes = qr_max_response_bytes (the (pg_rerank p))\<rparr> in
                   if valid_rerank_contract pf then Some (Some (ps_model_profile s, pf)) else None))
           | _ \<Rightarrow> Some None))"

definition preparers :: "pool_config list \<Rightarrow> (string \<times> sizer) list option" where
  "preparers ps = collect sizer_entry ps []"

definition speech_profiles :: "pool_config list \<Rightarrow> (string \<times> speech_profile) list option" where
  "speech_profiles ps = collect speech_entry ps []"

definition embedding_profiles :: "pool_config list \<Rightarrow> (string \<times> embedding_profile) list option" where
  "embedding_profiles ps = collect embedding_entry ps []"

definition rerank_profiles :: "pool_config list \<Rightarrow> (string \<times> rerank_contract) list option" where
  "rerank_profiles ps = collect rerank_entry ps []"

section \<open>Direct endpoints\<close>

datatype direct_contract =
    Sized_contract sizer
  | Embedding_contract embedding_profile
  | Rerank_contract rerank_contract

record direct_endpoint =
  de_spec :: pool_spec
  de_contract :: direct_contract
  de_proxy :: proxy_config

text \<open>The proxy's deadlines: the defaults, replaced by the configured ones in turn.\<close>

definition endpoint_deadline :: "int \<Rightarrow> (workload_class \<times> int) list \<Rightarrow> workload_class \<Rightarrow> int" where
  "endpoint_deadline timeout configured cls =
     (case map_of (rev configured) cls of Some t \<Rightarrow> t | None \<Rightarrow> default_workload_deadline timeout cls)"

definition endpoint_proxy :: "pool_config \<Rightarrow> pool_spec \<Rightarrow> proxy_config option" where
  "endpoint_proxy p s =
     (if \<not> valid_attempt_timeout (pg_timeout p) \<or> \<not> list_all (\<lambda>(_, t). valid_attempt_timeout t) (pg_deadlines p) then None
      else Some \<lparr>pc_model = (case pg_model p of Some m \<Rightarrow> if m = [] then ps_model_revision s else m | None \<Rightarrow> ps_model_revision s),
        pc_timeout = pg_timeout p, pc_workload_deadline = endpoint_deadline (pg_timeout p) (pg_deadlines p)\<rparr>)"

definition endpoint_contract ::
    "(string \<times> sizer) list \<Rightarrow> (string \<times> embedding_profile) list \<Rightarrow> (string \<times> rerank_contract) list \<Rightarrow> pool_config \<Rightarrow> pool_spec \<Rightarrow>
     direct_contract option" where
  "endpoint_contract sizing embeddings rerankers p s =
     (case ps_body s of
        LlmPool _ \<Rightarrow>
          (case map_of sizing (ps_model_profile s) of
             None \<Rightarrow> None
           | Some z \<Rightarrow> if sz_profile_id z = ps_profile_id s \<and> Some (sz_model z) = pg_model p then Some (Sized_contract z) else None)
      | EmbeddingPool _ _ \<Rightarrow> map_option Embedding_contract (map_of embeddings (ps_model_profile s))
      | RerankPool _ _ \<Rightarrow> map_option Rerank_contract (map_of rerankers (ps_model_profile s))
      | SpeechPool _ \<Rightarrow> None)"

definition direct_entry ::
    "(string \<times> sizer) list \<Rightarrow> (string \<times> embedding_profile) list \<Rightarrow> (string \<times> rerank_contract) list \<Rightarrow> pool_config \<Rightarrow>
     (string \<times> direct_endpoint) option option" where
  "direct_entry sizing embeddings rerankers p =
     (case pg_direct p of
        JBool False \<Rightarrow> Some None
      | JBool True \<Rightarrow>
          (case pg_spec p of
             None \<Rightarrow> None
           | Some s \<Rightarrow>
               (case (endpoint_contract sizing embeddings rerankers p s, endpoint_proxy p s) of
                  (Some c, Some pc) \<Rightarrow> Some (Some (ps_model_profile s, \<lparr>de_spec = s, de_contract = c, de_proxy = pc\<rparr>))
                | _ \<Rightarrow> None))
      | _ \<Rightarrow> None)"

definition direct_endpoints :: "pool_config list \<Rightarrow> (string \<times> sizer) list \<Rightarrow> (string \<times> direct_endpoint) list option" where
  "direct_endpoints ps sizing =
     (case (embedding_profiles ps, rerank_profiles ps) of
        (Some embeddings, Some rerankers) \<Rightarrow> collect (direct_entry sizing embeddings rerankers) ps []
      | _ \<Rightarrow> None)"

section \<open>Executors\<close>

datatype driver_choice =
    Completion_driver string
  | Speech_driver speech_profile
  | Embedding_driver embedding_profile

definition engine_driver ::
    "(string \<times> speech_profile) list \<Rightarrow> (string \<times> embedding_profile) list \<Rightarrow> pool_config \<Rightarrow> driver_choice option" where
  "engine_driver speech embeddings p =
     (case pg_spec p of
        None \<Rightarrow> None
      | Some s \<Rightarrow>
          (case ps_body s of
             RerankPool _ _ \<Rightarrow> None
           | EmbeddingPool _ _ \<Rightarrow> map_option Embedding_driver (map_of embeddings (ps_model_profile s))
           | SpeechPool _ \<Rightarrow> map_option Speech_driver (map_of speech (ps_model_profile s))
           | LlmPool _ \<Rightarrow> map_option Completion_driver (pg_model p)))"

definition executor_workers :: "int \<Rightarrow> pool_spec \<Rightarrow> int" where
  "executor_workers executor_count s =
     min executor_count (if pool_kind s = Llm then ps_background_transport_limit s else max 1 (ps_target s))"

text \<open>The workers of an executor process: a driver and a number of loops for each pool.\<close>

fun executor_pools ::
    "int \<Rightarrow> (string \<times> speech_profile) list \<Rightarrow> (string \<times> embedding_profile) list \<Rightarrow> pool_config list \<Rightarrow>
     (pool_spec \<times> driver_choice \<times> int) list option" where
  "executor_pools n speech embeddings [] = Some []"
| "executor_pools n speech embeddings (p # ps) =
     (if pg_kind p = Some ''rerank'' then executor_pools n speech embeddings ps
      else case (pg_spec p, engine_driver speech embeddings p) of
          (Some s, Some d) \<Rightarrow> map_option ((#) (s, d, executor_workers n s)) (executor_pools n speech embeddings ps)
        | _ \<Rightarrow> None)"

definition start_executor :: "int \<Rightarrow> pool_config list \<Rightarrow> (pool_spec \<times> driver_choice \<times> int) list option" where
  "start_executor n ps =
     (case (speech_profiles ps, embedding_profiles ps) of
        (Some speech, Some embeddings) \<Rightarrow> executor_pools n speech embeddings ps
      | _ \<Rightarrow> None)"

text \<open>
  \<open>reject_stale_engine_epochs\<close>: \<open>timestamp\<close> reads a text, \<open>started_at\<close> is what the container
  runtime knows of the pool's host.
\<close>

fun epochs_current :: "(string \<Rightarrow> py_datetime option) \<Rightarrow> (string \<Rightarrow> string option) \<Rightarrow> (string \<times> string) list \<Rightarrow> bool" where
  "epochs_current timestamp started_at [] = True"
| "epochs_current timestamp started_at ((epoch, host) # ps) =
     ((case (if host = [] then None else started_at host) of
         None \<Rightarrow> True
       | Some started \<Rightarrow> started = [] \<or> \<not> epoch_lags_engine (timestamp epoch) (timestamp started)) \<and>
      epochs_current timestamp started_at ps)"

section \<open>Facts\<close>

lemma collect_ok:
  assumes "collect f ps found = Some result" and "distinct (map fst found)"
    and "\<forall>(k, v) \<in> set found. Q k v" and "\<forall>p \<in> set ps. \<forall>k v. f p = Some (Some (k, v)) \<longrightarrow> Q k v"
  shows "distinct (map fst result) \<and> (\<forall>(k, v) \<in> set result. Q k v) \<and> set found \<subseteq> set result \<and>
    (\<forall>p \<in> set ps. f p \<noteq> None \<and> (\<forall>k v. f p = Some (Some (k, v)) \<longrightarrow> (k, v) \<in> set result))"
  using assms
proof (induction f ps found rule: collect.induct)
  case (2 f p ps found)
  consider "f p = None" | "f p = Some None" | k v where "f p = Some (Some (k, v))"
    by (cases "f p") (auto, metis not_None_eq prod.collapse)
  then show ?case
  proof cases
    case (3 k v)
    with "2.prems"(1) have new: "k \<notin> fst ` set found" and rest: "collect f ps (found @ [(k, v)]) = Some result"
      by (simp_all split: if_splits)
    have "Q k v" using "2.prems"(4) 3 by simp
    with "2.IH"(2) [OF 3 refl refl new rest] new "2.prems"(2-4) 3 show ?thesis by auto
  qed (use 2 in auto)
qed simp

lemma collect_entries:
  assumes "collect f ps [] = Some result"
  shows "distinct (map fst result)" and "p \<in> set ps \<Longrightarrow> f p \<noteq> None"
    and "p \<in> set ps \<Longrightarrow> f p = Some (Some (k, v)) \<Longrightarrow> map_of result k = Some v"
    and "(k, v) \<in> set result \<Longrightarrow> \<exists>p \<in> set ps. f p = Some (Some (k, v))"
proof -
  have Q: "\<forall>p \<in> set ps. \<forall>k v. f p = Some (Some (k, v)) \<longrightarrow> (\<exists>p \<in> set ps. f p = Some (Some (k, v)))" by blast
  note ok = collect_ok [OF assms _ _ Q]
  show d: "distinct (map fst result)" using ok by simp
  show "p \<in> set ps \<Longrightarrow> f p \<noteq> None" using ok by simp
  show "p \<in> set ps \<Longrightarrow> f p = Some (Some (k, v)) \<Longrightarrow> map_of result k = Some v" using ok d by simp
  show "(k, v) \<in> set result \<Longrightarrow> \<exists>p \<in> set ps. f p = Some (Some (k, v))" using ok by fastforce
qed

text \<open>What an endpoint's contract lets through fits its pool.\<close>

definition contract_fits :: "pool_spec \<Rightarrow> direct_contract \<Rightarrow> bool" where
  "contract_fits s c \<longleftrightarrow>
     (case c of
        Sized_contract z \<Rightarrow> pool_kind s = Llm \<and> sz_profile_id z = ps_profile_id s
      | Embedding_contract pf \<Rightarrow> pool_kind s = Embedding \<and> valid_embedding_profile pf \<and> epf_capacity_profile pf = ps_profile_id s \<and>
          epf_model_revision pf = ps_model_revision s \<and> epf_character_limit pf = request_limit s \<and> epf_max_batch pf = max_batch_size s 1
      | Rerank_contract pf \<Rightarrow> pool_kind s = Rerank \<and> valid_rerank_contract pf \<and> rc_capacity_profile pf = ps_profile_id s \<and>
          rc_model_revision pf = ps_model_revision s \<and> rkp_character_limit pf = request_limit s \<and> rkp_max_batch pf = max_batch_size s 1)"

lemma endpoint_contract_fits:
  assumes "embedding_profiles ps = Some embeddings" and "rerank_profiles ps = Some rerankers"
    and "p \<in> set ps" and "pg_spec p = Some s" and "endpoint_contract sizing embeddings rerankers p s = Some c"
  shows "contract_fits s c"
proof (cases "ps_body s")
  case (LlmPool n)
  with assms(5) show ?thesis by (auto simp: endpoint_contract_def contract_fits_def split: option.splits if_splits)
next
  case (SpeechPool n)
  with assms(5) show ?thesis by (simp add: endpoint_contract_def)
next
  case (EmbeddingPool n b)
  note es = assms(1) [unfolded embedding_profiles_def]
  have "embedding_entry p \<noteq> None" by (rule collect_entries(2) [OF es assms(3)])
  with assms(4) EmbeddingPool obtain pf where pf: "embedding_entry p = Some (Some (ps_model_profile s, pf))"
    and v: "valid_embedding_profile pf" "epf_capacity_profile pf = ps_profile_id s" "epf_model_revision pf = ps_model_revision s"
      "epf_character_limit pf = n" "epf_max_batch pf = b"
    by (auto simp: embedding_entry_def Let_def split: if_splits)
  from collect_entries(3) [OF es assms(3) pf] assms(5) EmbeddingPool v show ?thesis
    by (auto simp: endpoint_contract_def contract_fits_def)
next
  case (RerankPool n b)
  note es = assms(2) [unfolded rerank_profiles_def]
  have "rerank_entry p \<noteq> None" by (rule collect_entries(2) [OF es assms(3)])
  with assms(4) RerankPool obtain pf where pf: "rerank_entry p = Some (Some (ps_model_profile s, pf))"
    and v: "valid_rerank_contract pf" "rc_capacity_profile pf = ps_profile_id s" "rc_model_revision pf = ps_model_revision s"
      "rkp_character_limit pf = n" "rkp_max_batch pf = b"
    by (auto simp: rerank_entry_def Let_def split: if_splits)
  from collect_entries(3) [OF es assms(3) pf] assms(5) RerankPool v show ?thesis
    by (auto simp: endpoint_contract_def contract_fits_def)
qed

lemma deadline_valid:
  assumes "valid_attempt_timeout timeout" and "list_all (\<lambda>(_, t). valid_attempt_timeout t) configured"
  shows "valid_attempt_timeout (endpoint_deadline timeout configured cls)"
proof (cases "map_of (rev configured) cls")
  case None
  with assms(1) show ?thesis
    by (cases cls) (simp_all add: endpoint_deadline_def default_workload_deadline_def valid_attempt_timeout_def seconds_def)
next
  case (Some t)
  then have "(cls, t) \<in> set configured" by (metis map_of_SomeD set_rev)
  with assms(2) Some show ?thesis by (auto simp: endpoint_deadline_def list_all_iff)
qed

lemma embedding_within:
  "embedding_bounds decode pf j = Some (b, n) \<Longrightarrow> b \<le> epf_character_limit pf \<and> n \<le> epf_max_batch pf"
  by (auto simp: embedding_bounds_def validate_embedding_def split: option.splits if_splits)

lemma rerank_within:
  "rerank_bounds decode pf j = Some (b, n) \<Longrightarrow> 0 < rkp_max_batch pf \<Longrightarrow> b \<le> rkp_character_limit pf \<and> n \<le> rkp_max_batch pf"
  by (auto simp: rerank_bounds_def validate_rerank_def rerank_requirement_def Let_def split: option.splits if_splits)

text \<open>Every request the contract of an endpoint lets through is within the pool's limits.\<close>

definition requests_fit :: "pool_spec \<Rightarrow> direct_contract \<Rightarrow> bool" where
  "requests_fit s c \<longleftrightarrow>
     (case c of
        Sized_contract z \<Rightarrow> True
      | Embedding_contract pf \<Rightarrow> (\<forall>decode j b n. embedding_bounds decode pf j = Some (b, n) \<longrightarrow> b \<le> request_limit s \<and> n \<le> max_batch_size s 1)
      | Rerank_contract pf \<Rightarrow>
          (\<forall>decode j b n. rerank_bounds decode (rerank_profile.truncate pf) j = Some (b, n) \<longrightarrow> b \<le> request_limit s \<and> n \<le> max_batch_size s 1))"

lemma contract_requests_fit: "contract_fits s c \<Longrightarrow> requests_fit s c"
  using embedding_within rerank_within
  by (fastforce simp: contract_fits_def requests_fit_def valid_rerank_contract_def rerank_profile.defs split: direct_contract.splits)


definition demo_embedding_pool :: pool_config where
  "demo_embedding_pool =
     \<lparr>pg_kind = Some ''embedding'',
      pg_spec = Some \<lparr>ps_pool_id = ''p'', ps_group_id = ''g'', ps_engine_epoch = ''e'', ps_profile_id = ''c'', ps_model_profile = ''m'',
        ps_model_revision = ''r'', ps_hard_ceiling = 1, ps_target = 1, ps_transport_limit = 2, ps_background_transport_limit = 1,
        ps_valid_until = None, ps_capabilities = {}, ps_body = EmbeddingPool 100 4\<rparr>,
      pg_base_url = ''http://h'', pg_model = None, pg_sizing = None, pg_speech = None,
      pg_embedding = Some \<lparr>ql_profile_id = ''c'', ql_contract = ''termination-v1'', qe_model = ''m'', qe_dimension = 3, qe_max_text = 50,
        qe_max_response_bytes = 1000\<rparr>,
      pg_rerank = None, pg_direct = JBool True, pg_timeout = seconds 30, pg_deadlines = []\<rparr>"


end
