(* ===== verification/Wakeup.thy ===== *)
theory Wakeup
  imports Transitions
begin

text \<open>
  Commit-coupled wakeups (\<open>wakeup.py\<close>) under the polling loop of a process (\<open>repeat\<close> of
  \<open>cli.py\<close>). The stretches between two awaits are the functions; the steps interleave them with the
  commits of other processes, the delivery of notifications and the loss of the connection. The
  flags \<open>wk_unseen\<close> (a commit the loop has not looked at since) and \<open>wk_inflight\<close> (a notification
  PostgreSQL has still to deliver) describe the world around the code.
\<close>

datatype polling = Ticking nat | Waiting nat    \<comment> \<open>with the generation read before the tick\<close>

record wakeup_state =
  wk_generation :: nat
  wk_event :: bool
  wk_listening :: bool
  wk_loop :: polling
  wk_inflight :: bool
  wk_unseen :: bool

definition new_wakeup :: wakeup_state where
  "new_wakeup = \<lparr>wk_generation = 0, wk_event = False, wk_listening = False, wk_loop = Ticking 0, wk_inflight = False, wk_unseen = False\<rparr>"

text \<open>\<open>_signal\<close>, the notification callback.\<close>

definition signal :: "wakeup_state \<Rightarrow> wakeup_state" where
  "signal s = s\<lparr>wk_generation := wk_generation s + 1, wk_event := True\<rparr>"

text \<open>The end of \<open>_listen\<close>'s connection set-up: the listener is added, then a signal.\<close>

definition listen :: "wakeup_state \<Rightarrow> wakeup_state" where
  "listen s = signal (s\<lparr>wk_listening := True\<rparr>)"

definition deliver :: "wakeup_state \<Rightarrow> wakeup_state" where
  "deliver s = signal (s\<lparr>wk_inflight := False\<rparr>)"

text \<open>The head of the loop: the generation is read, then the tick looks at the ledger.\<close>

definition begin_tick :: "wakeup_state \<Rightarrow> wakeup_state" where
  "begin_tick s = s\<lparr>wk_loop := Ticking (wk_generation s), wk_unseen := False\<rparr>"

text \<open>\<open>wait\<close> up to its await: it returns at once when the generation has moved.\<close>

definition wait_for_change :: "nat \<Rightarrow> wakeup_state \<Rightarrow> wakeup_state" where
  "wait_for_change g s =
     (if wk_generation s \<noteq> g then begin_tick s else s\<lparr>wk_event := False, wk_loop := Waiting g\<rparr>)"

text \<open>The end of a tick: work done means another tick, nothing or an exception means waiting.\<close>

definition end_tick :: "bool \<Rightarrow> nat \<Rightarrow> wakeup_state \<Rightarrow> wakeup_state" where
  "end_tick worked g s = (if worked then begin_tick s else wait_for_change g s)"

inductive wakeup_step :: "wakeup_state \<Rightarrow> wakeup_state \<Rightarrow> bool" where
  Commit: "wakeup_step s (s\<lparr>wk_unseen := True, wk_inflight := wk_listening s\<rparr>)"
| Deliver: "wk_inflight s \<Longrightarrow> wakeup_step s (deliver s)"
| Disconnect: "wakeup_step s (s\<lparr>wk_listening := False, wk_inflight := False\<rparr>)"
| Listen: "\<not> wk_listening s \<Longrightarrow> wakeup_step s (listen s)"
| Tick: "wk_loop s = Ticking g \<Longrightarrow> wakeup_step s (end_tick worked g s)"
| Wake: "wk_loop s = Waiting g \<Longrightarrow> wk_event s \<Longrightarrow> wakeup_step s (begin_tick s)"
| Timeout: "wk_loop s = Waiting g \<Longrightarrow> wakeup_step s (begin_tick s)"

fun read_generation :: "polling \<Rightarrow> nat" where
  "read_generation (Ticking g) = g"
| "read_generation (Waiting g) = g"

text \<open>
  A sleeping loop has its event set once the generation moved, and what it has not seen is on its way
  to move the generation, or has.
\<close>

definition wakeup_ok :: "wakeup_state \<Rightarrow> bool" where
  "wakeup_ok s \<longleftrightarrow> read_generation (wk_loop s) \<le> wk_generation s \<and>
     (\<forall>g. wk_loop s = Waiting g \<longrightarrow> g < wk_generation s \<longrightarrow> wk_event s) \<and>
     (wk_inflight s \<longrightarrow> wk_listening s) \<and>
     (wk_unseen s \<longrightarrow> wk_inflight s \<or> \<not> wk_listening s \<or> read_generation (wk_loop s) < wk_generation s)"

lemma wakeup_step_ok: "wakeup_ok s \<Longrightarrow> wakeup_step s t \<Longrightarrow> wakeup_ok t"
  by (erule wakeup_step.cases)
    (auto simp: wakeup_ok_def signal_def listen_def deliver_def begin_tick_def wait_for_change_def end_tick_def)

interpretation wakeup: invariant_system "\<lambda>s. s = new_wakeup" wakeup_step wakeup_ok
proof
  show "wakeup_ok s" if "s = new_wakeup" for s using that by (simp add: new_wakeup_def wakeup_ok_def)
qed (rule wakeup_step_ok)

text \<open>
  C25. No wakeup is lost. In every reachable state in which the loop sleeps although something was
  committed that it has not seen, it is about to look, without waiting for its timeout: its event is
  set, or the notification is still to be delivered, or the connection is down; the delivery and the
  return of the connection set the event, and the loop that wakes sees the commit.
\<close>
theorem no_lost_wakeup:
  assumes "wakeup_step\<^sup>*\<^sup>* new_wakeup s" and "wk_loop s = Waiting g" and "wk_unseen s"
  shows "\<exists>t. (t = s \<or> wk_inflight s \<and> t = deliver s \<or> \<not> wk_listening s \<and> t = listen s) \<and>
    wakeup_step\<^sup>=\<^sup>= s t \<and> wk_loop t = Waiting g \<and> wk_event t \<and>
    wakeup_step t (begin_tick t) \<and> wk_loop (begin_tick t) = Ticking (wk_generation t) \<and> \<not> wk_unseen (begin_tick t)"
proof -
  have "wakeup_ok s" using wakeup.reachable_inv [OF refl assms(1)] .
  with assms(2,3) consider "wk_event s" | "wk_inflight s" | "\<not> wk_listening s"
    by (auto simp: wakeup_ok_def)
  then obtain t where t: "t = s \<or> wk_inflight s \<and> t = deliver s \<or> \<not> wk_listening s \<and> t = listen s"
    and e: "wk_event t" and l: "wk_loop t = wk_loop s"
  proof cases
    case 1
    then show thesis using that [of s] by simp
  next
    case 2
    then show thesis using that [of "deliver s"] by (simp add: deliver_def signal_def)
  next
    case 3
    then show thesis using that [of "listen s"] by (simp add: listen_def signal_def)
  qed
  moreover have "wakeup_step\<^sup>=\<^sup>= s t" using t by (auto intro: wakeup_step.intros)
  moreover have "wakeup_step t (begin_tick t)" using wakeup_step.Wake [of t g] e l assms(2) by simp
  ultimately show ?thesis using assms(2) by (auto simp: begin_tick_def)
qed

definition demo_asleep :: wakeup_state where
  "demo_asleep = \<lparr>wk_generation = 1, wk_event = False, wk_listening = True, wk_loop = Waiting 1, wk_inflight = True, wk_unseen = True\<rparr>"

lemma demo_sleeps: "wakeup_step\<^sup>*\<^sup>* new_wakeup demo_asleep"
proof -
  define s1 where "s1 = listen new_wakeup"
  define s2 where "s2 = end_tick False 0 s1"
  define s3 where "s3 = end_tick False 1 s2"
  note defs = s1_def s2_def s3_def new_wakeup_def listen_def signal_def end_tick_def wait_for_change_def begin_tick_def demo_asleep_def
  have "wakeup_step new_wakeup s1" unfolding s1_def by (rule wakeup_step.Listen) (simp add: new_wakeup_def)
  moreover have "wakeup_step s1 s2" unfolding s2_def by (rule wakeup_step.Tick) (simp add: defs)
  moreover have "wakeup_step s2 s3" unfolding s3_def by (rule wakeup_step.Tick) (simp add: defs)
  moreover have "wakeup_step s3 demo_asleep" using wakeup_step.Commit [of s3] by (simp add: defs)
  ultimately show ?thesis by (meson rtranclp.rtrancl_into_rtrancl rtranclp.rtrancl_refl)
qed

theorem no_lost_wakeup_witness: "\<exists>t. wakeup_step demo_asleep t \<and> wk_event t \<and> \<not> wk_unseen (begin_tick t)"
proof -
  have "wk_loop demo_asleep = Waiting 1" "wk_unseen demo_asleep" "\<not> wk_event demo_asleep" by (simp_all add: demo_asleep_def)
  with no_lost_wakeup [OF demo_sleeps] show ?thesis by fastforce
qed

end
