(* ===== verification/Administration.thy ===== *)
theory Administration
  imports Ledger_Reconcile Buffering
begin

text \<open>
  The operator's tools: \<open>admin.py\<close> (engine maintenance over the ledger, the health of Temporal's worker
  deployments) and \<open>retention_inventory.py\<close> (counts over the tables and the objects). What Temporal
  and the object store answer are arguments; so is the age of a poller, in microseconds.
\<close>

section \<open>Engine maintenance\<close>

datatype engine_command =
    Confirm_stopped string string string bool    \<comment> \<open>pool, epoch, evidence, recover\<close>
  | Quiesce string string string                 \<comment> \<open>pool, epoch, token\<close>
  | Resume string string string
  | Inspect string

datatype engine_report =
    Stopped_report string string int bool
  | View_report engine_view

definition run_engine_command ::
    "(string \<Rightarrow> json option) \<Rightarrow> (string \<Rightarrow> py_datetime option) \<Rightarrow> clocks \<Rightarrow> engine_command \<Rightarrow> ledger \<Rightarrow>
     error + ledger \<times> engine_report" where
  "run_engine_command loads fiso c cmd L =
     (case cmd of
        Confirm_stopped pid epoch evidence recover \<Rightarrow>
          and_then (confirm_epoch_stopped loads fiso c pid epoch evidence recover L) (\<lambda>(L1, settled).
            Inr (L1, Stopped_report pid epoch settled recover))
      | Quiesce pid epoch token \<Rightarrow>
          and_then (quiesce_engine pid epoch token L) (\<lambda>L1.
            and_then (inspect_engine L1 pid) (\<lambda>v. Inr (L1, View_report v)))
      | Resume pid epoch token \<Rightarrow>
          and_then (resume_engine pid epoch token L) (\<lambda>L1.
            and_then (inspect_engine L1 pid) (\<lambda>v. Inr (L1, View_report v)))
      | Inspect pid \<Rightarrow> and_then (inspect_engine L pid) (\<lambda>v. Inr (L, View_report v)))"

section \<open>Worker health\<close>

datatype worker_kind = Activity_worker | Workflow_worker | Both_worker

datatype task_queue_type = Activity_queue | Workflow_queue

record worker =
  wr_deployment :: string
  wr_build :: string
  wr_queue :: string
  wr_kind :: worker_kind

record poller =
  pl_deployment :: string
  pl_build :: string
  pl_age :: int

text \<open>The routing of a deployment: the current version, and the deprecated text of it.\<close>

record routing =
  rt_deployment :: string
  rt_build :: string
  rt_version :: string

datatype deployment_answer = Not_found_rpc | Failed_rpc | Registered routing

datatype worker_status = Not_registered | No_recent_poller | Pending_promotion | Worker_ready

datatype health_status = Health_unavailable | Health_pending | Health_ready

fun queue_types :: "worker_kind \<Rightarrow> task_queue_type list" where
  "queue_types Activity_worker = [Activity_queue]"
| "queue_types Workflow_worker = [Workflow_queue]"
| "queue_types Both_worker = [Activity_queue, Workflow_queue]"

definition recent_poller :: "int \<Rightarrow> worker \<Rightarrow> poller \<Rightarrow> bool" where
  "recent_poller max_age w p \<longleftrightarrow>
     pl_deployment p = wr_deployment w \<and> pl_build p = wr_build w \<and> - seconds 5 \<le> pl_age p \<and> pl_age p \<le> max_age"

definition worker_polls :: "(string \<Rightarrow> task_queue_type \<Rightarrow> poller list) \<Rightarrow> int \<Rightarrow> worker \<Rightarrow> bool" where
  "worker_polls pollers max_age w \<longleftrightarrow>
     list_all (\<lambda>t. list_ex (recent_poller max_age w) (pollers (wr_queue w) t)) (queue_types (wr_kind w))"

definition worker_current :: "routing \<Rightarrow> worker \<Rightarrow> bool" where
  "worker_current rt w \<longleftrightarrow>
     (if rt_build rt = [] \<and> rt_version rt \<noteq> [] then rt_version rt = wr_deployment w @ ''.'' @ wr_build w
      else rt_deployment rt = wr_deployment w \<and> rt_build rt = wr_build w)"

definition worker_observed ::
    "(string \<Rightarrow> task_queue_type \<Rightarrow> poller list) \<Rightarrow> int \<Rightarrow> deployment_answer \<Rightarrow> worker \<Rightarrow> worker_status option" where
  "worker_observed pollers max_age reply w =
     (case reply of
        Failed_rpc \<Rightarrow> None
      | Not_found_rpc \<Rightarrow> Some Not_registered
      | Registered rt \<Rightarrow>
          Some (if \<not> worker_polls pollers max_age w then No_recent_poller
                else if \<not> worker_current rt w then Pending_promotion else Worker_ready))"

text \<open>All workers in turn; an RPC failure other than not-found is raised.\<close>

fun observe_workers ::
    "(worker \<Rightarrow> deployment_answer) \<Rightarrow> (string \<Rightarrow> task_queue_type \<Rightarrow> poller list) \<Rightarrow> int \<Rightarrow> worker list \<Rightarrow> worker_status list option" where
  "observe_workers replies pollers max_age [] = Some []"
| "observe_workers replies pollers max_age (w # ws) =
     (case worker_observed pollers max_age (replies w) w of
        None \<Rightarrow> None
      | Some s \<Rightarrow> map_option ((#) s) (observe_workers replies pollers max_age ws))"

definition health_of :: "worker_status list \<Rightarrow> health_status" where
  "health_of ss =
     (if Not_registered \<in> set ss \<or> No_recent_poller \<in> set ss then Health_unavailable
      else if Pending_promotion \<in> set ss then Health_pending else Health_ready)"

definition worker_health ::
    "(worker \<Rightarrow> deployment_answer) \<Rightarrow> (string \<Rightarrow> task_queue_type \<Rightarrow> poller list) \<Rightarrow> int \<Rightarrow> worker list \<Rightarrow>
     (health_status \<times> worker_status list) option" where
  "worker_health replies pollers max_age ws =
     map_option (\<lambda>ss. (health_of ss, ss)) (observe_workers replies pollers max_age ws)"

definition health_exit :: "bool \<Rightarrow> health_status \<Rightarrow> int" where
  "health_exit allow_unpromoted h =
     (case h of Health_unavailable \<Rightarrow> 1 | Health_pending \<Rightarrow> (if allow_unpromoted then 0 else 3) | Health_ready \<Rightarrow> 0)"

section \<open>Retention\<close>

record retention_counts =
  rn_roots :: "int \<times> int"           \<comment> \<open>all, and those ended before the cutoff\<close>
  rn_operations :: int
  rn_attempts :: "int \<times> int"        \<comment> \<open>all, and those that hold\<close>
  rn_submissions :: int
  rn_bindings :: int
  rn_outbox :: "int \<times> int"          \<comment> \<open>all, and those delivered before the cutoff\<close>
  rn_buffer :: "int \<times> int"          \<comment> \<open>batches and items\<close>
  rn_artifacts :: "int \<times> int"       \<comment> \<open>rows and keys\<close>

definition before_cutoff :: "int \<Rightarrow> int option \<Rightarrow> bool" where
  "before_cutoff cutoff t \<longleftrightarrow> (case t of None \<Rightarrow> False | Some t \<Rightarrow> t < cutoff)"

definition inventory_counts :: "int \<Rightarrow> ledger \<Rightarrow> buffer \<Rightarrow> retention_counts" where
  "inventory_counts cutoff L B =
     \<lparr>rn_roots = (int (length (t_roots L)), count_rows (\<lambda>r. before_cutoff cutoff (root_finished_at r) \<and> root_state r \<noteq> RUNNING) (t_roots L)),
      rn_operations = int (length (t_ops L)),
      rn_attempts = (int (length (t_attempts L)), count_rows (\<lambda>a. att_compute_held a \<or> att_budget_held a) (t_attempts L)),
      rn_submissions = int (length (t_submissions L)), rn_bindings = int (length (t_bindings L)),
      rn_outbox = (int (length (t_outbox L)), count_rows (\<lambda>e. before_cutoff cutoff (ev_delivered_at e)) (t_outbox L)),
      rn_buffer = (int (length (bf_batches B)), int (length (bf_items B))),
      rn_artifacts = (int (length (t_artifacts L)), int (length (remdups (map arow_object_key (t_artifacts L)))))\<rparr>"

text \<open>\<open>inventory\<close>: the cutoff is \<open>grace_days\<close> before now; nothing may be deleted.\<close>

definition inventory :: "int \<Rightarrow> int \<Rightarrow> ledger \<Rightarrow> buffer \<Rightarrow> retention_counts option" where
  "inventory grace_days now L B =
     (if grace_days < 1 then None else Some (inventory_counts (now - seconds (grace_days * 86400)) L B))"

record object_counts =
  oc_objects :: int
  oc_bytes :: int
  oc_aged_objects :: int
  oc_aged_bytes :: int
  oc_oldest :: "int option"

text \<open>\<open>object_inventory\<close>: the size and the time of each listed object, where the store tells them.\<close>

fun object_inventory :: "int \<Rightarrow> (int option \<times> int option) list \<Rightarrow> object_counts \<Rightarrow> object_counts" where
  "object_inventory cutoff [] n = n"
| "object_inventory cutoff ((bytes, modified) # os) n =
     (let b = or_else bytes 0;
          n1 = n\<lparr>oc_objects := oc_objects n + 1, oc_bytes := oc_bytes n + b\<rparr> in
      object_inventory cutoff os
        (case modified of
           None \<Rightarrow> n1
         | Some t \<Rightarrow>
             (let n2 = n1\<lparr>oc_oldest := Some (case oc_oldest n of None \<Rightarrow> t | Some u \<Rightarrow> min u t)\<rparr> in
              if t < cutoff then n2\<lparr>oc_aged_objects := oc_aged_objects n + 1, oc_aged_bytes := oc_aged_bytes n + b\<rparr> else n2)))"

section \<open>Facts\<close>

text \<open>
  The report is ready exactly when every worker is registered, current, and polled on every queue type
  of its kind; and an exit of zero means that, unless unpromoted workers are allowed.
\<close>

lemma observe_workers_all:
  "observe_workers replies pollers max_age ws = Some ss \<Longrightarrow>
   list_all2 (\<lambda>w s. worker_observed pollers max_age (replies w) w = Some s) ws ss"
  by (induction ws arbitrary: ss) (auto split: option.splits)

lemma worker_ready_iff:
  "worker_observed pollers max_age reply w = Some Worker_ready \<longleftrightarrow>
   (\<exists>rt. reply = Registered rt \<and> worker_polls pollers max_age w \<and> worker_current rt w)"
  by (auto simp: worker_observed_def split: deployment_answer.splits if_splits)

lemma health_ready_iff: "health_of ss = Health_ready \<longleftrightarrow> set ss \<subseteq> {Worker_ready}"
proof -
  have "s = Worker_ready \<longleftrightarrow> s \<notin> {Not_registered, No_recent_poller, Pending_promotion}" for s by (cases s) auto
  then show ?thesis by (auto simp: health_of_def)
qed

theorem health_ready_sound:
  assumes "worker_health replies pollers max_age ws = Some (h, ss)"
  shows "health_exit False h = 0 \<longleftrightarrow>
    (\<forall>w \<in> set ws. \<exists>rt. replies w = Registered rt \<and> worker_current rt w \<and> worker_polls pollers max_age w)"
proof -
  from assms have h: "h = health_of ss" and all: "observe_workers replies pollers max_age ws = Some ss"
    by (auto simp: worker_health_def)
  from observe_workers_all [OF all] have "set ss \<subseteq> {Worker_ready} \<longleftrightarrow>
      (\<forall>w \<in> set ws. worker_observed pollers max_age (replies w) w = Some Worker_ready)"
    by (induction rule: list_all2_induct) auto
  moreover have "health_exit False h = 0 \<longleftrightarrow> h = Health_ready" by (cases h) (simp_all add: health_exit_def)
  ultimately show ?thesis using health_ready_iff [of ss] unfolding h worker_ready_iff by blast
qed

text \<open>
  Maintenance is owned: after a quiesce the pool dispatches nothing, nobody with another token can
  quiesce or resume it, and its owner's resume succeeds only when no compute is held there.
\<close>

lemma quiesced:
  assumes "quiesce_engine pid epoch token L = Inr M"
  shows "\<exists>p. find_pool M pid = Some p \<and> pool_engine_epoch p = epoch \<and> pool_health p \<noteq> HEALTHY \<and> pool_quiesce_token p = Some token"
  using assms
  by (auto simp: quiesce_engine_def statement_defs row_simps dest: lookup_row_Some_key split: option.splits if_splits)

theorem maintenance_owned:
  assumes "run_engine_command loads fiso c (Quiesce pid epoch token) L = Inr (M, report)"
  shows "reserve_next lease c2 locked aid pid owner M = Inr (M, None) \<and>
    (other = token \<or> (\<forall>r. run_engine_command loads fiso c2 (Quiesce pid e2 other) M \<noteq> Inr r \<and>
                          run_engine_command loads fiso c2 (Resume pid e2 other) M \<noteq> Inr r)) \<and>
    ((\<forall>r. run_engine_command loads fiso c2 (Resume pid epoch token) M \<noteq> Inr r) \<or> compute_in_pool M pid = 0)"
proof -
  from assms have "quiesce_engine pid epoch token L = Inr M"
    by (auto simp: run_engine_command_def and_then_Inr_iff)
  from quiesced [OF this] obtain p where p: "find_pool M pid = Some p" "pool_health p \<noteq> HEALTHY" "pool_quiesce_token p = Some token"
    by blast
  have "reserve_next lease c2 locked aid pid owner M = Inr (M, None)" using p by (simp add: reserve_next_def)
  moreover have "quiesce_engine pid e2 other M \<noteq> Inr r \<and> resume_engine pid e2 other M \<noteq> Inr r" if "other \<noteq> token" for r
    using p that by (auto simp: quiesce_engine_def resume_engine_def)
  moreover have "compute_in_pool M pid = 0" if "resume_engine pid epoch token M = Inr r" for r
    using p that by (auto simp: resume_engine_def split: if_splits)
  ultimately show ?thesis by (auto simp: run_engine_command_def and_then_Inr_iff)
qed

lemma object_step:
  "\<exists>m. object_inventory cutoff (x # os) n = object_inventory cutoff os m \<and> oc_objects m = oc_objects n + 1 \<and>
     oc_aged_objects m \<le> oc_aged_objects n + 1"
  by (cases x) (auto simp: Let_def split: option.splits)

lemma inventory_objects:
  "oc_aged_objects (object_inventory cutoff os n) \<le> oc_aged_objects n + int (length os) \<and>
   oc_objects (object_inventory cutoff os n) = oc_objects n + int (length os)"
proof (induction os arbitrary: n)
  case (Cons x os)
  obtain m where m: "object_inventory cutoff (x # os) n = object_inventory cutoff os m"
    "oc_objects m = oc_objects n + 1" "oc_aged_objects m \<le> oc_aged_objects n + 1" using object_step by blast
  with Cons.IH [of m] show ?case unfolding m(1) by simp
qed simp

end
