(* ===== verification/Permit_Service.thy ===== *)
theory Permit_Service
  imports Executor Scheduler_Demo Api
begin

text \<open>
  The permit routes of the API process (\<open>api.py\<close>) between the scheduler and an executor's permit client
  (\<open>permits.py\<close>): the status and body the client gets for what the scheduler answered.
\<close>

section \<open>The routes\<close>

text \<open>\<open>TimeoutError\<close> is a 504, every other exception what the handlers make of it.\<close>

definition permit_error_status :: "error \<Rightarrow> int" where
  "permit_error_status e = (case e of PyTimeoutError _ \<Rightarrow> 504 | _ \<Rightarrow> int (error_status e))"

definition permit_body :: "int \<Rightarrow> string \<Rightarrow> permit \<Rightarrow> json" where
  "permit_body lease boot pm =
     JDict [(''attempt_id'', JString (pm_attempt_id pm)), (''pool_id'', JString (pm_pool_id pm)),
       (''engine_epoch'', JString (pm_epoch pm)), (''lease_seconds'', JInt lease), (''boot_generation'', JString boot)]"

text \<open>The answer to a turn of the scheduler's loop; nothing while the caller still waits.\<close>

definition acquire_answer :: "int \<Rightarrow> string \<Rightarrow> error + permit option \<Rightarrow> (int \<times> json option) option" where
  "acquire_answer lease boot r =
     (case r of
        Inl e \<Rightarrow> Some (permit_error_status e, None)
      | Inr None \<Rightarrow> None
      | Inr (Some pm) \<Rightarrow> Some (200, Some (permit_body lease boot pm)))"

definition heartbeat_answer :: "error + sched \<Rightarrow> int" where
  "heartbeat_answer r = (case r of Inl e \<Rightarrow> int (error_status e) | Inr _ \<Rightarrow> 200)"

definition release_answer :: "error + sched \<Rightarrow> int" where
  "release_answer r = (case r of Inl e \<Rightarrow> int (error_status e) | Inr _ \<Rightarrow> 200)"

section \<open>What the client takes for a permit\<close>

lemma error_is_not_ok: "error_status e \<noteq> 200" "permit_error_status e \<noteq> 200"
proof -
  show ok: "error_status e \<noteq> 200" by (cases e rule: error_status.cases) auto
  then show "permit_error_status e \<noteq> 200" by (auto simp: permit_error_status_def split: error.splits)
qed

lemma turn_permit:
  assumes "durable_turn cf c again spec owner epoch w S = (T, Inr (Some pm))"
  shows "find_permit T (wt_identity w) = Some pm"
  using assms
proof (cases rule: durable_turnE)
  case (granted p S1 pm')
  have "find_permit S1 (wt_identity w) = None"
    using granted(3) first_permits [OF granted(7)] by (simp add: held_permits_def expire_dirty_def Let_def)
  then show ?thesis
    using durable_grant_permits [OF granted(9)] granted(10) by (simp add: held_permits_def lookup_row_append)
next
  case stays
  then show ?thesis by (auto simp: held_permits_def expire_dirty_def Let_def)
qed auto

lemma released_permit:
  assumes "durable_release L k owner S = Inr T"
  shows "find_permit T k = None \<and> (find_permit S k \<noteq> None \<longrightarrow> \<not> attempt_compute_held L k)"
  using assms find_release [of k k S]
  by (auto simp: durable_release_def notify_def held_permits_def split: option.splits if_splits)

lemma extended_permit:
  assumes "durable_heartbeat cf c k owner S = Inr T"
  shows "\<exists>pm. find_permit T k = Some pm \<and> pm_owner_id pm = owner \<and> pm_lease_until pm = Some (mono c + cf_lease cf)"
proof -
  from assms obtain pm where pm: "find_permit S k = Some pm" "pm_owner_id pm = owner"
    and T: "T = set_permit k (set_lease (mono c + cf_lease cf)) S"
    by (auto simp: durable_heartbeat_def split: option.splits if_splits)
  have "pm_attempt_id pm = k" using pm(1) by (rule lookup_row_Some_key)
  with pm show ?thesis unfolding T
    by (subst find_set_permit) (auto simp: set_lease_def)
qed

text \<open>
  C24. What an executor takes for a permit is a permit. When its client accepts the answer of the acquire
  route, the scheduler holds a permit for exactly this attempt, of the reserved pool and engine epoch,
  and a permit that was granted there keeps the pool's limits; a heartbeat it accepts extended its own
  permit's lease; a release it accepts left no permit, and gave one up only for an attempt whose
  compute the ledger no longer counts.
\<close>
theorem executor_permit_is_held:
  assumes "sched_reachable cf S" and "durable_turn cf c again spec owner epoch w S = (T, r)"
    and "wt_identity w = rv_attempt_id rv" and "acquire_answer lease boot r = Some (status, body)"
    and "permit_status rv left status body = Some (Returned ())"
  shows "(\<exists>pm. r = Inr (Some pm) \<and> find_permit T (rv_attempt_id rv) = Some pm \<and> pm_pool_id pm = rv_pool_id rv \<and>
       pm_epoch pm = rv_engine_epoch rv) \<and>
    (find_permit S (rv_attempt_id rv) \<noteq> None \<or>
       (\<exists>p. find_mpool T (wt_pool_id w) = Some p \<and> within_limits p (wt_class w) T \<and> mp_epoch p = epoch)) \<and>
    (permit_call (Inr (heartbeat_answer (durable_heartbeat cf c (rv_attempt_id rv) me T))) \<noteq> Returned () \<or>
       (\<exists>U pm. durable_heartbeat cf c (rv_attempt_id rv) me T = Inr U \<and> find_permit U (rv_attempt_id rv) = Some pm \<and>
          pm_owner_id pm = me \<and> pm_lease_until pm = Some (mono c + cf_lease cf))) \<and>
    (permit_call (Inr (release_answer (durable_release L (rv_attempt_id rv) me T))) \<noteq> Returned () \<or>
       \<not> attempt_compute_held L (rv_attempt_id rv) \<and>
       (\<exists>U. durable_release L (rv_attempt_id rv) me T = Inr U \<and> find_permit U (rv_attempt_id rv) = None))"
proof -
  from assms(4,5) obtain pm where r: "r = Inr (Some pm)" and b: "status = 200" "body = Some (permit_body lease boot pm)"
    by (auto simp: acquire_answer_def permit_status_def error_is_not_ok split: sum.splits option.splits if_splits)
  have held: "find_permit T (rv_attempt_id rv) = Some pm" using turn_permit assms(2,3) r by metis
  have "pm_pool_id pm = rv_pool_id rv \<and> pm_epoch pm = rv_engine_epoch rv"
    using assms(5) b by (simp add: permit_status_def permit_body_def permit_identity_def jlookup_def split: if_splits)
  moreover have "find_permit S (rv_attempt_id rv) \<noteq> None \<or>
       (\<exists>p. find_mpool T (wt_pool_id w) = Some p \<and> within_limits p (wt_class w) T \<and> mp_epoch p = epoch)"
    using durable_grant_within_capacity [OF assms(1)] assms(2,3) r by metis
  moreover have "\<exists>U. x = Inr U" if "permit_call (Inr (heartbeat_answer x)) = Returned ()" for x :: "error + sched"
    using that by (cases x) (auto simp: permit_call_def heartbeat_answer_def error_is_not_ok split: if_splits)
  moreover have "\<exists>U. x = Inr U" if "permit_call (Inr (release_answer x)) = Returned ()" for x :: "error + sched"
    using that by (cases x) (auto simp: permit_call_def release_answer_def error_is_not_ok split: if_splits)
  ultimately show ?thesis using r held extended_permit released_permit by (metis option.distinct(1))
qed

theorem executor_permit_is_held_witness:
  "find_permit sd_durable ''a'' = Some sd_permit \<and>
   (\<exists>p. find_mpool sd_durable ''p'' = Some p \<and> within_limits p UserTask sd_durable \<and> mp_epoch p = ''e'')"
proof -
  have r: "durable_turn demo_config (at_time 21) None demo_op_spec ''w'' ''e'' sd_waiter sd_waits = (sd_durable, Inr (Some sd_permit))"
    using sd_durable_runs(2) unfolding sd_durable_def sd_turn_def [symmetric] by (metis prod.collapse)
  have ids: "rv_attempt_id demo_reservation = ''a''" "rv_pool_id demo_reservation = ''p''" "rv_engine_epoch demo_reservation = ''e''"
    by (simp_all add: demo_reservation_def)
  have w: "wt_identity sd_waiter = rv_attempt_id demo_reservation" by (simp add: sd_waiter_def ids)
  have a: "acquire_answer 30 ''b'' (Inr (Some sd_permit)) = Some (200, Some (permit_body 30 ''b'' sd_permit))"
    by (simp add: acquire_answer_def)
  have p: "permit_status demo_reservation 9 200 (Some (permit_body 30 ''b'' sd_permit)) = Some (Returned ())"
    by (simp add: permit_status_def permit_body_def permit_identity_def ids sd_permit_def jlookup_def)
  have "find_permit sd_waits ''a'' = None" by code_simp
  then show ?thesis
    using executor_permit_is_held [OF sd_durable_reachable(1) r w a p] by (auto simp: ids sd_waiter_def)
qed

end
