(* ===== verification/Spec2Isabelle.thy ===== *)
theory Spec2Isabelle
  imports Ledger_Properties Ledger_Sending Ledger_Settling Ledger_Closing Ledger_Recovery
    Scheduler_Demo Scheduler_Maintenance Direct_Settlement Direct_Dispatch Direct_Answers
    Executor_Demo Sdk_Demo Artifacts Buffer_Properties Preparation Controller Language_Properties
    Api_Properties Direct_Admission Admission
    Release_Properties Direct_Binding Profiles Wakeup Administration Permit_Service Language_Policy
begin

text \<open>
  A verification development for the inference runtime under \<open>src/src/intramind_runtime\<close>.

  The program. A PostgreSQL ledger (\<open>store.py\<close>) owns roots (runs with a budget and a
  deadline), operations (one inference each), attempts (one execution of an operation by one
  executor), engine pools, and an outbox of Temporal events. Executors reserve operations,
  ask the API process for a slot, send, and settle. The API process keeps its slots in memory
  (\<open>memory_scheduler.py\<close>). A reconciliation pass and the engine watchdog repair what lost
  owners and stopped engines leave behind.

  Theories. \<open>Prelude\<close>: results, tables as lists of rows. \<open>Json\<close>: decoded JSON.
  \<open>Contracts\<close>: \<open>contracts.py\<close>, \<open>direct.py\<close>, \<open>workload.py\<close>, \<open>epochs.py\<close>.
  \<open>Ledger\<close>, \<open>Ledger_Submit\<close>, \<open>Ledger_Dispatch\<close>, \<open>Ledger_Runs\<close>,
  \<open>Ledger_Reconcile\<close>: the tables and every transaction of \<open>store.py\<close>, one function per
  transaction, in the order of the source. \<open>Ledger_Outbox\<close>: the outbox of \<open>store.py\<close> and
  \<open>temporal_adapter.py\<close>.

  The scheduler. \<open>Scheduler\<close> (state, \<open>SlotCapacity\<close>, the waiting queue),
  \<open>Scheduler_Direct\<close> (direct requests), \<open>Scheduler_Durable\<close> (permits of durable attempts)
  and \<open>Scheduler_Upkeep\<close> (refresh, start, probes, reconciliation, expiry, metrics) hold one
  function per stretch of \<open>memory_scheduler.py\<close> between two awaits. \<open>Transitions\<close> is the
  interface of a system with an invariant; \<open>Scheduler_Queue\<close> states what a priority queue
  promises and that the heap of a pool keeps it; \<open>Scheduler_Machine\<close> is the invariant
  (\<open>sched_ok\<close>), \<open>Scheduler_Steps\<close> and \<open>Scheduler_System\<close> prove that every operation keeps it
  and make the step relation. \<open>Scheduler_Capacity\<close> (limits and order of grants),
  \<open>Scheduler_Safety\<close> (refusals, conflicts, ended attempts) and \<open>Scheduler_Recovery\<close> (proofs
  of termination, reconciliation, restart) hold the properties; \<open>Scheduler_Demo\<close> a concrete
  history with their witnesses. \<open>Scheduler_Maintenance\<close> is the maintenance loop, from one await to the
  next, among the turns of the requests: a path of the scheduler's relation that also tells when
  admission is open.

  The direct proxy. \<open>Direct_Attempt\<close> is one exchange with an engine and its settlement,
  \<open>Direct_Proxy\<close> the waiting requests of an endpoint and one turn of its dispatcher,
  \<open>Direct_Produce\<close> opening, the sequence of attempts of a request and the channel to its
  caller (\<open>direct_proxy.py\<close>). \<open>Direct_Settlement\<close> (streams, proofs of termination),
  \<open>Direct_Dispatch\<close> (no permit is kept, recovery, a defect) and \<open>Direct_Answers\<close> (the
  producer, opening, the channel) hold the properties, over the scheduler's own operations.

  Durable execution. \<open>Executor\<close> is one tick of an executor (\<open>executor.py\<close>, \<open>permits.py\<close>): every
  call in order, with what the store, the permit service and the driver answer as arguments.
  \<open>Drivers\<close> holds the drivers, validators and preparers of \<open>drivers.py\<close>, \<open>speech.py\<close>,
  \<open>embedding.py\<close> and \<open>rerank.py\<close>. \<open>Executor_Properties\<close>, \<open>Driver_Properties\<close> and
  \<open>Executor_Demo\<close> hold their properties and witnesses.

  Workflows. \<open>Sdk\<close>, \<open>Sdk_Children\<close> and \<open>Sdk_Task\<close> are the workflow context of \<open>sdk.py\<close>:
  identities, commands and their deadlines, rolling and batched children, rollover, the end of a task.
  \<open>Model_Step\<close> is \<open>model_step.py\<close>: a leaf replayed against the record of its calls.
  \<open>Sdk_Properties\<close> and \<open>Sdk_Demo\<close> follow.

  Data. \<open>Artifacts\<close> (\<open>artifacts.py\<close>: the spool budget, verified writes and reads),
  \<open>Buffering\<close> and \<open>Buffer_Properties\<close> (\<open>buffering.py\<close>: buffered submissions, sealed into batches),
  \<open>Preparation\<close> (\<open>preparation.py\<close>: conversations and their size), \<open>Language\<close> and
  \<open>Language_Properties\<close> (\<open>language.py\<close>: inspection and repair of an answer's language),
  \<open>Language_Policy\<close> (the rest of it, with the decision of \<open>language_detection.py\<close>),
  \<open>Controller\<close> (\<open>controller.py\<close>).

  The edge. \<open>Uploads\<close> moves artifacts over HTTP (\<open>uploads.py\<close>, the file transfers of
  \<open>client.py\<close>). \<open>Api\<close> composes authentication, routes and the exception handlers of
  \<open>api.py\<close> over the ledger, the buffer and the store; \<open>Api_Properties\<close> shows that tenants are
  isolated. \<open>Direct_Routes\<close> is \<open>direct_routes.py\<close>, from headers and body to the call of the
  proxy, and \<open>Direct_Admission\<close> shows that the proxy accepts what a route lets through.
  \<open>Stream_Client\<close> (\<open>direct_client.py\<close>) reads a managed stream and \<open>Admission\<close>
  (\<open>admission.py\<close>) observes one: both are stated over the frames \<open>Direct_Attempt\<close> sends.
  \<open>Direct_Binding\<close> is the rest of \<open>direct_client.py\<close>: what a bound caller may send, the headers it
  sends and the routing to a binding, joined to the API's reading of these headers.
  \<open>Permit_Service\<close> is the API's permit routes between the executor's client and the scheduler.

  Operation. \<open>Profiles\<close> (\<open>cli.py\<close>, \<open>DirectProxy.__init__\<close>) makes the sizers, profiles, direct
  endpoints and executor workers a configuration asks for, or refuses it. \<open>Wakeup\<close> (\<open>wakeup.py\<close>, the
  loop of \<open>cli.py\<close>) is the polling loop, the signal it waits on and the connection that carries it,
  as a step relation. \<open>Administration\<close> (\<open>admin.py\<close>, \<open>retention_inventory.py\<close>) holds the
  engine commands over the ledger, the health of workers and the inventory. \<open>Release_Gate\<close> and
  \<open>Release_Properties\<close> (\<open>release_gate.py\<close>) decide from a manifest, the bytes of its reports and
  the parsers of JSON and XML whether a release may go out, and show what that rests on.

  The specification of the ledger. \<open>Protocol\<close> is what the ledger promises, stated over rows that keep only
  identities, states, holds and budgets, as a step relation with one rule per kind of change.
  \<open>Protocol_Invariants\<close>, \<open>Protocol_Accounts\<close>, \<open>Protocol_Safety\<close> and
  \<open>Protocol_Progress\<close> prove its invariants and that it only moves forward. \<open>Ledger_Abs\<close>
  maps a ledger to it; \<open>Ledger_Refine\<close>, \<open>Ledger_Refine_Attempts\<close> and
  \<open>Ledger_Refine_Recovery\<close> show that every transaction that commits is a path of it, and
  \<open>Ledger_Machine\<close> collects the transactions into one step relation whose reachable ledgers
  therefore satisfy every invariant.

  Properties. \<open>Ledger_Properties\<close> holds those of every reachable ledger and of every history;
  \<open>Ledger_Sending\<close>, \<open>Ledger_Settling\<close>, \<open>Ledger_Closing\<close> and \<open>Ledger_Recovery\<close> hold
  those of single operations. \<open>Ledger_Demo\<close> holds concrete ledgers the witnesses use.

  Reading of the code. A transaction is atomic: the interleavings that PostgreSQL's read
  committed isolation allows inside one are not modelled. Every clock the code reads (\<open>now()\<close>,
  \<open>clock_timestamp()\<close>, the process clock) is an argument (\<open>clocks\<close>), with no relation
  between them assumed. SHA-256, JSON decoding and encoding, time parsing, MinIO, Temporal, the
  engines and the HTTP libraries are arguments; a property that needs more of one of them than
  that it is a function names it as a hypothesis. Every loop of the code is a structural recursion
  or terminates by a measure, so no fuel is needed; bounds such as 16 MiB are the constants of the source.

  Not modelled: pydantic's decoding of a body into a record; argument parsing, signals and the
  wiring of processes (\<open>cli.py\<close>, the \<open>main\<close> functions); the API's lifespan and its profile, health and
  metrics routes; the client methods that only forward JSON; the namespace and promotion
  commands of \<open>admin.py\<close>, which only call Temporal; the scores of the third-party language
  detector; settings, metrics and logging.
\<close>

end
